(* ===== verification/Prelude.thy ===== *)
theory Prelude
  imports Complex_Main "HOL-Library.AList" "HOL-Library.Sublist"
begin

text \<open>
  Shared vocabulary of the development: the result type of fallible code and its
  bind, JavaScript strings (lists of 8-bit characters here, UTF-16 code units in the
  program), splitting and joining, decimal printing, the conversion of a string to a
  number that \<^verbatim>\<open>Number(s)\<close> and the loose equality operator perform, and the lemmas
  on these and on association lists that the component theories share.
\<close>

named_theorems str_simps \<open>splitting, joining and printing strings\<close>
named_theorems cache_simps \<open>operations of the cache\<close>
named_theorems res_simps \<open>results and their bind\<close>

section \<open>Results of fallible code\<close>

type_synonym ('e, 'a) res = "'e + 'a"

definition bind_res :: "('e, 'a) res \<Rightarrow> ('a \<Rightarrow> ('e, 'b) res) \<Rightarrow> ('e, 'b) res" where
  "bind_res r f = (case r of Inl e \<Rightarrow> Inl e | Inr x \<Rightarrow> f x)"

lemma bind_res_simps [simp, res_simps]:
  "bind_res (Inl e) f = Inl e"
  "bind_res (Inr x) f = f x"
  by (simp_all add: bind_res_def)

lemma bind_res_eq_Inr [res_simps]:
  "bind_res r f = Inr y \<longleftrightarrow> (\<exists>x. r = Inr x \<and> f x = Inr y)"
  by (cases r) simp_all

lemma bind_res_eq_Inl [res_simps]:
  "bind_res r f = Inl e \<longleftrightarrow> r = Inl e \<or> (\<exists>x. r = Inr x \<and> f x = Inl e)"
  by (cases r) simp_all

lemma bind_res_assoc: "bind_res (bind_res r f) g = bind_res r (\<lambda>x. bind_res (f x) g)"
  by (cases r) simp_all

section \<open>Strings\<close>

text \<open>\<^verbatim>\<open>s.split(d)\<close> for a separator of one character, and \<^verbatim>\<open>ws.join(d)\<close>.\<close>

fun split_on :: "char \<Rightarrow> string \<Rightarrow> string list" where
  "split_on d [] = [[]]"
| "split_on d (c # cs) =
     (if c = d then [] # split_on d cs
      else (case split_on d cs of [] \<Rightarrow> [[c]] | w # ws \<Rightarrow> (c # w) # ws))"

fun join_with :: "string \<Rightarrow> string list \<Rightarrow> string" where
  "join_with d [] = []"
| "join_with d [w] = w"
| "join_with d (w # v # ws) = w @ d @ join_with d (v # ws)"

lemma split_on_not_Nil [simp]: "split_on d s \<noteq> []"
  by (induction s) (auto split: list.splits)

lemma split_on_free [str_simps]: "d \<notin> set w \<Longrightarrow> split_on d w = [w]"
  by (induction w) auto

lemma split_on_append [str_simps]:
  "d \<notin> set w \<Longrightarrow> split_on d (w @ d # s) = w # split_on d s"
  by (induction w) auto

lemma join_split_on: "join_with [d] (split_on d s) = s"
proof (induction s)
  case (Cons c s)
  then show ?case
    by (cases "split_on d s"; cases "tl (split_on d s)") auto
qed simp

lemma split_on_pieces: "w \<in> set (split_on d s) \<Longrightarrow> d \<notin> set w"
  by (induction s arbitrary: w) (auto split: list.splits if_splits)

text \<open>Printing of a natural number in decimal, and reading it back.\<close>

definition digit_char :: "nat \<Rightarrow> char" where
  "digit_char n = char_of (48 + n)"

definition digit_of :: "char \<Rightarrow> nat option" where
  "digit_of c = (let n = of_char c in if 48 \<le> n \<and> n \<le> 57 then Some (n - 48) else None)"

fun nat_str :: "nat \<Rightarrow> string" where
  "nat_str n = (if n < 10 then [digit_char n] else nat_str (n div 10) @ [digit_char (n mod 10)])"

declare nat_str.simps [simp del]

fun digits_from :: "nat \<Rightarrow> string \<Rightarrow> nat option" where
  "digits_from acc [] = Some acc"
| "digits_from acc (c # cs) =
     (case digit_of c of None \<Rightarrow> None | Some d \<Rightarrow> digits_from (10 * acc + d) cs)"

definition is_digits :: "string \<Rightarrow> bool" where
  "is_digits s \<longleftrightarrow> s \<noteq> [] \<and> (\<forall>c \<in> set s. digit_of c \<noteq> None)"

definition digits_val :: "string \<Rightarrow> nat" where
  "digits_val s = foldl (\<lambda>acc c. 10 * acc + (case digit_of c of None \<Rightarrow> 0 | Some d \<Rightarrow> d)) 0 s"

lemma of_char_digit_char: "n < 10 \<Longrightarrow> of_char (digit_char n) = (48 + n :: nat)"
  by (simp add: digit_char_def)

lemma digit_of_digit_char [simp]: "n < 10 \<Longrightarrow> digit_of (digit_char n) = Some n"
  by (simp add: digit_of_def of_char_digit_char)

lemma nat_str_not_Nil [simp]: "nat_str n \<noteq> []"
  by (subst nat_str.simps) simp

lemma nat_str_digits: "c \<in> set (nat_str n) \<Longrightarrow> digit_of c \<noteq> None"
  by (induction n rule: nat_str.induct) (subst (asm) (2) nat_str.simps, auto split: if_splits)

lemma is_digits_nat_str [simp]: "is_digits (nat_str n)"
  by (auto simp: is_digits_def dest: nat_str_digits)

lemma digits_val_snoc:
  "digits_val (s @ [c]) = 10 * digits_val s + (case digit_of c of None \<Rightarrow> 0 | Some d \<Rightarrow> d)"
  by (simp add: digits_val_def)

lemma digits_val_nat_str [simp]: "digits_val (nat_str n) = n"
proof (induction n rule: nat_str.induct)
  case (1 n)
  show ?case
  proof (cases "n < 10")
    case True
    then show ?thesis by (subst nat_str.simps) (simp add: digits_val_def)
  next
    case False
    then show ?thesis
      by (subst nat_str.simps) (use 1 in \<open>simp add: digits_val_snoc\<close>)
  qed
qed

lemma nat_str_inj [simp]: "nat_str m = nat_str n \<longleftrightarrow> m = n"
  by (metis digits_val_nat_str)

lemma nondigit_not_in_nat_str [str_simps]: "digit_of c = None \<Longrightarrow> c \<notin> set (nat_str n)"
  using nat_str_digits by blast

lemma digit_of_colon [simp]: "digit_of CHR '':'' = None"
  by (simp add: digit_of_def)

definition int_str :: "int \<Rightarrow> string" where
  "int_str i = (if i < 0 then CHR ''-'' # nat_str (nat (- i)) else nat_str (nat i))"

section \<open>Strings to numbers\<close>

text \<open>
  \<^verbatim>\<open>Number(s)\<close>: surrounding white space is ignored, the empty string is 0, a sign,
  a decimal literal with an optional fraction and exponent, \<^verbatim>\<open>Infinity\<close>, and the
  \<^verbatim>\<open>0x\<close>, \<^verbatim>\<open>0o\<close> and \<^verbatim>\<open>0b\<close> literals are read; everything else is
  \<^verbatim>\<open>NaN\<close>. Values are exact rationals: rounding to a double is not modelled.
\<close>

datatype js_num = NaN | Fin rat | Inf bool

definition is_space :: "char \<Rightarrow> bool" where
  "is_space c \<longleftrightarrow> c \<in> set [CHR '' '', CHR 0x09, CHR 0x0A, CHR 0x0B, CHR 0x0C, CHR 0x0D, CHR 0xA0]"

definition trim_str :: "string \<Rightarrow> string" where
  "trim_str s = rev (dropWhile is_space (rev (dropWhile is_space s)))"

definition radix_digit :: "char \<Rightarrow> nat option" where
  "radix_digit c =
     (let n = of_char c in
      if 48 \<le> n \<and> n \<le> 57 then Some (n - 48)
      else if 97 \<le> n \<and> n \<le> 102 then Some (n - 87)
      else if 65 \<le> n \<and> n \<le> 70 then Some (n - 55) else None)"

fun radix_num :: "nat \<Rightarrow> nat \<Rightarrow> string \<Rightarrow> nat option" where
  "radix_num b acc [] = Some acc"
| "radix_num b acc (c # cs) =
     (case radix_digit c of
        None \<Rightarrow> None
      | Some d \<Rightarrow> if d < b then radix_num b (b * acc + d) cs else None)"

definition fin_nat :: "nat option \<Rightarrow> js_num" where
  "fin_nat r = (case r of None \<Rightarrow> NaN | Some n \<Rightarrow> Fin (of_nat n))"

text \<open>An unsigned decimal literal: whole part, fraction, exponent.\<close>

definition exp_val :: "string \<Rightarrow> int option" where
  "exp_val s =
     (case s of
        c # cs \<Rightarrow>
          if c = CHR ''-'' then (if is_digits cs then Some (- int (digits_val cs)) else None)
          else if c = CHR ''+'' then (if is_digits cs then Some (int (digits_val cs)) else None)
          else if is_digits s then Some (int (digits_val s)) else None
      | [] \<Rightarrow> None)"

definition pow10 :: "int \<Rightarrow> rat" where
  "pow10 e = (if 0 \<le> e then 10 ^ nat e else 1 / 10 ^ nat (- e))"

definition dec_num :: "string \<Rightarrow> js_num" where
  "dec_num s =
     (let m = takeWhile (\<lambda>c. c \<noteq> CHR ''e'' \<and> c \<noteq> CHR ''E'') s;
          x = drop (length m) s;
          w = takeWhile (\<lambda>c. c \<noteq> CHR ''.'') m;
          f = drop (length w + 1) m
      in if (w = [] \<or> is_digits w) \<and> (f = [] \<or> is_digits f) \<and> (w \<noteq> [] \<or> f \<noteq> [])
         then (case (if x = [] then Some 0 else exp_val (tl x)) of
                 None \<Rightarrow> NaN
               | Some e \<Rightarrow>
                   Fin ((of_nat (digits_val (w @ f)) / 10 ^ length f) * pow10 e))
         else NaN)"

definition unsigned_num :: "string \<Rightarrow> js_num" where
  "unsigned_num s = (if s = ''Infinity'' then Inf True else dec_num s)"

definition neg_num :: "js_num \<Rightarrow> js_num" where
  "neg_num n = (case n of NaN \<Rightarrow> NaN | Fin q \<Rightarrow> Fin (- q) | Inf b \<Rightarrow> Inf (\<not> b))"

definition js_number :: "string \<Rightarrow> js_num" where
  "js_number s =
     (case trim_str s of
        [] \<Rightarrow> Fin 0
      | c # cs \<Rightarrow>
          if c = CHR ''-'' then neg_num (unsigned_num cs)
          else if c = CHR ''+'' then unsigned_num cs
          else if c = CHR ''0'' \<and> cs \<noteq> [] \<and> hd cs \<in> {CHR ''x'', CHR ''X''} \<and> tl cs \<noteq> []
            then fin_nat (radix_num 16 0 (tl cs))
          else if c = CHR ''0'' \<and> cs \<noteq> [] \<and> hd cs \<in> {CHR ''o'', CHR ''O''} \<and> tl cs \<noteq> []
            then fin_nat (radix_num 8 0 (tl cs))
          else if c = CHR ''0'' \<and> cs \<noteq> [] \<and> hd cs \<in> {CHR ''b'', CHR ''B''} \<and> tl cs \<noteq> []
            then fin_nat (radix_num 2 0 (tl cs))
          else unsigned_num (c # cs))"
section \<open>State machines\<close>

text \<open>A step relation with its initial state and an invariant of it; the components that are state
  machines interpret it.\<close>

locale transition_system =
  fixes step :: "'s \<Rightarrow> 's \<Rightarrow> bool"
    and init :: 's
    and inv :: "'s \<Rightarrow> bool"
  assumes start: "inv init"
    and keep: "step s s' \<Longrightarrow> inv s \<Longrightarrow> inv s'"
begin

lemma continues: "step\<^sup>*\<^sup>* s s' \<Longrightarrow> inv s \<Longrightarrow> inv s'"
  by (induction rule: rtranclp_induct) (auto intro: keep)

lemma reachable: "step\<^sup>*\<^sup>* init s \<Longrightarrow> inv s"
  using continues start by blast

end

end
