(* ===== verification/Identifiers.thy ===== *)
theory Identifiers
  imports Prelude
begin

text \<open>
  Identifiers of a station inside one tenant (packages/base/src/util/identifiers.ts): the
  tenant id and the connection name joined by a colon. They key the connection and
  transaction entries of the cache and the subscriptions of the message queue.
\<close>

abbreviation identifier_delimiter :: char where
  "identifier_delimiter \<equiv> CHR '':''"

definition default_tenant_id :: nat where
  "default_tenant_id = 1"

definition getCacheTenantPathMappingKey :: "string \<Rightarrow> string \<Rightarrow> string" where
  "getCacheTenantPathMappingKey serverId path = serverId @ '':'' @ path"

text \<open>The text of a number. Tenant ids are integers: the text of other numbers is given as a
  fraction, which the program would print as a decimal.\<close>

definition num_str :: "js_num \<Rightarrow> string" where
  "num_str n =
     (case n of
        NaN \<Rightarrow> ''NaN''
      | Inf b \<Rightarrow> if b then ''Infinity'' else ''-Infinity''
      | Fin q \<Rightarrow> (let (a, b) = quotient_of q in
                   if b = 1 then int_str a else int_str a @ ''/'' @ int_str b))"

abbreviation tenant :: "nat \<Rightarrow> js_num" where
  "tenant t \<equiv> Fin (of_nat t)"

definition createIdentifier :: "js_num \<Rightarrow> string list \<Rightarrow> string" where
  "createIdentifier tenantId args = join_with [identifier_delimiter] (num_str tenantId # args)"

definition getTenantIdFromIdentifier :: "string \<Rightarrow> js_num" where
  "getTenantIdFromIdentifier identifier =
     (case split_on identifier_delimiter identifier of
        (c # cs) # _ \<Rightarrow> js_number (c # cs)
      | _ \<Rightarrow> Fin (of_nat default_tenant_id))"

definition getStationIdFromIdentifier :: "string \<Rightarrow> string" where
  "getStationIdFromIdentifier identifier =
     (case split_on identifier_delimiter identifier of
        _ # s # _ \<Rightarrow> s
      | _ \<Rightarrow> identifier)"

section \<open>Reading a decimal tenant id back\<close>

lemma is_digits_no_space:
  assumes "is_digits s" "c \<in> set s"
  shows "\<not> is_space c" "c \<noteq> CHR ''e''" "c \<noteq> CHR ''E''" "c \<noteq> CHR ''.''"
    "c \<noteq> CHR ''-''" "c \<noteq> CHR ''+''" "c \<noteq> CHR ''I''"
    "c \<noteq> CHR ''x''" "c \<noteq> CHR ''X''" "c \<noteq> CHR ''o''" "c \<noteq> CHR ''O''"
    "c \<noteq> CHR ''b''" "c \<noteq> CHR ''B''"
  using assms by (auto simp: is_digits_def is_space_def digit_of_def)

lemma dropWhile_none: "\<forall>c\<in>set s. \<not> P c \<Longrightarrow> dropWhile P s = s"
  by (cases s) auto

lemma takeWhile_all: "\<forall>c\<in>set s. P c \<Longrightarrow> takeWhile P s = s"
  by (induction s) auto

lemma trim_str_digits: "is_digits s \<Longrightarrow> trim_str s = s"
  by (simp add: trim_str_def dropWhile_none is_digits_no_space)

lemma dec_num_digits:
  assumes "is_digits s"
  shows "dec_num s = Fin (of_nat (digits_val s))"
proof -
  have tw: "takeWhile (\<lambda>c. c \<noteq> CHR ''e'' \<and> c \<noteq> CHR ''E'') s = s"
    "takeWhile (\<lambda>c. c \<noteq> CHR ''.'') s = s"
    using is_digits_no_space [OF assms] by (auto intro!: takeWhile_all)
  have "s \<noteq> []" using assms by (simp add: is_digits_def)
  then show ?thesis
    unfolding dec_num_def Let_def tw by (simp add: assms pow10_def)
qed

lemma js_number_digits:
  assumes "is_digits s"
  shows "js_number s = Fin (of_nat (digits_val s))"
proof -
  obtain c cs where s: "s = c # cs" using assms by (cases s) (auto simp: is_digits_def)
  have c: "c \<noteq> CHR ''-''" "c \<noteq> CHR ''+''" "c \<noteq> CHR ''I''"
    using is_digits_no_space [OF assms, of c] s by simp_all
  have h: "cs \<noteq> [] \<Longrightarrow> hd cs \<notin> {CHR ''x'', CHR ''X''} \<and> hd cs \<notin> {CHR ''o'', CHR ''O''}
      \<and> hd cs \<notin> {CHR ''b'', CHR ''B''}"
    using is_digits_no_space [OF assms, of "hd cs"] s by simp
  have u: "unsigned_num (c # cs) = Fin (of_nat (digits_val s))"
    using c dec_num_digits [OF assms] by (simp add: unsigned_num_def s)
  have t: "trim_str s = c # cs" using trim_str_digits [OF assms] s by simp
  have n: "\<not> (c = CHR ''0'' \<and> cs \<noteq> [] \<and> hd cs \<in> S \<and> tl cs \<noteq> [])"
    if "cs \<noteq> [] \<Longrightarrow> hd cs \<notin> S" for S using that by blast
  show ?thesis
    unfolding js_number_def t list.case
    using n [of "{CHR ''x'', CHR ''X''}"] n [of "{CHR ''o'', CHR ''O''}"]
      n [of "{CHR ''b'', CHR ''B''}"] h c u by presburger
qed

lemma num_str_tenant [simp]: "num_str (tenant t) = nat_str t"
proof -
  have "quotient_of (of_nat t) = (int t, 1)" using quotient_of_int [of "int t"] by simp
  then show ?thesis by (simp add: num_str_def int_str_def)
qed

lemma split_createIdentifier:
  "split_on CHR '':'' (createIdentifier (tenant t) (n # ns)) = nat_str t # split_on CHR '':'' (join_with '':'' (n # ns))"
  by (simp add: createIdentifier_def split_on_append nondigit_not_in_nat_str)

lemma createIdentifier_simp: "createIdentifier (tenant t) [n] = nat_str t @ CHR '':'' # n"
  by (simp add: createIdentifier_def)

lemma tenant_id_of_identifier:
  "getTenantIdFromIdentifier (createIdentifier (tenant t) [n]) = tenant t"
proof -
  have "nat_str t = hd (nat_str t) # tl (nat_str t)" by simp
  then show ?thesis
    unfolding getTenantIdFromIdentifier_def split_createIdentifier
    by (metis (no_types, lifting) digits_val_nat_str is_digits_nat_str js_number_digits list.simps(5))
qed

text \<open>The tenant id of an identifier is always recovered, whatever the connection name is.\<close>
lemma tenant_id_roundtrip:
  "getTenantIdFromIdentifier (createIdentifier (tenant t) [n]) = tenant t"
  by (rule tenant_id_of_identifier)

lemma station_id_roundtrip:
  "CHR '':'' \<notin> set n \<Longrightarrow> getStationIdFromIdentifier (createIdentifier (tenant t) [n]) = n"
  by (simp add: getStationIdFromIdentifier_def split_createIdentifier split_on_free)

lemma station_id_prefix:
  "getStationIdFromIdentifier (createIdentifier (tenant t) [n]) = takeWhile (\<lambda>c. c \<noteq> CHR '':'') n"
proof -
  have "hd (split_on CHR '':'' n) = takeWhile (\<lambda>c. c \<noteq> CHR '':'') n"
    by (induction n) (auto split: list.splits)
  then show ?thesis
    by (cases "split_on CHR '':'' n") (auto simp: getStationIdFromIdentifier_def split_createIdentifier)
qed

lemma createIdentifier_inject:
  "createIdentifier (tenant t) [n] = createIdentifier (tenant u) [m] \<longleftrightarrow> t = u \<and> n = m"
proof
  assume eq: "createIdentifier (tenant t) [n] = createIdentifier (tenant u) [m]"
  have "nat_str t = nat_str u"
    using arg_cong [OF eq, of "split_on CHR '':''"] by (simp add: split_createIdentifier)
  then show "t = u \<and> n = m" using eq by (auto simp: createIdentifier_simp)
qed auto

end
