(* ===== verification/MemoryCache.thy ===== *)
theory MemoryCache
  imports Identifiers
begin

text \<open>
  The in-memory cache (packages/core/src/util/cache/memory.ts): an insertion ordered map of
  namespaced keys, the recorded timer handles (field timeouts), the timers pending in the
  event loop, and the promises of onChange. The event loop is part of the state: a timer
  fires by the operation fire, which is enabled from its deadline on, and the clock moves
  by tick. The variants of get and remove that revive the text with a class constructor
  of the library class-transformer are not modelled.
\<close>

section \<open>State\<close>

datatype timer_action =
    Expire string           \<comment> \<open>the callback of set, setIfNotExist and updateExpiration\<close>
  | WaitTimeout nat string  \<comment> \<open>the callback of onChange: resolve the waiter with get of the key\<close>

record mem_cache =
  cache :: "(string \<times> string) list"
  timeouts :: "(string \<times> nat) list"
  timers :: "(nat \<times> timer_action \<times> nat) list"
  next_handle :: nat
  now :: nat
  subscriptions :: "(string \<times> nat) list"  \<comment> \<open>key to pending promise\<close>
  waiters :: "(nat \<times> nat) list"           \<comment> \<open>onChange call to the promise it races\<close>
  results :: "(nat \<times> string option) list" \<comment> \<open>onChange call to the value it resolved with\<close>

definition empty_cache :: mem_cache where
  "empty_cache = \<lparr> cache = [], timeouts = [], timers = [], next_handle = 0, now = 0,
     subscriptions = [], waiters = [], results = [] \<rparr>"

definition ns_key :: "string \<Rightarrow> string option \<Rightarrow> string" where
  "ns_key key namespace =
     (case namespace of
        Some (c # cs) \<Rightarrow> (c # cs) @ '':'' @ key
      | _ \<Rightarrow> ''default:'' @ key)"

text \<open>The delay the event loop uses for a timer of d milliseconds: at least 1, and 1 when d
  does not fit a signed 32-bit integer.\<close>

definition timer_delay :: "int \<Rightarrow> nat" where
  "timer_delay d = (if d < 1 \<or> 2147483647 < d then 1 else nat d)"

definition set_timeout :: "timer_action \<Rightarrow> int \<Rightarrow> mem_cache \<Rightarrow> nat \<times> mem_cache" where
  "set_timeout a d st =
     (next_handle st,
      st\<lparr> timers := timers st @ [(next_handle st, a, now st + timer_delay d)],
          next_handle := Suc (next_handle st) \<rparr>)"

definition clear_timeout :: "nat \<Rightarrow> mem_cache \<Rightarrow> mem_cache" where
  "clear_timeout h st = st\<lparr> timers := filter (\<lambda>t. fst t \<noteq> h) (timers st) \<rparr>"

section \<open>Operations\<close>

definition exists_key :: "string \<Rightarrow> string option \<Rightarrow> mem_cache \<Rightarrow> bool" where
  "exists_key key ns st = (map_of (cache st) (ns_key key ns) \<noteq> None)"

definition existsAnyInNamespace :: "string \<Rightarrow> mem_cache \<Rightarrow> bool" where
  "existsAnyInNamespace ns st = (\<exists>kv \<in> set (cache st). prefix (ns @ '':'') (fst kv))"

definition remove_key :: "string \<Rightarrow> string option \<Rightarrow> mem_cache \<Rightarrow> string option \<times> mem_cache" where
  "remove_key key ns st =
     (map_of (cache st) (ns_key key ns), st\<lparr> cache := AList.delete (ns_key key ns) (cache st) \<rparr>)"

definition get_raw :: "string \<Rightarrow> mem_cache \<Rightarrow> string option" where
  "get_raw k st = (case map_of (cache st) k of Some (c # cs) \<Rightarrow> Some (c # cs) | _ \<Rightarrow> None)"

definition get_key :: "string \<Rightarrow> string option \<Rightarrow> mem_cache \<Rightarrow> string option" where
  "get_key key ns st = get_raw (ns_key key ns) st"

definition settle :: "nat list \<Rightarrow> string option \<Rightarrow> mem_cache \<Rightarrow> mem_cache" where
  "settle ws v st =
     st\<lparr> results := results st @ map (\<lambda>w. (w, v)) (filter (\<lambda>w. map_of (results st) w = None) ws) \<rparr>"

definition resolveOnChange :: "string \<Rightarrow> string \<Rightarrow> mem_cache \<Rightarrow> mem_cache" where
  "resolveOnChange k v st =
     (case map_of (subscriptions st) k of
        None \<Rightarrow> st
      | Some p \<Rightarrow>
          (settle (map fst (filter (\<lambda>w. snd w = p) (waiters st))) (Some v) st)
            \<lparr> subscriptions := AList.delete k (subscriptions st) \<rparr>)"

definition clear_recorded :: "string \<Rightarrow> mem_cache \<Rightarrow> mem_cache" where
  "clear_recorded k st =
     (case map_of (timeouts st) k of None \<Rightarrow> st | Some h \<Rightarrow> clear_timeout h st)"

definition arm_expiry :: "string \<Rightarrow> int \<Rightarrow> mem_cache \<Rightarrow> mem_cache" where
  "arm_expiry k secs st =
     (let (h, st) = set_timeout (Expire k) (secs * 1000) st
      in st\<lparr> timeouts := AList.update k h (timeouts st) \<rparr>)"

definition set_raw :: "string \<Rightarrow> string \<Rightarrow> int option \<Rightarrow> mem_cache \<Rightarrow> mem_cache" where
  "set_raw k v expireSeconds st =
     (let st = st\<lparr> cache := AList.update k v (cache st) \<rparr>;
          st = clear_recorded k st;
          st = (case expireSeconds of
                  Some e \<Rightarrow> if e \<noteq> 0 then arm_expiry k e st else st
                | None \<Rightarrow> st)
      in resolveOnChange k v st)"

definition set_key :: "string \<Rightarrow> string \<Rightarrow> string option \<Rightarrow> int option \<Rightarrow> mem_cache \<Rightarrow> bool \<times> mem_cache" where
  "set_key key v ns expireSeconds st = (True, set_raw (ns_key key ns) v expireSeconds st)"

definition setIfNotExist :: "string \<Rightarrow> string \<Rightarrow> string option \<Rightarrow> int option \<Rightarrow> mem_cache \<Rightarrow> bool \<times> mem_cache" where
  "setIfNotExist key v ns expireSeconds st =
     (if map_of (cache st) (ns_key key ns) \<noteq> None then (False, st)
      else (True, set_raw (ns_key key ns) v expireSeconds st))"

definition updateExpiration :: "string \<Rightarrow> int \<Rightarrow> string option \<Rightarrow> mem_cache \<Rightarrow> bool \<times> mem_cache" where
  "updateExpiration key expireSeconds ns st =
     (let k = ns_key key ns in
      if map_of (cache st) k = None then (False, st)
      else (True, arm_expiry k expireSeconds (clear_recorded k st)))"

text \<open>An onChange call returns the number of the waiter; its value appears in results.\<close>

definition onChange :: "string \<Rightarrow> int \<Rightarrow> string option \<Rightarrow> mem_cache \<Rightarrow> nat \<times> mem_cache" where
  "onChange key waitSeconds ns st =
     (let k = ns_key key ns;
          w = next_handle st;
          p = (case map_of (subscriptions st) k of Some p \<Rightarrow> p | None \<Rightarrow> w);
          st = st\<lparr> subscriptions := AList.update k p (subscriptions st),
                   waiters := waiters st @ [(w, p)] \<rparr>
      in (w, snd (set_timeout (WaitTimeout w k) (waitSeconds * 1000) st)))"

section \<open>The event loop\<close>

definition run_action :: "timer_action \<Rightarrow> mem_cache \<Rightarrow> mem_cache" where
  "run_action a st =
     (case a of
        Expire k \<Rightarrow> st\<lparr> cache := AList.delete k (cache st) \<rparr>
      | WaitTimeout w k \<Rightarrow> settle [w] (get_raw k st) st)"

definition fire :: "nat \<Rightarrow> mem_cache \<Rightarrow> mem_cache option" where
  "fire h st =
     (case map_of (timers st) h of
        None \<Rightarrow> None
      | Some (a, d) \<Rightarrow> if d \<le> now st then Some (run_action a (clear_timeout h st)) else None)"

definition tick :: "nat \<Rightarrow> mem_cache \<Rightarrow> mem_cache" where
  "tick ms st = st\<lparr> now := now st + ms \<rparr>"

inductive cache_step :: "mem_cache \<Rightarrow> mem_cache \<Rightarrow> bool" where
  step_set: "cache_step st (snd (set_key key v ns e st))"
| step_setIfNotExist: "cache_step st (snd (setIfNotExist key v ns e st))"
| step_remove: "cache_step st (snd (remove_key key ns st))"
| step_updateExpiration: "cache_step st (snd (updateExpiration key s ns st))"
| step_onChange: "cache_step st (snd (onChange key s ns st))"
| step_tick: "cache_step st (tick ms st)"
| step_fire: "fire h st = Some st' \<Longrightarrow> cache_step st st'"

inductive cache_reachable :: "mem_cache \<Rightarrow> bool" where
  initial: "cache_reachable empty_cache"
| step: "cache_reachable st \<Longrightarrow> cache_step st st' \<Longrightarrow> cache_reachable st'"

inductive_cases cache_stepE: "cache_step st st'"

section \<open>Invariant\<close>

text \<open>Handles are fresh and unique, and the timer that may delete a key is the recorded one.\<close>

definition cache_inv :: "mem_cache \<Rightarrow> bool" where
  "cache_inv st \<longleftrightarrow>
     distinct (map fst (cache st)) \<and>
     distinct (map fst (timers st)) \<and>
     (\<forall>h. map_of (timers st) h \<noteq> None \<longrightarrow> h < next_handle st) \<and>
     (\<forall>k h. map_of (timeouts st) k = Some h \<longrightarrow> h < next_handle st) \<and>
     (\<forall>k k' h. map_of (timeouts st) k = Some h \<longrightarrow> map_of (timeouts st) k' = Some h \<longrightarrow> k = k') \<and>
     (\<forall>h k d. map_of (timers st) h = Some (Expire k, d) \<longrightarrow> map_of (timeouts st) k = Some h)"

text \<open>The deadline of a key: that of the timer recorded for it, if it is still pending.\<close>

definition deadline :: "string \<Rightarrow> mem_cache \<Rightarrow> nat option" where
  "deadline k st =
     (case map_of (timeouts st) k of
        None \<Rightarrow> None
      | Some h \<Rightarrow> (case map_of (timers st) h of
                     Some (Expire k', d) \<Rightarrow> if k' = k then Some d else None
                   | _ \<Rightarrow> None))"

text \<open>What the cache promises: each present key has a value and perhaps a deadline.\<close>

type_synonym abs_cache = "string \<rightharpoonup> string \<times> nat option"

definition abs_cache :: "mem_cache \<Rightarrow> abs_cache" where
  "abs_cache st k = map_option (\<lambda>v. (v, deadline k st)) (map_of (cache st) k)"

section \<open>Lemmas\<close>

lemma map_of_filter_fst_neq [cache_simps]:
  "map_of (filter (\<lambda>t. fst t \<noteq> h) ts) = (map_of ts)(h := None)"
  by (induction ts) (auto simp: fun_eq_iff)

lemma map_of_snoc [cache_simps]:
  "map_of (ts @ [(h, x)]) = (\<lambda>k. case map_of ts k of None \<Rightarrow> [h \<mapsto> x] k | Some y \<Rightarrow> Some y)"
  by (auto simp: fun_eq_iff map_add_def split: option.splits)

lemma distinct_filter_fst: "distinct (map fst ts) \<Longrightarrow> distinct (map fst (filter P ts))"
  by (induction ts) auto

declare update_conv' [cache_simps] delete_conv' [cache_simps]

lemma settle_fields [simp]:
  "cache (settle ws v st) = cache st" "timers (settle ws v st) = timers st"
  "timeouts (settle ws v st) = timeouts st" "next_handle (settle ws v st) = next_handle st"
  "now (settle ws v st) = now st"
  by (simp_all add: settle_def)

lemma resolveOnChange_fields [simp]:
  "cache (resolveOnChange k v st) = cache st" "timers (resolveOnChange k v st) = timers st"
  "timeouts (resolveOnChange k v st) = timeouts st"
  "next_handle (resolveOnChange k v st) = next_handle st" "now (resolveOnChange k v st) = now st"
  by (simp_all add: resolveOnChange_def split: option.splits)

lemma clear_recorded_fields [simp]:
  "cache (clear_recorded k st) = cache st" "timeouts (clear_recorded k st) = timeouts st"
  "next_handle (clear_recorded k st) = next_handle st" "now (clear_recorded k st) = now st"
  by (simp_all add: clear_recorded_def clear_timeout_def split: option.splits)

lemma arm_expiry_fields [simp]:
  "cache (arm_expiry k e st) = cache st" "now (arm_expiry k e st) = now st"
  "timers (arm_expiry k e st) = timers st @ [(next_handle st, Expire k, now st + timer_delay (e * 1000))]"
  "timeouts (arm_expiry k e st) = AList.update k (next_handle st) (timeouts st)"
  "next_handle (arm_expiry k e st) = Suc (next_handle st)"
  by (simp_all add: arm_expiry_def set_timeout_def)

text \<open>The invariant and the abstraction depend on four fields only.\<close>

lemma cache_inv_cong:
  "cache s = cache t \<Longrightarrow> timers s = timers t \<Longrightarrow> timeouts s = timeouts t \<Longrightarrow>
   next_handle s = next_handle t \<Longrightarrow> cache_inv s = cache_inv t"
  by (simp add: cache_inv_def)

lemma deadline_cong: "timers s = timers t \<Longrightarrow> timeouts s = timeouts t \<Longrightarrow> deadline k s = deadline k t"
  by (simp add: deadline_def cong: option.case_cong)

lemma cache_invD:
  assumes "cache_inv st"
  shows "map_of (timers st) h = Some x \<Longrightarrow> h < next_handle st"
    "map_of (timeouts st) k = Some h \<Longrightarrow> h < next_handle st"
    "map_of (timeouts st) k = Some h \<Longrightarrow> map_of (timeouts st) k' = Some h \<Longrightarrow> k = k'"
    "map_of (timers st) h = Some (Expire k, d) \<Longrightarrow> map_of (timeouts st) k = Some h"
    "map_of (timers st) (next_handle st) = None"
proof -
  show "map_of (timers st) h = Some x \<Longrightarrow> h < next_handle st"
    "map_of (timeouts st) k = Some h \<Longrightarrow> h < next_handle st"
    "map_of (timeouts st) k = Some h \<Longrightarrow> map_of (timeouts st) k' = Some h \<Longrightarrow> k = k'"
    "map_of (timers st) h = Some (Expire k, d) \<Longrightarrow> map_of (timeouts st) k = Some h"
    using assms unfolding cache_inv_def by blast+
  show "map_of (timers st) (next_handle st) = None"
    using assms unfolding cache_inv_def by blast
qed

lemma inv_put: "cache_inv st \<Longrightarrow> cache_inv (st\<lparr> cache := AList.update k v (cache st) \<rparr>)"
  by (auto simp: cache_inv_def distinct_update)

lemma inv_drop: "cache_inv st \<Longrightarrow> cache_inv (st\<lparr> cache := AList.delete k (cache st) \<rparr>)"
  by (auto simp: cache_inv_def distinct_delete)

lemma inv_clear_timeout: "cache_inv st \<Longrightarrow> cache_inv (clear_timeout h st)"
  unfolding cache_inv_def clear_timeout_def
  by (auto simp: map_of_filter_fst_neq distinct_filter_fst split: if_splits)

lemma inv_clear_recorded: "cache_inv st \<Longrightarrow> cache_inv (clear_recorded k st)"
  by (auto simp: clear_recorded_def inv_clear_timeout split: option.splits)

lemma clear_recorded_no_expiry:
  "cache_inv st \<Longrightarrow> map_of (timers (clear_recorded k st)) h \<noteq> Some (Expire k, d)"
  by (auto simp: clear_recorded_def clear_timeout_def map_of_filter_fst_neq
      split: option.splits if_splits dest: cache_invD(4))

lemma inv_arm_expiry:
  assumes inv: "cache_inv st" and free: "\<And>h d. map_of (timers st) h \<noteq> Some (Expire k, d)"
  shows "cache_inv (arm_expiry k e st)"
  unfolding cache_inv_def
proof (intro conjI allI impI)
  note D = cache_invD [OF inv]
  have "next_handle st \<notin> fst ` set (timers st)" using D(5) by (simp add: map_of_eq_None_iff)
  then show "distinct (map fst (timers (arm_expiry k e st)))"
    using inv by (simp add: cache_inv_def)
  show "distinct (map fst (cache (arm_expiry k e st)))" using inv by (simp add: cache_inv_def)
  fix h k' k'' d
  show "map_of (timers (arm_expiry k e st)) h \<noteq> None \<Longrightarrow> h < next_handle (arm_expiry k e st)"
    by (auto simp: map_of_snoc less_Suc_eq dest: D(1) split: option.splits if_splits)
  show "map_of (timeouts (arm_expiry k e st)) k' = Some h \<Longrightarrow> h < next_handle (arm_expiry k e st)"
    by (auto simp: update_conv' less_Suc_eq dest: D(2) split: if_splits)
  show "map_of (timeouts (arm_expiry k e st)) k' = Some h \<Longrightarrow>
      map_of (timeouts (arm_expiry k e st)) k'' = Some h \<Longrightarrow> k' = k''"
    using D(2) D(3) by (fastforce simp: update_conv' split: if_splits)
  show "map_of (timers (arm_expiry k e st)) h = Some (Expire k', d) \<Longrightarrow>
      map_of (timeouts (arm_expiry k e st)) k' = Some h"
    using free D(4) by (auto simp: map_of_snoc update_conv' split: option.splits if_splits)
qed

lemma inv_set_raw: "cache_inv st \<Longrightarrow> cache_inv (set_raw k v e st)"
  by (auto simp: set_raw_def Let_def cache_inv_cong [OF resolveOnChange_fields(1,2,3,4)]
      inv_put inv_clear_recorded inv_arm_expiry clear_recorded_no_expiry split: option.splits)

lemma inv_set_timeout:
  assumes inv: "cache_inv st"
  shows "cache_inv (snd (set_timeout (WaitTimeout w k) d st))"
proof -
  note D = cache_invD [OF inv]
  have "next_handle st \<notin> fst ` set (timers st)" using D(5) by (simp add: map_of_eq_None_iff)
  then show ?thesis
    using inv D
    by (auto simp: cache_inv_def set_timeout_def map_of_snoc less_Suc_eq split: option.splits if_splits)
qed

lemma inv_fire: "cache_inv st \<Longrightarrow> fire h st = Some st' \<Longrightarrow> cache_inv st'"
  by (auto simp: fire_def run_action_def inv_drop inv_clear_timeout
      cache_inv_cong [OF settle_fields(1,2,3,4)] split: option.splits timer_action.splits if_splits)

lemma inv_onChange:
  assumes "cache_inv st"
  shows "cache_inv (snd (onChange key s ns st))"
proof -
  have "cache_inv (st\<lparr> subscriptions := S, waiters := W \<rparr>)" for S W
    using assms by (simp add: cache_inv_cong [of "st\<lparr> subscriptions := S, waiters := W \<rparr>" st])
  then show ?thesis by (simp add: onChange_def Let_def inv_set_timeout)
qed

lemma inv_step: "cache_step st st' \<Longrightarrow> cache_inv st \<Longrightarrow> cache_inv st'"
proof (induction rule: cache_step.induct)
  case (step_updateExpiration st key s ns)
  then show ?case
    by (auto simp: updateExpiration_def Let_def inv_arm_expiry inv_clear_recorded
        clear_recorded_no_expiry)
next
  case (step_tick st ms)
  then show ?case by (simp add: tick_def cache_inv_cong [of "st\<lparr> now := now st + ms \<rparr>" st])
qed (auto simp: set_key_def setIfNotExist_def remove_key_def inv_set_raw inv_drop inv_onChange inv_fire)

lemma inv_reachable: "cache_reachable st \<Longrightarrow> cache_inv st"
  by (induction rule: cache_reachable.induct) (auto simp: inv_step, simp add: cache_inv_def empty_cache_def)

section \<open>Refinement of the abstract cache\<close>

lemma deadline_clear_timeout:
  assumes "cache_inv st"
  shows "deadline k (clear_timeout h st) = (if map_of (timeouts st) k = Some h then None else deadline k st)"
  by (auto simp: deadline_def clear_timeout_def map_of_filter_fst_neq split: option.splits)

lemma deadline_clear_recorded:
  assumes "cache_inv st"
  shows "deadline k' (clear_recorded k st) = (if k' = k then None else deadline k' st)"
proof (cases "map_of (timeouts st) k")
  case None
  then show ?thesis by (auto simp: clear_recorded_def deadline_def)
next
  case (Some h)
  then have "map_of (timeouts st) k' = Some h \<longleftrightarrow> k' = k"
    using cache_invD(3) [OF assms] by blast
  then show ?thesis
    using Some by (simp add: clear_recorded_def deadline_clear_timeout [OF assms])
qed

lemma deadline_arm_expiry:
  assumes "cache_inv st"
  shows "deadline k' (arm_expiry k e st) =
    (if k' = k then Some (now st + timer_delay (e * 1000)) else deadline k' st)"
proof -
  note D = cache_invD [OF assms]
  show ?thesis
    using D(2) [of k'] D(5)
    by (auto simp: deadline_def update_conv' map_of_snoc split: option.splits)
qed

definition expiry_of :: "int option \<Rightarrow> nat \<Rightarrow> nat option" where
  "expiry_of e t = (case e of Some s \<Rightarrow> if s = 0 then None else Some (t + timer_delay (s * 1000)) | None \<Rightarrow> None)"

lemma deadline_put [simp]: "deadline k (st\<lparr> cache := c \<rparr>) = deadline k st"
  by (rule deadline_cong) simp_all

lemma deadline_resolveOnChange [simp]: "deadline k (resolveOnChange k' v st) = deadline k st"
  by (rule deadline_cong) simp_all

lemma abs_set_raw:
  assumes "cache_inv st"
  shows "abs_cache (set_raw k v e st) = (abs_cache st)(k \<mapsto> (v, expiry_of e (now st)))"
  using assms
  by (auto simp: fun_eq_iff abs_cache_def set_raw_def Let_def expiry_of_def update_conv' deadline_arm_expiry
      deadline_clear_recorded inv_put inv_clear_recorded split: option.splits)

lemma abs_remove: "abs_cache (snd (remove_key key ns st)) = (abs_cache st)(ns_key key ns := None)"
  by (auto simp: fun_eq_iff abs_cache_def remove_key_def delete_conv')

lemma abs_fire_expire:
  assumes inv: "cache_inv st" and t: "map_of (timers st) h = Some (Expire k, d)" and d: "d \<le> now st"
  shows "\<exists>st'. fire h st = Some st' \<and> abs_cache st' = (abs_cache st)(k := None)"
proof -
  have k: "map_of (timeouts st) k' = Some h \<longleftrightarrow> k' = k" for k'
    using cache_invD(3,4) [OF inv] t by blast
  have "cache (clear_timeout h st) = cache st" by (simp add: clear_timeout_def)
  then show ?thesis
    using t d k deadline_clear_timeout [OF inv]
    by (simp add: fire_def run_action_def fun_eq_iff abs_cache_def delete_conv')
qed

lemma abs_updateExpiration:
  assumes "cache_inv st"
  shows "abs_cache (snd (updateExpiration key e ns st)) =
    (case abs_cache st (ns_key key ns) of
       None \<Rightarrow> abs_cache st
     | Some (v, _) \<Rightarrow> (abs_cache st)(ns_key key ns \<mapsto> (v, Some (now st + timer_delay (e * 1000)))))"
  using assms
  by (auto simp: fun_eq_iff abs_cache_def updateExpiration_def Let_def deadline_arm_expiry
      deadline_clear_recorded inv_clear_recorded split: option.splits)

lemma abs_wait:
  assumes "cache_inv st" "map_of (timers st) h = Some (WaitTimeout w k, d)" "fire h st = Some st'"
  shows "abs_cache st' = abs_cache st"
proof -
  have "map_of (timeouts st) k' = Some h \<Longrightarrow> deadline k' st = None" for k'
    using assms(2) by (simp add: deadline_def)
  moreover have "cache st' = cache st" "deadline k' st' = deadline k' (clear_timeout h st)" for k'
    using assms by (auto simp: fire_def run_action_def clear_timeout_def split: if_splits
        intro: deadline_cong)
  ultimately show ?thesis
    using deadline_clear_timeout [OF assms(1)] by (simp add: fun_eq_iff abs_cache_def)
qed

lemma abs_onChange:
  assumes "cache_inv st"
  shows "abs_cache (snd (onChange key s ns st)) = abs_cache st"
proof -
  let ?st = "snd (onChange key s ns st)"
  have f: "cache ?st = cache st" "timeouts ?st = timeouts st"
    "timers ?st = timers st @ [(next_handle st, WaitTimeout (next_handle st) (ns_key key ns), now st + timer_delay (s * 1000))]"
    by (simp_all add: onChange_def Let_def set_timeout_def)
  have "deadline k ?st = deadline k st" for k
    using cache_invD(2) [OF assms, of k] by (auto simp: deadline_def f map_of_snoc split: option.splits)
  then show ?thesis by (simp add: fun_eq_iff abs_cache_def f)
qed

lemma abs_tick: "abs_cache (tick ms st) = abs_cache st"
  by (simp add: fun_eq_iff abs_cache_def tick_def deadline_cong [of "st\<lparr> now := now st + ms \<rparr>" st])

lemma expiry_timers_unique:
  assumes "cache_inv st" "(h, Expire k, d) \<in> set (timers st)" "(h', Expire k, d') \<in> set (timers st)"
  shows "h = h' \<and> d = d' \<and> map_of (timeouts st) k = Some h"
proof -
  have "distinct (map fst (timers st))" using assms(1) by (simp add: cache_inv_def)
  then have "map_of (timers st) h = Some (Expire k, d)" "map_of (timers st) h' = Some (Expire k, d')"
    using assms by simp_all
  moreover from this have "map_of (timeouts st) k = Some h" "map_of (timeouts st) k = Some h'"
    using cache_invD(4) [OF assms(1)] by blast+
  ultimately show ?thesis by simp
qed

lemma deadline_eq:
  assumes "cache_inv st"
  shows "deadline k st = Some d \<longleftrightarrow> (\<exists>h. map_of (timers st) h = Some (Expire k, d))"
  using cache_invD(4) [OF assms]
  by (fastforce simp: deadline_def split: option.splits timer_action.splits if_splits)

section \<open>Steps that leave a key alone\<close>

text \<open>Operations on other keys, the passing of time, and any timer of the event loop.\<close>

inductive other_step :: "string \<Rightarrow> mem_cache \<Rightarrow> mem_cache \<Rightarrow> bool" for k where
  o_set: "ns_key key ns \<noteq> k \<Longrightarrow> other_step k st (snd (set_key key v ns e st))"
| o_setIfNotExist: "ns_key key ns \<noteq> k \<Longrightarrow> other_step k st (snd (setIfNotExist key v ns e st))"
| o_remove: "ns_key key ns \<noteq> k \<Longrightarrow> other_step k st (snd (remove_key key ns st))"
| o_updateExpiration: "ns_key key ns \<noteq> k \<Longrightarrow> other_step k st (snd (updateExpiration key s ns st))"
| o_onChange: "other_step k st (snd (onChange key s ns st))"
| o_tick: "other_step k st (tick ms st)"
| o_fire: "fire h st = Some st' \<Longrightarrow> other_step k st st'"

lemma other_step_is_step: "other_step k st st' \<Longrightarrow> cache_step st st'"
  by (cases rule: other_step.cases) (auto intro: cache_step.intros)

lemma fire_now: "fire h st = Some st' \<Longrightarrow> now st' = now st"
  by (auto simp: fire_def run_action_def clear_timeout_def split: option.splits timer_action.splits if_splits)

lemma abs_fire:
  assumes inv: "cache_inv st" and f: "fire h st = Some st'" and a: "abs_cache st k = Some (v, dl)"
    and dl: "\<forall>d. dl = Some d \<longrightarrow> now st < d"
  shows "abs_cache st' k = Some (v, dl)"
proof -
  obtain a' d where t: "map_of (timers st) h = Some (a', d)" "d \<le> now st"
    using f by (auto simp: fire_def split: option.splits if_splits)
  show ?thesis
  proof (cases a')
    case (Expire k')
    then have "abs_cache st' = (abs_cache st)(k' := None)"
      using abs_fire_expire [OF inv] t f by fastforce
    moreover have "k' \<noteq> k"
    proof
      assume "k' = k"
      then have "deadline k st = Some d" using deadline_eq [OF inv] t Expire by blast
      moreover have "dl = deadline k st" using a by (auto simp: abs_cache_def)
      ultimately show False using dl t by simp
    qed
    ultimately show ?thesis using a by simp
  next
    case (WaitTimeout w k')
    then show ?thesis using abs_wait [OF inv _ f] t a by simp
  qed
qed

lemma now_step: "now st \<le> now (snd (set_key key v ns e st))"
  "now st \<le> now (snd (setIfNotExist key v ns e st))" "now st \<le> now (snd (remove_key key ns st))"
  "now st \<le> now (snd (updateExpiration key s ns st))" "now st \<le> now (snd (onChange key s ns st))"
  "now st \<le> now (tick ms st)"
  by (simp_all add: set_key_def setIfNotExist_def set_raw_def remove_key_def updateExpiration_def
      onChange_def set_timeout_def tick_def Let_def split: option.splits)

lemma other_step_now: "other_step k st st' \<Longrightarrow> now st \<le> now st'"
  by (induction rule: other_step.induct) (simp_all add: now_step fire_now)

lemma other_step_keeps:
  assumes "other_step k st st'" "cache_inv st" "abs_cache st k = Some (v, dl)"
    "\<forall>d. dl = Some d \<longrightarrow> now st < d"
  shows "abs_cache st' k = Some (v, dl)"
  using assms
proof (induction rule: other_step.induct)
  case (o_fire h st st')
  then show ?case by (blast intro: abs_fire)
next
  case (o_updateExpiration key ns st s)
  then show ?case by (auto simp: abs_updateExpiration split: option.splits)
qed (auto simp: set_key_def setIfNotExist_def abs_set_raw abs_remove abs_onChange abs_tick)

lemma other_steps_keep:
  assumes "(other_step k)\<^sup>*\<^sup>* st st'" "cache_inv st" "abs_cache st k = Some (v, dl)"
    "\<forall>d. dl = Some d \<longrightarrow> now st' < d"
  shows "cache_inv st' \<and> abs_cache st' k = Some (v, dl)"
  using assms
proof (induction rule: rtranclp_induct)
  case (step y z)
  have "now y \<le> now z" using other_step_now [OF step(2)] .
  then have y: "cache_inv y \<and> abs_cache y k = Some (v, dl)" using step by force
  then show ?case
    using other_step_keeps [OF step(2), of v dl] inv_step other_step_is_step [OF step(2)]
      step(6) \<open>now y \<le> now z\<close> by (meson le_less_trans)
qed simp

section \<open>Interface\<close>

text \<open>What the components that keep their state in the cache rely on: presence and value of a
  key after each operation, as a function of the keys only.\<close>

locale string_cache =
  fixes good :: "'s \<Rightarrow> bool"
    and slot :: "string \<Rightarrow> string option \<Rightarrow> string"
    and present :: "string \<Rightarrow> string option \<Rightarrow> 's \<Rightarrow> bool"
    and lookup :: "string \<Rightarrow> string option \<Rightarrow> 's \<Rightarrow> string option"
    and put :: "string \<Rightarrow> string \<Rightarrow> string option \<Rightarrow> int option \<Rightarrow> 's \<Rightarrow> bool \<times> 's"
    and put_new :: "string \<Rightarrow> string \<Rightarrow> string option \<Rightarrow> int option \<Rightarrow> 's \<Rightarrow> bool \<times> 's"
    and drop_key :: "string \<Rightarrow> string option \<Rightarrow> 's \<Rightarrow> string option \<times> 's"
  assumes good_put: "good s \<Longrightarrow> good (snd (put k v ns e s))"
    and good_put_new: "good s \<Longrightarrow> good (snd (put_new k v ns e s))"
    and good_drop: "good s \<Longrightarrow> good (snd (drop_key k ns s))"
    and present_put: "present k' ns' (snd (put k v ns e s)) \<longleftrightarrow> slot k' ns' = slot k ns \<or> present k' ns' s"
    and lookup_put: "lookup k' ns' (snd (put k v ns e s)) =
        (if slot k' ns' = slot k ns then (if v = [] then None else Some v) else lookup k' ns' s)"
    and put_new_eq: "put_new k v ns e s = (if present k ns s then (False, s) else (True, snd (put k v ns e s)))"
    and present_drop: "present k' ns' (snd (drop_key k ns s)) \<longleftrightarrow> slot k' ns' \<noteq> slot k ns \<and> present k' ns' s"
    and lookup_drop: "lookup k' ns' (snd (drop_key k ns s)) =
        (if slot k' ns' = slot k ns then None else lookup k' ns' s)"
    and lookup_present: "lookup k ns s = Some v \<Longrightarrow> present k ns s"
begin

lemma absent_lookup: "\<not> present k ns s \<Longrightarrow> lookup k ns s = None"
  using lookup_present by (cases "lookup k ns s") auto

lemma put_then_drop:
  "present k' ns' (snd (drop_key k ns (snd (put k v ns e s)))) \<longleftrightarrow>
   slot k' ns' \<noteq> slot k ns \<and> present k' ns' s"
  by (auto simp: present_drop present_put)

lemma put_new_excludes:
  assumes "put_new k v ns e s = (True, s')"
  shows "\<not> present k ns s" "put_new k v' ns e' s' = (False, s')"
  using assms by (auto simp: put_new_eq present_put split: if_splits)

lemma put_new_lookup:
  "\<not> present k ns s \<Longrightarrow> v \<noteq> [] \<Longrightarrow> lookup k ns (snd (put_new k v ns e s)) = Some v"
  by (simp add: put_new_eq lookup_put)

end

lemma present_abs: "exists_key k ns st \<longleftrightarrow> abs_cache st (ns_key k ns) \<noteq> None"
  by (auto simp: exists_key_def abs_cache_def)

lemma cache_set_raw [cache_simps]: "map_of (cache (set_raw k v e st)) = (map_of (cache st))(k \<mapsto> v)"
  by (auto simp: set_raw_def Let_def update_conv' split: option.splits)

lemma ns_key_simps [simp]:
  "ns_key k None = ''default:'' @ k"
  "ns_key k (Some (c # cs)) = (c # cs) @ '':'' @ k"
  by (simp_all add: ns_key_def)

interpretation mc: string_cache cache_inv ns_key exists_key get_key set_key setIfNotExist remove_key
proof
  fix k k' v ns ns' e and s :: mem_cache
  show "cache_inv s \<Longrightarrow> cache_inv (snd (set_key k v ns e s))" by (simp add: set_key_def inv_set_raw)
  show "cache_inv s \<Longrightarrow> cache_inv (snd (setIfNotExist k v ns e s))"
    by (simp add: setIfNotExist_def inv_set_raw)
  show "cache_inv s \<Longrightarrow> cache_inv (snd (remove_key k ns s))" by (simp add: remove_key_def inv_drop)
  show "get_key k' ns' (snd (set_key k v ns e s)) =
      (if ns_key k' ns' = ns_key k ns then if v = [] then None else Some v else get_key k' ns' s)"
    by (cases v) (auto simp: get_key_def get_raw_def set_key_def cache_set_raw)
  show "exists_key k' ns' (snd (set_key k v ns e s)) \<longleftrightarrow> ns_key k' ns' = ns_key k ns \<or> exists_key k' ns' s"
    by (simp add: exists_key_def set_key_def cache_set_raw)
  show "setIfNotExist k v ns e s =
      (if exists_key k ns s then (False, s) else (True, snd (set_key k v ns e s)))"
    by (simp add: setIfNotExist_def set_key_def exists_key_def)
  show "exists_key k' ns' (snd (remove_key k ns s)) \<longleftrightarrow> ns_key k' ns' \<noteq> ns_key k ns \<and> exists_key k' ns' s"
    by (simp add: exists_key_def remove_key_def delete_conv')
  show "get_key k' ns' (snd (remove_key k ns s)) =
      (if ns_key k' ns' = ns_key k ns then None else get_key k' ns' s)"
    by (simp add: get_key_def get_raw_def remove_key_def delete_conv')
  show "get_key k ns s = Some v \<Longrightarrow> exists_key k ns s"
    by (auto simp: get_key_def get_raw_def exists_key_def split: option.splits list.splits)
qed

lemma abs_ops:
  assumes "cache_reachable st"
  shows "abs_cache (snd (set_key key v ns e st)) = (abs_cache st)(ns_key key ns \<mapsto> (v, expiry_of e (now st)))"
    "abs_cache (snd (setIfNotExist key v ns e st)) =
       (if abs_cache st (ns_key key ns) = None
        then (abs_cache st)(ns_key key ns \<mapsto> (v, expiry_of e (now st))) else abs_cache st)"
    "abs_cache (snd (remove_key key ns st)) = (abs_cache st)(ns_key key ns := None)"
    "abs_cache (snd (updateExpiration key s ns st)) =
       (case abs_cache st (ns_key key ns) of
          None \<Rightarrow> abs_cache st
        | Some (w, _) \<Rightarrow> (abs_cache st)(ns_key key ns \<mapsto> (w, Some (now st + timer_delay (s * 1000)))))"
    "abs_cache (snd (onChange key s ns st)) = abs_cache st"
    "abs_cache (tick ms st) = abs_cache st"
    "fire h st = Some st' \<Longrightarrow> abs_cache st' =
       (case map_of (timers st) h of
          Some (Expire k, _) \<Rightarrow> (abs_cache st)(k := None)
        | _ \<Rightarrow> abs_cache st)"
proof -
  note inv = inv_reachable [OF assms]
  show "abs_cache (snd (setIfNotExist key v ns e st)) =
       (if abs_cache st (ns_key key ns) = None
        then (abs_cache st)(ns_key key ns \<mapsto> (v, expiry_of e (now st))) else abs_cache st)"
    using inv by (auto simp: setIfNotExist_def abs_set_raw) (auto simp: abs_cache_def)
  assume f: "fire h st = Some st'"
  then obtain a d where t: "map_of (timers st) h = Some (a, d)" "d \<le> now st"
    by (auto simp: fire_def split: option.splits if_splits)
  show "abs_cache st' = (case map_of (timers st) h of
          Some (Expire k, _) \<Rightarrow> (abs_cache st)(k := None) | _ \<Rightarrow> abs_cache st)"
  proof (cases a)
    case (Expire k)
    then show ?thesis using abs_fire_expire [OF inv, of h k d] t f by simp
  next
    case (WaitTimeout w k)
    then show ?thesis using abs_wait [OF inv _ f] t by simp
  qed
qed (use inv_reachable [OF assms] in \<open>simp_all add: set_key_def abs_set_raw abs_remove abs_updateExpiration abs_onChange abs_tick\<close>)

section \<open>Waiters\<close>

definition waiter_inv :: "mem_cache \<Rightarrow> bool" where
  "waiter_inv st \<longleftrightarrow>
     (\<forall>w \<in> fst ` set (waiters st). w < next_handle st) \<and>
     (\<forall>w \<in> fst ` set (results st). w < next_handle st) \<and>
     (\<forall>h w k d. (h, WaitTimeout w k, d) \<in> set (timers st) \<longrightarrow> w < next_handle st)"

lemma waiter_inv_settle:
  "waiter_inv st \<Longrightarrow> \<forall>w \<in> set ws. w < next_handle st \<Longrightarrow> waiter_inv (settle ws v st)"
  by (auto simp: waiter_inv_def settle_def)

lemma waiter_invD:
  assumes "waiter_inv st"
  shows "map_of (timers st) h = Some (WaitTimeout w k, d) \<Longrightarrow> w < next_handle st"
    "map_of (results st) (next_handle st) = None"
proof -
  show "map_of (timers st) h = Some (WaitTimeout w k, d) \<Longrightarrow> w < next_handle st"
    using assms unfolding waiter_inv_def by (meson map_of_SomeD)
  show "map_of (results st) (next_handle st) = None"
    using assms unfolding waiter_inv_def map_of_eq_None_iff by blast
qed

lemma waiter_inv_clear: "waiter_inv st \<Longrightarrow> waiter_inv (clear_timeout h st)"
  unfolding waiter_inv_def clear_timeout_def by simp blast

lemma waiter_inv_clear_recorded: "waiter_inv st \<Longrightarrow> waiter_inv (clear_recorded k st)"
  by (auto simp: clear_recorded_def waiter_inv_clear split: option.splits)

lemma waiter_inv_arm: "waiter_inv st \<Longrightarrow> waiter_inv (arm_expiry k e st)"
  by (fastforce simp: waiter_inv_def arm_expiry_def set_timeout_def)

lemma waiter_inv_frame:
  "waiter_inv st \<Longrightarrow> waiter_inv (st\<lparr> cache := c \<rparr>)" "waiter_inv st \<Longrightarrow> waiter_inv (st\<lparr> now := n \<rparr>)"
  "waiter_inv st \<Longrightarrow> waiter_inv (st\<lparr> subscriptions := m \<rparr>)"
  by (simp_all add: waiter_inv_def)

lemma waiter_inv_resolve: "waiter_inv st \<Longrightarrow> waiter_inv (resolveOnChange k v st)"
  by (auto simp: resolveOnChange_def split: option.splits intro!: waiter_inv_frame waiter_inv_settle)
    (auto simp: waiter_inv_def)

lemma waiter_inv_set_raw: "waiter_inv st \<Longrightarrow> waiter_inv (set_raw k v e st)"
  by (auto simp: set_raw_def Let_def split: option.splits
      intro!: waiter_inv_resolve waiter_inv_arm waiter_inv_clear_recorded waiter_inv_frame)

lemma waiter_inv_onChange: "waiter_inv st \<Longrightarrow> waiter_inv (snd (onChange key s ns st))"
  by (fastforce simp: waiter_inv_def onChange_def set_timeout_def Let_def)

lemma waiter_inv_fire: "waiter_inv st \<Longrightarrow> fire h st = Some st' \<Longrightarrow> waiter_inv st'"
  by (auto simp: fire_def run_action_def split: option.splits if_splits timer_action.splits
      intro!: waiter_inv_frame waiter_inv_settle waiter_inv_clear)
    (simp add: clear_timeout_def waiter_invD)

lemma waiter_inv_step: "cache_step st st' \<Longrightarrow> waiter_inv st \<Longrightarrow> waiter_inv st'"
  by (induction rule: cache_step.induct)
    (auto simp: set_key_def setIfNotExist_def remove_key_def updateExpiration_def tick_def Let_def
      intro: waiter_inv_set_raw waiter_inv_onChange waiter_inv_fire waiter_inv_arm
        waiter_inv_clear_recorded waiter_inv_frame)

lemma waiter_inv_reachable: "cache_reachable st \<Longrightarrow> waiter_inv st"
  by (induction rule: cache_reachable.induct)
    (auto intro: waiter_inv_step, simp add: waiter_inv_def empty_cache_def)

lemma resolve_result:
  assumes "(w, p) \<in> set (waiters st)" "map_of (subscriptions st) k = Some p" "map_of (results st) w = None"
  shows "map_of (results (resolveOnChange k v st)) w = Some (Some v)"
proof -
  let ?ws = "filter (\<lambda>w. map_of (results st) w = None) (map fst (filter (\<lambda>x. snd x = p) (waiters st)))"
  have "w \<in> set ?ws" using assms(1,3) by force
  moreover have "map_of (map (\<lambda>w. (w, x)) ws) w = (if w \<in> set ws then Some x else None)" for x :: "string option" and ws
    by (induction ws) auto
  ultimately show ?thesis
    using assms by (simp add: resolveOnChange_def settle_def map_add_def)
qed

lemma set_raw_waiters:
  fixes st :: mem_cache
  assumes "(w, p) \<in> set (waiters st)" "map_of (subscriptions st) k = Some p" "map_of (results st) w = None"
  shows "map_of (results (set_raw k v e st)) w = Some (Some v)"
proof -
  have f: "waiters (clear_recorded k st) = waiters st" "subscriptions (clear_recorded k st) = subscriptions st"
    "results (clear_recorded k st) = results st" "waiters (arm_expiry k s st) = waiters st"
    "subscriptions (arm_expiry k s st) = subscriptions st" "results (arm_expiry k s st) = results st" for st s
    by (simp_all add: clear_recorded_def clear_timeout_def arm_expiry_def set_timeout_def split: option.splits)
  show ?thesis
    using assms by (auto simp: set_raw_def Let_def f split: option.splits intro!: resolve_result)
qed

section \<open>Properties\<close>



text \<open>A value survives until its own deadline, whatever is done to other keys and whichever
  timers fire in between: in particular no timer armed for an earlier value of the key, even
  one left behind by remove, deletes the new value.\<close>
lemma cache_value_survives:
  assumes "cache_reachable st"
    and "(other_step (ns_key key ns))\<^sup>*\<^sup>* (snd (set_key key v ns e st)) st'"
    and "\<forall>d. expiry_of e (now st) = Some d \<longrightarrow> now st' < d"
  shows "map_of (cache st') (ns_key key ns) = Some v \<and> deadline (ns_key key ns) st' = expiry_of e (now st)"
proof -
  have "cache_inv (snd (set_key key v ns e st))"
    using inv_reachable [OF assms(1)] by (simp add: mc.good_put)
  moreover have "abs_cache (snd (set_key key v ns e st)) (ns_key key ns) = Some (v, expiry_of e (now st))"
    using abs_ops(1) [OF assms(1)] by simp
  ultimately have "abs_cache st' (ns_key key ns) = Some (v, expiry_of e (now st))"
    using other_steps_keep [OF assms(2)] assms(3) by blast
  then show ?thesis by (simp add: abs_cache_def split: option.splits)
qed

text \<open>Once its deadline has passed, a key has a timer that is ready to fire, and firing it
  removes that key and no other.\<close>
lemma cache_value_expires:
  assumes "cache_reachable st" "abs_cache st k = Some (v, Some d)" "d \<le> now st"
  shows "\<exists>h st'. fire h st = Some st' \<and> abs_cache st' = (abs_cache st)(k := None)"
proof -
  note inv = inv_reachable [OF assms(1)]
  have "deadline k st = Some d" using assms(2) by (auto simp: abs_cache_def)
  then obtain h where "map_of (timers st) h = Some (Expire k, d)" using deadline_eq [OF inv] by blast
  then show ?thesis using abs_fire_expire [OF inv _ assms(3)] by blast
qed

lemma cache_value_expires_witness:
  "\<exists>h st'. fire h (tick 1000 (snd (set_key ''a'' ''x'' None (Some 1) empty_cache))) = Some st' \<and>
     abs_cache st' ''default:a'' = None"
proof -
  let ?st = "tick 1000 (snd (set_key ''a'' ''x'' None (Some 1) empty_cache))"
  have r: "cache_reachable ?st" by (rule cache_reachable.step [OF cache_reachable.step [OF cache_reachable.initial step_set] step_tick])
  have "abs_cache ?st ''default:a'' = Some (''x'', Some 1000)"
    using abs_ops(1) [OF cache_reachable.initial, of "''a''" "''x''" None "Some 1"]
    by (simp add: abs_tick expiry_of_def timer_delay_def empty_cache_def)
  moreover have "1000 \<le> now ?st" by (simp add: tick_def)
  ultimately obtain h st' where "fire h ?st = Some st'"
    "abs_cache st' = (abs_cache ?st)(''default:a'' := None)"
    using cache_value_expires [OF r] by blast
  then show ?thesis by (metis fun_upd_same)
qed

text \<open>A waiter of onChange is told of a set of its key but not of a removal: after remove it
  is still pending, and a later set resolves it with the new value.\<close>
lemma onChange_misses_removal:
  assumes "cache_reachable st" and "onChange key s ns st = (w, st1)"
    and "st2 = snd (remove_key key ns st1)"
  shows "map_of (results st2) w = None \<and> map_of (results (snd (set_key key v ns e st2))) w = Some (Some v)"
proof -
  have w: "w = next_handle st" using assms(2) by (auto simp: onChange_def Let_def set_timeout_def)
  have r: "results st2 = results st"
    using assms(2,3) by (auto simp: onChange_def remove_key_def Let_def set_timeout_def)
  have n: "map_of (results st2) w = None"
    using waiter_invD(2) [OF waiter_inv_reachable [OF assms(1)]] by (simp add: r w)
  obtain p where "(w, p) \<in> set (waiters st2)" "map_of (subscriptions st2) (ns_key key ns) = Some p"
    using assms(2,3) by (auto simp: onChange_def remove_key_def Let_def set_timeout_def update_conv')
  then show ?thesis using n set_raw_waiters by (simp add: set_key_def)
qed

lemma onChange_misses_removal_witness:
  "map_of (results (snd (remove_key ''a'' None (snd (onChange ''a'' 5 None empty_cache))))) 0 = None"
  using onChange_misses_removal [OF cache_reachable.initial, of "''a''" 5 None "fst (onChange ''a'' 5 None empty_cache)"
      "snd (onChange ''a'' 5 None empty_cache)" _ "''x''" None]
  by (simp add: onChange_def Let_def set_timeout_def empty_cache_def)

end
