(* ===== verification/JsValue.thy ===== *)
theory JsValue
  imports Prelude
begin

text \<open>
  JavaScript values as JSON parsing yields them, with undefined for what is absent. An object
  is the list of its own enumerable properties in insertion order. Numbers are exact
  rationals (the rounding to a double is not modelled; JSON has no NaN and no infinity).
  The errors the code throws are values: an OcppError of the RPC layer, a RetryMessageError, or another Error,
  given by the fixed text of its message and the values interpolated in it.
\<close>

datatype jsval =
    JUndef
  | JNull
  | JBool bool
  | JNum rat
  | JStr string
  | JArr "jsval list"
  | JObj "(string \<times> jsval) list"

datatype error_code =
    FormatViolation
  | FormationViolation
  | NotImplemented
  | ProtocolError
  | GenericError
  | InternalError
  | MessageTypeNotSupported
  | NotSupported
  | OccurrenceConstraintViolation
  | PropertyConstraintViolation
  | RpcFrameworkError
  | SecurityError
  | TypeConstraintViolation

fun error_code_str :: "error_code \<Rightarrow> string" where
  "error_code_str FormatViolation = ''FormatViolation''"
| "error_code_str FormationViolation = ''FormationViolation''"
| "error_code_str NotImplemented = ''NotImplemented''"
| "error_code_str ProtocolError = ''ProtocolError''"
| "error_code_str GenericError = ''GenericError''"
| "error_code_str InternalError = ''InternalError''"
| "error_code_str MessageTypeNotSupported = ''MessageTypeNotSupported''"
| "error_code_str NotSupported = ''NotSupported''"
| "error_code_str OccurrenceConstraintViolation = ''OccurrenceConstraintViolation''"
| "error_code_str PropertyConstraintViolation = ''PropertyConstraintViolation''"
| "error_code_str RpcFrameworkError = ''RpcFrameworkError''"
| "error_code_str SecurityError = ''SecurityError''"
| "error_code_str TypeConstraintViolation = ''TypeConstraintViolation''"

text \<open>The fields of an OcppError; a code read off a received frame may be any value.\<close>

record ocpp_error =
  oe_messageId :: string
  oe_code :: jsval
  oe_description :: string
  oe_details :: jsval

datatype exn =
    OcppErr ocpp_error
  | RetryErr string
  | JsErr string "jsval list"

definition new_ocpp_error :: "string \<Rightarrow> error_code \<Rightarrow> string \<Rightarrow> jsval \<Rightarrow> ocpp_error" where
  "new_ocpp_error m c d dt =
     \<lparr> oe_messageId = m, oe_code = JStr (error_code_str c), oe_description = d, oe_details = dt \<rparr>"

definition throw_ocpp :: "string \<Rightarrow> error_code \<Rightarrow> string \<Rightarrow> exn + 'a" where
  "throw_ocpp m c d = Inl (OcppErr (new_ocpp_error m c d (JObj [])))"

fun map_res :: "('a \<Rightarrow> exn + 'b) \<Rightarrow> 'a list \<Rightarrow> exn + 'b list" where
  "map_res f [] = Inr []"
| "map_res f (x # xs) = bind_res (f x) (\<lambda>y. bind_res (map_res f xs) (\<lambda>ys. Inr (y # ys)))"

section \<open>Property access and conversions\<close>

fun js_prop :: "string \<Rightarrow> jsval \<Rightarrow> jsval" where
  "js_prop k (JObj ps) = (case map_of ps k of Some v \<Rightarrow> v | None \<Rightarrow> JUndef)"
| "js_prop k _ = JUndef"

fun js_set_prop :: "string \<Rightarrow> jsval \<Rightarrow> jsval \<Rightarrow> jsval" where
  "js_set_prop k v (JObj ps) = JObj (AList.update k v ps)"
| "js_set_prop k v x = x"

fun js_delete_prop :: "string \<Rightarrow> jsval \<Rightarrow> jsval" where
  "js_delete_prop k (JObj ps) = JObj (AList.delete k ps)"
| "js_delete_prop k x = x"

definition nth_or_undef :: "jsval list \<Rightarrow> nat \<Rightarrow> jsval" where
  "nth_or_undef xs i = (if i < length xs then xs ! i else JUndef)"

fun js_idx :: "jsval \<Rightarrow> nat \<Rightarrow> jsval" where
  "js_idx (JArr xs) i = nth_or_undef xs i"
| "js_idx (JStr s) i = (if i < length s then JStr [s ! i] else JUndef)"
| "js_idx (JObj ps) i = js_prop (nat_str i) (JObj ps)"
| "js_idx _ i = JUndef"

fun is_array :: "jsval \<Rightarrow> bool" where
  "is_array (JArr xs) = True"
| "is_array _ = False"

text \<open>typeof v = object and v is not null.\<close>

fun is_object :: "jsval \<Rightarrow> bool" where
  "is_object (JArr xs) = True"
| "is_object (JObj ps) = True"
| "is_object _ = False"

fun truthy :: "jsval \<Rightarrow> bool" where
  "truthy JUndef = False"
| "truthy JNull = False"
| "truthy (JBool b) = b"
| "truthy (JNum q) = (q \<noteq> 0)"
| "truthy (JStr s) = (s \<noteq> [])"
| "truthy _ = True"

text \<open>typeof v = string and v.length > 0.\<close>

fun nonempty_str :: "jsval \<Rightarrow> string option" where
  "nonempty_str (JStr s) = (if s = [] then None else Some s)"
| "nonempty_str _ = None"

text \<open>Loose equality of a value with a number. An array is first converted to the text of
  its elements joined by commas, where undefined and null give the empty text.\<close>

fun js_to_string :: "jsval \<Rightarrow> string option" where
  "js_to_string (JStr s) = Some s"
| "js_to_string (JBool b) = Some (if b then ''true'' else ''false'')"
| "js_to_string JNull = Some ''null''"
| "js_to_string JUndef = Some ''undefined''"
| "js_to_string (JObj ps) = Some ''[object Object]''"
| "js_to_string _ = None"

fun loose_num :: "jsval \<Rightarrow> js_num" where
  "loose_num (JNum q) = Fin q"
| "loose_num (JStr s) = js_number s"
| "loose_num (JBool b) = Fin (if b then 1 else 0)"
| "loose_num (JArr []) = Fin 0"
| "loose_num (JArr [v]) =
     (case v of
        JBool b \<Rightarrow> NaN
      | JUndef \<Rightarrow> Fin 0
      | JNull \<Rightarrow> Fin 0
      | JObj ps \<Rightarrow> NaN
      | _ \<Rightarrow> loose_num v)"
| "loose_num _ = NaN"

definition loosely_equals :: "jsval \<Rightarrow> rat \<Rightarrow> bool" where
  "loosely_equals v q = (loose_num v = Fin q)"

lemma nonempty_str_Some [simp]: "nonempty_str v = Some s \<longleftrightarrow> v = JStr s \<and> s \<noteq> []"
  by (cases v) auto

lemma nonempty_str_None: "nonempty_str v = None \<longleftrightarrow> (\<forall>s. v = JStr s \<longrightarrow> s = [])"
  by (cases v) auto

lemma nth_or_undef_simps [simp]:
  "nth_or_undef (x # xs) 0 = x"
  "nth_or_undef (x # xs) (Suc n) = nth_or_undef xs n"
  "nth_or_undef [] n = JUndef"
  by (simp_all add: nth_or_undef_def)

lemma nth_or_undef_numeral [simp]:
  "nth_or_undef (x # xs) (numeral n) = nth_or_undef xs (pred_numeral n)"
  by (simp add: numeral_eq_Suc)

lemma js_prop_set_prop [simp]:
  "js_prop k (js_set_prop k' v (JObj ps)) = (if k = k' then v else js_prop k (JObj ps))"
  by (simp add: update_conv')

lemma js_prop_delete [simp]:
  "js_prop k (js_delete_prop k' x) = (if k = k' then JUndef else js_prop k x)"
  by (cases x) (simp_all add: delete_conv')

lemma throw_ocpp_neq [simp]: "throw_ocpp m c d \<noteq> Inr x" "Inr x \<noteq> throw_ocpp m c d"
  by (simp_all add: throw_ocpp_def)

lemma error_code_str_inj [simp]: "error_code_str a = error_code_str b \<longleftrightarrow> a = b"
  by (cases a; cases b) simp_all

end
