(* ===== verification/RpcMessage.thy ===== *)
theory RpcMessage
  imports JsValue
begin

text \<open>
  The frames of the OCPP-J protocol as model objects (packages/base/src/ocpp/rpc/message.ts):
  reading a message id off an unvalidated frame, building Call, CallResult and CallError from
  a frame or from fields, and printing them as frames again.
\<close>

section \<open>Constants and shape checks\<close>

definition MessageTypeId_Call :: rat where "MessageTypeId_Call = 2"
definition MessageTypeId_CallResult :: rat where "MessageTypeId_CallResult = 3"
definition MessageTypeId_CallError :: rat where "MessageTypeId_CallError = 4"

lemmas message_type_ids = MessageTypeId_Call_def MessageTypeId_CallResult_def MessageTypeId_CallError_def

definition UNREADABLE_MESSAGE_ID :: string where
  "UNREADABLE_MESSAGE_ID = ''-1''"

definition readMessageId :: "jsval \<Rightarrow> string" where
  "readMessageId raw =
     (case nonempty_str (if is_array raw then js_idx raw 1 else JUndef) of
        Some m \<Rightarrow> m
      | None \<Rightarrow> UNREADABLE_MESSAGE_ID)"

definition malformed :: "string \<Rightarrow> string \<Rightarrow> string" where
  "malformed name what = ''Malformed '' @ name @ '' frame: '' @ what"

definition assertRawFrame :: "jsval \<Rightarrow> rat \<Rightarrow> nat \<Rightarrow> string \<Rightarrow> exn + jsval list" where
  "assertRawFrame raw messageTypeId minLength name =
     (case raw of
        JArr xs \<Rightarrow>
          if length xs < minLength
          then throw_ocpp (readMessageId raw) ProtocolError
                 (malformed name (''expected an array of at least '' @ nat_str minLength @ '' elements''))
          else if nth_or_undef xs 0 \<noteq> JNum messageTypeId
          then Inl (JsErr (''Cannot build a '' @ name @ '' model from a frame with messageTypeId '')
                      [nth_or_undef xs 0])
          else (case nonempty_str (nth_or_undef xs 1) of
                  Some _ \<Rightarrow> Inr xs
                | None \<Rightarrow> throw_ocpp UNREADABLE_MESSAGE_ID ProtocolError
                         (malformed name ''messageId is not a non-empty string''))
      | _ \<Rightarrow> throw_ocpp (readMessageId raw) ProtocolError
               (malformed name (''expected an array of at least '' @ nat_str minLength @ '' elements'')))"

definition frame_id :: "jsval list \<Rightarrow> string" where
  "frame_id raw = (case nth_or_undef raw 1 of JStr m \<Rightarrow> m | _ \<Rightarrow> [])"

definition assertPayload :: "jsval \<Rightarrow> string \<Rightarrow> string \<Rightarrow> exn + unit" where
  "assertPayload payload messageId name =
     (if is_object payload then Inr ()
      else throw_ocpp messageId ProtocolError (malformed name ''payload is not an object''))"

section \<open>Call\<close>

record call =
  c_messageId :: string
  c_action :: string
  c_payload :: jsval

definition new_call :: "string \<Rightarrow> string \<Rightarrow> jsval \<Rightarrow> call" where
  "new_call messageId action payload =
     \<lparr> c_messageId = messageId, c_action = action, c_payload = payload \<rparr>"

definition call_of_raw :: "jsval \<Rightarrow> exn + call" where
  "call_of_raw raw0 =
     bind_res (assertRawFrame raw0 MessageTypeId_Call 4 ''CALL'') (\<lambda>raw.
       let messageId = frame_id raw in
       (case nonempty_str (nth_or_undef raw 2) of
          Some action \<Rightarrow>
            bind_res (assertPayload (nth_or_undef raw 3) messageId ''CALL'') (\<lambda>_.
              Inr (new_call messageId action (nth_or_undef raw 3)))
        | None \<Rightarrow> throw_ocpp messageId ProtocolError
                 (malformed ''CALL'' ''action is not a non-empty string'')))"

definition call_toJSON :: "call \<Rightarrow> jsval" where
  "call_toJSON c = JArr [JNum MessageTypeId_Call, JStr (c_messageId c), JStr (c_action c), c_payload c]"

section \<open>CallResult\<close>

record call_result =
  cr_messageId :: string
  cr_payload :: jsval

definition call_result_of_raw :: "jsval \<Rightarrow> exn + call_result" where
  "call_result_of_raw raw0 =
     bind_res (assertRawFrame raw0 MessageTypeId_CallResult 3 ''CALLRESULT'') (\<lambda>raw.
       let messageId = frame_id raw in
       bind_res (assertPayload (nth_or_undef raw 2) messageId ''CALLRESULT'') (\<lambda>_.
         Inr \<lparr> cr_messageId = messageId, cr_payload = nth_or_undef raw 2 \<rparr>))"

text \<open>The constructor with fields falls through to the frame form when the payload is undefined.\<close>

definition new_call_result :: "string \<Rightarrow> jsval \<Rightarrow> exn + call_result" where
  "new_call_result messageId payload =
     (if payload \<noteq> JUndef then Inr \<lparr> cr_messageId = messageId, cr_payload = payload \<rparr>
      else call_result_of_raw (JStr messageId))"

definition call_result_toJSON :: "call_result \<Rightarrow> jsval" where
  "call_result_toJSON r = JArr [JNum MessageTypeId_CallResult, JStr (cr_messageId r), cr_payload r]"

section \<open>CallError\<close>

type_synonym call_error = ocpp_error

definition new_call_error :: "string \<Rightarrow> jsval \<Rightarrow> string \<Rightarrow> jsval \<Rightarrow> call_error" where
  "new_call_error messageId errorCode errorDescription errorDetails =
     \<lparr> oe_messageId = messageId, oe_code = errorCode, oe_description = errorDescription,
       oe_details = (if errorDetails = JUndef then JObj [] else errorDetails) \<rparr>"

definition call_error_of_raw :: "jsval \<Rightarrow> exn + call_error" where
  "call_error_of_raw raw0 =
     bind_res (assertRawFrame raw0 MessageTypeId_CallError 4 ''CALLERROR'') (\<lambda>raw.
       Inr \<lparr> oe_messageId = frame_id raw,
             oe_code = nth_or_undef raw 2,
             oe_description = (case nth_or_undef raw 3 of JStr s \<Rightarrow> s | _ \<Rightarrow> []),
             oe_details = (if is_object (nth_or_undef raw 4) then nth_or_undef raw 4 else JObj []) \<rparr>)"

definition asOcppError :: "call_error \<Rightarrow> ocpp_error" where
  "asOcppError e = \<lparr> oe_messageId = oe_messageId e, oe_code = oe_code e,
     oe_description = oe_description e, oe_details = oe_details e \<rparr>"

definition asCallError :: "ocpp_error \<Rightarrow> call_error" where
  "asCallError e = new_call_error (oe_messageId e) (oe_code e) (oe_description e) (oe_details e)"

definition call_error_toJSON :: "call_error \<Rightarrow> jsval" where
  "call_error_toJSON e = JArr [JNum MessageTypeId_CallError, JStr (oe_messageId e), oe_code e,
     JStr (oe_description e), oe_details e]"

section \<open>Lemmas\<close>

lemma readMessageId_frame [simp]: "m \<noteq> [] \<Longrightarrow> readMessageId (JArr (t # JStr m # xs)) = m"
  by (simp add: readMessageId_def)

lemma readMessageId_nonempty: "readMessageId raw \<noteq> []"
  by (auto simp: readMessageId_def UNREADABLE_MESSAGE_ID_def split: option.splits)

lemma assertRawFrame_ok:
  "assertRawFrame raw t n name = Inr xs \<longleftrightarrow>
   raw = JArr xs \<and> n \<le> length xs \<and> nth_or_undef xs 0 = JNum t \<and>
   (\<exists>m. m \<noteq> [] \<and> nth_or_undef xs 1 = JStr m)"
proof (cases raw)
  case (JArr ys)
  then show ?thesis
    by (cases "nonempty_str (nth_or_undef ys 1)"; cases "nth_or_undef ys 0 = JNum t"; cases "length ys < n")
      (auto simp: assertRawFrame_def throw_ocpp_def)
qed (simp_all add: assertRawFrame_def)

lemma assertRawFrame_shape:
  assumes "2 \<le> n"
  shows "assertRawFrame raw t n name = Inr xs \<longleftrightarrow>
   raw = JArr xs \<and> n \<le> length xs \<and> (\<exists>m ys. m \<noteq> [] \<and> xs = JNum t # JStr m # ys)"
proof -
  have "n \<le> length xs \<Longrightarrow> \<exists>a b ys. xs = a # b # ys"
    using assms by (auto simp: numeral_eq_Suc Suc_le_length_iff dest!: order_trans [OF assms])
  then show ?thesis by (auto simp: assertRawFrame_ok)
qed

lemma assertPayload_ok [simp]: "assertPayload p m n = Inr u \<longleftrightarrow> is_object p"
  by (simp add: assertPayload_def)

lemma frame_id_simp [simp]: "frame_id (t # JStr m # xs) = m"
  by (simp add: frame_id_def)

lemma length_ge_3: "3 \<le> length (a # b # ys) \<longleftrightarrow> (\<exists>c zs. ys = c # zs)"
  by (cases ys) auto

lemma length_ge_4: "4 \<le> length (a # b # ys) \<longleftrightarrow> (\<exists>c d zs. ys = c # d # zs)"
  by (cases ys; cases "tl ys") auto

text \<open>A frame is accepted as a CALL exactly when it has the shape the specification gives,
  and the model object then carries its message id, action and payload.\<close>
lemma call_of_raw_iff:
  "call_of_raw raw = Inr c \<longleftrightarrow>
   (\<exists>xs. raw = JArr (JNum 2 # JStr (c_messageId c) # JStr (c_action c) # c_payload c # xs)) \<and>
   c_messageId c \<noteq> [] \<and> c_action c \<noteq> [] \<and> is_object (c_payload c)" (is "?l = ?r")
proof
  assume ?l
  then obtain xs where xs: "assertRawFrame raw 2 4 ''CALL'' = Inr xs"
    and r: "(case nonempty_str (nth_or_undef xs 2) of
          Some action \<Rightarrow>
            bind_res (assertPayload (nth_or_undef xs 3) (frame_id xs) ''CALL'') (\<lambda>_.
              Inr (new_call (frame_id xs) action (nth_or_undef xs 3)))
        | None \<Rightarrow> throw_ocpp (frame_id xs) ProtocolError
                 (malformed ''CALL'' ''action is not a non-empty string'')) = Inr c"
    by (auto simp: call_of_raw_def bind_res_eq_Inr Let_def message_type_ids)
  have "2 \<le> (4::nat)" by simp
  from assertRawFrame_shape [OF this] xs
  obtain m ys where m: "raw = JArr xs" "4 \<le> length xs" "m \<noteq> []" "xs = JNum 2 # JStr m # ys" by blast
  then obtain a p zs where "ys = a # p # zs" using length_ge_4 [of "JNum 2" "JStr m" ys] by auto
  then have xs: "xs = JNum 2 # JStr m # a # p # zs" using m(4) by simp
  obtain s where a: "a = JStr s" "s \<noteq> []"
    using r unfolding xs by (cases "nonempty_str a") auto
  then have "is_object p \<and> c = new_call m s p"
    using r unfolding xs by (cases "is_object p") (simp_all add: assertPayload_def throw_ocpp_def)
  then show ?r using m(1,3) a by (simp add: xs new_call_def)
next
  assume ?r
  then obtain xs where xs: "raw = JArr (JNum 2 # JStr (c_messageId c) # JStr (c_action c) # c_payload c # xs)"
    and ne: "c_messageId c \<noteq> []" "c_action c \<noteq> []" "is_object (c_payload c)" by blast
  have "assertRawFrame raw 2 4 ''CALL'' = Inr (JNum 2 # JStr (c_messageId c) # JStr (c_action c) # c_payload c # xs)"
    using ne by (subst assertRawFrame_ok) (simp add: xs)
  then show ?l
    using ne by (simp add: call_of_raw_def message_type_ids new_call_def assertPayload_def Let_def)
qed

lemma call_roundtrip:
  "c_messageId c \<noteq> [] \<Longrightarrow> c_action c \<noteq> [] \<Longrightarrow> is_object (c_payload c) \<Longrightarrow>
   call_of_raw (call_toJSON c) = Inr c"
  by (simp add: call_of_raw_iff call_toJSON_def message_type_ids)

lemma call_result_roundtrip:
  "cr_messageId r \<noteq> [] \<Longrightarrow> is_object (cr_payload r) \<Longrightarrow>
   call_result_of_raw (call_result_toJSON r) = Inr r"
  by (cases r) (simp add: call_result_of_raw_def call_result_toJSON_def assertRawFrame_def
      message_type_ids assertPayload_def)

lemma call_error_roundtrip:
  "oe_messageId e \<noteq> [] \<Longrightarrow> is_object (oe_details e) \<Longrightarrow>
   call_error_of_raw (call_error_toJSON e) = Inr e"
  by (cases e) (simp add: call_error_of_raw_def call_error_toJSON_def assertRawFrame_def message_type_ids)

lemma frame_shape_error:
  assumes "assertRawFrame raw t n name = Inl (OcppErr e)"
  shows "oe_code e = JStr ''ProtocolError'' \<and>
    (oe_messageId e = readMessageId raw \<or> oe_messageId e = UNREADABLE_MESSAGE_ID)"
  using assms
  by (auto simp: assertRawFrame_def throw_ocpp_def new_ocpp_error_def split: jsval.splits if_splits option.splits)

text \<open>C26. Printing a model object as a frame and building a model object from that frame gives it
  back, for the three message types, when the fields are those of a well-formed message.\<close>
theorem frames_roundtrip:
  "(c_messageId c \<noteq> [] \<and> c_action c \<noteq> [] \<and> is_object (c_payload c) \<longrightarrow>
      call_of_raw (call_toJSON c) = Inr c) \<and>
   (cr_messageId r \<noteq> [] \<and> is_object (cr_payload r) \<longrightarrow>
      call_result_of_raw (call_result_toJSON r) = Inr r) \<and>
   (oe_messageId e \<noteq> [] \<and> is_object (oe_details e) \<longrightarrow>
      call_error_of_raw (call_error_toJSON e) = Inr e \<and> asCallError (asOcppError e) = e)"
proof -
  have "is_object (oe_details e) \<Longrightarrow> asCallError (asOcppError e) = e"
    by (cases e) (auto simp: asCallError_def asOcppError_def new_call_error_def)
  then show ?thesis by (simp add: call_roundtrip call_result_roundtrip call_error_roundtrip)
qed

theorem frames_roundtrip_witness:
  "call_of_raw (call_toJSON (new_call ''m'' ''Reset'' (JObj []))) = Inr (new_call ''m'' ''Reset'' (JObj [])) \<and>
   call_result_of_raw (call_result_toJSON \<lparr> cr_messageId = ''m'', cr_payload = JObj [] \<rparr>)
     = Inr \<lparr> cr_messageId = ''m'', cr_payload = JObj [] \<rparr>"
  using frames_roundtrip [of "new_call ''m'' ''Reset'' (JObj [])" "\<lparr> cr_messageId = ''m'', cr_payload = JObj [] \<rparr>"]
  by (simp add: new_call_def)

end
