(* ===== verification/CallActions.thy ===== *)
theory CallActions
  imports JsValue "HOL-Library.List_Lexorder" "HOL-Library.Char_ord"
begin

text \<open>
  The protocol versions (packages/types/src/ocpp/rpc/message.ts), the actions of all versions,
  the sets of actions each version allows and mapToCallAction
  (packages/base/src/ocpp/rpc/message.ts), and the actions for which a request and a response
  schema is registered (packages/base/src/interfaces/schema/MappingSchema.ts). A member of a
  string enum is its string; a schema record is the list of its keys, because the schemas
  themselves are generated files that only the library Ajv reads.
\<close>

datatype ocpp_version = OCPP1_6 | OCPP2_0_1 | OCPP2_1

instantiation ocpp_version :: linorder
begin

definition less_eq_ocpp_version :: "ocpp_version \<Rightarrow> ocpp_version \<Rightarrow> bool" where
  "less_eq_ocpp_version a b \<longleftrightarrow> (case a of OCPP1_6 \<Rightarrow> True | OCPP2_0_1 \<Rightarrow> b \<noteq> OCPP1_6 | OCPP2_1 \<Rightarrow> b = OCPP2_1)"

definition less_ocpp_version :: "ocpp_version \<Rightarrow> ocpp_version \<Rightarrow> bool" where
  "less_ocpp_version a b \<longleftrightarrow> a \<le> b \<and> a \<noteq> (b :: ocpp_version)"

instance
  by standard (auto simp: less_eq_ocpp_version_def less_ocpp_version_def split: ocpp_version.splits)

end

fun version_str :: "ocpp_version \<Rightarrow> string" where
  "version_str OCPP1_6 = ''ocpp1.6''"
| "version_str OCPP2_0_1 = ''ocpp2.0.1''"
| "version_str OCPP2_1 = ''ocpp2.1''"

definition OCPP_2_VER_LIST :: "ocpp_version list" where
  "OCPP_2_VER_LIST = [OCPP2_0_1, OCPP2_1]"

definition NO_ACTION :: string where
  "NO_ACTION = ''NoAction''"

section \<open>Actions\<close>

definition OCPP_CallAction :: "string list" where
  "OCPP_CallAction = [
    ''AdjustPeriodicEventStream'', ''AFRRSignal'', ''Authorize'', ''BatterySwap'',
    ''BootNotification'', ''CancelReservation'', ''CertificateSigned'', ''ChangeAvailability'',
    ''ChangeConfiguration'', ''ChangeTransactionTariff'', ''ClearCache'', ''ClearChargingProfile'',
    ''ClearDERControl'', ''ClearDisplayMessage'', ''ClearTariffs'', ''ClearVariableMonitoring'',
    ''ClearedChargingLimit'', ''ClosePeriodicEventStream'', ''CostUpdated'',
    ''CustomerInformation'', ''DataTransfer'', ''DeleteCertificate'',
    ''DiagnosticsStatusNotification'', ''FirmwareStatusNotification'', ''Get15118EVCertificate'',
    ''GetBaseReport'', ''GetCertificateChainStatus'', ''GetCertificateStatus'',
    ''GetChargingProfiles'', ''GetCompositeSchedule'', ''GetConfiguration'', ''GetDERControl'',
    ''GetDiagnostics'', ''GetDisplayMessages'', ''GetInstalledCertificateIds'',
    ''GetLocalListVersion'', ''GetLog'', ''GetMonitoringReport'', ''GetPeriodicEventStream'',
    ''GetReport'', ''GetTariffs'', ''GetTransactionStatus'', ''GetVariables'', ''Heartbeat'',
    ''InstallCertificate'', ''LogStatusNotification'', ''MeterValues'',
    ''NotifyAllowedEnergyTransfer'', ''NotifyChargingLimit'', ''NotifyCustomerInformation'',
    ''NotifyDERAlarm'', ''NotifyDERStartStop'', ''NotifyDisplayMessages'',
    ''NotifyEVChargingNeeds'', ''NotifyEVChargingSchedule'', ''NotifyEvent'',
    ''NotifyMonitoringReport'', ''NotifyPeriodicEventStream'', ''NotifyPriorityCharging'',
    ''NotifyReport'', ''NotifySettlement'', ''NotifyWebPaymentStarted'',
    ''OpenPeriodicEventStream'', ''PublishFirmware'', ''PublishFirmwareStatusNotification'',
    ''PullDynamicScheduleUpdate'', ''RemoteStartTransaction'', ''RemoteStopTransaction'',
    ''ReportChargingProfiles'', ''ReportDERControl'', ''RequestBatterySwap'',
    ''RequestStartTransaction'', ''RequestStopTransaction'', ''ReservationStatusUpdate'',
    ''ReserveNow'', ''Reset'', ''SecurityEventNotification'', ''SendLocalList'',
    ''SetChargingProfile'', ''SetDefaultTariff'', ''SetDERControl'', ''SetDisplayMessage'',
    ''SetMonitoringBase'', ''SetMonitoringLevel'', ''SetNetworkProfile'', ''SetVariableMonitoring'',
    ''SetVariables'', ''SignCertificate'', ''SignedFirmwareStatusNotification'',
    ''SignedUpdateFirmware'', ''StartTransaction'', ''StatusNotification'', ''StopTransaction'',
    ''TransactionEvent'', ''TriggerMessage'', ''UnlockConnector'', ''UnpublishFirmware'',
    ''UpdateDynamicSchedule'', ''UpdateFirmware'', ''UsePriorityCharging'', ''VatNumberValidation'']"

definition OCPP_Base_CallActions :: "string list" where
  "OCPP_Base_CallActions = [
    ''Authorize'', ''BootNotification'', ''CancelReservation'', ''ChangeAvailability'',
    ''ClearCache'', ''ClearChargingProfile'', ''DataTransfer'', ''FirmwareStatusNotification'',
    ''GetCompositeSchedule'', ''GetConfiguration'', ''GetLocalListVersion'', ''Heartbeat'',
    ''MeterValues'', ''ReserveNow'', ''Reset'', ''SendLocalList'', ''SetChargingProfile'',
    ''StartTransaction'', ''StatusNotification'', ''StopTransaction'', ''TriggerMessage'',
    ''UnlockConnector'', ''UpdateFirmware'']"

definition OCPP_CallActions :: "string list" where
  "OCPP_CallActions = OCPP_Base_CallActions @ [
    ''ChangeConfiguration'', ''DiagnosticsStatusNotification'', ''GetConfiguration'',
    ''GetDiagnostics'', ''RemoteStartTransaction'', ''RemoteStopTransaction'', ''StartTransaction'',
    ''StopTransaction'']"

definition OCPP2_0_1_CallActions :: "string list" where
  "OCPP2_0_1_CallActions = OCPP_Base_CallActions @ [
    ''CertificateSigned'', ''ClearDisplayMessage'', ''ClearedChargingLimit'',
    ''ClearVariableMonitoring'', ''CostUpdated'', ''CustomerInformation'', ''DeleteCertificate'',
    ''Get15118EVCertificate'', ''GetBaseReport'', ''GetCertificateStatus'', ''GetChargingProfiles'',
    ''GetDisplayMessages'', ''GetInstalledCertificateIds'', ''GetLog'', ''GetMonitoringReport'',
    ''GetReport'', ''GetTransactionStatus'', ''GetVariables'', ''InstallCertificate'',
    ''LogStatusNotification'', ''NotifyChargingLimit'', ''NotifyCustomerInformation'',
    ''NotifyDisplayMessages'', ''NotifyEVChargingNeeds'', ''NotifyEVChargingSchedule'',
    ''NotifyEvent'', ''NotifyMonitoringReport'', ''NotifyReport'', ''PublishFirmware'',
    ''PublishFirmwareStatusNotification'', ''ReportChargingProfiles'', ''RequestStartTransaction'',
    ''RequestStopTransaction'', ''ReservationStatusUpdate'', ''SecurityEventNotification'',
    ''SetDisplayMessage'', ''SetMonitoringBase'', ''SetMonitoringLevel'', ''SetNetworkProfile'',
    ''SetVariableMonitoring'', ''SetVariables'', ''SignCertificate'', ''TransactionEvent'',
    ''UnpublishFirmware'']"

definition OCPP2_1_CallActions :: "string list" where
  "OCPP2_1_CallActions = OCPP2_0_1_CallActions @ [
    ''AdjustPeriodicEventStream'', ''AFRRSignal'', ''BatterySwap'', ''ChangeTransactionTariff'',
    ''ClearDERControl'', ''ClearTariffs'', ''ClosePeriodicEventStream'',
    ''GetCertificateChainStatus'', ''GetDERControl'', ''GetPeriodicEventStream'', ''GetTariffs'',
    ''NotifyAllowedEnergyTransfer'', ''NotifyDERAlarm'', ''NotifyDERStartStop'',
    ''NotifyPeriodicEventStream'', ''NotifyPriorityCharging'', ''NotifySettlement'',
    ''NotifyWebPaymentStarted'', ''OpenPeriodicEventStream'', ''PullDynamicScheduleUpdate'',
    ''ReportDERControl'', ''RequestBatterySwap'', ''SetDefaultTariff'', ''SetDERControl'',
    ''UpdateDynamicSchedule'', ''UsePriorityCharging'', ''VatNumberValidation'']"

fun ALLOWED_ACTIONS :: "ocpp_version \<Rightarrow> string list" where
  "ALLOWED_ACTIONS OCPP1_6 = OCPP_CallActions"
| "ALLOWED_ACTIONS OCPP2_0_1 = OCPP2_0_1_CallActions"
| "ALLOWED_ACTIONS OCPP2_1 = OCPP2_1_CallActions"

fun version_label :: "ocpp_version \<Rightarrow> string" where
  "version_label OCPP1_6 = ''1.6''"
| "version_label OCPP2_0_1 = ''2.0.1''"
| "version_label OCPP2_1 = ''2.1''"

definition mapToCallAction :: "ocpp_version \<Rightarrow> string \<Rightarrow> exn + string" where
  "mapToCallAction version action =
     (if action = [] then Inl (JsErr ''Action must be a non-empty string'' [])
      else if action \<in> set OCPP_CallAction \<and> action \<in> set (ALLOWED_ACTIONS version) then Inr action
      else Inl (JsErr (''Invalid OCPP '' @ version_label version @ '' action: '') [JStr action]))"

section \<open>Schemas\<close>

definition OCPP1_6_CALL_SCHEMA_RECORD :: "string list" where
  "OCPP1_6_CALL_SCHEMA_RECORD = [
    ''Authorize'', ''BootNotification'', ''CancelReservation'', ''ChangeAvailability'',
    ''ChangeConfiguration'', ''ClearCache'', ''ClearChargingProfile'', ''DataTransfer'',
    ''DiagnosticsStatusNotification'', ''FirmwareStatusNotification'', ''GetCompositeSchedule'',
    ''GetConfiguration'', ''GetDiagnostics'', ''GetLocalListVersion'', ''Heartbeat'',
    ''MeterValues'', ''RemoteStartTransaction'', ''RemoteStopTransaction'', ''ReserveNow'',
    ''Reset'', ''SendLocalList'', ''SetChargingProfile'', ''StartTransaction'',
    ''StatusNotification'', ''StopTransaction'', ''TriggerMessage'', ''UnlockConnector'',
    ''UpdateFirmware'']"

definition OCPP2_0_1_CALL_SCHEMA_RECORD :: "string list" where
  "OCPP2_0_1_CALL_SCHEMA_RECORD = [
    ''Authorize'', ''BootNotification'', ''CancelReservation'', ''CertificateSigned'',
    ''ChangeAvailability'', ''ClearCache'', ''ClearChargingProfile'', ''ClearDisplayMessage'',
    ''ClearedChargingLimit'', ''ClearVariableMonitoring'', ''CostUpdated'', ''CustomerInformation'',
    ''DataTransfer'', ''DeleteCertificate'', ''FirmwareStatusNotification'',
    ''Get15118EVCertificate'', ''GetBaseReport'', ''GetCertificateStatus'', ''GetChargingProfiles'',
    ''GetCompositeSchedule'', ''GetDisplayMessages'', ''GetInstalledCertificateIds'',
    ''GetLocalListVersion'', ''GetLog'', ''GetMonitoringReport'', ''GetReport'',
    ''GetTransactionStatus'', ''GetVariables'', ''Heartbeat'', ''InstallCertificate'',
    ''LogStatusNotification'', ''MeterValues'', ''NotifyChargingLimit'',
    ''NotifyCustomerInformation'', ''NotifyDisplayMessages'', ''NotifyEVChargingNeeds'',
    ''NotifyEVChargingSchedule'', ''NotifyEvent'', ''NotifyMonitoringReport'', ''NotifyReport'',
    ''PublishFirmware'', ''PublishFirmwareStatusNotification'', ''ReportChargingProfiles'',
    ''RequestStartTransaction'', ''RequestStopTransaction'', ''ReservationStatusUpdate'',
    ''ReserveNow'', ''Reset'', ''SecurityEventNotification'', ''SendLocalList'',
    ''SetChargingProfile'', ''SetDisplayMessage'', ''SetMonitoringBase'', ''SetMonitoringLevel'',
    ''SetNetworkProfile'', ''SetVariableMonitoring'', ''SetVariables'', ''SignCertificate'',
    ''StatusNotification'', ''TransactionEvent'', ''TriggerMessage'', ''UnlockConnector'',
    ''UnpublishFirmware'', ''UpdateFirmware'']"

definition OCPP2_1_CALL_SCHEMA_RECORD :: "string list" where
  "OCPP2_1_CALL_SCHEMA_RECORD = [
    ''Authorize'', ''BootNotification'', ''CancelReservation'', ''CertificateSigned'',
    ''ChangeAvailability'', ''ClearCache'', ''ClearChargingProfile'', ''ClearDisplayMessage'',
    ''ClearedChargingLimit'', ''ClearVariableMonitoring'', ''CostUpdated'', ''CustomerInformation'',
    ''DataTransfer'', ''DeleteCertificate'', ''FirmwareStatusNotification'',
    ''Get15118EVCertificate'', ''GetBaseReport'', ''GetCertificateStatus'', ''GetChargingProfiles'',
    ''GetCompositeSchedule'', ''GetDisplayMessages'', ''GetInstalledCertificateIds'',
    ''GetLocalListVersion'', ''GetLog'', ''GetMonitoringReport'', ''GetReport'',
    ''GetTransactionStatus'', ''GetVariables'', ''Heartbeat'', ''InstallCertificate'',
    ''LogStatusNotification'', ''MeterValues'', ''NotifyChargingLimit'',
    ''NotifyCustomerInformation'', ''NotifyAllowedEnergyTransfer'', ''NotifyDERAlarm'',
    ''NotifyDERStartStop'', ''NotifyDisplayMessages'', ''NotifyEVChargingNeeds'',
    ''NotifyEVChargingSchedule'', ''NotifyEvent'', ''NotifyMonitoringReport'', ''NotifyReport'',
    ''NotifySettlement'', ''PublishFirmware'', ''PublishFirmwareStatusNotification'',
    ''ReportChargingProfiles'', ''ReportDERControl'', ''RequestStartTransaction'',
    ''RequestStopTransaction'', ''ReservationStatusUpdate'', ''ReserveNow'', ''Reset'',
    ''SecurityEventNotification'', ''SendLocalList'', ''SetDERControl'', ''SetChargingProfile'',
    ''SetDisplayMessage'', ''SetMonitoringBase'', ''SetMonitoringLevel'', ''SetNetworkProfile'',
    ''SetVariableMonitoring'', ''SetVariables'', ''SignCertificate'', ''StatusNotification'',
    ''TransactionEvent'', ''TriggerMessage'', ''UnlockConnector'', ''GetDERControl'',
    ''ClearDERControl'', ''AFRRSignal'', ''SetDefaultTariff'', ''UnpublishFirmware'',
    ''UpdateDynamicSchedule'', ''UpdateFirmware'', ''VatNumberValidation'']"

definition OCPP1_6_CALL_RESULT_SCHEMA_RECORD :: "string list" where
  "OCPP1_6_CALL_RESULT_SCHEMA_RECORD = [
    ''Authorize'', ''BootNotification'', ''CancelReservation'', ''ChangeAvailability'',
    ''ChangeConfiguration'', ''ClearCache'', ''ClearChargingProfile'', ''DataTransfer'',
    ''DiagnosticsStatusNotification'', ''FirmwareStatusNotification'', ''GetCompositeSchedule'',
    ''GetConfiguration'', ''GetDiagnostics'', ''GetLocalListVersion'', ''Heartbeat'',
    ''MeterValues'', ''RemoteStartTransaction'', ''RemoteStopTransaction'', ''ReserveNow'',
    ''Reset'', ''SendLocalList'', ''SetChargingProfile'', ''StartTransaction'',
    ''StatusNotification'', ''StopTransaction'', ''TriggerMessage'', ''UnlockConnector'',
    ''UpdateFirmware'']"

definition OCPP2_0_1_CALL_RESULT_SCHEMA_RECORD :: "string list" where
  "OCPP2_0_1_CALL_RESULT_SCHEMA_RECORD = [
    ''Authorize'', ''BootNotification'', ''CancelReservation'', ''CertificateSigned'',
    ''ChangeAvailability'', ''ClearCache'', ''ClearChargingProfile'', ''ClearDisplayMessage'',
    ''ClearedChargingLimit'', ''ClearVariableMonitoring'', ''CostUpdated'', ''CustomerInformation'',
    ''DataTransfer'', ''DeleteCertificate'', ''FirmwareStatusNotification'',
    ''Get15118EVCertificate'', ''GetBaseReport'', ''GetCertificateStatus'', ''GetChargingProfiles'',
    ''GetCompositeSchedule'', ''GetDisplayMessages'', ''GetInstalledCertificateIds'',
    ''GetLocalListVersion'', ''GetLog'', ''GetMonitoringReport'', ''GetReport'',
    ''GetTransactionStatus'', ''GetVariables'', ''Heartbeat'', ''InstallCertificate'',
    ''LogStatusNotification'', ''MeterValues'', ''NotifyChargingLimit'',
    ''NotifyCustomerInformation'', ''NotifyDisplayMessages'', ''NotifyEVChargingNeeds'',
    ''NotifyEVChargingSchedule'', ''NotifyEvent'', ''NotifyMonitoringReport'', ''NotifyReport'',
    ''PublishFirmware'', ''PublishFirmwareStatusNotification'', ''ReportChargingProfiles'',
    ''RequestStartTransaction'', ''RequestStopTransaction'', ''ReservationStatusUpdate'',
    ''ReserveNow'', ''Reset'', ''SecurityEventNotification'', ''SendLocalList'',
    ''SetChargingProfile'', ''SetDisplayMessage'', ''SetMonitoringBase'', ''SetMonitoringLevel'',
    ''SetNetworkProfile'', ''SetVariableMonitoring'', ''SetVariables'', ''SignCertificate'',
    ''StatusNotification'', ''TransactionEvent'', ''TriggerMessage'', ''UnlockConnector'',
    ''UnpublishFirmware'', ''UpdateFirmware'']"

definition OCPP2_1_CALL_RESULT_SCHEMA_RECORD :: "string list" where
  "OCPP2_1_CALL_RESULT_SCHEMA_RECORD = [
    ''Authorize'', ''BootNotification'', ''CancelReservation'', ''CertificateSigned'',
    ''ChangeAvailability'', ''ClearCache'', ''ClearChargingProfile'', ''ClearDisplayMessage'',
    ''ClearedChargingLimit'', ''ClearVariableMonitoring'', ''CostUpdated'', ''CustomerInformation'',
    ''DataTransfer'', ''DeleteCertificate'', ''FirmwareStatusNotification'',
    ''Get15118EVCertificate'', ''GetBaseReport'', ''GetCertificateStatus'', ''GetChargingProfiles'',
    ''GetCompositeSchedule'', ''GetDisplayMessages'', ''GetInstalledCertificateIds'',
    ''GetLocalListVersion'', ''GetLog'', ''GetMonitoringReport'', ''GetReport'',
    ''GetTransactionStatus'', ''GetVariables'', ''Heartbeat'', ''InstallCertificate'',
    ''LogStatusNotification'', ''MeterValues'', ''NotifyChargingLimit'',
    ''NotifyCustomerInformation'', ''NotifyAllowedEnergyTransfer'', ''NotifyDERAlarm'',
    ''NotifyDERStartStop'', ''NotifyDisplayMessages'', ''NotifyEVChargingNeeds'',
    ''NotifyEVChargingSchedule'', ''NotifyEvent'', ''NotifyMonitoringReport'', ''NotifyReport'',
    ''NotifySettlement'', ''PublishFirmware'', ''PublishFirmwareStatusNotification'',
    ''ReportChargingProfiles'', ''ReportDERControl'', ''RequestStartTransaction'',
    ''RequestStopTransaction'', ''ReservationStatusUpdate'', ''ReserveNow'', ''Reset'',
    ''SecurityEventNotification'', ''SendLocalList'', ''SetDERControl'', ''SetChargingProfile'',
    ''SetDisplayMessage'', ''SetMonitoringBase'', ''SetMonitoringLevel'', ''SetNetworkProfile'',
    ''SetVariableMonitoring'', ''SetVariables'', ''SignCertificate'', ''StatusNotification'',
    ''TransactionEvent'', ''TriggerMessage'', ''UnlockConnector'', ''GetDERControl'',
    ''ClearDERControl'', ''AFRRSignal'', ''SetDefaultTariff'', ''UnpublishFirmware'',
    ''UpdateDynamicSchedule'', ''UpdateFirmware'', ''VatNumberValidation'']"

definition request_schemas :: "ocpp_version \<Rightarrow> string list" where
  "request_schemas v = (case v of
     OCPP1_6 \<Rightarrow> OCPP1_6_CALL_SCHEMA_RECORD
   | OCPP2_0_1 \<Rightarrow> OCPP2_0_1_CALL_SCHEMA_RECORD
   | OCPP2_1 \<Rightarrow> OCPP2_1_CALL_SCHEMA_RECORD)"

definition response_schemas :: "ocpp_version \<Rightarrow> string list" where
  "response_schemas v = (case v of
     OCPP1_6 \<Rightarrow> OCPP1_6_CALL_RESULT_SCHEMA_RECORD
   | OCPP2_0_1 \<Rightarrow> OCPP2_0_1_CALL_RESULT_SCHEMA_RECORD
   | OCPP2_1 \<Rightarrow> OCPP2_1_CALL_RESULT_SCHEMA_RECORD)"

section \<open>Lemmas\<close>

text \<open>A list that interleaves two others has their elements; checked in one pass.\<close>

fun interleaves :: "'a list \<Rightarrow> 'a list \<Rightarrow> 'a list \<Rightarrow> bool" where
  "interleaves [] as bs \<longleftrightarrow> as = [] \<and> bs = []"
| "interleaves (x # xs) (a # as) bs \<longleftrightarrow>
     (if x = a then interleaves xs as bs
      else (case bs of b # bs' \<Rightarrow> x = b \<and> interleaves xs (a # as) bs' | [] \<Rightarrow> False))"
| "interleaves (x # xs) [] bs \<longleftrightarrow> (case bs of b # bs' \<Rightarrow> x = b \<and> interleaves xs [] bs' | [] \<Rightarrow> False)"

lemma interleaves_set: "interleaves xs as bs \<Longrightarrow> set xs = set as \<union> set bs"
  by (induction xs as bs rule: interleaves.induct) (auto split: if_splits list.splits)

definition old_actions :: "string list" where
  "old_actions = [''GetConfiguration'', ''StartTransaction'', ''StopTransaction'']"

lemma set_minus_filter: "set (filter (\<lambda>x. x \<notin> set ys) xs) = set xs - set ys"
  by auto

lemma base_old: "set old_actions \<subseteq> set OCPP_Base_CallActions"
  by (simp add: old_actions_def OCPP_Base_CallActions_def)

lemma base_without_old:
  "filter (\<lambda>x. x \<notin> set old_actions) OCPP_Base_CallActions =
   [''Authorize'', ''BootNotification'', ''CancelReservation'', ''ChangeAvailability'', ''ClearCache'',
    ''ClearChargingProfile'', ''DataTransfer'', ''FirmwareStatusNotification'', ''GetCompositeSchedule'',
    ''GetLocalListVersion'', ''Heartbeat'', ''MeterValues'', ''ReserveNow'', ''Reset'', ''SendLocalList'',
    ''SetChargingProfile'', ''StatusNotification'', ''TriggerMessage'', ''UnlockConnector'', ''UpdateFirmware'']"
  by (simp add: old_actions_def OCPP_Base_CallActions_def)

definition only_201 :: "string list" where
  "only_201 = drop (length OCPP_Base_CallActions) OCPP2_0_1_CallActions"

lemma only_201: "OCPP2_0_1_CallActions = OCPP_Base_CallActions @ only_201"
  by (simp add: only_201_def OCPP2_0_1_CallActions_def)

lemma schemas_201_interleave:
  "interleaves OCPP2_0_1_CALL_SCHEMA_RECORD (filter (\<lambda>x. x \<notin> set old_actions) OCPP_Base_CallActions) only_201"
  unfolding base_without_old
  by (simp add: OCPP2_0_1_CALL_SCHEMA_RECORD_def only_201_def OCPP2_0_1_CallActions_def)

lemma schemas_201_set:
  "set OCPP2_0_1_CALL_SCHEMA_RECORD = set OCPP2_0_1_CallActions - set old_actions"
proof -
  have "set only_201 \<inter> set old_actions = {}"
    by (simp add: only_201_def OCPP2_0_1_CallActions_def OCPP_Base_CallActions_def old_actions_def)
  then show ?thesis
    using interleaves_set [OF schemas_201_interleave] by (auto simp: only_201)
qed

definition only_16 :: "string list" where
  "only_16 = [''ChangeConfiguration'', ''DiagnosticsStatusNotification'', ''GetDiagnostics'',
     ''RemoteStartTransaction'', ''RemoteStopTransaction'']"

lemma schemas_16_set: "set OCPP1_6_CALL_SCHEMA_RECORD = set OCPP_CallActions"
proof -
  have "interleaves OCPP1_6_CALL_SCHEMA_RECORD OCPP_Base_CallActions only_16"
    by (simp add: OCPP1_6_CALL_SCHEMA_RECORD_def OCPP_Base_CallActions_def only_16_def)
  moreover have "set OCPP_CallActions = set OCPP_Base_CallActions \<union> (set old_actions \<union> set only_16)"
    by (auto simp: OCPP_CallActions_def only_16_def old_actions_def)
  ultimately show ?thesis using interleaves_set base_old by fastforce
qed

definition schemas_only_21 :: "string list" where
  "schemas_only_21 =
    [''NotifyAllowedEnergyTransfer'', ''NotifyDERAlarm'', ''NotifyDERStartStop'', ''NotifySettlement'',
     ''ReportDERControl'', ''SetDERControl'', ''GetDERControl'', ''ClearDERControl'', ''AFRRSignal'',
     ''SetDefaultTariff'', ''UpdateDynamicSchedule'', ''VatNumberValidation'']"

lemma schemas_21_set:
  "set OCPP2_1_CALL_SCHEMA_RECORD = set OCPP2_0_1_CALL_SCHEMA_RECORD \<union> set schemas_only_21"
proof (rule interleaves_set)
  show "interleaves OCPP2_1_CALL_SCHEMA_RECORD OCPP2_0_1_CALL_SCHEMA_RECORD schemas_only_21"
    by (simp add: OCPP2_1_CALL_SCHEMA_RECORD_def OCPP2_0_1_CALL_SCHEMA_RECORD_def schemas_only_21_def)
qed

lemma schemas_only_21: "set schemas_only_21 \<subseteq> set OCPP2_1_CallActions"
  by (simp add: schemas_only_21_def OCPP2_1_CallActions_def)

lemma schema_keys_agree: "request_schemas v = response_schemas v"
  by (cases v)
    (simp_all only: request_schemas_def response_schemas_def ocpp_version.case
      OCPP1_6_CALL_SCHEMA_RECORD_def OCPP1_6_CALL_RESULT_SCHEMA_RECORD_def
      OCPP2_0_1_CALL_SCHEMA_RECORD_def OCPP2_0_1_CALL_RESULT_SCHEMA_RECORD_def
      OCPP2_1_CALL_SCHEMA_RECORD_def OCPP2_1_CALL_RESULT_SCHEMA_RECORD_def)

lemma schema_actions_allowed: "set (request_schemas v) \<subseteq> set (ALLOWED_ACTIONS v)"
proof (cases v)
  case OCPP2_1
  have "set OCPP2_0_1_CALL_SCHEMA_RECORD \<subseteq> set OCPP2_1_CallActions"
    using schemas_201_set by (auto simp: OCPP2_1_CallActions_def)
  with OCPP2_1 schemas_21_set schemas_only_21 show ?thesis by (simp add: request_schemas_def)
qed (use schemas_16_set schemas_201_set in \<open>auto simp: request_schemas_def\<close>)

lemma base_are_actions: "set OCPP_Base_CallActions \<subseteq> set OCPP_CallAction"
  unfolding OCPP_Base_CallActions_def OCPP_CallAction_def by simp

lemma only_201_are_actions: "set only_201 \<subseteq> set OCPP_CallAction"
  unfolding only_201_def OCPP2_0_1_CallActions_def OCPP_CallAction_def OCPP_Base_CallActions_def by simp

lemma allowed_are_actions: "set (ALLOWED_ACTIONS v) \<subseteq> set OCPP_CallAction"
proof (cases v)
  case OCPP1_6
  then show ?thesis
    using base_are_actions unfolding OCPP1_6 ALLOWED_ACTIONS.simps OCPP_CallActions_def set_append Un_subset_iff
    by (simp add: OCPP_CallAction_def)
next
  case OCPP2_0_1
  then show ?thesis using base_are_actions only_201_are_actions by (simp add: only_201)
next
  case OCPP2_1
  have "set OCPP2_0_1_CallActions \<subseteq> set OCPP_CallAction"
    using base_are_actions only_201_are_actions by (simp add: only_201)
  then show ?thesis
    unfolding OCPP2_1 ALLOWED_ACTIONS.simps OCPP2_1_CallActions_def set_append Un_subset_iff
    by (simp add: OCPP_CallAction_def)
qed

lemma empty_not_action: "[] \<notin> set OCPP_CallAction"
  by (simp add: OCPP_CallAction_def)

lemma mapToCallAction_ok:
  "mapToCallAction v a = Inr b \<longleftrightarrow> b = a \<and> a \<in> set (ALLOWED_ACTIONS v)"
  using allowed_are_actions [of v] empty_not_action by (auto simp: mapToCallAction_def)

lemma mapToCallAction_no_ocpp_error: "mapToCallAction v a \<noteq> Inl (OcppErr e)"
  by (simp add: mapToCallAction_def)

text \<open>mapToCallAction is the identity on the actions of the version and fails on every other
  string; a request schema exists exactly where a response schema does, only for actions of
  the version, and for OCPP 1.6 for all of them. OCPP 2.0.1 additionally maps the three 1.6
  actions GetConfiguration, StartTransaction and StopTransaction, for which no schema exists.\<close>
lemma call_actions_and_schemas:
  "(mapToCallAction v a = Inr b \<longleftrightarrow> b = a \<and> a \<in> set (ALLOWED_ACTIONS v)) \<and>
   request_schemas v = response_schemas v \<and>
   set (request_schemas v) \<subseteq> set (ALLOWED_ACTIONS v) \<and>
   set (request_schemas OCPP1_6) = set (ALLOWED_ACTIONS OCPP1_6) \<and>
   set (request_schemas OCPP2_0_1) = set (ALLOWED_ACTIONS OCPP2_0_1) -
     set [''GetConfiguration'', ''StartTransaction'', ''StopTransaction'']"
proof -
  have "set (request_schemas OCPP1_6) = set (ALLOWED_ACTIONS OCPP1_6)"
    by (simp add: request_schemas_def schemas_16_set)
  moreover have "set (request_schemas OCPP2_0_1) = set (ALLOWED_ACTIONS OCPP2_0_1) - set old_actions"
    by (simp add: request_schemas_def schemas_201_set)
  ultimately show ?thesis
    using mapToCallAction_ok schema_keys_agree schema_actions_allowed
    unfolding old_actions_def by blast
qed

end
