(* ===== verification/OcppValidator.thy ===== *)
theory OcppValidator
  imports CallActions
begin

text \<open>
  Validation and sanitizing of payloads (packages/base/src/interfaces/modules/OCPPValidator.ts).
  The compiled schemas belong to the library Ajv and to generated files: they are the
  functions of the record ajv, which return the validation errors, if any, and the payload
  with the defaults filled in (the option useDefaults makes Ajv do so in place).
\<close>

record ajv =
  ajv_request :: "ocpp_version \<Rightarrow> string \<Rightarrow> jsval \<Rightarrow> jsval option \<times> jsval"
  ajv_response :: "ocpp_version \<Rightarrow> string \<Rightarrow> jsval \<Rightarrow> jsval option \<times> jsval"
  ajv_data_transfer :: "string \<Rightarrow> (jsval \<Rightarrow> jsval option) option"  \<comment> \<open>getSchema of an id\<close>
  json_parse :: "jsval \<Rightarrow> exn + jsval"  \<comment> \<open>JSON.parse of the text of a value\<close>
  template :: "jsval \<Rightarrow> string"         \<comment> \<open>the text of a value inside a template literal\<close>

datatype validation = Valid | Invalid "jsval option"

section \<open>Compatibility patches\<close>

text \<open>for (x of v ?? []): null and undefined give no elements, arrays their elements and strings
  their characters; any other value is not iterable.\<close>

definition iterate :: "jsval \<Rightarrow> exn + jsval list" where
  "iterate v =
     (case v of
        JUndef \<Rightarrow> Inr []
      | JNull \<Rightarrow> Inr []
      | JArr xs \<Rightarrow> Inr xs
      | JStr s \<Rightarrow> Inr (map (\<lambda>c. JStr [c]) s)
      | _ \<Rightarrow> Inl (JsErr ''TypeError: value is not iterable'' [v]))"

text \<open>Reading a property of null or undefined throws.\<close>

definition read_prop :: "string \<Rightarrow> jsval \<Rightarrow> exn + jsval" where
  "read_prop k v =
     (if v = JNull \<or> v = JUndef then Inl (JsErr ''TypeError: cannot read properties of '' [v])
      else Inr (js_prop k v))"

text \<open>Runs f over the elements of property k of an object and writes the changed elements back.\<close>

definition patch_elements :: "string \<Rightarrow> (jsval \<Rightarrow> exn + jsval) \<Rightarrow> jsval \<Rightarrow> exn + jsval" where
  "patch_elements k f v =
     bind_res (read_prop k v) (\<lambda>x.
     bind_res (iterate x) (\<lambda>xs.
     bind_res (map_res f xs) (\<lambda>ys.
       Inr (if is_array x then js_set_prop k (JArr ys) v else v))))"

definition drop_dynUpdateTime :: "jsval \<Rightarrow> exn + jsval" where
  "drop_dynUpdateTime period =
     (if is_object period then Inr (js_delete_prop ''dynUpdateTime'' period)
      else Inl (JsErr ''TypeError: cannot use the in operator on '' [period]))"

definition applyRuntimeCompatibilityPatches :: "string \<Rightarrow> jsval \<Rightarrow> ocpp_version \<Rightarrow> exn + jsval" where
  "applyRuntimeCompatibilityPatches action payload protocol =
     (if action = ''ReportChargingProfiles'' \<and> (protocol = OCPP2_0_1 \<or> protocol = OCPP2_1)
      then let payload = (if js_prop ''evseId'' payload = JNum 0
                          then js_set_prop ''evseId'' (JNum 1) payload else payload)
           in patch_elements ''chargingProfile''
                (patch_elements ''chargingSchedule''
                   (patch_elements ''chargingSchedulePeriod'' drop_dynUpdateTime)) payload
      else Inr payload)"

section \<open>Schema validation\<close>

definition data_transfer_id :: "ajv \<Rightarrow> ocpp_version \<Rightarrow> jsval \<Rightarrow> string" where
  "data_transfer_id A protocol payload =
     version_str protocol @ ''-'' @ template A (js_prop ''vendorId'' payload) @
     (if truthy (js_prop ''messageId'' payload) then ''-'' @ template A (js_prop ''messageId'' payload) else [])"

text \<open>The result and the payload as validation leaves it.\<close>

definition validateOCPPRequest :: "ajv \<Rightarrow> string \<Rightarrow> jsval \<Rightarrow> ocpp_version \<Rightarrow> exn + validation \<times> jsval" where
  "validateOCPPRequest A action payload protocol =
     bind_res (applyRuntimeCompatibilityPatches action payload protocol) (\<lambda>payload.
       if action \<in> set (request_schemas protocol)
       then (case ajv_request A protocol action payload of
               (Some errors, payload) \<Rightarrow> Inr (Invalid (Some errors), payload)
             | (None, payload) \<Rightarrow>
                 if action = ''DataTransfer''
                 then (case ajv_data_transfer A (data_transfer_id A protocol payload) of
                         None \<Rightarrow> Inr (Valid, payload)
                       | Some check \<Rightarrow>
                           bind_res (json_parse A (js_prop ''data'' payload)) (\<lambda>d.
                             case check d of
                               Some errors \<Rightarrow> Inr (Invalid (Some errors), payload)
                             | None \<Rightarrow> Inr (Valid, payload)))
                 else Inr (Valid, payload))
       else Inr (Invalid None, payload))"

definition validateOCPPResponse :: "ajv \<Rightarrow> string \<Rightarrow> jsval \<Rightarrow> ocpp_version \<Rightarrow> validation \<times> jsval" where
  "validateOCPPResponse A action payload protocol =
     (if js_prop ''name'' payload = JStr ''OcppError'' then (Valid, payload)
      else if action \<in> set (response_schemas protocol)
      then (case ajv_response A protocol action payload of
              (Some errors, payload) \<Rightarrow> (Invalid (Some errors), payload)
            | (None, payload) \<Rightarrow> (Valid, payload))
      else (Invalid None, payload))"

section \<open>Sanitizing\<close>

fun removeNulls :: "jsval \<Rightarrow> jsval" where
  "removeNulls JNull = JUndef"
| "removeNulls (JArr xs) = JArr (map removeNulls (filter (\<lambda>x. x \<noteq> JNull) xs))"
| "removeNulls (JObj ps) = JObj (map (\<lambda>(k, v). (k, removeNulls v)) ps)"
| "removeNulls v = v"

text \<open>The pattern [a-zA-Z0-9*\-_=:+|@.]*\<close>

definition additional_id_char :: "char \<Rightarrow> bool" where
  "additional_id_char c =
     (let n = (of_char c :: nat) in
      (97 \<le> n \<and> n \<le> 122) \<or> (65 \<le> n \<and> n \<le> 90) \<or> (48 \<le> n \<and> n \<le> 57) \<or> c \<in> set ''*-_=:+|@.'')"

definition valid_additional_info :: "jsval \<Rightarrow> bool" where
  "valid_additional_info info =
     (case js_prop ''additionalIdToken'' info of
        JStr s \<Rightarrow> list_all additional_id_char s
      | _ \<Rightarrow> True)"

definition clean_id_token :: "jsval \<Rightarrow> jsval" where
  "clean_id_token idToken =
     (case js_prop ''additionalInfo'' idToken of
        JArr xs \<Rightarrow>
          (let ys = filter valid_additional_info xs in
           if ys \<noteq> [] then js_set_prop ''additionalInfo'' (JArr ys) idToken
           else js_delete_prop ''additionalInfo'' idToken)
      | _ \<Rightarrow> idToken)"

definition clean_prop :: "string \<times> jsval \<Rightarrow> string \<times> jsval" where
  "clean_prop kv = (if fst kv = ''idToken'' then (fst kv, clean_id_token (snd kv)) else kv)"

lemma size_delete: "size_list f (AList.delete k ps) \<le> size_list f ps"
  by (induction ps) auto

lemma size_filter_list: "size_list f (filter P xs) \<le> size_list f xs"
  by (induction xs) auto

lemma size_update_existing:
  "map_of ps k = Some v \<Longrightarrow> size w \<le> size v \<Longrightarrow>
   size_list (size_prod (\<lambda>_. 0) size) (AList.update k w ps) \<le> size_list (size_prod (\<lambda>_. 0) size) (ps :: (string \<times> jsval) list)"
  by (induction ps) (auto split: if_splits)

lemma size_clean_id_token: "size (clean_id_token v) \<le> size v"
proof (cases v)
  case (JObj ps)
  have "size_list (size_prod (\<lambda>_. 0) size) (AList.update k (JArr (filter P xs)) ps) \<le> size_list (size_prod (\<lambda>_. 0) size) ps"
    if "map_of ps k = Some (JArr xs)" for k P xs
    by (rule size_update_existing [OF that]) (simp add: size_filter_list)
  then show ?thesis
    using JObj size_delete [of "size_prod (\<lambda>_. 0) size" "''additionalInfo''" ps]
    by (auto simp: clean_id_token_def Let_def split: jsval.splits option.splits)
qed (simp_all add: clean_id_token_def)

lemma size_clean_prop: "kv \<in> set ps \<Longrightarrow> size (snd (clean_prop kv)) < size (JObj ps)"
proof (induction ps)
  case (Cons p ps)
  then show ?case
    using size_clean_id_token [of "snd p"] by (cases p) (auto simp: clean_prop_def)
qed simp

text \<open>The in-place clean up of removeInvalidAdditionalIdToken, as the value it leaves: the
  idToken of an object first, then all its properties.\<close>

function removeInvalidAdditionalIdToken :: "jsval \<Rightarrow> jsval" where
  "removeInvalidAdditionalIdToken v =
     (case v of
        JArr xs \<Rightarrow> JArr (map removeInvalidAdditionalIdToken xs)
      | JObj ps \<Rightarrow> JObj (map (\<lambda>kv. (fst kv, removeInvalidAdditionalIdToken (snd (clean_prop kv)))) ps)
      | _ \<Rightarrow> v)"
  by auto
termination
proof (relation "measure size")
  show "wf (measure size)" by simp
  fix v x xs
  show "v = JArr xs \<Longrightarrow> x \<in> set xs \<Longrightarrow> (x, v) \<in> measure size"
    by (auto simp: less_Suc_eq_le intro: size_list_estimation')
next
  fix v :: jsval and ps kv
  assume "v = JObj ps" "kv \<in> set ps"
  then show "(snd (clean_prop kv), v) \<in> measure size" using size_clean_prop by simp
qed

declare removeInvalidAdditionalIdToken.simps [simp del]

definition sanitizeOCPPPayload :: "jsval \<Rightarrow> jsval" where
  "sanitizeOCPPPayload message = removeInvalidAdditionalIdToken (removeNulls message)"

section \<open>What sanitizing guarantees\<close>

text \<open>A value as JSON parsing yields it; a value whose JSON text has no null: undefined may
  remain as the value of a property, which printing omits, but not as an element.\<close>

fun json_value :: "jsval \<Rightarrow> bool" where
  "json_value JUndef = False"
| "json_value (JArr xs) = list_all json_value xs"
| "json_value (JObj ps) = list_all (\<lambda>(k, v). json_value v) ps"
| "json_value _ = True"

fun null_free :: "jsval \<Rightarrow> bool" where
  "null_free JNull = False"
| "null_free (JArr xs) = list_all (\<lambda>x. x \<noteq> JUndef \<and> null_free x) xs"
| "null_free (JObj ps) = list_all (\<lambda>(k, v). null_free v) ps"
| "null_free _ = True"

definition good_id_token :: "jsval \<Rightarrow> bool" where
  "good_id_token v = (case js_prop ''additionalInfo'' v of
     JArr xs \<Rightarrow> xs \<noteq> [] \<and> list_all valid_additional_info xs
   | _ \<Rightarrow> True)"

fun tokens_valid :: "jsval \<Rightarrow> bool" where
  "tokens_valid (JArr xs) = list_all tokens_valid xs"
| "tokens_valid (JObj ps) = list_all (\<lambda>(k, v). (k = ''idToken'' \<longrightarrow> good_id_token v) \<and> tokens_valid v) ps"
| "tokens_valid _ = True"

abbreviation (input) rm :: "jsval \<Rightarrow> jsval" where "rm \<equiv> removeInvalidAdditionalIdToken"

lemma rm_simps [simp]:
  "rm (JArr xs) = JArr (map rm xs)"
  "rm (JObj ps) = JObj (map (\<lambda>kv. (fst kv, rm (snd (clean_prop kv)))) ps)"
  "rm JUndef = JUndef" "rm JNull = JNull" "rm (JBool b) = JBool b" "rm (JNum q) = JNum q"
  "rm (JStr s) = JStr s"
  by (simp_all add: removeInvalidAdditionalIdToken.simps [of "JArr xs"] removeInvalidAdditionalIdToken.simps [of "JObj ps"]
      removeInvalidAdditionalIdToken.simps [of JUndef] removeInvalidAdditionalIdToken.simps [of JNull]
      removeInvalidAdditionalIdToken.simps [of "JBool b"] removeInvalidAdditionalIdToken.simps [of "JNum q"]
      removeInvalidAdditionalIdToken.simps [of "JStr s"])

lemma rm_eq_simps [simp]:
  "rm v = JUndef \<longleftrightarrow> v = JUndef" "rm v = JStr s \<longleftrightarrow> v = JStr s" "rm v = JNull \<longleftrightarrow> v = JNull"
  by (cases v; simp)+

lemma set_update_cases: "kv \<in> set (AList.update k w ps) \<Longrightarrow> kv = (k, w) \<or> kv \<in> set ps"
  by (induction ps) (auto split: if_splits)

lemma set_delete_subset: "kv \<in> set (AList.delete k ps) \<Longrightarrow> kv \<in> set ps"
  by (induction ps) (auto split: if_splits)

lemma removeNulls_null_free: "json_value v \<Longrightarrow> null_free (removeNulls v) \<and> (v \<noteq> JNull \<longrightarrow> removeNulls v \<noteq> JUndef)"
  by (induction v rule: removeNulls.induct) (fastforce simp: list_all_iff)+

lemma clean_id_token_null_free: "null_free v \<Longrightarrow> null_free (clean_id_token v)"
  by (cases v) (auto simp: clean_id_token_def Let_def list_all_iff
      split: option.splits jsval.splits dest!: set_update_cases set_delete_subset map_of_SomeD)

lemma clean_prop_null_free: "null_free (snd kv) \<Longrightarrow> null_free (snd (clean_prop kv))"
  by (simp add: clean_prop_def clean_id_token_null_free)

lemma rm_null_free: "null_free v \<Longrightarrow> null_free (rm v)"
proof (induction v rule: removeInvalidAdditionalIdToken.induct)
  case (1 v)
  show ?case
  proof (cases v)
    case (JArr xs)
    then show ?thesis using 1 by (auto simp: list_all_iff)
  next
    case (JObj ps)
    have "null_free (rm (snd (clean_prop kv)))" if "kv \<in> set ps" for kv
    proof -
      have "null_free (snd kv)" using 1(3) JObj that by (auto simp: list_all_iff)
      then show ?thesis using 1(2) [OF JObj that] by (simp add: clean_prop_null_free)
    qed
    then show ?thesis using JObj by (auto simp: list_all_iff)
  qed (use 1(3) in simp_all)
qed

lemma js_prop_rm: "k \<noteq> ''idToken'' \<Longrightarrow> js_prop k (rm v) = rm (js_prop k v)"
proof (cases v)
  case (JObj ps)
  assume k: "k \<noteq> ''idToken''"
  have "map_of (map (\<lambda>kv. (fst kv, rm (snd (clean_prop kv)))) ps) k = map_option rm (map_of ps k)"
    using k by (induction ps) (auto simp: clean_prop_def)
  then show ?thesis using JObj by (simp split: option.splits)
qed simp_all

lemma valid_info_rm [simp]: "valid_additional_info (rm x) = valid_additional_info x"
proof -
  have "(case rm y of JStr s \<Rightarrow> P s | _ \<Rightarrow> True) = (case y of JStr s \<Rightarrow> P s | _ \<Rightarrow> True)" for y P
    by (cases y) simp_all
  then show ?thesis by (simp add: valid_additional_info_def js_prop_rm)
qed

lemma good_id_token_clean: "good_id_token (clean_id_token v)"
proof (cases v)
  case (JObj ps)
  show ?thesis
  proof (cases "js_prop ''additionalInfo'' v")
    case (JArr xs)
    then show ?thesis
      using JObj by (simp add: good_id_token_def clean_id_token_def Let_def update_conv' delete_conv' list_all_iff)
  qed (simp_all add: good_id_token_def clean_id_token_def)
qed (simp_all add: good_id_token_def clean_id_token_def)

lemma good_id_token_rm: "good_id_token v \<Longrightarrow> good_id_token (rm v)"
  by (cases "js_prop ''additionalInfo'' v") (simp_all add: good_id_token_def js_prop_rm list_all_iff)

lemma rm_tokens_valid: "tokens_valid (rm v)"
proof (induction v rule: removeInvalidAdditionalIdToken.induct)
  case (1 v)
  show ?case
  proof (cases v)
    case (JArr xs)
    then show ?thesis using 1 by (auto simp: list_all_iff)
  next
    case (JObj ps)
    have "tokens_valid (rm (snd (clean_prop kv)))" if "kv \<in> set ps" for kv
      using 1(2) [OF JObj that] .
    moreover have "fst kv = ''idToken'' \<Longrightarrow> good_id_token (rm (snd (clean_prop kv)))" for kv
      by (simp add: clean_prop_def good_id_token_rm good_id_token_clean)
    ultimately show ?thesis using JObj by (auto simp: list_all_iff)
  qed simp_all
qed

lemma update_same: "map_of ps k = Some v \<Longrightarrow> AList.update k v ps = ps"
  by (induction ps) auto

lemma clean_good_id_token: "good_id_token v \<Longrightarrow> clean_id_token v = v"
proof (cases v)
  case (JObj ps)
  assume g: "good_id_token v"
  show ?thesis
  proof (cases "js_prop ''additionalInfo'' v")
    case (JArr xs)
    then have "map_of ps ''additionalInfo'' = Some (JArr xs)" using JObj by (auto split: option.splits)
    moreover have "filter valid_additional_info xs = xs" "xs \<noteq> []"
      using g JArr by (auto simp: good_id_token_def list_all_iff)
    ultimately show ?thesis using JObj JArr by (simp add: clean_id_token_def Let_def update_same)
  qed (simp_all add: clean_id_token_def)
qed (simp_all add: clean_id_token_def)

lemma rm_id: "tokens_valid v \<Longrightarrow> rm v = v"
proof (induction v rule: tokens_valid.induct)
  case (2 ps)
  have "(fst kv, rm (snd (clean_prop kv))) = kv" if "kv \<in> set ps" for kv
  proof -
    have "fst kv = ''idToken'' \<longrightarrow> good_id_token (snd kv)" and t: "tokens_valid (snd kv)"
      using 2(2) that by (auto simp: list_all_iff)
    then have "clean_prop kv = kv" by (cases kv) (auto simp: clean_prop_def clean_good_id_token)
    then show ?thesis using 2(1) [OF that] t by (cases kv) auto
  qed
  then show ?case by (simp add: map_idI)
qed (auto simp: list_all_iff intro: map_idI)

lemma null_free_removeNulls: "null_free v \<Longrightarrow> removeNulls v = v"
proof (induction v rule: removeNulls.induct)
  case (2 xs)
  then have "filter (\<lambda>x. x \<noteq> JNull) xs = xs" by (auto simp: list_all_iff filter_id_conv)
  then show ?case using 2 by (auto simp: list_all_iff intro!: map_idI)
next
  case (3 ps)
  then show ?case by (auto simp: list_all_iff intro!: map_idI)
qed simp_all

text \<open>C25. A payload read from JSON has, once sanitized, no null in its JSON text and no additional
  id token that violates the pattern of the specification (an additionalInfo left empty is
  dropped), and sanitizing it again changes nothing.\<close>
theorem sanitize_guarantees:
  assumes "json_value message"
  shows "null_free (sanitizeOCPPPayload message) \<and> tokens_valid (sanitizeOCPPPayload message) \<and>
    sanitizeOCPPPayload (sanitizeOCPPPayload message) = sanitizeOCPPPayload message"
proof -
  have n: "null_free (sanitizeOCPPPayload message)"
    unfolding sanitizeOCPPPayload_def using removeNulls_null_free [OF assms] by (simp add: rm_null_free)
  have t: "tokens_valid (sanitizeOCPPPayload message)"
    unfolding sanitizeOCPPPayload_def by (rule rm_tokens_valid)
  have "sanitizeOCPPPayload (sanitizeOCPPPayload message) = rm (sanitizeOCPPPayload message)"
    unfolding sanitizeOCPPPayload_def [of "sanitizeOCPPPayload message"] null_free_removeNulls [OF n] ..
  then show ?thesis using n t rm_id [OF t] by simp
qed

theorem sanitize_guarantees_witness:
  "null_free (sanitizeOCPPPayload (JObj [(''idToken'', JObj [(''additionalInfo'',
     JArr [JNull, JObj [(''additionalIdToken'', JStr ''a b''), (''type'', JNull)]])])]))"
  using sanitize_guarantees [of "JObj [(''idToken'', JObj [(''additionalInfo'',
     JArr [JNull, JObj [(''additionalIdToken'', JStr ''a b''), (''type'', JNull)]])])]"]
  by simp

section \<open>What validation guarantees\<close>

lemma validateOCPPRequest_valid:
  "validateOCPPRequest A a p v = Inr (Valid, p') \<Longrightarrow>
   a \<in> set (request_schemas v) \<and>
   (\<exists>q. applyRuntimeCompatibilityPatches a p v = Inr q \<and> ajv_request A v a q = (None, p'))"
  by (auto simp: validateOCPPRequest_def bind_res_eq_Inr split: if_splits prod.splits option.splits)

lemma validateOCPPRequest_no_schema:
  "a \<notin> set (request_schemas v) \<Longrightarrow> validateOCPPRequest A a p v \<noteq> Inr (Valid, p')"
  using validateOCPPRequest_valid by fastforce

end
