(* ===== verification/Messages.thy ===== *)
theory Messages
  imports RpcMessage CallActions Identifiers
begin

text \<open>
  The messages that travel through the broker between the router and the modules
  (packages/base/src/interfaces/messages/Message.ts and
  packages/types/src/interfaces/messages/internal-types.ts) and the functions that build them
  (packages/base/src/util/request.ts).
\<close>

datatype message_state = Request | Response | Unknown

datatype message_origin = ChargingStationManagementSystem | ChargingStation

datatype event_group =
    All | Router | Modules | Certificates | Configuration | DerControl | EVDriver | Ems | Monitoring
  | Reporting | SmartCharging | Tenant | Transactions | V2x | Cdrs | ChargingProfiles | Commands
  | Locations | Sessions | Tariffs | Tokens | Versions | Credentials

text \<open>A payload is a plain object or an instance of OcppError.\<close>

datatype message_payload = Plain jsval | ErrorPayload ocpp_error

record message_context =
  ctx_ocppConnectionName :: string
  ctx_correlationId :: string
  ctx_tenantId :: js_num
  ctx_timestamp :: string

record message =
  m_origin :: message_origin
  m_eventGroup :: event_group
  m_action :: string
  m_state :: message_state
  m_context :: message_context
  m_payload :: message_payload
  m_protocol :: ocpp_version

record confirmation =
  conf_success :: bool
  conf_payload :: jsval

definition build_message ::
  "message_state \<Rightarrow> string \<Rightarrow> string \<Rightarrow> js_num \<Rightarrow> string \<Rightarrow> message_payload \<Rightarrow> event_group \<Rightarrow>
   message_origin \<Rightarrow> ocpp_version \<Rightarrow> string \<Rightarrow> message" where
  "build_message stt name correlationId tenantId act pl grp orig prot timestamp =
     \<lparr> m_origin = orig, m_eventGroup = grp, m_action = act, m_state = stt,
       m_context = \<lparr> ctx_ocppConnectionName = name, ctx_correlationId = correlationId,
                ctx_tenantId = tenantId, ctx_timestamp = timestamp \<rparr>,
       m_payload = pl, m_protocol = prot \<rparr>"

definition buildCall ::
  "string \<Rightarrow> string \<Rightarrow> js_num \<Rightarrow> string \<Rightarrow> jsval \<Rightarrow> event_group \<Rightarrow> message_origin \<Rightarrow> ocpp_version \<Rightarrow> string \<Rightarrow> message" where
  "buildCall name correlationId tenantId act pl grp orig prot timestamp =
     build_message Request name correlationId tenantId act (Plain pl) grp orig prot timestamp"

definition buildCallResult ::
  "string \<Rightarrow> string \<Rightarrow> js_num \<Rightarrow> string \<Rightarrow> jsval \<Rightarrow> event_group \<Rightarrow> message_origin \<Rightarrow> ocpp_version \<Rightarrow> string \<Rightarrow> message" where
  "buildCallResult name correlationId tenantId act pl grp orig prot timestamp =
     build_message Response name correlationId tenantId act (Plain pl) grp orig prot timestamp"

definition buildCallError ::
  "string \<Rightarrow> string \<Rightarrow> js_num \<Rightarrow> string \<Rightarrow> ocpp_error \<Rightarrow> event_group \<Rightarrow> message_origin \<Rightarrow> ocpp_version \<Rightarrow> string \<Rightarrow> message" where
  "buildCallError name correlationId tenantId act e grp orig prot timestamp =
     build_message Response name correlationId tenantId act (ErrorPayload e) grp orig prot timestamp"

lemmas build_defs = buildCall_def buildCallResult_def buildCallError_def build_message_def

end
