(* ===== verification/Router.thy ===== *)
theory Router
  imports Messages OcppValidator MemoryCache
begin

text \<open>
  The OCPP router: packages/core/src/modules/OcppRouter/src/module/router.ts and the class it
  extends, packages/base/src/interfaces/router/AbstractRouter.ts. Its state is the cache and
  the log of what it did to the outside (frames written to a socket, messages published to
  the broker, webhook notifications, updates of the station row). Each handler is one atomic
  function: work the code leaves running in the background (the reply to a failed Call) is
  done before the handler returns. What is not in this repository is a function of the record
  router_env: JSON, ISO dates, the validator, the network hook and the broker, the last two
  depending on everything done so far. Metrics and logging are not modelled.
\<close>

section \<open>State and environment\<close>

datatype rpc_message = RpcCall call | RpcCallResult call_result | RpcCallError call_error

fun rpc_type_id :: "rpc_message \<Rightarrow> rat" where
  "rpc_type_id (RpcCall _) = MessageTypeId_Call"
| "rpc_type_id (RpcCallResult _) = MessageTypeId_CallResult"
| "rpc_type_id (RpcCallError _) = MessageTypeId_CallError"

fun rpc_toJSON :: "rpc_message \<Rightarrow> jsval" where
  "rpc_toJSON (RpcCall c) = call_toJSON c"
| "rpc_toJSON (RpcCallResult r) = call_result_toJSON r"
| "rpc_toJSON (RpcCallError e) = call_error_toJSON e"

datatype effect =
    Frame string string                  \<comment> \<open>identifier and text written to its socket\<close>
  | FrameLost string string              \<comment> \<open>the network hook threw\<close>
  | SentWebhook string string ocpp_version string rat jsval jsval
  | ReceivedWebhook js_num string string ocpp_version string rat jsval jsval
  | UnparsedWebhook js_num string string string ocpp_version jsval jsval
  | CallbackUrl string string message_payload
  | Published message                    \<comment> \<open>handed to the message sender\<close>
  | StationSeen js_num string string
  | WebhookRegister js_num string
  | WebhookDeregister js_num string
  | Subscribe string string string message_state message_origin
  | Unsubscribe string
  | StationOnline js_num string bool "ocpp_version option" "string option"

record router_env =
  validator :: ajv
  json_of_text :: "string \<Rightarrow> jsval option"   \<comment> \<open>JSON.parse, None for a SyntaxError\<close>
  text_of_json :: "jsval \<Rightarrow> string"          \<comment> \<open>JSON.stringify\<close>
  iso_of_ms :: "nat \<Rightarrow> string"
  ms_of_iso :: "string \<Rightarrow> js_num"
  networkHook :: "effect list \<Rightarrow> string \<Rightarrow> string \<Rightarrow> bool"  \<comment> \<open>False when it throws\<close>
  broker :: "effect list \<Rightarrow> message \<Rightarrow> exn + confirmation"
  subscribe_result :: "effect list \<Rightarrow> string \<Rightarrow> message_state \<Rightarrow> exn + bool"
  unsubscribe_result :: "effect list \<Rightarrow> string \<Rightarrow> exn + bool"
  register_webhooks :: "effect list \<Rightarrow> js_num \<Rightarrow> string \<Rightarrow> exn + unit"
  set_online :: "effect list \<Rightarrow> js_num \<Rightarrow> string \<Rightarrow> exn + unit"
  station_protocol :: "effect list \<Rightarrow> js_num \<Rightarrow> string \<Rightarrow> exn + ocpp_version option"
  maxCallLengthSeconds :: int
  staleCallMaxAgeSeconds :: "int option"

record router =
  rcache :: mem_cache
  log :: "effect list"

definition emit :: "effect \<Rightarrow> router \<Rightarrow> router" where
  "emit e st = st\<lparr> log := log st @ [e] \<rparr>"

definition on_cache :: "(mem_cache \<Rightarrow> 'a \<times> mem_cache) \<Rightarrow> router \<Rightarrow> 'a \<times> router" where
  "on_cache f st = (let (x, c) = f (rcache st) in (x, st\<lparr> rcache := c \<rparr>))"

definition tx_namespace :: "string \<Rightarrow> string" where
  "tx_namespace identifier = ''tx'' @ identifier"

definition BOOT_STATUS :: string where
  "BOOT_STATUS = ''boot_status''"

text \<open>The cached value of a pending Call: its action and when it was received or sent.\<close>

definition pending_value :: "string \<Rightarrow> string \<Rightarrow> string" where
  "pending_value act ts = act @ ''@'' @ ts"

definition split_at_first :: "string \<Rightarrow> string \<times> string" where
  "split_at_first s = (takeWhile (\<lambda>c. c \<noteq> CHR ''@'') s, drop 1 (dropWhile (\<lambda>c. c \<noteq> CHR ''@'') s))"

text \<open>The JSON of an Error object has no properties.\<close>

definition error_json :: "exn \<Rightarrow> jsval" where
  "error_json e = JObj []"

definition as_ocpp_error :: "string \<Rightarrow> exn \<Rightarrow> ocpp_error" where
  "as_ocpp_error messageId e =
     (case e of
        OcppErr oe \<Rightarrow> oe
      | _ \<Rightarrow> new_ocpp_error messageId InternalError ''Call failed'' (JObj [(''details'', error_json e)]))"

section \<open>Sending\<close>

text \<open>The answer is the time of sending, or None when the network hook threw.\<close>

definition sendMessage ::
  "router_env \<Rightarrow> string \<Rightarrow> ocpp_version \<Rightarrow> jsval \<Rightarrow> rpc_message \<Rightarrow> router \<Rightarrow> nat option \<times> router" where
  "sendMessage env identifier protocol action rpc st =
     (let raw = text_of_json env (rpc_toJSON rpc) in
      if networkHook env (log st) identifier raw
      then let t = now (rcache st) in
           (Some t,
            emit (SentWebhook identifier (iso_of_ms env t) protocol raw (rpc_type_id rpc) (rpc_toJSON rpc) action)
              (emit (Frame identifier raw) st))
      else (None, emit (FrameLost identifier raw) st))"

fun loose_text :: "jsval \<Rightarrow> string option" where
  "loose_text (JStr s) = Some s"
| "loose_text (JArr [v]) = loose_text v"
| "loose_text _ = None"

definition sendCallIsAllowed ::
  "router_env \<Rightarrow> string \<Rightarrow> ocpp_version \<Rightarrow> call \<Rightarrow> router \<Rightarrow> exn + bool" where
  "sendCallIsAllowed env identifier protocol message st =
     (if get_key BOOT_STATUS (Some identifier) (rcache st) = Some ''Rejected''
      then bind_res (mapToCallAction protocol (c_action message)) (\<lambda>action.
             Inr (action = ''TriggerMessage'' \<and>
                  loose_text (js_prop ''requestedMessage'' (c_payload message)) = Some ''BootNotification''))
      else Inr True)"

definition sendCall ::
  "router_env \<Rightarrow> string \<Rightarrow> js_num \<Rightarrow> ocpp_version \<Rightarrow> string \<Rightarrow> jsval \<Rightarrow> string \<Rightarrow> router \<Rightarrow>
   (exn + bool) \<times> router" where
  "sendCall env ocppConnectionName tenantId protocol action payload correlationId st =
     (let identifier = createIdentifier tenantId [ocppConnectionName];
          ns = tx_namespace identifier;
          message = new_call correlationId action payload
      in case sendCallIsAllowed env identifier protocol message st of
           Inl e \<Rightarrow> (Inl e, st)
         | Inr False \<Rightarrow> (Inr False, st)
         | Inr True \<Rightarrow>
             if existsAnyInNamespace ns (rcache st)
             then (Inl (RetryErr ''Call already in progress''), st)
             else let v = pending_value action (iso_of_ms env (now (rcache st)));
                      (_, st) = on_cache (set_key correlationId v (Some ns) (Some (maxCallLengthSeconds env))) st;
                      (sent, st) = sendMessage env identifier protocol (JStr action) (RpcCall message) st
                  in if sent \<noteq> None then (Inr True, st)
                     else let (_, st) = on_cache (remove_key correlationId (Some ns)) st in (Inr False, st))"

text \<open>The answer to a station's Call, when its pending entry has the same action: the frame is
  sent and the entry removed.\<close>

definition send_reply ::
  "router_env \<Rightarrow> string \<Rightarrow> string \<Rightarrow> js_num \<Rightarrow> ocpp_version \<Rightarrow> string \<Rightarrow> rpc_message \<Rightarrow> router \<Rightarrow>
   bool \<times> router" where
  "send_reply env correlationId ocppConnectionName tenantId protocol action rpc st =
     (let identifier = createIdentifier tenantId [ocppConnectionName];
          ns = tx_namespace identifier
      in case get_key correlationId (Some ns) (rcache st) of
           None \<Rightarrow> (False, st)
         | Some v \<Rightarrow>
             let (cachedAction, cachedTimestamp) = split_at_first v in
             if cachedAction = action
             then let (sent, st) = sendMessage env identifier protocol (JStr cachedAction) rpc st;
                      (removed, st) = on_cache (remove_key correlationId (Some ns)) st
                  in (sent \<noteq> None \<and> removed \<noteq> None \<and> removed \<noteq> Some [], st)
             else (False, st))"

definition sendCallResult ::
  "router_env \<Rightarrow> string \<Rightarrow> string \<Rightarrow> js_num \<Rightarrow> ocpp_version \<Rightarrow> string \<Rightarrow> jsval \<Rightarrow> router \<Rightarrow>
   (exn + bool) \<times> router" where
  "sendCallResult env correlationId ocppConnectionName tenantId protocol action payload st =
     (case new_call_result correlationId payload of
        Inl e \<Rightarrow> (Inl e, st)
      | Inr message \<Rightarrow>
          let (ok, st) = send_reply env correlationId ocppConnectionName tenantId protocol action
                           (RpcCallResult message) st
          in (Inr ok, st))"

definition sendCallError ::
  "router_env \<Rightarrow> string \<Rightarrow> string \<Rightarrow> js_num \<Rightarrow> ocpp_version \<Rightarrow> string \<Rightarrow> ocpp_error \<Rightarrow> router \<Rightarrow>
   bool \<times> router" where
  "sendCallError env correlationId ocppConnectionName tenantId protocol action error st =
     send_reply env correlationId ocppConnectionName tenantId protocol action
       (RpcCallError (asCallError error)) st"

section \<open>Routing to the modules\<close>

definition emitMessage :: "router_env \<Rightarrow> message \<Rightarrow> router \<Rightarrow> (exn + confirmation) \<times> router" where
  "emitMessage env m st =
     (case m_payload m of
        ErrorPayload e \<Rightarrow>
          if m_action m = ''GetDERControl'' \<or> m_action m = ''AFRRSignal''
          then (broker env (log st) m, emit (Published m) st)
          else (Inr \<lparr> conf_success = False, conf_payload = JUndef \<rparr>, st)
      | Plain p \<Rightarrow> (broker env (log st) m, emit (Published m) st))"

definition routeCall ::
  "router_env \<Rightarrow> string \<Rightarrow> call \<Rightarrow> nat \<Rightarrow> ocpp_version \<Rightarrow> router \<Rightarrow> (exn + confirmation) \<times> router" where
  "routeCall env identifier message ts protocol st =
     (case mapToCallAction protocol (c_action message) of
        Inl e \<Rightarrow> (Inl e, st)
      | Inr action \<Rightarrow>
          emitMessage env
            (buildCall (getStationIdFromIdentifier identifier) (c_messageId message)
               (getTenantIdFromIdentifier identifier) action (c_payload message)
               event_group.Router ChargingStation protocol (iso_of_ms env ts)) st)"

definition routeCallResult ::
  "router_env \<Rightarrow> string \<Rightarrow> call_result \<Rightarrow> string \<Rightarrow> nat \<Rightarrow> ocpp_version \<Rightarrow> router \<Rightarrow>
   (exn + confirmation) \<times> router" where
  "routeCallResult env identifier message action ts protocol st =
     (let name = getStationIdFromIdentifier identifier;
          st = emit (CallbackUrl (cr_messageId message) name (Plain (cr_payload message))) st
      in emitMessage env
           (buildCallResult name (cr_messageId message) (getTenantIdFromIdentifier identifier) action
              (cr_payload message) event_group.Router ChargingStation protocol (iso_of_ms env ts)) st)"

definition routeCallError ::
  "router_env \<Rightarrow> string \<Rightarrow> call_error \<Rightarrow> string \<Rightarrow> nat \<Rightarrow> ocpp_version \<Rightarrow> router \<Rightarrow>
   (exn + confirmation) \<times> router" where
  "routeCallError env identifier message action ts protocol st =
     (let name = getStationIdFromIdentifier identifier;
          e = asOcppError message;
          st = emit (CallbackUrl (oe_messageId message) name (ErrorPayload e)) st
      in emitMessage env
           (buildCallError name (oe_messageId message) (getTenantIdFromIdentifier identifier) action e
              event_group.Router ChargingStation protocol (iso_of_ms env ts)) st)"

section \<open>Receiving\<close>

definition onCallIsAllowed :: "string \<Rightarrow> string \<Rightarrow> router \<Rightarrow> bool" where
  "onCallIsAllowed action identifier st = (\<not> exists_key action (Some identifier) (rcache st))"

text \<open>The message object is updated in place: the new one is returned beside the result.\<close>

definition validateCall :: "router_env \<Rightarrow> call \<Rightarrow> ocpp_version \<Rightarrow> (exn + validation) \<times> call" where
  "validateCall env message protocol =
     (let payload = sanitizeOCPPPayload (c_payload message);
          message = message\<lparr> c_payload := payload \<rparr>
      in case validateOCPPRequest (validator env) (c_action message) payload protocol of
           Inl e \<Rightarrow> (Inl e, message)
         | Inr (v, payload) \<Rightarrow> (Inr v, message\<lparr> c_payload := payload \<rparr>))"

definition validateCallResult ::
  "router_env \<Rightarrow> string \<Rightarrow> call_result \<Rightarrow> ocpp_version \<Rightarrow> validation \<times> call_result" where
  "validateCallResult env action message protocol =
     (let (v, payload) = validateOCPPResponse (validator env) action (cr_payload message) protocol
      in (v, message\<lparr> cr_payload := payload \<rparr>))"

definition invalid_format :: "string \<Rightarrow> jsval option \<Rightarrow> exn" where
  "invalid_format messageId errors =
     OcppErr (new_ocpp_error messageId FormatViolation ''Invalid message format''
       (JObj [(''errors'', case errors of Some e \<Rightarrow> e | None \<Rightarrow> JUndef)]))"

definition onCall ::
  "router_env \<Rightarrow> string \<Rightarrow> call \<Rightarrow> nat \<Rightarrow> ocpp_version \<Rightarrow> router \<Rightarrow> (exn + unit) \<times> call \<times> router" where
  "onCall env identifier message ts protocol st =
     (let messageId = c_messageId message;
          ns = tx_namespace identifier
      in case mapToCallAction protocol (c_action message) of
           Inl e \<Rightarrow> (Inl e, message, st)
         | Inr action \<Rightarrow>
             if \<not> onCallIsAllowed action identifier st
             then (throw_ocpp messageId SecurityError (''Action '' @ action @ '' not allowed''), message, st)
             else case validateCall env message protocol of
               (Inl e, message) \<Rightarrow> (Inl e, message, st)
             | (Inr (Invalid errors), message) \<Rightarrow> (Inl (invalid_format messageId errors), message, st)
             | (Inr Valid, message) \<Rightarrow>
                 let (_, st) = on_cache (setIfNotExist messageId (pending_value action (iso_of_ms env ts))
                                 (Some ns) (Some (maxCallLengthSeconds env))) st;
                     (routed, st) = routeCall env identifier message ts protocol st;
                     outcome = bind_res routed (\<lambda>confirmation.
                       if conf_success confirmation then Inr ()
                       else Inl (OcppErr (new_ocpp_error messageId InternalError ''Call failed''
                                   (JObj [(''details'', conf_payload confirmation)]))))
                 in case outcome of
                      Inr u \<Rightarrow> (Inr (), message, st)
                    | Inl e \<Rightarrow>
                        let (_, st) = sendCallError env messageId (getStationIdFromIdentifier identifier)
                                        (getTenantIdFromIdentifier identifier) protocol action
                                        (as_ocpp_error messageId e) st;
                            (_, st) = on_cache (remove_key messageId (Some ns)) st
                        in (Inr (), message, st))"

definition not_pending :: "router_env \<Rightarrow> string \<Rightarrow> exn" where
  "not_pending env messageId =
     OcppErr (new_ocpp_error messageId InternalError ''MessageId not found, call may have timed out''
       (JObj [(''maxCallLengthSeconds'', JNum (of_int (maxCallLengthSeconds env)))]))"

text \<open>Takes the pending entry of a message id out of the cache.\<close>

definition take_pending :: "string \<Rightarrow> string \<Rightarrow> router \<Rightarrow> string option \<times> router" where
  "take_pending identifier messageId st =
     (let ns = tx_namespace identifier;
          v = get_key messageId (Some ns) (rcache st);
          (_, st) = on_cache (remove_key messageId (Some ns)) st
      in (v, st))"

definition onCallResult ::
  "router_env \<Rightarrow> string \<Rightarrow> call_result \<Rightarrow> nat \<Rightarrow> ocpp_version \<Rightarrow> router \<Rightarrow>
   (exn + unit) \<times> call_result \<times> router" where
  "onCallResult env identifier message ts protocol st =
     (let messageId = cr_messageId message;
          (pending, st) = take_pending identifier messageId st
      in case pending of
           None \<Rightarrow> (Inl (not_pending env messageId), message, st)
         | Some v \<Rightarrow>
             (case mapToCallAction protocol (fst (split_at_first v)) of
                Inl e \<Rightarrow> (Inl e, message, st)
              | Inr action \<Rightarrow>
                  (case validateCallResult env action message protocol of
                     (Invalid errors, message) \<Rightarrow> (Inl (invalid_format messageId errors), message, st)
                   | (Valid, message) \<Rightarrow>
                       let (routed, st) = routeCallResult env identifier message action ts protocol st
                       in (bind_res routed (\<lambda>confirmation.
                             if conf_success confirmation then Inr ()
                             else Inl (OcppErr (new_ocpp_error messageId InternalError ''CallResult failed''
                                         (JObj [(''details'', conf_payload confirmation)])))),
                           message, st))))"

definition onCallError ::
  "router_env \<Rightarrow> string \<Rightarrow> call_error \<Rightarrow> nat \<Rightarrow> ocpp_version \<Rightarrow> router \<Rightarrow> (exn + unit) \<times> router" where
  "onCallError env identifier message ts protocol st =
     (let messageId = oe_messageId message;
          (pending, st) = take_pending identifier messageId st
      in case pending of
           None \<Rightarrow> (Inl (not_pending env messageId), st)
         | Some v \<Rightarrow>
             (case mapToCallAction protocol (fst (split_at_first v)) of
                Inl e \<Rightarrow> (Inl e, st)
              | Inr action \<Rightarrow>
                  let (routed, st) = routeCallError env identifier message action ts protocol st
                  in (bind_res routed (\<lambda>_. Inr ()), st)))"

definition more_than_two :: "jsval \<Rightarrow> bool" where
  "more_than_two v =
     (case v of
        JArr xs \<Rightarrow> 2 < length xs
      | JStr s \<Rightarrow> 2 < length s
      | JObj ps \<Rightarrow> (case loose_num (js_prop ''length'' v) of Fin q \<Rightarrow> 2 < q | Inf b \<Rightarrow> b | NaN \<Rightarrow> False)
      | _ \<Rightarrow> False)"

definition getActionFromIncompletelyParsedRpcMessage :: "jsval \<Rightarrow> jsval \<Rightarrow> jsval" where
  "getActionFromIncompletelyParsedRpcMessage rpcMessage messageTypeId =
     (if messageTypeId = JNum MessageTypeId_Call
      then (if truthy rpcMessage \<and> more_than_two rpcMessage then js_idx rpcMessage 2 else JStr NO_ACTION)
      else JStr NO_ACTION)"

text \<open>The answer to a frame that could not be processed, except to a CALLRESULT or CALLERROR.\<close>

definition error_reply :: "string \<Rightarrow> exn \<Rightarrow> call_error" where
  "error_reply messageId e =
     (case e of
        OcppErr oe \<Rightarrow> asCallError oe
      | _ \<Rightarrow> new_call_error messageId (JStr (error_code_str InternalError))
              ''Unable to process message'' (JObj [(''error'', error_json e)]))"

definition reply_with_error ::
  "router_env \<Rightarrow> string \<Rightarrow> ocpp_version \<Rightarrow> jsval \<Rightarrow> jsval \<Rightarrow> string \<Rightarrow> exn \<Rightarrow> router \<Rightarrow> router" where
  "reply_with_error env identifier protocol action messageTypeId messageId e st =
     (if \<not> loosely_equals messageTypeId MessageTypeId_CallResult \<and>
         \<not> loosely_equals messageTypeId MessageTypeId_CallError
      then snd (sendMessage env identifier protocol action (RpcCallError (error_reply messageId e)) st)
      else st)"

text \<open>Parsing the text of a frame: the parsed value, its message type and id as far as they
  could be read, and the model object or the error.\<close>

definition parse_frame ::
  "router_env \<Rightarrow> string \<Rightarrow> jsval \<times> jsval \<times> string \<times> (exn + rpc_message)" where
  "parse_frame env text =
     (case json_of_text env text of
        None \<Rightarrow> (JUndef, JUndef, UNREADABLE_MESSAGE_ID, Inl (JsErr ''SyntaxError'' [JStr text]))
      | Some raw \<Rightarrow>
          if raw = JNull \<or> raw = JUndef
          then (raw, JUndef, UNREADABLE_MESSAGE_ID, Inl (JsErr ''TypeError: cannot read properties of '' [raw]))
          else let t = js_idx raw 0; messageId = readMessageId raw in
            (raw, t, messageId,
             if t = JNum MessageTypeId_Call then bind_res (call_of_raw raw) (\<lambda>c. Inr (RpcCall c))
             else if t = JNum MessageTypeId_CallResult
               then bind_res (call_result_of_raw raw) (\<lambda>r. Inr (RpcCallResult r))
             else if t = JNum MessageTypeId_CallError
               then bind_res (call_error_of_raw raw) (\<lambda>e. Inr (RpcCallError e))
             else throw_ocpp messageId FormatViolation (''Unknown message type id: '' @ template (validator env) t)))"

definition process_frame ::
  "router_env \<Rightarrow> string \<Rightarrow> rpc_message \<Rightarrow> nat \<Rightarrow> ocpp_version \<Rightarrow> router \<Rightarrow>
   (exn + unit) \<times> rpc_message \<times> router" where
  "process_frame env identifier m ts protocol st =
     (case m of
        RpcCall c \<Rightarrow> (let (r, c, st) = onCall env identifier c ts protocol st in (r, RpcCall c, st))
      | RpcCallResult c \<Rightarrow>
          (let (r, c, st) = onCallResult env identifier c ts protocol st in (r, RpcCallResult c, st))
      | RpcCallError e \<Rightarrow>
          (let (r, st) = onCallError env identifier e ts protocol st in (r, RpcCallError e, st)))"

fun rpc_action :: "rpc_message \<Rightarrow> string" where
  "rpc_action (RpcCall c) = c_action c"
| "rpc_action _ = NO_ACTION"

definition onMessage ::
  "router_env \<Rightarrow> string \<Rightarrow> string \<Rightarrow> nat \<Rightarrow> ocpp_version \<Rightarrow> router \<Rightarrow> bool \<times> router" where
  "onMessage env identifier text ts protocol st =
     (let tenantId = getTenantIdFromIdentifier identifier;
          name = getStationIdFromIdentifier identifier;
          iso_ts = iso_of_ms env ts;
          (raw, messageTypeId, messageId, parsed) = parse_frame env text;
          (ok, st) =
            (case parsed of
               Inl e \<Rightarrow>
                 let act = getActionFromIncompletelyParsedRpcMessage raw messageTypeId;
                     st = reply_with_error env identifier protocol act messageTypeId messageId e st
                 in (False, emit (UnparsedWebhook tenantId name text iso_ts protocol act messageTypeId) st)
             | Inr m \<Rightarrow>
                 let act = rpc_action m;
                     (r, m', st) = process_frame env identifier m ts protocol st;
                     (ok, st) = (case r of
                       Inr u \<Rightarrow> (True, st)
                     | Inl e \<Rightarrow> (False, reply_with_error env identifier protocol (JStr act) messageTypeId messageId e st))
                 in (ok, emit (ReceivedWebhook tenantId name iso_ts protocol text (rpc_type_id m')
                                (rpc_toJSON m') (JStr act)) st))
      in (ok, emit (StationSeen tenantId name iso_ts) st))"

section \<open>Messages from the modules\<close>

text \<open>The plain object an OcppError becomes on its way through the broker: its own enumerable properties
  and the getter message, which the class exposes to instanceToPlain. The fields are strings, as the class
  makes them.\<close>

definition payload_value :: "message_payload \<Rightarrow> jsval" where
  "payload_value p =
     (case p of
        Plain v \<Rightarrow> v
      | ErrorPayload e \<Rightarrow> JObj [(''_messageId'', JStr (oe_messageId e)), (''_errorCode'', oe_code e),
          (''_errorDetails'', oe_details e), (''name'', JStr ''OcppError''), (''message'', JStr (oe_description e))])"

definition text_of :: "jsval \<Rightarrow> string" where
  "text_of v = (case v of JStr s \<Rightarrow> s | _ \<Rightarrow> [])"

definition is_stale :: "router_env \<Rightarrow> message \<Rightarrow> router \<Rightarrow> bool" where
  "is_stale env m st =
     (case staleCallMaxAgeSeconds env of
        None \<Rightarrow> False
      | Some s \<Rightarrow>
          (case ms_of_iso env (ctx_timestamp (m_context m)) of
             Fin t \<Rightarrow> of_int (s * 1000) < of_nat (now (rcache st)) - t
           | Inf b \<Rightarrow> \<not> b
           | NaN \<Rightarrow> False))"

definition handle :: "router_env \<Rightarrow> message \<Rightarrow> router \<Rightarrow> (exn + unit) \<times> router" where
  "handle env m st =
     (let p = sanitizeOCPPPayload (payload_value (m_payload m));
          name = ctx_ocppConnectionName (m_context m);
          tenantId = ctx_tenantId (m_context m);
          correlationId = ctx_correlationId (m_context m)
      in case m_state m of
        Request \<Rightarrow>
          (case validateOCPPRequest (validator env) (m_action m) p (m_protocol m) of
             Inl e \<Rightarrow> (Inl e, st)
           | Inr (Invalid errors, p) \<Rightarrow> (Inl (invalid_format correlationId errors), st)
           | Inr (Valid, p) \<Rightarrow>
               if is_stale env m st then (Inr (), st)
               else let (r, st) = sendCall env name tenantId (m_protocol m) (m_action m) p correlationId st
                    in (bind_res r (\<lambda>_. Inr ()), st))
      | Response \<Rightarrow>
          (case validateOCPPResponse (validator env) (m_action m) p (m_protocol m) of
             (Invalid errors, p) \<Rightarrow> (Inl (invalid_format correlationId errors), st)
           | (Valid, p) \<Rightarrow>
               if truthy p \<and> truthy (js_prop ''_errorCode'' p)
               then let e = \<lparr> oe_messageId = text_of (js_prop ''_messageId'' p),
                              oe_code = js_prop ''_errorCode'' p,
                              oe_description = text_of (js_prop ''message'' p),
                              oe_details = (if truthy (js_prop ''_errorDetails'' p)
                                            then js_prop ''_errorDetails'' p else JObj []) \<rparr>;
                        (_, st) = sendCallError env correlationId name tenantId (m_protocol m) (m_action m) e st
                    in (Inr (), st)
               else let (r, st) = sendCallResult env correlationId name tenantId (m_protocol m) (m_action m) p st
                    in (bind_res r (\<lambda>_. Inr ()), st))
      | Unknown \<Rightarrow> (Inl (JsErr ''Unknown message state: '' []), st))"

section \<open>Connections\<close>

text \<open>All four operations are started; the answer is that of the two subscriptions, and False
  when any of the four fails.\<close>

definition registerConnection ::
  "router_env \<Rightarrow> js_num \<Rightarrow> string \<Rightarrow> ocpp_version \<Rightarrow> string option \<Rightarrow> router \<Rightarrow> bool \<times> router" where
  "registerConnection env tenantId name protocol serverId st =
     (let identifier = createIdentifier tenantId [name];
          r0 = register_webhooks env (log st) tenantId name;
          st = emit (WebhookRegister tenantId name) st;
          r1 = subscribe_result env (log st) identifier Request;
          st = emit (Subscribe identifier (num_str tenantId) name Request ChargingStationManagementSystem) st;
          r2 = subscribe_result env (log st) identifier Response;
          st = emit (Subscribe identifier (num_str tenantId) name Response ChargingStationManagementSystem) st;
          r3 = set_online env (log st) tenantId name;
          st = emit (StationOnline tenantId name True (Some protocol) serverId) st
      in (case (r0, r1, r2, r3) of
            (Inr u, Inr a, Inr b, Inr v) \<Rightarrow> a \<and> b
          | _ \<Rightarrow> False, st))"

definition deregisterConnection ::
  "router_env \<Rightarrow> js_num \<Rightarrow> string \<Rightarrow> router \<Rightarrow> (exn + bool) \<times> router" where
  "deregisterConnection env tenantId name st =
     (let st = emit (WebhookDeregister tenantId name) st;
          protocol = (case station_protocol env (log st) tenantId name of Inr p \<Rightarrow> p | Inl e \<Rightarrow> None);
          r = set_online env (log st) tenantId name;
          st = emit (StationOnline tenantId name False protocol None) st
      in case r of
           Inl e \<Rightarrow> (Inl e, st)
         | Inr u \<Rightarrow>
             let identifier = createIdentifier tenantId [name];
                 r = unsubscribe_result env (log st) identifier
             in (r, emit (Unsubscribe identifier) st))"

section \<open>Lemmas\<close>

lemma emit_fields [simp]: "rcache (emit e st) = rcache st" "log (emit e st) = log st @ [e]"
  by (simp_all add: emit_def)

lemma on_cache_fields [simp]:
  "fst (on_cache f st) = fst (f (rcache st))"
  "rcache (snd (on_cache f st)) = snd (f (rcache st))" "log (snd (on_cache f st)) = log st"
  by (simp_all add: on_cache_def split: prod.splits)

lemma on_cache_split: "on_cache f st = (fst (f (rcache st)), st\<lparr> rcache := snd (f (rcache st)) \<rparr>)"
  by (simp add: on_cache_def split: prod.splits)

lemma sendMessage_cache [simp]: "rcache (snd (sendMessage env i p a m st)) = rcache st"
  by (simp add: sendMessage_def Let_def)

lemma sendMessage_result:
  "fst (sendMessage env i p a m st) =
   (if networkHook env (log st) i (text_of_json env (rpc_toJSON m)) then Some (now (rcache st)) else None)"
  by (simp add: sendMessage_def Let_def)

text \<open>The frames in a log, and the messages published to the broker.\<close>

fun frame_of :: "effect \<Rightarrow> (string \<times> string) option" where
  "frame_of (Frame i raw) = Some (i, raw)"
| "frame_of (FrameLost i raw) = Some (i, raw)"
| "frame_of _ = None"

fun published_of :: "effect \<Rightarrow> message option" where
  "published_of (Published m) = Some m"
| "published_of _ = None"

definition attempts :: "effect list \<Rightarrow> (string \<times> string) list" where
  "attempts l = List.map_filter frame_of l"

definition published :: "effect list \<Rightarrow> message list" where
  "published l = List.map_filter published_of l"

lemma attempts_append [simp]: "attempts (xs @ ys) = attempts xs @ attempts ys"
  by (simp add: attempts_def List.map_filter_def)

lemma published_append [simp]: "published (xs @ ys) = published xs @ published ys"
  by (simp add: published_def List.map_filter_def)

lemma attempts_Nil [simp]: "attempts [] = []" "published [] = []"
  by (simp_all add: attempts_def published_def List.map_filter_def)

lemma attempts_Cons [simp]:
  "attempts (e # l) = (case frame_of e of Some f \<Rightarrow> f # attempts l | None \<Rightarrow> attempts l)"
  "published (e # l) = (case published_of e of Some m \<Rightarrow> m # published l | None \<Rightarrow> published l)"
  by (simp_all add: attempts_def published_def List.map_filter_def split: option.splits)

lemma sendMessage_attempts [simp]:
  "attempts (log (snd (sendMessage env i p a m st))) = attempts (log st) @ [(i, text_of_json env (rpc_toJSON m))]"
  by (simp add: sendMessage_def Let_def)

lemma sendMessage_published [simp]: "published (log (snd (sendMessage env i p a m st))) = published (log st)"
  by (simp add: sendMessage_def Let_def)

lemma split_pending:
  assumes "CHR ''@'' \<notin> set a"
  shows "split_at_first (pending_value a ts) = (a, ts)"
proof -
  have "takeWhile (\<lambda>c. c \<noteq> CHR ''@'') (a @ CHR ''@'' # ts) = a"
    "dropWhile (\<lambda>c. c \<noteq> CHR ''@'') (a @ CHR ''@'' # ts) = CHR ''@'' # ts"
    using assms by (induction a) auto
  then show ?thesis by (simp add: split_at_first_def pending_value_def)
qed

lemma pending_value_not_Nil [simp]: "pending_value a ts \<noteq> []"
  by (simp add: pending_value_def)

lemma tx_namespace_not_Nil [simp]: "tx_namespace i \<noteq> []"
  by (simp add: tx_namespace_def)

lemma ns_key_tx: "ns_key k (Some (tx_namespace i)) = tx_namespace i @ '':'' @ k"
  by (simp add: tx_namespace_def)

lemma existsAny_iff:
  "existsAnyInNamespace ns st \<longleftrightarrow> (\<exists>k. map_of (cache st) (ns @ '':'' @ k) \<noteq> None)"
proof
  assume "existsAnyInNamespace ns st"
  then obtain k v where "(k, v) \<in> set (cache st)" "prefix (ns @ '':'') k"
    by (auto simp: existsAnyInNamespace_def)
  then obtain k' where "(ns @ '':'' @ k', v) \<in> set (cache st)" by (auto simp: prefix_def)
  then show "\<exists>k. map_of (cache st) (ns @ '':'' @ k) \<noteq> None"
    using weak_map_of_SomeI by fastforce
next
  assume "\<exists>k. map_of (cache st) (ns @ '':'' @ k) \<noteq> None"
  then obtain k v where "map_of (cache st) (ns @ '':'' @ k) = Some v" by auto
  then have "(ns @ '':'' @ k, v) \<in> set (cache st)" by (rule map_of_SomeD)
  then show "existsAnyInNamespace ns st" by (force simp: existsAnyInNamespace_def prefix_def)
qed

lemma exists_key_existsAny:
  "exists_key k (Some (tx_namespace i)) st \<Longrightarrow> existsAnyInNamespace (tx_namespace i) st"
  by (auto simp: existsAny_iff exists_key_def ns_key_tx)

lemma existsAny_slot:
  "existsAnyInNamespace (tx_namespace i) st \<longleftrightarrow> (\<exists>k. exists_key k (Some (tx_namespace i)) st)"
  by (simp add: existsAny_iff exists_key_def ns_key_tx)

lemma slot_eq [simp]: "ns_key k (Some (tx_namespace i)) = ns_key k' (Some (tx_namespace i)) \<longleftrightarrow> k = k'"
  by (simp add: ns_key_tx)

section \<open>Properties of sending\<close>

text \<open>sendCall: a rejected station gets nothing but the trigger of a BootNotification; while any
  message is pending for the station the call is refused with a retry error and nothing changes;
  otherwise exactly one CALL frame is written, and the call stays pending exactly when the
  write succeeded.\<close>
lemma sendCall_spec:
  assumes "sendCallIsAllowed env i protocol (new_call cid a p) st = Inr allowed"
    and "i = createIdentifier t [name]"
    and "sendCall env name t protocol a p cid st = (r, st')"
  shows "(\<not> allowed \<longrightarrow> r = Inr False \<and> st' = st) \<and>
    (allowed \<and> existsAnyInNamespace (tx_namespace i) (rcache st) \<longrightarrow>
       r = Inl (RetryErr ''Call already in progress'') \<and> st' = st) \<and>
    (allowed \<and> \<not> existsAnyInNamespace (tx_namespace i) (rcache st) \<longrightarrow>
       (let raw = text_of_json env (call_toJSON (new_call cid a p)); sent = networkHook env (log st) i raw
        in r = Inr sent \<and> attempts (log st') = attempts (log st) @ [(i, raw)] \<and>
           published (log st') = published (log st) \<and>
           (\<forall>k. exists_key k (Some (tx_namespace i)) (rcache st') \<longleftrightarrow> sent \<and> k = cid)))"
proof -
  note u = assms(3) [unfolded sendCall_def Let_def, folded assms(2), unfolded assms(1)]
  show ?thesis
    using u
    by (auto simp: Let_def on_cache_split sendMessage_def existsAny_slot mc.present_put mc.present_drop
        new_call_def split: if_splits)
qed


section \<open>A concrete environment\<close>

text \<open>Used to show that hypotheses of the properties can hold: a station whose socket works, a
  broker that accepts everything, and a parser that knows three frames.\<close>

definition demo_ajv :: ajv where
  "demo_ajv = \<lparr> ajv_request = (\<lambda>v a p. (None, p)), ajv_response = (\<lambda>v a p. (None, p)),
     ajv_data_transfer = (\<lambda>i. None), json_parse = Inr, template = (\<lambda>v. []) \<rparr>"

definition demo_parse :: "string \<Rightarrow> jsval option" where
  "demo_parse s =
     (if s = ''call'' then Some (JArr [JNum 2, JStr ''m1'', JStr ''Heartbeat'', JObj []])
      else if s = ''result'' then Some (JArr [JNum 3, JStr ''m1'', JObj []])
      else if s = ''short'' then Some (JArr [JNum 2, JStr ''m1''])
      else None)"

definition demo_env :: router_env where
  "demo_env = \<lparr> validator = demo_ajv, json_of_text = demo_parse, text_of_json = (\<lambda>v. ''frame''),
     iso_of_ms = nat_str, ms_of_iso = (\<lambda>s. NaN),
     networkHook = (\<lambda>l i m. True), broker = (\<lambda>l m. Inr \<lparr> conf_success = True, conf_payload = JUndef \<rparr>),
     subscribe_result = (\<lambda>l i s. Inr True), unsubscribe_result = (\<lambda>l i. Inr True),
     register_webhooks = (\<lambda>l t n. Inr ()), set_online = (\<lambda>l t n. Inr ()),
     station_protocol = (\<lambda>l t n. Inr None), maxCallLengthSeconds = 20, staleCallMaxAgeSeconds = None \<rparr>"

definition demo_router :: router where
  "demo_router = \<lparr> rcache = empty_cache, log = [] \<rparr>"

text \<open>The same with a broker that refuses every message.\<close>

definition refusing_env :: router_env where
  "refusing_env = demo_env\<lparr> broker := (\<lambda>l m. Inr \<lparr> conf_success = False, conf_payload = JUndef \<rparr>) \<rparr>"

section \<open>Properties of receiving\<close>

lemma assertRawFrame_error_id:
  "assertRawFrame raw t n name = Inl (OcppErr e) \<Longrightarrow> oe_messageId e = readMessageId raw"
  by (auto simp: assertRawFrame_def throw_ocpp_def new_ocpp_error_def readMessageId_def
      split: jsval.splits if_splits option.splits)

lemma assertRawFrame_id:
  "assertRawFrame raw t n name = Inr xs \<Longrightarrow> frame_id xs = readMessageId raw"
  by (auto simp: assertRawFrame_ok frame_id_def readMessageId_def)

lemma assertPayload_error_id: "assertPayload v m name = Inl (OcppErr e) \<Longrightarrow> oe_messageId e = m"
  by (auto simp: assertPayload_def throw_ocpp_def new_ocpp_error_def split: if_splits)

lemma call_of_raw_error_id: "call_of_raw raw = Inl (OcppErr e) \<Longrightarrow> oe_messageId e = readMessageId raw"
  by (auto simp: call_of_raw_def bind_res_eq_Inl Let_def throw_ocpp_def new_ocpp_error_def
      dest!: assertRawFrame_error_id assertRawFrame_id assertPayload_error_id split: option.splits)

lemma call_result_of_raw_error_id:
  "call_result_of_raw raw = Inl (OcppErr e) \<Longrightarrow> oe_messageId e = readMessageId raw"
  by (auto simp: call_result_of_raw_def bind_res_eq_Inl Let_def
      dest!: assertRawFrame_error_id assertRawFrame_id assertPayload_error_id)

lemma call_error_of_raw_error_id:
  "call_error_of_raw raw = Inl (OcppErr e) \<Longrightarrow> oe_messageId e = readMessageId raw"
  by (auto simp: call_error_of_raw_def bind_res_eq_Inl dest: assertRawFrame_error_id)

lemma parse_frame_error_id:
  "parse_frame env text = (raw, mt, mid, Inl (OcppErr e)) \<Longrightarrow> oe_messageId e = mid"
  by (auto simp: parse_frame_def Let_def bind_res_eq_Inl throw_ocpp_def new_ocpp_error_def
      split: option.splits if_splits
      dest: call_of_raw_error_id call_result_of_raw_error_id call_error_of_raw_error_id)

lemma error_reply_id:
  "(\<And>oe. e = OcppErr oe \<Longrightarrow> oe_messageId oe = mid) \<Longrightarrow> oe_messageId (error_reply mid e) = mid"
  by (cases e) (simp_all add: error_reply_def asCallError_def new_call_error_def)

lemma reply_with_error_fields [simp]:
  "rcache (reply_with_error env i p a mt mid e st) = rcache st"
  "published (log (reply_with_error env i p a mt mid e st)) = published (log st)"
  "attempts (log (reply_with_error env i p a mt mid e st)) = attempts (log st) @
     (if loosely_equals mt 3 \<or> loosely_equals mt 4 then []
      else [(i, text_of_json env (call_error_toJSON (error_reply mid e)))])"
  by (simp_all add: reply_with_error_def message_type_ids)

text \<open>C3. A text that is not a well-formed frame is never published and leaves the cache alone;
  unless its message type is that of a CALLRESULT or CALLERROR, it is answered by exactly one
  CALLERROR, with the message id of the frame, or -1 when that cannot be read.\<close>
theorem malformed_frame:
  assumes "parse_frame env text = (raw, mt, mid, Inl e)"
    and "onMessage env i text ts p st = (ok, st')"
  shows "\<not> ok \<and> rcache st' = rcache st \<and> published (log st') = published (log st) \<and>
    attempts (log st') = attempts (log st) @
      (if loosely_equals mt 3 \<or> loosely_equals mt 4 then []
       else [(i, text_of_json env (call_error_toJSON (error_reply mid e)))]) \<and>
    oe_messageId (error_reply mid e) = mid"
proof -
  have "oe_messageId (error_reply mid e) = mid"
    using parse_frame_error_id assms(1) by (intro error_reply_id) simp
  then show ?thesis using assms(2) by (auto simp: onMessage_def Let_def assms(1))
qed

lemma demo_parse_short:
  "\<exists>e. parse_frame demo_env ''short'' = (JArr [JNum 2, JStr ''m1''], JNum 2, ''m1'', Inl e)"
  by (simp add: parse_frame_def demo_env_def demo_parse_def call_of_raw_def assertRawFrame_def
      message_type_ids throw_ocpp_def Let_def)

theorem malformed_frame_witness:
  "attempts (log (snd (onMessage demo_env ''1:cs1'' ''short'' 0 OCPP2_0_1 demo_router))) = [(''1:cs1'', ''frame'')]"
proof -
  obtain e where e: "parse_frame demo_env ''short'' = (JArr [JNum 2, JStr ''m1''], JNum 2, ''m1'', Inl e)"
    using demo_parse_short by blast
  obtain ok st' where o: "onMessage demo_env ''1:cs1'' ''short'' 0 OCPP2_0_1 demo_router = (ok, st')"
    by (cases "onMessage demo_env ''1:cs1'' ''short'' 0 OCPP2_0_1 demo_router")
  from malformed_frame [OF e o]
  have "attempts (log st') = [(''1:cs1'', text_of_json demo_env (call_error_toJSON (error_reply ''m1'' e)))]"
    by (simp add: demo_router_def loosely_equals_def)
  then have "attempts (log st') = [(''1:cs1'', ''frame'')]" by (simp add: demo_env_def)
  then show ?thesis by (simp add: o)
qed

text \<open>A CALLRESULT or CALLERROR whose message id is not pending (never sent, already answered
  or timed out) makes onMessage fail; nothing is published to the modules and nothing is sent
  to the station, and no entry appears in the cache.\<close>
lemma orphan_response:
  assumes "parse_frame env text = (raw, mt, mid, Inr m)"
    and "m = RpcCallResult r \<or> m = RpcCallError ce"
    and "mt = JNum (rpc_type_id m)"
    and "get_key (if m = RpcCallResult r then cr_messageId r else oe_messageId ce)
           (Some (tx_namespace i)) (rcache st) = None"
    and "onMessage env i text ts p st = (ok, st')"
  shows "\<not> ok \<and> published (log st') = published (log st) \<and> attempts (log st') = attempts (log st) \<and>
    (\<forall>k ns. exists_key k ns (rcache st') \<longrightarrow> exists_key k ns (rcache st))"
proof -
  have t: "loosely_equals mt 3 \<or> loosely_equals mt 4"
    using assms(2,3) by (auto simp: loosely_equals_def message_type_ids)
  show ?thesis
  proof (cases "m = RpcCallResult r")
    case True
    then show ?thesis
      using assms(4,5) t
      by (auto simp: onMessage_def Let_def assms(1) process_frame_def onCallResult_def take_pending_def
          on_cache_split not_pending_def mc.present_drop)
  next
    case False
    then have "m = RpcCallError ce" using assms(2) by simp
    then show ?thesis
      using assms(4,5) t
      by (auto simp: onMessage_def Let_def assms(1) process_frame_def onCallError_def take_pending_def
          on_cache_split not_pending_def mc.present_drop)
  qed
qed

lemma demo_parse_result:
  "parse_frame demo_env ''result'' = (JArr [JNum 3, JStr ''m1'', JObj []], JNum 3, ''m1'',
     Inr (RpcCallResult \<lparr> cr_messageId = ''m1'', cr_payload = JObj [] \<rparr>))"
  by (simp add: parse_frame_def demo_env_def demo_parse_def call_result_of_raw_def assertRawFrame_def
      assertPayload_def message_type_ids Let_def)

lemma orphan_response_witness:
  "fst (onMessage demo_env ''1:cs1'' ''result'' 0 OCPP2_0_1 demo_router) = False"
proof -
  obtain ok st' where o: "onMessage demo_env ''1:cs1'' ''result'' 0 OCPP2_0_1 demo_router = (ok, st')"
    by (cases "onMessage demo_env ''1:cs1'' ''result'' 0 OCPP2_0_1 demo_router")
  have "get_key ''m1'' (Some (tx_namespace ''1:cs1'')) (rcache demo_router) = None"
    by (simp add: get_key_def get_raw_def demo_router_def empty_cache_def)
  then show ?thesis
    using orphan_response [OF demo_parse_result _ _ _ o] by (simp add: o message_type_ids)
qed

lemma action_no_at: "a \<in> set (ALLOWED_ACTIONS v) \<Longrightarrow> CHR ''@'' \<notin> set a"
proof -
  have "list_all (\<lambda>a. CHR ''@'' \<notin> set a) OCPP_CallAction" by (simp add: OCPP_CallAction_def)
  then show "a \<in> set (ALLOWED_ACTIONS v) \<Longrightarrow> CHR ''@'' \<notin> set a"
    using allowed_are_actions by (fastforce simp: list_all_iff)
qed

lemma mapToCallAction_allowed: "a \<in> set (ALLOWED_ACTIONS v) \<Longrightarrow> mapToCallAction v a = Inr a"
  by (simp add: mapToCallAction_ok)

lemma get_key_pending:
  "map_of (cache st) (ns_key k ns) = Some (pending_value a ts) \<Longrightarrow> get_key k ns st = Some (pending_value a ts)"
  by (cases "pending_value a ts") (simp_all add: get_key_def get_raw_def)

lemma sendCall_cache:
  assumes "sendCall env name t protocol a p cid st = (Inr True, st1)"
  shows "rcache st1 = snd (set_key cid (pending_value a (iso_of_ms env (now (rcache st))))
      (Some (tx_namespace (createIdentifier t [name]))) (Some (maxCallLengthSeconds env)) (rcache st))"
  using assms
  by (auto simp: sendCall_def Let_def on_cache_split sendMessage_def split: sum.splits bool.splits if_splits)

lemma routeCallResult_fields:
  "rcache (snd (routeCallResult env i r a ts p st)) = rcache st"
  "attempts (log (snd (routeCallResult env i r a ts p st))) = attempts (log st)"
  "published (log (snd (routeCallResult env i r a ts p st))) = published (log st) @
     [buildCallResult (getStationIdFromIdentifier i) (cr_messageId r) (getTenantIdFromIdentifier i) a
        (cr_payload r) event_group.Router ChargingStation p (iso_of_ms env ts)]"
  by (simp_all add: routeCallResult_def Let_def emitMessage_def build_defs)

lemma onCallResult_ok:
  assumes "get_key (cr_messageId r) (Some (tx_namespace i)) (rcache st) = Some v"
    and "mapToCallAction protocol (fst (split_at_first v)) = Inr a"
    and "validateCallResult env a r protocol = (Valid, r')"
  shows "\<exists>res. onCallResult env i r ts protocol st = (res, r', snd (routeCallResult env i r' a ts protocol
    (st\<lparr> rcache := snd (remove_key (cr_messageId r) (Some (tx_namespace i)) (rcache st)) \<rparr>)))"
  using assms by (auto simp: onCallResult_def take_pending_def on_cache_split Let_def split: prod.splits)

lemma onMessage_result:
  assumes p: "parse_frame env text = (raw, JNum 3, mid, Inr (RpcCallResult r))"
    and hyps: "get_key (cr_messageId r) (Some (tx_namespace i)) (rcache st) = Some v"
      "mapToCallAction protocol (fst (split_at_first v)) = Inr a"
      "validateCallResult env a r protocol = (Valid, r')"
    and o: "onMessage env i text ts protocol st = (ok, st')"
  shows "published (log st') = published (log st) @
      [buildCallResult (getStationIdFromIdentifier i) (cr_messageId r') (getTenantIdFromIdentifier i) a
         (cr_payload r') event_group.Router ChargingStation protocol (iso_of_ms env ts)] \<and>
    attempts (log st') = attempts (log st) \<and>
    rcache st' = snd (remove_key (cr_messageId r) (Some (tx_namespace i)) (rcache st))"
proof -
  have t: "loosely_equals (JNum 3) 3" by (simp add: loosely_equals_def)
  obtain res where "onCallResult env i r ts protocol st = (res, r', snd (routeCallResult env i r' a ts protocol
    (st\<lparr> rcache := snd (remove_key (cr_messageId r) (Some (tx_namespace i)) (rcache st)) \<rparr>)))"
    using onCallResult_ok [OF hyps] by blast
  then show ?thesis
    using o t by (cases res) (auto simp: onMessage_def Let_def p process_frame_def routeCallResult_fields)
qed

text \<open>C2. The CALLRESULT that answers an outstanding call is published exactly once, with the
  action and the correlation id of that call and the validated payload of the answer, and the
  call is no longer pending, whatever other entries of the cache changed in the meantime.\<close>
theorem response_matches_call:
  assumes "cache_reachable (rcache st)" and "a \<in> set (ALLOWED_ACTIONS protocol)"
    and "i = createIdentifier t [name]"
    and "sendCall env name t protocol a p cid st = (Inr True, st1)"
    and "(other_step (ns_key cid (Some (tx_namespace i))))\<^sup>*\<^sup>* (rcache st1) (rcache st2)"
    and "\<forall>d. expiry_of (Some (maxCallLengthSeconds env)) (now (rcache st)) = Some d \<longrightarrow> now (rcache st2) < d"
    and "parse_frame env text = (raw, JNum 3, mid, Inr (RpcCallResult r))" and "cr_messageId r = cid"
    and "validateCallResult env a r protocol = (Valid, r')"
    and "onMessage env i text ts protocol st2 = (ok, st3)"
  shows "published (log st3) = published (log st2) @
      [buildCallResult (getStationIdFromIdentifier i) cid (getTenantIdFromIdentifier i) a
         (cr_payload r') event_group.Router ChargingStation protocol (iso_of_ms env ts)] \<and>
    \<not> exists_key cid (Some (tx_namespace i)) (rcache st3)"
proof -
  have "map_of (cache (rcache st2)) (ns_key cid (Some (tx_namespace i))) =
      Some (pending_value a (iso_of_ms env (now (rcache st))))"
    using cache_value_survives [OF assms(1)] assms(5,6) sendCall_cache [OF assms(4)] assms(3) by simp
  then have g: "get_key (cr_messageId r) (Some (tx_namespace i)) (rcache st2) =
      Some (pending_value a (iso_of_ms env (now (rcache st))))"
    using assms(8) by (simp add: get_key_pending)
  have m: "mapToCallAction protocol (fst (split_at_first (pending_value a (iso_of_ms env (now (rcache st)))))) = Inr a"
    using assms(2) by (simp add: split_pending action_no_at mapToCallAction_allowed)
  have "cr_messageId r' = cid"
    using assms(8,9) by (auto simp: validateCallResult_def split: prod.splits)
  then show ?thesis
    using onMessage_result [OF assms(7) g m assms(9,10)] assms(8) by (simp add: mc.present_drop)
qed

text \<open>A CALL whose action is blacklisted for the station is answered by one CALLERROR with code
  SecurityError; nothing is published and the cache does not change.\<close>
lemma blacklisted_call:
  assumes "parse_frame env text = (raw, JNum 2, mid, Inr (RpcCall c))"
    and "c_action c \<in> set (ALLOWED_ACTIONS protocol)"
    and "exists_key (c_action c) (Some i) (rcache st)"
    and "onMessage env i text ts protocol st = (ok, st')"
  shows "\<not> ok \<and> rcache st' = rcache st \<and> published (log st') = published (log st) \<and>
    attempts (log st') = attempts (log st) @ [(i, text_of_json env (call_error_toJSON
      (new_call_error (c_messageId c) (JStr ''SecurityError'') (''Action '' @ c_action c @ '' not allowed'') (JObj []))))]"
proof -
  have t: "\<not> loosely_equals (JNum 2) 3" "\<not> loosely_equals (JNum 2) 4" by (simp_all add: loosely_equals_def)
  show ?thesis
    using assms(4) t
    by (auto simp: onMessage_def Let_def assms(1) process_frame_def onCall_def mapToCallAction_allowed [OF assms(2)]
        onCallIsAllowed_def assms(3) throw_ocpp_def error_reply_def new_ocpp_error_def asCallError_def)
qed

lemma identifier_parts:
  assumes "CHR '':'' \<notin> set name"
  shows "createIdentifier (getTenantIdFromIdentifier (createIdentifier (tenant t) [name]))
      [getStationIdFromIdentifier (createIdentifier (tenant t) [name])] = createIdentifier (tenant t) [name]"
  by (simp add: tenant_id_of_identifier station_id_roundtrip [OF assms])

definition call_message :: "router_env \<Rightarrow> string \<Rightarrow> call \<Rightarrow> nat \<Rightarrow> ocpp_version \<Rightarrow> message" where
  "call_message env i c ts p =
     buildCall (getStationIdFromIdentifier i) (c_messageId c) (getTenantIdFromIdentifier i) (c_action c)
       (c_payload c) event_group.Router ChargingStation p (iso_of_ms env ts)"

lemma routeCall_eq:
  "c_action c \<in> set (ALLOWED_ACTIONS p) \<Longrightarrow>
   routeCall env i c ts p st =
     (broker env (log st) (call_message env i c ts p), emit (Published (call_message env i c ts p)) st)"
  by (simp add: routeCall_def mapToCallAction_allowed emitMessage_def build_defs call_message_def)

lemma send_reply_hit:
  assumes "get_key cid (Some (tx_namespace i)) (rcache st) = Some v" "fst (split_at_first v) = a"
    and "i = createIdentifier t [name]"
  shows "rcache (snd (send_reply env cid name t p a rpc st)) = snd (remove_key cid (Some (tx_namespace i)) (rcache st))"
    "attempts (log (snd (send_reply env cid name t p a rpc st))) = attempts (log st) @ [(i, text_of_json env (rpc_toJSON rpc))]"
    "published (log (snd (send_reply env cid name t p a rpc st))) = published (log st)"
  using assms by (cases "split_at_first v"; simp add: send_reply_def sendMessage_def Let_def on_cache_split)+

lemma send_reply_miss:
  "get_key cid (Some (tx_namespace (createIdentifier t [name]))) (rcache st) = None \<Longrightarrow>
   send_reply env cid name t p a rpc st = (False, st)"
  by (simp add: send_reply_def)

lemma onCall_valid:
  assumes "c_action c \<in> set (ALLOWED_ACTIONS p)" and "onCallIsAllowed (c_action c) i st"
    and "validateCall env c p = (Inr Valid, c')"
  shows "onCall env i c ts p st =
    (let m = call_message env i c' ts p;
         st1 = st\<lparr> rcache := snd (setIfNotExist (c_messageId c) (pending_value (c_action c) (iso_of_ms env ts))
                     (Some (tx_namespace i)) (Some (maxCallLengthSeconds env)) (rcache st)) \<rparr>;
         st2 = emit (Published m) st1
     in case (case broker env (log st) m of Inl e \<Rightarrow> Some e
                | Inr conf \<Rightarrow> if conf_success conf then None
                              else Some (OcppErr (new_ocpp_error (c_messageId c) InternalError ''Call failed''
                                     (JObj [(''details'', conf_payload conf)])))) of
          None \<Rightarrow> (Inr (), c', st2)
        | Some e \<Rightarrow>
            let st3 = snd (sendCallError env (c_messageId c) (getStationIdFromIdentifier i)
                        (getTenantIdFromIdentifier i) p (c_action c) (as_ocpp_error (c_messageId c) e) st2)
            in (Inr (), c', st3\<lparr> rcache := snd (remove_key (c_messageId c) (Some (tx_namespace i)) (rcache st3)) \<rparr>))"
proof -
  have "c_action c' = c_action c"
    using assms(3) by (auto simp: validateCall_def Let_def split: sum.splits prod.splits)
  then have "c_action c' \<in> set (ALLOWED_ACTIONS p)" using assms(1) by simp
  note m = routeCall_eq [OF this]
  show ?thesis
    by (simp add: onCall_def Let_def mapToCallAction_allowed [OF assms(1)] assms(2,3) on_cache_split m
        bind_res_def split: sum.splits prod.splits)
qed

lemma as_ocpp_error_id:
  "(\<And>oe. e = OcppErr oe \<Longrightarrow> oe_messageId oe = mid) \<Longrightarrow> oe_messageId (asCallError (as_ocpp_error mid e)) = mid"
  by (cases e) (simp_all add: as_ocpp_error_def asCallError_def new_call_error_def new_ocpp_error_def)

text \<open>A valid, allowed CALL that the broker refuses or fails to take is answered by one CALLERROR
  with its message id, and its entry is gone afterwards (for station names without a colon).\<close>
lemma failed_call_answered:
  assumes "i = createIdentifier (tenant t) [name]" and "CHR '':'' \<notin> set name"
    and "c_action c \<in> set (ALLOWED_ACTIONS protocol)" and "onCallIsAllowed (c_action c) i st"
    and "validateCall env c protocol = (Inr Valid, c')"
    and "\<not> exists_key (c_messageId c) (Some (tx_namespace i)) (rcache st)"
    and "\<forall>m. case broker env (log st) m of Inr conf \<Rightarrow> \<not> conf_success conf | Inl e \<Rightarrow> \<forall>oe. e \<noteq> OcppErr oe"
    and "onCall env i c ts protocol st = (r, c'', st')"
  shows "r = Inr () \<and>
    (\<exists>e. oe_messageId e = c_messageId c \<and>
       attempts (log st') = attempts (log st) @ [(i, text_of_json env (call_error_toJSON e))]) \<and>
    \<not> exists_key (c_messageId c) (Some (tx_namespace i)) (rcache st')"
proof -
  let ?mid = "c_messageId c"
  let ?ns = "tx_namespace i"
  let ?v = "pending_value (c_action c) (iso_of_ms env ts)"
  let ?st1 = "st\<lparr> rcache := snd (setIfNotExist ?mid ?v (Some ?ns) (Some (maxCallLengthSeconds env)) (rcache st)) \<rparr>"
  define m where "m = call_message env i c' ts protocol"
  have o: "onCall env i c ts protocol st =
    (let st1 = ?st1; st2 = emit (Published m) st1
     in case (case broker env (log st) m of Inl e \<Rightarrow> Some e
                | Inr conf \<Rightarrow> if conf_success conf then None
                              else Some (OcppErr (new_ocpp_error ?mid InternalError ''Call failed''
                                     (JObj [(''details'', conf_payload conf)])))) of
          None \<Rightarrow> (Inr (), c', st2)
        | Some e \<Rightarrow>
            let st3 = snd (sendCallError env ?mid (getStationIdFromIdentifier i)
                        (getTenantIdFromIdentifier i) protocol (c_action c) (as_ocpp_error ?mid e) st2)
            in (Inr (), c', st3\<lparr> rcache := snd (remove_key ?mid (Some ?ns) (rcache st3)) \<rparr>))"
    unfolding onCall_valid [OF assms(3,4,5)] m_def Let_def ..
  obtain e where e: "(case broker env (log st) m of Inl e \<Rightarrow> Some e
                | Inr conf \<Rightarrow> if conf_success conf then None
                              else Some (OcppErr (new_ocpp_error ?mid InternalError ''Call failed''
                                     (JObj [(''details'', conf_payload conf)])))) = Some e"
    and eid: "\<And>oe. e = OcppErr oe \<Longrightarrow> oe_messageId oe = ?mid"
    using spec [OF assms(7), of m] by (fastforce simp: new_ocpp_error_def split: sum.splits)
  have i: "i = createIdentifier (getTenantIdFromIdentifier i) [getStationIdFromIdentifier i]"
    using identifier_parts [OF assms(2)] assms(1) by simp
  have g: "get_key ?mid (Some ?ns) (rcache (emit (Published m) ?st1)) = Some ?v"
    using assms(6) by (simp add: mc.put_new_lookup)
  have s: "fst (split_at_first ?v) = c_action c"
    using assms(3) by (simp add: split_pending action_no_at)
  have r: "r = Inr ()" and st': "rcache st' = snd (remove_key ?mid (Some ?ns) (rcache (snd (sendCallError env ?mid
        (getStationIdFromIdentifier i) (getTenantIdFromIdentifier i) protocol (c_action c)
        (as_ocpp_error ?mid e) (emit (Published m) ?st1)))))"
    "log st' = log (snd (sendCallError env ?mid
        (getStationIdFromIdentifier i) (getTenantIdFromIdentifier i) protocol (c_action c)
        (as_ocpp_error ?mid e) (emit (Published m) ?st1)))"
    using assms(8) unfolding o Let_def e option.case by auto
  have "attempts (log st') = attempts (log st) @ [(i, text_of_json env (call_error_toJSON (asCallError (as_ocpp_error ?mid e))))]"
    unfolding st'(2) sendCallError_def send_reply_hit(2) [OF g s i] by simp
  then show ?thesis
    using r as_ocpp_error_id [of e ?mid] eid by (auto simp: st'(1) mc.present_drop)
qed


text \<open>The entries of both directions share one namespace: once a station's own CALL is pending,
  a CALLRESULT the same station sends with that message id is accepted, published to the modules
  as the response to that action, and removes the entry.\<close>
lemma own_call_taken_for_response:
  assumes "i = createIdentifier (tenant t) [name]"
    and "c_action c \<in> set (ALLOWED_ACTIONS protocol)" and "onCallIsAllowed (c_action c) i st"
    and "validateCall env c protocol = (Inr Valid, c')"
    and "\<not> exists_key (c_messageId c) (Some (tx_namespace i)) (rcache st)"
    and "\<forall>l m. \<exists>conf. broker env l m = Inr conf \<and> conf_success conf"
    and "onCall env i c ts protocol st = (Inr (), c'', st1)"
    and "parse_frame env text = (raw, JNum 3, mid, Inr (RpcCallResult r))" and "cr_messageId r = c_messageId c"
    and "validateCallResult env (c_action c) r protocol = (Valid, r')"
    and "onMessage env i text ts' protocol st1 = (ok, st2)"
  shows "published (log st2) = published (log st1) @
      [buildCallResult (getStationIdFromIdentifier i) (cr_messageId r') (getTenantIdFromIdentifier i) (c_action c)
         (cr_payload r') event_group.Router ChargingStation protocol (iso_of_ms env ts')] \<and>
    \<not> exists_key (c_messageId c) (Some (tx_namespace i)) (rcache st2)"
proof -
  let ?mid = "c_messageId c"
  let ?v = "pending_value (c_action c) (iso_of_ms env ts)"
  obtain conf where conf: "broker env (log st) (call_message env i c' ts protocol) = Inr conf" "conf_success conf"
    using assms(6) by blast
  have "rcache st1 = snd (setIfNotExist ?mid ?v (Some (tx_namespace i)) (Some (maxCallLengthSeconds env)) (rcache st))"
    using assms(7) unfolding onCall_valid [OF assms(2,3,4)] Let_def conf(1) sum.case
    by (auto simp: conf(2))
  then have g: "get_key (cr_messageId r) (Some (tx_namespace i)) (rcache st1) = Some ?v"
    using assms(5,9) by (simp add: mc.put_new_lookup)
  have m: "mapToCallAction protocol (fst (split_at_first ?v)) = Inr (c_action c)"
    using assms(2) by (simp add: split_pending action_no_at mapToCallAction_allowed)
  from onMessage_result [OF assms(8) g m assms(10,11)] show ?thesis
    using assms(9) by (simp add: mc.present_drop)
qed

text \<open>For a station name with a colon the CALLERROR of a failed CALL is looked up under a
  different identifier (the name is cut at the colon) and never sent.\<close>
lemma colon_name_not_answered:
  assumes "i = createIdentifier (tenant t) [name]" and "CHR '':'' \<in> set name"
    and "c_action c \<in> set (ALLOWED_ACTIONS protocol)" and "onCallIsAllowed (c_action c) i st"
    and "validateCall env c protocol = (Inr Valid, c')"
    and "\<not> exists_key (c_messageId c)
          (Some (tx_namespace (createIdentifier (tenant t) [takeWhile (\<lambda>x. x \<noteq> CHR '':'') name]))) (rcache st)"
    and "\<forall>m. case broker env (log st) m of Inr conf \<Rightarrow> \<not> conf_success conf | Inl e \<Rightarrow> True"
    and "onCall env i c ts protocol st = (r, c'', st')"
  shows "attempts (log st') = attempts (log st)"
proof -
  let ?mid = "c_messageId c"
  let ?n = "takeWhile (\<lambda>x. x \<noteq> CHR '':'') name"
  let ?j = "createIdentifier (tenant t) [?n]"
  let ?c1 = "snd (setIfNotExist ?mid (pending_value (c_action c) (iso_of_ms env ts))
     (Some (tx_namespace i)) (Some (maxCallLengthSeconds env)) (rcache st))"
  have parts: "getStationIdFromIdentifier i = ?n" "getTenantIdFromIdentifier i = tenant t"
    by (simp_all add: assms(1) station_id_prefix tenant_id_of_identifier)
  have "?n \<noteq> name" using assms(2) by (metis set_takeWhileD)
  then have "ns_key ?mid (Some (tx_namespace ?j)) \<noteq> ns_key ?mid (Some (tx_namespace i))"
    by (simp add: ns_key_tx assms(1) tx_namespace_def createIdentifier_simp)
  then have "\<not> exists_key ?mid (Some (tx_namespace ?j)) ?c1"
    using assms(6) by (simp add: mc.put_new_eq mc.present_put)
  then have miss: "get_key ?mid (Some (tx_namespace ?j)) ?c1 = None" by (rule mc.absent_lookup)
  obtain e where e: "(case broker env (log st) (call_message env i c' ts protocol) of Inl e \<Rightarrow> Some e
        | Inr conf \<Rightarrow> if conf_success conf then None
            else Some (OcppErr (new_ocpp_error ?mid InternalError ''Call failed''
                   (JObj [(''details'', conf_payload conf)])))) = Some e"
    using spec [OF assms(7), of "call_message env i c' ts protocol"] by (auto split: sum.splits)
  have "send_reply env ?mid ?n (tenant t) protocol (c_action c) rpc (emit f (st\<lparr> rcache := ?c1 \<rparr>))
      = (False, emit f (st\<lparr> rcache := ?c1 \<rparr>))" for rpc f
    by (rule send_reply_miss) (simp add: miss)
  then have "sendCallError env ?mid ?n (tenant t) protocol (c_action c) oe (emit f (st\<lparr> rcache := ?c1 \<rparr>))
      = (False, emit f (st\<lparr> rcache := ?c1 \<rparr>))" for oe f
    by (simp add: sendCallError_def)
  then show ?thesis
    using assms(8) unfolding onCall_valid [OF assms(3,4,5)] Let_def e option.case parts by auto
qed

section \<open>Witnesses\<close>

lemma demo_identifier: "createIdentifier (tenant 1) [''cs1''] = ''1:cs1''"
proof -
  have "nat_str 1 = ''1''" by code_simp
  then show ?thesis unfolding createIdentifier_simp by simp
qed

lemma demo_lookup_empty:
  "exists_key k ns (rcache demo_router) = False" "get_key k ns (rcache demo_router) = None"
  "existsAnyInNamespace n (rcache demo_router) = False"
  by (simp_all add: exists_key_def get_key_def get_raw_def existsAnyInNamespace_def demo_router_def empty_cache_def)

lemma demo_not_rejected: "sendCallIsAllowed env i p c demo_router = Inr True"
  by (simp add: sendCallIsAllowed_def demo_lookup_empty)

lemma demo_env_simps [simp]:
  "networkHook demo_env l i m = True" "text_of_json demo_env v = ''frame''"
  "maxCallLengthSeconds demo_env = 20" "iso_of_ms demo_env = nat_str" "log demo_router = []"
  "broker demo_env l b = Inr \<lparr> conf_success = True, conf_payload = JUndef \<rparr>"
  "broker refusing_env l b = Inr \<lparr> conf_success = False, conf_payload = JUndef \<rparr>"
  "text_of_json refusing_env v = ''frame''"
  by (simp_all add: demo_env_def refusing_env_def demo_router_def)

lemma demo_sendCall:
  "\<exists>st1. sendCall demo_env ''cs1'' (tenant 1) OCPP2_0_1 a (JObj []) ''m1'' demo_router = (Inr True, st1) \<and>
     now (rcache st1) = 0"
proof -
  have "now (snd (set_key k v ns (Some 20) (rcache demo_router))) = 0" for k v ns
    by (simp add: set_key_def set_raw_def Let_def demo_router_def empty_cache_def)
  then show ?thesis
    by (simp add: sendCall_def Let_def demo_not_rejected demo_lookup_empty on_cache_split sendMessage_def)
qed

lemma sendCall_spec_witness:
  "attempts (log (snd (sendCall demo_env ''cs1'' (tenant 1) OCPP2_0_1 ''Reset'' (JObj []) ''m1'' demo_router)))
   = [(''1:cs1'', ''frame'')]"
proof -
  let ?r = "sendCall demo_env ''cs1'' (tenant 1) OCPP2_0_1 ''Reset'' (JObj []) ''m1'' demo_router"
  have "?r = (fst ?r, snd ?r)" by simp
  from sendCall_spec [OF demo_not_rejected demo_identifier [symmetric] this]
  show ?thesis by (simp add: demo_lookup_empty Let_def)
qed

lemma demo_not_expired:
  "now c = 0 \<Longrightarrow> \<forall>d. expiry_of (Some (maxCallLengthSeconds demo_env)) (now (rcache demo_router)) = Some d \<longrightarrow> now c < d"
  by (simp add: expiry_of_def timer_delay_def)

lemma demo_reachable: "cache_reachable (rcache demo_router)"
  by (simp add: demo_router_def cache_reachable.initial)


lemma demo_ajv_simps [simp]: "validator demo_env = demo_ajv" "validator refusing_env = demo_ajv"
  by (simp_all add: demo_env_def refusing_env_def)

lemma demo_actions: "''Reset'' \<in> set (ALLOWED_ACTIONS OCPP2_0_1)" "''Heartbeat'' \<in> set (ALLOWED_ACTIONS OCPP2_0_1)"
  "''Reset'' \<in> set (response_schemas OCPP2_0_1)" "''Heartbeat'' \<in> set (response_schemas OCPP2_0_1)"
  "''Heartbeat'' \<in> set (request_schemas OCPP2_0_1)"
  by (simp_all add: OCPP2_0_1_CallActions_def OCPP_Base_CallActions_def response_schemas_def request_schemas_def
      OCPP2_0_1_CALL_RESULT_SCHEMA_RECORD_def OCPP2_0_1_CALL_SCHEMA_RECORD_def)

lemma demo_result_valid:
  "a \<in> set (response_schemas OCPP2_0_1) \<Longrightarrow>
   validateCallResult demo_env a \<lparr> cr_messageId = ''m1'', cr_payload = JObj [] \<rparr> OCPP2_0_1
   = (Valid, \<lparr> cr_messageId = ''m1'', cr_payload = JObj [] \<rparr>)"
  by (simp add: validateCallResult_def validateOCPPResponse_def demo_ajv_def)

theorem response_matches_call_witness:
  "\<exists>st1. sendCall demo_env ''cs1'' (tenant 1) OCPP2_0_1 ''Reset'' (JObj []) ''m1'' demo_router = (Inr True, st1) \<and>
     length (published (log (snd (onMessage demo_env ''1:cs1'' ''result'' 0 OCPP2_0_1 st1)))) = Suc (length (published (log st1)))"
proof -
  obtain st1 where s: "sendCall demo_env ''cs1'' (tenant 1) OCPP2_0_1 ''Reset'' (JObj []) ''m1'' demo_router = (Inr True, st1)"
    and n: "now (rcache st1) = 0"
    using demo_sendCall by blast
  have o: "onMessage demo_env ''1:cs1'' ''result'' 0 OCPP2_0_1 st1 =
      (fst (onMessage demo_env ''1:cs1'' ''result'' 0 OCPP2_0_1 st1), snd (onMessage demo_env ''1:cs1'' ''result'' 0 OCPP2_0_1 st1))"
    by simp
  have id: "cr_messageId \<lparr> cr_messageId = ''m1'', cr_payload = JObj [] \<rparr> = ''m1''" by simp
  from response_matches_call [OF demo_reachable demo_actions(1) demo_identifier [symmetric] s
      rtranclp.rtrancl_refl demo_not_expired [OF n] demo_parse_result id demo_result_valid [OF demo_actions(3)] o]
  show ?thesis using s by auto
qed

definition heartbeat :: call where
  "heartbeat = new_call ''m1'' ''Heartbeat'' (JObj [])"

lemma demo_parse_call:
  "parse_frame demo_env ''call'' = (JArr [JNum 2, JStr ''m1'', JStr ''Heartbeat'', JObj []], JNum 2, ''m1'', Inr (RpcCall heartbeat))"
  by (simp add: parse_frame_def demo_env_def demo_parse_def call_of_raw_def assertRawFrame_def assertPayload_def
      message_type_ids Let_def heartbeat_def new_call_def)

definition blacklisting_router :: router where
  "blacklisting_router = \<lparr> rcache = snd (set_key ''Heartbeat'' ''blacklisted'' (Some ''1:cs1'') None empty_cache), log = [] \<rparr>"

lemma blacklisted_call_witness:
  "fst (onMessage demo_env ''1:cs1'' ''call'' 0 OCPP2_0_1 blacklisting_router) = False"
proof -
  have e: "exists_key (c_action heartbeat) (Some ''1:cs1'') (rcache blacklisting_router)"
    unfolding blacklisting_router_def router.simps mc.present_put by (simp add: heartbeat_def new_call_def)
  have a: "c_action heartbeat \<in> set (ALLOWED_ACTIONS OCPP2_0_1)"
    using demo_actions(2) by (simp add: heartbeat_def new_call_def)
  show ?thesis
    using blacklisted_call [OF demo_parse_call a e, of 0] by (metis fst_conv prod.exhaust)
qed

lemma heartbeat_valid:
  "validator env = demo_ajv \<Longrightarrow> validateCall env heartbeat OCPP2_0_1 = (Inr Valid, heartbeat)"
  using demo_actions(5)
  by (simp add: validateCall_def heartbeat_def new_call_def sanitizeOCPPPayload_def validateOCPPRequest_def
      applyRuntimeCompatibilityPatches_def demo_ajv_def Let_def)

lemma heartbeat_fields: "c_messageId heartbeat = ''m1''" "c_action heartbeat = ''Heartbeat''"
  by (simp_all add: heartbeat_def new_call_def)

lemma demo_allowed: "onCallIsAllowed a i demo_router"
  by (simp add: onCallIsAllowed_def demo_lookup_empty)

lemma failed_call_answered_witness:
  "attempts (log (snd (snd (onCall refusing_env ''1:cs1'' heartbeat 0 OCPP2_0_1 demo_router)))) = [(''1:cs1'', ''frame'')]"
proof -
  obtain r c st' where o: "onCall refusing_env ''1:cs1'' heartbeat 0 OCPP2_0_1 demo_router = (r, c, st')"
    by (metis prod.exhaust)
  have "c_action heartbeat \<in> set (ALLOWED_ACTIONS OCPP2_0_1)" using demo_actions(2) by (simp add: heartbeat_fields)
  from failed_call_answered [OF demo_identifier [symmetric] _ this demo_allowed heartbeat_valid _ _ o]
  show ?thesis by (auto simp: demo_lookup_empty o)
qed

lemma own_call_taken_for_response_witness:
  "\<exists>st1. onCall demo_env ''1:cs1'' heartbeat 0 OCPP2_0_1 demo_router = (Inr (), heartbeat, st1) \<and>
     length (published (log (snd (onMessage demo_env ''1:cs1'' ''result'' 0 OCPP2_0_1 st1)))) = Suc (length (published (log st1)))"
proof -
  have a: "c_action heartbeat \<in> set (ALLOWED_ACTIONS OCPP2_0_1)" using demo_actions(2) by (simp add: heartbeat_fields)
  obtain st1 where s: "onCall demo_env ''1:cs1'' heartbeat 0 OCPP2_0_1 demo_router = (Inr (), heartbeat, st1)"
    by (simp add: onCall_valid [OF a demo_allowed heartbeat_valid] Let_def)
  have o: "onMessage demo_env ''1:cs1'' ''result'' 0 OCPP2_0_1 st1 =
      (fst (onMessage demo_env ''1:cs1'' ''result'' 0 OCPP2_0_1 st1), snd (onMessage demo_env ''1:cs1'' ''result'' 0 OCPP2_0_1 st1))"
    by simp
  have id: "cr_messageId \<lparr> cr_messageId = ''m1'', cr_payload = JObj [] \<rparr> = c_messageId heartbeat"
    by (simp add: heartbeat_fields)
  have v: "c_action heartbeat \<in> set (response_schemas OCPP2_0_1)" using demo_actions(4) by (simp add: heartbeat_fields)
  from own_call_taken_for_response [OF demo_identifier [symmetric] a demo_allowed heartbeat_valid _ _ s
      demo_parse_result id demo_result_valid [OF v] o]
  show ?thesis using s by (auto simp: demo_lookup_empty)
qed


lemma colon_name_not_answered_witness:
  "attempts (log (snd (snd (onCall refusing_env (createIdentifier (tenant 1) [''a:b'']) heartbeat 0 OCPP2_0_1 demo_router)))) = []"
proof -
  obtain r c st' where o: "onCall refusing_env (createIdentifier (tenant 1) [''a:b'']) heartbeat 0 OCPP2_0_1 demo_router = (r, c, st')"
    by (metis prod.exhaust)
  have a: "c_action heartbeat \<in> set (ALLOWED_ACTIONS OCPP2_0_1)" using demo_actions(2) by (simp add: heartbeat_fields)
  have "attempts (log st') = attempts (log demo_router)"
    by (rule colon_name_not_answered [OF refl _ a demo_allowed heartbeat_valid _ _ o]) (simp_all add: demo_lookup_empty)
  then show ?thesis unfolding o by simp
qed

end
