(* ===== verification/SendCallRace.thy ===== *)
theory SendCallRace
  imports Router
begin

text \<open>
  Concurrent calls of sendCall (packages/core/src/modules/OcppRouter/src/module/router.ts) to one
  station. The function awaits the check that no call is in progress and then, in a later
  task, registers its own: between two awaits other calls may run. A state is the cache, the
  frames written and the program counter of each call; one step runs one call from an await
  to the next. The network hook is taken to succeed.
\<close>

datatype pc =
    Begin       \<comment> \<open>before the check of existsAnyInNamespace\<close>
  | Checked     \<comment> \<open>the check found no call in progress; set is the next step\<close>
  | Registered  \<comment> \<open>the entry is in the cache; the frame is the next step\<close>
  | Sent
  | Refused

record sending =
  sc_id :: string
  sc_value :: string
  sc_pc :: pc

record race_state =
  race_cache :: mem_cache
  race_calls :: "sending list"
  race_frames :: "string list"

definition start_race :: "mem_cache \<Rightarrow> (string \<times> string) list \<Rightarrow> race_state" where
  "start_race c ids = \<lparr> race_cache = c,
     race_calls = map (\<lambda>(k, v). \<lparr> sc_id = k, sc_value = v, sc_pc = Begin \<rparr>) ids, race_frames = [] \<rparr>"

text \<open>Running the call at position n from its await to the next one.\<close>

definition run_call :: "string \<Rightarrow> int \<Rightarrow> nat \<Rightarrow> race_state \<Rightarrow> race_state" where
  "run_call i maxlen n s =
     (if n < length (race_calls s)
      then let c = race_calls s ! n in
        (case sc_pc c of
           Begin \<Rightarrow>
             s\<lparr> race_calls := (race_calls s)[n := c\<lparr> sc_pc :=
                  if existsAnyInNamespace (tx_namespace i) (race_cache s) then Refused else Checked \<rparr>] \<rparr>
         | Checked \<Rightarrow>
             s\<lparr> race_cache := snd (set_key (sc_id c) (sc_value c) (Some (tx_namespace i)) (Some maxlen) (race_cache s)),
                race_calls := (race_calls s)[n := c\<lparr> sc_pc := Registered \<rparr>] \<rparr>
         | Registered \<Rightarrow>
             s\<lparr> race_calls := (race_calls s)[n := c\<lparr> sc_pc := Sent \<rparr>],
                race_frames := race_frames s @ [sc_id c] \<rparr>
         | _ \<Rightarrow> s)
      else s)"

inductive race_step :: "string \<Rightarrow> int \<Rightarrow> race_state \<Rightarrow> race_state \<Rightarrow> bool" for i maxlen where
  run: "n < length (race_calls s) \<Longrightarrow> race_step i maxlen s (run_call i maxlen n s)"

inductive_simps race_step_iff: "race_step i maxlen s s'"

text \<open>A schedule is the order in which the calls get to run.\<close>

definition run_schedule :: "string \<Rightarrow> int \<Rightarrow> nat list \<Rightarrow> race_state \<Rightarrow> race_state" where
  "run_schedule i maxlen sched s = fold (run_call i maxlen) sched s"

lemma run_schedule_reachable:
  "(race_step i maxlen)\<^sup>*\<^sup>* s (run_schedule i maxlen sched s)"
proof (induction sched arbitrary: s)
  case (Cons n sched)
  have "(race_step i maxlen)\<^sup>*\<^sup>* s (run_call i maxlen n s)"
  proof (cases "n < length (race_calls s)")
    case True
    then show ?thesis by (intro r_into_rtranclp run)
  next
    case False
    then show ?thesis by (simp add: run_call_def)
  qed
  then show ?case
    using Cons.IH [of "run_call i maxlen n s"] by (simp add: run_schedule_def)
qed (simp add: run_schedule_def)

section \<open>What holds under every interleaving\<close>

text \<open>Every frame belongs to a call that found the station free, and a registered call is pending.\<close>

definition race_inv :: "string \<Rightarrow> race_state \<Rightarrow> bool" where
  "race_inv i s \<longleftrightarrow>
     (\<forall>c \<in> set (race_calls s). sc_pc c \<in> {Registered, Sent} \<longrightarrow>
        exists_key (sc_id c) (Some (tx_namespace i)) (race_cache s)) \<and>
     (\<forall>k \<in> set (race_frames s). \<exists>c \<in> set (race_calls s). sc_id c = k \<and> sc_pc c = Sent)"

lemma race_inv_update:
  assumes inv: "race_inv i s" and n: "n < length (race_calls s)"
    and c': "sc_id c' = sc_id (race_calls s ! n)"
    and sent: "sc_pc (race_calls s ! n) = Sent \<Longrightarrow> sc_pc c' = Sent"
    and reg: "sc_pc c' \<in> {Registered, Sent} \<Longrightarrow> exists_key (sc_id c') (Some (tx_namespace i)) cache'"
    and mono: "\<And>k. exists_key k (Some (tx_namespace i)) (race_cache s) \<Longrightarrow> exists_key k (Some (tx_namespace i)) cache'"
    and fr: "set frames' \<subseteq> set (race_frames s) \<union> (if sc_pc c' = Sent then {sc_id c'} else {})"
  shows "race_inv i (s\<lparr> race_cache := cache', race_calls := (race_calls s)[n := c'], race_frames := frames' \<rparr>)"
proof -
  have A: "exists_key (sc_id c) (Some (tx_namespace i)) cache'"
    if c: "c \<in> set ((race_calls s)[n := c'])" "sc_pc c \<in> {Registered, Sent}" for c
  proof -
    have "c = c' \<or> c \<in> set (race_calls s)" using c(1) set_update_subset_insert by fastforce
    then show ?thesis using reg mono inv c(2) by (auto simp: race_inv_def)
  qed
  have B: "\<exists>c \<in> set ((race_calls s)[n := c']). sc_id c = k \<and> sc_pc c = Sent" if k: "k \<in> set frames'" for k
  proof -
    consider "k \<in> set (race_frames s)" | "sc_pc c' = Sent" "k = sc_id c'"
      using k fr by (auto split: if_splits)
    then show ?thesis
    proof cases
      case 1
      then obtain c where "c \<in> set (race_calls s)" "sc_id c = k" "sc_pc c = Sent"
        using inv unfolding race_inv_def by blast
      then obtain m where m: "m < length (race_calls s)" "sc_id (race_calls s ! m) = k" "sc_pc (race_calls s ! m) = Sent"
        by (auto simp: in_set_conv_nth)
      then have "(race_calls s)[n := c'] ! m = (if m = n then c' else race_calls s ! m)" by simp
      with m show ?thesis using c' sent by (metis length_list_update nth_mem)
    next
      case 2
      then show ?thesis using n by (metis set_update_memI)
    qed
  qed
  show ?thesis using A B by (simp add: race_inv_def)
qed

lemma race_inv_step: "race_inv i s \<Longrightarrow> race_step i maxlen s s' \<Longrightarrow> race_inv i s'"
proof -
  assume inv: "race_inv i s" and st: "race_step i maxlen s s'"
  from st obtain n where n: "n < length (race_calls s)" and s': "s' = run_call i maxlen n s"
    by (auto simp: race_step_iff)
  let ?c = "race_calls s ! n"
  have same: "s\<lparr> race_calls := (race_calls s)[n := c'] \<rparr> =
      s\<lparr> race_cache := race_cache s, race_calls := (race_calls s)[n := c'], race_frames := race_frames s \<rparr>" for c'
    by simp
  show ?thesis
  proof (cases "sc_pc ?c")
    case Begin
    then show ?thesis
      unfolding s' run_call_def Let_def using n
      by (simp only: if_True pc.case Begin same) (rule race_inv_update [OF inv n]; simp add: Begin split: if_splits)
  next
    case Checked
    have "race_inv i (s\<lparr> race_cache := snd (set_key (sc_id ?c) (sc_value ?c) (Some (tx_namespace i)) (Some maxlen) (race_cache s)),
        race_calls := (race_calls s)[n := ?c\<lparr> sc_pc := Registered \<rparr>], race_frames := race_frames s \<rparr>)"
      by (rule race_inv_update [OF inv n]) (auto simp: Checked mc.present_put)
    then show ?thesis unfolding s' run_call_def Let_def using n Checked by simp
  next
    case Registered
    have "race_inv i (s\<lparr> race_cache := race_cache s, race_calls := (race_calls s)[n := ?c\<lparr> sc_pc := Sent \<rparr>],
        race_frames := race_frames s @ [sc_id ?c] \<rparr>)"
      using inv n Registered by (intro race_inv_update [OF inv n]) (auto simp: race_inv_def)
    then show ?thesis unfolding s' run_call_def Let_def using n Registered by simp
  qed (use inv n in \<open>simp_all add: s' run_call_def Let_def\<close>)
qed

lemma race_inv_start: "race_inv i (start_race c ids)"
  by (auto simp: race_inv_def start_race_def)

interpretation race_machine: transition_system "race_step i maxlen" "start_race c ids" "race_inv i" for i maxlen c ids
  by unfold_locales (rule race_inv_start, rule race_inv_step)

lemma sent_pending:
  "(race_step i maxlen)\<^sup>*\<^sup>* (start_race c ids) s \<Longrightarrow> k \<in> set (race_frames s) \<Longrightarrow>
   exists_key k (Some (tx_namespace i)) (race_cache s)"
  by (drule race_machine.reachable) (auto simp: race_inv_def)



section \<open>The race\<close>

text \<open>Two concurrent sendCalls to a free station can both find it free and both write their
  CALL: the schedule that runs both checks before the first registration sends both frames.\<close>
lemma two_calls_in_flight:
  assumes "\<not> existsAnyInNamespace (tx_namespace i) c"
  shows "\<exists>s. (race_step i maxlen)\<^sup>*\<^sup>* (start_race c [(k, v), (k', v')]) s \<and>
    race_frames s = [k, k'] \<and>
    exists_key k (Some (tx_namespace i)) (race_cache s) \<and> exists_key k' (Some (tx_namespace i)) (race_cache s)"
proof -
  let ?s = "run_schedule i maxlen [0, 1, 0, 1, 0, 1] (start_race c [(k, v), (k', v')])"
  have f: "race_frames ?s = [k, k']"
    using assms by (simp add: run_schedule_def run_call_def start_race_def)
  note r = run_schedule_reachable [of i maxlen "start_race c [(k, v), (k', v')]" "[0, 1, 0, 1, 0, 1]"]
  have "exists_key k (Some (tx_namespace i)) (race_cache ?s)" "exists_key k' (Some (tx_namespace i)) (race_cache ?s)"
    by (rule sent_pending [OF r], unfold f, simp)+
  then show ?thesis using r f by blast
qed

lemma two_calls_in_flight_witness:
  "\<exists>s. (race_step ''1:s'' 20)\<^sup>*\<^sup>* (start_race empty_cache [(''a'', ''x''), (''b'', ''y'')]) s \<and> race_frames s = [''a'', ''b'']"
  using two_calls_in_flight [of "''1:s''" empty_cache 20 "''a''" "''x''" "''b''" "''y''"]
  by (auto simp: existsAnyInNamespace_def empty_cache_def)

text \<open>Without interleaving the check does its work: run one after the other to completion, the
  second of two sendCalls is refused and its frame is not written.\<close>
lemma sequential_calls_refused:
  assumes "\<not> existsAnyInNamespace (tx_namespace i) c"
  shows "race_frames (run_schedule i maxlen [0, 0, 0, 1, 1, 1] (start_race c [(k, v), (k', v')])) = [k]"
proof -
  have "existsAnyInNamespace (tx_namespace i) (snd (set_key k v (Some (tx_namespace i)) e c))" for e
    by (auto simp: existsAny_slot mc.present_put)
  then show ?thesis
    using assms by (simp add: run_schedule_def run_call_def start_race_def)
qed

lemma sequential_calls_refused_witness:
  "race_frames (run_schedule ''1:s'' 20 [0, 0, 0, 1, 1, 1] (start_race empty_cache [(''a'', ''x''), (''b'', ''y'')])) = [''a'']"
  using sequential_calls_refused [of "''1:s''" empty_cache 20 "''a''" "''x''" "''b''" "''y''"]
  by (simp add: existsAnyInNamespace_def empty_cache_def)

end
