(* ===== verification/BootNotification.thy ===== *)
theory BootNotification
  imports Router
begin

text \<open>
  Boot notifications: packages/core/src/modules/Configuration/src/module/BootNotificationService.ts
  and the OCPP 2 handler, packages/core/src/handlers/requests/2/BootNotificationRequestOcpp2Handler.ts.
  The state is the cache, the Boot row of the station and the calls handed to the sender. The
  answers of the outside (the confirmation of the sender, the successive values onChange
  resolves to, the responses of the station to SetVariables) are the record boot_env. Registration
  statuses are the strings Accepted, Pending and Rejected, as in both versions of the protocol.
\<close>

section \<open>Configuration and state\<close>

record boot =
  b_status :: string
  b_statusInfo :: jsval
  b_lastBootTime :: "string option"
  b_heartbeatInterval :: "int option"
  b_bootRetryInterval :: "int option"
  b_getBaseReportOnPending :: "bool option"
  b_pendingSetVariables :: nat   \<comment> \<open>length of pendingBootSetVariables\<close>
  b_bootWithRejectedVariables :: "bool option"
  b_getConfigurationsOnPending :: "bool option"
  b_changeConfigurationsOnPending :: "bool option"

record boot_config =
  unknownChargerStatus :: string
  cfg_getBaseReportOnPending :: bool
  cfg_bootWithRejectedVariables :: bool
  autoAccept :: bool
  unknownChargerStatus16 :: string
  cfg_heartbeatInterval :: int
  cfg_bootRetryInterval :: int
  maxCachingSeconds :: int

record boot_response =
  br_currentTime :: string
  br_status :: string
  br_statusInfo :: jsval
  br_interval :: int

definition toRegistrationStatus :: "string \<Rightarrow> exn + string" where
  "toRegistrationStatus status =
     (if status \<in> {''Accepted'', ''Pending'', ''Rejected''} then Inr status
      else Inl (JsErr ''Invalid status: '' [JStr status]))"

definition toStatusInfo :: "jsval \<Rightarrow> jsval" where
  "toStatusInfo info =
     (if \<not> truthy info then info
      else JObj [(''customData'', js_prop ''customData'' info), (''reasonCode'', js_prop ''reasonCode'' info),
                 (''additionalInfo'', js_prop ''additionalInfo'' info)])"

section \<open>Deciding the status\<close>

definition determineBootStatus :: "boot_config \<Rightarrow> boot option \<Rightarrow> exn + string" where
  "determineBootStatus cfg bootConfig =
     bind_res (case bootConfig of Some b \<Rightarrow> toRegistrationStatus (b_status b) | None \<Rightarrow> Inr (unknownChargerStatus cfg))
       (\<lambda>bootStatus.
         if bootStatus = ''Pending''
         then let needToGetBaseReport =
                    (case bootConfig of
                       Some b \<Rightarrow> (case b_getBaseReportOnPending b of Some g \<Rightarrow> g | None \<Rightarrow> cfg_getBaseReportOnPending cfg)
                     | None \<Rightarrow> cfg_getBaseReportOnPending cfg);
                  needToSetVariables = (case bootConfig of Some b \<Rightarrow> 0 < b_pendingSetVariables b | None \<Rightarrow> False)
              in Inr (if \<not> needToGetBaseReport \<and> \<not> needToSetVariables \<and> autoAccept cfg
                      then ''Accepted'' else bootStatus)
         else Inr bootStatus)"

definition determineOcpp16BootStatus :: "boot_config \<Rightarrow> boot option \<Rightarrow> exn + string" where
  "determineOcpp16BootStatus cfg bootConfig =
     bind_res (case bootConfig of Some b \<Rightarrow> toRegistrationStatus (b_status b) | None \<Rightarrow> Inr (unknownChargerStatus16 cfg))
       (\<lambda>bootStatus.
         if bootStatus = ''Pending''
         then let needToGet = (case bootConfig of
                     Some b \<Rightarrow> (case b_getConfigurationsOnPending b of Some g \<Rightarrow> g | None \<Rightarrow> True) | None \<Rightarrow> True);
                  needToChange = (case bootConfig of
                     Some b \<Rightarrow> (case b_changeConfigurationsOnPending b of Some g \<Rightarrow> g | None \<Rightarrow> True) | None \<Rightarrow> True)
              in Inr (if \<not> needToGet \<and> \<not> needToChange then ''Accepted'' else bootStatus)
         else Inr bootStatus)"

text \<open>a || b on numbers that may be null.\<close>

definition or_default :: "int option \<Rightarrow> int \<Rightarrow> int" where
  "or_default x d = (case x of Some i \<Rightarrow> if i = 0 then d else i | None \<Rightarrow> d)"

definition response_interval :: "boot_config \<Rightarrow> boot option \<Rightarrow> string \<Rightarrow> int" where
  "response_interval cfg b status =
     (if status = ''Accepted''
      then or_default (case b of Some x \<Rightarrow> b_heartbeatInterval x | None \<Rightarrow> None) (cfg_heartbeatInterval cfg)
      else or_default (case b of Some x \<Rightarrow> b_bootRetryInterval x | None \<Rightarrow> None) (cfg_bootRetryInterval cfg))"

definition createBootNotificationResponse :: "boot_config \<Rightarrow> boot option \<Rightarrow> string \<Rightarrow> exn + boot_response" where
  "createBootNotificationResponse cfg b time =
     bind_res (determineBootStatus cfg b) (\<lambda>status.
       Inr \<lparr> br_currentTime = time, br_status = status,
             br_statusInfo = (case b of Some x \<Rightarrow> toStatusInfo (b_statusInfo x) | None \<Rightarrow> JUndef),
             br_interval = response_interval cfg b status \<rparr>)"

definition createOcpp16BootNotificationResponse :: "boot_config \<Rightarrow> boot option \<Rightarrow> string \<Rightarrow> exn + boot_response" where
  "createOcpp16BootNotificationResponse cfg b time =
     bind_res (determineOcpp16BootStatus cfg b) (\<lambda>status.
       Inr \<lparr> br_currentTime = time, br_status = status, br_statusInfo = JUndef,
             br_interval = response_interval cfg b status \<rparr>)"

definition new_boot :: "string \<Rightarrow> jsval \<Rightarrow> boot" where
  "new_boot status info =
     \<lparr> b_status = status, b_statusInfo = info, b_lastBootTime = None, b_heartbeatInterval = None,
       b_bootRetryInterval = None, b_getBaseReportOnPending = None, b_pendingSetVariables = 0,
       b_bootWithRejectedVariables = None, b_getConfigurationsOnPending = None,
       b_changeConfigurationsOnPending = None \<rparr>"

definition updateBootConfig :: "boot_response \<Rightarrow> boot option \<Rightarrow> boot" where
  "updateBootConfig r b =
     (case b of Some x \<Rightarrow> x | None \<Rightarrow> new_boot (br_status r) (br_statusInfo r))
       \<lparr> b_lastBootTime := Some (br_currentTime r) \<rparr>"

definition updateOcpp16BootConfig :: "boot_response \<Rightarrow> boot option \<Rightarrow> boot" where
  "updateOcpp16BootConfig r b =
     (let accepted = (br_status r = ''Accepted'');
          x = (case b of Some x \<Rightarrow> x | None \<Rightarrow> new_boot (br_status r) JUndef)
      in x\<lparr> b_status := br_status r,
            b_heartbeatInterval := (if accepted then Some (br_interval r) else b_heartbeatInterval x),
            b_bootRetryInterval := (if accepted then b_bootRetryInterval x else Some (br_interval r)),
            b_lastBootTime := Some (br_currentTime r) \<rparr>)"

section \<open>Permissions in the cache\<close>

definition remove_all :: "string list \<Rightarrow> string \<Rightarrow> mem_cache \<Rightarrow> mem_cache" where
  "remove_all ks name c = fold (\<lambda>k c. snd (remove_key k (Some name) c)) ks c"

definition blacklist_all :: "string list \<Rightarrow> string \<Rightarrow> mem_cache \<Rightarrow> mem_cache" where
  "blacklist_all ks name c = fold (\<lambda>k c. snd (set_key k ''blacklisted'' (Some name) None c)) ks c"

definition except_boot :: "string list \<Rightarrow> string list" where
  "except_boot ks = filter (\<lambda>k. k \<noteq> ''BootNotification'') ks"

text \<open>The cached status is what get returned: never the empty string.\<close>

definition cacheChargerActionsPermissions ::
  "string \<Rightarrow> string option \<Rightarrow> string \<Rightarrow> mem_cache \<Rightarrow> mem_cache" where
  "cacheChargerActionsPermissions name cachedBootStatus status c =
     (if status = ''Accepted''
      then (if cachedBootStatus \<noteq> None
            then snd (remove_key BOOT_STATUS (Some name)
                        (remove_all (except_boot OCPP2_0_1_CALL_SCHEMA_RECORD) name c))
            else c)
      else if cachedBootStatus = None
      then blacklist_all (except_boot OCPP2_0_1_CALL_SCHEMA_RECORD) name c
      else c)"

text \<open>For OCPP 1.6 the callback that lifts the blacklist destructures each key, which binds action
  to its first character.\<close>

definition cacheOcpp16ChargerActionsPermissions ::
  "string \<Rightarrow> string option \<Rightarrow> string \<Rightarrow> mem_cache \<Rightarrow> mem_cache" where
  "cacheOcpp16ChargerActionsPermissions name cachedBootStatus status c =
     (if status = ''Accepted''
      then (if cachedBootStatus \<noteq> None
            then snd (remove_key BOOT_STATUS (Some name)
                        (remove_all (except_boot (map (take 1) OCPP1_6_CALL_SCHEMA_RECORD)) name c))
            else c)
      else if cachedBootStatus = None
      then blacklist_all (except_boot OCPP1_6_CALL_SCHEMA_RECORD) name c
      else c)"

text \<open>Caching the status of the response, after the response was sent.\<close>

definition cache_boot_status :: "string \<Rightarrow> string option \<Rightarrow> string \<Rightarrow> mem_cache \<Rightarrow> mem_cache" where
  "cache_boot_status name cachedBootStatus status c =
     (if status \<noteq> ''Accepted'' \<and> (cachedBootStatus = None \<or> Some status \<noteq> cachedBootStatus)
      then snd (set_key BOOT_STATUS status (Some name) None c) else c)"

section \<open>SetVariables\<close>

text \<open>slice(0, n) and slice(n): n is truncated, NaN counts as 0, a negative n counts from the end.\<close>

definition slice_index :: "js_num \<Rightarrow> nat \<Rightarrow> nat" where
  "slice_index n len =
     (case n of
        NaN \<Rightarrow> 0
      | Inf b \<Rightarrow> if b then len else 0
      | Fin q \<Rightarrow>
          (let k = (if 0 \<le> q then \<lfloor>q\<rfloor> else \<lceil>q\<rceil>) in
           if 0 \<le> k then min (nat k) len else len - nat (- k)))"

definition slice_to :: "js_num \<Rightarrow> 'a list \<Rightarrow> 'a list" where
  "slice_to n xs = take (slice_index n (length xs)) xs"

definition slice_from :: "js_num \<Rightarrow> 'a list \<Rightarrow> 'a list" where
  "slice_from n xs = drop (slice_index n (length xs)) xs"

text \<open>Number of the value of the first attribute; null when there is none. A value that is null is 0.\<close>

definition getItemsPerMessage :: "string option list \<Rightarrow> js_num option" where
  "getItemsPerMessage attributes =
     (case attributes of
        [] \<Rightarrow> None
      | v # _ \<Rightarrow> Some (case v of None \<Rightarrow> Fin 0 | Some s \<Rightarrow> js_number s))"

text \<open>The loop that sends the variables: the batches it sent, and how it ended. The response to
  batch k is the list of its attribute statuses, or None when onChange gave no value. A loop
  that never returns is None. The code skips reading a response once both flags are set, which
  leaves them set; here they are joined with the statuses of every response.\<close>

partial_function (option) set_variables_loop ::
  "(nat \<Rightarrow> 'v list \<Rightarrow> string list option) \<Rightarrow> js_num \<Rightarrow> nat \<Rightarrow> 'v list \<Rightarrow> bool \<Rightarrow> bool \<Rightarrow>
   ('v list list \<times> (exn + bool \<times> bool)) option" where
  "set_variables_loop respond n k data rejected reboot =
     (if data = [] then Some ([], Inr (rejected, reboot))
      else (case respond k (slice_to n data) of
              None \<Rightarrow> Some ([slice_to n data], Inl (JsErr ''SetVariables response not found'' []))
            | Some statuses \<Rightarrow>
                Option.bind
                  (set_variables_loop respond n (Suc k) (slice_from n data)
                     (rejected \<or> ''Rejected'' \<in> set statuses)
                     (reboot \<or> ''RebootRequired'' \<in> set statuses))
                  (\<lambda>(batches, r). Some (slice_to n data # batches, r))))"

section \<open>The handler\<close>

datatype boot_effect =
    BootResult boot_response
  | StationUpdate
  | CsmsCall string jsval       \<comment> \<open>action and payload of a call handed to the sender\<close>
  | SetVariablesCall "string list"

record boot_env =
  bcfg :: boot_config
  result_sent :: bool           \<comment> \<open>success of the confirmation of the boot result\<close>
  unknown_allowed :: bool       \<comment> \<open>allowUnknownChargingStations of the cached connection\<close>
  station_known :: bool
  report_sent :: bool
  report_values :: "string option list"  \<comment> \<open>what successive onChange calls resolve to\<close>
  items_attributes :: "string option list"
  variables :: "string list"             \<comment> \<open>readAllSetVariableByStationId\<close>
  variables_response :: "nat \<Rightarrow> string list \<Rightarrow> string list option"

record boot_state =
  bt_cache :: mem_cache
  bt_row :: "boot option"
  bt_effects :: "boot_effect list"

definition bt_emit :: "boot_effect \<Rightarrow> boot_state \<Rightarrow> boot_state" where
  "bt_emit e s = s\<lparr> bt_effects := bt_effects s @ [e] \<rparr>"

text \<open>confirmGetBaseReportSuccess: waits while the value is ongoing. None: still waiting.\<close>

fun await_report :: "string option list \<Rightarrow> (exn + unit) option" where
  "await_report [] = None"
| "await_report (v # vs) =
     (if v = Some ''ongoing'' then await_report vs
      else if v = Some ''complete'' then Some (Inr ())
      else Some (Inl (JsErr ''GetBaseReport process failed--message timed out without a response.'' [])))"

definition confirmGetBaseReportSuccess :: "bool \<Rightarrow> string option list \<Rightarrow> (exn + unit) option" where
  "confirmGetBaseReportSuccess ok vs =
     (if ok then await_report vs else Some (Inl (JsErr ''GetBaseReport failed: '' [])))"

definition createGetBaseReportRequest :: "string \<Rightarrow> int \<Rightarrow> mem_cache \<Rightarrow> jsval \<times> mem_cache" where
  "createGetBaseReportRequest name secs c =
     (JObj [(''requestId'', JNum 0), (''reportBase'', JStr ''FullInventory'')],
      snd (set_key ''0'' ''ongoing'' (Some name) (Some secs) c))"

text \<open>The report part: the new state and whether the handler goes on; None while waiting.\<close>

definition base_report_part :: "boot_env \<Rightarrow> string \<Rightarrow> boot \<Rightarrow> boot_state \<Rightarrow> ((exn + boot) \<times> boot_state) option" where
  "base_report_part env name row s =
     (if (case b_getBaseReportOnPending row of Some g \<Rightarrow> g | None \<Rightarrow> cfg_getBaseReportOnPending (bcfg env))
      then let c = snd (remove_key ''NotifyReport'' (Some name) (bt_cache s));
               (req, c) = createGetBaseReportRequest name (maxCachingSeconds (bcfg env)) c;
               s = bt_emit (CsmsCall ''GetBaseReport'' req) (s\<lparr> bt_cache := c \<rparr>)
           in (case confirmGetBaseReportSuccess (report_sent env) (report_values env) of
                 None \<Rightarrow> None
               | Some (Inl e) \<Rightarrow> Some (Inl e, s)
               | Some (Inr u) \<Rightarrow>
                   let row = row\<lparr> b_getBaseReportOnPending := Some False \<rparr>
                   in Some (Inr row, s\<lparr> bt_row := Some row \<rparr>))
      else Some (Inr row, s))"

text \<open>The variables part: Inr (row, reboot) when the handler goes on, Inr with None when it is done.\<close>

definition set_variables_part ::
  "boot_env \<Rightarrow> boot \<Rightarrow> boot_state \<Rightarrow> ((exn + (boot \<times> bool) option) \<times> boot_state) option" where
  "set_variables_part env row s =
     (if 0 < b_pendingSetVariables row
      then let n = (case getItemsPerMessage (items_attributes env) of
                      Some n \<Rightarrow> n | None \<Rightarrow> Fin (of_nat (length (variables env))))
           in (case set_variables_loop (variables_response env) n 0 (variables env) False False of
                 None \<Rightarrow> None
               | Some (batches, r) \<Rightarrow>
                   let s = fold (\<lambda>b. bt_emit (SetVariablesCall b)) batches s in
                   (case r of
                      Inl e \<Rightarrow> Some (Inl e, s)
                    | Inr (rejected, reboot) \<Rightarrow>
                        if rejected \<and> \<not> (case b_bootWithRejectedVariables row of
                              Some x \<Rightarrow> x | None \<Rightarrow> cfg_bootWithRejectedVariables (bcfg env))
                        then let row = row\<lparr> b_status := ''Rejected'' \<rparr>
                             in Some (Inr None, s\<lparr> bt_row := Some row \<rparr>)
                        else Some (Inr (Some (row, reboot)), s)))
      else Some (Inr (Some (row, False)), s))"

text \<open>What follows the report: the variables, automatic acceptance and the reboot.\<close>

definition configuration_rest :: "boot_env \<Rightarrow> boot \<Rightarrow> boot_state \<Rightarrow> ((exn + unit) \<times> boot_state) option" where
  "configuration_rest env row s =
     Option.bind (set_variables_part env row s) (\<lambda>(r, s).
       case r of
         Inl e \<Rightarrow> Some (Inl e, s)
       | Inr None \<Rightarrow> Some (Inr (), s)
       | Inr (Some (row, reboot)) \<Rightarrow>
           let s = (if autoAccept (bcfg env)
                    then s\<lparr> bt_row := Some (row\<lparr> b_status := ''Accepted'' \<rparr>) \<rparr> else s);
               s = (if reboot then bt_emit (CsmsCall ''Reset''
                      (JObj [(''type'', JStr ''Immediate'')])) s else s)
           in Some (Inr (), s))"

definition handleBootNotification ::
  "boot_env \<Rightarrow> string \<Rightarrow> string \<Rightarrow> boot_state \<Rightarrow> ((exn + unit) \<times> boot_state) option" where
  "handleBootNotification env name time s =
     (case createBootNotificationResponse (bcfg env) (bt_row s) time of
        Inl e \<Rightarrow> Some (Inl e, s)
      | Inr response \<Rightarrow>
          let cached = get_key BOOT_STATUS (Some name) (bt_cache s);
              status = br_status response;
              s = s\<lparr> bt_cache := cacheChargerActionsPermissions name cached status (bt_cache s) \<rparr>;
              s = bt_emit (BootResult response) s;
              s = (if unknown_allowed env \<or> station_known env then bt_emit StationUpdate s else s)
          in if \<not> result_sent env then Some (Inl (JsErr ''BootNotification failed: '' []), s)
             else
               let s = s\<lparr> bt_cache := cache_boot_status name cached status (bt_cache s) \<rparr>;
                   row = updateBootConfig response (bt_row s);
                   s = s\<lparr> bt_row := Some row \<rparr>
               in if status \<noteq> ''Pending'' \<or> cached = Some ''Pending'' then Some (Inr (), s)
                  else Option.bind (base_report_part env name row s) (\<lambda>(r, s).
                    case r of
                      Inl e \<Rightarrow> Some (Inl e, s)
                    | Inr row \<Rightarrow> configuration_rest env row s))"

section \<open>Lemmas\<close>

lemma ns_key_inj [simp]: "ns_key a (Some n) = ns_key b (Some n) \<longleftrightarrow> a = b"
  by (cases n) (simp_all add: ns_key_def)

lemma ns_key_name: "n \<noteq> [] \<Longrightarrow> ns_key k (Some n) = n @ CHR '':'' # k"
  by (cases n) simp_all

lemma map_of_remove: "map_of (cache (snd (remove_key k ns c))) = (map_of (cache c))(ns_key k ns := None)"
  by (simp add: remove_key_def delete_conv')

lemma map_of_set: "map_of (cache (snd (set_key k v ns e c))) = (map_of (cache c))(ns_key k ns \<mapsto> v)"
  by (simp add: set_key_def cache_set_raw)

lemma remove_all_map:
  "map_of (cache (remove_all ks n c)) k =
   (if k \<in> (\<lambda>x. ns_key x (Some n)) ` set ks then None else map_of (cache c) k)"
  by (induction ks arbitrary: c) (auto simp: remove_all_def map_of_remove)

lemma blacklist_all_map:
  "map_of (cache (blacklist_all ks n c)) k =
   (if k \<in> (\<lambda>x. ns_key x (Some n)) ` set ks then Some ''blacklisted'' else map_of (cache c) k)"
  by (induction ks arbitrary: c) (auto simp: blacklist_all_def map_of_set)

lemma exists_remove_all:
  "exists_key a (Some n) (remove_all ks n c) \<longleftrightarrow> a \<notin> set ks \<and> exists_key a (Some n) c"
  by (auto simp: exists_key_def remove_all_map)

lemma exists_blacklist_all:
  "exists_key a (Some n) (blacklist_all ks n c) \<longleftrightarrow> a \<in> set ks \<or> exists_key a (Some n) c"
  by (auto simp: exists_key_def blacklist_all_map)

lemma set_except_boot: "set (except_boot ks) = set ks - {''BootNotification''}"
  by (auto simp: except_boot_def)

lemma map_of_cong_exists: "map_of (cache c) = map_of (cache d) \<Longrightarrow> exists_key k ns c = exists_key k ns d"
  by (simp add: exists_key_def)

lemma schema_actions_no_colon:
  "a \<in> set (request_schemas v) \<Longrightarrow> CHR '':'' \<notin> set a"
proof -
  have "list_all (\<lambda>a. CHR '':'' \<notin> set a) OCPP_CallAction" by (simp add: OCPP_CallAction_def)
  then show "a \<in> set (request_schemas v) \<Longrightarrow> CHR '':'' \<notin> set a"
    using schema_actions_allowed allowed_are_actions by (fastforce simp: list_all_iff)
qed

lemma boot_status_no_action: "BOOT_STATUS \<notin> set OCPP2_0_1_CALL_SCHEMA_RECORD" "BOOT_STATUS \<notin> set OCPP1_6_CALL_SCHEMA_RECORD"
  by (simp_all add: BOOT_STATUS_def OCPP2_0_1_CALL_SCHEMA_RECORD_def OCPP1_6_CALL_SCHEMA_RECORD_def)

section \<open>Properties of the status and the blacklist\<close>

text \<open>The status answered to a boot notification is the configured one, except that a station
  configured Pending is Accepted at once when no base report and no variables are outstanding
  and automatic acceptance is on; it is always one of the three statuses of the protocol.\<close>
lemma boot_status_decision:
  assumes "determineBootStatus cfg b = Inr s"
    and "unknownChargerStatus cfg \<in> {''Accepted'', ''Pending'', ''Rejected''}"
  shows "s \<in> {''Accepted'', ''Pending'', ''Rejected''} \<and>
    (let configured = (case b of Some x \<Rightarrow> b_status x | None \<Rightarrow> unknownChargerStatus cfg);
         report = (case b of Some x \<Rightarrow> (case b_getBaseReportOnPending x of Some g \<Rightarrow> g
                     | None \<Rightarrow> cfg_getBaseReportOnPending cfg) | None \<Rightarrow> cfg_getBaseReportOnPending cfg);
         vars = (case b of Some x \<Rightarrow> 0 < b_pendingSetVariables x | None \<Rightarrow> False)
     in s = (if configured = ''Pending'' \<and> \<not> report \<and> \<not> vars \<and> autoAccept cfg then ''Accepted'' else configured))"
  using assms
  by (cases b) (auto simp: determineBootStatus_def toRegistrationStatus_def Let_def split: if_splits option.splits)

definition demo_boot_cfg :: boot_config where
  "demo_boot_cfg = \<lparr> unknownChargerStatus = ''Pending'', cfg_getBaseReportOnPending = False,
     cfg_bootWithRejectedVariables = False, autoAccept = True, unknownChargerStatus16 = ''Pending'',
     cfg_heartbeatInterval = 60, cfg_bootRetryInterval = 10, maxCachingSeconds = 10 \<rparr>"

lemma demo_boot_status: "determineBootStatus demo_boot_cfg None = Inr ''Accepted''"
  by (simp add: determineBootStatus_def demo_boot_cfg_def)

lemma boot_status_decision_witness:
  "determineBootStatus demo_boot_cfg None = Inr ''Accepted'' \<and> autoAccept demo_boot_cfg"
  using boot_status_decision [OF demo_boot_status] demo_boot_status
  by (simp add: demo_boot_cfg_def)

text \<open>For OCPP 2 the first boot that is not accepted blacklists exactly the actions with a request
  schema other than BootNotification, and the first accepted boot after that lifts the blacklist
  of all of them and forgets the cached status; no other key is touched.\<close>
lemma boot_permissions:
  assumes "status \<noteq> ''Accepted''"
  shows "(exists_key a (Some n) (cacheChargerActionsPermissions n None status c) \<longleftrightarrow>
      a \<in> set OCPP2_0_1_CALL_SCHEMA_RECORD - {''BootNotification''} \<or> exists_key a (Some n) c) \<and>
    (exists_key a (Some n) (cacheChargerActionsPermissions n (Some cached) ''Accepted'' c) \<longleftrightarrow>
      a \<notin> set OCPP2_0_1_CALL_SCHEMA_RECORD - {''BootNotification''} \<and> a \<noteq> BOOT_STATUS \<and> exists_key a (Some n) c) \<and>
    cacheChargerActionsPermissions n (Some cached) status c = c \<and>
    cacheChargerActionsPermissions n None ''Accepted'' c = c"
  using assms
  by (auto simp: cacheChargerActionsPermissions_def exists_blacklist_all mc.present_drop exists_remove_all
      set_except_boot)

lemma boot_permissions_witness:
  "exists_key ''Heartbeat'' (Some ''cs1'') (cacheChargerActionsPermissions ''cs1'' None ''Rejected'' empty_cache)"
  using boot_permissions [of "''Rejected''" "''Heartbeat''" "''cs1''" empty_cache] demo_actions(5)
  by (simp add: request_schemas_def)

text \<open>For OCPP 1.6 an accepted boot never lifts the blacklist: every action that was blacklisted
  for a Pending or Rejected station stays blacklisted, because the callback reads only the first
  character of each action.\<close>
lemma ocpp16_blacklist_stays:
  assumes "a \<in> set OCPP1_6_CALL_SCHEMA_RECORD" and "exists_key a (Some n) c"
  shows "exists_key a (Some n) (cacheOcpp16ChargerActionsPermissions n cached ''Accepted'' c)"
proof -
  have "list_all (\<lambda>k. k \<notin> set (map (take 1) OCPP1_6_CALL_SCHEMA_RECORD)) OCPP1_6_CALL_SCHEMA_RECORD"
    by (simp add: OCPP1_6_CALL_SCHEMA_RECORD_def)
  then have "a \<notin> set (map (take 1) OCPP1_6_CALL_SCHEMA_RECORD)"
    using assms(1) unfolding list_all_iff by blast
  moreover have "a \<noteq> BOOT_STATUS" using assms(1) boot_status_no_action(2) by blast
  ultimately show ?thesis
    using assms(2)
    by (simp add: cacheOcpp16ChargerActionsPermissions_def mc.present_drop exists_remove_all set_except_boot)
qed

lemma ocpp16_blacklist_stays_witness:
  "exists_key ''Heartbeat'' (Some ''cs1'') (cacheOcpp16ChargerActionsPermissions ''cs1'' (Some ''Rejected'') ''Accepted''
     (cacheOcpp16ChargerActionsPermissions ''cs1'' None ''Rejected'' empty_cache))"
proof -
  have h: "''Heartbeat'' \<in> set OCPP1_6_CALL_SCHEMA_RECORD" by (simp add: OCPP1_6_CALL_SCHEMA_RECORD_def)
  have "exists_key ''Heartbeat'' (Some ''cs1'') (cacheOcpp16ChargerActionsPermissions ''cs1'' None ''Rejected'' empty_cache)"
    using h by (simp add: cacheOcpp16ChargerActionsPermissions_def exists_blacklist_all set_except_boot)
  then show ?thesis by (rule ocpp16_blacklist_stays [OF h])
qed

lemma router_key_distinct:
  assumes "CHR '':'' \<notin> set n" "n \<noteq> []" "CHR '':'' \<notin> set k"
  shows "ns_key a (Some (createIdentifier (tenant t) [n])) \<noteq> ns_key k (Some n)"
proof
  assume "ns_key a (Some (createIdentifier (tenant t) [n])) = ns_key k (Some n)"
  then have eq: "nat_str t @ CHR '':'' # n @ CHR '':'' # a = n @ CHR '':'' # k"
    using assms(2) by (simp add: ns_key_name createIdentifier_simp)
  have "split_on CHR '':'' (nat_str t @ CHR '':'' # n @ CHR '':'' # a) = nat_str t # n # split_on CHR '':'' a"
    using assms(1) by (simp add: split_on_append nondigit_not_in_nat_str)
  moreover have "split_on CHR '':'' (n @ CHR '':'' # k) = [n, k]"
    using assms by (simp add: split_on_append split_on_free)
  ultimately have "split_on CHR '':'' a = []" unfolding eq by simp
  then show False by simp
qed

lemma fold_keeps:
  assumes "\<And>k c. k \<in> set ks \<Longrightarrow> map_of (cache (f k c)) key = map_of (cache c) key"
  shows "map_of (cache (fold f ks c)) key = map_of (cache c) key"
  using assms by (induction ks arbitrary: c) auto

text \<open>The router never sees this blacklist: it looks actions and the boot status up under the
  tenant and the station, the boot service writes them under the station alone. Whatever the
  boot status, the router allows exactly the actions it allowed before.\<close>
lemma router_ignores_boot_blacklist:
  assumes "CHR '':'' \<notin> set n" and "n \<noteq> []"
    and "c' = cache_boot_status n cached status (cacheChargerActionsPermissions n cached status c)"
    and "i = createIdentifier (tenant t) [n]"
  shows "onCallIsAllowed a i (st\<lparr> rcache := c' \<rparr>) = onCallIsAllowed a i (st\<lparr> rcache := c \<rparr>) \<and>
    sendCallIsAllowed env i p msg (st\<lparr> rcache := c' \<rparr>) = sendCallIsAllowed env i p msg (st\<lparr> rcache := c \<rparr>)"
proof -
  have nk: "ns_key b (Some i) \<noteq> ns_key k (Some n)" if "CHR '':'' \<notin> set k" for k b
    using router_key_distinct [OF assms(1,2) that] assms(4) by simp
  have act: "CHR '':'' \<notin> set k" if "k \<in> set (except_boot OCPP2_0_1_CALL_SCHEMA_RECORD)" for k
    using that schema_actions_no_colon [of k OCPP2_0_1] by (simp add: set_except_boot request_schemas_def)
  have bs: "CHR '':'' \<notin> set BOOT_STATUS" by (simp add: BOOT_STATUS_def)
  have "map_of (cache c') (ns_key b (Some i)) = map_of (cache c) (ns_key b (Some i))" for b
    using nk [OF bs] nk [OF act]
    by (auto simp: assms(3) cache_boot_status_def cacheChargerActionsPermissions_def map_of_set map_of_remove
        remove_all_map blacklist_all_map)
  then show ?thesis
    by (simp add: onCallIsAllowed_def exists_key_def sendCallIsAllowed_def get_key_def get_raw_def)
qed

lemma router_ignores_boot_blacklist_witness:
  "onCallIsAllowed ''Heartbeat'' (createIdentifier (tenant 1) [''cs1''])
     (demo_router\<lparr> rcache := cache_boot_status ''cs1'' None ''Rejected''
        (cacheChargerActionsPermissions ''cs1'' None ''Rejected'' empty_cache) \<rparr>)"
proof -
  have "onCallIsAllowed ''Heartbeat'' (createIdentifier (tenant 1) [''cs1'']) (demo_router\<lparr> rcache := empty_cache \<rparr>)"
    by (simp add: onCallIsAllowed_def exists_key_def empty_cache_def)
  moreover have "CHR '':'' \<notin> set ''cs1''" "''cs1'' \<noteq> []" by simp_all
  ultimately show ?thesis
    by (simp only: conjunct1 [OF router_ignores_boot_blacklist [OF _ _ refl refl]] not_False_eq_True)
qed

section \<open>Properties of the SetVariables loop\<close>

lemma slice_index_nat: "slice_index (tenant m) len = min m len"
  by (simp add: slice_index_def Let_def)

fun any_status :: "string \<Rightarrow> (nat \<Rightarrow> 'v list \<Rightarrow> string list option) \<Rightarrow> nat \<Rightarrow> 'v list list \<Rightarrow> bool" where
  "any_status w respond k [] = False"
| "any_status w respond k (b # bs) \<longleftrightarrow>
     (\<exists>s. respond k b = Some s \<and> w \<in> set s) \<or> any_status w respond (Suc k) bs"

lemma any_status_iff:
  "any_status w respond k bs \<longleftrightarrow> (\<exists>j < length bs. \<exists>s. respond (k + j) (bs ! j) = Some s \<and> w \<in> set s)"
  by (induction bs arbitrary: k) (auto simp: less_Suc_eq_0_disj)

lemma set_variables_loop_step:
  assumes "data \<noteq> []" "respond k (slice_to n data) = Some ss"
  shows "set_variables_loop respond n k data rej reb =
    Option.bind (set_variables_loop respond n (Suc k) (slice_from n data)
        (rej \<or> ''Rejected'' \<in> set ss) (reb \<or> ''RebootRequired'' \<in> set ss))
      (\<lambda>(batches, r). Some (slice_to n data # batches, r))"
  using assms by (subst set_variables_loop.simps) simp

lemma set_variables_loop_complete:
  assumes m: "0 < m" and resp: "\<And>k b. respond k b \<noteq> None"
  shows "\<exists>batches. set_variables_loop respond (tenant m) k data rej reb =
      Some (batches, Inr (rej \<or> any_status ''Rejected'' respond k batches,
                          reb \<or> any_status ''RebootRequired'' respond k batches)) \<and>
    concat batches = data \<and> (\<forall>b \<in> set batches. 0 < length b \<and> length b \<le> m)"
proof (induction "length data" arbitrary: data k rej reb rule: less_induct)
  case less
  show ?case
  proof (cases "data = []")
    case True
    then show ?thesis by (subst set_variables_loop.simps) simp
  next
    case False
    let ?b = "slice_to (tenant m) data"
    let ?d = "slice_from (tenant m) data"
    obtain ss where ss: "respond k ?b = Some ss" using resp by blast
    have d: "length ?d < length data" using m False by (simp add: slice_from_def slice_index_nat)
    obtain bs where bs: "set_variables_loop respond (tenant m) (Suc k) ?d
          (rej \<or> ''Rejected'' \<in> set ss) (reb \<or> ''RebootRequired'' \<in> set ss) =
        Some (bs, Inr ((rej \<or> ''Rejected'' \<in> set ss) \<or> any_status ''Rejected'' respond (Suc k) bs,
                       (reb \<or> ''RebootRequired'' \<in> set ss) \<or> any_status ''RebootRequired'' respond (Suc k) bs))"
      "concat bs = ?d" "\<forall>b \<in> set bs. 0 < length b \<and> length b \<le> m"
      using less [OF d] by blast
    have "set_variables_loop respond (tenant m) k data rej reb =
        Some (?b # bs, Inr (rej \<or> any_status ''Rejected'' respond k (?b # bs),
                            reb \<or> any_status ''RebootRequired'' respond k (?b # bs)))"
      unfolding set_variables_loop_step [of data respond k "tenant m", OF False ss] bs(1) by (simp add: ss disj_assoc)
    moreover have "concat (?b # bs) = data" using bs(2) by (simp add: slice_to_def slice_from_def)
    moreover have "0 < length ?b \<and> length ?b \<le> m"
      using m False by (simp add: slice_to_def slice_index_nat)
    ultimately show ?thesis using bs(3) by (metis set_ConsD)
  qed
qed

text \<open>C28. When the station reports how many variables a message may hold, at least one, and answers
  every message, the loop ends; the messages together carry every variable once and in order,
  none holds more than allowed or none at all, and the outcome says whether some variable was
  rejected or needs a reboot.\<close>
theorem set_variables_complete:
  assumes "0 < m" and "\<And>k b. respond k b \<noteq> None"
  shows "\<exists>batches rejected reboot.
    set_variables_loop respond (tenant m) 0 data False False = Some (batches, Inr (rejected, reboot)) \<and>
    concat batches = data \<and> (\<forall>b \<in> set batches. 0 < length b \<and> length b \<le> m) \<and>
    (rejected \<longleftrightarrow> (\<exists>k < length batches. \<exists>s. respond k (batches ! k) = Some s \<and> ''Rejected'' \<in> set s)) \<and>
    (reboot \<longleftrightarrow> (\<exists>k < length batches. \<exists>s. respond k (batches ! k) = Some s \<and> ''RebootRequired'' \<in> set s))"
  using set_variables_loop_complete [of m respond 0 data False False] assms
  by (auto simp: any_status_iff)

theorem set_variables_complete_witness:
  "\<exists>batches r. set_variables_loop (\<lambda>k b. Some [''Accepted'']) (tenant 2) 0 [''a'', ''b'', ''c''] False False = Some (batches, r) \<and>
     concat batches = [''a'', ''b'', ''c'']"
  using set_variables_complete [of 2 "\<lambda>k b. Some [''Accepted'']" "[''a'', ''b'', ''c'']"] by auto

text \<open>When the reported number of variables per message is 0 or not a number, the handler sends
  empty SetVariables messages for ever: the loop never returns once there is a variable to send
  and the station keeps answering.\<close>
lemma set_variables_never_ends:
  assumes "n = Fin 0 \<or> n = NaN" and "data \<noteq> []" and "\<And>k b. respond k b \<noteq> None"
  shows "set_variables_loop respond n k data rej reb = None"
proof (rule ccontr)
  assume "set_variables_loop respond n k data rej reb \<noteq> None"
  then obtain y where "set_variables_loop respond n k data rej reb = Some y" by blast
  note ind = set_variables_loop.raw_induct [where P = "\<lambda>respond n k data rej reb y.
      \<not> ((n = Fin 0 \<or> n = NaN) \<and> data \<noteq> [] \<and> (\<forall>k b. respond k b \<noteq> None))", OF _ this]
  have "\<not> ((n = Fin 0 \<or> n = NaN) \<and> data \<noteq> [] \<and> (\<forall>k b. respond k b \<noteq> None))"
  proof (rule ind, goal_cases)
    case (1 loop respond n k data rej reb y)
    show ?case
    proof
      assume h: "(n = Fin 0 \<or> n = NaN) \<and> data \<noteq> [] \<and> (\<forall>k b. respond k b \<noteq> None)"
      then obtain ss where "respond k (slice_to n data) = Some ss" by blast
      with h 1(2) obtain z where "loop respond n (Suc k) (slice_from n data)
          (rej \<or> ''Rejected'' \<in> set ss) (reb \<or> ''RebootRequired'' \<in> set ss) = Some z"
        by (auto split: bind_splits)
      moreover have "slice_from n data = data" using h by (auto simp: slice_from_def slice_index_def)
      ultimately show False using 1(1) h by metis
    qed
  qed
  then show False using assms by blast
qed

lemma set_variables_never_ends_witness:
  "set_variables_loop (\<lambda>k b. Some [''Accepted'']) (Fin 0) 0 [''a''] False False = None"
  using set_variables_never_ends [of "Fin 0" "[''a'']" "\<lambda>k b. Some [''Accepted'']"] by simp

section \<open>Properties of the handler\<close>

lemma bt_emit_fields [simp]:
  "bt_cache (bt_emit e s) = bt_cache s" "bt_row (bt_emit e s) = bt_row s"
  "bt_effects (bt_emit e s) = bt_effects s @ [e]"
  by (simp_all add: bt_emit_def)

lemma fold_emit [simp]:
  "bt_cache (fold (\<lambda>b. bt_emit (f b)) bs s) = bt_cache s"
  "bt_row (fold (\<lambda>b. bt_emit (f b)) bs s) = bt_row s"
  "bt_effects (fold (\<lambda>b. bt_emit (f b)) bs s) = bt_effects s @ map f bs"
  by (induction bs arbitrary: s) simp_all

lemma base_report_cache:
  "base_report_part env name row s = Some (r, s') \<Longrightarrow>
   get_key BOOT_STATUS (Some name) (bt_cache s') = get_key BOOT_STATUS (Some name) (bt_cache s)"
  by (auto simp: base_report_part_def createGetBaseReportRequest_def mc.lookup_put mc.lookup_drop BOOT_STATUS_def Let_def
      split: if_splits option.splits sum.splits)

lemma set_variables_cache:
  "set_variables_part env row s = Some (r, s') \<Longrightarrow> bt_cache s' = bt_cache s"
  by (auto simp: set_variables_part_def Let_def split: if_splits option.splits sum.splits prod.splits)

lemma configuration_rest_cache:
  "configuration_rest env row s = Some (r, s') \<Longrightarrow> bt_cache s' = bt_cache s"
proof -
  assume a: "configuration_rest env row s = Some (r, s')"
  obtain x s1 where s1: "set_variables_part env row s = Some (x, s1)"
    using a by (auto simp: configuration_rest_def bind_eq_Some_conv)
  have "bt_cache s' = bt_cache s1"
    using a by (cases x; cases "projr x")
      (auto simp: configuration_rest_def s1 Let_def split: option.splits)
  then show ?thesis using set_variables_cache [OF s1] by simp
qed

lemma permissions_keep_status:
  assumes "status \<noteq> ''Accepted''"
  shows "get_key BOOT_STATUS (Some n) (cacheChargerActionsPermissions n cached status c) = get_key BOOT_STATUS (Some n) c"
proof -
  have "BOOT_STATUS \<notin> set (except_boot OCPP2_0_1_CALL_SCHEMA_RECORD)"
    using boot_status_no_action by (simp add: set_except_boot)
  then have "map_of (cache (cacheChargerActionsPermissions n cached status c)) (ns_key BOOT_STATUS (Some n)) =
      map_of (cache c) (ns_key BOOT_STATUS (Some n))"
    using assms by (auto simp: cacheChargerActionsPermissions_def blacklist_all_map)
  then show ?thesis by (simp add: get_key_def get_raw_def)
qed

lemma response_status_not_Nil:
  "createBootNotificationResponse cfg b time = Inr r \<Longrightarrow> br_status r \<noteq> [] \<or> unknownChargerStatus cfg = []"
  by (cases b) (auto simp: createBootNotificationResponse_def determineBootStatus_def toRegistrationStatus_def
      bind_res_eq_Inr Let_def split: if_splits)

text \<open>After the handler has answered a boot notification with Pending or Rejected and returned, in
  whatever way its configuration steps ended, the answered status is the cached boot status of
  the station, and the answer was the first thing handed to the sender.\<close>
lemma boot_status_cached:
  assumes "handleBootNotification env name time s = Some (r, s')"
    and "createBootNotificationResponse (bcfg env) (bt_row s) time = Inr response"
    and "br_status response \<noteq> ''Accepted''" and "br_status response \<noteq> []" and "result_sent env"
  shows "get_key BOOT_STATUS (Some name) (bt_cache s') = Some (br_status response)"
proof -
  let ?cached = "get_key BOOT_STATUS (Some name) (bt_cache s)"
  let ?c1 = "cacheChargerActionsPermissions name ?cached (br_status response) (bt_cache s)"
  have g: "get_key BOOT_STATUS (Some name) (cache_boot_status name ?cached (br_status response) ?c1) = Some (br_status response)"
    using assms(3,4) permissions_keep_status [OF assms(3)]
    by (auto simp: cache_boot_status_def mc.lookup_put)
  define s2 where "s2 = bt_emit (BootResult response) (s\<lparr> bt_cache := ?c1 \<rparr>)"
  define s3 where "s3 = (if unknown_allowed env \<or> station_known env then bt_emit StationUpdate s2 else s2)"
  define s3' where "s3' = s3\<lparr> bt_cache := cache_boot_status name ?cached (br_status response) (bt_cache s3) \<rparr>"
  define row where "row = updateBootConfig response (bt_row s3')"
  define s4 where "s4 = s3'\<lparr> bt_row := Some row \<rparr>"
  have c3: "bt_cache s3 = ?c1" by (simp add: s3_def s2_def)
  have g4: "get_key BOOT_STATUS (Some name) (bt_cache s4) = Some (br_status response)"
    using g by (simp add: s4_def s3'_def c3)
  have h: "(if br_status response \<noteq> ''Pending'' \<or> ?cached = Some ''Pending'' then Some (Inr (), s4)
      else Option.bind (base_report_part env name row s4) (\<lambda>(r, s).
        case r of
          Inl e \<Rightarrow> Some (Inl e, s)
        | Inr row \<Rightarrow> configuration_rest env row s)) = Some (r, s')"
    using assms(1) unfolding handleBootNotification_def assms(2) Let_def sum.case
      s4_def row_def s3'_def s3_def s2_def
    by (simp only: assms(5) not_True_eq_False if_False)
  show ?thesis
  proof (cases "br_status response \<noteq> ''Pending'' \<or> ?cached = Some ''Pending''")
    case True
    then show ?thesis using h g4 by auto
  next
    case False
    then obtain r1 s5 where s5: "base_report_part env name row s4 = Some (r1, s5)"
      "(case r1 of Inl e \<Rightarrow> Some (Inl e, s5) | Inr row \<Rightarrow> configuration_rest env row s5) = Some (r, s')"
      using h by (auto simp: bind_eq_Some_conv)
    then have "bt_cache s' = bt_cache s5" by (auto split: sum.splits dest: configuration_rest_cache)
    then show ?thesis using base_report_cache [OF s5(1)] g4 by simp
  qed
qed

definition demo_boot_env :: boot_env where
  "demo_boot_env = \<lparr> bcfg = demo_boot_cfg\<lparr> unknownChargerStatus := ''Rejected'' \<rparr>, result_sent = True,
     unknown_allowed = True, station_known = False, report_sent = True, report_values = [],
     items_attributes = [], variables = [], variables_response = (\<lambda>k b. None) \<rparr>"

lemma boot_status_cached_witness:
  "\<exists>s'. handleBootNotification demo_boot_env ''cs1'' ''now'' \<lparr> bt_cache = empty_cache, bt_row = None, bt_effects = [] \<rparr>
      = Some (Inr (), s') \<and> get_key BOOT_STATUS (Some ''cs1'') (bt_cache s') = Some ''Rejected''"
proof -
  let ?s = "\<lparr> bt_cache = empty_cache, bt_row = None, bt_effects = [] \<rparr>"
  obtain response where r: "createBootNotificationResponse (bcfg demo_boot_env) (bt_row ?s) ''now'' = Inr response"
    "br_status response = ''Rejected''"
    by (simp add: createBootNotificationResponse_def determineBootStatus_def demo_boot_env_def)
  have sent: "result_sent demo_boot_env" by (simp add: demo_boot_env_def)
  obtain s' where h: "handleBootNotification demo_boot_env ''cs1'' ''now'' ?s = Some (Inr (), s')"
    unfolding handleBootNotification_def r(1) Let_def sum.case r(2) using sent by simp
  note sent
  with boot_status_cached [OF h r(1)] show ?thesis using h r(2) by auto
qed

end
