(* ===== verification/MeterValues.thy ===== *)
theory MeterValues
  imports JsValue "HOL-Library.Multiset"
begin

text \<open>
  Energy from meter values (packages/base/src/util/MeterValueUtils.ts): filtering by reading
  context, picking a measurand or summing its phases, normalizing to kWh, and the total of a
  transaction. Values are exact rationals; a timestamp is its milliseconds since the epoch (what
  Date.parse gives for a valid date); a missing or empty string is None.
\<close>

section \<open>Data\<close>

record sampled_value =
  sv_value :: rat
  sv_context :: "string option"
  sv_measurand :: "string option"
  sv_phase :: "string option"
  sv_unit :: "string option"
  sv_multiplier :: "int option"

record meter_value =
  mv_timestamp :: int
  mv_sampled :: "sampled_value list"

definition validContexts :: "string list" where
  "validContexts = [''Transaction.Begin'', ''Sample.Periodic'', ''Transaction.End'']"

abbreviation register_measurand :: string where
  "register_measurand \<equiv> ''Energy.Active.Import.Register''"

abbreviation interval_measurand :: string where
  "interval_measurand \<equiv> ''Energy.Active.Import.Interval''"

abbreviation net_measurand :: string where
  "net_measurand \<equiv> ''Energy.Active.Net''"

section \<open>Reading one meter value\<close>

definition to_upper :: "string \<Rightarrow> string" where
  "to_upper s = map (\<lambda>c. let n = of_char c in if 97 \<le> n \<and> n \<le> 122 then char_of (n - 32 :: nat) else c) s"

definition normalizeToKwh :: "sampled_value \<Rightarrow> rat option" where
  "normalizeToKwh sv =
     (let powerOfTen = (case sv_multiplier sv of Some m \<Rightarrow> m | None \<Rightarrow> 0) in
      case map_option to_upper (sv_unit sv) of
        None \<Rightarrow> Some (sv_value sv * pow10 (powerOfTen - 3))
      | Some u \<Rightarrow>
          if u \<in> {''KWH'', ''KVARH'', ''KVAH''} then Some (sv_value sv * pow10 powerOfTen)
          else if u \<in> {''WH'', ''VARH'', ''VAH''} then Some (sv_value sv * pow10 (powerOfTen - 3))
          else None)"

definition findMeasurandValue :: "sampled_value list \<Rightarrow> string \<Rightarrow> bool \<Rightarrow> rat option" where
  "findMeasurandValue svs measurand phased =
     (case find (\<lambda>sv. (sv_measurand sv = Some measurand \<or>
                       sv_measurand sv = None \<and> measurand = register_measurand) \<and>
                      (\<not> phased) = (sv_phase sv = None)) svs of
        Some sv \<Rightarrow> normalizeToKwh sv
      | None \<Rightarrow> None)"

definition sum_normalized :: "sampled_value list \<Rightarrow> rat" where
  "sum_normalized svs = fold (\<lambda>sv acc. case normalizeToKwh sv of Some q \<Rightarrow> acc + q | None \<Rightarrow> acc) svs 0"

definition sumPhasedValues :: "sampled_value list \<Rightarrow> string \<Rightarrow> rat option" where
  "sumPhasedValues svs measurand =
     (let phaseValues = filter (\<lambda>sv. sv_measurand sv = Some measurand \<and>
                          sv_phase sv \<in> Some ` {''L1'', ''L2'', ''L3''}) svs;
          neutral = filter (\<lambda>sv. sv_measurand sv = Some measurand \<and>
                          sv_phase sv \<in> Some ` {''L1-N'', ''L2-N'', ''L3-N''}) svs
      in if phaseValues = [] then (if neutral = [] then None else Some (sum_normalized neutral))
         else Some (sum_normalized phaseValues))"

section \<open>Maps from timestamp to energy\<close>

text \<open>A Map keeps the position of a key that is set again.\<close>

definition values_map :: "(sampled_value list \<Rightarrow> rat option) \<Rightarrow> meter_value list \<Rightarrow> (int \<times> rat) list" where
  "values_map f mvs =
     fold (\<lambda>mv m. case f (mv_sampled mv) of Some q \<Rightarrow> AList.update (mv_timestamp mv) q m | None \<Rightarrow> m) mvs []"

definition phased_reading :: "string \<Rightarrow> sampled_value list \<Rightarrow> rat option" where
  "phased_reading measurand svs =
     (case findMeasurandValue svs measurand False of Some q \<Rightarrow> Some q | None \<Rightarrow> sumPhasedValues svs measurand)"

definition getRegisterValuesMap :: "meter_value list \<Rightarrow> (int \<times> rat) list" where
  "getRegisterValuesMap mvs = values_map (phased_reading register_measurand) mvs"

definition getIntervalValuesMap :: "meter_value list \<Rightarrow> (int \<times> rat) list" where
  "getIntervalValuesMap mvs = values_map (phased_reading interval_measurand) mvs"

definition getNetValuesMap :: "meter_value list \<Rightarrow> (int \<times> rat) list" where
  "getNetValuesMap mvs = values_map (\<lambda>svs. findMeasurandValue svs net_measurand False) mvs"

definition getSortedKwh :: "(int \<times> rat) list \<Rightarrow> rat list" where
  "getSortedKwh m = map snd (sort_key fst m)"

section \<open>Totals\<close>

text \<open>Reading the first sampled value of an empty list throws.\<close>

definition valid_context :: "meter_value \<Rightarrow> exn + bool" where
  "valid_context mv =
     (case mv_sampled mv of
        [] \<Rightarrow> Inl (JsErr ''TypeError: cannot read properties of undefined'' [])
      | sv # _ \<Rightarrow> Inr (case sv_context sv of None \<Rightarrow> True | Some c \<Rightarrow> c \<in> set validContexts))"

fun filterValidMeterValues :: "meter_value list \<Rightarrow> exn + meter_value list" where
  "filterValidMeterValues [] = Inr []"
| "filterValidMeterValues (mv # mvs) =
     bind_res (valid_context mv) (\<lambda>ok.
     bind_res (filterValidMeterValues mvs) (\<lambda>rest. Inr (if ok then mv # rest else rest)))"

definition total_of_valid :: "meter_value list \<Rightarrow> rat \<Rightarrow> rat option \<Rightarrow> rat" where
  "total_of_valid vs currentTotal meterStart =
     (if vs = [] then 0
      else let registerMap = getRegisterValuesMap vs in
        if registerMap \<noteq> []
        then let sorted = getSortedKwh registerMap
             in last sorted - (case meterStart of None \<Rightarrow> hd sorted | Some s \<Rightarrow> s)
        else let intervalMap = getIntervalValuesMap vs in
          if intervalMap \<noteq> [] then foldl (+) currentTotal (getSortedKwh intervalMap)
          else let netMap = getNetValuesMap vs in
            if netMap \<noteq> []
            then (case map_of netMap (Max (fst ` set netMap)) of Some q \<Rightarrow> q | None \<Rightarrow> 0)
            else 0)"

definition getTotalKwh :: "meter_value list \<Rightarrow> rat \<Rightarrow> rat option \<Rightarrow> exn + rat" where
  "getTotalKwh mvs currentTotal meterStart =
     bind_res (filterValidMeterValues mvs) (\<lambda>vs. Inr (total_of_valid vs currentTotal meterStart))"

definition getMeterStart :: "meter_value list \<Rightarrow> exn + rat option" where
  "getMeterStart mvs =
     bind_res (filterValidMeterValues mvs) (\<lambda>vs.
       Inr (if vs = [] then None
            else let registerMap = getRegisterValuesMap vs in
              if registerMap \<noteq> [] then Some (hd (getSortedKwh registerMap)) else None))"

section \<open>Lemmas\<close>

lemma filterValid_ok:
  "filterValidMeterValues mvs = Inr vs \<Longrightarrow> vs = filter (\<lambda>mv. valid_context mv = Inr True) mvs"
  by (induction mvs arbitrary: vs) (auto simp: bind_res_eq_Inr split: if_splits)

lemma filterValid_error:
  "(\<exists>e. filterValidMeterValues mvs = Inl e) \<longleftrightarrow> (\<exists>mv \<in> set mvs. mv_sampled mv = [])"
proof (induction mvs)
  case (Cons mv mvs)
  then show ?case
    by (cases "mv_sampled mv"; cases "filterValidMeterValues mvs") (auto simp: valid_context_def)
qed simp

lemma filterValid_error_is:
  "filterValidMeterValues mvs = Inl e \<Longrightarrow> e = JsErr ''TypeError: cannot read properties of undefined'' []"
  by (induction mvs) (auto simp: bind_res_eq_Inl valid_context_def split: list.splits)

lemma fst_update: "fst ` set (AList.update k v m) = insert k (fst ` set m)"
  using dom_update [of k v m] by (simp add: dom_map_of_conv_image_fst)

lemma update_fresh: "k \<notin> fst ` set m \<Longrightarrow> AList.update k v m = m @ [(k, v)]"
  by (induction m) auto

text \<open>With distinct timestamps the map lists the readings in order.\<close>

definition readings :: "(sampled_value list \<Rightarrow> rat option) \<Rightarrow> meter_value list \<Rightarrow> (int \<times> rat) list" where
  "readings f mvs = List.map_filter (\<lambda>mv. map_option (\<lambda>q. (mv_timestamp mv, q)) (f (mv_sampled mv))) mvs"

lemma readings_simps [simp]:
  "readings f [] = []"
  "readings f (mv # mvs) = (case f (mv_sampled mv) of Some q \<Rightarrow> (mv_timestamp mv, q) # readings f mvs | None \<Rightarrow> readings f mvs)"
  by (simp_all add: readings_def List.map_filter_def split: option.splits)

lemma readings_keys: "fst ` set (readings f mvs) \<subseteq> mv_timestamp ` set mvs"
  by (induction mvs) (auto split: option.splits)

lemma readings_distinct: "distinct (map mv_timestamp mvs) \<Longrightarrow> distinct (map fst (readings f mvs))"
  using readings_keys by (induction mvs) (fastforce split: option.splits)+

lemma values_map_fold:
  "distinct (map mv_timestamp mvs) \<Longrightarrow> fst ` set m \<inter> mv_timestamp ` set mvs = {} \<Longrightarrow>
   fold (\<lambda>mv m. case f (mv_sampled mv) of Some q \<Rightarrow> AList.update (mv_timestamp mv) q m | None \<Rightarrow> m) mvs m
   = m @ readings f mvs"
proof (induction mvs arbitrary: m)
  case (Cons mv mvs)
  have "mv_timestamp mv \<notin> fst ` set m" using Cons.prems by auto
  then show ?case
    using Cons by (cases "f (mv_sampled mv)") (auto simp: update_fresh)
qed simp

lemma values_map_distinct: "distinct (map mv_timestamp mvs) \<Longrightarrow> values_map f mvs = readings f mvs"
  using values_map_fold [of mvs "[]"] by (simp add: values_map_def)

lemma values_map_keys_distinct: "distinct (map fst (values_map f mvs))"
proof -
  have "distinct (map fst m) \<Longrightarrow> distinct (map fst (fold (\<lambda>mv m. case f (mv_sampled mv) of
      Some q \<Rightarrow> AList.update (mv_timestamp mv) q m | None \<Rightarrow> m) mvs m))" for m
    by (induction mvs arbitrary: m) (auto simp: distinct_update split: option.splits)
  then show ?thesis by (simp add: values_map_def)
qed

lemma mset_readings: "mset mvs = mset mvs' \<Longrightarrow> mset (readings f mvs) = mset (readings f mvs')"
proof -
  assume "mset mvs = mset mvs'"
  moreover have "mset (readings f ms) = image_mset the (filter_mset (\<lambda>x. x \<noteq> None)
      (image_mset (\<lambda>mv. map_option (\<lambda>q. (mv_timestamp mv, q)) (f (mv_sampled mv))) (mset ms)))" for ms
    by (induction ms) (auto split: option.splits)
  ultimately show ?thesis by simp
qed

lemma sort_key_perm:
  assumes "mset xs = mset ys" and "distinct (map f xs)"
  shows "sort_key f xs = sort_key f ys"
proof (rule properties_for_sort_key)
  show "mset (sort_key f ys) = mset xs" using assms(1) by simp
  show "sorted (map f (sort_key f ys))" by simp
  fix k assume "k \<in> set (sort_key f ys)"
  then have k: "k \<in> set xs" "k \<in> set ys" using assms(1) by (auto dest: mset_eq_setD)
  have one: "filter (\<lambda>x. f k = f x) zs = [k]" if "k \<in> set zs" "distinct (map f zs)" for zs
    using that
  proof (induction zs)
    case (Cons z zs)
    show ?case
    proof (cases "z = k")
      case True
      then have "filter (\<lambda>x. f k = f x) zs = []" using Cons.prems(2) by (auto simp: filter_empty_conv)
      then show ?thesis using True by simp
    next
      case False
      then have "k \<in> set zs" using Cons.prems(1) by simp
      moreover from this have "f k \<in> f ` set zs" by (rule imageI)
      then have "f k \<noteq> f z" using Cons.prems(2) by auto
      ultimately show ?thesis using Cons by simp
    qed
  qed simp
  have "distinct (map f (sort_key f ys))"
    using assms by (metis distinct_map distinct_sort mset_eq_imp_distinct_iff mset_sort set_sort mset_eq_setD)
  then show "filter (\<lambda>x. f k = f x) (sort_key f ys) = filter (\<lambda>x. f k = f x) xs"
    using one [of "sort_key f ys"] one [of xs] k assms(2) by simp
qed

lemma values_map_perm:
  assumes "mset mvs = mset mvs'" and "distinct (map mv_timestamp mvs)"
  shows "getSortedKwh (values_map f mvs) = getSortedKwh (values_map f mvs')"
    and "map_of (values_map f mvs) = map_of (values_map f mvs')"
    and "(values_map f mvs = []) = (values_map f mvs' = [])"
    and "set (values_map f mvs) = set (values_map f mvs')"
proof -
  have d: "distinct (map mv_timestamp mvs')"
    using assms by (metis mset_eq_imp_distinct_iff mset_map)
  have m: "mset (readings f mvs) = mset (readings f mvs')" using mset_readings [OF assms(1)] .
  note e = values_map_distinct [OF assms(2)] values_map_distinct [OF d]
  note r = readings_distinct [OF assms(2)] readings_distinct [OF d]
  show "getSortedKwh (values_map f mvs) = getSortedKwh (values_map f mvs')"
    using sort_key_perm [OF m r(1)] by (simp only: getSortedKwh_def e)
  show "set (values_map f mvs) = set (values_map f mvs')" using mset_eq_setD [OF m] by (simp only: e)
  then show "map_of (values_map f mvs) = map_of (values_map f mvs')"
    using r map_of_inject_set by (simp only: e) blast
  show "(values_map f mvs = []) = (values_map f mvs' = [])"
    unfolding e by (metis m mset_zero_iff)
qed

lemma total_of_valid_perm:
  assumes "mset vs = mset vs'" and "distinct (map mv_timestamp vs)"
  shows "total_of_valid vs c m = total_of_valid vs' c m"
proof -
  note p = values_map_perm [OF assms]
  have "(vs = []) = (vs' = [])" using assms(1) by (metis mset_zero_iff)
  then show ?thesis
    unfolding total_of_valid_def getRegisterValuesMap_def getIntervalValuesMap_def getNetValuesMap_def Let_def
    by (simp only: p)
qed

section \<open>Properties\<close>

text \<open>The total energy of a transaction does not depend on the order in which the meter values
  arrived, as long as their timestamps differ.\<close>
lemma total_order_independent:
  assumes "mset mvs = mset mvs'" and "distinct (map mv_timestamp mvs)"
  shows "getTotalKwh mvs currentTotal meterStart = getTotalKwh mvs' currentTotal meterStart"
proof (cases "filterValidMeterValues mvs")
  case (Inl e)
  then have "\<exists>mv \<in> set mvs'. mv_sampled mv = []"
    using filterValid_error [of mvs] mset_eq_setD [OF assms(1)] by auto
  then obtain e' where "filterValidMeterValues mvs' = Inl e'" using filterValid_error by blast
  from filterValid_error_is [OF Inl] filterValid_error_is [OF this] this Inl
  show ?thesis by (simp add: getTotalKwh_def)
next
  case (Inr vs)
  then have "\<not> (\<exists>e. filterValidMeterValues mvs' = Inl e)"
    using filterValid_error [of mvs] filterValid_error [of mvs'] mset_eq_setD [OF assms(1)] by auto
  then obtain vs' where vs': "filterValidMeterValues mvs' = Inr vs'" by (cases "filterValidMeterValues mvs'") auto
  note f = filterValid_ok [OF Inr] filterValid_ok [OF vs']
  have "mset vs = mset vs'" using assms(1) by (simp add: f mset_filter)
  moreover have "distinct (map mv_timestamp vs)" using assms(2) by (simp add: f(1) distinct_map_filter)
  ultimately show ?thesis by (simp add: getTotalKwh_def Inr vs' total_of_valid_perm)
qed

definition demo_reading :: "int \<Rightarrow> rat \<Rightarrow> meter_value" where
  "demo_reading t q = \<lparr> mv_timestamp = t, mv_sampled =
     [\<lparr> sv_value = q, sv_context = None, sv_measurand = None, sv_phase = None, sv_unit = Some ''Wh'', sv_multiplier = None \<rparr>] \<rparr>"

lemma total_order_independent_witness:
  "getTotalKwh [demo_reading 1 1000, demo_reading 2 4000] 0 None = getTotalKwh [demo_reading 2 4000, demo_reading 1 1000] 0 None"
  by (rule total_order_independent) (simp_all add: demo_reading_def)

lemma telescope:
  fixes s :: "rat list"
  shows "s \<noteq> [] \<Longrightarrow> last s - hd s = sum_list (map2 (-) (tl s) s)"
proof (induction s rule: induct_list012)
  case (3 x y zs)
  then show ?case by (simp add: algebra_simps)
qed simp_all

lemma sorted_last_max: "sorted (map fst s) \<Longrightarrow> x \<in> set s \<Longrightarrow> fst x \<le> fst (last s)"
  by (induction s) auto

lemma last_sorted_max:
  assumes "m \<noteq> []" "distinct (map fst m)"
  shows "map_of m (Max (fst ` set m)) = Some (last (getSortedKwh m))"
proof -
  let ?s = "sort_key fst m"
  have ne: "?s \<noteq> []" using assms(1) by (metis set_sort set_empty)
  then have l: "last ?s \<in> set m" using last_in_set set_sort by metis
  have "\<forall>x \<in> set m. fst x \<le> fst (last ?s)"
    using sorted_last_max [of ?s] by (simp add: sorted_sort_key)
  then have "Max (fst ` set m) = fst (last ?s)"
    using l by (intro Max_eqI) auto
  then show ?thesis
    using l assms(2) ne by (simp add: getSortedKwh_def last_map map_of_eq_Some_iff)
qed

text \<open>When register readings are available, the total is the last reading minus the first, which
  is the sum of the increments, so it is never negative for a register that does not decrease;
  starting from the recorded meter start gives the same total, and from then on only the reading
  with the latest timestamp counts.\<close>
lemma register_total:
  assumes "filterValidMeterValues mvs = Inr vs" and "getRegisterValuesMap vs \<noteq> []"
    and "s = getSortedKwh (getRegisterValuesMap vs)"
  shows "getTotalKwh mvs c None = Inr (sum_list (map2 (-) (tl s) s)) \<and>
    (sorted s \<longrightarrow> 0 \<le> last s - hd s) \<and>
    getMeterStart mvs = Inr (Some (hd s)) \<and>
    getTotalKwh mvs c (Some (hd s)) = getTotalKwh mvs c None \<and>
    (\<exists>q. map_of (getRegisterValuesMap vs) (Max (fst ` set (getRegisterValuesMap vs))) = Some q \<and>
         getTotalKwh mvs c (Some m0) = Inr (q - m0))"
proof -
  have vs: "vs \<noteq> []" using assms(2) by (auto simp: getRegisterValuesMap_def values_map_def)
  have s: "s \<noteq> []" using assms(2) unfolding assms(3) getSortedKwh_def by (metis map_is_Nil_conv set_empty set_sort)
  have pos: "sorted s \<longrightarrow> 0 \<le> last s - hd s" using s by (cases s) auto
  have mx: "map_of (getRegisterValuesMap vs) (Max (fst ` set (getRegisterValuesMap vs))) = Some (last s)"
    using last_sorted_max [OF assms(2)] values_map_keys_distinct by (simp add: assms(3) getRegisterValuesMap_def)
  have "getTotalKwh mvs c None = Inr (last s - hd s)" "getMeterStart mvs = Inr (Some (hd s))"
    "getTotalKwh mvs c (Some q) = Inr (last s - q)" for q
    using assms(2) vs by (simp_all add: getTotalKwh_def getMeterStart_def assms(1) total_of_valid_def Let_def assms(3) [symmetric])
  then show ?thesis using pos mx telescope [OF s] by (intro conjI) simp_all
qed

lemma register_total_witness:
  "getMeterStart [demo_reading 1 1000, demo_reading 2 4000] = Inr (Some 1)"
proof -
  have f: "filterValidMeterValues [demo_reading 1 1000, demo_reading 2 4000] = Inr [demo_reading 1 1000, demo_reading 2 4000]"
    by (simp add: valid_context_def demo_reading_def)
  have u: "to_upper ''Wh'' = ''WH''" by code_simp
  have r: "getRegisterValuesMap [demo_reading 1 1000, demo_reading 2 4000] = [(1, 1), (2, 4)]"
    by (simp add: getRegisterValuesMap_def values_map_def demo_reading_def phased_reading_def findMeasurandValue_def
        normalizeToKwh_def u pow10_def Let_def)
  from register_total [OF f _ refl] show ?thesis by (simp add: r getSortedKwh_def)
qed

text \<open>When no meter value has a context that counts for the transaction, the total is reported as
  0, whatever the total accumulated so far and the recorded meter start were.\<close>
lemma total_forgets_without_valid_context:
  assumes "\<forall>mv \<in> set mvs. valid_context mv = Inr False"
  shows "getTotalKwh mvs currentTotal meterStart = Inr 0"
proof -
  have "filterValidMeterValues mvs = Inr []" using assms by (induction mvs) simp_all
  then show ?thesis by (simp add: getTotalKwh_def total_of_valid_def)
qed

lemma total_forgets_without_valid_context_witness:
  "getTotalKwh [\<lparr> mv_timestamp = 0, mv_sampled = [\<lparr> sv_value = 5, sv_context = Some ''Sample.Clock'', sv_measurand = None,
     sv_phase = None, sv_unit = None, sv_multiplier = None \<rparr>] \<rparr>] 42 (Some 1) = Inr 0"
  by (rule total_forgets_without_valid_context) (simp add: valid_context_def validContexts_def)

end
