(* ===== verification/Emaid.thy ===== *)
theory Emaid
  imports MeterValues
begin

text \<open>
  The check digit of an eMAID (packages/core/src/util/util/emaidCheckDigitCalculator.ts): the
  lookup table, the matrices over the integers modulo 2 and modulo 3, the loop over the 14
  characters and the solution of the check equation for the 15th. The theorems show that the
  digit is the only one that solves the equation and that the five error types the source
  names are detected, at every position, the check digit included. An error is the text of its
  message. Strings are lists of characters, of which toUpperCase changes the ASCII letters.
\<close>

section \<open>Tables\<close>

type_synonym emaid_value = "int \<times> int \<times> int \<times> int"

definition lookupTable :: "(char \<times> emaid_value) list" where
  "lookupTable = [
     (CHR ''0'', 0, 0, 0, 0), (CHR ''1'', 0, 0, 0, 1), (CHR ''2'', 0, 0, 0, 2), (CHR ''3'', 0, 0, 1, 0),
     (CHR ''4'', 0, 0, 1, 1), (CHR ''5'', 0, 0, 1, 2), (CHR ''6'', 0, 0, 2, 0), (CHR ''7'', 0, 0, 2, 1),
     (CHR ''8'', 0, 0, 2, 2), (CHR ''9'', 0, 1, 0, 0), (CHR ''A'', 0, 1, 0, 1), (CHR ''B'', 0, 1, 0, 2),
     (CHR ''C'', 0, 1, 1, 0), (CHR ''D'', 0, 1, 1, 1), (CHR ''E'', 0, 1, 1, 2), (CHR ''F'', 0, 1, 2, 0),
     (CHR ''G'', 0, 1, 2, 1), (CHR ''H'', 0, 1, 2, 2), (CHR ''I'', 1, 0, 0, 0), (CHR ''J'', 1, 0, 0, 1),
     (CHR ''K'', 1, 0, 0, 2), (CHR ''L'', 1, 0, 1, 0), (CHR ''M'', 1, 0, 1, 1), (CHR ''N'', 1, 0, 1, 2),
     (CHR ''O'', 1, 0, 2, 0), (CHR ''P'', 1, 0, 2, 1), (CHR ''Q'', 1, 0, 2, 2), (CHR ''R'', 1, 1, 0, 0),
     (CHR ''S'', 1, 1, 0, 1), (CHR ''T'', 1, 1, 0, 2), (CHR ''U'', 1, 1, 1, 0), (CHR ''V'', 1, 1, 1, 1),
     (CHR ''W'', 1, 1, 1, 2), (CHR ''X'', 1, 1, 2, 0), (CHR ''Y'', 1, 1, 2, 1), (CHR ''Z'', 1, 1, 2, 2)]"

type_synonym matrix = "(int \<times> int) \<times> (int \<times> int)"

definition getP1Power :: "nat \<Rightarrow> matrix" where
  "getP1Power index =
     (let position = index mod 3 + 1 in
      if position = 3 then ((1, 0), (0, 1))
      else if position = 1 then ((0, 1), (1, 1))
      else ((1, 1), (1, 0)))"

definition P2_powers :: "matrix list" where
  "P2_powers = [((0, 1), (1, 2)), ((1, 2), (2, 2)), ((2, 2), (2, 0)), ((2, 0), (0, 2)),
                ((0, 2), (2, 1)), ((2, 1), (1, 1)), ((1, 1), (1, 0)), ((1, 0), (0, 1))]"

definition getP2Power :: "nat \<Rightarrow> matrix" where
  "getP2Power index = P2_powers ! (index mod 8)"

definition mat_vec :: "matrix \<Rightarrow> int \<times> int \<Rightarrow> int \<times> int" where
  "mat_vec m v = (fst (fst m) * fst v + snd (fst m) * snd v, fst (snd m) * fst v + snd (snd m) * snd v)"

section \<open>The check digit\<close>

definition emaid_step :: "nat \<Rightarrow> emaid_value \<Rightarrow> emaid_value \<Rightarrow> emaid_value" where
  "emaid_step i vs acc =
     (let (q1, q2, r1, r2) = vs; (qs0, qs1, rs0, rs1) = acc;
          (x0, x1) = mat_vec (getP1Power i) (q1, q2);
          (y0, y1) = mat_vec (getP2Power i) (r1, r2)
      in ((qs0 + x0 mod 2) mod 2, (qs1 + x1 mod 2) mod 2, (rs0 + y0 mod 3) mod 3, (rs1 + y1 mod 3) mod 3))"

fun emaid_loop :: "nat \<Rightarrow> string \<Rightarrow> emaid_value \<Rightarrow> string + emaid_value" where
  "emaid_loop i [] acc = Inr acc"
| "emaid_loop i (c # cs) acc =
     (case map_of lookupTable c of
        None \<Rightarrow> Inl (''Invalid character '' @ [CHR 0x27, c, CHR 0x27] @ '' at position '' @ nat_str i)
      | Some vs \<Rightarrow> emaid_loop (Suc i) cs (emaid_step i vs acc))"

definition solve_digit :: "emaid_value \<Rightarrow> emaid_value" where
  "solve_digit acc =
     (let (qs0, qs1, rs0, rs1) = acc
      in ((2 - qs0) mod 2, (2 - qs1) mod 2, (3 - rs1) mod 3, ((3 - rs0) mod 3 + rs1) mod 3))"

definition charset :: string where
  "charset = ''0123456789ABCDEFGHIJKLMNOPQRSTUVWXYZ''"

definition digit_of_value :: "emaid_value \<Rightarrow> string + char" where
  "digit_of_value v =
     (let (q1, q2, r1, r2) = v;
          checkValue = (q1 * 2 + q2) * 9 + (r1 * 3 + r2)
      in if checkValue < 0 \<or> 36 \<le> checkValue then Inl (''Invalid check value: '' @ int_str checkValue)
         else Inr (charset ! nat checkValue))"

definition is_upper_alnum :: "char \<Rightarrow> bool" where
  "is_upper_alnum c = (let n = (of_char c :: nat) in (65 \<le> n \<and> n \<le> 90) \<or> (48 \<le> n \<and> n \<le> 57))"

definition calculateCheckDigit :: "string \<Rightarrow> string + char" where
  "calculateCheckDigit emaidWithoutCheckDigit =
     (let input = to_upper emaidWithoutCheckDigit in
      if length input \<noteq> 14 then Inl ''Input must be exactly 14 characters''
      else if \<not> list_all is_upper_alnum input
        then Inl ''Input must contain only alphanumeric characters''
      else bind_res (emaid_loop 0 input (0, 0, 0, 0)) (\<lambda>acc. digit_of_value (solve_digit acc)))"

section \<open>The check equation\<close>

definition add4 :: "emaid_value \<Rightarrow> emaid_value \<Rightarrow> emaid_value" where
  "add4 u v = (let (a, b, c, d) = u; (a', b', c', d') = v in (a + a', b + b', c + c', d + d'))"

definition mod4 :: "emaid_value \<Rightarrow> emaid_value" where
  "mod4 v = (let (a, b, c, d) = v in (a mod 2, b mod 2, c mod 3, d mod 3))"

text \<open>The contribution of a character at position i, and the sum of a word from position i on.\<close>

definition emaid_term :: "nat \<Rightarrow> emaid_value \<Rightarrow> emaid_value" where
  "emaid_term i v =
     (let (q1, q2, r1, r2) = v; (x0, x1) = mat_vec (getP1Power i) (q1, q2);
          (y0, y1) = mat_vec (getP2Power i) (r1, r2) in (x0, x1, y0, y1))"

fun emaid_sum :: "nat \<Rightarrow> emaid_value list \<Rightarrow> emaid_value" where
  "emaid_sum i [] = (0, 0, 0, 0)"
| "emaid_sum i (v # vs) = add4 (emaid_term i v) (emaid_sum (Suc i) vs)"

definition values_of :: "string \<Rightarrow> emaid_value list" where
  "values_of s = map (\<lambda>c. the (map_of lookupTable c)) s"

lemma emaid_sum_append:
  "emaid_sum i (xs @ ys) = add4 (emaid_sum i xs) (emaid_sum (i + length xs) ys)"
  by (induction xs arbitrary: i) (auto simp: add4_def split: prod.splits)

lemma emaid_step_mod: "emaid_step i v s = mod4 (add4 s (emaid_term i v))"
  by (auto simp: emaid_step_def mod4_def add4_def emaid_term_def Let_def mod_simps split: prod.splits)

lemma mod4_add4_left: "mod4 (add4 (mod4 u) v) = mod4 (add4 u v)"
  by (auto simp: mod4_def add4_def mod_simps split: prod.splits)

lemma add4_assoc: "add4 (add4 u v) w = add4 u (add4 v w)"
  by (auto simp: add4_def split: prod.splits)

lemma emaid_loop_sum:
  "\<forall>c \<in> set s. map_of lookupTable c \<noteq> None \<Longrightarrow> mod4 acc = acc \<Longrightarrow>
   emaid_loop i s acc = Inr (mod4 (add4 acc (emaid_sum i (values_of s))))"
proof (induction s arbitrary: i acc)
  case Nil
  then show ?case by (cases acc) (simp add: values_of_def add4_def)
next
  case (Cons c s)
  then obtain v where v: "map_of lookupTable c = Some v" by auto
  have m: "mod4 (mod4 u) = mod4 u" for u by (auto simp: mod4_def split: prod.splits)
  show ?case
    using Cons.IH [of "emaid_step i v acc"] Cons.prems v
    by (simp add: emaid_step_mod m mod4_add4_left add4_assoc values_of_def)
qed

text \<open>The table is the base representation of the position of a character in the character set.\<close>

definition value_of_index :: "nat \<Rightarrow> emaid_value" where
  "value_of_index n = (int (n div 18), int (n div 9 mod 2), int (n div 3 mod 3), int (n mod 3))"

lemma lookupTable_zip: "lookupTable = zip charset (map value_of_index [0..<36])"
  by code_simp

lemma length_charset: "length charset = 36" by (simp add: charset_def)

lemma distinct_charset: "distinct charset" by (simp add: charset_def)

lemma lookup_charset: "n < 36 \<Longrightarrow> map_of lookupTable (charset ! n) = Some (value_of_index n)"
  using map_of_zip_nth [of charset "map value_of_index [0..<36]" n] distinct_charset
  by (simp add: lookupTable_zip length_charset)

lemma lookup_Some:
  "map_of lookupTable c = Some v \<longleftrightarrow> (\<exists>n < 36. c = charset ! n \<and> v = value_of_index n)"
proof
  assume "map_of lookupTable c = Some v"
  then have "(c, v) \<in> set (zip charset (map value_of_index [0..<36]))"
    by (metis lookupTable_zip map_of_SomeD)
  then show "\<exists>n < 36. c = charset ! n \<and> v = value_of_index n"
    by (auto simp: set_zip length_charset)
qed (auto simp: lookup_charset)

definition index_of_value :: "emaid_value \<Rightarrow> nat" where
  "index_of_value v = (let (q1, q2, r1, r2) = v in nat ((q1 * 2 + q2) * 9 + (r1 * 3 + r2)))"

lemma index_of_value_all: "list_all (\<lambda>n. index_of_value (value_of_index n) = n) [0..<36]"
  by code_simp

lemma index_of_value: "n < 36 \<Longrightarrow> index_of_value (value_of_index n) = n"
  using index_of_value_all by (simp add: list_all_iff)

lemma value_of_index_inj: "m < 36 \<Longrightarrow> n < 36 \<Longrightarrow> value_of_index m = value_of_index n \<Longrightarrow> m = n"
  by (metis index_of_value)

lemma lookup_inj: "map_of lookupTable c = Some v \<Longrightarrow> map_of lookupTable d = Some v \<Longrightarrow> c = d"
  using value_of_index_inj by (auto simp: lookup_Some)

lemma value_bounds:
  "map_of lookupTable c = Some (q1, q2, r1, r2) \<Longrightarrow>
   0 \<le> q1 \<and> q1 < 2 \<and> 0 \<le> q2 \<and> q2 < 2 \<and> 0 \<le> r1 \<and> r1 < 3 \<and> 0 \<le> r2 \<and> r2 < 3"
  by (auto simp: lookup_Some value_of_index_def)

section \<open>The digit\<close>

lemma lookup_iff: "map_of lookupTable c \<noteq> None \<longleftrightarrow> c \<in> set charset"
  unfolding not_None_eq lookup_Some in_set_conv_nth length_charset by blast

lemma upper_alnum_codes:
  "list_all (\<lambda>n. char_of n \<in> set charset) ([48..<58] @ [65..<91 :: nat])"
  by code_simp

lemma upper_alnum_charset: "is_upper_alnum c \<Longrightarrow> c \<in> set charset"
proof -
  assume "is_upper_alnum c"
  then have "(of_char c :: nat) \<in> set ([48..<58] @ [65..<91])" 
    unfolding set_append set_upt by (auto simp: is_upper_alnum_def Let_def)
  then have "char_of (of_char c :: nat) \<in> set charset"
    using upper_alnum_codes unfolding list_all_iff by blast
  then show "c \<in> set charset" by simp
qed

lemma charset_upper_alnum: "list_all is_upper_alnum charset"
  by (simp add: charset_def is_upper_alnum_def Let_def)

lemma upper_alnum_iff: "is_upper_alnum c \<longleftrightarrow> c \<in> set charset"
  using upper_alnum_charset charset_upper_alnum by (auto simp: list_all_iff)

lemma to_upper_id: "list_all is_upper_alnum s \<Longrightarrow> to_upper s = s"
  by (induction s) (auto simp: to_upper_def is_upper_alnum_def Let_def)

abbreviation zero4 :: emaid_value where
  "zero4 \<equiv> (0, 0, 0, 0)"

lemma digit_of_value_index:
  "0 \<le> q1 \<Longrightarrow> q1 < 2 \<Longrightarrow> 0 \<le> q2 \<Longrightarrow> q2 < 2 \<Longrightarrow> 0 \<le> r1 \<Longrightarrow> r1 < 3 \<Longrightarrow> 0 \<le> r2 \<Longrightarrow> r2 < 3 \<Longrightarrow>
   digit_of_value (q1, q2, r1, r2) = Inr (charset ! index_of_value (q1, q2, r1, r2))
   \<and> index_of_value (q1, q2, r1, r2) < 36"
  by (simp add: digit_of_value_def index_of_value_def nat_less_iff)

text \<open>A quadruple within its bounds is the value of the character at its index.\<close>

lemma value_of_index_of_value:
  assumes "q1 \<in> {0, 1}" "q2 \<in> {0, 1}" "r1 \<in> {0, 1, 2}" "r2 \<in> {0, 1, 2}"
  shows "value_of_index (index_of_value (q1, q2, r1, r2)) = (q1, q2, r1, r2)"
  using assms by (elim insertE emptyE) (simp_all add: value_of_index_def index_of_value_def)

lemma mod2_cases: "(x :: int) mod 2 \<in> {0, 1}" by auto

lemma mod3_cases: "(x :: int) mod 3 \<in> {0, 1, 2}"
  using pos_mod_bound [of 3 x] pos_mod_sign [of 3 x] by auto

lemma lookup_digit:
  assumes "v = (q1, q2, r1, r2)" "q1 \<in> {0, 1}" "q2 \<in> {0, 1}" "r1 \<in> {0, 1, 2}" "r2 \<in> {0, 1, 2}"
  shows "digit_of_value v = Inr d \<longleftrightarrow> map_of lookupTable d = Some v"
proof -
  have b: "0 \<le> q1" "q1 < 2" "0 \<le> q2" "q2 < 2" "0 \<le> r1" "r1 < 3" "0 \<le> r2" "r2 < 3" using assms by auto
  note dv = digit_of_value_index [OF b]
  have "map_of lookupTable (charset ! index_of_value v) = Some v"
    using lookup_charset dv value_of_index_of_value [OF assms(2-5)] assms(1) by metis
  with dv show ?thesis using lookup_inj assms(1) by auto
qed

text \<open>The 15th character solves the equation: the powers at its position are the identity and
  the matrix ((1, 1), (1, 0)).\<close>

lemma solve_digit_iff:
  assumes a: "a \<in> {0, 1}" "b \<in> {0, 1}" "c \<in> {0, 1, 2}" "d \<in> {0, 1, 2}"
    and q: "q1 \<in> {0, 1}" "q2 \<in> {0, 1}" "r1 \<in> {0, 1, 2}" "r2 \<in> {0, 1, 2}"
  shows "solve_digit (a, b, c, d) = (q1, q2, r1, r2)
    \<longleftrightarrow> mod4 (add4 (a, b, c, d) (emaid_term 14 (q1, q2, r1, r2))) = zero4"
proof -
  have t: "emaid_term 14 (q1, q2, r1, r2) = (q1, q2, r1 + r2, r1)"
    by (simp add: emaid_term_def getP1Power_def getP2Power_def P2_powers_def mat_vec_def)
  have p: "((2 - x) mod 2 = y) = ((x + y) mod 2 = 0)" if "x \<in> {0, 1}" "y \<in> {0, 1}" for x y :: int
    using that by auto
  have r: "((3 - d) mod 3 = r1 \<and> ((3 - c) mod 3 + d) mod 3 = r2)
      = ((c + (r1 + r2)) mod 3 = 0 \<and> (d + r1) mod 3 = 0)"
    using a(3,4) q(3,4) by (elim insertE emptyE) simp_all
  show ?thesis 
    unfolding t solve_digit_def mod4_def add4_def Let_def split prod.inject
    by (simp only: p [OF a(1) q(1)] p [OF a(2) q(2)] r)
qed

lemma mod4_cases:
  obtains a b c d where "mod4 u = (a, b, c, d)" "a \<in> {0, 1}" "b \<in> {0, 1}" "c \<in> {0, 1, 2}" "d \<in> {0, 1, 2}"
proof -
  obtain w x y z where u: "u = (w, x, y, z)" by (cases u)
  show thesis
    by (rule that [of "w mod 2" "x mod 2" "y mod 3" "z mod 3"])
      (simp_all only: u mod4_def Let_def split mod2_cases mod3_cases)
qed

lemma calculate_sum:
  assumes l: "length s = 14" and s: "list_all is_upper_alnum s"
  shows "calculateCheckDigit s = digit_of_value (solve_digit (mod4 (emaid_sum 0 (values_of s))))"
proof -
  have "\<forall>c \<in> set s. map_of lookupTable c \<noteq> None"
    using s unfolding lookup_iff upper_alnum_iff [symmetric] list_all_iff .
  then have "emaid_loop 0 s zero4 = Inr (mod4 (add4 zero4 (emaid_sum 0 (values_of s))))"
    by (rule emaid_loop_sum) (simp add: mod4_def)
  moreover have "add4 zero4 u = u" for u by (cases u) (simp add: add4_def)
  ultimately show ?thesis by (simp add: calculateCheckDigit_def to_upper_id [OF s] l s)
qed

lemma check_digit_equation:
  assumes l: "length s = 14" and s: "list_all is_upper_alnum s"
  shows "calculateCheckDigit s = Inr d
    \<longleftrightarrow> is_upper_alnum d \<and> mod4 (emaid_sum 0 (values_of (s @ [d]))) = zero4"
proof -
  obtain a b c e where m: "mod4 (emaid_sum 0 (values_of s)) = (a, b, c, e)"
    and abce: "a \<in> {0, 1}" "b \<in> {0, 1}" "c \<in> {0, 1, 2}" "e \<in> {0, 1, 2}" by (rule mod4_cases)
  define q where "q = solve_digit (a, b, c, e)"
  obtain q1 q2 r1 r2 where qq: "q = (q1, q2, r1, r2)" by (cases q)
  have qb: "q1 \<in> {0, 1}" "q2 \<in> {0, 1}" "r1 \<in> {0, 1, 2}" "r2 \<in> {0, 1, 2}"
    using qq mod2_cases mod3_cases unfolding q_def solve_digit_def Let_def by auto
  have "calculateCheckDigit s = Inr d \<longleftrightarrow> map_of lookupTable d = Some q"
    unfolding calculate_sum [OF l s] m q_def [symmetric] by (rule lookup_digit [OF qq qb])
  also have "\<dots> \<longleftrightarrow> is_upper_alnum d \<and> q = the (map_of lookupTable d)"
    unfolding upper_alnum_iff lookup_iff [symmetric] by (metis not_None_eq option.sel)
  also have "\<dots> \<longleftrightarrow> is_upper_alnum d \<and> mod4 (emaid_sum 0 (values_of (s @ [d]))) = zero4"
  proof (cases "is_upper_alnum d")
    case True
    then obtain v where v: "map_of lookupTable d = Some v" unfolding upper_alnum_iff lookup_iff [symmetric] by auto
    obtain v1 v2 v3 v4 where vv: "v = (v1, v2, v3, v4)" by (cases v)
    have vb: "v1 \<in> {0, 1}" "v2 \<in> {0, 1}" "v3 \<in> {0, 1, 2}" "v4 \<in> {0, 1, 2}"
      using value_bounds [of d v1 v2 v3 v4] v vv by auto
    have z: "add4 u zero4 = u" for u by (cases u) (simp add: add4_def)
    have "mod4 (emaid_sum 0 (values_of (s @ [d]))) = mod4 (add4 (a, b, c, e) (emaid_term 14 v))"
      by (simp add: values_of_def emaid_sum_append z v l flip: mod4_add4_left [of "emaid_sum _ _"] m [unfolded values_of_def])
    then show ?thesis
      using solve_digit_iff [OF abce vb] True v unfolding vv q_def by simp
  qed simp
  finally show ?thesis .
qed

section \<open>Error detection\<close>

text \<open>A complete eMAID: 14 characters and the check digit the code computes for them.\<close>

definition emaid_ok :: "string \<Rightarrow> bool" where
  "emaid_ok s = (length s = 15 \<and> list_all is_upper_alnum s \<and> calculateCheckDigit (take 14 s) = Inr (s ! 14))"

lemma emaid_ok_equation:
  "emaid_ok s \<longleftrightarrow> length s = 15 \<and> list_all is_upper_alnum s \<and> mod4 (emaid_sum 0 (values_of s)) = zero4"
proof (cases "length s = 15 \<and> list_all is_upper_alnum s")
  case True
  then have s: "take 14 s @ [s ! 14] = s"
    using take_Suc_conv_app_nth [of 14 s] by simp
  have "length (take 14 s) = 14" "list_all is_upper_alnum (take 14 s)" "is_upper_alnum (s ! 14)"
    using True set_take_subset [of 14 s] by (auto simp: list_all_iff)
  from check_digit_equation [OF this(1,2), of "s ! 14"] this(3) True show ?thesis
    unfolding emaid_ok_def s by blast
qed (auto simp: emaid_ok_def)

definition mat_add :: "int \<Rightarrow> matrix \<Rightarrow> matrix \<Rightarrow> matrix" where
  "mat_add s m n =
     ((fst (fst m) + s * fst (fst n), snd (fst m) + s * snd (fst n)),
      (fst (snd m) + s * fst (snd n), snd (snd m) + s * snd (snd n)))"

definition mat_det :: "matrix \<Rightarrow> int" where
  "mat_det m = fst (fst m) * snd (snd m) - snd (fst m) * fst (snd m)"

text \<open>The five error types: the factor of the second position and its distance, where the
  factor 0 is a single error, -1 a transposition and 1 a twin error.\<close>

definition error_types :: "(int \<times> nat) set" where
  "error_types = {(0, 1), (- 1, 1), (1, 1), (- 1, 2), (1, 2)}"

lemma getP1Power_mod: "getP1Power (k + j) = getP1Power (k mod 3 + j)"
  by (simp add: getP1Power_def mod_simps)

lemma getP2Power_mod: "getP2Power (k + j) = getP2Power (k mod 8 + j)"
  by (simp add: getP2Power_def mod_simps)

lemma det_P1:
  assumes "(s, j) \<in> error_types"
  shows "coprime 2 (mat_det (mat_add s (getP1Power k) (getP1Power (k + j))))"
proof -
  have "k mod 3 \<in> {0, 1, 2}" by auto
  then show ?thesis
    using assms unfolding getP1Power_mod [of k] getP1Power_mod [of k 0, simplified] error_types_def
    by (elim insertE emptyE) (simp_all add: getP1Power_def mat_add_def mat_det_def)
qed

lemma coprime_3: "x mod 3 \<noteq> 0 \<Longrightarrow> coprime 3 (x :: int)"
proof -
  assume x: "x mod 3 \<noteq> 0"
  have c: "coprime (1 :: int) 3" "coprime (2 :: int) 3" by simp_all
  from x mod3_cases [of x] have "x mod 3 = 1 \<or> x mod 3 = 2" by blast
  then have "coprime (x mod 3) 3" using c by metis
  then show ?thesis using coprime_mod_left_iff [of 3 x] by (simp only: coprime_commute)
qed

lemma det_P2_small:
  "list_all (\<lambda>r. list_all (\<lambda>(s, j). mat_det (mat_add s (getP2Power r) (getP2Power (r + j))) mod 3 \<noteq> 0)
     [(0, 1), (- 1, 1), (1, 1), (- 1, 2), (1, 2)]) [0..<8]"
  by code_simp

lemma det_P2:
  assumes "(s, j) \<in> error_types"
  shows "coprime 3 (mat_det (mat_add s (getP2Power k) (getP2Power (k + j))))"
proof -
  have "k mod 8 \<in> set [0..<8]" by simp
  moreover have "(s, j) \<in> set [(0, 1), (- 1, 1), (1, 1), (- 1, 2), (1, 2)]"
    using assms unfolding error_types_def by simp
  ultimately have "mat_det (mat_add s (getP2Power (k mod 8)) (getP2Power (k mod 8 + j))) mod 3 \<noteq> 0"
    by (rule bspec [OF bspec [OF det_P2_small [unfolded list_all_iff]], of _ "(s, j)", unfolded split])
  then show ?thesis
    using coprime_3 getP2Power_mod [of k j] getP2Power_mod [of k 0] by simp
qed

lemma kernel_trivial:
  assumes c: "coprime p (mat_det m)" and x: "p dvd fst (mat_vec m (x, y))" and y: "p dvd snd (mat_vec m (x, y))"
  shows "p dvd x \<and> p dvd (y :: int)"
proof -
  obtain a b c' d where m: "m = ((a, b), (c', d))" by (metis surj_pair)
  have "mat_det m * x = d * fst (mat_vec m (x, y)) - b * snd (mat_vec m (x, y))"
    "mat_det m * y = a * snd (mat_vec m (x, y)) - c' * fst (mat_vec m (x, y))"
    by (simp_all add: m mat_det_def mat_vec_def algebra_simps)
  then have "p dvd mat_det m * x" "p dvd mat_det m * y" using x y by simp_all
  then show ?thesis using c by (simp add: coprime_dvd_mult_right_iff)
qed

lemma kernel_eq:
  assumes c: "coprime p (mat_det (mat_add s m n))"
    and e1: "(fst (mat_vec m (x, y)) + s * fst (mat_vec n (x, y))) mod p
           = (fst (mat_vec m (x', y')) + s * fst (mat_vec n (x', y'))) mod p"
    and e2: "(snd (mat_vec m (x, y)) + s * snd (mat_vec n (x, y))) mod p
           = (snd (mat_vec m (x', y')) + s * snd (mat_vec n (x', y'))) mod p"
    and b: "0 \<le> x" "x < p" "0 \<le> x'" "x' < p" "0 \<le> y" "y < p" "0 \<le> y'" "y' < p"
  shows "x = x' \<and> y = (y' :: int)"
proof -
  have "p dvd fst (mat_vec (mat_add s m n) (x - x', y - y'))"
    using e1 unfolding mod_eq_dvd_iff by (simp add: mat_vec_def mat_add_def algebra_simps)
  moreover have "p dvd snd (mat_vec (mat_add s m n) (x - x', y - y'))"
    using e2 unfolding mod_eq_dvd_iff by (simp add: mat_vec_def mat_add_def algebra_simps)
  ultimately have "p dvd x - x' \<and> p dvd y - y'" by (rule kernel_trivial [OF c])
  then have "x mod p = x' mod p \<and> y mod p = y' mod p" by (simp add: mod_eq_dvd_iff)
  then show ?thesis using b by simp
qed

definition scale4 :: "int \<Rightarrow> emaid_value \<Rightarrow> emaid_value" where
  "scale4 s v = (let (a, b, c, d) = v in (s * a, s * b, s * c, s * d))"

lemma emaid_term_simp:
  "emaid_term i (q1, q2, r1, r2) =
     (fst (mat_vec (getP1Power i) (q1, q2)), snd (mat_vec (getP1Power i) (q1, q2)),
      fst (mat_vec (getP2Power i) (r1, r2)), snd (mat_vec (getP2Power i) (r1, r2)))"
  by (simp add: emaid_term_def split: prod.splits)

text \<open>No error of one of the five types keeps the sum.\<close>

lemma error_changes_sum:
  assumes t: "(s, j) \<in> error_types"
    and u: "map_of lookupTable c = Some u" and v: "map_of lookupTable d = Some v"
    and e: "mod4 (add4 (emaid_term k u) (scale4 s (emaid_term (k + j) u)))
          = mod4 (add4 (emaid_term k v) (scale4 s (emaid_term (k + j) v)))"
  shows "c = d"
proof -
  obtain q1 q2 r1 r2 where uu: "u = (q1, q2, r1, r2)" by (cases u)
  obtain p1 p2 w1 w2 where vv: "v = (p1, p2, w1, w2)" by (cases v)
  note bu = value_bounds [OF u [unfolded uu]] and bv = value_bounds [OF v [unfolded vv]]
  have e: "(fst (mat_vec (getP1Power k) (q1, q2)) + s * fst (mat_vec (getP1Power (k + j)) (q1, q2))) mod 2
      = (fst (mat_vec (getP1Power k) (p1, p2)) + s * fst (mat_vec (getP1Power (k + j)) (p1, p2))) mod 2"
    "(snd (mat_vec (getP1Power k) (q1, q2)) + s * snd (mat_vec (getP1Power (k + j)) (q1, q2))) mod 2
      = (snd (mat_vec (getP1Power k) (p1, p2)) + s * snd (mat_vec (getP1Power (k + j)) (p1, p2))) mod 2"
    "(fst (mat_vec (getP2Power k) (r1, r2)) + s * fst (mat_vec (getP2Power (k + j)) (r1, r2))) mod 3
      = (fst (mat_vec (getP2Power k) (w1, w2)) + s * fst (mat_vec (getP2Power (k + j)) (w1, w2))) mod 3"
    "(snd (mat_vec (getP2Power k) (r1, r2)) + s * snd (mat_vec (getP2Power (k + j)) (r1, r2))) mod 3
      = (snd (mat_vec (getP2Power k) (w1, w2)) + s * snd (mat_vec (getP2Power (k + j)) (w1, w2))) mod 3"
    using e unfolding uu vv emaid_term_simp scale4_def add4_def mod4_def Let_def split prod.inject by blast+
  have "q1 = p1 \<and> q2 = p2" using kernel_eq [OF det_P1 [OF t] e(1,2)] bu bv by blast
  moreover have "r1 = w1 \<and> r2 = w2" using kernel_eq [OF det_P2 [OF t] e(3,4)] bu bv by blast
  ultimately show ?thesis using u v uu vv lookup_inj by metis
qed

lemma mod_add_cancel: "(x + (u + y)) mod p = (x + (v + y)) mod p \<longleftrightarrow> u mod p = v mod (p :: int)"
  by (simp add: mod_eq_dvd_iff)

lemma mod4_add4_cong:
  "mod4 (add4 x (add4 u y)) = mod4 (add4 x (add4 v y)) \<Longrightarrow> mod4 u = mod4 v"
  unfolding mod4_def add4_def Let_def
  by (cases x; cases y; cases u; cases v) (simp add: mod_add_cancel)

text \<open>Two eMAIDs that differ in one segment have segments of the same sum.\<close>

lemma segment_sum:
  assumes a: "emaid_ok (xs @ w @ ys)" "emaid_ok (xs @ w' @ ys)"
  shows "mod4 (emaid_sum (length xs) (values_of w)) = mod4 (emaid_sum (length xs) (values_of w'))"
proof -
  have l: "length w = length w'" using a unfolding emaid_ok_def by simp
  have s: "emaid_sum 0 (values_of (xs @ v @ ys))
      = add4 (emaid_sum 0 (values_of xs)) (add4 (emaid_sum (length xs) (values_of v))
          (emaid_sum (length xs + length v) (values_of ys)))" for v
    by (simp only: values_of_def map_append emaid_sum_append length_map add_0)
  have "mod4 (emaid_sum 0 (values_of (xs @ w @ ys))) = mod4 (emaid_sum 0 (values_of (xs @ w' @ ys)))"
    using a unfolding emaid_ok_equation by simp
  then show ?thesis unfolding s l by (rule mod4_add4_cong)
qed

lemma emaid_ok_lookup:
  "emaid_ok s \<Longrightarrow> c \<in> set s \<Longrightarrow> map_of lookupTable c = Some (the (map_of lookupTable c))"
  unfolding emaid_ok_def list_all_iff upper_alnum_iff using lookup_iff [of c] by (metis option.exhaust_sel)

lemma add4_zero: "add4 u zero4 = u" "add4 zero4 u = u"
  by (cases u; simp add: add4_def)+

lemma scale4_simps: "scale4 1 u = u" "scale4 0 u = zero4"
  by (cases u; simp add: scale4_def)+

lemma mod_swap: "(x + y') mod p = (x' + y) mod p \<Longrightarrow> (x + - 1 * y) mod p = (x' + - 1 * y') mod (p :: int)"
proof -
  have "x + y' - (x' + y) = x + - 1 * y - (x' + - 1 * y')" by simp
  then show "(x + y') mod p = (x' + y) mod p \<Longrightarrow> ?thesis" unfolding mod_eq_dvd_iff by metis
qed

lemma swap_sum:
  "mod4 (add4 x y') = mod4 (add4 x' y) \<Longrightarrow>
   mod4 (add4 x (scale4 (- 1) y)) = mod4 (add4 x' (scale4 (- 1) y'))"
  unfolding mod4_def add4_def scale4_def Let_def
  by (cases x; cases y; cases x'; cases y'; hypsubst; unfold split prod.inject;
      elim conjE; intro conjI; rule mod_swap; assumption)

lemma add4_commute: "add4 u v = add4 v u"
  by (cases u; cases v) (simp add: add4_def)

lemma mod4_cancel_middle:
  assumes "mod4 (add4 x (add4 m y)) = mod4 (add4 x' (add4 m y'))"
  shows "mod4 (add4 x y) = mod4 (add4 x' y')"
proof -
  have "add4 z (add4 m w) = add4 m (add4 (add4 z w) zero4)" for z w
    by (metis add4_assoc add4_commute add4_zero(1))
  then show ?thesis using assms mod4_add4_cong by metis
qed

abbreviation emaid_value_of :: "char \<Rightarrow> emaid_value" where
  "emaid_value_of c \<equiv> the (map_of lookupTable c)"

lemma emaid_sum_short:
  "emaid_sum k (values_of [c]) = emaid_term k (emaid_value_of c)"
  "emaid_sum k (values_of [c, d]) = add4 (emaid_term k (emaid_value_of c)) (emaid_term (k + 1) (emaid_value_of d))"
  "emaid_sum k (values_of [c, m, d]) =
     add4 (emaid_term k (emaid_value_of c))
       (add4 (emaid_term (k + 1) (emaid_value_of m)) (emaid_term (k + 2) (emaid_value_of d)))"
  by (simp_all add: values_of_def add4_zero)

lemma error_detected:
  assumes "(s, j) \<in> error_types" "emaid_ok u" "emaid_ok v" "c \<in> set u" "d \<in> set v"
    "mod4 (add4 (emaid_term k (emaid_value_of c)) (scale4 s (emaid_term (k + j) (emaid_value_of c))))
   = mod4 (add4 (emaid_term k (emaid_value_of d)) (scale4 s (emaid_term (k + j) (emaid_value_of d))))"
  shows "c = d"
  using error_changes_sum [OF assms(1) emaid_ok_lookup [OF assms(2,4)] emaid_ok_lookup [OF assms(3,5)] assms(6)] .

lemma emaid_single_error:
  assumes a: "emaid_ok (xs @ [c] @ ys)" "emaid_ok (xs @ [d] @ ys)"
  shows "c = d"
  by (rule error_detected [of 0 1 _ _ _ _ "length xs", OF _ a]) (simp_all add: error_types_def scale4_simps add4_zero
      segment_sum [OF a, unfolded emaid_sum_short])

lemma emaid_adjacent_transposition:
  assumes a: "emaid_ok (xs @ [c, d] @ ys)" "emaid_ok (xs @ [d, c] @ ys)"
  shows "c = d"
  by (rule error_detected [of "- 1" 1, OF _ a _ _ swap_sum [OF segment_sum [OF a, unfolded emaid_sum_short]]])
    (simp_all add: error_types_def)

lemma emaid_twin_error:
  assumes a: "emaid_ok (xs @ [c, c] @ ys)" "emaid_ok (xs @ [d, d] @ ys)"
  shows "c = d"
  by (rule error_detected [of 1 1, OF _ a _ _, unfolded scale4_simps,
        OF _ _ _ segment_sum [OF a, unfolded emaid_sum_short]])
    (simp_all add: error_types_def)

lemma emaid_jump_transposition:
  assumes a: "emaid_ok (xs @ [c, m, d] @ ys)" "emaid_ok (xs @ [d, m, c] @ ys)"
  shows "c = d"
  by (rule error_detected [of "- 1" 2, OF _ a _ _
        swap_sum [OF mod4_cancel_middle [OF segment_sum [OF a, unfolded emaid_sum_short]]]])
    (simp_all add: error_types_def)

lemma emaid_jump_twin_error:
  assumes a: "emaid_ok (xs @ [c, m, c] @ ys)" "emaid_ok (xs @ [d, m, d] @ ys)"
  shows "c = d"
  by (rule error_detected [of 1 2, OF _ a _ _, unfolded scale4_simps,
        OF _ _ _ mod4_cancel_middle [OF segment_sum [OF a, unfolded emaid_sum_short]]])
    (simp_all add: error_types_def)

end
