(* ===== verification/IdTokens.thy ===== *)
theory IdTokens
  imports Emaid
begin

text \<open>
  The validators of id tokens (packages/core/src/util/util/validator.ts, from
  validateISO15693IdToken to validateIdToken). A regular expression anchored at both ends
  is the test of every character, with the length where the expression fixes it. A
  ValidationResult is its error message, None when isValid is true. The theorems
  characterise the accepted tokens of every type and show which errors in an eMAID are found.
\<close>

section \<open>Character classes\<close>

definition char_code :: "char \<Rightarrow> nat" where
  "char_code c = of_char c"

definition is_digit_char :: "char \<Rightarrow> bool" where
  "is_digit_char c = (48 \<le> char_code c \<and> char_code c \<le> 57)"

definition is_upper_char :: "char \<Rightarrow> bool" where
  "is_upper_char c = (65 \<le> char_code c \<and> char_code c \<le> 90)"

definition is_lower_char :: "char \<Rightarrow> bool" where
  "is_lower_char c = (97 \<le> char_code c \<and> char_code c \<le> 122)"

definition is_hex_char :: "char \<Rightarrow> bool" where
  "is_hex_char c =
     (is_digit_char c \<or> (65 \<le> char_code c \<and> char_code c \<le> 70) \<or> (97 \<le> char_code c \<and> char_code c \<le> 102))"

definition is_identifier_char :: "char \<Rightarrow> bool" where
  "is_identifier_char c =
     (is_lower_char c \<or> is_upper_char c \<or> is_digit_char c \<or> c \<in> set ''*-_=:+|@.'')"

section \<open>Validators of one type\<close>

definition validateISO15693IdToken :: "string \<Rightarrow> bool" where
  "validateISO15693IdToken idToken =
     (idToken \<noteq> [] \<and> length idToken = 16 \<and> list_all is_hex_char idToken)"

definition validateISO14443IdToken :: "string \<Rightarrow> bool" where
  "validateISO14443IdToken idToken =
     (idToken \<noteq> [] \<and> (length idToken = 8 \<or> length idToken = 14) \<and> list_all is_hex_char idToken)"

definition validateIdentifierStringIdToken :: "string \<Rightarrow> bool" where
  "validateIdentifierStringIdToken idToken = (idToken \<noteq> [] \<and> list_all is_identifier_char idToken)"

definition substring :: "string \<Rightarrow> nat \<Rightarrow> nat \<Rightarrow> string" where
  "substring s a b = take (b - a) (drop a s)"

definition remove_separator :: "string \<Rightarrow> string" where
  "remove_separator s = filter (\<lambda>c. c \<noteq> CHR ''-'') s"

text \<open>The cleaned token: no separators, upper case, and the id type C inserted for the forms
  without it.\<close>

definition cleaned_emaid :: "string \<Rightarrow> string" where
  "cleaned_emaid emaid =
     (let cleanedEmaid = to_upper (remove_separator emaid) in
      if length cleanedEmaid = 13
      then substring cleanedEmaid 0 5 @ ''C'' @ drop 5 cleanedEmaid
      else if length cleanedEmaid = 14 \<and> substring cleanedEmaid 5 6 \<noteq> ''C''
      then substring cleanedEmaid 0 5 @ ''C'' @ substring cleanedEmaid 5 13
      else cleanedEmaid)"

definition quoted :: "string \<Rightarrow> string" where
  "quoted s = [CHR 0x27] @ s @ [CHR 0x27]"

definition check_digit_errors :: "string \<Rightarrow> string list" where
  "check_digit_errors cleanedEmaid =
     (if length cleanedEmaid \<noteq> 15 then []
      else case calculateCheckDigit (substring cleanedEmaid 0 14) of
        Inr calculated \<Rightarrow>
          if substring cleanedEmaid 14 15 \<noteq> [calculated]
          then [''Invalid check digit: expected '' @ quoted [calculated] @ '', found ''
                 @ quoted (substring cleanedEmaid 14 15)]
          else []
      | Inl message \<Rightarrow> [''Check digit calculation error: '' @ message])"

definition validateEMAIDIdToken :: "string \<Rightarrow> string list" where
  "validateEMAIDIdToken emaid =
     (let cleanedEmaid = cleaned_emaid emaid in
      if length cleanedEmaid < 14 \<or> 15 < length cleanedEmaid
      then [''Invalid length: '' @ nat_str (length cleanedEmaid) @ '' characters (expected 14 or 15)'']
      else if \<not> list_all is_upper_alnum cleanedEmaid
      then [''eMAID must contain only alphanumeric characters (and optional hyphens as separators)'']
      else
        let countryCode = substring cleanedEmaid 0 2;
            providerId = substring cleanedEmaid 2 5;
            idType = substring cleanedEmaid 5 6;
            inst = substring cleanedEmaid 6 14
        in (if length countryCode = 2 \<and> list_all is_upper_char countryCode then []
            else [''Country code must be exactly 2 letters''])
           @ (if length providerId = 3 \<and> list_all is_upper_alnum providerId then []
              else [''Provider ID must be exactly 3 alphanumeric characters''])
           @ (if idType = ''C'' then []
              else [''ID Type must be '' @ quoted ''C'' @ '' for Contract (found: '' @ quoted idType @ '')''])
           @ (if length inst = 8 \<and> list_all is_upper_alnum inst then []
              else [''Instance must be exactly 8 alphanumeric characters''])
           @ check_digit_errors cleanedEmaid)"

definition validateNoAuthorizationIdToken :: "string \<Rightarrow> bool" where
  "validateNoAuthorizationIdToken idToken = (idToken = [] \<or> length idToken = 0)"

definition validateVINIdToken :: "string \<Rightarrow> bool" where
  "validateVINIdToken idToken =
     (let s = to_upper idToken in length s = 17 \<and> list_all is_upper_alnum s)"

definition is_mac_address :: "string \<Rightarrow> bool" where
  "is_mac_address s =
     (length s = 17 \<and> list_all (\<lambda>i. if i mod 3 = 2 then s ! i = CHR '':'' else is_hex_char (s ! i)) [0..<17])"

definition validateEVCCIDIdToken :: "string \<Rightarrow> bool" where
  "validateEVCCIDIdToken idToken = (idToken \<noteq> [] \<and> (is_mac_address idToken \<or> length idToken \<le> 255))"

section \<open>Routing by type\<close>

definition emaid_result :: "string \<Rightarrow> string option" where
  "emaid_result idToken =
     (let errors = validateEMAIDIdToken idToken in
      if length errors = 0 then None
      else Some (''eMAID tokens must follow the eMI3 format: '' @ join_with '', '' errors))"

definition identifier_message :: "string \<Rightarrow> string" where
  "identifier_message t =
     t @ '' tokens must contain only letters, numbers, and characters: * - _ = : + | @ .''"

definition validateIdToken :: "string \<Rightarrow> string \<Rightarrow> string option" where
  "validateIdToken idTokenType idToken =
     (if idTokenType = ''ISO15693'' then
        (if validateISO15693IdToken idToken then None
         else Some ''ISO15693 tokens must be exactly 16 hexadecimal characters (0-9, A-F)'')
      else if idTokenType = ''ISO14443'' then
        (if validateISO14443IdToken idToken then None
         else Some ''ISO14443 tokens must be either 8 or 14 hexadecimal characters (0-9, A-F)'')
      else if idTokenType = ''NoAuthorization'' then
        (if validateNoAuthorizationIdToken idToken then None else Some ''NoAuthorization tokens must be empty'')
      else if idTokenType = ''KeyCode'' then
        (if validateIdentifierStringIdToken idToken then None else Some (identifier_message ''KeyCode''))
      else if idTokenType = ''Local'' then
        (if validateIdentifierStringIdToken idToken then None else Some (identifier_message ''Local''))
      else if idTokenType = ''MacAddress'' then
        (if validateIdentifierStringIdToken idToken then None else Some (identifier_message ''MacAddress''))
      else if idTokenType = ''Central'' then
        (if validateIdentifierStringIdToken idToken then None else Some (identifier_message ''Central''))
      else if idTokenType = ''eMAID'' then emaid_result idToken
      else None)"

definition validateOcpp21IdToken :: "string \<Rightarrow> string \<Rightarrow> string option" where
  "validateOcpp21IdToken idTokenType idToken =
     (if idTokenType = ''ISO15693'' then
        (if validateISO15693IdToken idToken then None
         else Some ''ISO15693 tokens must be exactly 16 hexadecimal characters (0-9, A-F)'')
      else if idTokenType = ''ISO14443'' then
        (if validateISO14443IdToken idToken then None
         else Some ''ISO14443 tokens must be either 8 or 14 hexadecimal characters (0-9, A-F)'')
      else if idTokenType = ''NoAuthorization'' then
        (if validateNoAuthorizationIdToken idToken then None else Some ''NoAuthorization tokens must be empty'')
      else if idTokenType \<in> {''KeyCode'', ''Local'', ''MacAddress'', ''Central''} then
        (if validateIdentifierStringIdToken idToken then None else Some (identifier_message idTokenType))
      else if idTokenType = ''VIN'' then
        (if validateVINIdToken idToken then None
         else Some ''VIN must be exactly 17 alphanumeric characters, excluding I, O, and Q (ISO 3779)'')
      else if idTokenType = ''EVCCID'' then
        (if validateEVCCIDIdToken idToken then None
         else Some ''EVCCID must be non-empty and at most 255 characters'')
      else if idTokenType = ''DirectPayment'' then
        (if idToken \<noteq> [] \<and> 0 < length idToken then None else Some ''DirectPayment tokens must be non-empty'')
      else if idTokenType = ''eMAID'' then emaid_result idToken
      else None)"

section \<open>The eMAID\<close>

lemma is_upper_alnum_split: "is_upper_alnum c \<longleftrightarrow> is_upper_char c \<or> is_digit_char c"
  by (auto simp: is_upper_alnum_def is_upper_char_def is_digit_char_def char_code_def Let_def)

lemma list_all_substring: "list_all P s \<Longrightarrow> list_all P (substring s a b)"
  by (auto simp: substring_def list_all_iff dest: in_set_takeD in_set_dropD)

lemma length_substring: "b \<le> length s \<Longrightarrow> length (substring s a b) = b - a"
  by (simp add: substring_def)

lemma substring_one: "a < length s \<Longrightarrow> substring s a (Suc a) = [s ! a]"
  by (simp add: substring_def take_Suc_conv_app_nth)

lemma check_digit_errors_nil:
  assumes "length s = 15" "list_all is_upper_alnum s"
  shows "check_digit_errors s = [] \<longleftrightarrow> emaid_ok s"
proof -
  have "substring s 14 15 = [s ! 14]" using substring_one [of 14 s] assms(1) by simp
  moreover have "substring s 0 14 = take 14 s" by (simp add: substring_def)
  ultimately show ?thesis
    using assms by (auto simp: check_digit_errors_def emaid_ok_def split: sum.splits)
qed

text \<open>The accepted eMAIDs: the cleaned token has two letters, three alphanumeric characters,
  the letter C, eight alphanumeric characters and, when there is a 15th, its check digit.\<close>

lemma emaid_accepted_cleaned:
  "validateEMAIDIdToken s = [] \<longleftrightarrow>
     (let t = cleaned_emaid s in
      list_all is_upper_alnum t \<and> is_upper_char (t ! 0) \<and> is_upper_char (t ! 1) \<and> t ! 5 = CHR ''C''
      \<and> (length t = 14 \<or> emaid_ok t))"
proof -
  define t where "t = cleaned_emaid s"
  show ?thesis
  proof (cases "(length t = 14 \<or> length t = 15) \<and> list_all is_upper_alnum t")
    case True
    then have l: "14 \<le> length t" "length t \<le> 15" and al: "list_all is_upper_alnum t" by auto
    obtain a b r where "t = a # b # r" using l by (cases t; cases "tl t") auto
    then have c: "substring t 0 2 = [t ! 0, t ! 1]" by (simp add: substring_def)
    have i: "substring t 5 6 = [t ! 5]" using substring_one [of 5 t] l by simp
    have e: "check_digit_errors t = [] \<longleftrightarrow> length t = 14 \<or> emaid_ok t"
      using check_digit_errors_nil [of t] True by (auto simp: check_digit_errors_def emaid_ok_def)
    have o: "length (substring t 2 5) = 3" "list_all is_upper_alnum (substring t 2 5)"
      "length (substring t 6 14) = 8" "list_all is_upper_alnum (substring t 6 14)"
      using l al by (simp_all add: length_substring list_all_substring)
    show ?thesis
      using l al unfolding validateEMAIDIdToken_def t_def [symmetric] Let_def c i by (auto simp: e o)
  next
    case False
    then show ?thesis
      unfolding validateEMAIDIdToken_def t_def [symmetric] Let_def by (auto simp: emaid_ok_def)
  qed
qed

lemma cleaned_emaid_id:
  assumes l: "length s = 15" and s: "list_all is_upper_alnum s"
  shows "cleaned_emaid s = s"
proof -
  have "\<not> is_upper_alnum CHR ''-''" by (simp add: is_upper_alnum_def)
  then have "remove_separator s = s" using s by (auto simp: remove_separator_def list_all_iff intro!: filter_True)
  then show ?thesis using l to_upper_id [OF s] by (simp add: cleaned_emaid_def)
qed

lemma emaid15_accepted:
  assumes l: "length s = 15" and s: "list_all is_upper_alnum s" and v: "validateEMAIDIdToken s = []"
  shows "emaid_ok s"
  using v unfolding emaid_accepted_cleaned cleaned_emaid_id [OF l s] by (simp add: Let_def l)

text \<open>The five error types of the source, at any position of the token.\<close>

inductive emaid_error :: "string \<Rightarrow> string \<Rightarrow> bool" where
  single: "emaid_error (xs @ [c] @ ys) (xs @ [d] @ ys)"
| transposition: "emaid_error (xs @ [c, d] @ ys) (xs @ [d, c] @ ys)"
| twin: "emaid_error (xs @ [c, c] @ ys) (xs @ [d, d] @ ys)"
| jump_transposition: "emaid_error (xs @ [c, m, d] @ ys) (xs @ [d, m, c] @ ys)"
| jump_twin: "emaid_error (xs @ [c, m, c] @ ys) (xs @ [d, m, d] @ ys)"

lemma emaid_error_length: "emaid_error u v \<Longrightarrow> length u = length v"
  by (induction rule: emaid_error.induct) simp_all

lemma emaid_error_ok: "emaid_error u v \<Longrightarrow> emaid_ok u \<Longrightarrow> emaid_ok v \<Longrightarrow> u = v"
proof (induction rule: emaid_error.induct)
  case (single xs c ys d)
  then show ?case using emaid_single_error by blast
next
  case (transposition xs c d ys)
  then show ?case using emaid_adjacent_transposition by blast
next
  case (twin xs c ys d)
  then show ?case using emaid_twin_error by blast
next
  case (jump_transposition xs c m d ys)
  then show ?case using emaid_jump_transposition by blast
next
  case (jump_twin xs c m ys d)
  then show ?case using emaid_jump_twin_error by blast
qed

text \<open>C29. If a 15-character eMAID is accepted, every other 15-character token obtained from
  it by a single wrong character, a transposition of neighbours, a twin error, a jump
  transposition or a jump twin error, wherever in the token it happens and the check digit
  included, is rejected.\<close>

theorem emaid_errors_detected:
  assumes "emaid_error u v" and "u \<noteq> v" and "length u = 15"
    and "list_all is_upper_alnum u" and "list_all is_upper_alnum v" and "validateEMAIDIdToken u = []"
  shows "validateEMAIDIdToken v \<noteq> []"
  using emaid_error_ok [OF assms(1)] emaid_error_length [OF assms(1)] emaid15_accepted assms by auto

lemma demo_emaid_ok: "validateEMAIDIdToken ''DE8AAC01234567H'' = []"
  by code_simp

theorem emaid_errors_detected_witness: "validateEMAIDIdToken ''DE8AAC10234567H'' \<noteq> []"
proof (rule emaid_errors_detected [OF _ _ _ _ _ demo_emaid_ok])
  show "emaid_error ''DE8AAC01234567H'' ''DE8AAC10234567H''"
    using emaid_error.transposition [of "''DE8AAC''" "CHR ''0''" "CHR ''1''" "''234567H''"] by simp
qed (simp_all add: is_upper_alnum_def)

text \<open>Every quadruple of residues is the value of one character, so the equation has a solution.\<close>

lemma calculate_total:
  assumes l: "length s = 14" and s: "list_all is_upper_alnum s"
  shows "\<exists>d. calculateCheckDigit s = Inr d"
proof -
  obtain a b c e where m: "mod4 (emaid_sum 0 (values_of s)) = (a, b, c, e)" by (rule mod4_cases)
  obtain q1 q2 r1 r2 where qq: "solve_digit (a, b, c, e) = (q1, q2, r1, r2)" by (metis surj_pair)
  then have "0 \<le> q1" "q1 < 2" "0 \<le> q2" "q2 < 2" "0 \<le> r1" "r1 < 3" "0 \<le> r2" "r2 < 3"
    unfolding solve_digit_def Let_def by auto
  from digit_of_value_index [OF this] show ?thesis unfolding calculate_sum [OF l s] m qq by blast
qed

text \<open>For 14 upper case alphanumeric characters that start with two letters and have the
  letter C in the sixth place, the code computes a check digit, the token with this digit
  is accepted, and the token with any other alphanumeric character in its place is not.\<close>

lemma emaid_check_digit_unique:
  assumes "length s = 14" and "list_all is_upper_alnum s"
    and "is_upper_char (s ! 0)" and "is_upper_char (s ! 1)" and "s ! 5 = CHR ''C''"
  shows "\<exists>d. calculateCheckDigit s = Inr d \<and> is_upper_alnum d
    \<and> (\<forall>c. is_upper_alnum c \<longrightarrow> (validateEMAIDIdToken (s @ [c]) = [] \<longleftrightarrow> c = d))"
proof -
  obtain d where d: "calculateCheckDigit s = Inr d" using calculate_total [OF assms(1,2)] by blast
  have u: "is_upper_alnum d" using check_digit_equation [OF assms(1,2), of d] d by simp
  have "validateEMAIDIdToken (s @ [c]) = [] \<longleftrightarrow> c = d" if c: "is_upper_alnum c" for c
  proof -
    have "cleaned_emaid (s @ [c]) = s @ [c]" using assms(1,2) c by (intro cleaned_emaid_id) simp_all
    moreover have "emaid_ok (s @ [c]) \<longleftrightarrow> c = d" using assms(1,2) c d by (auto simp: emaid_ok_def nth_append)
    ultimately show ?thesis using assms c by (simp add: emaid_accepted_cleaned Let_def nth_append)
  qed
  then show ?thesis using d u by blast
qed

lemma emaid_check_digit_unique_witness:
  "\<exists>d. calculateCheckDigit ''DE8AAC01234567'' = Inr d \<and> is_upper_alnum d
    \<and> (\<forall>c. is_upper_alnum c \<longrightarrow> (validateEMAIDIdToken (''DE8AAC01234567'' @ [c]) = [] \<longleftrightarrow> c = d))"
  by (rule emaid_check_digit_unique) (simp_all add: is_upper_alnum_def is_upper_char_def char_code_def)

text \<open>The text of the VIN error says that I, O and Q are excluded; the validator accepts them.\<close>

lemma vin_accepts_I_O_Q: "validateOcpp21IdToken ''VIN'' ''IOQ00000000000000'' = None"
  by code_simp

end
