(* ===== verification/EmsPolicy.thy ===== *)
theory EmsPolicy
  imports JsValue CallActions
begin

text \<open>
  The EMS policy engine (packages/core/src/modules/EMS/src/module/PolicyEngine.ts), which shares the
  power budget of a site among its stations. The repositories the engine reads are the record
  ems_env: the charging stations of the tenant (Location.ts, getChargingStationsByIds), its site
  intents (EmsSiteIntent.ts, readLatestActiveBySiteId), the values of SmartChargingCtrlr.Enabled
  and the energy transfer policies per station, None where the constructor got no repository.
  Numbers are exact rationals with NaN and the infinities, as in Prelude. The theorems show
  that the shares of the eligible stations never exceed the budget, and where a budget of 0 is
  not respected.
\<close>

section \<open>Data\<close>

record station =
  st_id :: nat
  st_name :: string                        \<comment> \<open>ocppConnectionName\<close>
  st_isOnline :: "bool option"
  st_protocol :: "string option"
  st_capabilities :: "string list option"
  st_evses :: "int list option"            \<comment> \<open>the ids of its evses\<close>

record intent =
  in_siteId :: string
  in_messageId :: string
  in_createdAt :: int
  in_expiresAt :: int
  in_constraints :: jsval

record policy_row =
  pr_transactionId :: string
  pr_exportEnabled :: "bool option"
  pr_dischargeLimitW :: "rat option"

record plan_request =
  rq_siteId :: string
  rq_stationIds :: "string list"
  rq_evseId :: int
  rq_strategy :: string
  rq_profileOption :: "string option"
  rq_purpose :: string
  rq_operationMode :: string
  rq_applicationPath :: "string option"

record recommendation =
  rc_stationId :: string
  rc_isOnline :: "bool option"
  rc_protocol :: "string option"
  rc_eligible :: bool
  rc_eligibilityReason :: "string option"
  rc_evseId :: int
  rc_purpose :: string
  rc_kind :: string
  rc_rateUnit :: string
  rc_operationMode :: string
  rc_limitW :: js_num
  rc_exportAllowed :: bool
  rc_dischargeLimitW :: "js_num option"
  rc_sourceIntent :: string

record plan =
  pl_siteId :: string
  pl_sourceIntent :: string
  pl_totalBudgetW :: js_num
  pl_eligibleCount :: nat
  pl_strategy :: string
  pl_recommendations :: "recommendation list"

record ems_env =
  en_stations :: "station list"
  en_intents :: "intent list"
  en_now :: int
  en_smartCharging :: "(string \<Rightarrow> string option list) option"
  en_policies :: "(string \<Rightarrow> policy_row list) option"

section \<open>Numbers\<close>

fun js_falsy_num :: "js_num \<Rightarrow> bool" where
  "js_falsy_num NaN = True"
| "js_falsy_num (Fin q) = (q = 0)"
| "js_falsy_num (Inf b) = False"

definition js_or :: "js_num \<Rightarrow> js_num \<Rightarrow> js_num" where
  "js_or a b = (if js_falsy_num a then b else a)"

fun max_zero :: "js_num \<Rightarrow> js_num" where
  "max_zero NaN = NaN"
| "max_zero (Fin q) = Fin (max 0 q)"
| "max_zero (Inf b) = (if b then Inf True else Fin 0)"

fun div_count :: "js_num \<Rightarrow> nat \<Rightarrow> js_num" where
  "div_count NaN n = NaN"
| "div_count (Fin q) n = Fin (q / of_nat n)"
| "div_count (Inf b) n = Inf b"

fun above_zero :: "js_num \<Rightarrow> bool" where
  "above_zero NaN = False"
| "above_zero (Fin q) = (0 < q)"
| "above_zero (Inf b) = b"

fun min_num :: "rat \<Rightarrow> js_num \<Rightarrow> js_num" where
  "min_num c NaN = NaN"
| "min_num c (Fin q) = Fin (min c q)"
| "min_num c (Inf b) = (if b then Fin c else Inf False)"

text \<open>Number (v ?? d), where a missing or null property takes the default.\<close>

definition number_or :: "jsval \<Rightarrow> js_num \<Rightarrow> js_num" where
  "number_or v d = (if v = JUndef \<or> v = JNull then d else loose_num v)"

section \<open>Repositories\<close>

definition getChargingStationsByIds :: "station list \<Rightarrow> string list \<Rightarrow> station list" where
  "getChargingStationsByIds sts stationIds =
     (let numericIds = map digits_val (filter is_digits stationIds)
      in filter (\<lambda>s. st_id s \<in> set numericIds \<or> st_name s \<in> set stationIds) sts)"

definition readLatestActiveBySiteId :: "intent list \<Rightarrow> string \<Rightarrow> int \<Rightarrow> intent option" where
  "readLatestActiveBySiteId intents siteId atTime =
     (case sort_key (\<lambda>i. - in_createdAt i) (filter (\<lambda>i. in_siteId i = siteId \<and> atTime < in_expiresAt i) intents) of
        [] \<Rightarrow> None
      | i # _ \<Rightarrow> Some i)"

definition readLatestEnergyTransferPolicy :: "ems_env \<Rightarrow> string \<Rightarrow> policy_row option" where
  "readLatestEnergyTransferPolicy env stationId =
     (case en_policies env of
        None \<Rightarrow> None
      | Some rows \<Rightarrow> find (\<lambda>r. pr_transactionId r \<noteq> ''__diag_afrrsignal__'') (take 20 (rows stationId)))"

definition isSmartChargingEnabled :: "ems_env \<Rightarrow> string \<Rightarrow> bool" where
  "isSmartChargingEnabled env stationId =
     (case en_smartCharging env of
        None \<Rightarrow> True
      | Some read \<Rightarrow> (case read stationId of [] \<Rightarrow> True | v # _ \<Rightarrow> v \<noteq> Some ''false''))"

section \<open>Eligibility\<close>

abbreviation protocol21 :: string where
  "protocol21 \<equiv> version_str OCPP2_1"

abbreviation protocol201 :: string where
  "protocol201 \<equiv> version_str OCPP2_0_1"

definition isSupportedProtocol :: "string option \<Rightarrow> bool" where
  "isSupportedProtocol protocol = (protocol = Some protocol21 \<or> protocol = Some protocol201)"

definition supportsChargingProfiles :: "station \<Rightarrow> bool" where
  "supportsChargingProfiles st =
     (if st_protocol st = Some protocol21 then True
      else case st_capabilities st of None \<Rightarrow> True | Some cs \<Rightarrow> ''ChargingProfileCapable'' \<in> set cs)"

definition supportsRequestedEvse :: "station \<Rightarrow> int \<Rightarrow> bool" where
  "supportsRequestedEvse st evseId =
     (if st_protocol st = Some protocol21 then True
      else case st_evses st of None \<Rightarrow> True | Some es \<Rightarrow> es = [] \<or> evseId \<in> set es)"

definition supportsRequestedOperationMode :: "string option \<Rightarrow> string \<Rightarrow> bool" where
  "supportsRequestedOperationMode protocol operationMode =
     (if protocol = Some protocol21 then True
      else operationMode = ''ExternalLimits'' \<or> operationMode = ''ChargingOnly'')"

definition protocol_label :: "string option \<Rightarrow> string" where
  "protocol_label p = (case p of None \<Rightarrow> ''unknown'' | Some v \<Rightarrow> v)"

definition getEligibilityReason ::
  "ems_env \<Rightarrow> station option \<Rightarrow> string \<Rightarrow> string \<Rightarrow> int \<Rightarrow> string \<Rightarrow> string option" where
  "getEligibilityReason env station strategy operationMode evseId stationId =
     (case station of
        None \<Rightarrow> Some ''Station not found''
      | Some st \<Rightarrow>
          if \<not> isSupportedProtocol (st_protocol st)
          then Some (''Station protocol '' @ protocol_label (st_protocol st)
                     @ '' is not compatible with EMS charging-profile fallback'')
          else if \<not> supportsRequestedOperationMode (st_protocol st) operationMode
          then Some (''Station protocol '' @ protocol_label (st_protocol st)
                     @ '' is not compatible with requested operation mode'')
          else if \<not> supportsChargingProfiles st
          then Some ''Station does not advertise ChargingProfileCapable capability''
          else if \<not> supportsRequestedEvse st evseId
          then Some ''Requested EVSE is not present on station''
          else if \<not> isSmartChargingEnabled env stationId
          then Some ''SmartChargingCtrlr.Enabled is false in device model''
          else if strategy \<noteq> ''equal_share_all'' \<and> st_isOnline st \<noteq> Some True
          then Some ''Station is offline''
          else None)"

section \<open>The plan\<close>

definition charge_budget :: "jsval \<Rightarrow> js_num" where
  "charge_budget constraints =
     max_zero (js_or (number_or (js_prop ''evChargeBudgetW'' constraints) NaN)
                     (number_or (js_prop ''maxImportW'' constraints) (Fin 0)))"

definition discharge_budget :: "jsval \<Rightarrow> js_num" where
  "discharge_budget constraints =
     max_zero (js_or (number_or (js_prop ''evDischargeBudgetW'' constraints) NaN)
                     (number_or (js_prop ''maxExportW'' constraints) (Fin 0)))"

definition js_dedup :: "'a list \<Rightarrow> 'a list" where
  "js_dedup xs = rev (remdups (rev xs))"

definition discharge_limit :: "rat option \<Rightarrow> js_num \<Rightarrow> js_num option" where
  "discharge_limit cap alloc =
     (if above_zero alloc \<and> cap \<noteq> None then Some (min_num (the cap) alloc)
      else if above_zero alloc then Some alloc
      else map_option Fin cap)"

definition recommend ::
  "ems_env \<Rightarrow> plan_request \<Rightarrow> intent \<Rightarrow> (string \<Rightarrow> station option) \<Rightarrow> (string \<Rightarrow> string option)
   \<Rightarrow> js_num \<Rightarrow> js_num \<Rightarrow> string \<Rightarrow> recommendation" where
  "recommend env request currentIntent stationsById reason_of perStationLimitW perStationDischargeLimitW stationId =
     (let station = stationsById stationId; reason = reason_of stationId; eligible = (reason = None);
          policy = readLatestEnergyTransferPolicy env stationId;
          cap = Option.bind policy pr_dischargeLimitW
      in \<lparr> rc_stationId = stationId,
           rc_isOnline = Option.bind station st_isOnline,
           rc_protocol = Option.bind station st_protocol,
           rc_eligible = eligible,
           rc_eligibilityReason = (if eligible then None else reason),
           rc_evseId = rq_evseId request,
           rc_purpose = rq_purpose request,
           rc_kind = ''Dynamic'',
           rc_rateUnit = ''W'',
           rc_operationMode = rq_operationMode request,
           rc_limitW = (if eligible then perStationLimitW else Fin 0),
           rc_exportAllowed = True,
           rc_dischargeLimitW = discharge_limit cap perStationDischargeLimitW,
           rc_sourceIntent = in_messageId currentIntent \<rparr>)"

definition stations_by_id :: "station list \<Rightarrow> string list \<Rightarrow> string \<Rightarrow> station option" where
  "stations_by_id sts ids = map_of (rev (map (\<lambda>s. (nat_str (st_id s), s)) (getChargingStationsByIds sts ids)))"

definition reason_for :: "ems_env \<Rightarrow> plan_request \<Rightarrow> string \<Rightarrow> string option" where
  "reason_for env request stationId =
     getEligibilityReason env (stations_by_id (en_stations env) (js_dedup (rq_stationIds request)) stationId)
       (rq_strategy request) (rq_operationMode request) (rq_evseId request) stationId"

definition deriveChargingPlan :: "ems_env \<Rightarrow> plan_request \<Rightarrow> plan option" where
  "deriveChargingPlan env request =
     (case readLatestActiveBySiteId (en_intents env) (rq_siteId request) (en_now env) of
        None \<Rightarrow> None
      | Some currentIntent \<Rightarrow>
          let requestedStationIds = js_dedup (rq_stationIds request);
              totalBudgetW = charge_budget (in_constraints currentIntent);
              totalDischargeBudgetW = discharge_budget (in_constraints currentIntent);
              reason_of = reason_for env request;
              eligibleStationIds = filter (\<lambda>s. reason_of s = None) requestedStationIds;
              n = length eligibleStationIds;
              perStationLimitW = (if 0 < n then div_count totalBudgetW n else Fin 0);
              perStationDischargeLimitW =
                (if 0 < n \<and> above_zero totalDischargeBudgetW then div_count totalDischargeBudgetW n else Fin 0)
          in Some \<lparr> pl_siteId = rq_siteId request,
                    pl_sourceIntent = in_messageId currentIntent,
                    pl_totalBudgetW = totalBudgetW,
                    pl_eligibleCount = n,
                    pl_strategy = rq_strategy request,
                    pl_recommendations =
                      map (recommend env request currentIntent
                             (stations_by_id (en_stations env) requestedStationIds) reason_of
                             perStationLimitW perStationDischargeLimitW) requestedStationIds \<rparr>)"

section \<open>Shares of the budget\<close>

fun fin_of :: "js_num \<Rightarrow> rat" where
  "fin_of (Fin q) = q"
| "fin_of NaN = 0"
| "fin_of (Inf b) = 0"

lemma js_dedup_set [simp]: "set (js_dedup xs) = set xs"
  by (simp add: js_dedup_def)

lemma distinct_js_dedup [simp]: "distinct (js_dedup xs)"
  by (simp add: js_dedup_def)

lemma max_zero_nonneg: "max_zero n = Fin q \<Longrightarrow> 0 \<le> q"
  by (cases n) (auto split: if_splits)

lemma charge_budget_nonneg: "charge_budget c = Fin q \<Longrightarrow> 0 \<le> q"
  unfolding charge_budget_def by (rule max_zero_nonneg)

lemma recommend_simps [simp]:
  "rc_stationId (recommend env rq i sts rs l d s) = s"
  "rc_eligible (recommend env rq i sts rs l d s) \<longleftrightarrow> rs s = None"
  "rc_eligibilityReason (recommend env rq i sts rs l d s) = rs s"
  "rc_limitW (recommend env rq i sts rs l d s) = (if rs s = None then l else Fin 0)"
  "rc_exportAllowed (recommend env rq i sts rs l d s)"
  "rc_dischargeLimitW (recommend env rq i sts rs l d s)
     = discharge_limit (Option.bind (readLatestEnergyTransferPolicy env s) pr_dischargeLimitW) d"
  by (simp_all add: recommend_def Let_def)

lemma sum_shares: "(\<Sum>x\<leftarrow>xs. if P x then q else 0) = of_nat (length (filter P xs)) * (q :: rat)"
  by (induction xs) (simp_all add: algebra_simps)

lemma sum_list_le_shares:
  "(\<And>x. x \<in> set xs \<Longrightarrow> f x \<le> q) \<Longrightarrow> sum_list (map f xs) \<le> of_nat (length xs) * (q :: rat)"
  by (induction xs) (force simp: algebra_simps)+

text \<open>The parts of the plan of a site with an active intent.\<close>

definition plan_count :: "ems_env \<Rightarrow> plan_request \<Rightarrow> nat" where
  "plan_count env rq = length (filter (\<lambda>s. reason_for env rq s = None) (js_dedup (rq_stationIds rq)))"

definition charge_share :: "ems_env \<Rightarrow> plan_request \<Rightarrow> intent \<Rightarrow> js_num" where
  "charge_share env rq i =
     (if 0 < plan_count env rq then div_count (charge_budget (in_constraints i)) (plan_count env rq) else Fin 0)"

definition discharge_share :: "ems_env \<Rightarrow> plan_request \<Rightarrow> intent \<Rightarrow> js_num" where
  "discharge_share env rq i =
     (if 0 < plan_count env rq \<and> above_zero (discharge_budget (in_constraints i))
      then div_count (discharge_budget (in_constraints i)) (plan_count env rq) else Fin 0)"

lemma derive_plan:
  assumes "readLatestActiveBySiteId (en_intents env) (rq_siteId rq) (en_now env) = Some i"
    and "deriveChargingPlan env rq = Some p"
  shows "pl_totalBudgetW p = charge_budget (in_constraints i)" "pl_eligibleCount p = plan_count env rq"
    "pl_recommendations p =
       map (recommend env rq i (stations_by_id (en_stations env) (js_dedup (rq_stationIds rq))) (reason_for env rq)
         (charge_share env rq i) (discharge_share env rq i)) (js_dedup (rq_stationIds rq))"
  using assms unfolding deriveChargingPlan_def plan_count_def charge_share_def discharge_share_def Let_def by auto

text \<open>An eligible station gets at most its share of the discharge budget.\<close>

lemma discharge_limit_le:
  "0 < q \<Longrightarrow> \<exists>w. discharge_limit cap (Fin q) = Some (Fin w) \<and> w \<le> q"
  by (cases cap) (auto simp: discharge_limit_def)

lemma plan_count_pos:
  "s \<in> set (rq_stationIds rq) \<Longrightarrow> reason_for env rq s = None \<Longrightarrow> 0 < plan_count env rq"
  by (auto simp: plan_count_def filter_empty_conv)

lemma charge_shares:
  assumes i: "readLatestActiveBySiteId (en_intents env) (rq_siteId rq) (en_now env) = Some i"
    and b: "charge_budget (in_constraints i) = Fin B" and p: "deriveChargingPlan env rq = Some p"
  shows "pl_totalBudgetW p = Fin B \<and> 0 \<le> B
    \<and> map rc_stationId (pl_recommendations p) = js_dedup (rq_stationIds rq)
    \<and> (\<forall>r \<in> set (pl_recommendations p).
          rc_limitW r = Fin (if rc_eligible r then B / of_nat (pl_eligibleCount p) else 0))
    \<and> (\<Sum>r\<leftarrow>pl_recommendations p. fin_of (rc_limitW r)) = (if pl_eligibleCount p = 0 then 0 else B)"
proof -
  note q = derive_plan [OF i p]
  let ?n = "plan_count env rq"
  have l: "charge_share env rq i = Fin (if 0 < ?n then B / of_nat ?n else 0)"
    by (simp add: b charge_share_def)
  have sum: "(\<Sum>r\<leftarrow>pl_recommendations p. fin_of (rc_limitW r)) = of_nat ?n * (if 0 < ?n then B / of_nat ?n else 0)"
    unfolding q(3) l by (simp add: o_def if_distrib [of fin_of] sum_shares plan_count_def cong: if_cong)
  have "\<forall>r \<in> set (pl_recommendations p). rc_limitW r = Fin (if rc_eligible r then B / of_nat ?n else 0)"
    unfolding q(3) l using plan_count_pos [of _ rq env] by auto
  moreover have "map rc_stationId (pl_recommendations p) = js_dedup (rq_stationIds rq)"
    unfolding q(3) by (simp add: o_def)
  ultimately show ?thesis
    using q(1,2) b charge_budget_nonneg [OF b] sum by auto
qed

lemma discharge_shares:
  assumes i: "readLatestActiveBySiteId (en_intents env) (rq_siteId rq) (en_now env) = Some i"
    and d: "discharge_budget (in_constraints i) = Fin D" "0 < D" and p: "deriveChargingPlan env rq = Some p"
  shows "(\<Sum>r\<leftarrow>filter rc_eligible (pl_recommendations p). fin_of (the (rc_dischargeLimitW r))) \<le> D"
proof -
  note q = derive_plan [OF i p]
  let ?n = "plan_count env rq" and ?E = "filter rc_eligible (pl_recommendations p)"
  have len: "length ?E = ?n" unfolding q(3) by (simp add: filter_map o_def plan_count_def)
  have "fin_of (the (rc_dischargeLimitW r)) \<le> D / of_nat ?n" if r: "r \<in> set ?E" for r
  proof -
    from r have n: "0 < ?n" using len by (cases ?E) auto
    then have share: "discharge_share env rq i = Fin (D / of_nat ?n)" by (simp add: discharge_share_def d)
    obtain s where "r = recommend env rq i (stations_by_id (en_stations env) (js_dedup (rq_stationIds rq)))
        (reason_for env rq) (charge_share env rq i) (discharge_share env rq i) s"
      using r unfolding q(3) by auto
    then show ?thesis
      using discharge_limit_le [of "D / of_nat ?n"
          "Option.bind (readLatestEnergyTransferPolicy env s) pr_dischargeLimitW"] n d(2) share by fastforce
  qed
  from sum_list_le_shares [of ?E, OF this] show ?thesis using len d(2) by (cases "?n = 0") simp_all
qed

section \<open>Properties\<close>


definition demo_station :: "nat \<Rightarrow> string \<Rightarrow> station" where
  "demo_station n name = \<lparr> st_id = n, st_name = name, st_isOnline = Some True, st_protocol = Some protocol21,
     st_capabilities = None, st_evses = None \<rparr>"

definition demo_intent :: "jsval \<Rightarrow> intent" where
  "demo_intent c = \<lparr> in_siteId = ''site'', in_messageId = ''i1'', in_createdAt = 0, in_expiresAt = 10, in_constraints = c \<rparr>"

definition demo_ems :: "jsval \<Rightarrow> ems_env" where
  "demo_ems c = \<lparr> en_stations = [demo_station 1 ''a'', demo_station 2 ''b''], en_intents = [demo_intent c], en_now = 1,
     en_smartCharging = None,
     en_policies = Some (\<lambda>s. [\<lparr> pr_transactionId = ''t'', pr_exportEnabled = Some False, pr_dischargeLimitW = Some 5000 \<rparr>]) \<rparr>"

definition demo_plan_request :: plan_request where
  "demo_plan_request = \<lparr> rq_siteId = ''site'', rq_stationIds = [''1'', ''2''], rq_evseId = 1,
     rq_strategy = ''equal_share_all'', rq_profileOption = None, rq_purpose = ''ChargingStationMaxProfile'',
     rq_operationMode = ''ExternalLimits'', rq_applicationPath = None \<rparr>"

lemma demo_active:
  "readLatestActiveBySiteId (en_intents (demo_ems c)) (rq_siteId demo_plan_request) (en_now (demo_ems c))
   = Some (demo_intent c)"
  by (simp add: readLatestActiveBySiteId_def demo_ems_def demo_plan_request_def demo_intent_def)


text \<open>A budget of 0 is not respected. A charging budget of 0 W is taken for a missing one, and the
  import limit of the site is shared in its place. With a discharge budget of 0 W every
  station with a cap of its own, eligible or not, is recommended to discharge up to that cap,
  and export is allowed even where the policy of the station disables it.\<close>

lemma zero_budget_ignored:
  assumes "readLatestActiveBySiteId (en_intents env) (rq_siteId rq) (en_now env) = Some i"
    and "js_prop ''evChargeBudgetW'' (in_constraints i) = JNum 0"
    and "js_prop ''maxImportW'' (in_constraints i) = JNum M" and "0 \<le> M"
    and "js_prop ''evDischargeBudgetW'' (in_constraints i) = JNum 0"
    and "js_prop ''maxExportW'' (in_constraints i) \<in> {JUndef, JNum 0}"
    and "s \<in> set (rq_stationIds rq)"
    and "readLatestEnergyTransferPolicy env s = Some row" and "pr_dischargeLimitW row = Some cap"
  shows "\<exists>p r. deriveChargingPlan env rq = Some p \<and> pl_totalBudgetW p = Fin M
    \<and> r \<in> set (pl_recommendations p) \<and> rc_stationId r = s
    \<and> rc_dischargeLimitW r = Some (Fin cap) \<and> rc_exportAllowed r"
proof -
  obtain p where p: "deriveChargingPlan env rq = Some p"
    using assms(1) unfolding deriveChargingPlan_def Let_def by simp
  note q = derive_plan [OF assms(1) p]
  have c: "charge_budget (in_constraints i) = Fin M"
    using assms(2-4) by (simp add: charge_budget_def number_or_def js_or_def)
  have "discharge_budget (in_constraints i) = Fin 0"
    using assms(5,6) by (auto simp: discharge_budget_def number_or_def js_or_def)
  then have d: "discharge_share env rq i = Fin 0" by (simp add: discharge_share_def)
  let ?r = "recommend env rq i (stations_by_id (en_stations env) (js_dedup (rq_stationIds rq))) (reason_for env rq)
         (charge_share env rq i) (discharge_share env rq i) s"
  have "?r \<in> set (pl_recommendations p)" unfolding q(3) using assms(7) by simp
  moreover have "rc_dischargeLimitW ?r = Some (Fin cap)"
    using assms(8,9) by (simp add: d discharge_limit_def)
  ultimately show ?thesis using p q(1) c recommend_simps(1,5) by metis
qed

lemma zero_budget_ignored_witness:
  "\<exists>p r. deriveChargingPlan
       (demo_ems (JObj [(''evChargeBudgetW'', JNum 0), (''maxImportW'', JNum 9000), (''evDischargeBudgetW'', JNum 0)]))
         demo_plan_request = Some p \<and> pl_totalBudgetW p = Fin 9000 \<and> r \<in> set (pl_recommendations p)
       \<and> rc_dischargeLimitW r = Some (Fin 5000)"
  using zero_budget_ignored [OF demo_active,
      of "JObj [(''evChargeBudgetW'', JNum 0), (''maxImportW'', JNum 9000), (''evDischargeBudgetW'', JNum 0)]" 9000 "''1''"]
  by (fastforce simp: demo_intent_def demo_plan_request_def demo_ems_def readLatestEnergyTransferPolicy_def)

text \<open>A plan knows stations by their database id only. A station asked for by its connection name
  is reported as not found although the repository returns it, and for a station asked for by
  its id the SmartChargingCtrlr.Enabled that is stored under its connection name is never
  read: changing it changes nothing.\<close>

lemma stations_known_by_id:
  assumes "st \<in> set (en_stations env)" and "st_name st \<in> set (rq_stationIds rq)"
    and "\<forall>s \<in> set (en_stations env). nat_str (st_id s) \<noteq> st_name st"
    and "en_smartCharging env = Some read" and "other \<notin> set (rq_stationIds rq)"
  shows "st \<in> set (getChargingStationsByIds (en_stations env) (rq_stationIds rq))
    \<and> reason_for env rq (st_name st) = Some ''Station not found''
    \<and> deriveChargingPlan (env\<lparr> en_smartCharging := Some (read(other := vs)) \<rparr>) rq = deriveChargingPlan env rq"
proof -
  have f: "st \<in> set (getChargingStationsByIds (en_stations env) (rq_stationIds rq))"
    using assms(1,2) by (auto simp: getChargingStationsByIds_def)
  have "stations_by_id (en_stations env) ids (st_name st) = None" for ids
    using assms(3) by (auto simp: stations_by_id_def map_of_eq_None_iff getChargingStationsByIds_def)
  then have r: "reason_for env rq (st_name st) = Some ''Station not found''"
    by (simp add: reason_for_def getEligibilityReason_def)
  let ?env = "env\<lparr> en_smartCharging := Some (read(other := vs)) \<rparr>"
  have e: "reason_for ?env rq s = reason_for env rq s" if "s \<noteq> other" for s
    using that assms(4)
    by (simp add: reason_for_def getEligibilityReason_def isSmartChargingEnabled_def split: option.split)
  have n: "s \<in> set (js_dedup (rq_stationIds rq)) \<Longrightarrow> s \<noteq> other" for s using assms(5) by auto
  have rec: "recommend ?env rq i sts (reason_for ?env rq) l d s = recommend env rq i sts (reason_for env rq) l d s"
    if "s \<in> set (js_dedup (rq_stationIds rq))" for i sts l d s
    using e [OF n [OF that]] by (simp add: recommend_def Let_def readLatestEnergyTransferPolicy_def)
  have "filter (\<lambda>s. reason_for ?env rq s = None) (js_dedup (rq_stationIds rq))
      = filter (\<lambda>s. reason_for env rq s = None) (js_dedup (rq_stationIds rq))"
    using e n by (intro filter_cong) auto
  then have "deriveChargingPlan ?env rq = deriveChargingPlan env rq"
    unfolding deriveChargingPlan_def Let_def using rec by (auto split: option.split intro!: map_cong)
  with f r show ?thesis by blast
qed

lemma nat_str_demo: "nat_str 1 = ''1''" "nat_str 2 = ''2''"
  by code_simp+

lemma stations_known_by_id_witness:
  "reason_for ((demo_ems JUndef)\<lparr> en_smartCharging := Some (\<lambda>s. []) \<rparr>)
     (demo_plan_request\<lparr> rq_stationIds := [''a''] \<rparr>) ''a'' = Some ''Station not found''"
proof -
  let ?env = "(demo_ems JUndef)\<lparr> en_smartCharging := Some (\<lambda>s. []) \<rparr>"
  have "\<forall>s \<in> set (en_stations ?env). nat_str (st_id s) \<noteq> st_name (demo_station 1 ''a'')"
    by (simp add: demo_ems_def demo_station_def nat_str_demo [simplified])
  from stations_known_by_id [OF _ _ this, of "demo_plan_request\<lparr> rq_stationIds := [''a''] \<rparr>" "\<lambda>s. []" "''b''"]
  show ?thesis by (simp add: demo_ems_def demo_station_def)
qed

end
