(* ===== verification/EmsApply.thy ===== *)
theory EmsApply
  imports EmsPolicy Messages
begin

text \<open>
  The application of a charging plan to the stations of a site
  (packages/core/src/modules/EMS/src/module/module.ts): normalisation of the request, the
  fingerprints of the profiles applied last, the absolute and the dynamic path, and the
  comparison of the plan with the stored profiles. The state holds the fingerprints and the
  log of what was sent and stored. The confirmation of sendCall (which says that the message
  was published, not that the station accepted it), the profile and schedule ids, the clock,
  the stored profiles of a station and the outcome of storing one are the record ems_io; a
  rejected promise is an exn. The repository result of _findDynamicChargingProfile and of the
  query in reconcileChargingPlan is the list of rows the query selects, in its order.
\<close>

section \<open>Requests\<close>

definition normalizeChargingPlanRequest :: "plan_request \<Rightarrow> plan_request" where
  "normalizeChargingPlanRequest request =
     (case rq_profileOption request of
        None \<Rightarrow> request
      | Some opt \<Rightarrow>
          if opt = [] then request
          else if opt = ''maxChargingProfile''
          then request\<lparr> rq_purpose := ''ChargingStationMaxProfile'', rq_applicationPath := Some ''absolute'' \<rparr>
          else if opt = ''externalConstraints''
          then request\<lparr> rq_purpose := ''ChargingStationExternalConstraints'', rq_applicationPath := Some ''absolute'' \<rparr>
          else request\<lparr> rq_purpose := ''TxProfile'', rq_operationMode := ''ExternalLimits'',
                         rq_applicationPath := Some ''dynamic'' \<rparr>)"

definition ems_deriveChargingPlan :: "ems_env \<Rightarrow> plan_request \<Rightarrow> plan option" where
  "ems_deriveChargingPlan env request = deriveChargingPlan env (normalizeChargingPlanRequest request)"

section \<open>Fingerprints\<close>

text \<open>JSON writes a number that is not finite as null, so these coincide in a fingerprint.\<close>

record fingerprint =
  fp_applicationPath :: string
  fp_limitW :: "rat option"
  fp_dischargeLimitW :: "rat option"
  fp_operationMode :: string
  fp_rateUnit :: string
  fp_exportAllowed :: bool

fun json_num :: "js_num \<Rightarrow> rat option" where
  "json_num (Fin q) = Some q"
| "json_num NaN = None"
| "json_num (Inf b) = None"

definition buildAppliedProfileFingerprint :: "string \<Rightarrow> recommendation \<Rightarrow> fingerprint" where
  "buildAppliedProfileFingerprint path r =
     \<lparr> fp_applicationPath = path, fp_limitW = json_num (rc_limitW r),
       fp_dischargeLimitW = Option.bind (rc_dischargeLimitW r) json_num,
       fp_operationMode = rc_operationMode r, fp_rateUnit = rc_rateUnit r,
       fp_exportAllowed = rc_exportAllowed r \<rparr>"

definition fingerprint_key :: "int \<Rightarrow> recommendation \<Rightarrow> string" where
  "fingerprint_key tenantId r =
     int_str tenantId @ '':'' @ rc_stationId r @ '':'' @ int_str (rc_evseId r) @ '':'' @ rc_purpose r"

section \<open>State and environment\<close>

record profile_row =
  pf_id :: jsval
  pf_evseId :: int
  pf_schedules :: "jsval list list"      \<comment> \<open>the periods of each schedule\<close>

datatype ems_effect =
    Called string string string jsval          \<comment> \<open>connection name, protocol, action, payload\<close>
  | Slept
  | Stored string int jsval                    \<comment> \<open>connection name, evse, charging profile\<close>
  | Decision string string jsval               \<comment> \<open>station, type, reason or confirmation\<close>

record ems_state =
  es_fingerprints :: "string \<Rightarrow> fingerprint option"
  es_effects :: "ems_effect list"

record ems_io =
  io_confirm :: "ems_effect list \<Rightarrow> exn + confirmation"
  io_profileId :: "ems_effect list \<Rightarrow> string \<Rightarrow> rat"
  io_scheduleId :: "ems_effect list \<Rightarrow> string \<Rightarrow> rat"
  io_store :: "ems_effect list \<Rightarrow> exn + unit"
  io_clock :: string
  io_dynamic :: "string \<Rightarrow> profile_row list"   \<comment> \<open>active dynamic profiles, latest first\<close>

record apply_result =
  ar_stationId :: string
  ar_applied :: bool
  ar_reason :: "string option"
  ar_profileId :: jsval
  ar_success :: bool
  ar_payload :: jsval

definition es_emit :: "ems_effect \<Rightarrow> ems_state \<Rightarrow> ems_state" where
  "es_emit e s = s\<lparr> es_effects := es_effects s @ [e] \<rparr>"

definition num_json :: "js_num \<Rightarrow> jsval" where
  "num_json n = (case json_num n of Some q \<Rightarrow> JNum q | None \<Rightarrow> JNull)"

definition ems_sendCall ::
  "ems_io \<Rightarrow> string \<Rightarrow> string \<Rightarrow> string \<Rightarrow> jsval \<Rightarrow> ems_state \<Rightarrow> (exn + confirmation) \<times> ems_state" where
  "ems_sendCall io name protocol action payload s =
     (let s1 = es_emit (Called name protocol action payload) s in (io_confirm io (es_effects s1), s1))"

definition connection_name :: "ems_env \<Rightarrow> string \<Rightarrow> string" where
  "connection_name env stationId =
     (case getChargingStationsByIds (en_stations env) [stationId] of [] \<Rightarrow> stationId | st # _ \<Rightarrow> st_name st)"

section \<open>The limits that are sent\<close>

definition sent_limit :: "js_num \<Rightarrow> js_num option \<Rightarrow> js_num" where
  "sent_limit limitW dischargeLimitW =
     (if above_zero limitW then limitW else if dischargeLimitW \<noteq> None then Fin 100 else Fin 0)"

fun neg_abs :: "js_num \<Rightarrow> js_num" where
  "neg_abs NaN = NaN"
| "neg_abs (Fin q) = Fin (- abs q)"
| "neg_abs (Inf b) = Inf False"

definition discharge_field :: "js_num option \<Rightarrow> (string \<times> jsval) list" where
  "discharge_field d = (case d of None \<Rightarrow> [] | Some n \<Rightarrow> [(''dischargeLimit'', num_json (neg_abs n))])"

definition charging_profile :: "recommendation \<Rightarrow> rat \<Rightarrow> rat \<Rightarrow> string \<Rightarrow> jsval" where
  "charging_profile r profileId scheduleId now =
     (let fallbackPurpose =
            (if rc_purpose r \<in> {''TxProfile'', ''TxDefaultProfile'', ''ChargingStationMaxProfile''}
             then rc_purpose r else ''ChargingStationMaxProfile'');
          v21 = (rc_protocol r = Some protocol21);
          purpose = (if v21 then rc_purpose r else fallbackPurpose);
          period =
            (if v21
             then [(''startPeriod'', JNum 0),
                   (''limit'', num_json (sent_limit (rc_limitW r) (rc_dischargeLimitW r))),
                   (''operationMode'', JStr (rc_operationMode r))] @ discharge_field (rc_dischargeLimitW r)
             else [(''startPeriod'', JNum 0), (''limit'', num_json (rc_limitW r))])
      in JObj [(''id'', JNum profileId), (''stackLevel'', JNum 0), (''chargingProfilePurpose'', JStr purpose),
               (''chargingProfileKind'', JStr ''Absolute''), (''validFrom'', JStr now),
               (''chargingSchedule'', JArr [JObj [(''id'', JNum scheduleId), (''chargingRateUnit'', JStr ''W''),
                  (''startSchedule'', JStr now), (''chargingSchedulePeriod'', JArr [JObj period])]])])"

definition clear_max_profile :: jsval where
  "clear_max_profile =
     JObj [(''chargingProfileCriteria'',
        JObj [(''chargingProfilePurpose'', JStr ''ChargingStationMaxProfile''), (''stackLevel'', JNum 0),
              (''evseId'', JNum 0)])]"

definition station_level_purposes :: "string list" where
  "station_level_purposes = [''ChargingStationMaxProfile'', ''ChargingStationExternalConstraints'']"

section \<open>The dynamic path\<close>

definition findDynamicChargingProfile :: "ems_io \<Rightarrow> string \<Rightarrow> int \<Rightarrow> profile_row option" where
  "findDynamicChargingProfile io name evseId =
     (case find (\<lambda>p. pf_evseId p = evseId) (io_dynamic io name) of
        Some p \<Rightarrow> Some p
      | None \<Rightarrow> (case io_dynamic io name of [] \<Rightarrow> None | p # _ \<Rightarrow> Some p))"

fun toFiniteNumber :: "jsval \<Rightarrow> rat option" where
  "toFiniteNumber (JNum q) = Some q"
| "toFiniteNumber (JStr s) =
     (if trim_str s = [] then None else case js_number s of Fin q \<Rightarrow> Some q | _ \<Rightarrow> None)"
| "toFiniteNumber _ = None"

definition setpoint_of :: "jsval \<Rightarrow> rat option" where
  "setpoint_of period =
     (let v = js_prop ''setpoint'' period
      in toFiniteNumber (if v = JUndef \<or> v = JNull then js_prop ''setPoint'' period else v))"

definition active_period :: "profile_row \<Rightarrow> jsval" where
  "active_period p =
     (let periods = concat (pf_schedules p)
      in case find (\<lambda>d. setpoint_of d \<noteq> None) periods of
           Some d \<Rightarrow> d
         | None \<Rightarrow> (case periods of [] \<Rightarrow> JUndef | d # _ \<Rightarrow> d))"

definition resolved_operation_mode :: "jsval \<Rightarrow> string \<Rightarrow> string" where
  "resolved_operation_mode period requested =
     (case js_prop ''operationMode'' period of
        JStr existing \<Rightarrow>
          if setpoint_of period \<noteq> None \<and> requested = ''ExternalLimits''
             \<and> (existing = ''CentralSetpoint'' \<or> existing = ''ExternalSetpoint'')
          then existing else requested
      | _ \<Rightarrow> requested)"

definition schedule_update :: "jsval \<Rightarrow> js_num \<Rightarrow> js_num option \<Rightarrow> string \<Rightarrow> jsval" where
  "schedule_update period limitW dischargeLimitW operationMode =
     JObj ([(''limit'', num_json (sent_limit limitW dischargeLimitW)),
            (''operationMode'', JStr (resolved_operation_mode period operationMode))]
           @ (case setpoint_of period of None \<Rightarrow> [] | Some q \<Rightarrow> [(''setpoint'', JNum q)])
           @ discharge_field dischargeLimitW)"

text \<open>A profile id that is a positive integer.\<close>

definition positive_id :: "jsval \<Rightarrow> rat option" where
  "positive_id v = (case loose_num v of Fin q \<Rightarrow> if of_int \<lfloor>q\<rfloor> = q \<and> 0 < q then Some q else None | _ \<Rightarrow> None)"

record dynamic_result =
  dy_applied :: bool
  dy_reason :: "string option"
  dy_profileId :: jsval
  dy_payload :: jsval

definition not_applied :: "string \<Rightarrow> dynamic_result" where
  "not_applied reason = \<lparr> dy_applied = False, dy_reason = Some reason, dy_profileId = JNull, dy_payload = JUndef \<rparr>"

definition string_of_payload :: "jsval \<Rightarrow> string" where
  "string_of_payload v = (case js_to_string v of Some s \<Rightarrow> s | None \<Rightarrow> [])"

definition applyDynamicSchedule ::
  "ems_io \<Rightarrow> string \<Rightarrow> recommendation \<Rightarrow> ems_state \<Rightarrow> (exn + dynamic_result) \<times> ems_state" where
  "applyDynamicSchedule io name r s =
     (if rc_protocol r \<noteq> Some protocol21
      then (Inr (not_applied (''Dynamic path requires OCPP 2.1, got '' @ protocol_label (rc_protocol r))), s)
      else case findDynamicChargingProfile io name (rc_evseId r) of
        None \<Rightarrow> (Inr (not_applied ''No active Dynamic charging profile found to update.''), s)
      | Some p \<Rightarrow>
          (case positive_id (pf_id p) of
             None \<Rightarrow> (Inr (not_applied ''No active Dynamic charging profile found to update.''), s)
           | Some profileId \<Rightarrow>
               let update = schedule_update (active_period p) (rc_limitW r) (rc_dischargeLimitW r) (rc_operationMode r);
                   (result, s1) = ems_sendCall io name protocol21 ''UpdateDynamicSchedule''
                     (JObj [(''chargingProfileId'', JNum profileId), (''scheduleUpdate'', update)]) s
               in (bind_res result (\<lambda>c.
                     let accepted = (conf_success c \<and> (let status = js_prop ''status'' (conf_payload c) in \<not> truthy status \<or> status = JStr ''Accepted''))
                     in Inr \<lparr> dy_applied = accepted,
                              dy_reason = Some (if accepted then ''Applied UpdateDynamicSchedule''
                                                else string_of_payload (conf_payload c)),
                              dy_profileId = JNum profileId, dy_payload = conf_payload c \<rparr>), s1)))"

section \<open>Applying one recommendation\<close>

definition skipped :: "recommendation \<Rightarrow> string \<Rightarrow> bool \<Rightarrow> apply_result" where
  "skipped r reason success =
     \<lparr> ar_stationId = rc_stationId r, ar_applied = False, ar_reason = Some reason, ar_profileId = JUndef,
       ar_success = success, ar_payload = JUndef \<rparr>"

definition skip ::
  "recommendation \<Rightarrow> string \<Rightarrow> bool \<Rightarrow> ems_state \<Rightarrow> (exn + apply_result) \<times> ems_state" where
  "skip r reason success s =
     (Inr (skipped r reason success), es_emit (Decision (rc_stationId r) ''apply_skipped'' (JStr reason)) s)"

definition record_fingerprint :: "bool \<Rightarrow> string \<Rightarrow> fingerprint \<Rightarrow> ems_state \<Rightarrow> ems_state" where
  "record_fingerprint applied key fp s =
     (if applied then s\<lparr> es_fingerprints := (es_fingerprints s)(key \<mapsto> fp) \<rparr> else s)"

definition apply_dynamic ::
  "ems_io \<Rightarrow> int \<Rightarrow> string \<Rightarrow> recommendation \<Rightarrow> ems_state \<Rightarrow> (exn + apply_result) \<times> ems_state" where
  "apply_dynamic io tenantId name r s =
     (let (result, s1) = applyDynamicSchedule io name r s
      in case result of
           Inl e \<Rightarrow> (Inl e, s1)
         | Inr d \<Rightarrow>
             let s2 = record_fingerprint (dy_applied d) (fingerprint_key tenantId r)
                        (buildAppliedProfileFingerprint ''dynamic'' r) s1;
                 s3 = es_emit (Decision (rc_stationId r) (if dy_applied d then ''apply_result'' else ''apply_skipped'')
                        (dy_payload d)) s2
             in (Inr \<lparr> ar_stationId = rc_stationId r, ar_applied = dy_applied d, ar_reason = dy_reason d,
                       ar_profileId = dy_profileId d, ar_success = dy_applied d, ar_payload = dy_payload d \<rparr>, s3))"

text \<open>The clearing of the previous maximum profile; its failure is ignored.\<close>

definition clear_previous :: "ems_io \<Rightarrow> string \<Rightarrow> recommendation \<Rightarrow> ems_state \<Rightarrow> ems_state" where
  "clear_previous io name r s =
     (if rc_purpose r = ''ChargingStationMaxProfile''
      then es_emit Slept (snd (ems_sendCall io name (protocol_label (rc_protocol r)) ''ClearChargingProfile''
             clear_max_profile s))
      else s)"

definition published :: "confirmation \<Rightarrow> bool" where
  "published c =
     (conf_success c \<and> (conf_payload c = JUndef \<or> conf_payload c = JNull
                        \<or> js_prop ''status'' (conf_payload c) = JStr ''Accepted''))"

definition new_profile :: "ems_io \<Rightarrow> string \<Rightarrow> recommendation \<Rightarrow> ems_state \<Rightarrow> jsval" where
  "new_profile io name r s =
     charging_profile r (io_profileId io (es_effects s) name) (io_scheduleId io (es_effects s) name) (io_clock io)"

definition set_profile ::
  "ems_io \<Rightarrow> string \<Rightarrow> recommendation \<Rightarrow> ems_state \<Rightarrow> (exn + confirmation) \<times> ems_state" where
  "set_profile io name r s =
     (let ocppEvseId = (if rc_purpose r \<in> set station_level_purposes then 0 else rc_evseId r)
      in ems_sendCall io name (protocol_label (rc_protocol r)) ''SetChargingProfile''
           (JObj [(''evseId'', JNum (of_int ocppEvseId)), (''chargingProfile'', new_profile io name r s)])
           (clear_previous io name r s))"

definition applied_result :: "recommendation \<Rightarrow> jsval \<Rightarrow> confirmation \<Rightarrow> apply_result" where
  "applied_result r profileId c =
     \<lparr> ar_stationId = rc_stationId r, ar_applied = published c,
       ar_reason = (if published c
          then (if rc_protocol r = Some protocol201
                then Some ''Applied OCPP 2.0.1 Absolute-profile fallback'' else None)
          else Some (string_of_payload (conf_payload c))),
       ar_profileId = profileId, ar_success = published c, ar_payload = conf_payload c \<rparr>"

definition finish_absolute ::
  "ems_io \<Rightarrow> int \<Rightarrow> string \<Rightarrow> string \<Rightarrow> recommendation \<Rightarrow> jsval \<Rightarrow> confirmation \<Rightarrow> ems_state
   \<Rightarrow> (exn + apply_result) \<times> ems_state" where
  "finish_absolute io tenantId name path r profile c s =
     (let s1 = es_emit (Stored name (rc_evseId r) profile)
                 (record_fingerprint (published c) (fingerprint_key tenantId r)
                    (buildAppliedProfileFingerprint path r) s)
      in case io_store io (es_effects s1) of
           Inl e \<Rightarrow> (Inl e, s1)
         | Inr _ \<Rightarrow> (Inr (applied_result r (js_prop ''id'' profile) c),
                     es_emit (Decision (rc_stationId r) ''apply_result'' (conf_payload c)) s1))"

definition apply_absolute ::
  "ems_io \<Rightarrow> int \<Rightarrow> string \<Rightarrow> string \<Rightarrow> recommendation \<Rightarrow> ems_state \<Rightarrow> (exn + apply_result) \<times> ems_state" where
  "apply_absolute io tenantId name path r s =
     (case set_profile io name r s of
        (Inl e, s1) \<Rightarrow> (Inl e, s1)
      | (Inr c, s1) \<Rightarrow> finish_absolute io tenantId name path r (new_profile io name r s) c s1)"

definition incompatible :: "recommendation \<Rightarrow> string" where
  "incompatible r = ''Station protocol '' @ protocol_label (rc_protocol r)
     @ '' is not compatible with EMS charging-profile fallback''"

definition apply_one ::
  "ems_env \<Rightarrow> ems_io \<Rightarrow> int \<Rightarrow> string \<Rightarrow> recommendation \<Rightarrow> ems_state \<Rightarrow> (exn + apply_result) \<times> ems_state" where
  "apply_one env io tenantId applicationPath r s =
     (if \<not> rc_eligible r
      then skip r (case rc_eligibilityReason r of Some reason \<Rightarrow> reason
                   | None \<Rightarrow> ''Station not eligible for current allocation strategy'') False s
      else if rc_protocol r \<noteq> Some protocol21 \<and> rc_protocol r \<noteq> Some protocol201
      then skip r (incompatible r) False s
      else if applicationPath \<noteq> ''dynamic''
              \<and> es_fingerprints s (fingerprint_key tenantId r) = Some (buildAppliedProfileFingerprint applicationPath r)
      then skip r ''No change from last applied profile'' True s
      else if applicationPath = ''dynamic''
      then apply_dynamic io tenantId (connection_name env (rc_stationId r)) r s
      else apply_absolute io tenantId (connection_name env (rc_stationId r)) applicationPath r s)"

fun apply_all ::
  "ems_env \<Rightarrow> ems_io \<Rightarrow> int \<Rightarrow> string \<Rightarrow> recommendation list \<Rightarrow> ems_state \<Rightarrow> (exn + apply_result list) \<times> ems_state" where
  "apply_all env io tenantId path [] s = (Inr [], s)"
| "apply_all env io tenantId path (r # rs) s =
     (case apply_one env io tenantId path r s of
        (Inl e, s1) \<Rightarrow> (Inl e, s1)
      | (Inr a, s1) \<Rightarrow>
          (case apply_all env io tenantId path rs s1 of
             (Inl e, s2) \<Rightarrow> (Inl e, s2)
           | (Inr as, s2) \<Rightarrow> (Inr (a # as), s2)))"

record apply_response =
  ap_siteId :: string
  ap_sourceIntent :: string
  ap_appliedCount :: nat
  ap_results :: "apply_result list"

definition applyChargingPlan ::
  "ems_env \<Rightarrow> ems_io \<Rightarrow> int \<Rightarrow> plan_request \<Rightarrow> ems_state \<Rightarrow> (exn + apply_response option) \<times> ems_state" where
  "applyChargingPlan env io tenantId request s =
     (let normalizedRequest = normalizeChargingPlanRequest request
      in case ems_deriveChargingPlan env normalizedRequest of
           None \<Rightarrow> (Inr None, s)
         | Some plan \<Rightarrow>
             let applicationPath = (case rq_applicationPath normalizedRequest of Some p \<Rightarrow> p | None \<Rightarrow> ''absolute'');
                 (results, s1) = apply_all env io tenantId applicationPath (pl_recommendations plan) s
             in (bind_res results (\<lambda>rs.
                   Inr (Some \<lparr> ap_siteId = pl_siteId plan, ap_sourceIntent = pl_sourceIntent plan,
                               ap_appliedCount = length (filter ar_applied rs), ap_results = rs \<rparr>)), s1))"

section \<open>Comparing the plan with the stored profiles\<close>

text \<open>A row read by a query has the schedules of the profile only when the query includes that
  association; the query of reconcileChargingPlan does not.\<close>

record stored_profile =
  sp_id :: int
  sp_schedules :: "jsval list list"

definition included_schedules :: "bool \<Rightarrow> stored_profile \<Rightarrow> jsval list list option" where
  "included_schedules incl p = (if incl then Some (sp_schedules p) else None)"

record reconcile_result =
  re_stationId :: string
  re_eligible :: bool
  re_hasActiveProfile :: bool
  re_drifted :: bool
  re_reason :: "string option"
  re_activeProfileId :: "int option"
  re_plannedLimitW :: js_num
  re_actualLimitW :: "rat option"
  re_plannedOperationMode :: string
  re_actualOperationMode :: "string option"

definition first_period :: "jsval list list option \<Rightarrow> jsval" where
  "first_period schedules =
     (case schedules of Some ((d # _) # _) \<Rightarrow> d | _ \<Rightarrow> JUndef)"

definition number_prop :: "string \<Rightarrow> jsval \<Rightarrow> rat option" where
  "number_prop k v = (case js_prop k v of JNum q \<Rightarrow> Some q | _ \<Rightarrow> None)"

definition string_prop :: "string \<Rightarrow> jsval \<Rightarrow> string option" where
  "string_prop k v = (case js_prop k v of JStr t \<Rightarrow> Some t | _ \<Rightarrow> None)"

definition limit_differs :: "rat option \<Rightarrow> js_num \<Rightarrow> bool" where
  "limit_differs actual planned = (case actual of None \<Rightarrow> True | Some q \<Rightarrow> planned \<noteq> Fin q)"

definition reconcile_one :: "bool \<Rightarrow> (string \<Rightarrow> stored_profile list) \<Rightarrow> ems_env \<Rightarrow> recommendation \<Rightarrow> reconcile_result" where
  "reconcile_one incl profiles env r =
     (let activeProfile = (case profiles (connection_name env (rc_stationId r)) of [] \<Rightarrow> None | p # _ \<Rightarrow> Some p);
          activePeriod = first_period (Option.bind activeProfile (included_schedules incl));
          actualLimitW = number_prop ''limit'' activePeriod;
          actualOperationMode = string_prop ''operationMode'' activePeriod;
          hasActiveProfile = (activeProfile \<noteq> None);
          wrong_limit = limit_differs actualLimitW (rc_limitW r);
          wrong_mode = (actualOperationMode \<noteq> Some (rc_operationMode r))
      in \<lparr> re_stationId = rc_stationId r, re_eligible = rc_eligible r, re_hasActiveProfile = hasActiveProfile,
           re_drifted = (\<not> hasActiveProfile \<or> wrong_limit \<or> wrong_mode),
           re_reason = (if \<not> rc_eligible r
              then Some (case rc_eligibilityReason r of Some reason \<Rightarrow> reason
                         | None \<Rightarrow> ''Station not eligible for current allocation strategy'')
              else if \<not> hasActiveProfile then Some ''No active EMS charging profile found''
              else if wrong_limit then Some ''Charging limit differs from planned value''
              else if wrong_mode then Some ''Operation mode differs from planned value'' else None),
           re_activeProfileId = map_option sp_id activeProfile,
           re_plannedLimitW = rc_limitW r, re_actualLimitW = actualLimitW,
           re_plannedOperationMode = rc_operationMode r, re_actualOperationMode = actualOperationMode \<rparr>)"

record reconcile_response =
  rr_siteId :: string
  rr_comparedCount :: nat
  rr_driftedCount :: nat
  rr_results :: "reconcile_result list"

definition reconcile_plan ::
  "bool \<Rightarrow> (string \<Rightarrow> stored_profile list) \<Rightarrow> ems_env \<Rightarrow> plan_request \<Rightarrow> reconcile_response option" where
  "reconcile_plan incl profiles env request =
     map_option (\<lambda>plan.
       let results = map (reconcile_one incl profiles env) (pl_recommendations plan)
       in \<lparr> rr_siteId = pl_siteId plan, rr_comparedCount = length results,
            rr_driftedCount = length (filter re_drifted results), rr_results = results \<rparr>)
     (ems_deriveChargingPlan env request)"

definition reconcileChargingPlan ::
  "(string \<Rightarrow> stored_profile list) \<Rightarrow> ems_env \<Rightarrow> plan_request \<Rightarrow> reconcile_response option" where
  "reconcileChargingPlan = reconcile_plan False"

section \<open>Fingerprints and calls\<close>

fun is_called :: "ems_effect \<Rightarrow> bool" where
  "is_called (Called n p a v) = True"
| "is_called _ = False"

definition calls_of :: "ems_state \<Rightarrow> ems_effect list" where
  "calls_of s = filter is_called (es_effects s)"

lemma es_emit_simps [simp]:
  "es_fingerprints (es_emit e s) = es_fingerprints s"
  "es_effects (es_emit e s) = es_effects s @ [e]"
  by (simp_all add: es_emit_def)

lemma calls_of_emit [simp]: "calls_of (es_emit e s) = calls_of s @ (if is_called e then [e] else [])"
  by (simp add: calls_of_def)

lemma record_fingerprint_effects [simp]:
  "es_effects (record_fingerprint b k f s) = es_effects s"
  "calls_of (record_fingerprint b k f s) = calls_of s"
  by (simp_all add: record_fingerprint_def calls_of_def)

lemma record_fingerprint_get [simp]:
  "es_fingerprints (record_fingerprint b k f s) k' = (if b \<and> k' = k then Some f else es_fingerprints s k')"
  by (simp add: record_fingerprint_def)

lemma sendCall_fingerprints [simp]: "es_fingerprints (snd (ems_sendCall io n p a v s)) = es_fingerprints s"
  by (simp add: ems_sendCall_def Let_def)

lemma clear_previous_fingerprints [simp]: "es_fingerprints (clear_previous io n r s) = es_fingerprints s"
  by (simp add: clear_previous_def)

lemma dynamic_fingerprints: "es_fingerprints (snd (applyDynamicSchedule io n r s)) = es_fingerprints s"
  by (simp add: applyDynamicSchedule_def Let_def ems_sendCall_def split: option.split)

text \<open>Applying a recommendation changes the fingerprint of its own key only.\<close>

lemma apply_dynamic_other:
  "k \<noteq> fingerprint_key t r \<Longrightarrow> es_fingerprints (snd (apply_dynamic io t n r s)) k = es_fingerprints s k"
  using dynamic_fingerprints [of io n r s]
  by (simp add: apply_dynamic_def Let_def case_prod_beta split: sum.split)

lemma set_profile_fingerprints: "es_fingerprints (snd (set_profile io n r s)) = es_fingerprints s"
  by (simp add: set_profile_def Let_def)

lemma finish_absolute_other:
  "k \<noteq> fingerprint_key t r \<Longrightarrow> es_fingerprints (snd (finish_absolute io t n p r pf c s)) k = es_fingerprints s k"
  by (simp add: finish_absolute_def Let_def split: sum.split)

lemma apply_absolute_other:
  "k \<noteq> fingerprint_key t r \<Longrightarrow> es_fingerprints (snd (apply_absolute io t n p r s)) k = es_fingerprints s k"
  using set_profile_fingerprints [of io n r s]
  by (auto simp: apply_absolute_def finish_absolute_other split: prod.split sum.split)

lemma apply_one_other:
  "k \<noteq> fingerprint_key t r \<Longrightarrow> es_fingerprints (snd (apply_one env io t p r s)) k = es_fingerprints s k"
  by (simp add: apply_one_def skip_def apply_dynamic_other apply_absolute_other)

lemma finish_absolute_success:
  "finish_absolute io t n p r pf c s = (Inr a, s') \<Longrightarrow> ar_success a \<Longrightarrow>
   es_fingerprints s' (fingerprint_key t r) = Some (buildAppliedProfileFingerprint p r)"
  by (auto simp: finish_absolute_def Let_def applied_result_def split: sum.splits)

lemma apply_absolute_success:
  "apply_absolute io t n p r s = (Inr a, s') \<Longrightarrow> ar_success a \<Longrightarrow>
   es_fingerprints s' (fingerprint_key t r) = Some (buildAppliedProfileFingerprint p r)"
  by (auto simp: apply_absolute_def finish_absolute_success split: prod.splits sum.splits)

lemma apply_one_success:
  assumes a: "apply_one env io t p r s = (Inr a, s')" "ar_success a" and p: "p \<noteq> ''dynamic''"
  shows "es_fingerprints s' (fingerprint_key t r) = Some (buildAppliedProfileFingerprint p r)"
proof (cases "es_fingerprints s (fingerprint_key t r) = Some (buildAppliedProfileFingerprint p r)")
  case True
  then show ?thesis using a p by (auto simp: apply_one_def skip_def skipped_def split: if_splits)
next
  case False
  then have "apply_absolute io t (connection_name env (rc_stationId r)) p r s = (Inr a, s')"
    using a p by (auto simp: apply_one_def skip_def skipped_def split: if_splits)
  then show ?thesis using a(2) by (rule apply_absolute_success)
qed

text \<open>A recommendation with the fingerprint applied last, or one that is not eligible, is skipped.\<close>

lemma apply_one_skips:
  assumes "rc_eligible r \<longrightarrow> es_fingerprints s (fingerprint_key t r) = Some (buildAppliedProfileFingerprint p r)"
    and "p \<noteq> ''dynamic''"
  shows "\<exists>a. apply_one env io t p r s = (Inr a, snd (apply_one env io t p r s))
    \<and> calls_of (snd (apply_one env io t p r s)) = calls_of s
    \<and> es_fingerprints (snd (apply_one env io t p r s)) = es_fingerprints s"
  using assms by (auto simp: apply_one_def skip_def)

lemma apply_all_skips:
  "\<lbrakk>\<forall>r \<in> set rs. rc_eligible r \<longrightarrow>
      es_fingerprints s (fingerprint_key t r) = Some (buildAppliedProfileFingerprint p r); p \<noteq> ''dynamic''\<rbrakk>
   \<Longrightarrow> \<exists>as. apply_all env io t p rs s = (Inr as, snd (apply_all env io t p rs s))
     \<and> calls_of (snd (apply_all env io t p rs s)) = calls_of s"
proof (induction rs arbitrary: s)
  case (Cons r rs)
  obtain a s1 where 1: "apply_one env io t p r s = (Inr a, s1)" "calls_of s1 = calls_of s"
    "es_fingerprints s1 = es_fingerprints s"
    using apply_one_skips [of r s t p env io] Cons.prems by auto
  obtain as s2 where "apply_all env io t p rs s1 = (Inr as, s2)" "calls_of s2 = calls_of s1"
    using Cons.IH [of s1] Cons.prems 1 by auto
  then show ?case using 1 by simp
qed simp

lemma apply_all_other:
  "k \<notin> fingerprint_key t ` set rs \<Longrightarrow> es_fingerprints (snd (apply_all env io t p rs s)) k = es_fingerprints s k"
proof (induction rs arbitrary: s)
  case (Cons r rs)
  obtain a s1 where 1: "apply_one env io t p r s = (a, s1)" by (cases "apply_one env io t p r s")
  then have "es_fingerprints s1 k = es_fingerprints s k"
    using apply_one_other [of k t r env io p s] Cons.prems by simp
  moreover have "es_fingerprints (snd (apply_all env io t p rs s1)) k = es_fingerprints s1 k"
    using Cons.IH [of s1] Cons.prems by simp
  ultimately show ?case using 1 by (auto split: sum.split prod.split)
qed simp

lemma apply_all_success:
  "\<lbrakk>distinct (map (fingerprint_key t) rs); p \<noteq> ''dynamic''; apply_all env io t p rs s = (Inr as, s');
    \<forall>(r, a) \<in> set (zip rs as). rc_eligible r \<longrightarrow> ar_success a; r \<in> set rs; rc_eligible r\<rbrakk>
   \<Longrightarrow> es_fingerprints s' (fingerprint_key t r) = Some (buildAppliedProfileFingerprint p r)"
proof (induction rs arbitrary: s as)
  case (Cons q rs)
  obtain a s1 where 1: "apply_one env io t p q s = (Inr a, s1)"
    using Cons.prems(3) by (auto split: prod.splits sum.splits)
  obtain bs where 2: "apply_all env io t p rs s1 = (Inr bs, s')" "as = a # bs"
    using Cons.prems(3) 1 by (auto split: prod.splits sum.splits)
  show ?case
  proof (cases "r = q")
    case True
    then have "es_fingerprints s1 (fingerprint_key t r) = Some (buildAppliedProfileFingerprint p r)"
      using apply_one_success [OF 1] 2(2) Cons.prems by simp
    moreover have "fingerprint_key t r \<notin> fingerprint_key t ` set rs" using Cons.prems(1) True by simp
    ultimately show ?thesis using apply_all_other [of "fingerprint_key t r" t rs env io p s1] 2(1) by simp
  next
    case False
    then show ?thesis using Cons.IH [OF _ Cons.prems(2) 2(1)] Cons.prems 2(2) by simp
  qed
qed simp

text \<open>The recommendations of one plan have different keys.\<close>

lemma plan_keys_distinct:
  assumes "deriveChargingPlan env rq = Some p"
  shows "distinct (map (fingerprint_key t) (pl_recommendations p))"
proof -
  obtain i where i: "readLatestActiveBySiteId (en_intents env) (rq_siteId rq) (en_now env) = Some i"
    using assms unfolding deriveChargingPlan_def by (auto split: option.splits)
  let ?rec = "recommend env rq i (stations_by_id (en_stations env) (js_dedup (rq_stationIds rq))) (reason_for env rq)
         (charge_share env rq i) (discharge_share env rq i)"
  have "inj (\<lambda>s. fingerprint_key t (?rec s))"
    by (rule injI) (simp add: fingerprint_key_def recommend_def Let_def)
  then show ?thesis
    unfolding derive_plan(3) [OF i assms] map_map o_def distinct_map using inj_on_subset by fastforce
qed

lemma apply_one_station:
  "apply_one env io t p r s = (Inr a, s') \<Longrightarrow> ar_stationId a = rc_stationId r"
  by (auto simp: apply_one_def skip_def skipped_def apply_dynamic_def apply_absolute_def finish_absolute_def
      applied_result_def Let_def split: if_splits prod.splits sum.splits)

lemma apply_all_stations:
  "apply_all env io t p rs s = (Inr as, s') \<Longrightarrow> (r, a) \<in> set (zip rs as) \<Longrightarrow> ar_stationId a = rc_stationId r"
  by (induction rs arbitrary: s as) (auto split: prod.splits sum.splits dest: apply_one_station)

lemma normalize_idem [simp]:
  "normalizeChargingPlanRequest (normalizeChargingPlanRequest rq) = normalizeChargingPlanRequest rq"
  by (simp add: normalizeChargingPlanRequest_def split: option.split)

lemma plan_eligible:
  assumes "deriveChargingPlan env rq = Some p" "r \<in> set (pl_recommendations p)"
  shows "rc_eligible r \<longleftrightarrow> reason_for env rq (rc_stationId r) = None"
proof -
  obtain i where i: "readLatestActiveBySiteId (en_intents env) (rq_siteId rq) (en_now env) = Some i"
    using assms(1) unfolding deriveChargingPlan_def by (auto split: option.splits)
  show ?thesis using assms(2) unfolding derive_plan(3) [OF i assms(1)] by auto
qed

section \<open>Properties of the application\<close>


definition demo_io :: "(ems_effect list \<Rightarrow> exn + confirmation) \<Rightarrow> ems_io" where
  "demo_io confirm = \<lparr> io_confirm = confirm, io_profileId = (\<lambda>es n. 1), io_scheduleId = (\<lambda>es n. 1),
     io_store = (\<lambda>es. Inr ()), io_clock = ''2025'', io_dynamic = (\<lambda>n. []) \<rparr>"

definition demo_ok :: "ems_effect list \<Rightarrow> exn + confirmation" where
  "demo_ok es = Inr \<lparr> conf_success = True, conf_payload = JUndef \<rparr>"

definition demo_recommendation :: "rat \<Rightarrow> recommendation" where
  "demo_recommendation w =
     \<lparr> rc_stationId = ''1'', rc_isOnline = Some True, rc_protocol = Some protocol21, rc_eligible = True,
       rc_eligibilityReason = None, rc_evseId = 1, rc_purpose = ''ChargingStationMaxProfile'',
       rc_kind = ''Dynamic'', rc_rateUnit = ''W'', rc_operationMode = ''ExternalLimits'', rc_limitW = Fin w,
       rc_exportAllowed = True, rc_dischargeLimitW = None, rc_sourceIntent = ''i1'' \<rparr>"

definition demo_ems_state :: ems_state where
  "demo_ems_state = \<lparr> es_fingerprints = Map.empty, es_effects = [] \<rparr>"

text \<open>A site of one station, with no cap of its own.\<close>

definition demo_site :: ems_env where
  "demo_site = (demo_ems (JObj [(''evChargeBudgetW'', JNum 6000)]))\<lparr> en_policies := None \<rparr>"

definition demo_request :: plan_request where
  "demo_request = demo_plan_request\<lparr> rq_stationIds := [''1''] \<rparr>"

lemma demo_site_station: "stations_by_id (en_stations demo_site) [''1''] ''1'' = Some (demo_station 1 ''a'')"
  by code_simp

lemma demo_plan:
  "\<exists>p. deriveChargingPlan demo_site demo_request = Some p
     \<and> map rc_eligible (pl_recommendations p) = [True] \<and> map rc_protocol (pl_recommendations p) = [Some protocol21]"
proof -
  have i: "readLatestActiveBySiteId (en_intents demo_site) (rq_siteId demo_request) (en_now demo_site)
      = Some (demo_intent (JObj [(''evChargeBudgetW'', JNum 6000)]))"
    by (simp add: readLatestActiveBySiteId_def demo_site_def demo_ems_def demo_request_def demo_plan_request_def demo_intent_def)
  have ids: "js_dedup (rq_stationIds demo_request) = [''1'']" by (simp add: demo_request_def js_dedup_def)
  have "reason_for demo_site demo_request ''1'' = None"
    unfolding reason_for_def ids demo_site_station
    by (simp add: getEligibilityReason_def demo_station_def isSupportedProtocol_def supportsRequestedOperationMode_def
        supportsChargingProfiles_def supportsRequestedEvse_def isSmartChargingEnabled_def demo_site_def demo_ems_def
        demo_request_def demo_plan_request_def)
  moreover obtain p where p: "deriveChargingPlan demo_site demo_request = Some p"
    using i unfolding deriveChargingPlan_def Let_def by simp
  moreover have "rc_protocol (recommend demo_site demo_request i (stations_by_id (en_stations demo_site) [''1''])
      rs l d ''1'') = Some protocol21" for i rs l d
    unfolding recommend_def Let_def demo_site_station by (simp add: demo_station_def)
  ultimately show ?thesis using derive_plan(3) [OF i p] unfolding ids by auto
qed

lemma demo_apply_one:
  assumes "rc_eligible r" "rc_protocol r = Some protocol21"
  shows "\<exists>a. fst (apply_one env (demo_io demo_ok) t ''absolute'' r demo_ems_state) = Inr a \<and> ar_success a"
  using assms
  by (auto simp: apply_one_def apply_absolute_def set_profile_def ems_sendCall_def demo_io_def demo_ok_def
      demo_ems_state_def finish_absolute_def applied_result_def published_def Let_def)


lemma set_profile_calls:
  assumes "rc_purpose r = ''ChargingStationMaxProfile''" "set_profile io n r s = (res, s2)"
  shows "\<exists>v es. calls_of s2 = calls_of s
      @ [Called n (protocol_label (rc_protocol r)) ''ClearChargingProfile'' clear_max_profile,
         Called n (protocol_label (rc_protocol r)) ''SetChargingProfile'' v]
    \<and> res = io_confirm io (es @ [Called n (protocol_label (rc_protocol r)) ''SetChargingProfile'' v])"
proof -
  define v where "v = JObj [(''evseId'', JNum (of_int (if rc_purpose r \<in> set station_level_purposes then 0 else rc_evseId r))),
      (''chargingProfile'', new_profile io n r s)]"
  define s1 where "s1 = clear_previous io n r s"
  have c: "calls_of s1 = calls_of s @ [Called n (protocol_label (rc_protocol r)) ''ClearChargingProfile'' clear_max_profile]"
    using assms(1) by (simp add: s1_def clear_previous_def ems_sendCall_def Let_def)
  have "set_profile io n r s = ems_sendCall io n (protocol_label (rc_protocol r)) ''SetChargingProfile'' v s1"
    by (simp only: set_profile_def Let_def v_def s1_def)
  then have "res = io_confirm io (es_effects s1 @ [Called n (protocol_label (rc_protocol r)) ''SetChargingProfile'' v])"
    "calls_of s2 = calls_of s1 @ [Called n (protocol_label (rc_protocol r)) ''SetChargingProfile'' v]"
    using assms(2) by (auto simp: ems_sendCall_def Let_def)
  then show ?thesis using c by auto
qed

text \<open>A station can be left without a limit that the module believes to be in force. When a changed
  maximum profile is not published, the previous one has already been cleared but its
  fingerprint is kept; planning the previous limit again is then skipped as unchanged and
  reported as a success, so the cleared profile is not sent again.\<close>

lemma cleared_profile_not_restored:
  assumes "rc_eligible r" and "rc_protocol r \<in> {Some protocol21, Some protocol201}"
    and "rc_purpose r = ''ChargingStationMaxProfile''" and "path \<noteq> ''dynamic''"
    and "es_fingerprints s (fingerprint_key t r) = Some (buildAppliedProfileFingerprint path r)"
    and "json_num w \<noteq> json_num (rc_limitW r)"
    and "\<And>es n p v c. io_confirm io (es @ [Called n p ''SetChargingProfile'' v]) = Inr c \<Longrightarrow> \<not> published c"
  shows "\<exists>s1 s2 v. apply_one env io t path (r\<lparr> rc_limitW := w \<rparr>) s = (fst (apply_one env io t path (r\<lparr> rc_limitW := w \<rparr>) s), s1)
    \<and> calls_of s1 = calls_of s
        @ [Called (connection_name env (rc_stationId r)) (protocol_label (rc_protocol r)) ''ClearChargingProfile'' clear_max_profile,
           Called (connection_name env (rc_stationId r)) (protocol_label (rc_protocol r)) ''SetChargingProfile'' v]
    \<and> apply_one env io t path r s1 = (Inr (skipped r ''No change from last applied profile'' True), s2)
    \<and> calls_of s2 = calls_of s1"
proof -
  let ?r = "r\<lparr> rc_limitW := w \<rparr>"
  let ?n = "connection_name env (rc_stationId r)"
  have key: "fingerprint_key t ?r = fingerprint_key t r" by (simp add: fingerprint_key_def)
  have fp: "buildAppliedProfileFingerprint path ?r \<noteq> buildAppliedProfileFingerprint path r"
    using assms(6) by (simp add: buildAppliedProfileFingerprint_def)
  have one: "apply_one env io t path ?r s = apply_absolute io t ?n path ?r s"
    using assms(1,2,4,5) fp key by (auto simp: apply_one_def)
  obtain res s2 where sp: "set_profile io ?n ?r s = (res, s2)" by (cases "set_profile io ?n ?r s")
  have rr: "rc_purpose ?r = ''ChargingStationMaxProfile''" "rc_protocol ?r = rc_protocol r" using assms(3) by simp_all
  obtain v where calls: "calls_of s2 = calls_of s
      @ [Called ?n (protocol_label (rc_protocol r)) ''ClearChargingProfile'' clear_max_profile,
         Called ?n (protocol_label (rc_protocol r)) ''SetChargingProfile'' v]"
    and unpub: "\<And>c. res = Inr c \<Longrightarrow> \<not> published c"
    using set_profile_calls [OF rr(1) sp] assms(7) unfolding rr(2) by metis
  have kept: "es_fingerprints s2 = es_fingerprints s" using set_profile_fingerprints [of io ?n ?r s] sp by simp
  obtain x s1 where ab: "apply_absolute io t ?n path ?r s = (x, s1)" by (cases "apply_absolute io t ?n path ?r s")
  have s1: "calls_of s1 = calls_of s2 \<and> es_fingerprints s1 = es_fingerprints s"
    using ab sp unpub kept
    by (auto simp: apply_absolute_def finish_absolute_def Let_def record_fingerprint_def split: sum.splits)
  have "apply_one env io t path r s1 = skip r ''No change from last applied profile'' True s1"
    using assms(1,2,4,5) s1 by (auto simp: apply_one_def)
  then show ?thesis
    using one ab s1 calls by (auto simp: skip_def)
qed

definition demo_rejects :: "ems_effect list \<Rightarrow> exn + confirmation" where
  "demo_rejects es = Inr \<lparr> conf_success = False, conf_payload = JUndef \<rparr>"

lemma cleared_profile_not_restored_witness:
  "\<exists>s1 s2. apply_one demo_site (demo_io demo_rejects) 1 ''absolute'' (demo_recommendation 6000) s1
     = (Inr (skipped (demo_recommendation 6000) ''No change from last applied profile'' True), s2)
   \<and> length (calls_of s1) = 2 \<and> calls_of s2 = calls_of s1"
proof -
  let ?r = "demo_recommendation 6000"
  define s where "s = demo_ems_state\<lparr> es_fingerprints :=
      (\<lambda>_. None)(fingerprint_key 1 ?r \<mapsto> buildAppliedProfileFingerprint ''absolute'' ?r) \<rparr>"
  have c: "calls_of s = []" by (simp add: s_def calls_of_def demo_ems_state_def)
  have f: "es_fingerprints s (fingerprint_key 1 ?r) = Some (buildAppliedProfileFingerprint ''absolute'' ?r)"
    by (simp add: s_def)
  have r: "rc_eligible ?r" "rc_protocol ?r \<in> {Some protocol21, Some protocol201}"
    "rc_purpose ?r = ''ChargingStationMaxProfile''" "json_num (Fin 3000) \<noteq> json_num (rc_limitW ?r)"
    by (simp_all add: demo_recommendation_def)
  have p: "io_confirm (demo_io demo_rejects) (es @ [Called n p ''SetChargingProfile'' v]) = Inr c \<Longrightarrow> \<not> published c"
    for es n p v c by (auto simp: demo_io_def demo_rejects_def published_def)
  show ?thesis
    using cleared_profile_not_restored [of ?r "''absolute''" s 1 "Fin 3000" "demo_io demo_rejects" demo_site,
        OF r(1-3) _ f r(4) p] unfolding c by fastforce
qed

text \<open>What the comparison would say had the schedules been read.\<close>

lemma reconcile_included:
  assumes "profiles (connection_name env (rc_stationId r)) = [p]"
    and "sp_schedules p = [[JObj [(''limit'', JNum q), (''operationMode'', JStr (rc_operationMode r))]]]"
    and "rc_limitW r = Fin q"
  shows "\<not> re_drifted (reconcile_one True profiles env r)"
  using assms
  by (simp add: reconcile_one_def Let_def included_schedules_def first_period_def number_prop_def string_prop_def
      limit_differs_def)

text \<open>The comparison of the plan with the stored profiles reports every station as drifted, whatever
  is stored: its query does not read the schedules, so no limit and no operation mode is ever found.\<close>

lemma reconciliation_always_drifts:
  assumes "reconcileChargingPlan profiles env rq = Some resp"
  shows "rr_driftedCount resp = rr_comparedCount resp
    \<and> (\<forall>r \<in> set (rr_results resp). re_drifted r \<and> re_actualLimitW r = None \<and> re_actualOperationMode r = None)"
proof -
  have "re_drifted (reconcile_one False profiles env r) \<and> re_actualLimitW (reconcile_one False profiles env r) = None
      \<and> re_actualOperationMode (reconcile_one False profiles env r) = None" for r
    by (auto simp: reconcile_one_def Let_def included_schedules_def first_period_def number_prop_def string_prop_def
        limit_differs_def split: option.split list.split)
  then show ?thesis
    using assms by (auto simp: reconcileChargingPlan_def reconcile_plan_def Let_def filter_map o_def)
qed

lemma reconciliation_always_drifts_witness:
  "\<exists>resp. reconcileChargingPlan (\<lambda>n. [\<lparr> sp_id = 1, sp_schedules =
        [[JObj [(''limit'', JNum 6000), (''operationMode'', JStr ''ExternalLimits'')]]] \<rparr>]) demo_site demo_request = Some resp
     \<and> rr_driftedCount resp = rr_comparedCount resp"
proof -
  let ?f = "\<lambda>n :: string. [\<lparr> sp_id = 1, sp_schedules =
        [[JObj [(''limit'', JNum 6000), (''operationMode'', JStr ''ExternalLimits'')]]] \<rparr>]"
  have "normalizeChargingPlanRequest demo_request = demo_request"
    by (simp add: normalizeChargingPlanRequest_def demo_request_def demo_plan_request_def)
  then obtain resp where "reconcileChargingPlan ?f demo_site demo_request = Some resp"
    using demo_plan unfolding reconcileChargingPlan_def reconcile_plan_def ems_deriveChargingPlan_def by auto
  with reconciliation_always_drifts [OF this] show ?thesis by blast
qed

end
