(* ===== verification/EmsAutoApply.thy ===== *)
theory EmsAutoApply
  imports EmsApply
begin

text \<open>
  The automatic application of plans (packages/core/src/modules/EMS/src/module/module.ts:
  setAutoApplyConfig, getAutoApplyConfig, getAllAutoApplyConfigs, removeAutoApplyConfig,
  maybeAutoApply, _runAutoApply). A new intent of a site arms a debounce timer; the timer
  starts an application unless one is in flight. Each handler runs without interruption up to
  the await of applyChargingPlan, so a run of the system is a sequence of the steps set,
  remove, intent, fire (a timer) and finish (an application settles, whatever its outcome).
  The state keeps the log of the applications that were started and finished.
\<close>

record auto_config =
  ac_siteId :: string
  ac_stationIds :: "string list"
  ac_enabled :: bool
  ac_request :: plan_request     \<comment> \<open>the request it stands for\<close>

datatype auto_event = Started string auto_config | Finished string

record auto_state =
  autoApplyConfigs :: "(string \<times> auto_config) list"
  autoApplyInFlight :: "string set"
  autoApplyDebounceTimers :: "(string \<times> auto_config) list"   \<comment> \<open>with the config each callback closes over\<close>
  auto_log :: "auto_event list"

definition no_auto_apply :: auto_state where
  "no_auto_apply =
     \<lparr> autoApplyConfigs = [], autoApplyInFlight = {}, autoApplyDebounceTimers = [], auto_log = [] \<rparr>"

definition auto_key :: "int \<Rightarrow> string \<Rightarrow> string" where
  "auto_key tenantId siteId = int_str tenantId @ '':'' @ siteId"

definition setAutoApplyConfig :: "int \<Rightarrow> auto_config \<Rightarrow> auto_state \<Rightarrow> auto_state" where
  "setAutoApplyConfig tenantId cfg s =
     s\<lparr> autoApplyConfigs := AList.update (auto_key tenantId (ac_siteId cfg)) cfg (autoApplyConfigs s) \<rparr>"

definition getAutoApplyConfig :: "int \<Rightarrow> string \<Rightarrow> auto_state \<Rightarrow> auto_config option" where
  "getAutoApplyConfig tenantId siteId s = map_of (autoApplyConfigs s) (auto_key tenantId siteId)"

definition getAllAutoApplyConfigs :: "int \<Rightarrow> auto_state \<Rightarrow> auto_config list" where
  "getAllAutoApplyConfigs tenantId s =
     map snd (filter (\<lambda>(k, c). take (length (int_str tenantId) + 1) k = int_str tenantId @ '':'') (autoApplyConfigs s))"

definition removeAutoApplyConfig :: "int \<Rightarrow> string \<Rightarrow> auto_state \<Rightarrow> auto_state" where
  "removeAutoApplyConfig tenantId siteId s =
     s\<lparr> autoApplyConfigs := AList.delete (auto_key tenantId siteId) (autoApplyConfigs s) \<rparr>"

definition maybeAutoApply :: "int \<Rightarrow> string \<Rightarrow> auto_state \<Rightarrow> auto_state" where
  "maybeAutoApply tenantId siteId s =
     (case getAutoApplyConfig tenantId siteId s of
        None \<Rightarrow> s
      | Some cfg \<Rightarrow>
          if \<not> ac_enabled cfg \<or> length (ac_stationIds cfg) = 0 then s
          else if map_of (autoApplyDebounceTimers s) (auto_key tenantId siteId) \<noteq> None then s
          else s\<lparr> autoApplyDebounceTimers :=
                    AList.update (auto_key tenantId siteId) cfg (autoApplyDebounceTimers s) \<rparr>)"

text \<open>_runAutoApply up to its await, and what follows the await.\<close>

definition runAutoApply :: "string \<Rightarrow> auto_config \<Rightarrow> auto_state \<Rightarrow> auto_state" where
  "runAutoApply key cfg s =
     (if key \<in> autoApplyInFlight s then s
      else s\<lparr> autoApplyInFlight := insert key (autoApplyInFlight s), auto_log := auto_log s @ [Started key cfg] \<rparr>)"

definition finishAutoApply :: "string \<Rightarrow> auto_state \<Rightarrow> auto_state" where
  "finishAutoApply key s =
     s\<lparr> autoApplyInFlight := autoApplyInFlight s - {key}, auto_log := auto_log s @ [Finished key] \<rparr>"

text \<open>The callback of the debounce timer.\<close>

definition fire_debounce :: "string \<Rightarrow> auto_config \<Rightarrow> auto_state \<Rightarrow> auto_state" where
  "fire_debounce key cfg s =
     runAutoApply key cfg (s\<lparr> autoApplyDebounceTimers := AList.delete key (autoApplyDebounceTimers s) \<rparr>)"

inductive auto_step :: "auto_state \<Rightarrow> auto_state \<Rightarrow> bool" where
  set: "auto_step s (setAutoApplyConfig tenantId cfg s)"
| remove: "auto_step s (removeAutoApplyConfig tenantId siteId s)"
| intent: "auto_step s (maybeAutoApply tenantId siteId s)"
| fire: "map_of (autoApplyDebounceTimers s) key = Some cfg \<Longrightarrow> auto_step s (fire_debounce key cfg s)"
| finish: "key \<in> autoApplyInFlight s \<Longrightarrow> auto_step s (finishAutoApply key s)"

inductive_cases auto_stepE: "auto_step s s'"

abbreviation auto_reachable :: "auto_state \<Rightarrow> bool" where
  "auto_reachable s \<equiv> auto_step\<^sup>*\<^sup>* no_auto_apply s"

section \<open>The log\<close>

fun open_runs :: "string \<Rightarrow> auto_event list \<Rightarrow> int" where
  "open_runs key [] = 0"
| "open_runs key (Started k c # es) = (if k = key then 1 else 0) + open_runs key es"
| "open_runs key (Finished k # es) = (if k = key then - 1 else 0) + open_runs key es"

lemma open_runs_append [simp]: "open_runs key (es @ fs) = open_runs key es + open_runs key fs"
  by (induction es rule: open_runs.induct [of "\<lambda>_. _", case_names 1 2 3]) auto

lemma map_of_update [simp]: "map_of (AList.update k v xs) k' = (if k' = k then Some v else map_of xs k')"
  by (simp add: update_conv')

lemma map_of_delete [simp]: "map_of (AList.delete k xs) k' = (if k' = k then None else map_of xs k')"
  by (simp add: delete_conv')

definition auto_inv :: "auto_state \<Rightarrow> bool" where
  "auto_inv s \<longleftrightarrow>
     (\<forall>key. open_runs key (auto_log s) = (if key \<in> autoApplyInFlight s then 1 else 0)) \<and>
     (\<forall>key cfg. map_of (autoApplyDebounceTimers s) key = Some cfg \<longrightarrow> ac_enabled cfg \<and> ac_stationIds cfg \<noteq> []) \<and>
     (\<forall>key cfg. Started key cfg \<in> set (auto_log s) \<longrightarrow> ac_enabled cfg \<and> ac_stationIds cfg \<noteq> [])"

lemma auto_inv_step: "auto_step s s' \<Longrightarrow> auto_inv s \<Longrightarrow> auto_inv s'"
  by (erule auto_stepE)
    (auto simp: auto_inv_def setAutoApplyConfig_def removeAutoApplyConfig_def maybeAutoApply_def fire_debounce_def
      runAutoApply_def finishAutoApply_def split: option.splits if_splits)

interpretation auto_machine: transition_system auto_step no_auto_apply auto_inv
  by unfold_locales (simp add: auto_inv_def no_auto_apply_def, rule auto_inv_step)

section \<open>Properties\<close>

text \<open>C32. In every reachable state at most one application is in flight for a site, the sites in flight
  are exactly those with a started and not finished application, and every application that
  was ever started had a configuration that was enabled and named a station.\<close>

theorem one_application_per_site:
  assumes "auto_reachable s"
  shows "open_runs key (auto_log s) = (if key \<in> autoApplyInFlight s then 1 else 0)
    \<and> (\<forall>cfg. Started key cfg \<in> set (auto_log s) \<longrightarrow> ac_enabled cfg \<and> ac_stationIds cfg \<noteq> [])"
  using auto_machine.reachable [OF assms] by (simp add: auto_inv_def)

definition demo_auto :: auto_config where
  "demo_auto = \<lparr> ac_siteId = ''site'', ac_stationIds = [''1''], ac_enabled = True, ac_request = demo_request \<rparr>"

definition demo_armed :: auto_state where
  "demo_armed = maybeAutoApply 1 ''site'' (setAutoApplyConfig 1 demo_auto no_auto_apply)"

lemma demo_armed_reachable: "auto_reachable demo_armed"
  unfolding demo_armed_def
  by (blast intro: rtranclp.rtrancl_into_rtrancl auto_step.set auto_step.intent)

lemma demo_armed_timer: "map_of (autoApplyDebounceTimers demo_armed) (auto_key 1 ''site'') = Some demo_auto"
  by (simp add: demo_armed_def maybeAutoApply_def getAutoApplyConfig_def setAutoApplyConfig_def no_auto_apply_def demo_auto_def)

theorem one_application_per_site_witness:
  "open_runs (auto_key 1 ''site'') (auto_log (fire_debounce (auto_key 1 ''site'') demo_auto demo_armed)) = 1"
proof -
  let ?s = "fire_debounce (auto_key 1 ''site'') demo_auto demo_armed"
  have "auto_reachable ?s"
    using demo_armed_reachable auto_step.fire [OF demo_armed_timer] by (rule rtranclp.rtrancl_into_rtrancl)
  from one_application_per_site [OF this, of "auto_key 1 ''site''"] show ?thesis
    by (simp add: fire_debounce_def runAutoApply_def split: if_splits)
qed

text \<open>Removing or disabling the configuration of a site does not stop an application that waits for
  its debounce timer: the callback applies the configuration it was armed with.\<close>

lemma removed_config_still_applied:
  assumes "getAutoApplyConfig tenantId siteId s = Some cfg" and "ac_enabled cfg" and "ac_stationIds cfg \<noteq> []"
    and "map_of (autoApplyDebounceTimers s) (auto_key tenantId siteId) = None"
    and "auto_key tenantId siteId \<notin> autoApplyInFlight s"
  shows "\<exists>s'. auto_step\<^sup>*\<^sup>* (removeAutoApplyConfig tenantId siteId (maybeAutoApply tenantId siteId s)) s'
    \<and> getAutoApplyConfig tenantId siteId s' = None
    \<and> auto_log s' = auto_log s @ [Started (auto_key tenantId siteId) cfg]"
proof -
  let ?k = "auto_key tenantId siteId"
  let ?s1 = "removeAutoApplyConfig tenantId siteId (maybeAutoApply tenantId siteId s)"
  have m: "maybeAutoApply tenantId siteId s
      = s\<lparr> autoApplyDebounceTimers := AList.update ?k cfg (autoApplyDebounceTimers s) \<rparr>"
    using assms(1-4) by (simp add: maybeAutoApply_def)
  then have "auto_step ?s1 (fire_debounce ?k cfg ?s1)"
    by (intro auto_step.fire) (simp add: removeAutoApplyConfig_def)
  then show ?thesis
    using assms(5)
    by (intro exI [of _ "fire_debounce ?k cfg ?s1"])
      (auto simp: m fire_debounce_def runAutoApply_def removeAutoApplyConfig_def getAutoApplyConfig_def)
qed

definition demo_configured :: auto_state where
  "demo_configured = setAutoApplyConfig 1 demo_auto no_auto_apply"

lemma demo_configured_simps:
  "getAutoApplyConfig 1 ''site'' demo_configured = Some demo_auto"
  "ac_enabled demo_auto" "ac_stationIds demo_auto \<noteq> []"
  "map_of (autoApplyDebounceTimers demo_configured) k = None" "k \<notin> autoApplyInFlight demo_configured"
  "auto_log demo_configured = []"
  by (simp_all add: demo_configured_def getAutoApplyConfig_def setAutoApplyConfig_def no_auto_apply_def demo_auto_def)

lemma removed_config_still_applied_witness:
  "\<exists>s'. auto_step\<^sup>*\<^sup>* (removeAutoApplyConfig 1 ''site'' (maybeAutoApply 1 ''site'' demo_configured)) s'
    \<and> auto_log s' = [Started (auto_key 1 ''site'') demo_auto]"
  using removed_config_still_applied [OF demo_configured_simps(1-5)] unfolding demo_configured_simps(6) by auto

text \<open>An intent that arrives while an application is in flight can be lost: when its debounce timer
  fires before the application ends, it is dropped, and after the application ended nothing
  is pending although no application has started since the intent.\<close>

lemma intent_lost_in_flight:
  assumes "getAutoApplyConfig tenantId siteId s = Some cfg" and "ac_enabled cfg" and "ac_stationIds cfg \<noteq> []"
    and "map_of (autoApplyDebounceTimers s) (auto_key tenantId siteId) = None"
    and "auto_key tenantId siteId \<in> autoApplyInFlight s"
  shows "\<exists>s'. auto_step\<^sup>*\<^sup>* (maybeAutoApply tenantId siteId s) s'
    \<and> auto_log s' = auto_log s @ [Finished (auto_key tenantId siteId)]
    \<and> map_of (autoApplyDebounceTimers s') (auto_key tenantId siteId) = None
    \<and> auto_key tenantId siteId \<notin> autoApplyInFlight s'"
proof -
  let ?k = "auto_key tenantId siteId"
  let ?s1 = "maybeAutoApply tenantId siteId s"
  let ?s2 = "fire_debounce ?k cfg ?s1"
  have m: "?s1 = s\<lparr> autoApplyDebounceTimers := AList.update ?k cfg (autoApplyDebounceTimers s) \<rparr>"
    using assms(1-4) by (simp add: maybeAutoApply_def)
  have 1: "auto_step ?s1 ?s2" by (rule auto_step.fire) (simp add: m)
  have 2: "auto_step ?s2 (finishAutoApply ?k ?s2)"
    by (rule auto_step.finish) (use assms(5) in \<open>simp add: m fire_debounce_def runAutoApply_def\<close>)
  show ?thesis
    using assms(5) rtranclp.rtrancl_into_rtrancl [OF r_into_rtranclp [where r = auto_step, OF 1] 2]
    by (intro exI [of _ "finishAutoApply ?k ?s2"])
      (simp add: m fire_debounce_def runAutoApply_def finishAutoApply_def)
qed

lemma intent_lost_in_flight_witness:
  "\<exists>s s'. auto_reachable s \<and> auto_step\<^sup>*\<^sup>* (maybeAutoApply 1 ''site'' s) s'
     \<and> auto_log s' = auto_log s @ [Finished (auto_key 1 ''site'')]"
proof -
  let ?k = "auto_key 1 ''site''"
  let ?s = "fire_debounce ?k demo_auto demo_armed"
  have r: "auto_reachable ?s"
    using demo_armed_reachable auto_step.fire [OF demo_armed_timer] by (rule rtranclp.rtrancl_into_rtrancl)
  have "getAutoApplyConfig 1 ''site'' ?s = Some demo_auto" "?k \<in> autoApplyInFlight ?s"
    "map_of (autoApplyDebounceTimers ?s) ?k = None"
    by (simp_all add: fire_debounce_def runAutoApply_def demo_armed_def maybeAutoApply_def getAutoApplyConfig_def
        setAutoApplyConfig_def no_auto_apply_def demo_auto_def)
  from intent_lost_in_flight [OF this(1) demo_configured_simps(2,3) this(3,2)] r show ?thesis by blast
qed

end
