(* ===== verification/Authorization.thy ===== *)
theory Authorization
  imports JsValue IdTokens
begin

text \<open>
  Authorization of id tokens: the real-time authorizer
  (packages/core/src/util/authorizer/RealTimeAuthorizer.ts), the authorization of transactions
  (packages/core/src/modules/Transactions/src/module/TransactionService.ts) with the mappers it uses, and
  the Authorize request handler of OCPP 2.0.1
  (packages/core/src/handlers/requests/2/AuthorizeRequestOcpp201Handler.ts). Statuses and token types
  are their strings, which are the same in every version; dates are milliseconds. What the
  code reads from the database and from other services is the record auth_env: a read that
  fails is an exn. An authorizer may change the authorization it is given, so it returns it.
\<close>

section \<open>Data\<close>

record attempt =
  at_timestamp :: int
  at_result :: string
  at_name :: string
  at_evseId :: "int option"
  at_connectorId :: "int option"

record group_authorization =
  ga_idToken :: string
  ga_idTokenType :: "string option"

record authorization =
  au_id :: nat
  au_idToken :: string
  au_idTokenType :: "string option"
  au_status :: string
  au_cacheExpiry :: "int option"
  au_concurrent :: "bool option"
  au_isPrepaid :: bool
  au_prepaidBalance :: "rat option"
  au_allowedConnectorTypes :: "string list option"
  au_disallowedEvseIdPrefixes :: "string list option"
  au_realTimeAuth :: "string option"
  au_realTimeAuthUrl :: "string option"
  au_realTimeAuthLastAttempt :: "attempt option"
  au_realTimeAuthTimeout :: "int option"
  au_groupAuthorization :: "group_authorization option"
  au_groupAuthorizationId :: "nat option"
  au_display :: jsval       \<comment> \<open>chargingPriority, languages and personalMessage\<close>

record evse =
  ev_id :: int
  ev_connectors :: "int list option"

record connector =
  co_id :: int
  co_evse :: "evse option"

record id_token_info =
  ii_status :: string
  ii_cacheExpiry :: "int option"
  ii_display :: jsval
  ii_groupIdToken :: "(string \<times> string) option"
  ii_evseId :: "int option list"

record station_location =
  sl_evses :: "evse list"

definition status_info :: "string \<Rightarrow> id_token_info" where
  "status_info status =
     \<lparr> ii_status = status, ii_cacheExpiry = None, ii_display = JUndef, ii_groupIdToken = None, ii_evseId = [] \<rparr>"

section \<open>Mappers\<close>

definition authorization_statuses :: "string list" where
  "authorization_statuses =
     [''Accepted'', ''Blocked'', ''ConcurrentTx'', ''Expired'', ''Invalid'', ''NoCredit'',
      ''NotAllowedTypeEVSE'', ''NotAtThisLocation'', ''NotAtThisTime'', ''Unknown'']"

definition fromAuthorizationStatusEnumType :: "string \<Rightarrow> exn + string" where
  "fromAuthorizationStatusEnumType status =
     (if status \<in> set authorization_statuses then Inr status
      else Inl (JsErr ''Unknown authorization status: '' [JStr status]))"

definition toIdTokenEnumType :: "string \<Rightarrow> exn + string" where
  "toIdTokenEnumType t =
     (if t = ''Central'' \<or> t = ''Other'' then Inr ''Central''
      else if t \<in> {''eMAID'', ''ISO14443'', ''ISO15693'', ''KeyCode'', ''Local'', ''MacAddress'', ''NoAuthorization''} then Inr t
      else Inl (JsErr ''Unknown idToken type: '' [JStr t]))"

definition fromIdTokenEnumType :: "string \<Rightarrow> exn + string" where
  "fromIdTokenEnumType t =
     (if t \<in> {''Central'', ''eMAID'', ''ISO14443'', ''ISO15693'', ''KeyCode'', ''Local'', ''MacAddress'', ''NoAuthorization''}
      then Inr t else Inl (JsErr ''Unknown OCPP 2.0.1 idToken type: '' [JStr t]))"

definition toIdToken :: "group_authorization \<Rightarrow> exn + string \<times> string" where
  "toIdToken g =
     (case ga_idTokenType g of
        None \<Rightarrow> Inl (JsErr ''IdToken type is missing.'' [])
      | Some t \<Rightarrow> if t = [] then Inl (JsErr ''IdToken type is missing.'' []) else bind_res (toIdTokenEnumType t) (\<lambda>t'. Inr (ga_idToken g, t')))"

definition toIdTokenInfo :: "authorization \<Rightarrow> exn + id_token_info" where
  "toIdTokenInfo a =
     bind_res (fromAuthorizationStatusEnumType (au_status a)) (\<lambda>status.
     bind_res (case au_groupAuthorization a of None \<Rightarrow> Inr None | Some g \<Rightarrow> bind_res (toIdToken g) (\<lambda>t. Inr (Some t)))
       (\<lambda>grp. Inr \<lparr> ii_status = status, ii_cacheExpiry = au_cacheExpiry a, ii_display = au_display a,
                    ii_groupIdToken = grp, ii_evseId = [] \<rparr>))"

definition toStartTransactionResponseStatus :: "string \<Rightarrow> exn + string" where
  "toStartTransactionResponseStatus status =
     (if status \<in> {''Accepted'', ''Blocked'', ''ConcurrentTx'', ''Expired'', ''Invalid''} then Inr status
      else Inl (JsErr ''Unknown StartTransactionResponse status'' []))"

section \<open>The real-time authorizer\<close>

record realtime_env =
  rt_station :: "exn + station_location option"
  rt_token :: "(exn + unit) option"           \<comment> \<open>None without an OIDC client\<close>
  rt_fetch :: "exn + jsval"                   \<comment> \<open>the body of the response\<close>
  rt_now :: int
  rt_defaultTimeout :: int

definition determine_connector :: "station_location option \<Rightarrow> evse option \<Rightarrow> connector option \<Rightarrow> (int \<times> int) option" where
  "determine_connector chargingStation evse connector =
     (case evse of
        Some e \<Rightarrow>
          (case connector of
             Some c \<Rightarrow> Some (ev_id e, co_id c)
           | None \<Rightarrow>
               (case ev_connectors e of
                  Some [c] \<Rightarrow> Some (ev_id e, c)
                | _ \<Rightarrow> (case chargingStation of
                          Some s \<Rightarrow> (case sl_evses s of
                             [e'] \<Rightarrow> (case ev_connectors e' of Some [c] \<Rightarrow> Some (ev_id e', c) | _ \<Rightarrow> None)
                           | _ \<Rightarrow> None)
                        | None \<Rightarrow> None)))
      | None \<Rightarrow>
          (case chargingStation of
             Some s \<Rightarrow> (case sl_evses s of
                [e'] \<Rightarrow> (case ev_connectors e' of Some [c] \<Rightarrow> Some (ev_id e', c) | _ \<Rightarrow> None)
              | _ \<Rightarrow> None)
           | None \<Rightarrow> None))"

text \<open>The result of the last attempt while it may be reused.\<close>

definition recent_result :: "realtime_env \<Rightarrow> string \<Rightarrow> int \<Rightarrow> authorization \<Rightarrow> string option" where
  "recent_result env name connectorId a =
     (case au_realTimeAuthLastAttempt a of
        None \<Rightarrow> None
      | Some l \<Rightarrow>
          if name = at_name l \<and> Some connectorId = at_connectorId l
             \<and> rt_now env - at_timestamp l
                 < (case au_realTimeAuthTimeout a of Some t \<Rightarrow> t | None \<Rightarrow> rt_defaultTimeout env) * 1000
          then Some (at_result l) else None)"

definition map_allowed :: "jsval \<Rightarrow> string" where
  "map_allowed v =
     (if v = JStr ''ALLOWED'' then ''Accepted''
      else if v = JStr ''BLOCKED'' then ''Blocked''
      else if v = JStr ''EXPIRED'' then ''Expired''
      else if v = JStr ''NO_CREDIT'' then ''NoCredit''
      else if v = JStr ''NOT_ALLOWED'' then ''NotAtThisLocation''
      else ''Unknown'')"

text \<open>The request: a missing body or a missing data field throws when it is read.\<close>

definition ask_partner :: "realtime_env \<Rightarrow> exn + string" where
  "ask_partner env =
     bind_res (rt_fetch env) (\<lambda>body.
       if body = JNull \<or> body = JUndef \<or> js_prop ''data'' body = JUndef \<or> js_prop ''data'' body = JNull
       then Inl (JsErr ''TypeError: cannot read properties of '' [body])
       else Inr (map_allowed (js_prop ''allowed'' (js_prop ''data'' body))))"

definition offline_result :: "authorization \<Rightarrow> string" where
  "offline_result a = (if au_realTimeAuth a = Some ''AllowedOffline'' then ''Accepted'' else ''Invalid'')"

definition with_attempt :: "realtime_env \<Rightarrow> string \<Rightarrow> (int \<times> int) option \<Rightarrow> string \<Rightarrow> authorization \<Rightarrow> authorization" where
  "with_attempt env name ids result a =
     a\<lparr> au_realTimeAuthLastAttempt := Some \<lparr> at_timestamp = rt_now env, at_result = result, at_name = name,
          at_evseId = map_option fst ids, at_connectorId = map_option snd ids \<rparr> \<rparr>"

definition realtime_authorize ::
  "realtime_env \<Rightarrow> string \<Rightarrow> authorization \<Rightarrow> evse option \<Rightarrow> connector option \<Rightarrow> string \<times> authorization" where
  "realtime_authorize env name a evse connector =
     (if au_realTimeAuthUrl a = None \<or> au_realTimeAuthUrl a = Some [] then (au_status a, a)
      else if au_realTimeAuth a = None \<or> au_realTimeAuth a = Some [] \<or> au_realTimeAuth a = Some ''Allowed'' then (au_status a, a)
      else if au_status a \<noteq> ''Accepted'' then (au_status a, a)
      else case rt_station env of
        Inl e \<Rightarrow> (offline_result a, with_attempt env name None (offline_result a) a)
      | Inr chargingStation \<Rightarrow>
          (case determine_connector chargingStation evse connector of
             None \<Rightarrow> (au_status a, a)
           | Some ids \<Rightarrow>
               (case recent_result env name (snd ids) a of
                  Some r \<Rightarrow> (r, a)
                | None \<Rightarrow>
                    (case rt_token env of
                       Some (Inl e) \<Rightarrow> (''Invalid'', a)
                     | _ \<Rightarrow>
                         let result = (case ask_partner env of Inr r \<Rightarrow> r | Inl e \<Rightarrow> offline_result a)
                         in (result, with_attempt env name (Some ids) result a)))))"

section \<open>Authorization of a transaction\<close>

type_synonym authorizer =
  "authorization \<Rightarrow> string \<Rightarrow> evse option \<Rightarrow> connector option \<Rightarrow> (exn + string) \<times> authorization"

record transaction_event =
  te_idToken :: string
  te_idTokenType :: string
  te_eventType :: string
  te_evse :: "(int \<times> int option) option"   \<comment> \<open>evse id and connector id\<close>

record auth_env =
  ae_authorizations :: "exn + authorization list"
  ae_activeTransactions :: "nat \<Rightarrow> exn + nat"    \<comment> \<open>how many are active with this authorization\<close>
  ae_connector :: "int \<times> int option \<Rightarrow> exn + connector option"
  ae_evse :: "int \<Rightarrow> exn + evse option"
  ae_parent :: "nat \<Rightarrow> exn + authorization option"
  ae_connector16 :: "int \<Rightarrow> exn + connector option"
  ae_authorizers :: "authorizer list"           \<comment> \<open>the real-time authorizer and the configured ones\<close>
  ae_now :: int
  ae_nowIso :: int

record transaction_response =
  tr_idTokenInfo :: id_token_info
  tr_maxCost :: "rat option"

text \<open>The query of the repository: an empty field is not part of it.\<close>

definition query_authorizations :: "auth_env \<Rightarrow> string \<Rightarrow> string \<Rightarrow> exn + authorization list" where
  "query_authorizations env idToken t =
     bind_res (ae_authorizations env) (\<lambda>as.
       Inr (filter (\<lambda>a. (idToken = [] \<or> au_idToken a = idToken) \<and> (t = [] \<or> au_idTokenType a = Some t)) as))"

fun apply_authorizers ::
  "authorizer list \<Rightarrow> string \<Rightarrow> evse option \<Rightarrow> connector option \<Rightarrow> string \<Rightarrow> authorization \<Rightarrow> exn + string" where
  "apply_authorizers [] name evse connector result a = Inr result"
| "apply_authorizers (f # fs) name evse connector result a =
     (if result \<noteq> ''Accepted'' then Inr result
      else case f a name evse connector of
        (Inl e, a') \<Rightarrow> Inl e
      | (Inr r, a') \<Rightarrow> apply_authorizers fs name evse connector r a')"

definition applyAuthorizers ::
  "auth_env \<Rightarrow> authorization \<Rightarrow> string \<Rightarrow> evse option \<Rightarrow> connector option \<Rightarrow> exn + string" where
  "applyAuthorizers env a name evse connector =
     apply_authorizers (ae_authorizers env) name evse connector (au_status a) a"

definition hasConcurrentTransactions :: "auth_env \<Rightarrow> nat \<Rightarrow> exn + bool" where
  "hasConcurrentTransactions env authorizationId =
     bind_res (ae_activeTransactions env authorizationId) (\<lambda>n. Inr (0 < n))"

definition mapAuthorizationDtoToIdTokenInfo :: "authorization \<Rightarrow> string \<Rightarrow> exn + id_token_info" where
  "mapAuthorizationDtoToIdTokenInfo a status =
     bind_res (fromAuthorizationStatusEnumType status) (\<lambda>st.
     bind_res (case au_groupAuthorization a of
                 None \<Rightarrow> Inr None
               | Some g \<Rightarrow> (case ga_idTokenType g of
                   None \<Rightarrow> Inr (Some (ga_idToken g, []))
                 | Some t \<Rightarrow> if t = [] then Inr (Some (ga_idToken g, []))
                            else bind_res (toIdTokenEnumType t) (\<lambda>t'. Inr (Some (ga_idToken g, t')))))
       (\<lambda>grp. Inr \<lparr> ii_status = st, ii_cacheExpiry = au_cacheExpiry a, ii_display = au_display a,
                    ii_groupIdToken = grp, ii_evseId = [] \<rparr>))"

text \<open>The connector and the EVSE the event names.\<close>

definition find_evse :: "auth_env \<Rightarrow> (int \<times> int option) option \<Rightarrow> exn + evse option \<times> connector option" where
  "find_evse env ev =
     (case ev of
        None \<Rightarrow> Inr (None, None)
      | Some (evseId, connectorId) \<Rightarrow>
          bind_res (if connectorId \<noteq> None \<and> connectorId \<noteq> Some 0 then ae_connector env (evseId, connectorId) else Inr None)
            (\<lambda>connector. case Option.bind connector co_evse of
               Some e \<Rightarrow> Inr (Some e, connector)
             | None \<Rightarrow> bind_res (ae_evse env evseId) (\<lambda>e. Inr (e, connector))))"

definition is_expired :: "auth_env \<Rightarrow> int option \<Rightarrow> bool" where
  "is_expired env expiry = (case expiry of None \<Rightarrow> False | Some t \<Rightarrow> t < ae_now env)"

text \<open>The body that authorizeOcpp201IdToken and authorizeOcpp21IdToken share, with the
  authorization when exactly one was found and the second part of the 2.1 method applies.\<close>

definition authorize_ocpp2 ::
  "auth_env \<Rightarrow> transaction_event \<Rightarrow> string \<Rightarrow> exn + id_token_info \<times> authorization option" where
  "authorize_ocpp2 env ev name =
     bind_res (query_authorizations env (te_idToken ev) (te_idTokenType ev)) (\<lambda>authorizations.
       case authorizations of
         [a] \<Rightarrow>
           bind_res (toIdTokenInfo a) (\<lambda>info.
             if ii_status info \<noteq> ''Accepted'' then Inr (info, None)
             else if is_expired env (ii_cacheExpiry info)
             then Inr ((status_info ''Invalid'')\<lparr> ii_groupIdToken := ii_groupIdToken info \<rparr>, None)
             else
               bind_res (if au_concurrent a = Some True \<and> te_eventType ev = ''Started''
                         then hasConcurrentTransactions env (au_id a) else Inr False) (\<lambda>concurrent.
                 if concurrent then Inr (status_info ''ConcurrentTx'', None)
                 else
                   bind_res (find_evse env (te_evse ev)) (\<lambda>(evse, connector).
                   bind_res (applyAuthorizers env a name evse connector) (\<lambda>result.
                   bind_res (mapAuthorizationDtoToIdTokenInfo a result) (\<lambda>info'. Inr (info', Some a))))))
       | _ \<Rightarrow> Inr (status_info ''Unknown'', None))"

definition authorizeOcpp201IdToken :: "auth_env \<Rightarrow> transaction_event \<Rightarrow> string \<Rightarrow> exn + transaction_response" where
  "authorizeOcpp201IdToken env ev name =
     bind_res (authorize_ocpp2 env ev name) (\<lambda>(info, a). Inr \<lparr> tr_idTokenInfo = info, tr_maxCost = None \<rparr>)"

text \<open>The prepaid part of OCPP 2.1.\<close>

definition prepaid_response :: "auth_env \<Rightarrow> id_token_info \<Rightarrow> authorization \<Rightarrow> transaction_response" where
  "prepaid_response env info a =
     (if au_isPrepaid a
      then (case au_prepaidBalance a of
              Some b \<Rightarrow>
                if 0 < b then \<lparr> tr_idTokenInfo = info\<lparr> ii_cacheExpiry := Some (ae_nowIso env) \<rparr>, tr_maxCost = Some b \<rparr>
                else if ii_status info = ''Accepted''
                then \<lparr> tr_idTokenInfo = info\<lparr> ii_status := ''NoCredit'', ii_cacheExpiry := Some (ae_nowIso env) \<rparr>, tr_maxCost = None \<rparr>
                else \<lparr> tr_idTokenInfo = info, tr_maxCost = None \<rparr>
            | None \<Rightarrow>
                if ii_status info = ''Accepted''
                then \<lparr> tr_idTokenInfo = info\<lparr> ii_status := ''NoCredit'', ii_cacheExpiry := Some (ae_nowIso env) \<rparr>, tr_maxCost = None \<rparr>
                else \<lparr> tr_idTokenInfo = info, tr_maxCost = None \<rparr>)
      else \<lparr> tr_idTokenInfo = info, tr_maxCost = None \<rparr>)"

definition authorizeOcpp21IdToken :: "auth_env \<Rightarrow> transaction_event \<Rightarrow> string \<Rightarrow> exn + transaction_response" where
  "authorizeOcpp21IdToken env ev name =
     bind_res (authorize_ocpp2 env ev name) (\<lambda>(info, a).
       Inr (case a of None \<Rightarrow> \<lparr> tr_idTokenInfo = info, tr_maxCost = None \<rparr> | Some au \<Rightarrow> prepaid_response env info au))"

record start_response =
  sr_status :: string
  sr_expiryDate :: "int option"
  sr_parentIdTag :: "string option"

definition start_status :: "string \<Rightarrow> start_response" where
  "start_status status = \<lparr> sr_status = status, sr_expiryDate = None, sr_parentIdTag = None \<rparr>"

definition accepted_start :: "authorization \<Rightarrow> authorization option \<Rightarrow> start_response" where
  "accepted_start a parent =
     \<lparr> sr_status = ''Accepted'', sr_expiryDate = au_cacheExpiry a, sr_parentIdTag = map_option au_idToken parent \<rparr>"

text \<open>The body of the try block; its failure is the status Invalid.\<close>

definition authorize_ocpp16_body :: "auth_env \<Rightarrow> string \<Rightarrow> string \<Rightarrow> int \<Rightarrow> exn + start_response" where
  "authorize_ocpp16_body env name idToken connectorId =
     bind_res (query_authorizations env idToken []) (\<lambda>authorizations.
       case authorizations of
         [a] \<Rightarrow>
           if au_status a = [] then Inr (start_status ''Accepted'')
           else bind_res (toStartTransactionResponseStatus (au_status a)) (\<lambda>status.
             if status \<noteq> ''Accepted'' then Inr (start_status status)
             else if is_expired env (au_cacheExpiry a) then Inr (start_status ''Expired'')
             else bind_res (if au_concurrent a \<noteq> Some True then hasConcurrentTransactions env (au_id a) else Inr False)
               (\<lambda>concurrent.
                 if concurrent then Inr (start_status ''ConcurrentTx'')
                 else bind_res (ae_connector16 env connectorId) (\<lambda>connector.
                   bind_res (applyAuthorizers env a name (Option.bind connector co_evse) connector) (\<lambda>result.
                   bind_res (toStartTransactionResponseStatus result) (\<lambda>st.
                     if st \<noteq> ''Accepted'' then Inr (start_status st)
                     else case au_groupAuthorizationId a of
                         None \<Rightarrow> Inr (accepted_start a None)
                       | Some g \<Rightarrow>
                           if g = 0 then Inr (accepted_start a None)
                           else (case ae_parent env g of
                                   Inl e \<Rightarrow> Inr ((accepted_start a None)\<lparr> sr_status := ''Invalid'' \<rparr>)
                                 | Inr parent \<Rightarrow> Inr (accepted_start a parent)))))))
       | _ \<Rightarrow> Inr (start_status ''Invalid''))"

definition authorizeOcpp16IdToken :: "auth_env \<Rightarrow> string \<Rightarrow> string \<Rightarrow> int \<Rightarrow> start_response" where
  "authorizeOcpp16IdToken env name idToken connectorId =
     (case authorize_ocpp16_body env name idToken connectorId of
        Inr r \<Rightarrow> r
      | Inl e \<Rightarrow> start_status ''Invalid'')"

section \<open>The Authorize request of OCPP 2.0.1\<close>

record authorize_request =
  ar_idToken :: string
  ar_type :: string
  ar_hashData :: "jsval list option"
  ar_certificate :: "string option"

text \<open>Variable attributes of the station: the value and the EVSE of each connector type and EVSE id.\<close>

record authorize_env =
  az_validateHashData :: "jsval list \<Rightarrow> exn + string"
  az_validateChain :: "string \<Rightarrow> exn + string"
  az_authorization :: "string \<Rightarrow> string \<Rightarrow> exn + authorization option"
  az_connectorTypes :: "(string option \<times> int option) list"
  az_evseIds :: "(string option \<times> int option) list"
  az_authorizers :: "authorizer list"
  az_now :: int

datatype authorize_answer =
    AuthorizeError error_code string
  | AuthorizeResult id_token_info "string option"    \<comment> \<open>with the certificate status\<close>

text \<open>indexOf: the position of the first occurrence, or -1.\<close>

fun indexOf :: "'a list \<Rightarrow> 'a \<Rightarrow> int" where
  "indexOf [] x = - 1"
| "indexOf (y # ys) x = (if y = x then 0 else (let i = indexOf ys x in if i < 0 then - 1 else i + 1))"

definition set_add :: "'a \<Rightarrow> 'a list \<Rightarrow> 'a list" where
  "set_add x xs = (if x \<in> set xs then xs else xs @ [x])"

definition allowed_types_found :: "string list \<Rightarrow> (string option \<times> int option) list \<Rightarrow> int option list" where
  "allowed_types_found allowed attributes =
     foldl (\<lambda>evseIds (v, evse). if 0 < indexOf (map Some allowed) v then set_add evse evseIds else evseIds) [] attributes"

definition starts_with :: "string \<Rightarrow> string \<Rightarrow> bool" where
  "starts_with s p = (take (length p) s = p)"

fun filter_prefixes ::
  "string list \<Rightarrow> bool \<Rightarrow> (string option \<times> int option) list \<Rightarrow> int option list \<Rightarrow> exn + int option list" where
  "filter_prefixes disallowed has_types [] evseIds = Inr evseIds"
| "filter_prefixes disallowed has_types ((v, evse) # rest) evseIds =
     (case v of
        None \<Rightarrow> Inl (JsErr ''TypeError: cannot read properties of null'' [])
      | Some s \<Rightarrow>
          (let evseIdAllowed = list_ex (starts_with s) disallowed
           in filter_prefixes disallowed has_types rest
                (if evseIdAllowed \<and> \<not> has_types then set_add evse evseIds
                 else if \<not> evseIdAllowed \<and> has_types then filter (\<lambda>x. x \<noteq> evse) evseIds
                 else evseIds)))"

text \<open>The EVSEs the authorization is restricted to, None for no restriction; the status when there is none.\<close>

definition restrict_evses :: "authorize_env \<Rightarrow> authorization \<Rightarrow> exn + string + int option list option" where
  "restrict_evses env a =
     (let evseIds = (case au_allowedConnectorTypes a of
            Some (t # ts) \<Rightarrow> Some (allowed_types_found (t # ts) (az_connectorTypes env))
          | _ \<Rightarrow> None)
      in if evseIds = Some [] then Inr (Inl ''NotAllowedTypeEVSE'')
         else bind_res (case au_disallowedEvseIdPrefixes a of
                Some (d # ds) \<Rightarrow>
                  bind_res (filter_prefixes (d # ds) (au_allowedConnectorTypes a \<noteq> None) (az_evseIds env)
                              (case evseIds of Some xs \<Rightarrow> xs | None \<Rightarrow> []))
                    (\<lambda>xs. Inr (Some xs))
              | _ \<Rightarrow> Inr evseIds)
           (\<lambda>evseIds'. if evseIds' = Some [] then Inr (Inl ''NotAtThisLocation'') else Inr (Inr evseIds')))"

definition evse_id_field :: "int option list option \<Rightarrow> int option list" where
  "evse_id_field evseIds =
     (case evseIds of None \<Rightarrow> [] | Some [] \<Rightarrow> [] | Some (x # xs) \<Rightarrow> last (x # xs) # butlast (x # xs))"

fun authorize_with ::
  "authorizer list \<Rightarrow> string \<Rightarrow> id_token_info \<Rightarrow> authorization \<Rightarrow> exn + id_token_info" where
  "authorize_with [] name info a = Inr info"
| "authorize_with (f # fs) name info a =
     (if ii_status info \<noteq> ''Accepted'' then Inr info
      else case f a name None None of
        (Inl e, a') \<Rightarrow> Inl e
      | (Inr r, a') \<Rightarrow>
          bind_res (fromAuthorizationStatusEnumType r) (\<lambda>st. authorize_with fs name (info\<lparr> ii_status := st \<rparr>) a'))"

text \<open>The idTokenInfo before the authorizers run, and whether the response keeps its certificate status.\<close>

definition checked_info :: "authorize_env \<Rightarrow> authorization \<Rightarrow> id_token_info \<Rightarrow> exn + id_token_info \<times> bool" where
  "checked_info env a info =
     (if (case ii_cacheExpiry info of None \<Rightarrow> False | Some t \<Rightarrow> t < az_now env)
      then Inr ((status_info ''Invalid'')\<lparr> ii_groupIdToken := ii_groupIdToken info \<rparr>, False)
      else bind_res (restrict_evses env a) (\<lambda>restricted.
        case restricted of
          Inl status \<Rightarrow> Inr ((status_info status)\<lparr> ii_groupIdToken := ii_groupIdToken info \<rparr>, False)
        | Inr evseIds \<Rightarrow> Inr (info\<lparr> ii_evseId := evse_id_field evseIds \<rparr>, True)))"

definition authorize_known :: "authorize_env \<Rightarrow> string \<Rightarrow> authorization \<Rightarrow> exn + id_token_info \<times> bool" where
  "authorize_known env name a =
     bind_res (toIdTokenInfo a) (\<lambda>info.
       if ii_status info \<noteq> ''Accepted'' then Inr (info, True)
       else bind_res (checked_info env a info) (\<lambda>(info', keep).
              bind_res (authorize_with (az_authorizers env) name info' a) (\<lambda>info''. Inr (info'', keep))))"

definition certificate_status :: "authorize_env \<Rightarrow> authorize_request \<Rightarrow> exn + string option" where
  "certificate_status env request =
     bind_res (case ar_hashData request of
                 Some (h # hs) \<Rightarrow> bind_res (az_validateHashData env (h # hs)) (\<lambda>s. Inr (Some s))
               | _ \<Rightarrow> Inr None)
       (\<lambda>status. case ar_certificate request of
          Some (c # cs) \<Rightarrow> bind_res (az_validateChain env (c # cs)) (\<lambda>s. Inr (Some s))
        | _ \<Rightarrow> Inr status)"

definition handleAuthorize201 :: "authorize_env \<Rightarrow> string \<Rightarrow> authorize_request \<Rightarrow> exn + authorize_answer" where
  "handleAuthorize201 env name request =
     (case validateIdToken (ar_type request) (ar_idToken request) of
        Some message \<Rightarrow> Inr (AuthorizeError PropertyConstraintViolation message)
      | None \<Rightarrow>
          if ar_type request = ''NoAuthorization'' then Inr (AuthorizeResult (status_info ''Accepted'') None)
          else
            let certified = (ar_hashData request \<noteq> None \<or> (ar_certificate request \<noteq> None \<and> ar_certificate request \<noteq> Some []))
            in bind_res (if certified then certificate_status env request else Inr None) (\<lambda>status.
                 if certified \<and> status \<noteq> Some ''Accepted'' then Inr (AuthorizeResult (status_info ''Invalid'') status)
                 else
                   bind_res (fromIdTokenEnumType (ar_type request)) (\<lambda>t.
                   bind_res (az_authorization env (ar_idToken request) t) (\<lambda>authorization.
                     case authorization of
                       None \<Rightarrow> Inr (AuthorizeResult (status_info ''Unknown'') status)
                     | Some a \<Rightarrow>
                         bind_res (authorize_known env name a)
                           (\<lambda>(info, keep). Inr (AuthorizeResult info (if keep then status else None)))))))"

section \<open>What an acceptance means\<close>

lemma status_info_simps [simp]: "ii_status (status_info st) = st"
  by (simp add: status_info_def)

lemma start_status_simps [simp]: "sr_status (start_status st) = st"
  by (simp add: start_status_def)

lemma toIdTokenInfo_status: "toIdTokenInfo a = Inr info \<Longrightarrow> ii_status info = au_status a \<and> ii_cacheExpiry info = au_cacheExpiry a"
  by (auto simp: toIdTokenInfo_def fromAuthorizationStatusEnumType_def bind_res_eq_Inr split: if_splits)

lemma map_status: "mapAuthorizationDtoToIdTokenInfo a st = Inr info \<Longrightarrow> ii_status info = st"
  by (auto simp: mapAuthorizationDtoToIdTokenInfo_def fromAuthorizationStatusEnumType_def bind_res_eq_Inr split: if_splits)

lemma apply_authorizers_first:
  "apply_authorizers (f # fs) name e c r a = Inr ''Accepted'' \<Longrightarrow> r = ''Accepted'' \<and> fst (f a name e c) = Inr ''Accepted''"
proof -
  have "apply_authorizers gs name e c x b = Inr ''Accepted'' \<Longrightarrow> x = ''Accepted''" for gs x b
    by (cases gs) (auto split: if_splits)
  then show "apply_authorizers (f # fs) name e c r a = Inr ''Accepted'' \<Longrightarrow> ?thesis"
    by (auto split: if_splits prod.splits sum.splits)
qed

definition valid_authorization :: "auth_env \<Rightarrow> string \<Rightarrow> authorization \<Rightarrow> bool" where
  "valid_authorization env name a \<longleftrightarrow>
     au_status a = ''Accepted'' \<and> \<not> is_expired env (au_cacheExpiry a) \<and>
     (\<exists>e c. applyAuthorizers env a name e c = Inr ''Accepted'' \<and>
        (\<forall>f fs. ae_authorizers env = f # fs \<longrightarrow> fst (f a name e c) = Inr ''Accepted''))"

lemma valid_authorizationI:
  assumes "au_status a = ''Accepted''" "\<not> is_expired env (au_cacheExpiry a)"
    "applyAuthorizers env a name e c = Inr ''Accepted''"
  shows "valid_authorization env name a"
proof -
  have "fst (f a name e c) = Inr ''Accepted''" if f: "ae_authorizers env = f # fs" for f fs
    using assms(3) unfolding applyAuthorizers_def f by (rule apply_authorizers_first [THEN conjunct2])
  then show ?thesis using assms unfolding valid_authorization_def by blast
qed

lemma authorize_ocpp2_accepted:
  assumes "authorize_ocpp2 env ev name = Inr (info, au)" "ii_status info = ''Accepted''"
  shows "\<exists>a. query_authorizations env (te_idToken ev) (te_idTokenType ev) = Inr [a] \<and> au = Some a
    \<and> valid_authorization env name a
    \<and> (au_concurrent a = Some True \<and> te_eventType ev = ''Started'' \<longrightarrow> ae_activeTransactions env (au_id a) = Inr 0)"
proof -
  obtain as where as: "query_authorizations env (te_idToken ev) (te_idTokenType ev) = Inr as"
    using assms(1) by (auto simp: authorize_ocpp2_def bind_res_eq_Inr)
  obtain a where a: "as = [a]"
    using assms as by (auto simp: authorize_ocpp2_def split: list.splits)
  obtain i where i: "toIdTokenInfo a = Inr i"
    using assms(1) as a by (auto simp: authorize_ocpp2_def bind_res_eq_Inr)
  note body = assms(1) [unfolded authorize_ocpp2_def as a bind_res_simps list.case i]
  have st: "ii_status i = ''Accepted''" using body assms(2) by (cases "ii_status i = ''Accepted''") auto
  have ex: "\<not> is_expired env (ii_cacheExpiry i)"
    using body assms(2) st by (cases "is_expired env (ii_cacheExpiry i)") auto
  obtain concurrent where c: "(if au_concurrent a = Some True \<and> te_eventType ev = ''Started''
        then hasConcurrentTransactions env (au_id a) else Inr False) = Inr concurrent"
    using body st ex by (auto simp: bind_res_eq_Inr)
  note body = body [unfolded c bind_res_simps]
  have nc: "\<not> concurrent" using body assms(2) st ex by (cases concurrent) auto
  obtain e co result where r: "applyAuthorizers env a name e co = Inr result"
    "mapAuthorizationDtoToIdTokenInfo a result = Inr info" "au = Some a"
    using body st ex nc by (auto simp: bind_res_eq_Inr)
  have res: "result = ''Accepted''" using map_status [OF r(2)] assms(2) by simp
  have "valid_authorization env name a"
    using toIdTokenInfo_status [OF i] st ex r(1) res by (intro valid_authorizationI) simp_all
  moreover have "au_concurrent a = Some True \<and> te_eventType ev = ''Started'' \<longrightarrow> ae_activeTransactions env (au_id a) = Inr 0"
    using c nc by (auto simp: hasConcurrentTransactions_def bind_res_eq_Inr)
  ultimately show ?thesis using as a r(3) by blast
qed

lemma prepaid_accepted:
  "ii_status (tr_idTokenInfo (prepaid_response env info a)) = ''Accepted'' \<Longrightarrow>
   ii_status info = ''Accepted'' \<and> (au_isPrepaid a \<longrightarrow>
     (\<exists>b > 0. au_prepaidBalance a = Some b \<and> tr_maxCost (prepaid_response env info a) = Some b))"
  by (auto simp: prepaid_response_def split: if_splits option.splits)

lemma ocpp16_accepted:
  assumes "sr_status (authorizeOcpp16IdToken env name idToken connectorId) = ''Accepted''"
  shows "\<exists>a. query_authorizations env idToken [] = Inr [a] \<and> (au_status a = [] \<or> valid_authorization env name a
    \<and> (au_concurrent a \<noteq> Some True \<longrightarrow> ae_activeTransactions env (au_id a) = Inr 0))"
proof -
  obtain resp where b: "authorize_ocpp16_body env name idToken connectorId = Inr resp" "sr_status resp = ''Accepted''"
    using assms by (auto simp: authorizeOcpp16IdToken_def split: sum.splits)
  obtain as where as: "query_authorizations env idToken [] = Inr as"
    using b(1) by (auto simp: authorize_ocpp16_body_def bind_res_eq_Inr)
  obtain a where a: "as = [a]"
    using b as by (auto simp: authorize_ocpp16_body_def split: list.splits)
  show ?thesis
  proof (cases "au_status a = []")
    case False
    note body = b(1) [unfolded authorize_ocpp16_body_def as a bind_res_simps list.case if_not_P [OF False]]
    obtain i where i: "toStartTransactionResponseStatus (au_status a) = Inr i"
      using body by (auto simp: bind_res_eq_Inr)
    note body = body [unfolded i bind_res_simps]
    have st: "i = ''Accepted''" using body b(2) by (cases "i = ''Accepted''") auto
    have ex: "\<not> is_expired env (au_cacheExpiry a)"
      using body b(2) st by (cases "is_expired env (au_cacheExpiry a)") auto
    obtain concurrent where c: "(if au_concurrent a \<noteq> Some True then hasConcurrentTransactions env (au_id a) else Inr False)
        = Inr concurrent"
      using body st ex by (auto simp: bind_res_eq_Inr)
    note body = body [unfolded c bind_res_simps]
    have nc: "\<not> concurrent" using body b(2) st ex by (cases concurrent) auto
    obtain co where co: "ae_connector16 env connectorId = Inr co"
      using body st ex nc by (auto simp: bind_res_eq_Inr)
    obtain result where r: "applyAuthorizers env a name (Option.bind co co_evse) co = Inr result"
      using body st ex nc co by (auto simp: bind_res_eq_Inr)
    obtain st' where st': "toStartTransactionResponseStatus result = Inr st'"
      using body st ex nc co r by (auto simp: bind_res_eq_Inr)
    have "st' = ''Accepted''"
      using body b(2) st ex nc co r st' by (cases "st' = ''Accepted''") auto
    then have res: "result = ''Accepted''"
      using st' by (auto simp: toStartTransactionResponseStatus_def split: if_splits)
    have au: "au_status a = ''Accepted''"
      using i st by (auto simp: toStartTransactionResponseStatus_def split: if_splits)
    have "valid_authorization env name a"
      using au ex r res by (intro valid_authorizationI) simp_all
    moreover have "au_concurrent a \<noteq> Some True \<longrightarrow> ae_activeTransactions env (au_id a) = Inr 0"
      using c nc by (auto simp: hasConcurrentTransactions_def bind_res_eq_Inr)
    ultimately show ?thesis using as a by blast
  qed (use as a in blast)
qed

section \<open>The real-time authorizer\<close>

text \<open>The verdict of the partner, for an authorization that is checked in real time.\<close>

definition checked_in_real_time :: "authorization \<Rightarrow> bool" where
  "checked_in_real_time a \<longleftrightarrow>
     au_status a = ''Accepted'' \<and> au_realTimeAuthUrl a \<notin> {None, Some []} \<and>
     au_realTimeAuth a \<notin> {None, Some [], Some ''Allowed''}"

lemma realtime_asks:
  assumes "checked_in_real_time a" "rt_station env = Inr st" "determine_connector st e c = Some ids"
    "recent_result env name (snd ids) a = None" "rt_token env \<in> {None, Some (Inr ())}"
  shows "realtime_authorize env name a e c =
    (case ask_partner env of Inr r \<Rightarrow> r | Inl x \<Rightarrow> offline_result a,
     with_attempt env name (Some ids) (case ask_partner env of Inr r \<Rightarrow> r | Inl x \<Rightarrow> offline_result a) a)"
  using assms by (auto simp: realtime_authorize_def checked_in_real_time_def Let_def)

lemma realtime_accepts_only:
  assumes "fst (realtime_authorize env name a e c) = ''Accepted''" "checked_in_real_time a"
  shows "(\<exists>x. rt_station env = Inl x) \<and> au_realTimeAuth a = Some ''AllowedOffline''
    \<or> (\<exists>st. rt_station env = Inr st \<and>
        (determine_connector st e c = None
         \<or> (\<exists>ids. determine_connector st e c = Some ids \<and>
              (recent_result env name (snd ids) a = Some ''Accepted''
               \<or> ask_partner env = Inr ''Accepted''
               \<or> (\<exists>x. ask_partner env = Inl x) \<and> au_realTimeAuth a = Some ''AllowedOffline''))))"
  using assms
  by (auto simp: realtime_authorize_def checked_in_real_time_def offline_result_def Let_def
      split: if_splits sum.splits option.splits)

lemma map_allowed_accepted: "map_allowed v = ''Accepted'' \<longleftrightarrow> v = JStr ''ALLOWED''"
  by (simp add: map_allowed_def)

lemma ask_partner_accepted:
  "ask_partner env = Inr ''Accepted'' \<Longrightarrow>
   \<exists>body. rt_fetch env = Inr body \<and> js_prop ''allowed'' (js_prop ''data'' body) = JStr ''ALLOWED''"
  by (auto simp: ask_partner_def map_allowed_accepted bind_res_eq_Inr split: if_splits)

section \<open>Properties\<close>


definition demo_authorization :: "bool option \<Rightarrow> authorization" where
  "demo_authorization concurrent =
     \<lparr> au_id = 1, au_idToken = ''AB12'', au_idTokenType = Some ''Central'', au_status = ''Accepted'', au_cacheExpiry = None,
       au_concurrent = concurrent, au_isPrepaid = True, au_prepaidBalance = Some 20, au_allowedConnectorTypes = None,
       au_disallowedEvseIdPrefixes = None, au_realTimeAuth = None, au_realTimeAuthUrl = None,
       au_realTimeAuthLastAttempt = None, au_realTimeAuthTimeout = None, au_groupAuthorization = None,
       au_groupAuthorizationId = None, au_display = JUndef \<rparr>"

definition demo_auth_env :: "bool option \<Rightarrow> nat \<Rightarrow> auth_env" where
  "demo_auth_env concurrent active =
     \<lparr> ae_authorizations = Inr [demo_authorization concurrent], ae_activeTransactions = (\<lambda>n. Inr active),
       ae_connector = (\<lambda>e. Inr None), ae_evse = (\<lambda>e. Inr None), ae_parent = (\<lambda>g. Inr None),
       ae_connector16 = (\<lambda>c. Inr None), ae_authorizers = [], ae_now = 0, ae_nowIso = 0 \<rparr>"

definition demo_started :: transaction_event where
  "demo_started = \<lparr> te_idToken = ''AB12'', te_idTokenType = ''Central'', te_eventType = ''Started'', te_evse = None \<rparr>"

lemmas demo_auth_simps =
  demo_authorization_def demo_auth_env_def demo_started_def query_authorizations_def toIdTokenInfo_def
  fromAuthorizationStatusEnumType_def authorization_statuses_def is_expired_def applyAuthorizers_def
  mapAuthorizationDtoToIdTokenInfo_def find_evse_def hasConcurrentTransactions_def prepaid_response_def

lemma demo_accepted:
  "\<exists>r. authorizeOcpp21IdToken (demo_auth_env None 0) demo_started ''cs'' = Inr r
    \<and> ii_status (tr_idTokenInfo r) = ''Accepted''"
  by (simp add: authorizeOcpp21IdToken_def authorize_ocpp2_def demo_auth_simps)


text \<open>The versions of the protocol read the concurrentTransaction flag of an authorization in opposite
  ways. While a transaction with the token is active, another one is refused with ConcurrentTx
  by OCPP 2.0.1 and 2.1 when the flag is set and by OCPP 1.6 when it is not; with the other
  value of the flag each of them goes on to accept it when no authorizer objects.\<close>

lemma concurrency_checks_disagree:
  assumes "ae_authorizations env = Inr [a]" and "au_idToken a = te_idToken ev" and "au_idTokenType a = Some (te_idTokenType ev)"
    and "au_status a = ''Accepted''" and "au_cacheExpiry a = None" and "au_groupAuthorization a = None"
    and "au_groupAuthorizationId a = None" and "au_isPrepaid a = False" and "te_eventType ev = ''Started''" and "te_evse ev = None"
    and "ae_activeTransactions env (au_id a) = Inr (Suc n)" and "ae_connector16 env connectorId = Inr None"
    and "ae_authorizers env = []"
  shows "authorizeOcpp201IdToken env ev name =
      Inr \<lparr> tr_idTokenInfo = (if au_concurrent a = Some True then status_info ''ConcurrentTx''
              else (status_info ''Accepted'')\<lparr> ii_display := au_display a \<rparr>), tr_maxCost = None \<rparr>
    \<and> authorizeOcpp21IdToken env ev name = authorizeOcpp201IdToken env ev name
    \<and> authorizeOcpp16IdToken env name (te_idToken ev) connectorId =
      start_status (if au_concurrent a = Some True then ''Accepted'' else ''ConcurrentTx'')"
proof -
  have q: "query_authorizations env (te_idToken ev) (te_idTokenType ev) = Inr [a]"
    "query_authorizations env (te_idToken ev) [] = Inr [a]"
    using assms(1-3) by (simp_all add: query_authorizations_def)
  have i: "toIdTokenInfo a = Inr ((status_info ''Accepted'')\<lparr> ii_display := au_display a \<rparr>)"
    using assms(4-6) by (simp add: toIdTokenInfo_def fromAuthorizationStatusEnumType_def authorization_statuses_def status_info_def)
  have ap: "applyAuthorizers env a name e c = Inr ''Accepted''" for e c
    using assms(4,13) by (simp add: applyAuthorizers_def)
  have m: "mapAuthorizationDtoToIdTokenInfo a ''Accepted'' = Inr ((status_info ''Accepted'')\<lparr> ii_display := au_display a \<rparr>)"
    using assms(5,6) by (simp add: mapAuthorizationDtoToIdTokenInfo_def fromAuthorizationStatusEnumType_def
        authorization_statuses_def status_info_def)
  have h: "hasConcurrentTransactions env (au_id a) = Inr True"
    using assms(11) by (simp add: hasConcurrentTransactions_def)
  have x: "\<not> is_expired env None" by (simp add: is_expired_def)
  have ii: "ii_cacheExpiry ((status_info ''Accepted'')\<lparr> ii_display := au_display a \<rparr>) = None"
    "ii_status ((status_info ''Accepted'')\<lparr> ii_display := au_display a \<rparr>) = ''Accepted''" by (simp_all add: status_info_def)
  have f: "find_evse env None = Inr (None, None)" by (simp add: find_evse_def)
  have core: "authorize_ocpp2 env ev name = Inr (if au_concurrent a = Some True then (status_info ''ConcurrentTx'', None)
      else ((status_info ''Accepted'')\<lparr> ii_display := au_display a \<rparr>, Some a))"
    unfolding authorize_ocpp2_def q(1) bind_res_simps list.case i
    using assms(9,10) by (simp add: x ii h f ap m)
  have ocpp16: "authorize_ocpp16_body env name (te_idToken ev) connectorId
      = Inr (start_status (if au_concurrent a = Some True then ''Accepted'' else ''ConcurrentTx''))"
    unfolding authorize_ocpp16_body_def q(2) bind_res_simps list.case
    using assms(4,5,7,12) by (simp add: x h ap toStartTransactionResponseStatus_def accepted_start_def start_status_def)
  show ?thesis
    by (simp add: authorizeOcpp201IdToken_def authorizeOcpp21IdToken_def authorizeOcpp16IdToken_def core ocpp16
        prepaid_response_def assms(8))
qed

lemma concurrency_checks_disagree_witness:
  "\<exists>env. authorizeOcpp16IdToken env ''cs'' ''AB12'' 1 = start_status ''Accepted''
     \<and> authorizeOcpp201IdToken env demo_started ''cs''
        = Inr \<lparr> tr_idTokenInfo = status_info ''ConcurrentTx'', tr_maxCost = None \<rparr>"
proof -
  let ?a = "(demo_authorization (Some True))\<lparr> au_isPrepaid := False \<rparr>"
  let ?env = "(demo_auth_env (Some True) 1)\<lparr> ae_authorizations := Inr [?a] \<rparr>"
  have "te_idToken demo_started = ''AB12''" by (simp add: demo_started_def)
  moreover have "au_concurrent ?a = Some True" by (simp add: demo_authorization_def)
  ultimately show ?thesis
    using concurrency_checks_disagree [of ?env ?a demo_started 0 1 "''cs''"]
    by (intro exI [of _ ?env]) (simp add: demo_authorization_def demo_auth_env_def demo_started_def)
qed

text \<open>When an authorization is checked in real time and no recent verdict is on record, the token is
  accepted only if the partner answers ALLOWED or cannot be asked and the authorization allows
  that offline. The verdict is then kept: at the same connector every further attempt within
  the timeout gets the same verdict, whatever the partner would say by then, also when the
  verdict was only that the partner could not be asked.\<close>

lemma realtime_verdict_kept:
  assumes "checked_in_real_time a" and "rt_station env = Inr st" and "determine_connector st e c = Some ids"
    and "recent_result env name (snd ids) a = None" and "rt_token env \<in> {None, Some (Inr ())}"
    and "realtime_authorize env name a e c = (r, a')"
    and "rt_station env' = Inr st'" and "determine_connector st' e' c' = Some ids'" and "snd ids' = snd ids"
    and "rt_now env' - rt_now env
           < (case au_realTimeAuthTimeout a of Some t \<Rightarrow> t | None \<Rightarrow> rt_defaultTimeout env') * 1000"
  shows "(r = ''Accepted'' \<longrightarrow>
      (\<exists>body. rt_fetch env = Inr body \<and> js_prop ''allowed'' (js_prop ''data'' body) = JStr ''ALLOWED'')
      \<or> (\<exists>x. ask_partner env = Inl x) \<and> au_realTimeAuth a = Some ''AllowedOffline'')
    \<and> realtime_authorize env' name a' e' c' = (r, a')"
proof -
  note ra = realtime_asks [OF assms(1-5), unfolded assms(6)]
  have r: "r = (case ask_partner env of Inr x \<Rightarrow> x | Inl x \<Rightarrow> offline_result a)"
    and a': "a' = with_attempt env name (Some ids) r a" using ra by auto
  have "recent_result env' name (snd ids) a' = Some r"
    using assms(10) by (simp add: recent_result_def a' with_attempt_def)
  moreover have "checked_in_real_time a'" using assms(1) by (simp add: checked_in_real_time_def a' with_attempt_def)
  ultimately have "realtime_authorize env' name a' e' c' = (r, a')"
    using assms(7-9) by (auto simp: realtime_authorize_def checked_in_real_time_def)
  moreover have "(\<exists>body. rt_fetch env = Inr body \<and> js_prop ''allowed'' (js_prop ''data'' body) = JStr ''ALLOWED'')
      \<or> (\<exists>x. ask_partner env = Inl x) \<and> au_realTimeAuth a = Some ''AllowedOffline''" if "r = ''Accepted''"
    using that r ask_partner_accepted [of env] by (cases "ask_partner env") (auto simp: offline_result_def split: if_splits)
  ultimately show ?thesis by blast
qed

definition demo_realtime :: "(exn + jsval) \<Rightarrow> int \<Rightarrow> realtime_env" where
  "demo_realtime fetch t =
     \<lparr> rt_station = Inr None, rt_token = None, rt_fetch = fetch, rt_now = t, rt_defaultTimeout = 60 \<rparr>"

lemma realtime_verdict_kept_witness:
  "\<exists>a'. realtime_authorize (demo_realtime (Inl (JsErr ''fetch failed'' [])) 0) ''cs''
        ((demo_authorization None)\<lparr> au_realTimeAuth := Some ''Never'', au_realTimeAuthUrl := Some ''url'' \<rparr>)
        (Some \<lparr> ev_id = 1, ev_connectors = Some [7] \<rparr>) None = (''Invalid'', a')
     \<and> realtime_authorize (demo_realtime (Inr (JObj [(''data'', JObj [(''allowed'', JStr ''ALLOWED'')])])) 59999) ''cs'' a'
        (Some \<lparr> ev_id = 1, ev_connectors = Some [7] \<rparr>) None = (''Invalid'', a')"
proof -
  let ?a = "(demo_authorization None)\<lparr> au_realTimeAuth := Some ''Never'', au_realTimeAuthUrl := Some ''url'' \<rparr>"
  let ?e = "Some \<lparr> ev_id = 1, ev_connectors = Some [7] \<rparr>"
  let ?env = "demo_realtime (Inl (JsErr ''fetch failed'' [])) 0"
  let ?env' = "demo_realtime (Inr (JObj [(''data'', JObj [(''allowed'', JStr ''ALLOWED'')])])) 59999"
  have c: "checked_in_real_time ?a" by (simp add: checked_in_real_time_def demo_authorization_def)
  have d: "determine_connector None ?e None = Some (1, 7)" by (simp add: determine_connector_def)
  have n: "recent_result ?env ''cs'' (snd (1, 7)) ?a = None" by (simp add: recent_result_def demo_authorization_def)
  have s: "rt_station ?env = Inr None" "rt_station ?env' = Inr None" "rt_token ?env \<in> {None, Some (Inr ())}"
    by (simp_all add: demo_realtime_def)
  have p: "ask_partner ?env = Inl (JsErr ''fetch failed'' [])" by (simp add: ask_partner_def demo_realtime_def)
  have t: "rt_now ?env' - rt_now ?env < (case au_realTimeAuthTimeout ?a of Some t \<Rightarrow> t | None \<Rightarrow> rt_defaultTimeout ?env') * 1000"
    by (simp add: demo_realtime_def demo_authorization_def)
  obtain a' where 1: "realtime_authorize ?env ''cs'' ?a ?e None = (''Invalid'', a')"
    using realtime_asks [OF c s(1) d n s(3)] unfolding p by (simp add: offline_result_def demo_authorization_def)
  from realtime_verdict_kept [OF c s(1) d n s(3) 1 s(2) d refl t] 1 show ?thesis by blast
qed

section \<open>EVSE restrictions\<close>

lemma indexOf_singleton: "\<not> 0 < indexOf [y] x"
  by simp

lemma allowed_single: "allowed_types_found [t] attributes = []"
proof -
  have "foldl (\<lambda>evseIds (v, evse). if 0 < indexOf [Some t] v then set_add evse evseIds else evseIds) [] attributes = []"
    by (induction attributes) auto
  then show ?thesis by (simp add: allowed_types_found_def)
qed

lemma filter_prefixes_disallowed:
  "\<forall>(v, evse) \<in> set attributes. v \<noteq> None \<Longrightarrow>
   \<exists>xs. filter_prefixes ds False attributes acc = Inr xs \<and>
     set xs = set acc \<union> {evse. \<exists>v. (Some v, evse) \<in> set attributes \<and> (\<exists>p \<in> set ds. starts_with v p)}"
proof (induction attributes arbitrary: acc)
  case (Cons x attributes)
  obtain v evse where x: "x = (Some v, evse)" using Cons.prems by (cases x) auto
  let ?acc = "if list_ex (starts_with v) ds then set_add evse acc else acc"
  let ?D = "\<lambda>as. {evse. \<exists>v. (Some v, evse) \<in> set as \<and> (\<exists>p \<in> set ds. starts_with v p)}"
  obtain xs where xs: "filter_prefixes ds False attributes ?acc = Inr xs" "set xs = set ?acc \<union> ?D attributes"
    using Cons.IH [of ?acc] Cons.prems by auto
  have "set ?acc = set acc \<union> (if \<exists>p \<in> set ds. starts_with v p then {evse} else {})"
    by (auto simp: set_add_def list_ex_iff)
  moreover have "?D (x # attributes) = (if \<exists>p \<in> set ds. starts_with v p then {evse} else {}) \<union> ?D attributes"
    by (auto simp: x)
  ultimately have "set xs = set acc \<union> ?D (x # attributes)" using xs(2) by (simp only: Un_assoc)
  moreover have "filter_prefixes ds False (x # attributes) acc = filter_prefixes ds False attributes ?acc"
    by (simp add: x Let_def)
  ultimately show ?case using xs(1) by simp
qed simp

lemma set_evse_id_field: "set (evse_id_field (Some xs)) = set xs"
proof (cases xs)
  case (Cons y ys)
  then have "set (butlast xs @ [last xs]) = set xs" by (metis append_butlast_last_id list.discI)
  then show ?thesis using Cons by (auto simp: evse_id_field_def)
qed (simp add: evse_id_field_def)

text \<open>The EVSE restrictions of an authorization do the opposite of what they say. An authorization
  restricted to one connector type is refused at every station, whatever its connectors are,
  because the first allowed type is never matched. An authorization with disallowed EVSE id
  prefixes and no connector types is accepted for exactly the EVSEs that have a disallowed
  prefix, and refused when the station has none.\<close>

lemma evse_restrictions_inverted:
  assumes "au_status a = ''Accepted''" and "au_cacheExpiry a = None" and "au_groupAuthorization a = None"
    and "\<forall>(v, evse) \<in> set (az_evseIds env). v \<noteq> None"
  shows "(au_allowedConnectorTypes a = Some [t] \<longrightarrow>
      authorize_known env name a = Inr (status_info ''NotAllowedTypeEVSE'', False))
    \<and> (au_allowedConnectorTypes a = None \<and> au_disallowedEvseIdPrefixes a = Some (d # ds) \<and> az_authorizers env = [] \<longrightarrow>
      (let disallowed = {evse. \<exists>v. (Some v, evse) \<in> set (az_evseIds env) \<and> (\<exists>p \<in> set (d # ds). starts_with v p)}
       in if disallowed = {} then authorize_known env name a = Inr (status_info ''NotAtThisLocation'', False)
          else \<exists>info. authorize_known env name a = Inr (info, True) \<and> ii_status info = ''Accepted''
                 \<and> set (ii_evseId info) = disallowed))"
proof (intro conjI impI)
  let ?info = "(status_info ''Accepted'')\<lparr> ii_display := au_display a \<rparr>"
  have i: "toIdTokenInfo a = Inr ?info"
    using assms(1-3) by (simp add: toIdTokenInfo_def fromAuthorizationStatusEnumType_def authorization_statuses_def status_info_def)
  have s: "ii_status ?info = ''Accepted''" "ii_cacheExpiry ?info = None" "ii_groupIdToken ?info = None"
    by (simp_all add: status_info_def)
  have g: "(status_info st)\<lparr> ii_groupIdToken := None \<rparr> = status_info st" for st by (simp add: status_info_def)
  have refused: "authorize_with fs name (status_info st) a = Inr (status_info st)" if "st \<noteq> ''Accepted''" for fs st
    using that by (cases fs) simp_all
  {
    assume t: "au_allowedConnectorTypes a = Some [t]"
    have "restrict_evses env a = Inr (Inl ''NotAllowedTypeEVSE'')" by (simp add: restrict_evses_def t allowed_single)
    then show "authorize_known env name a = Inr (status_info ''NotAllowedTypeEVSE'', False)"
      by (simp add: authorize_known_def i s checked_info_def g refused)
  next
    assume d: "au_allowedConnectorTypes a = None \<and> au_disallowedEvseIdPrefixes a = Some (d # ds) \<and> az_authorizers env = []"
    define disallowed where "disallowed = {evse. \<exists>v. (Some v, evse) \<in> set (az_evseIds env) \<and> (\<exists>p \<in> set (d # ds). starts_with v p)}"
    obtain xs where xs: "filter_prefixes (d # ds) False (az_evseIds env) [] = Inr xs" "set xs = disallowed"
      using filter_prefixes_disallowed [OF assms(4), of "d # ds" "[]"] unfolding disallowed_def by auto
    have r: "restrict_evses env a = (if xs = [] then Inr (Inl ''NotAtThisLocation'') else Inr (Inr (Some xs)))"
      using d xs(1) by (simp add: restrict_evses_def Let_def)
    show "let disallowed = {evse. \<exists>v. (Some v, evse) \<in> set (az_evseIds env) \<and> (\<exists>p \<in> set (d # ds). starts_with v p)}
       in if disallowed = {} then authorize_known env name a = Inr (status_info ''NotAtThisLocation'', False)
          else \<exists>info. authorize_known env name a = Inr (info, True) \<and> ii_status info = ''Accepted''
                 \<and> set (ii_evseId info) = disallowed"
    proof (cases "xs = []")
      case True
      then have "authorize_known env name a = Inr (status_info ''NotAtThisLocation'', False)"
        by (simp add: authorize_known_def i s checked_info_def g refused r)
      then show ?thesis unfolding disallowed_def [symmetric] Let_def using True xs(2) by simp
    next
      case False
      then have "authorize_known env name a = Inr (?info\<lparr> ii_evseId := evse_id_field (Some xs) \<rparr>, True)"
        using d by (simp add: authorize_known_def i s checked_info_def r)
      then show ?thesis
        unfolding disallowed_def [symmetric] Let_def using False xs(2) set_evse_id_field [of xs] by (auto simp: status_info_def)
    qed
  }
qed

definition demo_authorize_env :: authorize_env where
  "demo_authorize_env =
     \<lparr> az_validateHashData = (\<lambda>h. Inr ''Accepted''), az_validateChain = (\<lambda>c. Inr ''Accepted''),
       az_authorization = (\<lambda>i t. Inr None), az_connectorTypes = [(Some ''cType2'', Some 1)],
       az_evseIds = [(Some ''DE*1'', Some 1), (Some ''FR*1'', Some 2)], az_authorizers = [], az_now = 0 \<rparr>"

lemma evse_restrictions_inverted_witness:
  "authorize_known demo_authorize_env ''cs''
     ((demo_authorization None)\<lparr> au_allowedConnectorTypes := Some [''cType2''] \<rparr>)
     = Inr (status_info ''NotAllowedTypeEVSE'', False)
   \<and> (\<exists>info. authorize_known demo_authorize_env ''cs''
        ((demo_authorization None)\<lparr> au_disallowedEvseIdPrefixes := Some [''FR''] \<rparr>) = Inr (info, True)
      \<and> set (ii_evseId info) = {Some 2})"
proof -
  let ?a = "(demo_authorization None)\<lparr> au_allowedConnectorTypes := Some [''cType2''] \<rparr>"
  let ?b = "(demo_authorization None)\<lparr> au_disallowedEvseIdPrefixes := Some [''FR''] \<rparr>"
  have v: "\<forall>(v, evse) \<in> set (az_evseIds demo_authorize_env). v \<noteq> None" by (simp add: demo_authorize_env_def)
  have d: "{evse. \<exists>v. (Some v, evse) \<in> set (az_evseIds demo_authorize_env) \<and> (\<exists>p \<in> set [''FR'']. starts_with v p)} = {Some 2}"
    by (auto simp: demo_authorize_env_def starts_with_def)
  have a: "au_status ?a = ''Accepted''" "au_cacheExpiry ?a = None" "au_groupAuthorization ?a = None"
    "au_allowedConnectorTypes ?a = Some [''cType2'']" by (simp_all add: demo_authorization_def)
  have b: "au_status ?b = ''Accepted''" "au_cacheExpiry ?b = None" "au_groupAuthorization ?b = None"
    "au_allowedConnectorTypes ?b = None" "au_disallowedEvseIdPrefixes ?b = Some [''FR'']"
    "az_authorizers demo_authorize_env = []" by (simp_all add: demo_authorization_def demo_authorize_env_def)
  have "authorize_known demo_authorize_env ''cs'' ?a = Inr (status_info ''NotAllowedTypeEVSE'', False)"
    using evse_restrictions_inverted [OF a(1-3) v, THEN conjunct1] a(4) by blast
  moreover have "\<exists>info. authorize_known demo_authorize_env ''cs'' ?b = Inr (info, True) \<and> set (ii_evseId info) = {Some 2}"
    using evse_restrictions_inverted [OF b(1-3) v, THEN conjunct2, of "''FR''" "[]" "''cs''"] b(4-6)
    unfolding d Let_def by auto
  ultimately show ?thesis by blast
qed

end
