(* ===== verification/TransactionStore.thy ===== *)
theory TransactionStore
  imports MeterValues Authorization
begin

text \<open>
  The tables a transaction lives in and the repository operations on them
  (packages/core/src/dal/layers/sequelize/repository/TransactionEvent.ts, the queries of
  Base.ts, ChargingStationSequence.ts, and the parts of
  packages/core/src/modules/Transactions/src/module/TransactionService.ts that write them). A table is the
  list of its rows in the order they were created; a serial primary key is one more than the
  largest one; a query without an order yields rows in table order. Unique constraints are
  those of the models. What the database says to a row that is saved (foreign keys, column
  types) is the argument save of the operations; an operation inside a database transaction
  that fails leaves the tables as they were. Meter values are in the form the mapper gives
  them. Emitted events and log lines are left out.
\<close>

section \<open>Tables\<close>

record tx_row =
  tx_id :: nat
  tx_tenantId :: int
  tx_name :: string                     \<comment> \<open>ocppConnectionName\<close>
  tx_transactionId :: string
  tx_isActive :: bool
  tx_evseId :: "nat option"
  tx_connectorId :: "nat option"
  tx_authorizationId :: "nat option"
  tx_tariffId :: jsval
  tx_meterStart :: "rat option"
  tx_totalKwh :: "rat option"
  tx_totalCost :: "rat option"
  tx_stoppedReason :: jsval
  tx_chargingState :: jsval
  tx_remoteStartId :: "int option"
  tx_transactionLimit :: jsval
  tx_startTime :: "string option"
  tx_endTime :: "string option"

record evse_row =
  er_id :: nat
  er_tenantId :: int
  er_stationId :: nat
  er_name :: string
  er_evseTypeId :: "int option"   \<comment> \<open>the number OCPP 2.0.1 uses for the EVSE\<close>
  er_evseId :: string

record connector_row =
  kr_id :: nat
  kr_tenantId :: int
  kr_stationId :: nat
  kr_name :: string
  kr_connectorId :: int
  kr_evseId :: nat
  kr_evseTypeConnectorId :: nat
  kr_tariffId :: "nat option"

record evse_type_row =
  et_databaseId :: nat
  et_tenantId :: int
  et_id :: int

record station_row =
  sn_id :: nat
  sn_tenantId :: int
  sn_name :: string

record reservation_row =
  rv_id :: int
  rv_tenantId :: int
  rv_name :: string
  rv_isActive :: bool
  rv_terminatedBy :: "string option"

record tariff_row =
  tf_id :: nat
  tf_tenantId :: int
  tf_tariffId :: string
  tf_pricePerKwh :: rat
  tf_currency :: string

record tx_db =
  db_transactions :: "tx_row list"
  db_evses :: "evse_row list"
  db_connectors :: "connector_row list"
  db_evse_types :: "evse_type_row list"
  db_stations :: "station_row list"
  db_authorizations :: "(int \<times> authorization) list"
  db_tariffs :: "tariff_row list"
  db_sequences :: "(int \<times> string) \<Rightarrow> int option"
  db_starts :: "(nat \<times> rat) list"                     \<comment> \<open>transaction, meterStart in Wh\<close>
  db_stops :: "(nat \<times> rat \<times> string \<times> string) list"     \<comment> \<open>transaction, meterStop, time, reason\<close>
  db_events :: "(nat \<times> string \<times> string option) list"   \<comment> \<open>transaction, type, idToken\<close>
  db_meter_values :: "(nat \<times> meter_value) list"
  db_reservations :: "reservation_row list"

definition serial :: "('a \<Rightarrow> nat) \<Rightarrow> 'a list \<Rightarrow> nat" where
  "serial key rows = Suc (foldr (\<lambda>r m. max (key r) m) rows 0)"

text \<open>readOnlyOneByQuery: more than one row is an error.\<close>

definition read_only_one :: "('a \<Rightarrow> bool) \<Rightarrow> 'a list \<Rightarrow> exn + 'a option" where
  "read_only_one P rows =
     (case filter P rows of
        [] \<Rightarrow> Inr None
      | [r] \<Rightarrow> Inr (Some r)
      | _ \<Rightarrow> Inl (JsErr ''More than one value found for query: '' []))"

definition update_rows :: "('a \<Rightarrow> bool) \<Rightarrow> ('a \<Rightarrow> 'a) \<Rightarrow> 'a list \<Rightarrow> 'a list" where
  "update_rows P f rows = map (\<lambda>r. if P r then f r else r) rows"

section \<open>Reading\<close>

definition is_transaction :: "int \<Rightarrow> string \<Rightarrow> string \<Rightarrow> tx_row \<Rightarrow> bool" where
  "is_transaction tenantId name transactionId t =
     (tx_tenantId t = tenantId \<and> tx_name t = name \<and> tx_transactionId t = transactionId)"

definition readTransactionByStationIdAndTransactionId ::
  "int \<Rightarrow> string \<Rightarrow> string \<Rightarrow> tx_db \<Rightarrow> exn + tx_row option" where
  "readTransactionByStationIdAndTransactionId tenantId name transactionId db =
     read_only_one (is_transaction tenantId name transactionId) (db_transactions db)"

definition readAllActiveTransactionsByAuthorizationId :: "int \<Rightarrow> nat \<Rightarrow> tx_db \<Rightarrow> tx_row list" where
  "readAllActiveTransactionsByAuthorizationId tenantId authorizationId db =
     filter (\<lambda>t. tx_tenantId t = tenantId \<and> tx_isActive t \<and> tx_authorizationId t = Some authorizationId)
       (db_transactions db)"

definition evse_of :: "tx_db \<Rightarrow> nat option \<Rightarrow> evse_row option" where
  "evse_of db i = (case i of None \<Rightarrow> None | Some k \<Rightarrow> find (\<lambda>e. er_id e = k) (db_evses db))"

definition readConnectorByStationIdAndOcpp16ConnectorId ::
  "int \<Rightarrow> string \<Rightarrow> int \<Rightarrow> tx_db \<Rightarrow> connector_row option" where
  "readConnectorByStationIdAndOcpp16ConnectorId tenantId name connectorId db =
     find (\<lambda>c. kr_tenantId c = tenantId \<and> kr_name c = name \<and> kr_connectorId c = connectorId) (db_connectors db)"

definition station_of :: "int \<Rightarrow> string \<Rightarrow> tx_db \<Rightarrow> station_row option" where
  "station_of tenantId name db = find (\<lambda>s. sn_tenantId s = tenantId \<and> sn_name s = name) (db_stations db)"

definition authorization_for :: "int \<Rightarrow> string \<Rightarrow> string option \<Rightarrow> tx_db \<Rightarrow> authorization option" where
  "authorization_for tenantId idToken idTokenType db =
     map_option snd (find (\<lambda>(tn, a). tn = tenantId \<and> au_idToken a = idToken
        \<and> (idTokenType = None \<or> au_idTokenType a = idTokenType)) (db_authorizations db))"

definition tariff_for :: "int \<Rightarrow> string \<Rightarrow> tx_db \<Rightarrow> nat option" where
  "tariff_for tenantId tariffId db =
     map_option tf_id (find (\<lambda>r. tf_tenantId r = tenantId \<and> tf_tariffId r = tariffId) (db_tariffs db))"

section \<open>EVSEs and connectors of an event\<close>

definition no_station :: "string \<Rightarrow> int \<Rightarrow> exn" where
  "no_station name tenantId = JsErr ''Charging station does not exist for tenant'' [JStr name, JNum (of_int tenantId)]"

definition find_or_create_evse_type :: "int \<Rightarrow> int \<Rightarrow> tx_db \<Rightarrow> nat \<times> tx_db" where
  "find_or_create_evse_type tenantId evseTypeId db =
     (case find (\<lambda>e. et_tenantId e = tenantId \<and> et_id e = evseTypeId) (db_evse_types db) of
        Some e \<Rightarrow> (et_databaseId e, db)
      | None \<Rightarrow>
          let k = serial et_databaseId (db_evse_types db)
          in (k, db\<lparr> db_evse_types := db_evse_types db
                 @ [\<lparr> et_databaseId = k, et_tenantId = tenantId, et_id = evseTypeId \<rparr>] \<rparr>))"

text \<open>upsert: a row with the same station and evseTypeId is updated.\<close>

definition upsert_evse :: "int \<Rightarrow> station_row \<Rightarrow> string \<Rightarrow> int \<Rightarrow> string \<Rightarrow> tx_db \<Rightarrow> nat \<times> tx_db" where
  "upsert_evse tenantId st name evseTypeId evseId db =
     (let same = (\<lambda>e. er_stationId e = sn_id st \<and> er_evseTypeId e = Some evseTypeId)
      in case find same (db_evses db) of
           Some e \<Rightarrow>
             (er_id e, db\<lparr> db_evses := update_rows same
                (\<lambda>e. e\<lparr> er_tenantId := tenantId, er_name := name, er_evseId := evseId \<rparr>) (db_evses db) \<rparr>)
         | None \<Rightarrow>
             let k = serial er_id (db_evses db)
             in (k, db\<lparr> db_evses := db_evses db
                    @ [\<lparr> er_id = k, er_tenantId = tenantId, er_stationId = sn_id st, er_name = name,
                         er_evseTypeId = Some evseTypeId, er_evseId = evseId \<rparr>] \<rparr>))"

text \<open>The id of the EVSE and the database id of its type.\<close>

definition readOrCreateOcpp2Evse :: "int \<Rightarrow> string \<Rightarrow> int \<Rightarrow> tx_db \<Rightarrow> exn + (nat \<times> nat) \<times> tx_db" where
  "readOrCreateOcpp2Evse tenantId name evseTypeId db =
     (case station_of tenantId name db of
        None \<Rightarrow> Inl (no_station name tenantId)
      | Some st \<Rightarrow>
          let (databaseId, db1) = find_or_create_evse_type tenantId evseTypeId db;
              (evse, db2) = upsert_evse tenantId st name (int databaseId) (int_str evseTypeId) db1
          in Inr ((evse, databaseId), db2))"

definition readOrCreateOcpp2Connector ::
  "int \<Rightarrow> string \<Rightarrow> nat \<Rightarrow> int \<Rightarrow> nat \<Rightarrow> tx_db \<Rightarrow> exn + connector_row \<times> tx_db" where
  "readOrCreateOcpp2Connector tenantId name evseId connectorId evseTypeConnectorId db =
     (case station_of tenantId name db of
        None \<Rightarrow> Inl (no_station name tenantId)
      | Some st \<Rightarrow>
          (case find (\<lambda>c. kr_tenantId c = tenantId \<and> kr_stationId c = sn_id st \<and> kr_name c = name
                        \<and> kr_evseId c = evseId \<and> kr_evseTypeConnectorId c = evseTypeConnectorId) (db_connectors db) of
             Some c \<Rightarrow> Inr (c, db)
           | None \<Rightarrow>
               if list_ex (\<lambda>c. kr_stationId c = sn_id st \<and> kr_connectorId c = connectorId) (db_connectors db)
               then Inl (JsErr ''SequelizeUniqueConstraintError'' [])
               else
                 let c = \<lparr> kr_id = serial kr_id (db_connectors db), kr_tenantId = tenantId, kr_stationId = sn_id st,
                           kr_name = name, kr_connectorId = connectorId, kr_evseId = evseId,
                           kr_evseTypeConnectorId = evseTypeConnectorId, kr_tariffId = None \<rparr>
                 in Inr (c, db\<lparr> db_connectors := db_connectors db @ [c] \<rparr>)))"

section \<open>Transaction events\<close>

record tx_info =
  ti_transactionId :: string
  ti_chargingState :: jsval
  ti_stoppedReason :: jsval
  ti_remoteStartId :: "int option"
  ti_transactionLimit :: jsval
  ti_tariffId :: jsval

record tx_event =
  tv_eventType :: string
  tv_triggerReason :: string
  tv_timestamp :: string
  tv_info :: tx_info
  tv_evse :: "(int \<times> int option) option"
  tv_idToken :: "(string \<times> string) option"      \<comment> \<open>value and type\<close>
  tv_meterValue :: "meter_value list option"
  tv_reservationId :: "int option"

text \<open>An update leaves a column alone when its new value is undefined.\<close>

definition js_or_keep :: "jsval \<Rightarrow> jsval \<Rightarrow> jsval" where
  "js_or_keep new old = (if new = JUndef then old else new)"

definition no_id :: "nat option \<Rightarrow> bool" where
  "no_id i = (i = None \<or> i = Some 0)"

definition js_id :: "nat option \<Rightarrow> jsval" where
  "js_id i = (case i of None \<Rightarrow> JUndef | Some n \<Rightarrow> JNum (of_nat n))"

definition event_token :: "tx_event \<Rightarrow> (string \<times> string) option" where
  "event_token v = (case tv_idToken v of Some (tok, t) \<Rightarrow> if tok = [] then None else Some (tok, t) | None \<Rightarrow> None)"

definition event_authorization :: "int \<Rightarrow> tx_event \<Rightarrow> tx_db \<Rightarrow> nat option" where
  "event_authorization tenantId v db =
     (case event_token v of
        None \<Rightarrow> None
      | Some (tok, t) \<Rightarrow> map_option au_id (authorization_for tenantId tok (Some t) db))"

definition existing_evse :: "int \<Rightarrow> string \<Rightarrow> tx_row \<Rightarrow> tx_event \<Rightarrow> tx_db \<Rightarrow> exn + nat option \<times> tx_db" where
  "existing_evse tenantId name t v db =
     (case tv_evse v of
        Some (evse, c) \<Rightarrow>
          if no_id (tx_evseId t)
          then bind_res (readOrCreateOcpp2Evse tenantId name evse db) (\<lambda>((e, k), db). Inr (Some e, db))
          else Inr (tx_evseId t, db)
      | None \<Rightarrow> Inr (tx_evseId t, db))"

text \<open>The connector of the event with its tariff.\<close>

definition event_connector ::
  "int \<Rightarrow> string \<Rightarrow> int \<Rightarrow> int \<Rightarrow> tx_db \<Rightarrow> exn + connector_row \<times> tx_db" where
  "event_connector tenantId name evse connectorId db =
     bind_res (readOrCreateOcpp2Evse tenantId name evse db) (\<lambda>((e, k), db).
       readOrCreateOcpp2Connector tenantId name e connectorId k db)"

definition existing_connector ::
  "int \<Rightarrow> string \<Rightarrow> tx_row \<Rightarrow> tx_event \<Rightarrow> tx_db \<Rightarrow> exn + (nat option \<times> jsval) \<times> tx_db" where
  "existing_connector tenantId name t v db =
     (case tv_evse v of
        Some (evse, Some c) \<Rightarrow>
          if no_id (tx_connectorId t) \<and> c \<noteq> 0
          then bind_res (event_connector tenantId name evse c db)
                 (\<lambda>(k, db). Inr ((Some (kr_id k), js_id (kr_tariffId k)), db))
          else Inr ((tx_connectorId t, tx_tariffId t), db)
      | _ \<Rightarrow> Inr ((tx_connectorId t, tx_tariffId t), db))"

definition info_tariff :: "int \<Rightarrow> tx_info \<Rightarrow> tx_db \<Rightarrow> nat option" where
  "info_tariff tenantId info db =
     (case nonempty_str (ti_tariffId info) of None \<Rightarrow> None | Some k \<Rightarrow> tariff_for tenantId k db)"

definition updated_transaction ::
  "tx_event \<Rightarrow> nat option \<Rightarrow> nat option \<Rightarrow> nat option \<Rightarrow> jsval \<Rightarrow> tx_row \<Rightarrow> tx_row" where
  "updated_transaction v authorizationId evseId connectorId tariffId t =
     (let ended = (tv_eventType v = ''Ended''); info = tv_info v
      in t\<lparr> tx_isActive := \<not> ended,
            tx_endTime := (if ended then Some (tv_timestamp v) else tx_endTime t),
            tx_chargingState := js_or_keep (ti_chargingState info) (tx_chargingState t),
            tx_stoppedReason := js_or_keep (ti_stoppedReason info) (tx_stoppedReason t),
            tx_remoteStartId := (if ti_remoteStartId info = None then tx_remoteStartId t else ti_remoteStartId info),
            tx_transactionLimit := js_or_keep (ti_transactionLimit info) (tx_transactionLimit t),
            tx_authorizationId := authorizationId, tx_evseId := evseId, tx_connectorId := connectorId,
            tx_tariffId := js_or_keep tariffId (tx_tariffId t) \<rparr>)"

definition put_transaction :: "tx_row \<Rightarrow> tx_db \<Rightarrow> tx_db" where
  "put_transaction t db =
     db\<lparr> db_transactions := update_rows (\<lambda>r. tx_id r = tx_id t) (\<lambda>_. t) (db_transactions db) \<rparr>"

definition update_transaction ::
  "(tx_row \<Rightarrow> exn + unit) \<Rightarrow> int \<Rightarrow> string \<Rightarrow> tx_event \<Rightarrow> tx_row \<Rightarrow> tx_db \<Rightarrow> exn + tx_row \<times> tx_db" where
  "update_transaction save tenantId name v t db =
     bind_res (existing_evse tenantId name t v db) (\<lambda>(evseId, db).
     bind_res (existing_connector tenantId name t v db) (\<lambda>((connectorId, tariffId), db).
       let tariffId' = (case info_tariff tenantId (tv_info v) db of Some i \<Rightarrow> js_id (Some i) | None \<Rightarrow> tariffId);
           authorizationId = (if no_id (tx_authorizationId t) \<and> event_authorization tenantId v db \<noteq> None
                              then event_authorization tenantId v db else tx_authorizationId t);
           t' = updated_transaction v authorizationId evseId connectorId tariffId' t
       in bind_res (save t') (\<lambda>_. Inr (t', put_transaction t' db))))"

text \<open>A new transaction: the spread of transactionInfo also copies its tariffId.\<close>

definition blank_transaction :: "int \<Rightarrow> string \<Rightarrow> tx_event \<Rightarrow> nat \<Rightarrow> tx_row" where
  "blank_transaction tenantId name v i =
     (let info = tv_info v
      in \<lparr> tx_id = i, tx_tenantId = tenantId, tx_name = name, tx_transactionId = ti_transactionId info,
           tx_isActive = (tv_eventType v \<noteq> ''Ended''), tx_evseId = None, tx_connectorId = None,
           tx_authorizationId = None, tx_tariffId = ti_tariffId info, tx_meterStart = None, tx_totalKwh = None,
           tx_totalCost = None, tx_stoppedReason = ti_stoppedReason info,
           tx_chargingState = ti_chargingState info, tx_remoteStartId = ti_remoteStartId info,
           tx_transactionLimit = ti_transactionLimit info,
           tx_startTime = (if tv_eventType v = ''Started'' then Some (tv_timestamp v) else None),
           tx_endTime = None \<rparr>)"

definition place_transaction ::
  "int \<Rightarrow> string \<Rightarrow> tx_event \<Rightarrow> tx_row \<Rightarrow> tx_db \<Rightarrow> exn + tx_row \<times> tx_db" where
  "place_transaction tenantId name v t db =
     (case tv_evse v of
        None \<Rightarrow> Inr (t, db)
      | Some (evse, c) \<Rightarrow>
          bind_res (readOrCreateOcpp2Evse tenantId name evse db) (\<lambda>((e, k), db).
            let t1 = t\<lparr> tx_evseId := Some e \<rparr>
            in case c of
                 None \<Rightarrow> Inr (t1, db)
               | Some c' \<Rightarrow>
                   if c' = 0 then Inr (t1, db)
                   else bind_res (readOrCreateOcpp2Connector tenantId name e c' k db) (\<lambda>(con, db).
                     Inr (t1\<lparr> tx_connectorId := Some (kr_id con),
                              tx_tariffId := (case info_tariff tenantId (tv_info v) db of
                                 Some i \<Rightarrow> js_id (Some i) | None \<Rightarrow> js_id (kr_tariffId con)) \<rparr>, db))))"

definition create_transaction ::
  "(tx_row \<Rightarrow> exn + unit) \<Rightarrow> int \<Rightarrow> string \<Rightarrow> tx_event \<Rightarrow> tx_db \<Rightarrow> exn + tx_row \<times> tx_db" where
  "create_transaction save tenantId name v db =
     bind_res (place_transaction tenantId name v
         (blank_transaction tenantId name v (serial tx_id (db_transactions db))) db) (\<lambda>(t, db).
       let t' = t\<lparr> tx_authorizationId := event_authorization tenantId v db \<rparr>
       in bind_res (save t') (\<lambda>_. Inr (t', db\<lparr> db_transactions := db_transactions db @ [t'] \<rparr>)))"

text \<open>The energy of a transaction after new meter values.\<close>

definition apply_meter_values :: "meter_value list \<Rightarrow> tx_row \<Rightarrow> exn + tx_row" where
  "apply_meter_values mvs t =
     (let current = (case tx_totalKwh t of Some q \<Rightarrow> q | None \<Rightarrow> 0)
      in case tx_meterStart t of
           None \<Rightarrow>
             bind_res (getMeterStart mvs) (\<lambda>ms.
             bind_res (getTotalKwh mvs current ms) (\<lambda>k.
               Inr (t\<lparr> tx_totalKwh := Some k, tx_meterStart := ms \<rparr>)))
         | Some s \<Rightarrow>
             bind_res (getTotalKwh mvs current (Some s)) (\<lambda>k. Inr (t\<lparr> tx_totalKwh := Some k \<rparr>)))"

definition store_meter_values :: "nat \<Rightarrow> meter_value list \<Rightarrow> tx_db \<Rightarrow> tx_db" where
  "store_meter_values i mvs db = db\<lparr> db_meter_values := db_meter_values db @ map (Pair i) mvs \<rparr>"

definition record_event :: "int \<Rightarrow> tx_event \<Rightarrow> tx_row \<Rightarrow> tx_db \<Rightarrow> exn + tx_row \<times> tx_db" where
  "record_event tenantId v t db =
     (let tok = (case event_token v of
                   Some (k, ty) \<Rightarrow> if ty \<noteq> ''NoAuthorization'' \<and> event_authorization tenantId v db \<noteq> None then Some k else None
                 | None \<Rightarrow> None);
          db1 = db\<lparr> db_events := db_events db @ [(tx_id t, tv_eventType v, tok)] \<rparr>
      in case tv_meterValue v of
           Some (m # ms) \<Rightarrow>
             bind_res (apply_meter_values (m # ms) t) (\<lambda>t'.
               Inr (t', put_transaction t' (store_meter_values (tx_id t) (m # ms) db1)))
         | _ \<Rightarrow> Inr (t, db1))"

definition createOrUpdateTransactionByTransactionEventAndStationId ::
  "(tx_row \<Rightarrow> exn + unit) \<Rightarrow> int \<Rightarrow> tx_event \<Rightarrow> string \<Rightarrow> tx_db \<Rightarrow> exn + tx_row \<times> tx_db" where
  "createOrUpdateTransactionByTransactionEventAndStationId save tenantId v name db =
     bind_res (readTransactionByStationIdAndTransactionId tenantId name (ti_transactionId (tv_info v)) db)
       (\<lambda>existing.
     bind_res (case existing of
                 Some t \<Rightarrow> update_transaction save tenantId name v t db
               | None \<Rightarrow> create_transaction save tenantId name v db)
       (\<lambda>(t, db). record_event tenantId v t db))"

section \<open>OCPP 1.6\<close>

record start_request =
  sq_connectorId :: int
  sq_idTag :: string
  sq_meterStart :: rat
  sq_timestamp :: string
  sq_reservationId :: "int option"

text \<open>The next value of the transaction id sequence of a station; it starts at 1.\<close>

definition getNextSequenceValue :: "int \<Rightarrow> string \<Rightarrow> tx_db \<Rightarrow> int \<times> tx_db" where
  "getNextSequenceValue tenantId name db =
     (let n = (case db_sequences db (tenantId, name) of None \<Rightarrow> 1 | Some k \<Rightarrow> k + 1)
      in (n, db\<lparr> db_sequences := (db_sequences db)((tenantId, name) \<mapsto> n) \<rparr>))"

definition started_transaction :: "int \<Rightarrow> string \<Rightarrow> start_request \<Rightarrow> connector_row \<Rightarrow> int \<Rightarrow> tx_db \<Rightarrow> tx_row" where
  "started_transaction tenantId name request c n db =
     \<lparr> tx_id = serial tx_id (db_transactions db), tx_tenantId = tenantId, tx_name = name,
       tx_transactionId = int_str n, tx_isActive = True, tx_evseId = Some (kr_evseId c),
       tx_connectorId = Some (kr_id c),
       tx_authorizationId = map_option au_id (authorization_for tenantId (sq_idTag request) None db),
       tx_tariffId = js_id (kr_tariffId c), tx_meterStart = Some (sq_meterStart request / 1000),
       tx_totalKwh = None, tx_totalCost = None, tx_stoppedReason = JUndef, tx_chargingState = JUndef,
       tx_remoteStartId = None, tx_transactionLimit = JUndef,
       tx_startTime = Some (sq_timestamp request), tx_endTime = None \<rparr>"

text \<open>The sequence has its own database transaction: it stays advanced when saving fails.\<close>

definition createTransactionByStartTransaction ::
  "(tx_row \<Rightarrow> exn + unit) \<Rightarrow> int \<Rightarrow> start_request \<Rightarrow> string \<Rightarrow> tx_db \<Rightarrow> (exn + tx_row) \<times> tx_db" where
  "createTransactionByStartTransaction save tenantId request name db =
     (case read_only_one (\<lambda>c. kr_tenantId c = tenantId \<and> kr_connectorId c = sq_connectorId request \<and> kr_name c = name)
             (db_connectors db) of
        Inl e \<Rightarrow> (Inl e, db)
      | Inr None \<Rightarrow> (Inl (JsErr ''Unable to find connector '' [JNum (of_int (sq_connectorId request))]), db)
      | Inr (Some c) \<Rightarrow>
          let (n, db1) = getNextSequenceValue tenantId name db;
              t = started_transaction tenantId name request c n db1
          in case save t of
               Inl e \<Rightarrow> (Inl e, db1)
             | Inr _ \<Rightarrow> (Inr t, db1\<lparr> db_transactions := db_transactions db1 @ [t],
                                    db_starts := db_starts db1 @ [(tx_id t, sq_meterStart request)] \<rparr>))"

definition createStopTransaction ::
  "int \<Rightarrow> nat \<Rightarrow> rat \<Rightarrow> string \<Rightarrow> meter_value list \<Rightarrow> string \<Rightarrow> tx_db \<Rightarrow> exn + tx_db" where
  "createStopTransaction tenantId transactionDatabaseId meterStop timestamp mvs reason db =
     bind_res (read_only_one (\<lambda>t. tx_tenantId t = tenantId \<and> tx_id t = transactionDatabaseId) (db_transactions db))
       (\<lambda>found. case found of
          None \<Rightarrow> Inl (JsErr ''Transaction not found.'' [JNum (of_nat transactionDatabaseId)])
        | Some t \<Rightarrow>
            Inr (store_meter_values transactionDatabaseId mvs
                  (put_transaction (t\<lparr> tx_endTime := Some timestamp, tx_isActive := False \<rparr>)
                    (db\<lparr> db_stops := db_stops db @ [(transactionDatabaseId, meterStop, timestamp, reason)] \<rparr>))))"

definition updateTransactionByMeterValues ::
  "int \<Rightarrow> meter_value list \<Rightarrow> string \<Rightarrow> int \<Rightarrow> tx_db \<Rightarrow> (exn + unit) \<times> tx_db" where
  "updateTransactionByMeterValues tenantId mvs name transactionId db =
     (case readTransactionByStationIdAndTransactionId tenantId name (int_str transactionId) db of
        Inl e \<Rightarrow> (Inl e, db)
      | Inr None \<Rightarrow> (Inr (), db)
      | Inr (Some t) \<Rightarrow>
          let db1 = store_meter_values (tx_id t) mvs db
          in case apply_meter_values mvs t of
               Inl e \<Rightarrow> (Inl e, db1)
             | Inr t' \<Rightarrow> (Inr (), put_transaction t' db1))"

section \<open>Deactivation and updates\<close>

definition deactivated_at :: "int \<Rightarrow> string \<Rightarrow> int option \<Rightarrow> string \<Rightarrow> tx_db \<Rightarrow> tx_row \<Rightarrow> bool" where
  "deactivated_at tenantId name evseTypeId excludeTransactionId db t =
     (tx_tenantId t = tenantId \<and> tx_name t = name \<and> tx_isActive t \<and> tx_transactionId t \<noteq> excludeTransactionId
      \<and> map_option er_evseTypeId (evse_of db (tx_evseId t)) = Some evseTypeId)"

definition deactivateActiveTransactionsByStationIdAndEvseId ::
  "int \<Rightarrow> string \<Rightarrow> int option \<Rightarrow> string \<Rightarrow> tx_db \<Rightarrow> tx_db" where
  "deactivateActiveTransactionsByStationIdAndEvseId tenantId name evseTypeId excludeTransactionId db =
     db\<lparr> db_transactions := update_rows (deactivated_at tenantId name evseTypeId excludeTransactionId db)
           (\<lambda>t. t\<lparr> tx_isActive := False \<rparr>) (db_transactions db) \<rparr>"

text \<open>The EVSE is given by a connector number of OCPP 1.6 (Inl) or the EVSE number of OCPP 2 (Inr).\<close>

definition deactivateOtherActiveTransactionsAtEvse ::
  "int \<Rightarrow> string \<Rightarrow> string \<Rightarrow> int + int \<Rightarrow> tx_db \<Rightarrow> tx_db" where
  "deactivateOtherActiveTransactionsAtEvse tenantId transactionId name evseIdentifier db =
     (case (case evseIdentifier of
              Inl connectorId \<Rightarrow>
                (case readConnectorByStationIdAndOcpp16ConnectorId tenantId name connectorId db of
                   None \<Rightarrow> None
                 | Some c \<Rightarrow> map_option er_evseTypeId (evse_of db (Some (kr_evseId c))))
            | Inr evse \<Rightarrow> Some (Some evse)) of
        None \<Rightarrow> db
      | Some evseTypeId \<Rightarrow>
          deactivateActiveTransactionsByStationIdAndEvseId tenantId name evseTypeId transactionId db)"

definition updateTransactionByStationIdAndTransactionId ::
  "int \<Rightarrow> (tx_row \<Rightarrow> tx_row) \<Rightarrow> string \<Rightarrow> string \<Rightarrow> tx_db \<Rightarrow> tx_db" where
  "updateTransactionByStationIdAndTransactionId tenantId f transactionId name db =
     db\<lparr> db_transactions := update_rows (is_transaction tenantId name transactionId) f (db_transactions db) \<rparr>"

definition updateTransactionTotalCostById :: "int \<Rightarrow> rat \<Rightarrow> nat \<Rightarrow> tx_db \<Rightarrow> tx_db" where
  "updateTransactionTotalCostById tenantId totalCost i db =
     db\<lparr> db_transactions := update_rows (\<lambda>t. tx_id t = i \<and> tx_tenantId t = tenantId)
           (\<lambda>t. t\<lparr> tx_totalCost := Some totalCost \<rparr>) (db_transactions db) \<rparr>"

definition deactivateReservation :: "int \<Rightarrow> string \<Rightarrow> int \<Rightarrow> string \<Rightarrow> tx_db \<Rightarrow> tx_db" where
  "deactivateReservation tenantId transactionId reservationId name db =
     db\<lparr> db_reservations := update_rows (\<lambda>r. rv_tenantId r = tenantId \<and> rv_id r = reservationId \<and> rv_name r = name)
           (\<lambda>r. r\<lparr> rv_terminatedBy := Some transactionId, rv_isActive := False \<rparr>) (db_reservations db) \<rparr>"

text \<open>updateTransactionStatus, with the request it answers as it is stored.\<close>

definition updateTransactionStatus :: "int \<Rightarrow> string \<Rightarrow> (exn + jsval option) \<Rightarrow> bool \<Rightarrow> tx_db \<Rightarrow> exn + tx_db" where
  "updateTransactionStatus tenantId name request ongoingIndicator db =
     bind_res request (\<lambda>payload.
       Inr (case payload of
              None \<Rightarrow> db
            | Some p \<Rightarrow>
                (case nonempty_str (js_prop ''transactionId'' p) of
                   None \<Rightarrow> db
                 | Some transactionId \<Rightarrow>
                     updateTransactionByStationIdAndTransactionId tenantId
                       (\<lambda>t. t\<lparr> tx_isActive := ongoingIndicator \<rparr>) transactionId name db)))"

section \<open>Lemmas\<close>

lemma update_rows_simps [simp]:
  "update_rows P f [] = []"
  "update_rows P f (x # xs) = (if P x then f x else x) # update_rows P f xs"
  "set (update_rows P f xs) = (\<lambda>x. if P x then f x else x) ` set xs"
  "length (update_rows P f xs) = length xs"
  by (simp_all add: update_rows_def)

lemma serial_fresh: "x \<in> set xs \<Longrightarrow> key x < serial key xs"
proof -
  have "x \<in> set xs \<Longrightarrow> key x \<le> foldr (\<lambda>r m. max (key r) m) xs 0" for x
    by (induction xs) (auto simp: le_max_iff_disj)
  then show "x \<in> set xs \<Longrightarrow> key x < serial key xs" by (simp add: serial_def le_imp_less_Suc)
qed

lemma read_only_one_Some: "read_only_one P rows = Inr (Some r) \<Longrightarrow> filter P rows = [r]"
  by (auto simp: read_only_one_def split: list.splits)

lemma read_only_one_None: "read_only_one P rows = Inr None \<longleftrightarrow> filter P rows = []"
  by (auto simp: read_only_one_def split: list.splits)

lemma read_only_one_in: "read_only_one P rows = Inr (Some r) \<Longrightarrow> r \<in> set rows \<and> P r"
  by (drule read_only_one_Some) (auto simp: filter_eq_Cons_iff)

end
