(* ===== verification/Costs.thy ===== *)
theory Costs
  imports TransactionStore
begin

text \<open>
  Money (packages/base/src/money), the cost of a transaction and its periodic notification
  (CostCalculator.ts, Scheduler.ts and CostNotifier.ts in packages/core/src/modules/Transactions/src/module).
  Amounts are exact rationals; the library big.js computes exactly on the decimals the code
  passes it. The scheduler keeps a registry of timers by key beside the intervals that are
  running in the event loop; a notification is the step of one interval, run to its end. The
  sending of a CostUpdated call is an argument, which may fail.
\<close>

section \<open>Money\<close>

definition CURRENCY_CODES :: "string list" where
  "CURRENCY_CODES = [''USD'', ''EUR'', ''CAD'', ''GBP'']"

definition currency_scale :: nat where
  "currency_scale = 2"

record money =
  mo_amount :: rat
  mo_currency :: string

definition money_of :: "rat \<Rightarrow> string \<Rightarrow> exn + money" where
  "money_of amount code =
     (if code \<in> set CURRENCY_CODES then Inr \<lparr> mo_amount = amount, mo_currency = code \<rparr>
      else Inl (JsErr ''Unsupported currency code: '' [JStr code]))"

definition withAmount :: "rat \<Rightarrow> money \<Rightarrow> money" where
  "withAmount amount m = m\<lparr> mo_amount := amount \<rparr>"

text \<open>Rounding towards zero to a number of decimals.\<close>

definition round_down :: "nat \<Rightarrow> rat \<Rightarrow> rat" where
  "round_down scale q =
     (let m = 10 ^ scale in (if 0 \<le> q then of_int \<lfloor>q * m\<rfloor> else of_int \<lceil>q * m\<rceil>) / m)"

definition roundToCurrencyScale :: "money \<Rightarrow> money" where
  "roundToCurrencyScale m = withAmount (round_down currency_scale (mo_amount m)) m"

definition money_multiply :: "rat \<Rightarrow> money \<Rightarrow> money" where
  "money_multiply multiplier m = withAmount (mo_amount m * multiplier) m"

definition same_currency :: "money \<Rightarrow> money \<Rightarrow> 'a \<Rightarrow> exn + 'a" where
  "same_currency m n x =
     (if mo_currency m = mo_currency n then Inr x else Inl (JsErr ''Currency mismatch'' []))"

definition money_add :: "money \<Rightarrow> money \<Rightarrow> exn + money" where
  "money_add m n = same_currency m n (withAmount (mo_amount m + mo_amount n) m)"

definition money_subtract :: "money \<Rightarrow> money \<Rightarrow> exn + money" where
  "money_subtract m n = same_currency m n (withAmount (mo_amount m - mo_amount n) m)"

definition money_equals :: "money \<Rightarrow> money \<Rightarrow> bool" where
  "money_equals m n = (mo_currency m = mo_currency n \<and> mo_amount m = mo_amount n)"

definition money_greaterThan :: "money \<Rightarrow> money \<Rightarrow> exn + bool" where
  "money_greaterThan m n = same_currency m n (mo_amount n < mo_amount m)"

definition money_greaterThanOrEqual :: "money \<Rightarrow> money \<Rightarrow> exn + bool" where
  "money_greaterThanOrEqual m n = same_currency m n (mo_amount n \<le> mo_amount m)"

definition money_lessThan :: "money \<Rightarrow> money \<Rightarrow> exn + bool" where
  "money_lessThan m n = same_currency m n (mo_amount m < mo_amount n)"

definition money_lessThanOrEqual :: "money \<Rightarrow> money \<Rightarrow> exn + bool" where
  "money_lessThanOrEqual m n = same_currency m n (mo_amount m \<le> mo_amount n)"

definition money_isZero :: "money \<Rightarrow> bool" where
  "money_isZero m = (mo_amount m = 0)"

definition money_isPositive :: "money \<Rightarrow> bool" where
  "money_isPositive m = (0 < mo_amount m)"

definition money_isNegative :: "money \<Rightarrow> bool" where
  "money_isNegative m = (mo_amount m < 0)"

section \<open>The cost of a transaction\<close>

definition findByConnectorId :: "int \<Rightarrow> nat \<Rightarrow> tx_db \<Rightarrow> exn + tariff_row option" where
  "findByConnectorId tenantId connectorId db =
     read_only_one (\<lambda>r. tf_tenantId r = tenantId
        \<and> list_ex (\<lambda>c. kr_id c = connectorId \<and> kr_tariffId c = Some (tf_id r)) (db_connectors db)) (db_tariffs db)"

definition calculateTotalCost :: "int \<Rightarrow> nat option \<Rightarrow> rat \<Rightarrow> tx_db \<Rightarrow> exn + rat" where
  "calculateTotalCost tenantId connectorId totalKwh db =
     (case connectorId of
        None \<Rightarrow> Inr 0
      | Some c \<Rightarrow>
          bind_res (findByConnectorId tenantId c db) (\<lambda>tariff.
            case tariff of
              None \<Rightarrow> Inr 0
            | Some r \<Rightarrow>
                bind_res (money_of (tf_pricePerKwh r) (tf_currency r)) (\<lambda>m.
                  Inr (mo_amount (roundToCurrencyScale (money_multiply totalKwh m))))))"

section \<open>The scheduler\<close>

record cost_task =
  ct_name :: string
  ct_transactionId :: string
  ct_tenantId :: int
  ct_protocol :: string
  ct_interval :: int

record cost_update =
  cu_name :: string
  cu_tenantId :: int
  cu_totalCost :: rat
  cu_transactionId :: string
  cu_protocol :: string

record notifier =
  nt_registry :: "(string \<times> nat) list"
  nt_intervals :: "(nat \<times> cost_task) list"
  nt_next :: nat
  nt_sent :: "cost_update list"

definition new_notifier :: notifier where
  "new_notifier = \<lparr> nt_registry = [], nt_intervals = [], nt_next = 0, nt_sent = [] \<rparr>"

definition schedule :: "string \<Rightarrow> cost_task \<Rightarrow> notifier \<Rightarrow> notifier" where
  "schedule key task s =
     (if map_of (nt_registry s) key \<noteq> None then s
      else s\<lparr> nt_registry := AList.update key (nt_next s) (nt_registry s),
              nt_intervals := nt_intervals s @ [(nt_next s, task)], nt_next := Suc (nt_next s) \<rparr>)"

definition unschedule :: "string \<Rightarrow> notifier \<Rightarrow> notifier" where
  "unschedule key s =
     s\<lparr> nt_intervals := filter (\<lambda>(h, t). map_of (nt_registry s) key \<noteq> Some h) (nt_intervals s),
        nt_registry := AList.delete key (nt_registry s) \<rparr>"

section \<open>The notifier\<close>

definition notifier_key :: "string \<Rightarrow> string \<Rightarrow> string" where
  "notifier_key name transactionId = name @ '':'' @ transactionId"

definition notifyWhileActive :: "string \<Rightarrow> string \<Rightarrow> int \<Rightarrow> int \<Rightarrow> string \<Rightarrow> notifier \<Rightarrow> notifier" where
  "notifyWhileActive name transactionId tenantId intervalSeconds protocol s =
     schedule (notifier_key name transactionId)
       \<lparr> ct_name = name, ct_transactionId = transactionId, ct_tenantId = tenantId, ct_protocol = protocol,
         ct_interval = intervalSeconds \<rparr> s"

text \<open>The multiplication throws when there is no energy yet. The result is the update that was
  sent, if any; the cost is stored before it is sent.\<close>

definition calculateCostAndNotify ::
  "(cost_update \<Rightarrow> exn + unit) \<Rightarrow> int \<Rightarrow> string \<Rightarrow> tx_row \<Rightarrow> tx_db \<Rightarrow> (exn + cost_update option) \<times> tx_db" where
  "calculateCostAndNotify send tenantId protocol t db =
     (if tx_name t = [] then (Inr None, db)
      else case tx_connectorId t of
        None \<Rightarrow>
          let u = \<lparr> cu_name = tx_name t, cu_tenantId = tenantId, cu_totalCost = 0,
                    cu_transactionId = tx_transactionId t, cu_protocol = protocol \<rparr>;
              db1 = updateTransactionTotalCostById tenantId 0 (tx_id t) db
          in (bind_res (send u) (\<lambda>_. Inr (Some u)), db1)
      | Some c \<Rightarrow>
          (case (case tx_totalKwh t of
                   Some q \<Rightarrow> calculateTotalCost tenantId (Some c) q db
                 | None \<Rightarrow> bind_res (findByConnectorId tenantId c db) (\<lambda>tariff.
                     case tariff of None \<Rightarrow> Inr 0
                     | Some r \<Rightarrow> bind_res (money_of (tf_pricePerKwh r) (tf_currency r))
                                  (\<lambda>m. Inl (JsErr ''[big.js] Invalid number'' [])))) of
             Inl e \<Rightarrow> (Inl e, db)
           | Inr cost \<Rightarrow>
               let u = \<lparr> cu_name = tx_name t, cu_tenantId = tenantId, cu_totalCost = cost,
                         cu_transactionId = tx_transactionId t, cu_protocol = protocol \<rparr>;
                   db1 = updateTransactionTotalCostById tenantId cost (tx_id t) db
               in (bind_res (send u) (\<lambda>_. Inr (Some u)), db1)))"

definition tryNotify ::
  "(cost_update \<Rightarrow> exn + unit) \<Rightarrow> cost_task \<Rightarrow> tx_db \<Rightarrow> notifier \<Rightarrow> notifier \<times> tx_db" where
  "tryNotify send task db s =
     (let key = notifier_key (ct_name task) (ct_transactionId task)
      in case readTransactionByStationIdAndTransactionId (ct_tenantId task) (ct_name task) (ct_transactionId task) db of
           Inl e \<Rightarrow> (unschedule key s, db)
         | Inr None \<Rightarrow> (unschedule key s, db)
         | Inr (Some t) \<Rightarrow>
             if \<not> tx_isActive t then (unschedule key s, db)
             else (case calculateCostAndNotify send (ct_tenantId task) (ct_protocol task) t db of
                     (Inl e, db1) \<Rightarrow> (unschedule key s, db1)
                   | (Inr None, db1) \<Rightarrow> (s, db1)
                   | (Inr (Some u), db1) \<Rightarrow> (s\<lparr> nt_sent := nt_sent s @ [u] \<rparr>, db1)))"

section \<open>Steps\<close>

text \<open>A transaction starts, or an interval that is running fires, over whatever the tables hold then.\<close>

inductive cost_step :: "notifier \<Rightarrow> notifier \<Rightarrow> bool" where
  start: "cost_step s (notifyWhileActive name transactionId tenantId intervalSeconds protocol s)"
| fire: "(h, task) \<in> set (nt_intervals s) \<Longrightarrow> cost_step s (fst (tryNotify send task db s))"

inductive_cases cost_stepE: "cost_step s s'"

abbreviation cost_reachable :: "notifier \<Rightarrow> bool" where
  "cost_reachable s \<equiv> cost_step\<^sup>*\<^sup>* new_notifier s"

definition task_key :: "cost_task \<Rightarrow> string" where
  "task_key task = notifier_key (ct_name task) (ct_transactionId task)"

text \<open>The running intervals are exactly the registered ones.\<close>

definition notifier_inv :: "notifier \<Rightarrow> bool" where
  "notifier_inv s \<longleftrightarrow>
     distinct (map fst (nt_intervals s)) \<and>
     (\<forall>h task. (h, task) \<in> set (nt_intervals s) \<longrightarrow> h < nt_next s \<and> map_of (nt_registry s) (task_key task) = Some h) \<and>
     (\<forall>k h. map_of (nt_registry s) k = Some h \<longrightarrow> (\<exists>task. (h, task) \<in> set (nt_intervals s) \<and> task_key task = k))"

lemma map_of_reg_update [simp]: "map_of (AList.update k v xs) k' = (if k' = k then Some v else map_of xs k')"
  by (simp add: update_conv')

lemma map_of_reg_delete [simp]: "map_of (AList.delete k xs) k' = (if k' = k then None else map_of xs k')"
  by (simp add: delete_conv')

lemma notifier_inv_new: "notifier_inv new_notifier"
  by (simp add: notifier_inv_def new_notifier_def)

lemma notifier_invD:
  assumes "notifier_inv s"
  shows "distinct (map fst (nt_intervals s))"
    and "(h, task) \<in> set (nt_intervals s) \<Longrightarrow> h < nt_next s \<and> map_of (nt_registry s) (task_key task) = Some h"
    and "map_of (nt_registry s) k = Some h \<Longrightarrow> \<exists>task. (h, task) \<in> set (nt_intervals s) \<and> task_key task = k"
  using assms by (simp_all add: notifier_inv_def)

lemma notifier_inv_schedule:
  assumes "notifier_inv s"
  shows "notifier_inv (schedule (task_key task) task s)"
proof (cases "map_of (nt_registry s) (task_key task)")
  case None
  let ?s = "schedule (task_key task) task s"
  have s: "nt_intervals ?s = nt_intervals s @ [(nt_next s, task)]" "nt_next ?s = Suc (nt_next s)"
    "\<And>k. map_of (nt_registry ?s) k = (if k = task_key task then Some (nt_next s) else map_of (nt_registry s) k)"
    using None by (simp_all add: schedule_def)
  have new: "nt_next s \<notin> fst ` set (nt_intervals s)"
    using notifier_invD(2) [OF assms] by fastforce
  have old: "h < Suc (nt_next s) \<and> map_of (nt_registry ?s) (task_key t) = Some h" if "(h, t) \<in> set (nt_intervals s)" for h t
    using notifier_invD(2) [OF assms that] None by (auto simp: s(3))
  have "\<exists>t. (h, t) \<in> set (nt_intervals ?s) \<and> task_key t = k" if "map_of (nt_registry ?s) k = Some h" for h k
    using that notifier_invD(3) [OF assms, of k h] by (auto simp: s split: if_splits)
  then show ?thesis
    using notifier_invD(1) [OF assms] new old by (auto simp: notifier_inv_def s)
qed (use assms in \<open>simp add: schedule_def\<close>)

lemma notifier_inv_start: "notifier_inv s \<Longrightarrow> notifier_inv (notifyWhileActive name transactionId tenantId i p s)"
  using notifier_inv_schedule [of s "\<lparr> ct_name = name, ct_transactionId = transactionId, ct_tenantId = tenantId,
    ct_protocol = p, ct_interval = i \<rparr>"]
  by (simp add: notifyWhileActive_def task_key_def)

lemma unschedule_next [simp]: "nt_next (unschedule key s) = nt_next s"
  by (simp add: unschedule_def)

lemma notifier_inv_unschedule:
  assumes "notifier_inv s"
  shows "notifier_inv (unschedule key s)"
proof -
  have same: "t = t'" if "(h, t) \<in> set (nt_intervals s)" "(h, t') \<in> set (nt_intervals s)" for h t t'
    using notifier_invD(1) [OF assms] that by (rule eq_key_imp_eq_value)
  have "\<exists>t. (h, t) \<in> set (nt_intervals (unschedule key s)) \<and> task_key t = k"
    if "map_of (nt_registry (unschedule key s)) k = Some h" for k h
  proof -
    from that have k: "k \<noteq> key" "map_of (nt_registry s) k = Some h"
      by (simp_all add: unschedule_def split: if_splits)
    then obtain t where t: "(h, t) \<in> set (nt_intervals s)" "task_key t = k"
      using notifier_invD(3) [OF assms] by blast
    moreover have "map_of (nt_registry s) key \<noteq> Some h"
      using notifier_invD(3) [OF assms, of key h] same t k(1) by blast
    ultimately show ?thesis by (auto simp: unschedule_def)
  qed
  moreover have "h < nt_next s \<and> map_of (nt_registry (unschedule key s)) (task_key t) = Some h"
    if "(h, t) \<in> set (nt_intervals (unschedule key s))" for h t
    using that notifier_invD(2) [OF assms, of h t] by (auto simp: unschedule_def)
  moreover have "distinct (map fst (nt_intervals (unschedule key s)))"
    using notifier_invD(1) [OF assms] by (simp add: unschedule_def distinct_map_filter)
  ultimately show ?thesis by (simp add: notifier_inv_def)
qed

lemma notifier_inv_sent: "notifier_inv s \<Longrightarrow> notifier_inv (s\<lparr> nt_sent := us \<rparr>)"
  by (simp add: notifier_inv_def)

lemma tryNotify_cases:
  "fst (tryNotify send task db s) = s \<or> fst (tryNotify send task db s) = unschedule (task_key task) s \<or>
   (\<exists>u. fst (tryNotify send task db s) = s\<lparr> nt_sent := nt_sent s @ [u] \<rparr>)"
  by (auto simp: tryNotify_def task_key_def Let_def split: sum.splits option.splits prod.splits)

lemma notifier_inv_step: "cost_step s s' \<Longrightarrow> notifier_inv s \<Longrightarrow> notifier_inv s'"
proof (erule cost_stepE)
  fix h task send db
  assume "notifier_inv s" "s' = fst (tryNotify send task db s)"
  then show ?thesis
    using tryNotify_cases [of send task db s] by (auto intro: notifier_inv_unschedule notifier_inv_sent)
qed (auto intro: notifier_inv_start)

interpretation cost_machine: transition_system cost_step new_notifier notifier_inv
  by unfold_locales (rule notifier_inv_new, rule notifier_inv_step)

lemma distinct_singleton:
  assumes "distinct xs" and "set xs = {x}"
  shows "xs = [x]"
proof -
  obtain y ys where xs: "xs = y # ys" using assms(2) by (cases xs) simp_all
  then have "y = x" "set ys \<subseteq> {x}" using assms(2) by auto
  then have "ys = []" using assms(1) xs by (cases ys) simp_all
  then show ?thesis using xs \<open>y = x\<close> by simp
qed

section \<open>Properties\<close>

text \<open>C36. In every reachable state of the notifier a registered key has exactly one running interval and
  every running interval is registered: none is lost or armed twice.\<close>

theorem one_cost_timer_per_key:
  assumes "cost_reachable s"
  shows "map fst (filter (\<lambda>(h, task). task_key task = k) (nt_intervals s)) =
    (case map_of (nt_registry s) k of None \<Rightarrow> [] | Some h \<Rightarrow> [h])"
proof -
  note inv = cost_machine.reachable [OF assms]
  let ?hs = "map fst (filter (\<lambda>(h, task). task_key task = k) (nt_intervals s))"
  have d: "distinct ?hs" using notifier_invD(1) [OF inv] by (simp add: distinct_map_filter)
  have hs: "h \<in> set ?hs \<longleftrightarrow> map_of (nt_registry s) k = Some h" for h
  proof
    assume "h \<in> set ?hs"
    then obtain task where "(h, task) \<in> set (nt_intervals s)" "task_key task = k" by auto
    then show "map_of (nt_registry s) k = Some h" using notifier_invD(2) [OF inv] by blast
  next
    assume "map_of (nt_registry s) k = Some h"
    then obtain task where "(h, task) \<in> set (nt_intervals s)" "task_key task = k"
      using notifier_invD(3) [OF inv] by blast
    then show "h \<in> set ?hs" by (auto simp: image_iff intro!: bexI [of _ "(h, task)"])
  qed
  have "set ?hs = (case map_of (nt_registry s) k of None \<Rightarrow> {} | Some h \<Rightarrow> {h})"
    by (rule set_eqI) (simp only: hs split: option.split, auto)
  then show ?thesis
    using d by (cases "map_of (nt_registry s) k") (auto intro: distinct_singleton simp: filter_empty_conv)
qed

definition demo_task :: cost_task where
  "demo_task = \<lparr> ct_name = ''cp1'', ct_transactionId = ''7'', ct_tenantId = 1, ct_protocol = ''ocpp2.0.1'', ct_interval = 60 \<rparr>"

theorem one_cost_timer_per_key_witness:
  "map fst (filter (\<lambda>(h, task). task_key task = ''cp1:7'') (nt_intervals
     (notifyWhileActive ''cp1'' ''7'' 1 60 ''ocpp2.0.1'' (notifyWhileActive ''cp1'' ''7'' 1 60 ''ocpp2.0.1'' new_notifier)))) = [0]"
proof -
  let ?s = "notifyWhileActive ''cp1'' ''7'' 1 60 ''ocpp2.0.1'' (notifyWhileActive ''cp1'' ''7'' 1 60 ''ocpp2.0.1'' new_notifier)"
  have "cost_reachable ?s" by (meson cost_step.start rtranclp.intros)
  then show ?thesis
    using one_cost_timer_per_key [of ?s "''cp1:7''"]
    by (simp add: notifyWhileActive_def schedule_def new_notifier_def notifier_key_def)
qed

lemma round_down_bounds:
  assumes "0 \<le> q"
  shows "0 \<le> round_down n q" and "round_down n q \<le> q" and "q < round_down n q + 1 / 10 ^ n"
proof -
  have m: "(0 :: rat) < 10 ^ n" by simp
  have fl: "of_int \<lfloor>q * 10 ^ n\<rfloor> \<le> q * 10 ^ n" "q * 10 ^ n < of_int \<lfloor>q * 10 ^ n\<rfloor> + 1" by linarith+
  show "0 \<le> round_down n q" using assms by (simp add: round_down_def Let_def)
  show "round_down n q \<le> q" using assms fl(1) m by (simp add: round_down_def Let_def pos_divide_le_eq)
  show "q < round_down n q + 1 / 10 ^ n"
    using assms fl(2) m by (simp add: round_down_def Let_def pos_less_divide_eq add_divide_distrib [symmetric])
qed

text \<open>The cost of a transaction whose connector has a tariff in a supported currency is the price
  of its energy rounded down to whole cents: it is never more than the exact price and less
  than a cent below it; an unsupported currency is an error.\<close>

lemma cost_rounds_down:
  assumes "findByConnectorId tenantId c db = Inr (Some r)" and "0 \<le> tf_pricePerKwh r * kwh"
  shows "if tf_currency r \<in> set CURRENCY_CODES
    then \<exists>cost. calculateTotalCost tenantId (Some c) kwh db = Inr cost \<and> 0 \<le> cost
      \<and> cost \<le> tf_pricePerKwh r * kwh \<and> tf_pricePerKwh r * kwh < cost + 1 / 100 \<and> cost * 100 \<in> \<int>
    else \<exists>e. calculateTotalCost tenantId (Some c) kwh db = Inl e"
proof -
  have "round_down 2 q * 100 \<in> \<int>" for q by (simp add: round_down_def Let_def)
  then show ?thesis
    using assms round_down_bounds [OF assms(2), of 2]
    by (simp add: calculateTotalCost_def money_of_def roundToCurrencyScale_def money_multiply_def withAmount_def
        currency_scale_def)
qed

definition demo_connector_row :: connector_row where
  "demo_connector_row = \<lparr> kr_id = 5, kr_tenantId = 1, kr_stationId = 1, kr_name = ''cp1'', kr_connectorId = 1,
     kr_evseId = 1, kr_evseTypeConnectorId = 1, kr_tariffId = Some 9 \<rparr>"

definition demo_tariff :: tariff_row where
  "demo_tariff = \<lparr> tf_id = 9, tf_tenantId = 1, tf_tariffId = ''t'', tf_pricePerKwh = 1 / 3, tf_currency = ''EUR'' \<rparr>"

definition demo_tx :: tx_row where
  "demo_tx = \<lparr> tx_id = 3, tx_tenantId = 1, tx_name = ''cp1'', tx_transactionId = ''7'', tx_isActive = True,
     tx_evseId = Some 1, tx_connectorId = Some 5, tx_authorizationId = None, tx_tariffId = JUndef,
     tx_meterStart = None, tx_totalKwh = None, tx_totalCost = None, tx_stoppedReason = JUndef,
     tx_chargingState = JUndef, tx_remoteStartId = None, tx_transactionLimit = JUndef,
     tx_startTime = None, tx_endTime = None \<rparr>"

definition demo_tx_db :: tx_db where
  "demo_tx_db = \<lparr> db_transactions = [demo_tx],
     db_evses = [\<lparr> er_id = 1, er_tenantId = 1, er_stationId = 1, er_name = ''cp1'', er_evseTypeId = Some 1, er_evseId = ''1'' \<rparr>],
     db_connectors = [demo_connector_row], db_evse_types = [],
     db_stations = [\<lparr> sn_id = 1, sn_tenantId = 1, sn_name = ''cp1'' \<rparr>], db_authorizations = [],
     db_tariffs = [demo_tariff], db_sequences = (\<lambda>_. None), db_starts = [], db_stops = [], db_events = [],
     db_meter_values = [], db_reservations = [] \<rparr>"

lemma demo_findBy: "findByConnectorId 1 5 demo_tx_db = Inr (Some demo_tariff)"
  by (simp add: findByConnectorId_def read_only_one_def demo_tx_db_def demo_connector_row_def demo_tariff_def)

lemma cost_rounds_down_witness:
  "\<exists>cost. calculateTotalCost 1 (Some 5) 2 demo_tx_db = Inr cost \<and> cost \<le> 2 / 3 \<and> 2 / 3 < cost + 1 / 100"
  using cost_rounds_down [OF demo_findBy, of 2]
  by (auto simp: demo_tariff_def CURRENCY_CODES_def)

text \<open>The key of a timer does not contain the tenant: while the transaction of one tenant is
  registered, starting the notifications of another tenant's transaction with the same
  connection name and transaction id does nothing, and every interval that is running under
  that key belongs to the first tenant.\<close>

lemma cost_timer_shared_by_tenants:
  assumes "cost_reachable s" and "map_of (nt_registry s) (notifier_key name txid) = None"
  shows "notifyWhileActive name txid tenantB i' p' (notifyWhileActive name txid tenantA i p s)
      = notifyWhileActive name txid tenantA i p s
    \<and> (\<forall>h task. (h, task) \<in> set (nt_intervals (notifyWhileActive name txid tenantA i p s))
         \<and> task_key task = notifier_key name txid \<longrightarrow> ct_tenantId task = tenantA)"
proof -
  have "task_key task \<noteq> notifier_key name txid" if "(h, task) \<in> set (nt_intervals s)" for h task
    using notifier_invD(2) [OF cost_machine.reachable [OF assms(1)] that] assms(2) by auto
  then show ?thesis using assms(2) by (auto simp: notifyWhileActive_def schedule_def)
qed

lemma cost_timer_shared_by_tenants_witness:
  "map ct_tenantId (map snd (nt_intervals (notifyWhileActive ''cp1'' ''7'' 2 60 ''ocpp2.0.1''
     (notifyWhileActive ''cp1'' ''7'' 1 60 ''ocpp2.0.1'' new_notifier)))) = [1]"
  using cost_timer_shared_by_tenants [OF rtranclp.rtrancl_refl, of "''cp1''" "''7''" 2 60 "''ocpp2.0.1''" 1 60 "''ocpp2.0.1''"]
  by (simp add: new_notifier_def notifyWhileActive_def schedule_def)

text \<open>A transaction that has no energy when its first notification is due ends the notifications:
  the multiplication throws, the timer is removed and nothing is sent, then or later.\<close>

lemma no_energy_ends_notifications:
  assumes "readTransactionByStationIdAndTransactionId (ct_tenantId task) (ct_name task) (ct_transactionId task) db
      = Inr (Some t)"
    and "tx_isActive t" and "tx_totalKwh t = None" and "tx_connectorId t = Some c" and "tx_name t \<noteq> []"
    and "findByConnectorId (ct_tenantId task) c db = Inr (Some r)"
  shows "tryNotify send task db s = (unschedule (task_key task) s, db)"
  using assms by (auto simp: tryNotify_def calculateCostAndNotify_def task_key_def Let_def money_of_def)

lemma no_energy_ends_notifications_witness:
  "tryNotify (\<lambda>u. Inr ()) demo_task demo_tx_db new_notifier = (unschedule ''cp1:7'' new_notifier, demo_tx_db)"
proof -
  have "readTransactionByStationIdAndTransactionId (ct_tenantId demo_task) (ct_name demo_task)
      (ct_transactionId demo_task) demo_tx_db = Inr (Some demo_tx)"
    by (simp add: readTransactionByStationIdAndTransactionId_def read_only_one_def is_transaction_def demo_task_def
        demo_tx_db_def demo_tx_def)
  from no_energy_ends_notifications [OF this, of 5 demo_tariff "\<lambda>u. Inr ()" new_notifier] show ?thesis
    using demo_findBy by (simp add: demo_tx_def demo_task_def task_key_def notifier_key_def)
qed

end
