(* ===== verification/Transactions.thy ===== *)
theory Transactions
  imports Costs MemoryCache
begin

text \<open>
  The handlers of transactions: StartTransactionRequestOcpp16Handler.ts and
  StopTransactionRequestOcpp16Handler.ts (packages/core/src/handlers/requests/1.6) and
  TransactionEventRequestOcpp2Handler.ts (packages/core/src/handlers/requests/2). The state is the tables,
  the cache and the log of what was sent. A handler returns an exn when it throws; what it
  had done by then stays done. The environment record tx_env holds the authorizers, the clock, what
  the database says to a row that is saved, the device model attributes of the station, JSON.parse, the
  profiles of a transaction in the form the mapper gives them, and the settings. The id token of a
  request is authorized by the functions of the theory Authorization over the rows of the
  tables. Storing a transaction limit is taken to succeed (its failure is only logged), and
  columns of type DECIMAL are read as numbers.
\<close>

section \<open>State\<close>

record event_response =
  xr_idTokenInfo :: "id_token_info option"
  xr_transactionLimit :: jsval
  xr_totalCost :: "rat option"

record stop_response =
  so_expiryDate :: "int option"
  so_parentIdTag :: "string option"
  so_status :: string

datatype tx_effect =
    StartAnswer start_response int
  | StopAnswer "stop_response option"
  | EventAnswer event_response
  | EventError error_code string
  | ProfileSent "nat option" jsval
  | CostNotifications string string      \<comment> \<open>station, transaction\<close>

record tx_state =
  ts_db :: tx_db
  ts_cache :: mem_cache
  ts_log :: "tx_effect list"

record tx_env =
  tn_authorizers :: "authorizer list"
  tn_now :: int
  tn_save :: "tx_row \<Rightarrow> exn + unit"
  tn_isForeignKeyError :: "exn \<Rightarrow> bool"
  tn_parse :: "string \<Rightarrow> exn + jsval"
  tn_attributes :: "string \<Rightarrow> string \<Rightarrow> exn + string option list"
  tn_profiles :: "nat \<Rightarrow> exn + (nat option \<times> (exn + jsval)) list"
  tn_signed :: "meter_value list \<Rightarrow> exn + bool"
  tn_sendCostUpdatedOnMeterValue :: bool
  tn_costUpdatedInterval :: int

definition tx_emit :: "tx_effect \<Rightarrow> tx_state \<Rightarrow> tx_state" where
  "tx_emit e st = st\<lparr> ts_log := ts_log st @ [e] \<rparr>"

definition with_db :: "tx_db \<Rightarrow> tx_state \<Rightarrow> tx_state" where
  "with_db db st = st\<lparr> ts_db := db \<rparr>"

section \<open>Authorization over the tables\<close>

definition evse_dto :: "tx_db \<Rightarrow> evse_row \<Rightarrow> evse" where
  "evse_dto db e =
     \<lparr> ev_id = int (er_id e),
       ev_connectors = Some (map (\<lambda>c. int (kr_id c)) (filter (\<lambda>c. kr_evseId c = er_id e) (db_connectors db))) \<rparr>"

text \<open>A connector that is read with its EVSE, without the connectors of that.\<close>

definition connector_dto :: "tx_db \<Rightarrow> connector_row \<Rightarrow> connector" where
  "connector_dto db c =
     \<lparr> co_id = int (kr_id c),
       co_evse = map_option (\<lambda>e. \<lparr> ev_id = int (er_id e), ev_connectors = None \<rparr>) (evse_of db (Some (kr_evseId c))) \<rparr>"

definition tenant_authorizations :: "int \<Rightarrow> tx_db \<Rightarrow> authorization list" where
  "tenant_authorizations tenantId db = map snd (filter (\<lambda>(tn, a). tn = tenantId) (db_authorizations db))"

definition readConnectorByStationIdAndOcpp201EvseType ::
  "int \<Rightarrow> string \<Rightarrow> int \<times> int option \<Rightarrow> tx_db \<Rightarrow> connector_row option" where
  "readConnectorByStationIdAndOcpp201EvseType tenantId name ev db =
     find (\<lambda>c. kr_tenantId c = tenantId \<and> kr_name c = name \<and> snd ev = Some (int (kr_evseTypeConnectorId c))
            \<and> map_option er_evseTypeId (evse_of db (Some (kr_evseId c))) = Some (Some (fst ev))) (db_connectors db)"

definition readEvseByStationIdAndOcpp201EvseId :: "int \<Rightarrow> string \<Rightarrow> int \<Rightarrow> tx_db \<Rightarrow> evse_row option" where
  "readEvseByStationIdAndOcpp201EvseId tenantId name evseId db =
     find (\<lambda>e. er_name e = name \<and> er_evseTypeId e = Some evseId \<and> er_tenantId e = tenantId) (db_evses db)"

definition auth_env_of :: "tx_env \<Rightarrow> int \<Rightarrow> string \<Rightarrow> tx_db \<Rightarrow> auth_env" where
  "auth_env_of env tenantId name db =
     \<lparr> ae_authorizations = Inr (tenant_authorizations tenantId db),
       ae_activeTransactions = (\<lambda>i. Inr (length (readAllActiveTransactionsByAuthorizationId tenantId i db))),
       ae_connector = (\<lambda>ev. Inr (map_option (connector_dto db)
          (readConnectorByStationIdAndOcpp201EvseType tenantId name ev db))),
       ae_evse = (\<lambda>e. Inr (map_option (evse_dto db) (readEvseByStationIdAndOcpp201EvseId tenantId name e db))),
       ae_parent = (\<lambda>g. read_only_one (\<lambda>a. au_id a = g) (tenant_authorizations tenantId db)),
       ae_connector16 = (\<lambda>c. Inr (map_option (connector_dto db)
          (readConnectorByStationIdAndOcpp16ConnectorId tenantId name c db))),
       ae_authorizers = tn_authorizers env, ae_now = tn_now env, ae_nowIso = tn_now env \<rparr>"

section \<open>StartTransaction\<close>

text \<open>parseInt of a decimal number.\<close>

definition parse_int :: "string \<Rightarrow> int" where
  "parse_int s =
     (case s of
        c # cs \<Rightarrow> if c = CHR ''-'' then - int (digits_val (takeWhile (\<lambda>d. digit_of d \<noteq> None) cs))
                 else int (digits_val (takeWhile (\<lambda>d. digit_of d \<noteq> None) (c # cs)))
      | [] \<Rightarrow> 0)"

text \<open>The transaction is created for an accepted token; the answer and its transaction id.\<close>

definition start_result ::
  "tx_env \<Rightarrow> int \<Rightarrow> string \<Rightarrow> start_request \<Rightarrow> start_response \<Rightarrow> tx_db \<Rightarrow> (start_response \<times> int) \<times> tx_db" where
  "start_result env tenantId name request response db =
     (if sr_status response \<noteq> ''Accepted'' then ((response, 0), db)
      else case createTransactionByStartTransaction (tn_save env) tenantId request name db of
             (Inl e, db1) \<Rightarrow> ((start_status ''Invalid'', 0), db1)
           | (Inr t, db1) \<Rightarrow> ((response, parse_int (tx_transactionId t)), db1))"

definition deactivateOtherActiveTransactionsAtEvse16 ::
  "int \<Rightarrow> string \<Rightarrow> string \<Rightarrow> start_request \<Rightarrow> tx_db \<Rightarrow> exn + tx_db" where
  "deactivateOtherActiveTransactionsAtEvse16 tenantId transactionId name request db =
     (case readConnectorByStationIdAndOcpp16ConnectorId tenantId name (sq_connectorId request) db of
        None \<Rightarrow> Inl (JsErr ''Unable to find connector '' [JNum (of_int (sq_connectorId request))])
      | Some c \<Rightarrow>
          Inr (deactivateOtherActiveTransactionsAtEvse tenantId transactionId name (Inl (sq_connectorId request)) db))"

definition release_reservation16 ::
  "int \<Rightarrow> string \<Rightarrow> start_request \<Rightarrow> start_response \<Rightarrow> int \<Rightarrow> tx_db \<Rightarrow> tx_db" where
  "release_reservation16 tenantId name request response transactionId db =
     (case sq_reservationId request of
        Some r \<Rightarrow>
          if r \<noteq> 0 \<and> sr_status response = ''Accepted''
          then deactivateReservation tenantId (int_str transactionId) r name db else db
      | None \<Rightarrow> db)"

definition handleStartTransaction16 ::
  "tx_env \<Rightarrow> int \<Rightarrow> string \<Rightarrow> start_request \<Rightarrow> tx_state \<Rightarrow> (exn + unit) \<times> tx_state" where
  "handleStartTransaction16 env tenantId name request st =
     (let authorized = authorizeOcpp16IdToken (auth_env_of env tenantId name (ts_db st)) name (sq_idTag request)
                         (sq_connectorId request);
          ((response, transactionId), db1) = start_result env tenantId name request authorized (ts_db st);
          st1 = tx_emit (StartAnswer response transactionId) (with_db db1 st)
      in case deactivateOtherActiveTransactionsAtEvse16 tenantId (int_str transactionId) name request db1 of
           Inl e \<Rightarrow> (Inl e, st1)
         | Inr db2 \<Rightarrow> (Inr (), with_db (release_reservation16 tenantId name request response transactionId db2) st1))"

section \<open>StopTransaction\<close>

record stop_request =
  sp_transactionId :: int
  sp_idTag :: "string option"
  sp_meterStop :: rat
  sp_timestamp :: string
  sp_reason :: "string option"
  sp_transactionData :: "meter_value list"

definition stop_token :: "stop_request \<Rightarrow> string option" where
  "stop_token request = (case sp_idTag request of Some (c # cs) \<Rightarrow> Some (c # cs) | _ \<Rightarrow> None)"

definition stop_status :: "authorization option \<Rightarrow> string" where
  "stop_status a =
     (case a of
        Some au \<Rightarrow> if au_status au \<in> {''Accepted'', ''Blocked'', ''Expired'', ''ConcurrentTx'', ''Invalid''}
                   then au_status au else ''Invalid''
      | None \<Rightarrow> ''Invalid'')"

definition stop_answer :: "int \<Rightarrow> stop_request \<Rightarrow> tx_db \<Rightarrow> exn + authorization option \<times> stop_response option" where
  "stop_answer tenantId request db =
     bind_res (case stop_token request of
                 None \<Rightarrow> Inr None
               | Some tok \<Rightarrow> read_only_one (\<lambda>a. au_idToken a = tok) (tenant_authorizations tenantId db)) (\<lambda>a.
     bind_res (case Option.bind a au_groupAuthorizationId of
                 None \<Rightarrow> Inr None
               | Some g \<Rightarrow> if g = 0 then Inr None
                           else read_only_one (\<lambda>p. au_id p = g) (tenant_authorizations tenantId db)) (\<lambda>parent.
       Inr (a, case stop_token request of
                 None \<Rightarrow> None
               | Some tok \<Rightarrow> Some \<lparr> so_expiryDate = Option.bind a au_cacheExpiry,
                                  so_parentIdTag = map_option au_idToken parent, so_status = stop_status a \<rparr>)))"

definition stop_reason :: "stop_request \<Rightarrow> string" where
  "stop_reason request =
     (case sp_reason request of
        Some (c # cs) \<Rightarrow> c # cs
      | _ \<Rightarrow> if stop_token request \<noteq> None then ''Remote'' else ''Local'')"

text \<open>The row the handler read is written back with what it sets.\<close>

definition stopped_transaction :: "stop_request \<Rightarrow> rat option \<Rightarrow> tx_row \<Rightarrow> tx_row" where
  "stopped_transaction request meterStart t =
     t\<lparr> tx_totalKwh := (case meterStart of Some s \<Rightarrow> Some ((sp_meterStop request - s) / 1000) | None \<Rightarrow> tx_totalKwh t),
        tx_isActive := False,
        tx_stoppedReason := (case sp_reason request of Some r \<Rightarrow> JStr r | None \<Rightarrow> JUndef),
        tx_endTime := Some (sp_timestamp request) \<rparr>"

definition handleStopTransaction16 ::
  "tx_env \<Rightarrow> int \<Rightarrow> string \<Rightarrow> stop_request \<Rightarrow> tx_state \<Rightarrow> (exn + unit) \<times> tx_state" where
  "handleStopTransaction16 env tenantId name request st =
     (case stop_answer tenantId request (ts_db st) of
        Inl e \<Rightarrow> (Inl e, st)
      | Inr (a, response) \<Rightarrow>
          let st1 = tx_emit (StopAnswer response) st; db = ts_db st
          in case find (is_transaction tenantId name (int_str (sp_transactionId request))) (db_transactions db) of
               None \<Rightarrow> (Inr (), st1)
             | Some t \<Rightarrow>
                 (case createStopTransaction tenantId (tx_id t) (sp_meterStop request) (sp_timestamp request)
                         (sp_transactionData request) (stop_reason request) db of
                    Inl e \<Rightarrow> (Inl e, st1)
                  | Inr db1 \<Rightarrow>
                      (Inr (), with_db (put_transaction
                         (stopped_transaction request (map_of (db_starts db) (tx_id t)) t) db1) st1)))"

section \<open>TransactionEvent: limits\<close>

definition limit_keys :: "string list" where
  "limit_keys = [''maxCost'', ''maxEnergy'', ''maxTime'', ''maxSoC'']"

definition is_nullish :: "jsval \<Rightarrow> bool" where
  "is_nullish v = (v = JUndef \<or> v = JNull)"

definition pick_limit :: "(jsval \<Rightarrow> bool) \<Rightarrow> string list \<Rightarrow> jsval \<Rightarrow> jsval" where
  "pick_limit keep keys v = JObj (map (\<lambda>k. (k, js_prop k v)) (filter (\<lambda>k. keep (js_prop k v)) keys))"

text \<open>The limit stored in the transaction is added when it differs from what the station reports.\<close>

definition limits_match :: "jsval \<Rightarrow> jsval \<Rightarrow> bool" where
  "limits_match stationLimit dbLimit =
     (truthy stationLimit \<and> list_all (\<lambda>k. js_prop k stationLimit = js_prop k dbLimit) limit_keys)"

definition syncTransactionLimitToResponse :: "jsval \<Rightarrow> jsval \<Rightarrow> event_response \<Rightarrow> event_response" where
  "syncTransactionLimitToResponse stationLimit dbLimit r =
     (if \<not> truthy dbLimit \<or> limits_match stationLimit dbLimit then r
      else r\<lparr> xr_transactionLimit := pick_limit (\<lambda>v. v \<noteq> JUndef) limit_keys dbLimit \<rparr>)"

definition persistTransactionLimitToDb :: "int \<Rightarrow> string \<Rightarrow> string \<Rightarrow> event_response \<Rightarrow> tx_db \<Rightarrow> tx_db" where
  "persistTransactionLimitToDb tenantId transactionId name r db =
     (if \<not> truthy (xr_transactionLimit r) then db
      else updateTransactionByStationIdAndTransactionId tenantId
             (\<lambda>t. t\<lparr> tx_transactionLimit := xr_transactionLimit r \<rparr>) transactionId name db)"

text \<open>A limit left in the cache under a key is consumed; errors leave everything as it is.\<close>

definition consume_cached_limit ::
  "tx_env \<Rightarrow> string \<Rightarrow> string list \<Rightarrow> event_response \<Rightarrow> mem_cache \<Rightarrow> event_response \<times> mem_cache" where
  "consume_cached_limit env cacheKey keys r c =
     (case get_key cacheKey (Some ''other'') c of
        None \<Rightarrow> (r, c)
      | Some text \<Rightarrow>
          (case tn_parse env text of
             Inl e \<Rightarrow> (r, c)
           | Inr v \<Rightarrow>
               if list_all (\<lambda>k. is_nullish (js_prop k v)) keys then (r, c)
               else (r\<lparr> xr_transactionLimit := pick_limit (\<lambda>v. \<not> is_nullish v) keys v \<rparr>,
                     snd (remove_key cacheKey (Some ''other'') c))))"

definition remote_start_key :: "int \<Rightarrow> string \<Rightarrow> int \<Rightarrow> string" where
  "remote_start_key tenantId name i = ''remotestart:'' @ int_str tenantId @ '':'' @ name @ '':'' @ int_str i"

definition web_payment_key :: "int \<Rightarrow> string \<Rightarrow> int \<Rightarrow> string" where
  "web_payment_key tenantId name evse = ''webpayment:'' @ int_str tenantId @ '':'' @ name @ '':'' @ int_str evse"

definition remote_start_limit ::
  "tx_env \<Rightarrow> int \<Rightarrow> string \<Rightarrow> bool \<Rightarrow> tx_event \<Rightarrow> event_response \<Rightarrow> mem_cache \<Rightarrow> event_response \<times> mem_cache" where
  "remote_start_limit env tenantId name v21 v r c =
     (case ti_remoteStartId (tv_info v) of
        Some i \<Rightarrow>
          if tv_eventType v = ''Started'' \<and> i \<noteq> 0 \<and> v21
          then consume_cached_limit env (remote_start_key tenantId name i) limit_keys r c
          else (r, c)
      | None \<Rightarrow> (r, c))"

text \<open>parseFloat: the longest prefix that is a decimal literal.\<close>

definition signed_num :: "string \<Rightarrow> js_num" where
  "signed_num s =
     (case s of
        c # cs \<Rightarrow> if c = CHR ''-'' then neg_num (unsigned_num cs)
                  else if c = CHR ''+'' then unsigned_num cs else unsigned_num s
      | [] \<Rightarrow> NaN)"

definition parse_float :: "string \<Rightarrow> js_num" where
  "parse_float s =
     (let t = dropWhile is_space s
      in case find (\<lambda>p. signed_num p \<noteq> NaN) (map (\<lambda>n. take n t) (rev [0..<Suc (length t)])) of
           Some p \<Rightarrow> signed_num p
         | None \<Rightarrow> NaN)"

text \<open>Infinity is written to JSON as null.\<close>

definition positive_amount :: "string option list \<Rightarrow> jsval option" where
  "positive_amount attributes =
     (case attributes of
        Some (c # cs) # _ \<Rightarrow> 
          (case parse_float (c # cs) of
             Fin q \<Rightarrow> if 0 < q then Some (JNum q) else None
           | Inf pos \<Rightarrow> if pos then Some JNull else None
           | NaN \<Rightarrow> None)
      | _ \<Rightarrow> None)"

text \<open>The limit of a direct payment: from the web payment session, or from the device model.\<close>

definition authorization_amount :: "tx_env \<Rightarrow> event_response \<Rightarrow> event_response" where
  "authorization_amount env r =
     (if truthy (xr_transactionLimit r) then r
      else case tn_attributes env ''PaymentCtrlr'' ''AuthorizationAmount'' of
             Inl e \<Rightarrow> r
           | Inr attributes \<Rightarrow>
               (case positive_amount attributes of
                  None \<Rightarrow> r
                | Some q \<Rightarrow> r\<lparr> xr_transactionLimit := JObj [(''maxCost'', q)] \<rparr>))"

definition direct_payment_limit ::
  "tx_env \<Rightarrow> int \<Rightarrow> string \<Rightarrow> bool \<Rightarrow> tx_event \<Rightarrow> event_response \<Rightarrow> mem_cache \<Rightarrow> event_response \<times> mem_cache" where
  "direct_payment_limit env tenantId name v21 v r c =
     (if tv_eventType v = ''Started'' \<and> map_option ii_status (xr_idTokenInfo r) = Some ''Accepted'' \<and> v21
         \<and> map_option snd (tv_idToken v) = Some ''DirectPayment''
      then let (r1, c1) = (case tv_evse v of
                 Some (evse, con) \<Rightarrow>
                   if truthy (xr_transactionLimit r) then (r, c)
                   else consume_cached_limit env (web_payment_key tenantId name evse)
                          [''maxCost'', ''maxTime'', ''maxEnergy''] r c
               | None \<Rightarrow> (r, c))
           in (authorization_amount env r1, c1)
      else (r, c))"

definition sync_limit :: "bool \<Rightarrow> tx_event \<Rightarrow> tx_row \<Rightarrow> event_response \<Rightarrow> event_response" where
  "sync_limit v21 v t r =
     (if v21 then syncTransactionLimitToResponse (ti_transactionLimit (tv_info v)) (tx_transactionLimit t) r else r)"

definition persist_limit :: "bool \<Rightarrow> int \<Rightarrow> string \<Rightarrow> string \<Rightarrow> event_response \<Rightarrow> tx_db \<Rightarrow> tx_db" where
  "persist_limit v21 tenantId transactionId name r db =
     (if v21 then persistTransactionLimitToDb tenantId transactionId name r db else db)"

section \<open>TransactionEvent: the answer to an event with an id token\<close>

definition answer_authorized ::
  "tx_env \<Rightarrow> int \<Rightarrow> string \<Rightarrow> bool \<Rightarrow> tx_event \<Rightarrow> tx_row \<Rightarrow> event_response \<Rightarrow> tx_state \<Rightarrow> tx_state" where
  "answer_authorized env tenantId name v21 v t response st =
     (let (r1, c1) = remote_start_limit env tenantId name v21 v response (ts_cache st);
          r2 = sync_limit v21 v t r1;
          (r3, c2) = direct_payment_limit env tenantId name v21 v r2 c1;
          db1 = persist_limit v21 tenantId (ti_transactionId (tv_info v)) name r3 (ts_db st);
          st1 = tx_emit (EventAnswer r3) (st\<lparr> ts_db := db1, ts_cache := c2 \<rparr>)
      in if tv_eventType v = ''Started'' \<and> map_option ii_status (xr_idTokenInfo r3) = Some ''Accepted''
            \<and> tn_costUpdatedInterval env \<noteq> 0
         then tx_emit (CostNotifications name (ti_transactionId (tv_info v))) st1 else st1)"

section \<open>TransactionEvent: the answer to an event without an id token\<close>

definition running_total :: "tx_env \<Rightarrow> int \<Rightarrow> tx_event \<Rightarrow> tx_row \<Rightarrow> tx_db \<Rightarrow> event_response \<Rightarrow> exn + event_response" where
  "running_total env tenantId v t db r =
     (case tx_totalKwh t of
        Some q \<Rightarrow>
          if tv_eventType v = ''Updated'' \<and> tx_isActive t \<and> q \<noteq> 0 \<and> tn_sendCostUpdatedOnMeterValue env
          then bind_res (calculateTotalCost tenantId (tx_connectorId t) q db) (\<lambda>c. Inr (r\<lparr> xr_totalCost := Some c \<rparr>))
          else Inr r
      | None \<Rightarrow> Inr r)"

text \<open>The station reports a higher authorization amount.\<close>

definition raise_limit :: "int \<Rightarrow> string \<Rightarrow> bool \<Rightarrow> tx_event \<Rightarrow> tx_row \<Rightarrow> tx_db \<Rightarrow> tx_db" where
  "raise_limit tenantId name v21 v t db =
     (let newMaxCost = js_prop ''maxCost'' (ti_transactionLimit (tv_info v))
      in if v21 \<and> tx_isActive t \<and> tv_triggerReason v = ''LimitSet'' \<and> \<not> is_nullish newMaxCost
         then updateTransactionByStationIdAndTransactionId tenantId
                (\<lambda>r. r\<lparr> tx_transactionLimit :=
                   js_set_prop ''maxCost'' newMaxCost
                     (if is_nullish (tx_transactionLimit t) then JObj [] else tx_transactionLimit t) \<rparr>)
                (ti_transactionId (tv_info v)) name db
         else db)"

text \<open>The TxProfiles of a transaction that resumed; a profile that cannot be mapped is skipped.\<close>

definition resend_profiles :: "tx_env \<Rightarrow> bool \<Rightarrow> tx_event \<Rightarrow> tx_row \<Rightarrow> tx_effect list" where
  "resend_profiles env v21 v t =
     (if v21 \<and> tx_isActive t \<and> tv_triggerReason v = ''TxResumed''
      then (case tn_profiles env (tx_id t) of
              Inl e \<Rightarrow> []
            | Inr ps \<Rightarrow>
                List.map_filter (\<lambda>(evse, p). case p of
                    Inl e \<Rightarrow> None
                  | Inr profile \<Rightarrow> Some (ProfileSent (case evse of Some e \<Rightarrow> Some e | None \<Rightarrow> tx_evseId t) profile)) ps)
      else [])"

definition update_event ::
  "tx_env \<Rightarrow> int \<Rightarrow> string \<Rightarrow> bool \<Rightarrow> tx_event \<Rightarrow> tx_row \<Rightarrow> event_response \<Rightarrow> tx_state
   \<Rightarrow> (exn + event_response) \<times> tx_state" where
  "update_event env tenantId name v21 v t r st =
     (if tv_eventType v \<noteq> ''Updated'' then (Inr r, st)
      else case running_total env tenantId v t (ts_db st) r of
             Inl e \<Rightarrow> (Inl e, st)
           | Inr r1 \<Rightarrow>
               let st1 = with_db (raise_limit tenantId name v21 v t (ts_db st)) st
               in (case tn_attributes env ''TariffCostCtrlr'' ''Available'' of
                     Inl e \<Rightarrow> (Inl e, st1)
                   | Inr a \<Rightarrow> (Inr r1, st1\<lparr> ts_log := ts_log st1 @ resend_profiles env v21 v t \<rparr>)))"

definition final_total :: "int \<Rightarrow> tx_event \<Rightarrow> tx_row \<Rightarrow> tx_db \<Rightarrow> event_response \<Rightarrow> exn + event_response" where
  "final_total tenantId v t db r =
     (case tx_totalKwh t of
        Some q \<Rightarrow>
          if tv_eventType v = ''Ended'' \<and> q \<noteq> 0
          then bind_res (calculateTotalCost tenantId (tx_connectorId t) q db) (\<lambda>c. Inr (r\<lparr> xr_totalCost := Some c \<rparr>))
          else Inr r
      | None \<Rightarrow> Inr r)"

text \<open>A transaction cancelled before it cost anything.\<close>

definition cancelled_total :: "tx_env \<Rightarrow> bool \<Rightarrow> tx_event \<Rightarrow> tx_row \<Rightarrow> event_response \<Rightarrow> exn + event_response" where
  "cancelled_total env v21 v t r =
     (if v21 \<and> tv_eventType v = ''Ended'' \<and> tv_triggerReason v \<in> {''StopAuthorized'', ''EVConnectTimeout''}
         \<and> (case tx_totalKwh t of None \<Rightarrow> True | Some q \<Rightarrow> q \<le> 0)
      then bind_res (tn_attributes env ''TariffCostCtrlr'' ''Enabled'') (\<lambda>attributes.
             Inr (case attributes of
                    Some (c # cs) # _ \<Rightarrow> r
                  | _ \<Rightarrow> r\<lparr> xr_totalCost := Some 0 \<rparr>))
      else Inr r)"

definition store_total :: "int \<Rightarrow> tx_row \<Rightarrow> event_response \<Rightarrow> tx_db \<Rightarrow> tx_db" where
  "store_total tenantId t r db =
     (case xr_totalCost r of
        Some c \<Rightarrow> if c \<noteq> 0 then updateTransactionTotalCostById tenantId c (tx_id t) db else db
      | None \<Rightarrow> db)"

definition finish_anonymous ::
  "tx_env \<Rightarrow> int \<Rightarrow> string \<Rightarrow> bool \<Rightarrow> tx_event \<Rightarrow> tx_row \<Rightarrow> event_response \<Rightarrow> tx_state \<Rightarrow> (exn + unit) \<times> tx_state" where
  "finish_anonymous env tenantId name v21 v t r st =
     (case bind_res (final_total tenantId v t (ts_db st) r) (cancelled_total env v21 v t) of
        Inl e \<Rightarrow> (Inl e, st)
      | Inr r1 \<Rightarrow>
          let st1 = with_db (store_total tenantId t r1 (ts_db st)) st
          in (case (case tv_meterValue v of None \<Rightarrow> Inr True | Some mvs \<Rightarrow> tn_signed env mvs) of
                Inl e \<Rightarrow> (Inl e, st1)
              | Inr signed \<Rightarrow>
                  (Inr (), tx_emit (EventAnswer r1)
                     (with_db (persist_limit v21 tenantId (ti_transactionId (tv_info v)) name r1 (ts_db st1)) st1))))"

definition empty_response :: event_response where
  "empty_response = \<lparr> xr_idTokenInfo = None, xr_transactionLimit = JUndef, xr_totalCost = None \<rparr>"

definition answer_anonymous ::
  "tx_env \<Rightarrow> int \<Rightarrow> string \<Rightarrow> bool \<Rightarrow> tx_event \<Rightarrow> tx_row \<Rightarrow> tx_state \<Rightarrow> (exn + unit) \<times> tx_state" where
  "answer_anonymous env tenantId name v21 v t st =
     (case update_event env tenantId name v21 v t (sync_limit v21 v t empty_response) st of
        (Inl e, st1) \<Rightarrow> (Inl e, st1)
      | (Inr r, st1) \<Rightarrow> finish_anonymous env tenantId name v21 v t r st1)"

section \<open>TransactionEvent: the handler\<close>

definition auth_event :: "tx_event \<Rightarrow> string \<times> string \<Rightarrow> transaction_event" where
  "auth_event v tok =
     \<lparr> te_idToken = fst tok, te_idTokenType = snd tok, te_eventType = tv_eventType v, te_evse = tv_evse v \<rparr>"

definition response_of :: "transaction_response \<Rightarrow> event_response" where
  "response_of r =
     \<lparr> xr_idTokenInfo = Some (tr_idTokenInfo r),
       xr_transactionLimit = (case tr_maxCost r of None \<Rightarrow> JUndef | Some q \<Rightarrow> JObj [(''maxCost'', JNum q)]),
       xr_totalCost = None \<rparr>"

definition authorize_event ::
  "tx_env \<Rightarrow> int \<Rightarrow> string \<Rightarrow> bool \<Rightarrow> tx_event \<Rightarrow> tx_db \<Rightarrow> exn + event_response option" where
  "authorize_event env tenantId name v21 v db =
     (case event_token v of
        None \<Rightarrow> Inr None
      | Some tok \<Rightarrow>
          bind_res ((if v21 then authorizeOcpp21IdToken else authorizeOcpp201IdToken)
                      (auth_env_of env tenantId name db) (auth_event v tok) name)
            (\<lambda>r. Inr (Some (response_of r))))"

definition already_ended :: "int \<Rightarrow> string \<Rightarrow> tx_event \<Rightarrow> tx_db \<Rightarrow> exn + bool" where
  "already_ended tenantId name v db =
     (if tv_eventType v = ''Started'' then Inr False
      else bind_res (readTransactionByStationIdAndTransactionId tenantId name (ti_transactionId (tv_info v)) db)
             (\<lambda>existing. Inr (case existing of None \<Rightarrow> False | Some t \<Rightarrow> \<not> tx_isActive t)))"

definition release_reservation :: "int \<Rightarrow> string \<Rightarrow> tx_event \<Rightarrow> tx_db \<Rightarrow> tx_db" where
  "release_reservation tenantId name v db =
     (case tv_reservationId v of
        Some r \<Rightarrow> if r \<noteq> 0 then deactivateReservation tenantId (ti_transactionId (tv_info v)) r name db else db
      | None \<Rightarrow> db)"

definition deactivateOtherActiveTransactionsAtEvse201 :: "int \<Rightarrow> string \<Rightarrow> tx_event \<Rightarrow> tx_db \<Rightarrow> tx_db" where
  "deactivateOtherActiveTransactionsAtEvse201 tenantId name v db =
     (case tv_evse v of
        Some (evse, c) \<Rightarrow>
          if tv_eventType v = ''Started'' \<or> tv_eventType v = ''Updated''
          then deactivateOtherActiveTransactionsAtEvse tenantId (ti_transactionId (tv_info v)) name (Inr evse) db
          else db
      | None \<Rightarrow> db)"

definition handle_stored_event ::
  "tx_env \<Rightarrow> int \<Rightarrow> string \<Rightarrow> bool \<Rightarrow> tx_event \<Rightarrow> event_response option \<Rightarrow> tx_row \<Rightarrow> tx_db \<Rightarrow> tx_state
   \<Rightarrow> (exn + unit) \<times> tx_state" where
  "handle_stored_event env tenantId name v21 v response t db st =
     (let st1 = with_db (deactivateOtherActiveTransactionsAtEvse201 tenantId name v
                  (release_reservation tenantId name v db)) st
      in case response of
           Some r \<Rightarrow> (Inr (), answer_authorized env tenantId name v21 v t r st1)
         | None \<Rightarrow> answer_anonymous env tenantId name v21 v t st1)"

definition handleTransactionEvent ::
  "tx_env \<Rightarrow> int \<Rightarrow> string \<Rightarrow> bool \<Rightarrow> tx_event \<Rightarrow> tx_state \<Rightarrow> (exn + unit) \<times> tx_state" where
  "handleTransactionEvent env tenantId name v21 v st =
     (case authorize_event env tenantId name v21 v (ts_db st) of
        Inl e \<Rightarrow> (Inl e, st)
      | Inr response \<Rightarrow>
          (case already_ended tenantId name v (ts_db st) of
             Inl e \<Rightarrow> (Inl e, st)
           | Inr True \<Rightarrow>
               (Inr (), tx_emit (EventAnswer (case response of Some r \<Rightarrow> r | None \<Rightarrow> empty_response)) st)
           | Inr False \<Rightarrow>
               (case createOrUpdateTransactionByTransactionEventAndStationId (tn_save env) tenantId v name (ts_db st) of
                  Inl e \<Rightarrow>
                    if tn_isForeignKeyError env e
                    then (Inr (), tx_emit (EventError PropertyConstraintViolation ''Referenced entity does not exist.'') st)
                    else (Inl e, st)
                | Inr (t, db) \<Rightarrow> handle_stored_event env tenantId name v21 v response t db st)))"

end
