(* ===== verification/TransactionFacts.thy ===== *)
theory TransactionFacts
  imports Transactions
begin

text \<open>
  What the handlers of transactions guarantee and where they do not: lemmas on how each step
  changes the rows of the transactions, and the properties of the handlers.
\<close>

section \<open>Rows under the repository operations\<close>

lemma evse_transactions:
  "readOrCreateOcpp2Evse tenantId name evse db = Inr (x, db') \<Longrightarrow> db_transactions db' = db_transactions db"
  by (auto simp: readOrCreateOcpp2Evse_def find_or_create_evse_type_def upsert_evse_def Let_def split: option.splits prod.splits)

lemma connector_transactions:
  "readOrCreateOcpp2Connector tenantId name e c k db = Inr (x, db') \<Longrightarrow>
     db_transactions db' = db_transactions db \<and> db_evses db' = db_evses db"
  by (auto simp: readOrCreateOcpp2Connector_def Let_def split: option.splits if_splits)

lemma existing_evse_transactions:
  "existing_evse tenantId name t v db = Inr (x, db') \<Longrightarrow> db_transactions db' = db_transactions db"
  by (auto simp: existing_evse_def bind_res_eq_Inr dest: evse_transactions split: option.splits prod.splits if_splits)

lemma existing_connector_transactions:
  "existing_connector tenantId name t v db = Inr (x, db') \<Longrightarrow> db_transactions db' = db_transactions db"
  by (auto simp: existing_connector_def event_connector_def bind_res_eq_Inr dest!: evse_transactions connector_transactions
      split: option.splits prod.splits if_splits)

text \<open>The columns an update keeps, and the ones it takes from the event.\<close>

definition updated_from :: "tx_event \<Rightarrow> tx_row \<Rightarrow> tx_row \<Rightarrow> bool" where
  "updated_from v t t' \<longleftrightarrow>
     tx_id t' = tx_id t \<and> tx_tenantId t' = tx_tenantId t \<and> tx_name t' = tx_name t \<and>
     tx_transactionId t' = tx_transactionId t \<and> tx_totalCost t' = tx_totalCost t \<and>
     tx_isActive t' = (tv_eventType v \<noteq> ''Ended'') \<and>
     tx_transactionLimit t' = js_or_keep (ti_transactionLimit (tv_info v)) (tx_transactionLimit t)"

lemma updated_transaction_from: "updated_from v t (updated_transaction v a e c k t)"
  by (simp add: updated_from_def updated_transaction_def Let_def)

lemma updated_transaction_id [simp]: "tx_id (updated_transaction v a e c k t) = tx_id t"
  by (simp add: updated_transaction_def Let_def)

lemma update_transaction_row:
  assumes "update_transaction save tenantId name v t db = Inr (t', db')"
  shows "updated_from v t t' \<and>
    db_transactions db' = update_rows (\<lambda>r. tx_id r = tx_id t) (\<lambda>_. t') (db_transactions db)"
  using assms
  by (auto simp: update_transaction_def bind_res_eq_Inr Let_def updated_transaction_from put_transaction_def
      dest!: existing_evse_transactions existing_connector_transactions split: prod.splits)

lemma place_transaction_row:
  assumes "place_transaction tenantId name v t db = Inr (t', db')"
  shows "tx_id t' = tx_id t \<and> tx_tenantId t' = tx_tenantId t \<and> tx_name t' = tx_name t \<and>
    tx_transactionId t' = tx_transactionId t \<and> tx_totalCost t' = tx_totalCost t \<and> tx_isActive t' = tx_isActive t \<and>
    tx_transactionLimit t' = tx_transactionLimit t \<and> db_transactions db' = db_transactions db"
proof (cases "tv_evse v")
  case None
  then show ?thesis using assms by (simp add: place_transaction_def)
next
  case (Some ec)
  obtain evse c where ec: "ec = (evse, c)" by (cases ec)
  show ?thesis
  proof (cases "c = None \<or> c = Some 0")
    case True
    then show ?thesis using assms Some ec
      by (auto simp: place_transaction_def bind_res_eq_Inr Let_def dest!: evse_transactions)
  next
    case False
    then obtain n where "c = Some n" "n \<noteq> 0" by auto
    then show ?thesis using assms Some ec
      by (auto simp: place_transaction_def bind_res_eq_Inr Let_def dest!: evse_transactions connector_transactions)
  qed
qed

lemma create_transaction_row:
  assumes "create_transaction save tenantId name v db = Inr (t', db')"
  shows "tx_id t' = serial tx_id (db_transactions db) \<and> tx_tenantId t' = tenantId \<and> tx_name t' = name \<and>
    tx_transactionId t' = ti_transactionId (tv_info v) \<and> tx_totalCost t' = None \<and>
    tx_isActive t' = (tv_eventType v \<noteq> ''Ended'') \<and>
    tx_transactionLimit t' = ti_transactionLimit (tv_info v) \<and> db_transactions db' = db_transactions db @ [t']"
  using assms
  by (auto simp: create_transaction_def bind_res_eq_Inr Let_def blank_transaction_def dest!: place_transaction_row)

lemma apply_meter_values_row:
  assumes "apply_meter_values mvs t = Inr t'"
  shows "tx_id t' = tx_id t \<and> tx_tenantId t' = tx_tenantId t \<and> tx_name t' = tx_name t \<and>
    tx_transactionId t' = tx_transactionId t \<and> tx_totalCost t' = tx_totalCost t \<and> tx_isActive t' = tx_isActive t \<and>
    tx_transactionLimit t' = tx_transactionLimit t \<and> tx_evseId t' = tx_evseId t"
  using assms by (auto simp: apply_meter_values_def bind_res_eq_Inr Let_def split: option.splits)

lemma record_event_row:
  assumes "record_event tenantId v t db = Inr (t', db')"
  shows "tx_id t' = tx_id t \<and> tx_tenantId t' = tx_tenantId t \<and> tx_name t' = tx_name t \<and>
    tx_transactionId t' = tx_transactionId t \<and> tx_totalCost t' = tx_totalCost t \<and> tx_isActive t' = tx_isActive t \<and>
    tx_transactionLimit t' = tx_transactionLimit t \<and> tx_evseId t' = tx_evseId t \<and> db_evses db' = db_evses db \<and>
    (db_transactions db' = db_transactions db \<and> t' = t \<or>
     db_transactions db' = update_rows (\<lambda>r. tx_id r = tx_id t) (\<lambda>_. t') (db_transactions db))"
  using assms
  by (auto simp: record_event_def bind_res_eq_Inr Let_def put_transaction_def store_meter_values_def
      dest!: apply_meter_values_row split: option.splits list.splits)

lemma update_rows_twice:
  "P y \<Longrightarrow> update_rows P (\<lambda>_. z) (update_rows P (\<lambda>_. y) xs) = update_rows P (\<lambda>_. z) xs"
  by (induction xs) auto

lemma update_rows_none: "(\<And>x. x \<in> set xs \<Longrightarrow> \<not> P x) \<Longrightarrow> update_rows P f xs = xs"
  by (induction xs) auto

lemma update_rows_append [simp]: "update_rows P f (xs @ ys) = update_rows P f xs @ update_rows P f ys"
  by (simp add: update_rows_def)

definition created_from :: "int \<Rightarrow> string \<Rightarrow> tx_event \<Rightarrow> tx_db \<Rightarrow> tx_row \<Rightarrow> bool" where
  "created_from tenantId name v db t \<longleftrightarrow>
     tx_id t = serial tx_id (db_transactions db) \<and> tx_tenantId t = tenantId \<and> tx_name t = name \<and>
     tx_transactionId t = ti_transactionId (tv_info v) \<and> tx_totalCost t = None \<and>
     tx_isActive t = (tv_eventType v \<noteq> ''Ended'') \<and> tx_transactionLimit t = ti_transactionLimit (tv_info v)"

text \<open>What storing an event does to the rows of the transactions.\<close>

lemma stored_event_row:
  assumes "createOrUpdateTransactionByTransactionEventAndStationId save tenantId v name db = Inr (t, db')"
  shows "(\<exists>t0. readTransactionByStationIdAndTransactionId tenantId name (ti_transactionId (tv_info v)) db = Inr (Some t0) \<and>
      updated_from v t0 t \<and> db_transactions db' = update_rows (\<lambda>r. tx_id r = tx_id t0) (\<lambda>_. t) (db_transactions db)) \<or>
    (readTransactionByStationIdAndTransactionId tenantId name (ti_transactionId (tv_info v)) db = Inr None \<and>
      created_from tenantId name v db t \<and> db_transactions db' = db_transactions db @ [t])"
proof -
  let ?read = "readTransactionByStationIdAndTransactionId tenantId name (ti_transactionId (tv_info v)) db"
  from assms obtain ex where ex: "?read = Inr ex"
    by (auto simp: createOrUpdateTransactionByTransactionEventAndStationId_def bind_res_eq_Inr)
  show ?thesis
  proof (cases ex)
    case (Some t0)
    with assms ex obtain t1 db1 where
      u: "update_transaction save tenantId name v t0 db = Inr (t1, db1)" and r: "record_event tenantId v t1 db1 = Inr (t, db')"
      by (auto simp: createOrUpdateTransactionByTransactionEventAndStationId_def bind_res_eq_Inr split: prod.splits)
    have "updated_from v t0 t" "tx_id t1 = tx_id t0"
      using update_transaction_row [OF u] record_event_row [OF r] by (auto simp: updated_from_def)
    moreover have "db_transactions db' = update_rows (\<lambda>r. tx_id r = tx_id t0) (\<lambda>_. t) (db_transactions db)"
      using update_transaction_row [OF u] record_event_row [OF r] \<open>tx_id t1 = tx_id t0\<close> by (auto simp: update_rows_twice)
    ultimately show ?thesis using ex Some by blast
  next
    case None
    with assms ex obtain t1 db1 where
      u: "create_transaction save tenantId name v db = Inr (t1, db1)" and r: "record_event tenantId v t1 db1 = Inr (t, db')"
      by (auto simp: createOrUpdateTransactionByTransactionEventAndStationId_def bind_res_eq_Inr split: prod.splits)
    have c: "created_from tenantId name v db t" "tx_id t1 = serial tx_id (db_transactions db)"
      using create_transaction_row [OF u] record_event_row [OF r] by (auto simp: created_from_def)
    have old: "tx_id x \<noteq> serial tx_id (db_transactions db)" if "x \<in> set (db_transactions db)" for x
      using serial_fresh [OF that, of tx_id] by simp
    have "db_transactions db' = db_transactions db @ [t]"
      using create_transaction_row [OF u] record_event_row [OF r] c(2) old by (auto simp: update_rows_none)
    then show ?thesis using ex None c(1) by blast
  qed
qed

section \<open>Numbers of transactions\<close>

lemma takeWhile_whole: "(\<And>x. x \<in> set xs \<Longrightarrow> P x) \<Longrightarrow> takeWhile P xs = xs"
  by (simp add: takeWhile_eq_all_conv)

lemma takeWhile_digits [simp]: "takeWhile (\<lambda>d. \<exists>y. digit_of d = Some y) (nat_str n) = nat_str n"
  using nat_str_digits [of _ n] by (intro takeWhile_whole) simp

lemma parse_int_str [simp]: "parse_int (int_str i) = i"
proof (cases "i < 0")
  case True
  then show ?thesis
    by (simp add: parse_int_def int_str_def)
next
  case False
  obtain c cs where cs: "nat_str (nat i) = c # cs" using nat_str_not_Nil by (cases "nat_str (nat i)") auto
  have "digit_of c \<noteq> None" using nat_str_digits [of c "nat i"] cs by simp
  then have c: "c \<noteq> CHR ''-''" by (auto simp: digit_of_def)
  have t: "takeWhile (\<lambda>d. digit_of d \<noteq> None) (c # cs) = c # cs"
    using takeWhile_digits [of "nat i"] by (simp only: cs not_None_eq)
  have "parse_int (c # cs) = int (digits_val (c # cs))"
    unfolding parse_int_def list.case t if_not_P [OF c] ..
  then show ?thesis using False digits_val_nat_str [of "nat i"] by (simp add: int_str_def cs)
qed

section \<open>OCPP 1.6\<close>

lemma start_created:
  assumes "createTransactionByStartTransaction save tenantId request name db = (Inr t, db')"
  shows "db_transactions db' = db_transactions db @ [t] \<and> db_evses db' = db_evses db \<and>
    db_connectors db' = db_connectors db \<and> tx_isActive t \<and> tx_tenantId t = tenantId \<and> tx_name t = name \<and>
    (\<exists>n. tx_transactionId t = int_str n) \<and>
    (\<exists>c. readConnectorByStationIdAndOcpp16ConnectorId tenantId name (sq_connectorId request) db = Some c \<and>
         tx_evseId t = Some (kr_evseId c))"
proof -
  let ?P = "\<lambda>c. kr_tenantId c = tenantId \<and> kr_connectorId c = sq_connectorId request \<and> kr_name c = name"
  from assms obtain c where c: "read_only_one ?P (db_connectors db) = Inr (Some c)"
    by (auto simp: createTransactionByStartTransaction_def split: sum.splits option.splits)
  have "readConnectorByStationIdAndOcpp16ConnectorId tenantId name (sq_connectorId request) db = Some c"
    using read_only_one_Some [OF c]
    by (auto simp: readConnectorByStationIdAndOcpp16ConnectorId_def find_Some_iff filter_eq_Cons_iff filter_empty_conv
        find_dropWhile dropWhile_append)
  then show ?thesis
    using assms c
    by (auto simp: createTransactionByStartTransaction_def getNextSequenceValue_def started_transaction_def Let_def
        split: sum.splits)
qed

lemma start_failed:
  assumes "createTransactionByStartTransaction save tenantId request name db = (Inl e, db')"
  shows "db_transactions db' = db_transactions db \<and> db_evses db' = db_evses db \<and> db_connectors db' = db_connectors db"
  using assms
  by (auto simp: createTransactionByStartTransaction_def getNextSequenceValue_def Let_def split: sum.splits option.splits)

lemma evse_of_cong: "db_evses db' = db_evses db \<Longrightarrow> evse_of db' = evse_of db"
proof
  fix i
  assume "db_evses db' = db_evses db"
  then show "evse_of db' i = evse_of db i" by (cases i) (simp_all add: evse_of_def)
qed

lemma reservation_keeps [simp]:
  "db_transactions (deactivateReservation tenantId i r name db) = db_transactions db"
  "db_evses (deactivateReservation tenantId i r name db) = db_evses db"
  by (simp_all add: deactivateReservation_def)

lemma release16_keeps [simp]:
  "db_transactions (release_reservation16 tenantId name request r i db) = db_transactions db"
  "db_evses (release_reservation16 tenantId name request r i db) = db_evses db"
  by (simp_all add: release_reservation16_def split: option.split)

lemma deactivate16:
  assumes "deactivateOtherActiveTransactionsAtEvse16 tenantId i name request db = Inr db'"
    and "readConnectorByStationIdAndOcpp16ConnectorId tenantId name (sq_connectorId request) db = Some c"
    and "evse_of db (Some (kr_evseId c)) = Some e"
  shows "db_transactions db' = update_rows (deactivated_at tenantId name (er_evseTypeId e) i db)
      (\<lambda>t. t\<lparr> tx_isActive := False \<rparr>) (db_transactions db) \<and> db_evses db' = db_evses db"
  using assms
  by (auto simp: deactivateOtherActiveTransactionsAtEvse16_def deactivateOtherActiveTransactionsAtEvse_def
      deactivateActiveTransactionsByStationIdAndEvseId_def)

text \<open>A handled StartTransaction in one view: the answer, the tables before the deactivation, and
  the rows after it.\<close>

lemma start_handled:
  assumes "handleStartTransaction16 env tenantId name request st = (Inr (), st')"
    and "ts_log st' = ts_log st @ [StartAnswer r n]"
    and "readConnectorByStationIdAndOcpp16ConnectorId tenantId name (sq_connectorId request) (ts_db st) = Some c"
    and "evse_of (ts_db st) (Some (kr_evseId c)) = Some e"
  obtains response db1 where "start_result env tenantId name request response (ts_db st) = ((r, n), db1)"
    and "db_evses db1 = db_evses (ts_db st)" and "db_evses (ts_db st') = db_evses (ts_db st)"
    and "db_transactions (ts_db st') = update_rows (deactivated_at tenantId name (er_evseTypeId e) (int_str n) (ts_db st))
      (\<lambda>t. t\<lparr> tx_isActive := False \<rparr>) (db_transactions db1)"
proof -
  let ?resp = "authorizeOcpp16IdToken (auth_env_of env tenantId name (ts_db st)) name (sq_idTag request) (sq_connectorId request)"
  obtain r' n' db1 where sr: "start_result env tenantId name request ?resp (ts_db st) = ((r', n'), db1)"
    by (metis prod.exhaust)
  with assms(1) obtain db2 where
    d: "deactivateOtherActiveTransactionsAtEvse16 tenantId (int_str n') name request db1 = Inr db2" and
    st': "st' = with_db (release_reservation16 tenantId name request r' n' db2)
        (tx_emit (StartAnswer r' n') (with_db db1 st))"
    by (auto simp: handleStartTransaction16_def Let_def split: sum.splits)
  have rn: "r' = r" "n' = n" using assms(2) st' by (simp_all add: with_db_def tx_emit_def)
  have keeps: "db_evses db1 = db_evses (ts_db st) \<and> db_connectors db1 = db_connectors (ts_db st)"
    using sr by (auto simp: start_result_def split: if_splits prod.splits sum.splits dest: start_created start_failed)
  have c: "readConnectorByStationIdAndOcpp16ConnectorId tenantId name (sq_connectorId request) db1 = Some c"
    "evse_of db1 (Some (kr_evseId c)) = Some e"
    using assms(3,4) keeps by (simp_all add: readConnectorByStationIdAndOcpp16ConnectorId_def evse_of_def)
  have same: "deactivated_at tenantId name (er_evseTypeId e) (int_str n) db1
      = deactivated_at tenantId name (er_evseTypeId e) (int_str n) (ts_db st)"
    using evse_of_cong [of db1 "ts_db st"] keeps by (intro ext) (simp add: deactivated_at_def)
  show thesis
    using that [of ?resp db1] sr rn keeps deactivate16 [OF d c] st' same by (simp add: with_db_def)
qed

text \<open>C35. After a StartTransaction that was answered Accepted the new transaction is active at the EVSE
  of its connector, and it is the only active transaction of the station there.\<close>

definition active_at :: "tx_db \<Rightarrow> int \<Rightarrow> string \<Rightarrow> int option \<Rightarrow> tx_row \<Rightarrow> bool" where
  "active_at db tenantId name evseTypeId t \<longleftrightarrow>
     t \<in> set (db_transactions db) \<and> tx_tenantId t = tenantId \<and> tx_name t = name \<and> tx_isActive t \<and>
     map_option er_evseTypeId (evse_of db (tx_evseId t)) = Some evseTypeId"

theorem start_leaves_one_active:
  assumes "handleStartTransaction16 env tenantId name request st = (Inr (), st')"
    and "ts_log st' = ts_log st @ [StartAnswer r n]" and "sr_status r = ''Accepted''"
    and "readConnectorByStationIdAndOcpp16ConnectorId tenantId name (sq_connectorId request) (ts_db st) = Some c"
    and "evse_of (ts_db st) (Some (kr_evseId c)) = Some e"
  shows "(\<exists>t. active_at (ts_db st') tenantId name (er_evseTypeId e) t) \<and>
    (\<forall>t. active_at (ts_db st') tenantId name (er_evseTypeId e) t \<longrightarrow> tx_transactionId t = int_str n)"
proof -
  obtain response db1 where sr: "start_result env tenantId name request response (ts_db st) = ((r, n), db1)"
    and evses: "db_evses db1 = db_evses (ts_db st)" "db_evses (ts_db st') = db_evses (ts_db st)"
    and rows: "db_transactions (ts_db st') = update_rows (deactivated_at tenantId name (er_evseTypeId e) (int_str n) (ts_db st))
      (\<lambda>t. t\<lparr> tx_isActive := False \<rparr>) (db_transactions db1)"
    by (rule start_handled [OF assms(1,2,4,5)])
  from sr assms(3) obtain t where t: "createTransactionByStartTransaction (tn_save env) tenantId request name (ts_db st) = (Inr t, db1)"
    and n: "n = parse_int (tx_transactionId t)"
    by (auto simp: start_result_def start_status_def split: if_splits prod.splits sum.splits)
  note new = start_created [OF t]
  have tid: "tx_transactionId t = int_str n" using new n by auto
  have "evse_of (ts_db st') = evse_of (ts_db st)" using evses(2) by (rule evse_of_cong)
  moreover have "tx_evseId t = Some (kr_evseId c)" using new assms(4) by auto
  ultimately have "active_at (ts_db st') tenantId name (er_evseTypeId e) t"
  proof -
    have "t \<in> set (db_transactions (ts_db st'))" using new tid rows by (simp add: deactivated_at_def)
    then show ?thesis
      using new assms(5) \<open>evse_of (ts_db st') = evse_of (ts_db st)\<close> \<open>tx_evseId t = Some (kr_evseId c)\<close>
      by (simp add: active_at_def)
  qed
  moreover have "tx_transactionId u = int_str n" if "active_at (ts_db st') tenantId name (er_evseTypeId e) u" for u
  proof -
    have "u \<in> set (db_transactions (ts_db st'))" using that by (simp add: active_at_def)
    then obtain w where w: "u = (if deactivated_at tenantId name (er_evseTypeId e) (int_str n) (ts_db st) w
        then w\<lparr> tx_isActive := False \<rparr> else w)"
      unfolding rows update_rows_simps by (elim imageE)
    then have "\<not> deactivated_at tenantId name (er_evseTypeId e) (int_str n) (ts_db st) w" "u = w"
      using that by (simp_all add: active_at_def split: if_splits)
    then show ?thesis
      using that \<open>evse_of (ts_db st') = evse_of (ts_db st)\<close> by (auto simp: active_at_def deactivated_at_def)
  qed
  ultimately show ?thesis by blast
qed

text \<open>A StartTransaction that is refused, because of its token or because the transaction cannot be
  stored, ends the transactions that are running at the EVSE of the connector: each of them is
  marked inactive, although nothing was started.\<close>

lemma rejected_start_ends_running:
  assumes "handleStartTransaction16 env tenantId name request st = (Inr (), st')"
    and "ts_log st' = ts_log st @ [StartAnswer r n]" and "sr_status r \<noteq> ''Accepted''"
    and "readConnectorByStationIdAndOcpp16ConnectorId tenantId name (sq_connectorId request) (ts_db st) = Some c"
    and "evse_of (ts_db st) (Some (kr_evseId c)) = Some e"
    and "active_at (ts_db st) tenantId name (er_evseTypeId e) t" and "tx_transactionId t \<noteq> ''0''"
  shows "n = 0 \<and> length (db_transactions (ts_db st')) = length (db_transactions (ts_db st)) \<and>
    t\<lparr> tx_isActive := False \<rparr> \<in> set (db_transactions (ts_db st'))"
proof -
  obtain response db1 where sr: "start_result env tenantId name request response (ts_db st) = ((r, n), db1)"
    and rows: "db_transactions (ts_db st') = update_rows (deactivated_at tenantId name (er_evseTypeId e) (int_str n) (ts_db st))
      (\<lambda>t. t\<lparr> tx_isActive := False \<rparr>) (db_transactions db1)"
    by (rule start_handled [OF assms(1,2,4,5)])
  have same: "n = 0 \<and> db_transactions db1 = db_transactions (ts_db st)"
    using sr assms(3)
    by (auto simp: start_result_def split: if_splits prod.splits sum.splits dest: start_failed)
  have "int_str 0 = ''0''" by code_simp
  then have "deactivated_at tenantId name (er_evseTypeId e) (int_str n) (ts_db st) t"
    using assms(6,7) same by (simp add: active_at_def deactivated_at_def)
  then show ?thesis
    using same rows assms(6) by (auto simp: active_at_def image_iff intro!: bexI [of _ t])
qed

definition demo_tx_env :: tx_env where
  "demo_tx_env =
     \<lparr> tn_authorizers = [], tn_now = 1000, tn_save = (\<lambda>t. Inr ()), tn_isForeignKeyError = (\<lambda>e. False),
       tn_parse = (\<lambda>s. Inr JNull), tn_attributes = (\<lambda>c v. Inr []), tn_profiles = (\<lambda>i. Inr []),
       tn_signed = (\<lambda>m. Inr True), tn_sendCostUpdatedOnMeterValue = False, tn_costUpdatedInterval = 0 \<rparr>"

definition demo_running :: tx_state where
  "demo_running =
     \<lparr> ts_db = demo_tx_db\<lparr> db_authorizations := [(1, demo_authorization (Some True))] \<rparr>,
       ts_cache = empty_cache, ts_log = [] \<rparr>"

definition demo_start :: "string \<Rightarrow> start_request" where
  "demo_start tag = \<lparr> sq_connectorId = 1, sq_idTag = tag, sq_meterStart = 1000, sq_timestamp = ''t'', sq_reservationId = None \<rparr>"

lemma demo_connector:
  "readConnectorByStationIdAndOcpp16ConnectorId 1 ''cp1'' 1 (ts_db demo_running) = Some demo_connector_row"
  "evse_of (ts_db demo_running) (Some (kr_evseId demo_connector_row)) = Some \<lparr> er_id = 1, er_tenantId = 1,
     er_stationId = 1, er_name = ''cp1'', er_evseTypeId = Some 1, er_evseId = ''1'' \<rparr>"
  by code_simp+

abbreviation demo_after_start :: "string \<Rightarrow> (exn + unit) \<times> tx_state" where
  "demo_after_start tag \<equiv> handleStartTransaction16 demo_tx_env 1 ''cp1'' (demo_start tag) demo_running"

lemma demo_start_accepted:
  "fst (demo_after_start ''AB12'') = Inr ()"
  "ts_log (snd (demo_after_start ''AB12'')) = [StartAnswer (accepted_start (demo_authorization (Some True)) None) 1]"
  by code_simp+

lemma demo_start_refused:
  "fst (demo_after_start ''nobody'') = Inr ()"
  "ts_log (snd (demo_after_start ''nobody'')) = [StartAnswer (start_status ''Invalid'') 0]"
  by code_simp+

lemma demo_running_log: "ts_log demo_running = []"
  by (simp add: demo_running_def)

theorem start_leaves_one_active_witness:
  "\<exists>t. active_at (ts_db (snd (demo_after_start ''AB12''))) 1 ''cp1'' (Some 1) t \<and> tx_transactionId t = ''1''"
proof -
  have h: "demo_after_start ''AB12'' = (Inr (), snd (demo_after_start ''AB12''))"
    using demo_start_accepted(1) by (metis prod.collapse)
  have l: "ts_log (snd (demo_after_start ''AB12'')) = ts_log demo_running
      @ [StartAnswer (accepted_start (demo_authorization (Some True)) None) 1]"
    by (simp add: demo_start_accepted(2) demo_running_log)
  have c: "readConnectorByStationIdAndOcpp16ConnectorId 1 ''cp1'' (sq_connectorId (demo_start ''AB12'')) (ts_db demo_running)
      = Some demo_connector_row"
    by (simp add: demo_start_def demo_connector)
  have "int_str 1 = ''1''" by code_simp
  then show ?thesis
    using start_leaves_one_active [OF h l _ c demo_connector(2)] by (auto simp: accepted_start_def)
qed

lemma rejected_start_ends_running_witness:
  "demo_tx\<lparr> tx_isActive := False \<rparr> \<in> set (db_transactions (ts_db (snd (demo_after_start ''nobody''))))"
proof -
  have h: "demo_after_start ''nobody'' = (Inr (), snd (demo_after_start ''nobody''))"
    using demo_start_refused(1) by (metis prod.collapse)
  have l: "ts_log (snd (demo_after_start ''nobody'')) = ts_log demo_running @ [StartAnswer (start_status ''Invalid'') 0]"
    by (simp add: demo_start_refused(2) demo_running_log)
  have c: "readConnectorByStationIdAndOcpp16ConnectorId 1 ''cp1'' (sq_connectorId (demo_start ''nobody'')) (ts_db demo_running)
      = Some demo_connector_row"
    by (simp add: demo_start_def demo_connector)
  have "active_at (ts_db demo_running) 1 ''cp1'' (Some 1) demo_tx"
    by (simp add: active_at_def demo_running_def demo_tx_db_def demo_tx_def evse_of_def)
  moreover have "tx_transactionId demo_tx \<noteq> ''0''" by (simp add: demo_tx_def)
  ultimately show ?thesis
    using rejected_start_ends_running [OF h l _ c demo_connector(2)] by simp
qed

section \<open>Rows under the steps of a transaction event\<close>

text \<open>The steps after an event was stored keep the order of the rows and the identity of each; the
  only ones that become inactive are those the deactivation picks.\<close>

definition kept :: "(tx_row \<Rightarrow> bool) \<Rightarrow> tx_row \<Rightarrow> tx_row \<Rightarrow> bool" where
  "kept D t t' \<longleftrightarrow>
     tx_id t' = tx_id t \<and> tx_tenantId t' = tx_tenantId t \<and> tx_name t' = tx_name t \<and>
     tx_transactionId t' = tx_transactionId t \<and> tx_evseId t' = tx_evseId t \<and>
     tx_isActive t' = (tx_isActive t \<and> \<not> D t)"

lemma all2_update_rows:
  assumes "\<And>t. P t \<Longrightarrow> R t (f t)" and "\<And>t. \<not> P t \<Longrightarrow> R t t"
  shows "list_all2 R ts (update_rows P f ts)"
  using assms by (induction ts) auto

lemma all2_refl: "(\<And>t. R t t) \<Longrightarrow> list_all2 R ts ts"
  by (simp add: list.rel_refl)

lemma kept_trans: "list_all2 (kept D) ts us \<Longrightarrow> list_all2 (kept (\<lambda>_. False)) us vs \<Longrightarrow> list_all2 (kept D) ts vs"
  by (rule list_all2_trans [of "kept D" "kept (\<lambda>_. False)" "kept D"]) (auto simp: kept_def)

lemma list_all2_in_right: "list_all2 R xs ys \<Longrightarrow> y \<in> set ys \<Longrightarrow> \<exists>x \<in> set xs. R x y"
  by (induction xs ys rule: list_all2_induct) auto

lemma list_all2_in_left: "list_all2 R xs ys \<Longrightarrow> x \<in> set xs \<Longrightarrow> \<exists>y \<in> set ys. R x y"
  by (induction xs ys rule: list_all2_induct) auto

lemma kept_refl: "kept (\<lambda>_. False) t t"
  by (simp add: kept_def)

lemma release_keeps [simp]:
  "db_transactions (release_reservation tenantId name v db) = db_transactions db"
  "db_evses (release_reservation tenantId name v db) = db_evses db"
  by (simp_all add: release_reservation_def split: option.split)

text \<open>The transactions an event ends at its EVSE.\<close>

definition ended_by :: "int \<Rightarrow> string \<Rightarrow> tx_event \<Rightarrow> tx_db \<Rightarrow> tx_row \<Rightarrow> bool" where
  "ended_by tenantId name v db t \<longleftrightarrow>
     (case tv_evse v of
        Some (evse, c) \<Rightarrow> (tv_eventType v = ''Started'' \<or> tv_eventType v = ''Updated'')
          \<and> deactivated_at tenantId name (Some evse) (ti_transactionId (tv_info v)) db t
      | None \<Rightarrow> False)"

lemma deactivate201_rows:
  "list_all2 (kept (ended_by tenantId name v db)) (db_transactions db)
     (db_transactions (deactivateOtherActiveTransactionsAtEvse201 tenantId name v db))"
  by (auto simp: deactivateOtherActiveTransactionsAtEvse201_def deactivateOtherActiveTransactionsAtEvse_def
      deactivateActiveTransactionsByStationIdAndEvseId_def ended_by_def kept_def
      intro!: all2_update_rows all2_refl split: option.split)

lemma ended_by_release [simp]: "ended_by tenantId name v (release_reservation tenantId name v db) = ended_by tenantId name v db"
  by (rule ext) (simp add: ended_by_def deactivated_at_def evse_of_cong [OF release_keeps(2)] split: option.split)

lemma persist_rows: "list_all2 (kept (\<lambda>_. False)) (db_transactions db)
    (db_transactions (persist_limit v21 tenantId i name r db))"
  by (auto simp: persist_limit_def persistTransactionLimitToDb_def updateTransactionByStationIdAndTransactionId_def kept_def
      intro!: all2_update_rows all2_refl)

lemma raise_rows: "list_all2 (kept (\<lambda>_. False)) (db_transactions db) (db_transactions (raise_limit tenantId name v21 v t db))"
  by (auto simp: raise_limit_def updateTransactionByStationIdAndTransactionId_def kept_def Let_def
      intro!: all2_update_rows all2_refl)

lemma store_total_rows: "list_all2 (kept (\<lambda>_. False)) (db_transactions db) (db_transactions (store_total tenantId t r db))"
  by (auto simp: store_total_def updateTransactionTotalCostById_def kept_def
      intro!: all2_update_rows all2_refl split: option.split)

text \<open>The tables after the answer, on both paths.\<close>

definition settled_db :: "int \<Rightarrow> string \<Rightarrow> tx_event \<Rightarrow> tx_db \<Rightarrow> tx_db" where
  "settled_db tenantId name v db =
     deactivateOtherActiveTransactionsAtEvse201 tenantId name v (release_reservation tenantId name v db)"

lemma limit_steps_keep [simp]:
  "xr_totalCost (fst (consume_cached_limit env k ks r c)) = xr_totalCost r"
  "xr_totalCost (sync_limit v21 v t r) = xr_totalCost r"
  "xr_totalCost (authorization_amount env r) = xr_totalCost r"
  by (auto simp: consume_cached_limit_def sync_limit_def syncTransactionLimitToResponse_def authorization_amount_def
      split: option.split sum.split)

lemma remote_start_keeps [simp]: "xr_totalCost (fst (remote_start_limit env tenantId name v21 v r c)) = xr_totalCost r"
  by (simp add: remote_start_limit_def split: option.split)

lemma direct_payment_keeps [simp]: "xr_totalCost (fst (direct_payment_limit env tenantId name v21 v r c)) = xr_totalCost r"
  by (auto simp: direct_payment_limit_def Let_def split: option.split prod.split)
    (metis fst_conv limit_steps_keep(1))+

lemma authorized_answer:
  obtains r' rest where "ts_db (answer_authorized env tenantId name v21 v t r st) =
      persist_limit v21 tenantId (ti_transactionId (tv_info v)) name r' (ts_db st)"
    and "ts_log (answer_authorized env tenantId name v21 v t r st) = ts_log st @ EventAnswer r' # rest"
    and "\<forall>r'. EventAnswer r' \<notin> set rest" and "xr_totalCost r' = xr_totalCost r"
proof -
  obtain r1 c1 where 1: "remote_start_limit env tenantId name v21 v r (ts_cache st) = (r1, c1)" by fastforce
  obtain r3 c2 where 3: "direct_payment_limit env tenantId name v21 v (sync_limit v21 v t r1) c1 = (r3, c2)" by fastforce
  let ?n = "tv_eventType v = ''Started'' \<and> map_option ii_status (xr_idTokenInfo r3) = Some ''Accepted''
      \<and> tn_costUpdatedInterval env \<noteq> 0"
  have c: "xr_totalCost r3 = xr_totalCost r"
    using remote_start_keeps [of env tenantId name v21 v r "ts_cache st"]
      direct_payment_keeps [of env tenantId name v21 v "sync_limit v21 v t r1" c1] 1 3 by simp
  show thesis
    by (rule that [of r3 "if ?n then [CostNotifications name (ti_transactionId (tv_info v))] else []"])
      (simp_all add: answer_authorized_def tx_emit_def Let_def 1 3 c)
qed

lemma update_event_state:
  assumes "update_event env tenantId name v21 v t r st = (Inr r1, st1)"
  shows "(ts_db st1 = ts_db st \<or> ts_db st1 = raise_limit tenantId name v21 v t (ts_db st)) \<and>
    xr_transactionLimit r1 = xr_transactionLimit r"
  using assms
  by (auto simp: update_event_def running_total_def with_db_def Let_def bind_res_eq_Inr
      split: if_splits sum.splits option.splits)

lemma final_total_keeps: "final_total tenantId v t db r = Inr r' \<Longrightarrow> xr_transactionLimit r' = xr_transactionLimit r"
  by (auto simp: final_total_def bind_res_eq_Inr split: option.splits if_splits)

lemma cancelled_total_keeps:
  assumes "cancelled_total env v21 v t r = Inr r'"
  shows "xr_transactionLimit r' = xr_transactionLimit r"
proof -
  have *: "xr_transactionLimit (case a of Some (c # cs) # as \<Rightarrow> r | _ \<Rightarrow> r\<lparr> xr_totalCost := Some 0 \<rparr>) = xr_transactionLimit r"
    for a :: "string option list"
    by (simp split: list.split option.split)
  show ?thesis
    using assms * by (auto simp: cancelled_total_def bind_res_eq_Inr split: if_split_asm)
qed

lemma finish_anonymous_state:
  assumes "finish_anonymous env tenantId name v21 v t r st = (Inr (), st')"
  obtains r1 where "ts_db st' = persist_limit v21 tenantId (ti_transactionId (tv_info v)) name r1
      (store_total tenantId t r1 (ts_db st))"
    and "ts_log st' = ts_log st @ [EventAnswer r1]" and "xr_transactionLimit r1 = xr_transactionLimit r"
proof -
  from assms obtain r1 where
    t: "bind_res (final_total tenantId v t (ts_db st) r) (cancelled_total env v21 v t) = Inr r1" and
    rest: "ts_db st' = persist_limit v21 tenantId (ti_transactionId (tv_info v)) name r1 (store_total tenantId t r1 (ts_db st))"
    "ts_log st' = ts_log st @ [EventAnswer r1]"
    by (auto simp: finish_anonymous_def with_db_def tx_emit_def Let_def split: sum.splits)
  from t have "xr_transactionLimit r1 = xr_transactionLimit r"
    by (auto simp: bind_res_eq_Inr dest!: final_total_keeps cancelled_total_keeps)
  with rest show thesis by (rule that)
qed

section \<open>The whole handler\<close>

lemma event_handled:
  assumes "handleTransactionEvent env tenantId name v21 v st = (Inr (), st')" and "last (ts_log st') = EventAnswer r"
    and "already_ended tenantId name v (ts_db st) = Inr False"
  obtains response t db where "authorize_event env tenantId name v21 v (ts_db st) = Inr response"
    and "createOrUpdateTransactionByTransactionEventAndStationId (tn_save env) tenantId v name (ts_db st) = Inr (t, db)"
    and "handle_stored_event env tenantId name v21 v response t db st = (Inr (), st')"
  using assms
  by (auto simp: handleTransactionEvent_def tx_emit_def split: sum.splits prod.splits if_splits)

lemma authorize_event_None: "authorize_event env tenantId name v21 v db = Inr response \<Longrightarrow> response = None \<longleftrightarrow> event_token v = None"
  by (auto simp: authorize_event_def bind_res_eq_Inr split: option.splits)

lemma authorize_event_no_cost: "authorize_event env tenantId name v21 v db = Inr (Some r) \<Longrightarrow> xr_totalCost r = None"
  by (auto simp: authorize_event_def bind_res_eq_Inr response_of_def split: option.splits)

lemma authorized_handled:
  assumes "handle_stored_event env tenantId name v21 v (Some r0) t db st = (Inr (), st')"
  obtains r rest where "ts_db st' =
      persist_limit v21 tenantId (ti_transactionId (tv_info v)) name r (settled_db tenantId name v db)"
    and "ts_log st' = ts_log st @ EventAnswer r # rest" and "\<forall>r'. EventAnswer r' \<notin> set rest"
    and "xr_totalCost r = xr_totalCost r0"
proof -
  let ?st = "with_db (settled_db tenantId name v db) st"
  have st': "st' = answer_authorized env tenantId name v21 v t r0 ?st"
    using assms by (simp add: handle_stored_event_def settled_db_def Let_def)
  have db: "ts_db ?st = settled_db tenantId name v db" and log: "ts_log ?st = ts_log st"
    by (simp_all add: with_db_def)
  obtain r rest where
    "ts_db st' = persist_limit v21 tenantId (ti_transactionId (tv_info v)) name r (settled_db tenantId name v db)"
    "ts_log st' = ts_log st @ EventAnswer r # rest" "\<forall>r'. EventAnswer r' \<notin> set rest" "xr_totalCost r = xr_totalCost r0"
    using authorized_answer [of env tenantId name v21 v t r0 ?st] unfolding st' db log by metis
  then show thesis by (rule that)
qed

lemma anonymous_handled:
  assumes "handle_stored_event env tenantId name v21 v None t db st = (Inr (), st')"
  obtains r db1 where "ts_db st' = persist_limit v21 tenantId (ti_transactionId (tv_info v)) name r (store_total tenantId t r db1)"
    and "db1 = settled_db tenantId name v db \<or> db1 = raise_limit tenantId name v21 v t (settled_db tenantId name v db)"
    and "last (ts_log st') = EventAnswer r"
    and "xr_transactionLimit r = xr_transactionLimit (sync_limit v21 v t empty_response)"
proof -
  let ?st = "with_db (settled_db tenantId name v db) st"
  have "answer_anonymous env tenantId name v21 v t ?st = (Inr (), st')"
    using assms by (simp add: handle_stored_event_def settled_db_def Let_def)
  then obtain r1 st1 where u: "update_event env tenantId name v21 v t (sync_limit v21 v t empty_response) ?st = (Inr r1, st1)"
    and f: "finish_anonymous env tenantId name v21 v t r1 st1 = (Inr (), st')"
    by (auto simp: answer_anonymous_def split: prod.splits sum.split_asm)
  have db: "ts_db ?st = settled_db tenantId name v db" by (simp add: with_db_def)
  obtain r where r: "ts_db st' = persist_limit v21 tenantId (ti_transactionId (tv_info v)) name r (store_total tenantId t r (ts_db st1))"
    "ts_log st' = ts_log st1 @ [EventAnswer r]" "xr_transactionLimit r = xr_transactionLimit r1"
    using f by (rule finish_anonymous_state)
  have u': "ts_db st1 = settled_db tenantId name v db \<or> ts_db st1 = raise_limit tenantId name v21 v t (settled_db tenantId name v db)"
    "xr_transactionLimit r1 = xr_transactionLimit (sync_limit v21 v t empty_response)"
    using update_event_state [OF u] unfolding db by blast+
  from r(1) u'(1) show thesis
    by (rule that) (simp_all add: r(2,3) u'(2))
qed

lemma settled_rows:
  "list_all2 (kept (ended_by tenantId name v db)) (db_transactions db) (db_transactions (settled_db tenantId name v db))"
  using deactivate201_rows [of tenantId name v "release_reservation tenantId name v db"] by (simp add: settled_db_def)

lemma steps_keep_evses [simp]:
  "db_evses (settled_db tenantId name v db) = db_evses db"
  "db_evses (persist_limit v21 tenantId i name r db) = db_evses db"
  "db_evses (store_total tenantId t r db) = db_evses db"
  "db_evses (raise_limit tenantId name v21 v t db) = db_evses db"
  by (simp_all add: settled_db_def deactivateOtherActiveTransactionsAtEvse201_def deactivateOtherActiveTransactionsAtEvse_def
      deactivateActiveTransactionsByStationIdAndEvseId_def persist_limit_def persistTransactionLimitToDb_def
      updateTransactionByStationIdAndTransactionId_def store_total_def updateTransactionTotalCostById_def raise_limit_def
      Let_def split: option.split)

lemma handled_rows:
  assumes "handle_stored_event env tenantId name v21 v response t db st = (Inr (), st')"
  shows "list_all2 (kept (ended_by tenantId name v db)) (db_transactions db) (db_transactions (ts_db st')) \<and>
    db_evses (ts_db st') = db_evses db"
proof (cases response)
  case (Some r0)
  from assms [unfolded Some] show ?thesis
    by (rule authorized_handled) (simp add: kept_trans [OF settled_rows persist_rows])
next
  case None
  from assms [unfolded None] obtain r db1 where
    st': "ts_db st' = persist_limit v21 tenantId (ti_transactionId (tv_info v)) name r (store_total tenantId t r db1)"
    and db1: "db1 = settled_db tenantId name v db \<or> db1 = raise_limit tenantId name v21 v t (settled_db tenantId name v db)"
    by (rule anonymous_handled)
  have "list_all2 (kept (ended_by tenantId name v db)) (db_transactions db) (db_transactions db1)"
    using db1 settled_rows kept_trans [OF settled_rows raise_rows] by auto
  then show ?thesis
    using st' db1 kept_trans [OF kept_trans store_total_rows, THEN kept_trans, OF _ _ persist_rows]
    by (auto intro!: kept_trans [OF _ persist_rows] kept_trans [OF _ store_total_rows])
qed

text \<open>An Updated or Ended event for a transaction that has ended is answered and otherwise ignored: the
  tables and the cache stay as they are, and nothing else is sent.\<close>

lemma ended_transaction_ignored:
  assumes "tv_eventType v \<noteq> ''Started''"
    and "readTransactionByStationIdAndTransactionId tenantId name (ti_transactionId (tv_info v)) (ts_db st) = Inr (Some t)"
    and "\<not> tx_isActive t"
  shows "(\<exists>e. handleTransactionEvent env tenantId name v21 v st = (Inl e, st)) \<or>
    (\<exists>r. handleTransactionEvent env tenantId name v21 v st = (Inr (), st\<lparr> ts_log := ts_log st @ [EventAnswer r] \<rparr>))"
proof -
  have "already_ended tenantId name v (ts_db st) = Inr True"
    using assms by (simp add: already_ended_def)
  then show ?thesis
    by (cases "authorize_event env tenantId name v21 v (ts_db st)") (auto simp: handleTransactionEvent_def tx_emit_def)
qed

lemma stored_event_active:
  assumes "createOrUpdateTransactionByTransactionEventAndStationId save tenantId v name db = Inr (t, db')"
  shows "t \<in> set (db_transactions db') \<and> is_transaction tenantId name (ti_transactionId (tv_info v)) t \<and>
    tx_isActive t = (tv_eventType v \<noteq> ''Ended'')"
  using stored_event_row [OF assms]
proof (elim disjE exE conjE)
  fix t0
  assume r: "readTransactionByStationIdAndTransactionId tenantId name (ti_transactionId (tv_info v)) db = Inr (Some t0)"
    and u: "updated_from v t0 t"
    and d: "db_transactions db' = update_rows (\<lambda>r. tx_id r = tx_id t0) (\<lambda>_. t) (db_transactions db)"
  from read_only_one_in [OF r [unfolded readTransactionByStationIdAndTransactionId_def]]
  show ?thesis using u d by (auto simp: updated_from_def is_transaction_def image_iff)
qed (auto simp: created_from_def is_transaction_def)


section \<open>Limits\<close>

text \<open>Every stored row of a transaction satisfies Q.\<close>

definition rows_satisfy :: "(tx_row \<Rightarrow> bool) \<Rightarrow> int \<Rightarrow> string \<Rightarrow> string \<Rightarrow> tx_db \<Rightarrow> bool" where
  "rows_satisfy Q tenantId name transactionId db \<longleftrightarrow>
     (\<forall>t \<in> set (db_transactions db). is_transaction tenantId name transactionId t \<longrightarrow> Q t)"

lemma rows_satisfy_update:
  assumes "rows_satisfy Q tenantId name k db" and "\<And>t. is_transaction tenantId name k (f t) = is_transaction tenantId name k t"
    and "\<And>t. Q (f t) = Q t"
  shows "rows_satisfy Q tenantId name k (db\<lparr> db_transactions := update_rows P f (db_transactions db) \<rparr>)"
  using assms by (auto simp: rows_satisfy_def)

lemma rows_satisfy_release [simp]:
  "rows_satisfy Q tenantId name k (release_reservation i n v db) = rows_satisfy Q tenantId name k db"
  by (simp add: rows_satisfy_def)

lemma rows_satisfy_settled:
  assumes "rows_satisfy Q tenantId name k db" and "\<And>t. Q (t\<lparr> tx_isActive := False \<rparr>) = Q t"
  shows "rows_satisfy Q tenantId name k (settled_db i n v db)"
proof -
  have "rows_satisfy Q tenantId name k (deactivateActiveTransactionsByStationIdAndEvseId i n e x (release_reservation i n v db))"
    for e x
    unfolding deactivateActiveTransactionsByStationIdAndEvseId_def
    by (rule rows_satisfy_update) (simp_all add: assms is_transaction_def)
  then show ?thesis
    using assms(1)
    by (simp add: settled_db_def deactivateOtherActiveTransactionsAtEvse201_def deactivateOtherActiveTransactionsAtEvse_def
        split: option.split)
qed

lemma stored_limit:
  assumes "createOrUpdateTransactionByTransactionEventAndStationId save tenantId v name db = Inr (t, db')"
    and "ti_transactionLimit (tv_info v) \<noteq> JUndef"
  shows "tx_transactionLimit t = ti_transactionLimit (tv_info v) \<and>
    rows_satisfy (\<lambda>t. tx_transactionLimit t = ti_transactionLimit (tv_info v)) tenantId name (ti_transactionId (tv_info v)) db'"
  using stored_event_row [OF assms(1)]
proof (elim disjE exE conjE)
  fix t0
  assume r: "readTransactionByStationIdAndTransactionId tenantId name (ti_transactionId (tv_info v)) db = Inr (Some t0)"
    and u: "updated_from v t0 t"
    and d: "db_transactions db' = update_rows (\<lambda>r. tx_id r = tx_id t0) (\<lambda>_. t) (db_transactions db)"
  have "w = t0" if "w \<in> set (db_transactions db)" "is_transaction tenantId name (ti_transactionId (tv_info v)) w" for w
  proof -
    have "w \<in> set (filter (is_transaction tenantId name (ti_transactionId (tv_info v))) (db_transactions db))"
      using that by simp
    then show ?thesis
      unfolding read_only_one_Some [OF r [unfolded readTransactionByStationIdAndTransactionId_def]] by simp
  qed
  moreover have "tx_transactionLimit t = ti_transactionLimit (tv_info v)"
    using u assms(2) by (simp add: updated_from_def js_or_keep_def)
  ultimately show ?thesis unfolding rows_satisfy_def d by auto
next
  assume r: "readTransactionByStationIdAndTransactionId tenantId name (ti_transactionId (tv_info v)) db = Inr None"
    and c: "created_from tenantId name v db t" and d: "db_transactions db' = db_transactions db @ [t]"
  have "\<not> is_transaction tenantId name (ti_transactionId (tv_info v)) w" if "w \<in> set (db_transactions db)" for w
    using r that unfolding readTransactionByStationIdAndTransactionId_def read_only_one_None filter_empty_conv by blast
  then show ?thesis using c d by (auto simp: rows_satisfy_def created_from_def)
qed

lemma limits_match_refl: "truthy L \<Longrightarrow> limits_match L L"
  by (simp add: limits_match_def list_all_iff)

text \<open>The limit a station reports overwrites the limit that is stored before the two are compared: an
  event without a token that reports a limit never gets one in its answer, and unless its
  trigger is LimitSet the reported limit is the one that is stored afterwards.\<close>

lemma station_limit_wins:
  assumes "handleTransactionEvent env tenantId name True v st = (Inr (), st')" and "last (ts_log st') = EventAnswer r"
    and "already_ended tenantId name v (ts_db st) = Inr False" and "event_token v = None"
    and "truthy (ti_transactionLimit (tv_info v))" and "tv_triggerReason v \<noteq> ''LimitSet''"
    and "t \<in> set (db_transactions (ts_db st'))" and "is_transaction tenantId name (ti_transactionId (tv_info v)) t"
  shows "xr_transactionLimit r = JUndef \<and> tx_transactionLimit t = ti_transactionLimit (tv_info v)"
proof -
  let ?L = "ti_transactionLimit (tv_info v)" and ?k = "ti_transactionId (tv_info v)"
  from assms(1-3) obtain response u db where a: "authorize_event env tenantId name True v (ts_db st) = Inr response"
    and s: "createOrUpdateTransactionByTransactionEventAndStationId (tn_save env) tenantId v name (ts_db st) = Inr (u, db)"
    and h: "handle_stored_event env tenantId name True v response u db st = (Inr (), st')"
    by (rule event_handled)
  have "response = None" using authorize_event_None [OF a] assms(4) by simp
  with h obtain r1 db1 where
    st': "ts_db st' = persist_limit True tenantId ?k name r1 (store_total tenantId u r1 db1)"
    and db1: "db1 = settled_db tenantId name v db \<or> db1 = raise_limit tenantId name True v u (settled_db tenantId name v db)"
    and log: "last (ts_log st') = EventAnswer r1"
    and r1: "xr_transactionLimit r1 = xr_transactionLimit (sync_limit True v u empty_response)"
    using anonymous_handled by metis
  have "?L \<noteq> JUndef" using assms(5) by auto
  note L = stored_limit [OF s this]
  have none: "xr_transactionLimit r1 = JUndef"
    using r1 L limits_match_refl [OF assms(5)]
    by (simp add: sync_limit_def syncTransactionLimitToResponse_def empty_response_def)
  let ?Q = "\<lambda>t. tx_transactionLimit t = ?L"
  have "db1 = settled_db tenantId name v db" using db1 assms(6) by (auto simp: raise_limit_def Let_def)
  then have "rows_satisfy ?Q tenantId name ?k db1"
    using L by (simp add: rows_satisfy_settled)
  then have "rows_satisfy ?Q tenantId name ?k (store_total tenantId u r1 db1)"
    by (auto simp: store_total_def updateTransactionTotalCostById_def is_transaction_def
        intro!: rows_satisfy_update split: option.split)
  then have "rows_satisfy ?Q tenantId name ?k (ts_db st')"
    using none by (simp add: st' persist_limit_def persistTransactionLimitToDb_def)
  then show ?thesis using none log assms(2,7,8) by (auto simp: rows_satisfy_def)
qed

section \<open>Costs\<close>

abbreviation costless :: "int \<Rightarrow> string \<Rightarrow> string \<Rightarrow> tx_db \<Rightarrow> bool" where
  "costless \<equiv> rows_satisfy (\<lambda>t. tx_totalCost t = None)"

lemma costless_persist: "costless tenantId name k db \<Longrightarrow> costless tenantId name k (persist_limit v21 i x n r db)"
  by (auto simp: persist_limit_def persistTransactionLimitToDb_def updateTransactionByStationIdAndTransactionId_def
      is_transaction_def intro!: rows_satisfy_update)

lemma stored_costless:
  assumes "createOrUpdateTransactionByTransactionEventAndStationId save tenantId v name db = Inr (t, db')"
    and "costless tenantId name (ti_transactionId (tv_info v)) db"
  shows "costless tenantId name (ti_transactionId (tv_info v)) db'"
  using stored_event_row [OF assms(1)]
proof (elim disjE exE conjE)
  fix t0
  assume r: "readTransactionByStationIdAndTransactionId tenantId name (ti_transactionId (tv_info v)) db = Inr (Some t0)"
    and u: "updated_from v t0 t"
    and d: "db_transactions db' = update_rows (\<lambda>r. tx_id r = tx_id t0) (\<lambda>_. t) (db_transactions db)"
  have "tx_totalCost t = None"
    using u assms(2) read_only_one_in [OF r [unfolded readTransactionByStationIdAndTransactionId_def]]
    by (auto simp: updated_from_def rows_satisfy_def)
  then show ?thesis using assms(2) unfolding rows_satisfy_def d by auto
qed (use assms(2) in \<open>auto simp: rows_satisfy_def created_from_def\<close>)

text \<open>The event that ends a transaction computes no total cost when it has an id token: the answer has
  none, and a transaction that had none keeps none.\<close>

lemma ended_with_token_no_cost:
  assumes "handleTransactionEvent env tenantId name v21 v st = (Inr (), st')" and "EventAnswer r \<in> set (ts_log st')"
    and "ts_log st = []" and "already_ended tenantId name v (ts_db st) = Inr False" and "event_token v \<noteq> None"
    and "costless tenantId name (ti_transactionId (tv_info v)) (ts_db st)"
  shows "xr_totalCost r = None \<and> costless tenantId name (ti_transactionId (tv_info v)) (ts_db st')"
proof -
  from assms(1-4) obtain response t db where a: "authorize_event env tenantId name v21 v (ts_db st) = Inr response"
    and s: "createOrUpdateTransactionByTransactionEventAndStationId (tn_save env) tenantId v name (ts_db st) = Inr (t, db)"
    and h: "handle_stored_event env tenantId name v21 v response t db st = (Inr (), st')"
    by (auto simp: handleTransactionEvent_def tx_emit_def split: sum.splits prod.splits if_splits)
  obtain r0 where r0: "response = Some r0" using authorize_event_None [OF a] assms(5) by (cases response) auto
  note cost = authorize_event_no_cost [OF a [unfolded r0]]
  from h [unfolded r0] obtain r1 rest where
    "ts_db st' = persist_limit v21 tenantId (ti_transactionId (tv_info v)) name r1 (settled_db tenantId name v db)"
    "ts_log st' = ts_log st @ EventAnswer r1 # rest" "\<forall>r'. EventAnswer r' \<notin> set rest" "xr_totalCost r1 = xr_totalCost r0"
    by (rule authorized_handled)
  then show ?thesis
    using assms(2,3) cost costless_persist [OF rows_satisfy_settled [OF stored_costless [OF s assms(6)]]] by auto
qed

section \<open>EVSEs\<close>

lemma find_update_rows:
  assumes "\<And>x. key (f x) = key x"
  shows "find (\<lambda>x. key x = i) (update_rows P f xs) = map_option (\<lambda>x. if P x then f x else x) (find (\<lambda>x. key x = i) xs)"
  by (induction xs) (auto simp: assms)

lemma find_by_key: "distinct (map key xs) \<Longrightarrow> e \<in> set xs \<Longrightarrow> find (\<lambda>x. key x = key e) xs = Some e"
  by (induction xs) (auto simp: image_iff)

lemma find_in: "find P xs = Some x \<Longrightarrow> x \<in> set xs \<and> P x"
  by (induction xs) (auto split: if_splits)

lemma created_at:
  assumes "createOrUpdateTransactionByTransactionEventAndStationId save tenantId v name db = Inr (t, db')"
    and "readTransactionByStationIdAndTransactionId tenantId name (ti_transactionId (tv_info v)) db = Inr None"
    and "tv_evse v = Some (evse, None)" and "station_of tenantId name db = Some s"
    and "find (\<lambda>e. et_tenantId e = tenantId \<and> et_id e = evse) (db_evse_types db) = Some ty"
    and "find (\<lambda>e. er_stationId e = sn_id s \<and> er_evseTypeId e = Some (int (et_databaseId ty))) (db_evses db) = Some e"
  shows "tx_evseId t = Some (er_id e) \<and>
    (\<exists>P f. db_evses db' = update_rows P f (db_evses db) \<and> (\<forall>x. er_id (f x) = er_id x \<and> er_evseTypeId (f x) = er_evseTypeId x))"
proof -
  from assms(1,2) obtain t1 db1 where
    c: "create_transaction save tenantId name v db = Inr (t1, db1)" and r: "record_event tenantId v t1 db1 = Inr (t, db')"
    by (auto simp: createOrUpdateTransactionByTransactionEventAndStationId_def bind_res_eq_Inr split: prod.splits)
  have "tx_evseId t1 = Some (er_id e) \<and>
    (\<exists>P f. db_evses db1 = update_rows P f (db_evses db) \<and> (\<forall>x. er_id (f x) = er_id x \<and> er_evseTypeId (f x) = er_evseTypeId x))"
    using c assms(3-6)
    by (auto simp: create_transaction_def place_transaction_def readOrCreateOcpp2Evse_def find_or_create_evse_type_def
        upsert_evse_def bind_res_eq_Inr Let_def) (rule exI, rule exI, rule conjI, rule refl, simp)
  then show ?thesis using record_event_row [OF r] by simp
qed

text \<open>The EVSE of an event is stored under the database id of its type and looked up under its number.
  When the two differ, a Started event for an EVSE where a transaction is running leaves both
  transactions active there.\<close>

lemma evse_keeps_two_active:
  assumes "handleTransactionEvent env tenantId name v21 v st = (Inr (), st')" and "last (ts_log st') = EventAnswer r"
    and "tv_eventType v = ''Started''" and "tv_evse v = Some (evse, None)"
    and "readTransactionByStationIdAndTransactionId tenantId name (ti_transactionId (tv_info v)) (ts_db st) = Inr None"
    and "station_of tenantId name (ts_db st) = Some s"
    and "find (\<lambda>e. et_tenantId e = tenantId \<and> et_id e = evse) (db_evse_types (ts_db st)) = Some ty"
    and "int (et_databaseId ty) \<noteq> evse"
    and "find (\<lambda>e. er_stationId e = sn_id s \<and> er_evseTypeId e = Some (int (et_databaseId ty))) (db_evses (ts_db st)) = Some e"
    and "distinct (map er_id (db_evses (ts_db st)))"
    and "u \<in> set (db_transactions (ts_db st))" and "tx_isActive u" and "tx_evseId u = Some (er_id e)"
  shows "\<exists>t u'. {t, u'} \<subseteq> set (db_transactions (ts_db st')) \<and> tx_isActive t \<and> tx_isActive u' \<and>
    tx_evseId t = Some (er_id e) \<and> tx_evseId u' = Some (er_id e) \<and>
    tx_transactionId t = ti_transactionId (tv_info v) \<and> tx_id u' = tx_id u \<and> tx_id t \<noteq> tx_id u'"
proof -
  have started: "already_ended tenantId name v (ts_db st) = Inr False" using assms(3) by (simp add: already_ended_def)
  from assms(1,2) started obtain response t db where
    s: "createOrUpdateTransactionByTransactionEventAndStationId (tn_save env) tenantId v name (ts_db st) = Inr (t, db)"
    and h: "handle_stored_event env tenantId name v21 v response t db st = (Inr (), st')"
    by (rule event_handled)
  from created_at [OF s assms(5,4,6,7,9)] obtain P f where place: "tx_evseId t = Some (er_id e)"
    and evses: "db_evses db = update_rows P f (db_evses (ts_db st))"
      "\<And>x. er_id (f x) = er_id x" "\<And>x. er_evseTypeId (f x) = er_evseTypeId x"
    by blast
  have c: "created_from tenantId name v (ts_db st) t" and rows: "db_transactions db = db_transactions (ts_db st) @ [t]"
    using stored_event_row [OF s] assms(5) by auto
  have "map_option er_evseTypeId (evse_of db (Some (er_id e))) = Some (Some (int (et_databaseId ty)))"
    using find_in [OF assms(9)] find_by_key [OF assms(10), of e] evses by (simp add: evse_of_def find_update_rows)
  then have safe: "\<not> ended_by tenantId name v db x" if "tx_evseId x = Some (er_id e)" for x
    using that assms(4,8) by (auto simp: ended_by_def deactivated_at_def)
  note all = handled_rows [OF h, THEN conjunct1]
  obtain t' where t': "t' \<in> set (db_transactions (ts_db st'))" "kept (ended_by tenantId name v db) t t'"
    using list_all2_in_left [OF all] rows by auto
  obtain u' where u': "u' \<in> set (db_transactions (ts_db st'))" "kept (ended_by tenantId name v db) u u'"
    using list_all2_in_left [OF all] rows assms(11) by auto
  have "tx_id t \<noteq> tx_id u" using c serial_fresh [OF assms(11), of tx_id] by (simp add: created_from_def)
  then show ?thesis
    using t' u' safe place assms(3,12,13) c
    by (intro exI [of _ t'] exI [of _ u']) (auto simp: kept_def created_from_def)
qed

section \<open>Examples of events\<close>

definition demo_event :: "string \<Rightarrow> string \<Rightarrow> tx_event" where
  "demo_event kind transactionId =
     \<lparr> tv_eventType = kind, tv_triggerReason = ''CablePluggedIn'', tv_timestamp = ''t2'',
       tv_info = \<lparr> ti_transactionId = transactionId, ti_chargingState = JUndef, ti_stoppedReason = JUndef,
         ti_remoteStartId = None, ti_transactionLimit = JUndef, ti_tariffId = JUndef \<rparr>,
       tv_evse = Some (1, None), tv_idToken = None, tv_meterValue = None, tv_reservationId = None \<rparr>"

definition demo_ended :: tx_state where
  "demo_ended = demo_running\<lparr> ts_db := (ts_db demo_running)\<lparr> db_transactions := [demo_tx\<lparr> tx_isActive := False \<rparr>] \<rparr> \<rparr>"

lemma ended_transaction_ignored_witness:
  "ts_db (snd (handleTransactionEvent demo_tx_env 1 ''cp1'' False (demo_event ''Updated'' ''7'') demo_ended)) = ts_db demo_ended"
proof -
  have e: "tv_eventType (demo_event ''Updated'' ''7'') \<noteq> ''Started''" by (simp add: demo_event_def)
  have r: "readTransactionByStationIdAndTransactionId 1 ''cp1'' (ti_transactionId (tv_info (demo_event ''Updated'' ''7'')))
      (ts_db demo_ended) = Inr (Some (demo_tx\<lparr> tx_isActive := False \<rparr>))"
    by (simp add: demo_event_def demo_ended_def demo_tx_def readTransactionByStationIdAndTransactionId_def read_only_one_def
        is_transaction_def)
  show ?thesis
    using ended_transaction_ignored [OF e r, of demo_tx_env False] by auto
qed

abbreviation demo_handled :: "bool \<Rightarrow> tx_event \<Rightarrow> tx_state \<Rightarrow> tx_state" where
  "demo_handled v21 v st \<equiv> snd (handleTransactionEvent demo_tx_env 1 ''cp1'' v21 v st)"

lemma demo_handled_ok:
  "fst (handleTransactionEvent demo_tx_env 1 ''cp1'' v21 v st) = Inr () \<Longrightarrow>
     handleTransactionEvent demo_tx_env 1 ''cp1'' v21 v st = (Inr (), demo_handled v21 v st)"
  by (metis prod.collapse)

lemma demo_updated:
  "fst (handleTransactionEvent demo_tx_env 1 ''cp1'' False (demo_event ''Updated'' ''8'') demo_running) = Inr ()"
  "ts_log (demo_handled False (demo_event ''Updated'' ''8'') demo_running) = [EventAnswer empty_response]"
  "already_ended 1 ''cp1'' (demo_event ''Updated'' ''8'') (ts_db demo_running) = Inr False"
  by code_simp+


definition demo_limit_event :: tx_event where
  "demo_limit_event = (demo_event ''Updated'' ''7'')\<lparr> tv_info :=
     (tv_info (demo_event ''Updated'' ''7''))\<lparr> ti_transactionLimit := JObj [(''maxCost'', JNum 5)] \<rparr> \<rparr>"

lemma demo_limit:
  "fst (handleTransactionEvent demo_tx_env 1 ''cp1'' True demo_limit_event demo_running) = Inr ()"
  "ts_log (demo_handled True demo_limit_event demo_running) = [EventAnswer empty_response]"
  "already_ended 1 ''cp1'' demo_limit_event (ts_db demo_running) = Inr False"
  "map tx_transactionId (db_transactions (ts_db (demo_handled True demo_limit_event demo_running))) = [''7'']"
  "list_all (is_transaction 1 ''cp1'' ''7'') (db_transactions (ts_db (demo_handled True demo_limit_event demo_running)))"
  by code_simp+

lemma station_limit_wins_witness:
  "\<exists>t \<in> set (db_transactions (ts_db (demo_handled True demo_limit_event demo_running))).
     tx_transactionLimit t = JObj [(''maxCost'', JNum 5)]"
proof -
  obtain t where t: "t \<in> set (db_transactions (ts_db (demo_handled True demo_limit_event demo_running)))"
    using demo_limit(4) by (cases "db_transactions (ts_db (demo_handled True demo_limit_event demo_running))") auto
  have l: "last (ts_log (demo_handled True demo_limit_event demo_running)) = EventAnswer empty_response"
    by (simp add: demo_limit(2))
  have v: "event_token demo_limit_event = None" "truthy (ti_transactionLimit (tv_info demo_limit_event))"
    "tv_triggerReason demo_limit_event \<noteq> ''LimitSet''" "ti_transactionId (tv_info demo_limit_event) = ''7''"
    "ti_transactionLimit (tv_info demo_limit_event) = JObj [(''maxCost'', JNum 5)]"
    by (simp_all add: demo_limit_event_def demo_event_def event_token_def)
  have "is_transaction 1 ''cp1'' (ti_transactionId (tv_info demo_limit_event)) t"
    using demo_limit(5) t by (simp add: v(4) list_all_iff)
  then have "tx_transactionLimit t = JObj [(''maxCost'', JNum 5)]"
    using station_limit_wins [OF demo_handled_ok [OF demo_limit(1)] l demo_limit(3) v(1-3) t] v(5) by simp
  then show ?thesis using t by blast
qed

definition demo_token_event :: tx_event where
  "demo_token_event = (demo_event ''Ended'' ''7'')\<lparr> tv_idToken := Some (''AB12'', ''Central'') \<rparr>"

lemma demo_token:
  "fst (handleTransactionEvent demo_tx_env 1 ''cp1'' False demo_token_event demo_running) = Inr ()"
  "already_ended 1 ''cp1'' demo_token_event (ts_db demo_running) = Inr False"
  "case ts_log (demo_handled False demo_token_event demo_running) of [EventAnswer r] \<Rightarrow> True | _ \<Rightarrow> False"
  by code_simp+

lemma ended_with_token_no_cost_witness:
  "\<exists>r. ts_log (demo_handled False demo_token_event demo_running) = [EventAnswer r] \<and> xr_totalCost r = None"
proof -
  obtain r where r: "ts_log (demo_handled False demo_token_event demo_running) = [EventAnswer r]"
    using demo_token(3) by (auto split: list.splits tx_effect.splits)
  then have i: "EventAnswer r \<in> set (ts_log (demo_handled False demo_token_event demo_running))" by simp
  have tok: "event_token demo_token_event \<noteq> None"
    by (simp add: demo_token_event_def event_token_def)
  have "costless 1 ''cp1'' (ti_transactionId (tv_info demo_token_event)) (ts_db demo_running)"
    by (simp add: rows_satisfy_def demo_running_def demo_tx_db_def demo_tx_def)
  then have "xr_totalCost r = None"
    using ended_with_token_no_cost [OF demo_handled_ok [OF demo_token(1)] i demo_running_log demo_token(2) tok] by simp
  with r show ?thesis by blast
qed

text \<open>EVSE 1 is the third EVSE type of the tenants of the system.\<close>

definition demo_typed :: tx_state where
  "demo_typed = demo_running\<lparr> ts_db := (ts_db demo_running)
     \<lparr> db_evse_types := [\<lparr> et_databaseId = 3, et_tenantId = 1, et_id = 1 \<rparr>],
       db_evses := [\<lparr> er_id = 1, er_tenantId = 1, er_stationId = 1, er_name = ''cp1'', er_evseTypeId = Some 3, er_evseId = ''1'' \<rparr>],
       db_stations := [\<lparr> sn_id = 1, sn_tenantId = 1, sn_name = ''cp1'' \<rparr>] \<rparr> \<rparr>"

lemma demo_typed_run:
  "fst (handleTransactionEvent demo_tx_env 1 ''cp1'' False (demo_event ''Started'' ''8'') demo_typed) = Inr ()"
  "ts_log (demo_handled False (demo_event ''Started'' ''8'') demo_typed) = [EventAnswer empty_response]"
  by code_simp+

lemma evse_keeps_two_active_witness:
  "\<exists>t u'. {t, u'} \<subseteq> set (db_transactions (ts_db (demo_handled False (demo_event ''Started'' ''8'') demo_typed))) \<and>
     tx_isActive t \<and> tx_isActive u' \<and> tx_evseId t = tx_evseId u' \<and> tx_id t \<noteq> tx_id u'"
proof -
  have l: "last (ts_log (demo_handled False (demo_event ''Started'' ''8'') demo_typed)) = EventAnswer empty_response"
    by (simp add: demo_typed_run(2))
  have v: "tv_eventType (demo_event ''Started'' ''8'') = ''Started''" "tv_evse (demo_event ''Started'' ''8'') = Some (1, None)"
    by (simp_all add: demo_event_def)
  have none: "readTransactionByStationIdAndTransactionId 1 ''cp1'' (ti_transactionId (tv_info (demo_event ''Started'' ''8'')))
      (ts_db demo_typed) = Inr None"
    and db: "station_of 1 ''cp1'' (ts_db demo_typed) = Some \<lparr> sn_id = 1, sn_tenantId = 1, sn_name = ''cp1'' \<rparr>"
    "find (\<lambda>e. et_tenantId e = 1 \<and> et_id e = 1) (db_evse_types (ts_db demo_typed))
      = Some \<lparr> et_databaseId = 3, et_tenantId = 1, et_id = 1 \<rparr>"
    by code_simp+
  let ?e = "\<lparr> er_id = 1, er_tenantId = 1, er_stationId = 1, er_name = ''cp1'', er_evseTypeId = Some 3, er_evseId = ''1'' \<rparr>"
  show ?thesis
    using evse_keeps_two_active [OF demo_handled_ok [OF demo_typed_run(1)] l v none db, of ?e demo_tx]
    by (fastforce simp: demo_typed_def demo_running_def demo_tx_db_def demo_tx_def)
qed

end
