(* ===== verification/Regex.thy ===== *)
theory Regex
  imports Prelude
begin

text \<open>
  Regular expressions as the validators use them: character classes, sequence, alternatives and
  repetition, without look-around, back references or captures, so that a test depends only
  on the language. An expression anchored at both ends is tested with derivatives; the
  language is given by an inductive relation, and both agree. The alphabet is a parameter:
  characters, or UTF-16 code units.
\<close>

section \<open>Expressions and their language\<close>

datatype 'a rx =
    Never
  | Eps
  | Cls "'a \<Rightarrow> bool"
  | Seq "'a rx" "'a rx"
  | Alt "'a rx" "'a rx"
  | Star "'a rx"

inductive rx_matches :: "'a rx \<Rightarrow> 'a list \<Rightarrow> bool" where
  matches_Eps: "rx_matches Eps []"
| matches_Cls: "P c \<Longrightarrow> rx_matches (Cls P) [c]"
| matches_Seq: "rx_matches r u \<Longrightarrow> rx_matches s v \<Longrightarrow> rx_matches (Seq r s) (u @ v)"
| matches_Alt1: "rx_matches r u \<Longrightarrow> rx_matches (Alt r s) u"
| matches_Alt2: "rx_matches s u \<Longrightarrow> rx_matches (Alt r s) u"
| matches_Star_Nil: "rx_matches (Star r) []"
| matches_Star: "rx_matches r u \<Longrightarrow> rx_matches (Star r) v \<Longrightarrow> rx_matches (Star r) (u @ v)"

inductive_cases matches_NeverE: "rx_matches Never u"
inductive_cases matches_EpsE: "rx_matches Eps u"
inductive_cases matches_ClsE: "rx_matches (Cls P) u"
inductive_cases matches_SeqE: "rx_matches (Seq r s) u"
inductive_cases matches_AltE: "rx_matches (Alt r s) u"

lemma matches_simps [simp]:
  "\<not> rx_matches Never u"
  "rx_matches Eps u \<longleftrightarrow> u = []"
  "rx_matches (Cls P) u \<longleftrightarrow> (\<exists>c. u = [c] \<and> P c)"
  "rx_matches (Alt r s) u \<longleftrightarrow> rx_matches r u \<or> rx_matches s u"
  by (auto intro: rx_matches.intros elim: matches_NeverE matches_EpsE matches_ClsE matches_AltE)

lemma matches_Seq_iff: "rx_matches (Seq r s) u \<longleftrightarrow> (\<exists>v w. u = v @ w \<and> rx_matches r v \<and> rx_matches s w)"
  by (blast intro: matches_Seq elim: matches_SeqE)

section \<open>Derivatives\<close>

primrec nullable :: "'a rx \<Rightarrow> bool" where
  "nullable Never = False"
| "nullable Eps = True"
| "nullable (Cls P) = False"
| "nullable (Seq r s) = (nullable r \<and> nullable s)"
| "nullable (Alt r s) = (nullable r \<or> nullable s)"
| "nullable (Star r) = True"

fun rx_seq :: "'a rx \<Rightarrow> 'a rx \<Rightarrow> 'a rx" where
  "rx_seq Never s = Never"
| "rx_seq Eps s = s"
| "rx_seq r s = Seq r s"

fun rx_alt :: "'a rx \<Rightarrow> 'a rx \<Rightarrow> 'a rx" where
  "rx_alt Never s = s"
| "rx_alt r Never = r"
| "rx_alt r s = Alt r s"

primrec deriv :: "'a \<Rightarrow> 'a rx \<Rightarrow> 'a rx" where
  "deriv c Never = Never"
| "deriv c Eps = Never"
| "deriv c (Cls P) = (if P c then Eps else Never)"
| "deriv c (Seq r s) =
     (if nullable r then rx_alt (rx_seq (deriv c r) s) (deriv c s) else rx_seq (deriv c r) s)"
| "deriv c (Alt r s) = rx_alt (deriv c r) (deriv c s)"
| "deriv c (Star r) = rx_seq (deriv c r) (Star r)"

primrec rx_test :: "'a rx \<Rightarrow> 'a list \<Rightarrow> bool" where
  "rx_test r [] = nullable r"
| "rx_test r (c # cs) = rx_test (deriv c r) cs"

lemma nullable_iff: "nullable r \<longleftrightarrow> rx_matches r []"
  by (induction r) (auto simp: matches_Seq_iff intro: matches_Star_Nil)

lemma rx_seq_matches [simp]: "rx_matches (rx_seq r s) u \<longleftrightarrow> rx_matches (Seq r s) u"
  by (cases "(r, s)" rule: rx_seq.cases) (auto simp: matches_Seq_iff)

lemma rx_alt_matches [simp]: "rx_matches (rx_alt r s) u \<longleftrightarrow> rx_matches (Alt r s) u"
  by (cases "(r, s)" rule: rx_alt.cases) auto

text \<open>A word of an iteration starts with a nonempty word of the iterated expression.\<close>

lemma star_split:
  assumes "rx_matches (Star r) (c # u)"
  obtains v w where "u = v @ w" and "rx_matches r (c # v)" and "rx_matches (Star r) w"
proof -
  have "rx_matches q x \<Longrightarrow> q = Star r \<Longrightarrow> x = c # u \<Longrightarrow>
      \<exists>v w. u = v @ w \<and> rx_matches r (c # v) \<and> rx_matches (Star r) w" for q x
    by (induction arbitrary: u rule: rx_matches.induct) (auto simp: append_eq_Cons_conv)
  with assms that show thesis by blast
qed

lemma deriv_iff: "rx_matches (deriv c r) u \<longleftrightarrow> rx_matches r (c # u)"
proof (induction r arbitrary: u)
  case (Seq r s)
  then show ?case
    by (auto simp: matches_Seq_iff nullable_iff Cons_eq_append_conv)
next
  case (Star r)
  show ?case
  proof
    assume "rx_matches (deriv c (Star r)) u"
    then obtain v w where "u = v @ w" "rx_matches r (c # v)" "rx_matches (Star r) w"
      using Star by (auto simp: matches_Seq_iff)
    then show "rx_matches (Star r) (c # u)" using matches_Star [of r "c # v" w] by simp
  next
    assume "rx_matches (Star r) (c # u)"
    then obtain v w where "u = v @ w" "rx_matches r (c # v)" "rx_matches (Star r) w" by (rule star_split)
    then show "rx_matches (deriv c (Star r)) u" using Star by (auto simp: matches_Seq_iff)
  qed
qed auto

lemma rx_test_iff: "rx_test r u \<longleftrightarrow> rx_matches r u"
  by (induction u arbitrary: r) (simp_all add: nullable_iff deriv_iff)

section \<open>Abbreviated expressions\<close>

definition rx_opt :: "'a rx \<Rightarrow> 'a rx" where
  "rx_opt r = Alt r Eps"

definition rx_plus :: "'a rx \<Rightarrow> 'a rx" where
  "rx_plus r = Seq r (Star r)"

definition rx_char :: "'a \<Rightarrow> 'a rx" where
  "rx_char c = Cls (\<lambda>d. d = c)"

definition rx_lit :: "'a list \<Rightarrow> 'a rx" where
  "rx_lit s = foldr (\<lambda>c r. Seq (rx_char c) r) s Eps"

definition rx_seqs :: "'a rx list \<Rightarrow> 'a rx" where
  "rx_seqs rs = foldr Seq rs Eps"

definition rx_alts :: "'a rx list \<Rightarrow> 'a rx" where
  "rx_alts rs = foldr Alt rs Never"

text \<open>r{n} and r{m,n}.\<close>

definition rx_times :: "nat \<Rightarrow> 'a rx \<Rightarrow> 'a rx" where
  "rx_times n r = rx_seqs (replicate n r)"

definition rx_between :: "nat \<Rightarrow> nat \<Rightarrow> 'a rx \<Rightarrow> 'a rx" where
  "rx_between m n r = Seq (rx_times m r) (rx_times (n - m) (rx_opt r))"

lemma rx_lit_matches [simp]: "rx_matches (rx_lit s) u \<longleftrightarrow> u = s"
  by (induction s arbitrary: u) (auto simp: rx_lit_def rx_char_def matches_Seq_iff)

lemma rx_alts_matches [simp]: "rx_matches (rx_alts rs) u \<longleftrightarrow> (\<exists>r \<in> set rs. rx_matches r u)"
  by (induction rs) (auto simp: rx_alts_def)

lemma rx_seqs_matches [simp]:
  "rx_matches (rx_seqs []) u \<longleftrightarrow> u = []"
  "rx_matches (rx_seqs (r # rs)) u \<longleftrightarrow> (\<exists>v w. u = v @ w \<and> rx_matches r v \<and> rx_matches (rx_seqs rs) w)"
  by (simp_all add: rx_seqs_def matches_Seq_iff)

lemma rx_char_matches [simp]: "rx_matches (rx_char c) u \<longleftrightarrow> u = [c]"
  by (auto simp: rx_char_def)

lemma matches_Cls_Seq: "rx_matches (Seq (Cls P) r) u \<longleftrightarrow> (\<exists>c v. u = c # v \<and> P c \<and> rx_matches r v)"
proof (cases u)
  case (Cons c v)
  then show ?thesis by (simp add: deriv_iff [symmetric] matches_Seq_iff)
qed (simp add: nullable_iff [symmetric])

lemma matches_Seq_Alt: "rx_matches (Seq (Alt r s) q) u \<longleftrightarrow> rx_matches (Seq r q) u \<or> rx_matches (Seq s q) u"
  by (auto simp: matches_Seq_iff)

lemma matches_Seq_assoc: "rx_matches (Seq (Seq r s) q) u \<longleftrightarrow> rx_matches (Seq r (Seq s q)) u"
  by (simp add: matches_Seq_iff) (metis append.assoc)

lemma seqs_Cls: "rx_matches (rx_seqs (Cls P # rs)) u \<longleftrightarrow> (\<exists>c v. u = c # v \<and> P c \<and> rx_matches (rx_seqs rs) v)"
  by (simp add: rx_seqs_def matches_Cls_Seq)

lemma rx_times_Cls [simp]: "rx_matches (rx_times n (Cls P)) u \<longleftrightarrow> length u = n \<and> list_all P u"
proof (induction n arbitrary: u)
  case (Suc n)
  then have "rx_matches (rx_seqs (Cls P # replicate n (Cls P))) u \<longleftrightarrow>
      (\<exists>c v. u = c # v \<and> P c \<and> length v = n \<and> list_all P v)"
    by (simp only: seqs_Cls rx_times_def)
  then show ?case by (cases u) (auto simp: rx_times_def simp del: rx_seqs_matches)
qed (auto simp: rx_times_def)

lemma star_Cls [simp]: "rx_matches (Star (Cls P)) u \<longleftrightarrow> list_all P u"
proof (induction u)
  case (Cons c u)
  then show ?case
    by (auto simp: deriv_iff [symmetric] matches_Seq_iff)
qed (simp add: matches_Star_Nil)

lemma rx_plus_Cls [simp]: "rx_matches (rx_plus (Cls P)) u \<longleftrightarrow> u \<noteq> [] \<and> list_all P u"
  by (cases u) (simp_all add: rx_plus_def matches_Cls_Seq)

end
