(* ===== verification/Contents.thy ===== *)
theory Contents
  imports Regex IdTokens "HOL-Library.Word"
begin

text \<open>
  The validators of texts in packages/core/src/util/util/validator.ts: language tags, message
  contents in the four formats, times of day and the conditions of a tariff, certificate
  signing requests. Contents of messages are lists of UTF-16 code units, other texts are
  strings. Whether the URL constructor accepts a text is a parameter. A ValidationResult is
  its error message, None when isValid is true.
\<close>

section \<open>Language tags\<close>

definition alpha :: "char rx" where
  "alpha = Cls (\<lambda>c. is_upper_char c \<or> is_lower_char c)"

definition digit :: "char rx" where
  "digit = Cls is_digit_char"

definition alnum :: "char rx" where
  "alnum = Cls (\<lambda>c. is_upper_char c \<or> is_lower_char c \<or> is_digit_char c)"

definition dashed :: "char rx \<Rightarrow> char rx" where
  "dashed r = Seq (rx_char CHR ''-'') r"

definition grandfathered_tags :: "string list" where
  "grandfathered_tags =
     [''en-GB-oed'', ''i-ami'', ''i-bnn'', ''i-default'', ''i-enochian'', ''i-hak'', ''i-klingon'', ''i-lux'',
      ''i-mingo'', ''i-navajo'', ''i-pwn'', ''i-tao'', ''i-tay'', ''i-tsu'', ''sgn-BE-FR'', ''sgn-BE-NL'', ''sgn-CH-DE'',
      ''art-lojban'', ''cel-gaulish'', ''no-bok'', ''no-nyn'', ''zh-guoyu'', ''zh-hakka'', ''zh-min'', ''zh-min-nan'', ''zh-xiang'']"

definition language_rx :: "char rx" where
  "language_rx =
     rx_alts
       [Seq (rx_between 2 3 alpha) (rx_opt (dashed (Seq (rx_times 3 alpha) (rx_between 0 2 (dashed (rx_times 3 alpha)))))),
        rx_times 4 alpha, rx_between 5 8 alpha]"

definition private_rx :: "char rx" where
  "private_rx = Seq (rx_char CHR ''x'') (rx_plus (dashed (rx_between 1 8 alnum)))"

definition langtag_rx :: "char rx" where
  "langtag_rx =
     rx_seqs
       [language_rx,
        rx_opt (dashed (rx_times 4 alpha)),
        rx_opt (dashed (Alt (rx_times 2 alpha) (rx_times 3 digit))),
        Star (dashed (Alt (rx_between 5 8 alnum) (Seq digit (rx_times 3 alnum)))),
        Star (dashed (Seq
          (Cls (\<lambda>c. is_digit_char c \<or> (is_upper_char c \<and> c \<noteq> CHR ''X'') \<or> (is_lower_char c \<and> c \<noteq> CHR ''x'')))
          (rx_plus (dashed (rx_between 2 8 alnum))))),
        rx_opt (dashed private_rx)]"

definition language_tag_rx :: "char rx" where
  "language_tag_rx = rx_alts (map rx_lit grandfathered_tags @ [langtag_rx, private_rx])"

definition validateLanguageTag :: "string \<Rightarrow> bool" where
  "validateLanguageTag languageTag = (trim_str languageTag \<noteq> [] \<and> rx_test language_tag_rx languageTag)"

section \<open>Contents\<close>

type_synonym utf16 = "16 word list"

definition cu :: "char \<Rightarrow> 16 word" where
  "cu c = of_nat (of_char c)"

definition cu_upper :: "16 word \<Rightarrow> bool" where
  "cu_upper w = (0x41 \<le> w \<and> w \<le> 0x5A)"

definition cu_lower :: "16 word \<Rightarrow> bool" where
  "cu_lower w = (0x61 \<le> w \<and> w \<le> 0x7A)"

definition cu_digit :: "16 word \<Rightarrow> bool" where
  "cu_digit w = (0x30 \<le> w \<and> w \<le> 0x39)"

definition cu_letter :: "16 word \<Rightarrow> bool" where
  "cu_letter w = (cu_upper w \<or> cu_lower w)"

definition cu_alnum :: "16 word \<Rightarrow> bool" where
  "cu_alnum w = (cu_letter w \<or> cu_digit w)"

definition validateASCIIContent :: "utf16 \<Rightarrow> bool" where
  "validateASCIIContent content = (content = [] \<or> list_all (\<lambda>w. 0x20 \<le> w \<and> w \<le> 0x7E) content)"

text \<open>The tags of a text; a tag is standing alone when it ends with a slash or its element is void.\<close>

datatype html_tag =
    Opening utf16
  | Closing utf16
  | Standalone

definition voidElements :: "string list" where
  "voidElements =
     [''area'', ''base'', ''br'', ''col'', ''embed'', ''hr'', ''img'', ''input'', ''link'', ''meta'', ''param'',
      ''source'', ''track'', ''wbr'']"

text \<open>A match of tagPattern at the start of a text: the name, the tag, and the rest of the text.\<close>

definition match_tag :: "utf16 \<Rightarrow> (utf16 \<times> utf16 \<times> utf16) option" where
  "match_tag s =
     (case s of
        [] \<Rightarrow> None
      | c # s1 \<Rightarrow>
          let s2 = (case s1 of d # s' \<Rightarrow> if d = cu CHR ''/'' then s' else s1 | [] \<Rightarrow> s1);
              name = takeWhile cu_alnum s2; s3 = dropWhile cu_alnum s2
          in if c \<noteq> cu CHR ''<'' \<or> name = [] \<or> \<not> cu_letter (hd name)
                \<or> (case s3 of w # _ \<Rightarrow> w = cu CHR ''_'' | [] \<Rightarrow> False) then None
             else (case dropWhile (\<lambda>w. w \<noteq> cu CHR ''>'') s3 of
                     [] \<Rightarrow> None
                   | g # rest \<Rightarrow> Some (name, take (length s - length rest) s, rest)))"

definition to_lower_units :: "utf16 \<Rightarrow> utf16" where
  "to_lower_units s = map (\<lambda>w. if cu_upper w then w + 32 else w) s"

definition ends_with :: "'a list \<Rightarrow> 'a list \<Rightarrow> bool" where
  "ends_with t s = (take (length t) (rev s) = rev t)"

definition classify_tag :: "utf16 \<Rightarrow> utf16 \<Rightarrow> html_tag" where
  "classify_tag name tag =
     (let tagName = to_lower_units name
      in if ends_with (map cu ''/>'') tag \<or> tagName \<in> set (map (map cu) voidElements) then Standalone
         else if take 2 tag = map cu ''</'' then Closing tagName else Opening tagName)"

lemma match_tag_shorter: "match_tag s = Some (name, tag, rest) \<Longrightarrow> length rest < length s"
proof -
  assume m: "match_tag s = Some (name, tag, rest)"
  then obtain c s1 where s: "s = c # s1" by (cases s) (auto simp: match_tag_def)
  define s2 where "s2 = (case s1 of d # s' \<Rightarrow> if d = cu CHR ''/'' then s' else s1 | [] \<Rightarrow> s1)"
  have "length s2 \<le> length s1" by (auto simp: s2_def split: list.split)
  moreover obtain g where "dropWhile (\<lambda>w. w \<noteq> cu CHR ''>'') (dropWhile cu_alnum s2) = g # rest"
    using m by (auto simp: match_tag_def s s2_def [symmetric] Let_def split: if_splits list.splits)
  then have "Suc (length rest) \<le> length (dropWhile cu_alnum s2)"
    by (metis length_Cons length_dropWhile_le)
  moreover have "length (dropWhile cu_alnum s2) \<le> length s2" by (rule length_dropWhile_le)
  ultimately show ?thesis using s by simp
qed

function html_tags :: "utf16 \<Rightarrow> html_tag list" where
  "html_tags s =
     (case s of
        [] \<Rightarrow> []
      | c # cs \<Rightarrow>
          (case match_tag s of
             None \<Rightarrow> html_tags cs
           | Some (name, tag, rest) \<Rightarrow> classify_tag name tag # html_tags rest))"
  by pat_completeness auto
termination by (relation "measure length") (auto dest: match_tag_shorter)

declare html_tags.simps [simp del]

text \<open>The loop over the tags with the stack of open elements.\<close>

fun check_tags :: "html_tag list \<Rightarrow> utf16 list \<Rightarrow> bool" where
  "check_tags [] tags = (tags = [])"
| "check_tags (Standalone # ts) tags = check_tags ts tags"
| "check_tags (Opening n # ts) tags = check_tags ts (n # tags)"
| "check_tags (Closing n # ts) (m # tags) = (m = n \<and> check_tags ts tags)"
| "check_tags (Closing n # ts) [] = False"

definition validateHTMLContent :: "utf16 \<Rightarrow> bool" where
  "validateHTMLContent content =
     (content = [] \<or> (html_tags content \<noteq> [] \<and> check_tags (html_tags content) []))"

definition scheme_rx :: "16 word rx" where
  "scheme_rx = rx_seqs [Cls cu_letter, Star (Cls (\<lambda>w. cu_alnum w \<or> w \<in> set (map cu ''+.-''))), rx_char (cu CHR '':'')]"

definition uri_chars :: "16 word \<Rightarrow> bool" where
  "uri_chars w = (cu_alnum w \<or> w \<in> set (map cu ''._~:/?#[]@!$&()*+,;=-'') \<or> w = 0x27)"

text \<open>The three alternatives of uriPattern: a scheme or a slash at the start, or permitted characters only.\<close>

definition uri_rx :: "16 word rx" where
  "uri_rx = rx_alts [Seq scheme_rx (Star (Cls (\<lambda>_. True))), Seq (rx_char (cu CHR ''/'')) (Star (Cls (\<lambda>_. True))),
     rx_plus (Cls uri_chars)]"

definition validateURIContent :: "(utf16 \<Rightarrow> bool) \<Rightarrow> utf16 \<Rightarrow> bool" where
  "validateURIContent url_ok content = (content \<noteq> [] \<and> (url_ok content \<or> rx_test uri_rx content))"

fun validateUTF8Content :: "utf16 \<Rightarrow> bool" where
  "validateUTF8Content [] = True"
| "validateUTF8Content (c # cs) =
     (if 0xD800 \<le> c \<and> c \<le> 0xDBFF
      then (case cs of
              [] \<Rightarrow> False
            | d # ds \<Rightarrow> if d < 0xDC00 \<or> 0xDFFF < d then False else validateUTF8Content ds)
      else if 0xDC00 \<le> c \<and> c \<le> 0xDFFF then False
      else validateUTF8Content cs)"

definition validateMessageContent :: "(utf16 \<Rightarrow> bool) \<Rightarrow> string \<Rightarrow> utf16 \<Rightarrow> string option" where
  "validateMessageContent url_ok format content =
     (if format = ''ASCII''
      then (if validateASCIIContent content then None
            else Some ''ASCII format requires content to contain only printable ASCII characters (space through tilde)'')
      else if format = ''HTML''
      then (if validateHTMLContent content then None
            else Some ''HTML format requires properly matched opening and closing tags'')
      else if format = ''URI''
      then (if validateURIContent url_ok content then None
            else Some ''URI format requires a valid URI that the Charging Station can download'')
      else if format = ''UTF8''
      then (if validateUTF8Content content then None
            else Some ''UTF8 format requires valid UTF-8 encoded content without unpaired surrogate characters'')
      else Some (''Unknown message format: '' @ format))"

definition quote_char :: string where
  "quote_char = [CHR 0x22]"

definition validateMessageContentType ::
  "(utf16 \<Rightarrow> bool) \<Rightarrow> string option \<Rightarrow> string \<Rightarrow> utf16 \<Rightarrow> string option" where
  "validateMessageContentType url_ok language format content =
     (case language of
        Some tag \<Rightarrow>
          if validateLanguageTag tag then validateMessageContent url_ok format content
          else Some (''Invalid language tag: '' @ tag @ ''. Must be an RFC-5646 language tag (e.g., '' @ quote_char
                 @ ''en-US'' @ quote_char @ '')'')
      | None \<Rightarrow> validateMessageContent url_ok format content)"

section \<open>Times of day and tariffs\<close>

text \<open>The expression ([0-1][0-9]|2[0-3]):[0-5][0-9].\<close>

definition char_between :: "char \<Rightarrow> char \<Rightarrow> char rx" where
  "char_between a b = Cls (\<lambda>c. char_code a \<le> char_code c \<and> char_code c \<le> char_code b)"

definition time_rx :: "char rx" where
  "time_rx = rx_seqs
     [Alt (Seq (char_between CHR ''0'' CHR ''1'') (char_between CHR ''0'' CHR ''9''))
          (Seq (rx_char CHR ''2'') (char_between CHR ''0'' CHR ''3'')),
      rx_char CHR '':'', char_between CHR ''0'' CHR ''5'', char_between CHR ''0'' CHR ''9'']"

definition validateTimeOfDay :: "string \<Rightarrow> bool" where
  "validateTimeOfDay time = rx_test time_rx time"

record tariff_conditions =
  tc_startTimeOfDay :: "string option"
  tc_endTimeOfDay :: "string option"

type_synonym price_conditions = "tariff_conditions option list"

record tariff_type =
  tt_energy :: "price_conditions option"
  tt_chargingTime :: "price_conditions option"
  tt_idleTime :: "price_conditions option"
  tt_reservationTime :: "price_conditions option"
  tt_fixedFee :: "price_conditions option"
  tt_reservationFixed :: "price_conditions option"

definition all_conditions :: "tariff_type \<Rightarrow> price_conditions" where
  "all_conditions t =
     concat (map (\<lambda>p. case p of None \<Rightarrow> [] | Some cs \<Rightarrow> cs)
       [tt_energy t, tt_chargingTime t, tt_idleTime t, tt_reservationTime t, tt_fixedFee t, tt_reservationFixed t])"

definition time_error :: "string \<Rightarrow> string \<Rightarrow> string \<Rightarrow> string" where
  "time_error field time sample =
     ''Invalid '' @ field @ '' '' @ quote_char @ time @ quote_char @ '': must be in '' @ quote_char @ ''hh:mm'' @ quote_char
     @ '' format (RFC 3339 time-hour '' @ quote_char @ '':'' @ quote_char @ '' time-minute, e.g. '' @ quote_char @ sample
     @ quote_char @ '')''"

definition bad_time :: "string option \<Rightarrow> string option" where
  "bad_time time = (case time of None \<Rightarrow> None | Some s \<Rightarrow> if validateTimeOfDay s then None else Some s)"

fun check_conditions :: "price_conditions \<Rightarrow> string option" where
  "check_conditions [] = None"
| "check_conditions (None # cs) = check_conditions cs"
| "check_conditions (Some c # cs) =
     (case bad_time (tc_startTimeOfDay c) of
        Some s \<Rightarrow> Some (time_error ''startTimeOfDay'' s ''08:30'')
      | None \<Rightarrow>
          (case bad_time (tc_endTimeOfDay c) of
             Some s \<Rightarrow> Some (time_error ''endTimeOfDay'' s ''20:00'')
           | None \<Rightarrow> check_conditions cs))"

definition validateTariffConditionsTimeFields :: "tariff_type \<Rightarrow> string option" where
  "validateTariffConditionsTimeFields tariff = check_conditions (all_conditions tariff)"

section \<open>Certificate signing requests\<close>

text \<open>indexOf of a substring.\<close>

fun find_substring :: "string \<Rightarrow> string \<Rightarrow> nat option" where
  "find_substring t [] = (if t = [] then Some 0 else None)"
| "find_substring t (c # s) =
     (if take (length t) (c # s) = t then Some 0 else map_option Suc (find_substring t s))"

definition csr_begin :: string where
  "csr_begin = ''-----BEGIN CERTIFICATE REQUEST-----''"

definition csr_end :: string where
  "csr_end = ''-----END CERTIFICATE REQUEST-----''"

definition base64_char :: "char \<Rightarrow> bool" where
  "base64_char c = (is_upper_char c \<or> is_lower_char c \<or> is_digit_char c \<or> c \<in> set ''+/='')"

definition validatePEMEncodedCSR :: "string \<Rightarrow> string option" where
  "validatePEMEncodedCSR csr =
     (let trimmedCSR = trim_str csr in
      if trimmedCSR = [] then Some ''CSR cannot be empty''
      else case find_substring csr_begin trimmedCSR of
             None \<Rightarrow> Some ''CSR must contain BEGIN CERTIFICATE REQUEST header''
           | Some i \<Rightarrow>
               (case find_substring csr_end trimmedCSR of
                  None \<Rightarrow> Some ''CSR must contain END CERTIFICATE REQUEST header''
                | Some endIndex \<Rightarrow>
                    let beginIndex = i + length csr_begin;
                        content = trim_str (substring trimmedCSR beginIndex endIndex)
                    in if beginIndex \<ge> endIndex then Some ''CSR headers are in wrong order''
                       else if filter (\<lambda>c. \<not> is_space c) content = [] then Some ''CSR content is empty''
                       else if content \<noteq> [] \<and> list_all (\<lambda>c. base64_char c \<or> is_space c) content then None
                       else Some ''CSR content contains invalid characters for base64 encoding''))"

section \<open>Language tags are the words of the expression\<close>

lemma trim_not_blank: "c \<in> set s \<Longrightarrow> \<not> is_space c \<Longrightarrow> trim_str s \<noteq> []"
proof -
  assume c: "c \<in> set s" "\<not> is_space c"
  then have "c \<in> set (dropWhile is_space s)"
    by (metis Un_iff set_append set_takeWhileD takeWhile_dropWhile_id)
  then show "trim_str s \<noteq> []" using c(2) by (auto simp: trim_str_def)
qed

section \<open>Balanced tags\<close>

inductive balanced :: "html_tag list \<Rightarrow> bool" where
  balanced_Nil: "balanced []"
| balanced_Standalone: "balanced ts \<Longrightarrow> balanced (Standalone # ts)"
| balanced_Element: "balanced ts \<Longrightarrow> balanced us \<Longrightarrow> balanced (Opening n # ts @ Closing n # us)"

lemma check_balanced: "balanced ts \<Longrightarrow> check_tags (ts @ us) tags = check_tags us tags"
  by (induction arbitrary: us tags rule: balanced.induct) simp_all

text \<open>Tags that close a stack of open elements.\<close>

fun closes :: "utf16 list \<Rightarrow> html_tag list \<Rightarrow> bool" where
  "closes [] ts = balanced ts"
| "closes (n # tags) ts = (\<exists>us vs. ts = us @ Closing n # vs \<and> balanced us \<and> closes tags vs)"

lemma balanced_append: "balanced us \<Longrightarrow> balanced vs \<Longrightarrow> balanced (us @ vs)"
  by (induction rule: balanced.induct) (auto intro: balanced.intros)

lemma closes_append:
  assumes "balanced us" and "closes tags ts"
  shows "closes tags (us @ ts)"
proof (cases tags)
  case Nil
  then show ?thesis using assms by (simp add: balanced_append)
next
  case (Cons n tags')
  then obtain xs vs where "ts = xs @ Closing n # vs" "balanced xs" "closes tags' vs" using assms(2) by auto
  then have "us @ ts = (us @ xs) @ Closing n # vs" "balanced (us @ xs)" "closes tags' vs"
    using balanced_append [OF assms(1)] by simp_all
  then show ?thesis unfolding Cons closes.simps by blast
qed

lemma balanced_element: "balanced ts \<Longrightarrow> balanced (Opening n # ts @ [Closing n])"
  using balanced_Element [OF _ balanced_Nil] by simp

lemma check_closes: "check_tags ts tags \<Longrightarrow> closes tags ts"
proof (induction ts tags rule: check_tags.induct)
  case (1 tags)
  then show ?case by (simp add: balanced_Nil)
next
  case (2 ts tags)
  then show ?case
    using closes_append [OF balanced_Standalone [OF balanced_Nil], of tags ts] by simp
next
  case (3 n ts tags)
  then obtain us vs where *: "ts = us @ Closing n # vs" "balanced us" "closes tags vs" by auto
  show ?case
    using closes_append [OF balanced_element [OF *(2)] *(3), of n] *(1) by simp
next
  case (4 n ts m tags)
  then have "Closing n # ts = [] @ Closing m # ts" "closes tags ts" by auto
  then show ?case unfolding closes.simps using balanced_Nil by blast
qed simp

text \<open>A content of the format HTML is accepted exactly when it is empty, or has tags and these are
  balanced: every element that is opened is closed, and elements are nested.\<close>

lemma html_content_iff:
  "validateHTMLContent content \<longleftrightarrow> content = [] \<or> (html_tags content \<noteq> [] \<and> balanced (html_tags content))"
  using check_closes [of "html_tags content" "[]"] check_balanced [of "html_tags content" "[]" "[]"]
  by (auto simp: validateHTMLContent_def)

section \<open>UTF-16\<close>

definition scalar_value :: "nat \<Rightarrow> bool" where
  "scalar_value n = (n < 0xD800 \<or> (0xE000 \<le> n \<and> n < 0x110000))"

definition utf16_units :: "nat \<Rightarrow> utf16" where
  "utf16_units n =
     (if n < 0x10000 then [of_nat n]
      else [of_nat (0xD800 + (n - 0x10000) div 0x400), of_nat (0xDC00 + (n - 0x10000) mod 0x400)])"

definition utf16_encode :: "nat list \<Rightarrow> utf16" where
  "utf16_encode ns = concat (map utf16_units ns)"

lemma units_valid:
  assumes "scalar_value n"
  shows "validateUTF8Content (utf16_units n @ ws) = validateUTF8Content ws"
proof (cases "n < 0x10000")
  case True
  have u: "unat (of_nat n :: 16 word) = n" using True by (simp add: unat_of_nat)
  show ?thesis
    using True assms u by (auto simp: utf16_units_def scalar_value_def word_le_nat_alt)
next
  case False
  let ?h = "0xD800 + (n - 0x10000) div 0x400" and ?l = "0xDC00 + (n - 0x10000) mod 0x400"
  have "n < 0x110000" using False assms by (auto simp: scalar_value_def)
  then have h: "?h \<le> 0xDBFF" by (simp add: less_mult_imp_div_less)
  have l: "?l \<le> 0xDFFF" by simp
  have uh: "unat (of_nat ?h :: 16 word) = ?h" and ul: "unat (of_nat ?l :: 16 word) = ?l"
    using h l by (simp_all add: unat_of_nat del: of_nat_add)
  show ?thesis
    using h l uh ul False by (simp add: utf16_units_def word_le_nat_alt word_less_nat_alt del: of_nat_add)
qed


lemma encoded_valid: "list_all scalar_value ns \<Longrightarrow> validateUTF8Content (utf16_encode ns)"
  by (induction ns) (simp_all add: utf16_encode_def units_valid)

lemma encode_Cons: "utf16_encode (n # ns) = utf16_units n @ utf16_encode ns"
  by (simp add: utf16_encode_def)

lemma surrogate_pair:
  assumes "0xD800 \<le> c" "c \<le> 0xDBFF" "0xDC00 \<le> d" "d \<le> (0xDFFF :: 16 word)"
  obtains n where "scalar_value n" and "utf16_units n = [c, d]"
proof -
  have "0xD800 \<le> unat c" "unat c \<le> 0xDBFF" "0xDC00 \<le> unat d" "unat d \<le> 0xDFFF"
    using assms by (simp_all add: word_le_nat_alt)
  then obtain h l where h: "unat c = 0xD800 + h" "h < 0x400" and l: "unat d = 0xDC00 + l" "l < 0x400"
    by (auto simp: le_iff_add)
  let ?n = "0x10000 + (h * 0x400 + l)"
  have "scalar_value ?n" using h l by (simp add: scalar_value_def)
  moreover have "(?n - 0x10000) div 0x400 = h" "(?n - 0x10000) mod 0x400 = l" using l by simp_all
  then have "utf16_units ?n = [of_nat (unat c), of_nat (unat d)]"
    by (simp only: utf16_units_def h(1) l(1)) simp
  ultimately show thesis using that [of ?n] by simp
qed

lemma single_unit:
  assumes "\<not> (0xD800 \<le> c \<and> c \<le> 0xDBFF)" "\<not> (0xDC00 \<le> c \<and> c \<le> (0xDFFF :: 16 word))"
  shows "scalar_value (unat c)" and "utf16_units (unat c) = [c]"
proof -
  have "unat c < 0x10000" using unsigned_less [of c] by simp
  then show "scalar_value (unat c)" "utf16_units (unat c) = [c]"
    using assms by (auto simp: scalar_value_def utf16_units_def word_le_nat_alt)
qed

lemma valid_encoded: "validateUTF8Content ws \<Longrightarrow> \<exists>ns. list_all scalar_value ns \<and> ws = utf16_encode ns"
proof (induction ws rule: validateUTF8Content.induct)
  case 1
  show ?case by (rule exI [of _ "[]"]) (simp add: utf16_encode_def)
next
  case (2 c cs)
  show ?case
  proof (cases "0xD800 \<le> c \<and> c \<le> 0xDBFF")
    case True
    with "2.prems" obtain d ds where cs: "cs = d # ds" and d: "0xDC00 \<le> d" "d \<le> 0xDFFF" and v: "validateUTF8Content ds"
      by (auto split: list.splits if_splits simp: not_less)
    obtain n where n: "scalar_value n" "utf16_units n = [c, d]"
      using True d by (auto intro: surrogate_pair)
    obtain ns where "list_all scalar_value ns" "ds = utf16_encode ns"
      using "2.IH"(1) [OF True cs] d v by (auto simp: not_less)
    then show ?thesis using n cs by (intro exI [of _ "n # ns"]) (simp add: encode_Cons)
  next
    case False
    with "2.prems" have c: "\<not> (0xDC00 \<le> c \<and> c \<le> 0xDFFF)" and v: "validateUTF8Content cs"
      by (auto split: if_splits)
    obtain ns where "list_all scalar_value ns" "cs = utf16_encode ns"
      using "2.IH"(2) [OF False c v] by auto
    then show ?thesis
      using single_unit [OF False c] by (intro exI [of _ "unat c # ns"]) (simp add: encode_Cons)
  qed
qed

text \<open>A content of the format UTF8 is accepted exactly when it is the UTF-16 encoding of a sequence of
  Unicode scalar values, that is, when it can be encoded as UTF-8.\<close>

lemma utf8_content_iff:
  "validateUTF8Content content \<longleftrightarrow> (\<exists>ns. list_all scalar_value ns \<and> content = utf16_encode ns)"
  using valid_encoded encoded_valid by blast

section \<open>The language of language tags\<close>

definition is_never :: "'a rx \<Rightarrow> bool" where
  "is_never r = (case r of Never \<Rightarrow> True | _ \<Rightarrow> False)"

lemma language_tag_rx_facts:
  "\<not> nullable language_tag_rx"
  "list_all (\<lambda>c. is_never (deriv c language_tag_rx)) [CHR '' '', CHR 0x09, CHR 0x0A, CHR 0x0B, CHR 0x0C, CHR 0x0D, CHR 0xA0]"
  by code_simp+

lemma language_tag_not_blank:
  assumes "rx_matches language_tag_rx s"
  shows "trim_str s \<noteq> []"
proof (cases s)
  case Nil
  then show ?thesis using assms language_tag_rx_facts(1) nullable_iff by blast
next
  case (Cons c cs)
  have "\<not> is_space c"
  proof
    assume "is_space c"
    then have "is_never (deriv c language_tag_rx)"
      using language_tag_rx_facts(2) unfolding is_space_def list_all_iff by blast
    then have "deriv c language_tag_rx = Never" by (simp add: is_never_def split: rx.splits)
    then show False using assms Cons by (simp add: deriv_iff [symmetric])
  qed
  then show ?thesis using Cons trim_not_blank [of c s] by simp
qed

text \<open>A language tag is accepted exactly when it is a word of the expression; the test for a blank text
  adds nothing.\<close>

lemma language_tag_iff: "validateLanguageTag s \<longleftrightarrow> rx_matches language_tag_rx s"
  using language_tag_not_blank [of s] by (auto simp: validateLanguageTag_def rx_test_iff)

section \<open>Times\<close>

definition two_digits :: "nat \<Rightarrow> string" where
  "two_digits n = [digit_char (n div 10), digit_char (n mod 10)]"

lemma char_between_matches: "rx_matches (char_between a b) u \<longleftrightarrow> (\<exists>c. u = [c] \<and> char_code a \<le> char_code c \<and> char_code c \<le> char_code b)"
  by (simp add: char_between_def)

lemma digit_char_code: "48 \<le> char_code c \<Longrightarrow> digit_char (char_code c - 48) = c"
  by (simp add: digit_char_def char_code_def)

lemma code_digit_char: "n < 10 \<Longrightarrow> char_code (digit_char n) = 48 + n"
  by (simp add: char_code_def of_char_digit_char)

lemma time_rx_matches:
  "rx_matches time_rx t \<longleftrightarrow> (\<exists>a b c d. t = [a, b, CHR '':'', c, d] \<and>
     ((48 \<le> char_code a \<and> char_code a \<le> 49 \<and> 48 \<le> char_code b \<and> char_code b \<le> 57) \<or>
      (a = CHR ''2'' \<and> 48 \<le> char_code b \<and> char_code b \<le> 51)) \<and>
     48 \<le> char_code c \<and> char_code c \<le> 53 \<and> 48 \<le> char_code d \<and> char_code d \<le> 57)"
proof -
  have codes: "char_code CHR ''0'' = 48" "char_code CHR ''1'' = 49" "char_code CHR ''3'' = 51"
    "char_code CHR ''5'' = 53" "char_code CHR ''9'' = 57"
    by (simp_all add: char_code_def)
  have seqs: "rx_matches time_rx t \<longleftrightarrow>
      (\<exists>a v. t = a # v \<and> 48 \<le> char_code a \<and> char_code a \<le> 49 \<and>
         (\<exists>b w. v = b # w \<and> 48 \<le> char_code b \<and> char_code b \<le> 57 \<and> (\<exists>w'. w = CHR '':'' # w' \<and>
           (\<exists>c x. w' = c # x \<and> 48 \<le> char_code c \<and> char_code c \<le> 53 \<and>
              (\<exists>d. x = [d] \<and> 48 \<le> char_code d \<and> char_code d \<le> 57))))) \<or>
      (\<exists>v. t = CHR ''2'' # v \<and> (\<exists>b w. v = b # w \<and> 48 \<le> char_code b \<and> char_code b \<le> 51 \<and> (\<exists>w'. w = CHR '':'' # w' \<and>
           (\<exists>c x. w' = c # x \<and> 48 \<le> char_code c \<and> char_code c \<le> 53 \<and>
              (\<exists>d. x = [d] \<and> 48 \<le> char_code d \<and> char_code d \<le> 57)))))"
    unfolding time_rx_def
    by (simp add: char_between_def rx_char_def rx_seqs_def matches_Seq_Alt matches_Seq_assoc matches_Cls_Seq codes conj_assoc
        del: rx_seqs_matches)
  show ?thesis
    unfolding seqs by (rule iffI; elim exE disjE conjE; simp)
qed


lemma two_digits_code:
  assumes "48 \<le> char_code a" "48 \<le> char_code b" "char_code b \<le> 57"
  shows "two_digits ((char_code a - 48) * 10 + (char_code b - 48)) = [a, b]"
proof -
  have "((char_code a - 48) * 10 + (char_code b - 48)) div 10 = char_code a - 48"
    "((char_code a - 48) * 10 + (char_code b - 48)) mod 10 = char_code b - 48"
    using assms(3) by simp_all
  then show ?thesis using assms by (simp add: two_digits_def digit_char_code)
qed

text \<open>The times of day that are accepted are those from 00:00 to 23:59, with two digits for the hour and
  two for the minute.\<close>

lemma time_of_day_iff:
  "validateTimeOfDay t \<longleftrightarrow> (\<exists>h m. h < 24 \<and> m < 60 \<and> t = two_digits h @ '':'' @ two_digits m)"
proof
  assume "validateTimeOfDay t"
  then obtain a b c d where t: "t = [a, b, CHR '':'', c, d]"
    and h: "(48 \<le> char_code a \<and> char_code a \<le> 49 \<and> 48 \<le> char_code b \<and> char_code b \<le> 57) \<or>
      (a = CHR ''2'' \<and> 48 \<le> char_code b \<and> char_code b \<le> 51)"
    and m: "48 \<le> char_code c" "char_code c \<le> 53" "48 \<le> char_code d" "char_code d \<le> 57"
    by (auto simp: validateTimeOfDay_def rx_test_iff time_rx_matches)
  let ?h = "(char_code a - 48) * 10 + (char_code b - 48)" and ?m = "(char_code c - 48) * 10 + (char_code d - 48)"
  have two: "char_code CHR ''2'' = 50" by (simp add: char_code_def)
  have a: "48 \<le> char_code a" "48 \<le> char_code b" "char_code b \<le> 57" "?h < 24" using h two by auto
  have "?m < 60" using m by simp
  moreover have "t = two_digits ?h @ '':'' @ two_digits ?m"
    using a m by (simp only: two_digits_code t) simp
  ultimately show "\<exists>h m. h < 24 \<and> m < 60 \<and> t = two_digits h @ '':'' @ two_digits m" using a(4) by blast
next
  assume "\<exists>h m. h < 24 \<and> m < 60 \<and> t = two_digits h @ '':'' @ two_digits m"
  then obtain h m where b: "h < 24" "m < 60" and t: "t = two_digits h @ '':'' @ two_digits m" by blast
  have codes: "char_code (digit_char (h div 10)) = 48 + h div 10" "char_code (digit_char (h mod 10)) = 48 + h mod 10"
    "char_code (digit_char (m div 10)) = 48 + m div 10" "char_code (digit_char (m mod 10)) = 48 + m mod 10"
    using b by (simp_all add: code_digit_char)
  have "digit_char 2 = CHR ''2''" by code_simp
  moreover have "h div 10 \<le> 1 \<or> (h div 10 = 2 \<and> h mod 10 \<le> 3)" "m div 10 \<le> 5" using b by presburger+
  ultimately show "validateTimeOfDay t"
    by (auto simp: validateTimeOfDay_def rx_test_iff time_rx_matches t two_digits_def codes)
qed

lemma check_conditions_None:
  "check_conditions cs = None \<longleftrightarrow>
     (\<forall>c. Some c \<in> set cs \<longrightarrow> bad_time (tc_startTimeOfDay c) = None \<and> bad_time (tc_endTimeOfDay c) = None)"
  by (induction cs rule: check_conditions.induct) (auto split: option.splits)

section \<open>Tags in a text\<close>

lemma match_tag_split: "match_tag s = Some (name, tag, rest) \<Longrightarrow> s = tag @ rest"
proof -
  assume m: "match_tag s = Some (name, tag, rest)"
  then obtain c s1 where s: "s = c # s1" by (cases s) (auto simp: match_tag_def)
  define s2 where "s2 = (case s1 of d # s' \<Rightarrow> if d = cu CHR ''/'' then s' else s1 | [] \<Rightarrow> s1)"
  have "s1 = [] @ s2 \<or> s1 = [cu CHR ''/''] @ s2" by (auto simp: s2_def split: list.split)
  then obtain p where p: "s1 = p @ s2" by blast
  obtain g where g: "dropWhile (\<lambda>w. w \<noteq> cu CHR ''>'') (dropWhile cu_alnum s2) = g # rest"
    and tag: "tag = take (length s - length rest) s"
    using m by (auto simp: match_tag_def s s2_def [symmetric] Let_def split: if_splits list.splits)
  have "s2 = takeWhile cu_alnum s2 @ dropWhile cu_alnum s2" by simp
  also have "dropWhile cu_alnum s2 = takeWhile (\<lambda>w. w \<noteq> cu CHR ''>'') (dropWhile cu_alnum s2) @ g # rest"
    using g takeWhile_dropWhile_id [of "\<lambda>w. w \<noteq> cu CHR ''>''" "dropWhile cu_alnum s2"] by simp
  finally obtain q where "s2 = q @ rest" by (metis append_Cons append_assoc append_Nil)
  then have "s = (c # p @ q) @ rest" using s p by simp
  then show "s = tag @ rest" using tag by simp
qed

end
