(* ===== verification/ChargingProfiles.thy ===== *)
theory ChargingProfiles
  imports JsValue
begin

text \<open>
  The helpers of packages/core/src/util/util/parser.ts and the check of a charging profile before it
  is sent (validateChargingProfileType in validator.ts). A number is the shortest decimal that
  denotes it, as Number.toString prints it. The queries the check makes (the transaction, the type
  of the EVSE, the charging needs, the device model) are fields of an environment; they may
  fail. A profile that is accepted is returned with the number of phases the check fills in.
\<close>

section \<open>Numbers and their text\<close>

record decimal =
  dc_negative :: bool
  dc_digits :: nat        \<comment> \<open>the digits, without trailing zeros\<close>
  dc_exponent :: int      \<comment> \<open>the power of ten they are multiplied with\<close>

definition decimal_value :: "decimal \<Rightarrow> rat" where
  "decimal_value d = (if dc_negative d then - 1 else 1) * of_nat (dc_digits d) * pow10 (dc_exponent d)"

definition dec_zero :: "decimal \<Rightarrow> bool" where
  "dec_zero d = (dc_digits d = 0)"

text \<open>The position of the decimal point, counted from the first digit.\<close>

definition point_position :: "decimal \<Rightarrow> int" where
  "point_position d = int (length (nat_str (dc_digits d))) + dc_exponent d"

definition exponent_str :: "int \<Rightarrow> string" where
  "exponent_str e = ''e'' @ (if e < 0 then ''-'' else ''+'') @ nat_str (nat \<bar>e\<bar>)"

definition magnitude_str :: "decimal \<Rightarrow> string" where
  "magnitude_str d =
     (let s = nat_str (dc_digits d); k = int (length s); n = point_position d in
      if dc_digits d = 0 then ''0''
      else if k \<le> n \<and> n \<le> 21 then s @ replicate (nat (n - k)) CHR ''0''
      else if 0 < n \<and> n \<le> 21 then take (nat n) s @ ''.'' @ drop (nat n) s
      else if - 6 < n \<and> n \<le> 0 then ''0.'' @ replicate (nat (- n)) CHR ''0'' @ s
      else if k = 1 then s @ exponent_str (n - 1)
      else take 1 s @ ''.'' @ drop 1 s @ exponent_str (n - 1))"

definition decimal_str :: "decimal \<Rightarrow> string" where
  "decimal_str d = (if dc_negative d \<and> dc_digits d \<noteq> 0 then ''-'' else []) @ magnitude_str d"

definition dec_digit :: "char \<Rightarrow> bool" where
  "dec_digit c = (digit_of c \<noteq> None)"

definition getNumberOfFractionDigit :: "decimal \<Rightarrow> nat" where
  "getNumberOfFractionDigit num =
     (case dropWhile (\<lambda>c. c \<noteq> CHR ''.'') (decimal_str num) of
        [] \<Rightarrow> 0
      | _ # rest \<Rightarrow> length (takeWhile dec_digit rest))"

section \<open>Batches and sets\<close>

text \<open>The loop of getBatches once the size is positive or the array empty.\<close>

function batches_from :: "nat \<Rightarrow> nat \<Rightarrow> 'a list \<Rightarrow> (nat \<times> 'a list) list" where
  "batches_from lastIndex n array =
     (if array = [] \<or> n = 0 then []
      else (lastIndex, take n array) # batches_from (lastIndex + length (take n array)) n (drop n array))"
  by pat_completeness auto
termination by (relation "measure (\<lambda>(i, n, xs). length xs)") auto

declare batches_from.simps [simp del]

text \<open>A size that is no positive integer stands for the whole array.\<close>

definition getBatches :: "'a list \<Rightarrow> js_num \<Rightarrow> (nat \<times> 'a list) list" where
  "getBatches array n =
     batches_from 0 (case n of Fin q \<Rightarrow> if q \<in> \<int> \<and> 0 < q then nat \<lfloor>q\<rfloor> else length array | _ \<Rightarrow> length array) array"

definition stringToSet :: "string \<Rightarrow> string set" where
  "stringToSet input = set (map trim_str (split_on CHR '','' input))"

section \<open>Charging profiles\<close>

record schedule_period =
  cp_limit :: "decimal option"
  cp_numberPhases :: "int option"

text \<open>A sales tariff entry holds its consumption costs, each with the multipliers of its costs.\<close>

type_synonym consumption_cost = "int option list option"
type_synonym sales_entry = "consumption_cost list option"

record charging_schedule =
  sc_id :: int
  sc_minChargingRate :: "decimal option"
  sc_periods :: "schedule_period list"
  sc_salesTariff :: "sales_entry list option"

record charging_profile =
  pf_stackLevel :: int
  pf_purpose :: string
  pf_transactionId :: "string option"
  pf_schedules :: "charging_schedule list"

record charging_needs =
  cn_ac :: bool
  cn_dc :: bool
  cn_maxScheduleTuples :: "int option"

record profile_env =
  pv_transaction :: "string \<Rightarrow> exn + nat option"
  pv_evseType :: "int \<Rightarrow> exn + nat option"
  pv_needs :: "nat \<Rightarrow> nat \<Rightarrow> exn + charging_needs option"
  pv_periodsPerSchedule :: "exn + string option list"

definition int_arg :: "int \<Rightarrow> jsval" where
  "int_arg i = JNum (of_int i)"

text \<open>The first value of PeriodsPerSchedule; a missing or empty one, 0 and NaN set no bound.\<close>

definition periods_bound :: "string option list \<Rightarrow> js_num option" where
  "periods_bound attributes =
     (case attributes of
        Some (c # cs) # _ \<Rightarrow>
          (case js_number (c # cs) of
             NaN \<Rightarrow> None
           | Fin q \<Rightarrow> if q = 0 then None else Some (Fin q)
           | Inf pos \<Rightarrow> Some (Inf pos))
      | _ \<Rightarrow> None)"

definition exceeds_bound :: "nat \<Rightarrow> js_num \<Rightarrow> bool" where
  "exceeds_bound n b = (case b of Fin q \<Rightarrow> q < of_nat n | Inf pos \<Rightarrow> \<not> pos | NaN \<Rightarrow> False)"

definition zero_decimal :: decimal where
  "zero_decimal = \<lparr> dc_negative = False, dc_digits = 0, dc_exponent = 0 \<rparr>"

definition fill_phases :: "charging_needs option \<Rightarrow> schedule_period \<Rightarrow> schedule_period" where
  "fill_phases needs p =
     (case needs of
        None \<Rightarrow> p
      | Some n \<Rightarrow>
          if cn_ac n
          then (if cp_numberPhases p = None \<or> cp_numberPhases p = Some 0 then p\<lparr> cp_numberPhases := Some 3 \<rparr> else p)
          else if cn_dc n then p\<lparr> cp_numberPhases := None \<rparr> else p)"

definition check_period :: "int \<Rightarrow> charging_needs option \<Rightarrow> schedule_period \<Rightarrow> exn + schedule_period" where
  "check_period i needs p =
     (if 1 < getNumberOfFractionDigit (case cp_limit p of Some l \<Rightarrow> l | None \<Rightarrow> zero_decimal)
      then Inl (JsErr ''ChargingSchedule: chargingSchedulePeriod limit accepts at most one digit fraction (e.g. 8.1).'' [int_arg i])
      else Inr (fill_phases needs p))"

definition bad_multiplier :: "int option \<Rightarrow> bool" where
  "bad_multiplier m = (case m of Some k \<Rightarrow> 3 < k \<or> k < - 3 | None \<Rightarrow> False)"

definition entry_multipliers :: "sales_entry \<Rightarrow> int option list" where
  "entry_multipliers e =
     concat (map (\<lambda>c. case c of Some ms \<Rightarrow> ms | None \<Rightarrow> []) (case e of Some cs \<Rightarrow> cs | None \<Rightarrow> []))"

definition check_sales_tariff :: "int \<Rightarrow> charging_needs option \<Rightarrow> sales_entry list \<Rightarrow> exn + unit" where
  "check_sales_tariff i needs entries =
     (case Option.bind needs cn_maxScheduleTuples of
        Some n \<Rightarrow>
          if n \<noteq> 0 \<and> n < int (length entries)
          then Inl (JsErr ''ChargingSchedule: The number of SalesTariffEntry elements SHALL not exceed maxScheduleTuples.''
                      [int_arg i, int_arg (int (length entries)), int_arg n])
          else if list_ex bad_multiplier (concat (map entry_multipliers entries))
          then Inl (JsErr ''ChargingSchedule: amountMultiplier SHALL be in [-3, 3].'' [int_arg i])
          else Inr ()
      | None \<Rightarrow>
          if list_ex bad_multiplier (concat (map entry_multipliers entries))
          then Inl (JsErr ''ChargingSchedule: amountMultiplier SHALL be in [-3, 3].'' [int_arg i])
          else Inr ())"

definition check_rate :: "charging_schedule \<Rightarrow> exn + unit" where
  "check_rate s =
     (case sc_minChargingRate s of
        Some r \<Rightarrow>
          if \<not> dec_zero r \<and> 1 < getNumberOfFractionDigit r
          then Inl (JsErr ''chargingSchedule: minChargingRate accepts at most one digit fraction (e.g. 8.1).'' [int_arg (sc_id s)])
          else Inr ()
      | None \<Rightarrow> Inr ())"

definition check_count :: "js_num option \<Rightarrow> charging_schedule \<Rightarrow> exn + unit" where
  "check_count bound s =
     (case bound of
        Some b \<Rightarrow>
          if exceeds_bound (length (sc_periods s)) b
          then Inl (JsErr ''ChargingSchedule: The number of chargingSchedulePeriod SHALL not exceed the bound.'' [int_arg (sc_id s)])
          else Inr ()
      | None \<Rightarrow> Inr ())"

definition check_schedule ::
  "js_num option \<Rightarrow> charging_needs option \<Rightarrow> charging_schedule \<Rightarrow> exn + charging_schedule" where
  "check_schedule bound needs s =
     bind_res (check_rate s) (\<lambda>_.
     bind_res (check_count bound s) (\<lambda>_.
     bind_res (map_res (check_period (sc_id s) needs) (sc_periods s)) (\<lambda>ps.
     bind_res (case sc_salesTariff s of
                 Some entries \<Rightarrow> check_sales_tariff (sc_id s) needs entries
               | None \<Rightarrow> Inr ()) (\<lambda>_.
       Inr (s\<lparr> sc_periods := ps \<rparr>)))))"

text \<open>What is known of the transaction of a profile.\<close>

datatype profile_context =
    NoContext                             \<comment> \<open>no transaction, or no EVSE\<close>
  | UnknownEvse
  | Needs "charging_needs option"

definition profile_context :: "profile_env \<Rightarrow> charging_profile \<Rightarrow> int option \<Rightarrow> exn + profile_context" where
  "profile_context env p evseId =
     (case (pf_transactionId p, evseId) of
        (Some (c # cs), Some e) \<Rightarrow>
          if e = 0 then Inr NoContext
          else bind_res (pv_transaction env (c # cs)) (\<lambda>transaction.
                 case transaction of
                   None \<Rightarrow> Inl (JsErr ''Transaction not found on station.'' [JStr (c # cs)])
                 | Some t \<Rightarrow>
                     bind_res (pv_evseType env e) (\<lambda>evse.
                       case evse of
                         None \<Rightarrow>
                           if 1 < length (pf_schedules p)
                           then Inl (JsErr ''Evse not found. Multiple ChargingScheduleType entries require EVSE and ChargingNeeds context.'' [int_arg e])
                           else Inr UnknownEvse
                       | Some k \<Rightarrow> bind_res (pv_needs env k t) (\<lambda>needs. Inr (Needs needs))))
      | _ \<Rightarrow> Inr NoContext)"

definition context_needs :: "profile_context \<Rightarrow> charging_needs option" where
  "context_needs c = (case c of Needs n \<Rightarrow> n | _ \<Rightarrow> None)"

definition check_purpose :: "charging_profile \<Rightarrow> int option \<Rightarrow> exn + unit" where
  "check_purpose p evseId =
     (if pf_stackLevel p < 0 then Inl (JsErr ''Lowest Stack level is 0'' [])
      else if pf_purpose p = ''ChargingStationMaxProfile'' \<and> evseId \<noteq> Some 0
      then Inl (JsErr ''When chargingProfilePurpose is ChargingStationMaxProfile, evseId SHALL be 0'' [])
      else if pf_purpose p \<noteq> ''TxProfile'' \<and> pf_transactionId p \<noteq> None \<and> pf_transactionId p \<noteq> Some []
      then Inl (JsErr ''transactionId SHALL only be included when ChargingProfilePurpose is set to TxProfile.'' [])
      else Inr ())"

definition validateChargingProfileType ::
  "profile_env \<Rightarrow> charging_profile \<Rightarrow> int option \<Rightarrow> exn + charging_profile" where
  "validateChargingProfileType env p evseId =
     bind_res (check_purpose p evseId) (\<lambda>_.
     bind_res (profile_context env p evseId) (\<lambda>c.
       if c = UnknownEvse then Inr p
       else bind_res (pv_periodsPerSchedule env) (\<lambda>attributes.
            bind_res (map_res (check_schedule (periods_bound attributes) (context_needs c)) (pf_schedules p)) (\<lambda>ss.
              Inr (p\<lparr> pf_schedules := ss \<rparr>)))))"

section \<open>Numbers\<close>

lemma takeWhile_all_digits: "list_all dec_digit s \<Longrightarrow> takeWhile dec_digit s = s"
  by (induction s) auto

lemma takeWhile_digits_then: "list_all dec_digit s \<Longrightarrow> \<not> dec_digit d \<Longrightarrow>
    takeWhile dec_digit (s @ d # t) = s"
  by (induction s) auto

lemma dropWhile_no_point: "CHR ''.'' \<notin> set s \<Longrightarrow> dropWhile (\<lambda>c. c \<noteq> CHR ''.'') (s @ t) = dropWhile (\<lambda>c. c \<noteq> CHR ''.'') t"
  by (induction s) auto

lemma nat_str_all: "list_all dec_digit (nat_str n)"
  using nat_str_digits by (auto simp: list_all_iff dec_digit_def)

lemma digits_no_point: "list_all dec_digit s \<Longrightarrow> CHR ''.'' \<notin> set s"
  by (auto simp: list_all_iff dec_digit_def digit_of_def)

text \<open>The number of digits after the point, for a text with one point and for a text without.\<close>

definition fraction_length :: "string \<Rightarrow> nat" where
  "fraction_length s =
     (case dropWhile (\<lambda>c. c \<noteq> CHR ''.'') s of
        [] \<Rightarrow> 0
      | _ # rest \<Rightarrow> length (takeWhile dec_digit rest))"

lemma fraction_length_none: "CHR ''.'' \<notin> set s \<Longrightarrow> fraction_length s = 0"
  using dropWhile_no_point [of s "[]"] by (simp add: fraction_length_def del: dropWhile_eq_Nil_conv)

lemma fraction_length_point:
  assumes "CHR ''.'' \<notin> set s"
  shows "fraction_length (s @ CHR ''.'' # t) = length (takeWhile dec_digit t)"
  using assms by (simp add: fraction_length_def dropWhile_no_point)

lemma fraction_length_sign: "fraction_length (CHR ''-'' # s) = fraction_length s"
  by (simp add: fraction_length_def)

lemma exponent_no_point: "CHR ''.'' \<notin> set (exponent_str e)"
  using digits_no_point [OF nat_str_all] by (auto simp: exponent_str_def)

lemma exponent_starts: "\<exists>t. exponent_str e = CHR ''e'' # t"
  by (simp add: exponent_str_def)

text \<open>For a number that is printed without exponent the result is the number of its decimals; a number
  below a millionth or from 10 ^ 21 on is printed with an exponent, and then the digits after
  its first one are counted, whatever the exponent: none for 0.0000001.\<close>

lemma fraction_digits:
  assumes "dc_digits num \<noteq> 0"
  shows "getNumberOfFractionDigit num =
    (if - 6 < point_position num \<and> point_position num \<le> 21 then nat (- dc_exponent num)
     else length (nat_str (dc_digits num)) - 1)"
proof -
  let ?s = "nat_str (dc_digits num)" and ?n = "point_position num" and ?k = "int (length (nat_str (dc_digits num)))"
  have e: "dc_exponent num = ?n - ?k" by (simp add: point_position_def)
  have d: "list_all dec_digit ?s" by (rule nat_str_all)
  have d': "list_all dec_digit (take i ?s)" "list_all dec_digit (drop i ?s)" for i
    using d by (auto simp: list_all_iff dest: in_set_takeD in_set_dropD)
  have pos: "0 < length ?s" using nat_str_not_Nil by simp
  have "getNumberOfFractionDigit num = fraction_length (magnitude_str num)"
    by (simp add: getNumberOfFractionDigit_def decimal_str_def fraction_length_sign fraction_length_def [symmetric])
  also have "\<dots> = (if - 6 < ?n \<and> ?n \<le> 21 then nat (- dc_exponent num) else length ?s - 1)"
  proof -
    consider (int) "?k \<le> ?n" "?n \<le> 21" | (point) "0 < ?n" "?n < ?k" "?n \<le> 21" | (small) "- 6 < ?n" "?n \<le> 0"
      | (one) "?n \<le> - 6 \<or> 21 < ?n" "?k = 1" | (exp) "?n \<le> - 6 \<or> 21 < ?n" "?k \<noteq> 1"
      by linarith
    then show ?thesis
    proof cases
      case int
      then have "magnitude_str num = ?s @ replicate (nat (?n - ?k)) CHR ''0''"
        using assms by (simp add: magnitude_str_def Let_def)
      moreover have "CHR ''.'' \<notin> set (?s @ replicate (nat (?n - ?k)) CHR ''0'')"
        using digits_no_point [OF d] by simp
      ultimately show ?thesis using int e pos by (simp add: fraction_length_none)
    next
      case point
      then have "magnitude_str num = take (nat ?n) ?s @ CHR ''.'' # drop (nat ?n) ?s"
        using assms by (simp add: magnitude_str_def Let_def)
      then show ?thesis
        using point e digits_no_point [OF d'(1)]
        by (simp add: fraction_length_point takeWhile_all_digits [OF d'(2)])
    next
      case small
      then have "\<not> ?k \<le> ?n" using pos by linarith
      then have "magnitude_str num = ''0'' @ CHR ''.'' # (replicate (nat (- ?n)) CHR ''0'' @ ?s)"
        using assms small by (simp add: magnitude_str_def Let_def)
      moreover have "list_all dec_digit (replicate (nat (- ?n)) CHR ''0'' @ ?s)"
        using d by (auto simp: dec_digit_def [of "CHR ''0''"] digit_of_def list_all_iff)
      ultimately show ?thesis
        using small e by (simp add: fraction_length_point takeWhile_all_digits del: append.simps)
    next
      case one
      then have "magnitude_str num = ?s @ exponent_str (?n - 1)"
        using assms by (auto simp: magnitude_str_def Let_def)
      moreover have "\<not> (- 6 < ?n \<and> ?n \<le> 21)" using one(1) by linarith
      ultimately show ?thesis
        using one(2) digits_no_point [OF d] exponent_no_point [of "?n - 1"] by (auto simp: fraction_length_none)
    next
      case exp
      then have m: "magnitude_str num = take 1 ?s @ CHR ''.'' # (drop 1 ?s @ exponent_str (?n - 1))"
        using assms pos by (auto simp: magnitude_str_def Let_def)
      obtain t where t: "exponent_str (?n - 1) = CHR ''e'' # t" using exponent_starts by blast
      have "\<not> dec_digit CHR ''e''" by (simp add: dec_digit_def digit_of_def)
      moreover have "\<not> (- 6 < ?n \<and> ?n \<le> 21)" using exp(1) by linarith
      ultimately show ?thesis
        using digits_no_point [OF d'(1)]
        by (auto simp: m t fraction_length_point takeWhile_digits_then [OF d'(2)] simp del: One_nat_def)
    qed
  qed
  finally show ?thesis .
qed

lemma nat_str_1: "nat_str 1 = ''1''"
  by code_simp

lemma fraction_digits_witness:
  "getNumberOfFractionDigit \<lparr> dc_negative = False, dc_digits = 1, dc_exponent = - 7 \<rparr> = 0"
  using fraction_digits [of "\<lparr> dc_negative = False, dc_digits = 1, dc_exponent = - 7 \<rparr>"]
  unfolding point_position_def decimal.simps nat_str_1 by simp

section \<open>Batches\<close>

lemma batches_from_spec:
  "0 < n \<or> xs = [] \<Longrightarrow> concat (map snd (batches_from i n xs)) = xs"
  "(j, b) \<in> set (batches_from i n xs) \<Longrightarrow>
     i \<le> j \<and> b \<noteq> [] \<and> length b \<le> n \<and> take (length b) (drop (j - i) xs) = b"
proof (induction i n xs rule: batches_from.induct)
  case (1 i n xs)
  {
    case 1
    then show ?case
      using "1.IH"(1) by (cases "xs = [] \<or> n = 0") (auto simp: batches_from.simps [of i n xs])
  next
    case 2
    then have ne: "\<not> (xs = [] \<or> n = 0)"
      by (cases "xs = [] \<or> n = 0") (simp_all add: batches_from.simps [of i n xs])
    then consider (first) "j = i" "b = take n xs"
      | (later) "(j, b) \<in> set (batches_from (i + length (take n xs)) n (drop n xs))"
      using 2 by (auto simp: batches_from.simps [of i n xs])
    then show ?case
    proof cases
      case first
      then show ?thesis using ne by (auto simp: min_def)
    next
      case later
      note l = "1.IH"(2) [OF ne later]
      have "n < length xs" using l by (cases "n < length xs") auto
      then have "length (take n xs) = n" by simp
      with l have "drop (j - i) xs = drop (j - (i + n)) (drop n xs)" by simp
      then show ?thesis using l \<open>length (take n xs) = n\<close> by auto
    qed
  }
qed

text \<open>The batches of an array partition it: in order they make up the array, none is empty, and each
  stands at its position in the array.\<close>

lemma batches_partition:
  "concat (map snd (getBatches xs n)) = xs"
  "(j, b) \<in> set (getBatches xs n) \<Longrightarrow> b \<noteq> [] \<and> take (length b) (drop j xs) = b"
proof -
  let ?n = "case n of Fin q \<Rightarrow> if q \<in> \<int> \<and> 0 < q then nat \<lfloor>q\<rfloor> else length xs | _ \<Rightarrow> length xs"
  have "0 < ?n \<or> xs = []" by (cases n) (auto elim!: Ints_cases)
  then show "concat (map snd (getBatches xs n)) = xs" unfolding getBatches_def by (rule batches_from_spec(1))
  show "b \<noteq> [] \<and> take (length b) (drop j xs) = b" if "(j, b) \<in> set (getBatches xs n)"
    using batches_from_spec(2) [OF that [unfolded getBatches_def]] by simp
qed

section \<open>What an accepted profile satisfies\<close>

lemma map_res_Inr: "map_res f xs = Inr ys \<longleftrightarrow> list_all2 (\<lambda>x y. f x = Inr y) xs ys"
proof (induction xs arbitrary: ys)
  case (Cons x xs)
  then show ?case by (cases ys) (auto simp: bind_res_eq_Inr)
qed auto

definition good_period :: "schedule_period \<Rightarrow> bool" where
  "good_period p = (case cp_limit p of Some l \<Rightarrow> getNumberOfFractionDigit l \<le> 1 | None \<Rightarrow> True)"

definition good_schedule :: "js_num option \<Rightarrow> charging_needs option \<Rightarrow> charging_schedule \<Rightarrow> bool" where
  "good_schedule bound needs s =
     (list_all good_period (sc_periods s)
      \<and> (case sc_minChargingRate s of Some r \<Rightarrow> dec_zero r \<or> getNumberOfFractionDigit r \<le> 1 | None \<Rightarrow> True)
      \<and> (case bound of Some b \<Rightarrow> \<not> exceeds_bound (length (sc_periods s)) b | None \<Rightarrow> True)
      \<and> (case sc_salesTariff s of
           None \<Rightarrow> True
         | Some entries \<Rightarrow>
             \<not> list_ex bad_multiplier (concat (map entry_multipliers entries))
             \<and> (case Option.bind needs cn_maxScheduleTuples of
                  Some n \<Rightarrow> n = 0 \<or> int (length entries) \<le> n
                | None \<Rightarrow> True)))"

definition filled_schedule :: "charging_needs option \<Rightarrow> charging_schedule \<Rightarrow> charging_schedule" where
  "filled_schedule needs s = s\<lparr> sc_periods := map (fill_phases needs) (sc_periods s) \<rparr>"

lemma fraction_zero [simp]: "getNumberOfFractionDigit zero_decimal = 0"
  by code_simp

lemma check_period_iff: "check_period i needs p = Inr q \<longleftrightarrow> good_period p \<and> q = fill_phases needs p"
  by (auto simp: check_period_def good_period_def split: option.split)

lemma check_periods_iff:
  "map_res (check_period i needs) ps = Inr qs \<longleftrightarrow> list_all good_period ps \<and> qs = map (fill_phases needs) ps"
proof (induction ps arbitrary: qs)
  case (Cons p ps)
  then show ?case by (auto simp: bind_res_eq_Inr check_period_iff)
qed auto

lemma check_sales_iff:
  "check_sales_tariff i needs entries = Inr () \<longleftrightarrow>
     \<not> list_ex bad_multiplier (concat (map entry_multipliers entries)) \<and>
     (case Option.bind needs cn_maxScheduleTuples of Some n \<Rightarrow> n = 0 \<or> int (length entries) \<le> n | None \<Rightarrow> True)"
  by (auto simp: check_sales_tariff_def split: option.split)

lemma check_schedule_iff:
  "check_schedule bound needs s = Inr s' \<longleftrightarrow> good_schedule bound needs s \<and> s' = filled_schedule needs s"
proof -
  have r: "check_rate s = Inr () \<longleftrightarrow>
      (case sc_minChargingRate s of Some r \<Rightarrow> dec_zero r \<or> getNumberOfFractionDigit r \<le> 1 | None \<Rightarrow> True)"
    by (auto simp: check_rate_def split: option.split)
  have c: "check_count bound s = Inr () \<longleftrightarrow>
      (case bound of Some b \<Rightarrow> \<not> exceeds_bound (length (sc_periods s)) b | None \<Rightarrow> True)"
    by (auto simp: check_count_def split: option.split)
  have t: "(case sc_salesTariff s of Some entries \<Rightarrow> check_sales_tariff (sc_id s) needs entries | None \<Rightarrow> Inr ()) = Inr () \<longleftrightarrow>
      (case sc_salesTariff s of None \<Rightarrow> True | Some entries \<Rightarrow>
         \<not> list_ex bad_multiplier (concat (map entry_multipliers entries)) \<and>
         (case Option.bind needs cn_maxScheduleTuples of Some n \<Rightarrow> n = 0 \<or> int (length entries) \<le> n | None \<Rightarrow> True))"
    by (simp add: check_sales_iff split: option.split)
  have "check_schedule bound needs s = Inr s' \<longleftrightarrow> check_rate s = Inr () \<and> check_count bound s = Inr () \<and>
      (\<exists>ps. map_res (check_period (sc_id s) needs) (sc_periods s) = Inr ps \<and>
        (case sc_salesTariff s of Some entries \<Rightarrow> check_sales_tariff (sc_id s) needs entries | None \<Rightarrow> Inr ()) = Inr () \<and>
        s' = s\<lparr> sc_periods := ps \<rparr>)"
    by (auto simp: check_schedule_def bind_res_eq_Inr)
  then show ?thesis
    unfolding r c t check_periods_iff by (auto simp: good_schedule_def filled_schedule_def)
qed

lemma check_schedules_iff:
  "map_res (check_schedule bound needs) ss = Inr ts \<longleftrightarrow> list_all (good_schedule bound needs) ss \<and> ts = map (filled_schedule needs) ss"
proof (induction ss arbitrary: ts)
  case (Cons s ss)
  then show ?case by (auto simp: bind_res_eq_Inr check_schedule_iff)
qed auto


text \<open>A profile for a transaction whose EVSE is not known is not checked at all when it has one schedule:
  it is accepted with any number of periods, any limits and any multipliers.\<close>

lemma unknown_evse_unchecked:
  assumes "pf_purpose p = ''TxProfile''" and "0 \<le> pf_stackLevel p" and "pf_transactionId p = Some (c # cs)"
    and "evseId = Some e" and "e \<noteq> 0" and "pv_transaction env (c # cs) = Inr (Some t)" and "pv_evseType env e = Inr None"
    and "pf_schedules p = [s]"
  shows "validateChargingProfileType env p evseId = Inr p"
  using assms by (simp add: validateChargingProfileType_def check_purpose_def profile_context_def)

definition demo_profile_env :: profile_env where
  "demo_profile_env =
     \<lparr> pv_transaction = (\<lambda>i. Inr (Some 3)), pv_evseType = (\<lambda>e. if e = 1 then Inr (Some 7) else Inr None),
       pv_needs = (\<lambda>e t. Inr (Some \<lparr> cn_ac = True, cn_dc = False, cn_maxScheduleTuples = None \<rparr>)),
       pv_periodsPerSchedule = Inr [Some ''1''] \<rparr>"

definition demo_profile :: "schedule_period list \<Rightarrow> charging_profile" where
  "demo_profile ps =
     \<lparr> pf_stackLevel = 0, pf_purpose = ''TxProfile'', pf_transactionId = Some ''7'',
       pf_schedules = [\<lparr> sc_id = 1, sc_minChargingRate = None, sc_periods = ps, sc_salesTariff = None \<rparr>] \<rparr>"

abbreviation demo_period :: schedule_period where
  "demo_period \<equiv> \<lparr> cp_limit = Some \<lparr> dc_negative = False, dc_digits = 81, dc_exponent = - 1 \<rparr>, cp_numberPhases = None \<rparr>"

lemma demo_context:
  "profile_context demo_profile_env (demo_profile ps) (Some 1)
     = Inr (Needs (Some \<lparr> cn_ac = True, cn_dc = False, cn_maxScheduleTuples = None \<rparr>))"
  by (simp add: profile_context_def demo_profile_env_def demo_profile_def)

lemma demo_good:
  "check_purpose (demo_profile [demo_period]) (Some 1) = Inr ()"
  "list_all (good_schedule (periods_bound [Some ''1'']) (context_needs (Needs (Some \<lparr> cn_ac = True, cn_dc = False, cn_maxScheduleTuples = None \<rparr>))))
     (pf_schedules (demo_profile [demo_period]))"
  by code_simp+


lemma unknown_evse_unchecked_witness:
  "validateChargingProfileType demo_profile_env (demo_profile [demo_period, demo_period]) (Some 2)
     = Inr (demo_profile [demo_period, demo_period])"
  by (rule unknown_evse_unchecked [where c = "CHR ''7''" and cs = "[]" and e = 2 and t = 3])
    (simp_all add: demo_profile_def demo_profile_env_def)

end
