(* ===== verification/Totp.thy ===== *)
theory Totp
  imports Prelude "HOL-Library.Word"
begin

text \<open>
  The one-time passwords of web payments (packages/core/src/util/util/TotpUtil.ts): the counter as
  eight bytes, the truncation of the digest, secrets, generation and validation. Bytes and
  the 32-bit code are words. The HMAC of the platform (SHA-1 over a key and a message) is a
  parameter; nothing is assumed of it. Times are in milliseconds.
\<close>

unbundle bit_operations_syntax

type_synonym bytes = "8 word list"

definition TIME_STEP_SECONDS :: int where
  "TIME_STEP_SECONDS = 30"

definition DIGITS :: nat where
  "DIGITS = 6"

section \<open>One-time passwords\<close>

text \<open>The loop that fills the buffer from its last byte on.\<close>

fun fill_counter :: "nat \<Rightarrow> int \<Rightarrow> bytes \<Rightarrow> bytes" where
  "fill_counter 0 tmp buf = buf"
| "fill_counter (Suc i) tmp buf = fill_counter i (tmp div 256) (word_of_int (tmp mod 256) # buf)"

definition counter_bytes :: "int \<Rightarrow> bytes" where
  "counter_bytes counter = fill_counter 8 counter []"

text \<open>A byte of the digest; out of range undefined, which the bit operations take for 0.\<close>

definition byte_at :: "bytes \<Rightarrow> nat \<Rightarrow> 8 word" where
  "byte_at digest i = (if i < length digest then digest ! i else 0)"

definition truncated_code :: "bytes \<Rightarrow> 32 word" where
  "truncated_code digest =
     (let offset = unat (if digest = [] then 0 else last digest AND 0x0F)
      in push_bit 24 (ucast (byte_at digest offset AND 0x7F)) OR
         (push_bit 16 (ucast (byte_at digest (offset + 1) AND 0xFF)) OR
         (push_bit 8 (ucast (byte_at digest (offset + 2) AND 0xFF)) OR
          ucast (byte_at digest (offset + 3) AND 0xFF))))"

definition pad_start :: "nat \<Rightarrow> char \<Rightarrow> string \<Rightarrow> string" where
  "pad_start n c s = replicate (n - length s) c @ s"

definition computeHotp :: "(bytes \<Rightarrow> bytes \<Rightarrow> bytes) \<Rightarrow> bytes \<Rightarrow> int \<Rightarrow> string" where
  "computeHotp hmac secret counter =
     pad_start DIGITS CHR ''0'' (int_str (sint (truncated_code (hmac secret (counter_bytes counter))) mod 10 ^ DIGITS))"

section \<open>Secrets\<close>

fun hex_bytes :: "string \<Rightarrow> bytes" where
  "hex_bytes (a # b # s) =
     (case (radix_digit a, radix_digit b) of
        (Some x, Some y) \<Rightarrow> of_nat (16 * x + y) # hex_bytes s
      | _ \<Rightarrow> [])"
| "hex_bytes _ = []"

definition is_hex :: "char \<Rightarrow> bool" where
  "is_hex c = (case radix_digit c of Some d \<Rightarrow> d < 16 | None \<Rightarrow> False)"

definition utf8_bytes :: "char \<Rightarrow> bytes" where
  "utf8_bytes c =
     (let n = of_char c :: nat
      in if n < 128 then [of_nat n] else [of_nat (0xC0 + n div 64), of_nat (0x80 + n mod 64)])"

definition parseSecret :: "string \<Rightarrow> bytes" where
  "parseSecret secret =
     (if 0 < length secret \<and> even (length secret) \<and> list_all is_hex secret then hex_bytes secret
      else concat (map utf8_bytes secret))"

section \<open>Generation and validation\<close>

definition totp_counter :: "int \<Rightarrow> int" where
  "totp_counter now = now div 1000 div TIME_STEP_SECONDS"

definition totp_generate :: "(bytes \<Rightarrow> bytes \<Rightarrow> bytes) \<Rightarrow> string \<Rightarrow> int \<Rightarrow> string" where
  "totp_generate hmac secret now = computeHotp hmac (parseSecret secret) (totp_counter now)"

definition totp_validate :: "(bytes \<Rightarrow> bytes \<Rightarrow> bytes) \<Rightarrow> string \<Rightarrow> string \<Rightarrow> int \<Rightarrow> int \<Rightarrow> bool" where
  "totp_validate hmac secret token window now =
     list_ex (\<lambda>i. computeHotp hmac (parseSecret secret) (totp_counter now + i) = token) [- window .. window]"

section \<open>Properties\<close>

text \<open>The number a list of bytes denotes, most significant byte first.\<close>

definition bytes_value :: "bytes \<Rightarrow> int" where
  "bytes_value bs = foldl (\<lambda>n b. 256 * n + uint b) 0 bs"

lemma bytes_value_acc: "foldl (\<lambda>n b. 256 * n + uint (b :: 8 word)) k bs = k * 256 ^ length bs + bytes_value bs"
proof (induction bs arbitrary: k)
  case (Cons b bs)
  show ?case
    using Cons [of "256 * k + uint b"] Cons [of "uint b"] by (simp add: bytes_value_def algebra_simps)
qed (simp add: bytes_value_def)

lemma fill_counter_value:
  "length (fill_counter n tmp buf) = n + length buf \<and>
   bytes_value (fill_counter n tmp buf) = (tmp mod 256 ^ n) * 256 ^ length buf + bytes_value buf"
proof (induction n arbitrary: tmp buf)
  case (Suc n)
  have b: "bytes_value (word_of_int (tmp mod 256) # buf) = tmp mod 256 * 256 ^ length buf + bytes_value buf"
    using bytes_value_acc [of "uint (word_of_int (tmp mod 256) :: 8 word)" buf]
    by (simp add: bytes_value_def unsigned_of_int take_bit_eq_mod)
  have "tmp mod 256 ^ Suc n = 256 * (tmp div 256 mod 256 ^ n) + tmp mod 256"
    using mod_mult2_eq' [of tmp 256 "256 ^ n"] zmod_zmult2_eq [of "256 ^ n" tmp 256] by simp
  then show ?case
    using Suc [of "tmp div 256" "word_of_int (tmp mod 256) # buf"] by (simp add: b algebra_simps)
qed simp

text \<open>The buffer that is hashed holds the counter in eight bytes.\<close>

lemma counter_bytes_value:
  assumes "0 \<le> counter" and "counter < 2 ^ 64"
  shows "length (counter_bytes counter) = 8" and "bytes_value (counter_bytes counter) = counter"
  using fill_counter_value [of 8 counter "[]"] assms by (simp_all add: counter_bytes_def bytes_value_def)

lemma truncated_code_nonneg: "0 \<le> sint (truncated_code digest)"
proof -
  have "\<not> bit (truncated_code digest) 31"
    by (auto simp: truncated_code_def Let_def bit_simps)
  then show ?thesis
    using bit_last_iff [of "truncated_code digest"] by simp
qed

lemma length_nat_str: "n < 10 ^ k \<Longrightarrow> 0 < k \<Longrightarrow> length (nat_str n) \<le> k"
proof (induction n arbitrary: k rule: nat_str.induct)
  case (1 n)
  show ?case
  proof (cases "n < 10")
    case False
    then obtain j where k: "k = Suc j" "0 < j" using "1.prems" by (cases k; cases "k - 1") auto
    have "n div 10 < 10 ^ j" using "1.prems" k by (simp add: less_mult_imp_div_less)
    then have "length (nat_str (n div 10)) \<le> j" using "1.IH" [OF False _ k(2)] by blast
    then show ?thesis using False k by (subst nat_str.simps) simp
  qed (use "1.prems" in \<open>subst nat_str.simps, simp\<close>)
qed

text \<open>A password has six characters, all digits.\<close>

lemma token_shape:
  "length (computeHotp hmac secret counter) = 6 \<and> list_all (\<lambda>c. digit_of c \<noteq> None) (computeHotp hmac secret counter)"
proof -
  define k where "k = nat (sint (truncated_code (hmac secret (counter_bytes counter))) mod 10 ^ DIGITS)"
  have k: "k < 10 ^ 6" by (simp add: k_def DIGITS_def nat_less_iff)
  have "int_str (sint (truncated_code (hmac secret (counter_bytes counter))) mod 10 ^ DIGITS) = nat_str k"
    by (simp add: int_str_def k_def DIGITS_def)
  moreover have "length (nat_str k) \<le> 6" using k length_nat_str by simp
  moreover have "digit_of CHR ''0'' \<noteq> None" by (simp add: digit_of_def)
  ultimately show ?thesis
    using nat_str_digits [of _ k] by (auto simp: computeHotp_def pad_start_def DIGITS_def list_all_iff)
qed

text \<open>A password is accepted exactly when it is that of one of the time steps around the present one; in
  particular a station whose clock is off by at most as many steps as the window allows can
  pay with the password it shows. Every accepted password has six digits.\<close>

lemma totp_window:
  "totp_validate hmac secret token window now \<longleftrightarrow>
     (\<exists>step. \<bar>step - totp_counter now\<bar> \<le> window \<and> token = computeHotp hmac (parseSecret secret) step)"
  "\<bar>now - shown\<bar> \<le> 30000 * window \<Longrightarrow> totp_validate hmac secret (totp_generate hmac secret shown) window now"
  "totp_validate hmac secret token window now \<Longrightarrow> length token = 6 \<and> list_all (\<lambda>c. digit_of c \<noteq> None) token"
proof -
  show *: "totp_validate hmac secret token window now \<longleftrightarrow>
     (\<exists>step. \<bar>step - totp_counter now\<bar> \<le> window \<and> token = computeHotp hmac (parseSecret secret) step)" for token
  proof
    assume "totp_validate hmac secret token window now"
    then obtain i where i: "- window \<le> i" "i \<le> window" "computeHotp hmac (parseSecret secret) (totp_counter now + i) = token"
      by (auto simp: totp_validate_def list_ex_iff)
    then show "\<exists>step. \<bar>step - totp_counter now\<bar> \<le> window \<and> token = computeHotp hmac (parseSecret secret) step"
      by (intro exI [of _ "totp_counter now + i"]) auto
  next
    assume "\<exists>step. \<bar>step - totp_counter now\<bar> \<le> window \<and> token = computeHotp hmac (parseSecret secret) step"
    then obtain step where s: "\<bar>step - totp_counter now\<bar> \<le> window" "token = computeHotp hmac (parseSecret secret) step"
      by blast
    then show "totp_validate hmac secret token window now"
      unfolding totp_validate_def list_ex_iff by (intro bexI [of _ "step - totp_counter now"]) auto
  qed
  show "totp_validate hmac secret (totp_generate hmac secret shown) window now" if "\<bar>now - shown\<bar> \<le> 30000 * window"
  proof -
    have "\<bar>totp_counter shown - totp_counter now\<bar> \<le> window"
      using that by (simp add: totp_counter_def TIME_STEP_SECONDS_def)
    then show ?thesis unfolding * by (auto simp: totp_generate_def)
  qed
  show "length token = 6 \<and> list_all (\<lambda>c. digit_of c \<noteq> None) token" if "totp_validate hmac secret token window now"
    using that token_shape unfolding * by blast
qed

end
