(* ===== verification/LocalAuthList.thy ===== *)
theory LocalAuthList
  imports TransactionStore
begin

text \<open>
  Local authorization lists: LocalAuthListService.ts (packages/core/src/modules/EVDriver), the
  repository LocalAuthList.ts (packages/core/src/dal/layers/sequelize/repository), and the handlers
  of the responses to SendLocalList and GetLocalListVersion. A list that is sent is stored with a copy
  of each authorization; when the station accepts it, the stored version of the list is
  replaced or updated. The tables are lists of rows; the serial numbers go on from the largest
  one in the table before the operation. Deleting a version deletes its entries (the foreign
  key cascades). What the device model says of the station is an argument.
\<close>

section \<open>Tables\<close>

record local_auth =
  la_id :: nat
  la_tenantId :: int
  la_idToken :: string
  la_idTokenType :: "string option"
  la_status :: string
  la_expiry :: "int option"
  la_groupAuthorizationId :: "nat option"
  la_authorizationId :: "nat option"

record list_version =
  lv_id :: nat
  lv_tenantId :: int
  lv_name :: string
  lv_versionNumber :: int

record send_list =
  sl_id :: nat
  sl_tenantId :: int
  sl_name :: string
  sl_correlationId :: string
  sl_versionNumber :: int
  sl_updateType :: string

record list_db =
  ld_authorizations :: "(int \<times> authorization) list"
  ld_local_auths :: "local_auth list"
  ld_versions :: "list_version list"
  ld_version_auths :: "(nat \<times> nat) list"     \<comment> \<open>version, local authorization\<close>
  ld_sends :: "send_list list"
  ld_send_auths :: "(nat \<times> nat) list"        \<comment> \<open>sent list, local authorization\<close>

definition joined :: "nat \<Rightarrow> (nat \<times> nat) list \<Rightarrow> local_auth list \<Rightarrow> local_auth list" where
  "joined i rows auths =
     List.map_filter (\<lambda>(j, k). if j = i then find (\<lambda>a. la_id a = k) auths else None) rows"

text \<open>The entries of a version and of a sent list.\<close>

definition version_entries :: "list_db \<Rightarrow> nat \<Rightarrow> local_auth list" where
  "version_entries db i = joined i (ld_version_auths db) (ld_local_auths db)"

definition sent_entries :: "list_db \<Rightarrow> nat \<Rightarrow> local_auth list" where
  "sent_entries db i = joined i (ld_send_auths db) (ld_local_auths db)"

section \<open>Storing a list that is sent\<close>

record auth_data =
  ad_idToken :: string
  ad_type :: string
  ad_groupIdToken :: "(string \<times> string) option"

text \<open>Authorizations are looked up without their tenant.\<close>

definition any_authorization :: "string \<Rightarrow> string option \<Rightarrow> list_db \<Rightarrow> authorization option" where
  "any_authorization tok t db =
     map_option snd (find (\<lambda>(tn, a). au_idToken a = tok \<and> (case t of None \<Rightarrow> True | Some ty \<Rightarrow> au_idTokenType a = Some ty))
       (ld_authorizations db))"

definition group_matches :: "authorization \<Rightarrow> auth_data \<Rightarrow> list_db \<Rightarrow> exn + bool" where
  "group_matches a d db =
     (case ad_groupIdToken d of
        None \<Rightarrow> Inr True
      | Some (tok, ty) \<Rightarrow>
          bind_res (fromIdTokenEnumType ty) (\<lambda>t.
            Inr (\<not> no_id (au_groupAuthorizationId a)
                 \<and> map_option au_id (any_authorization tok (Some t) db) = au_groupAuthorizationId a)))"

text \<open>The copy of the authorization of an entry; its id and tenant are set when it is stored.\<close>

definition local_copy :: "auth_data \<Rightarrow> list_db \<Rightarrow> exn + local_auth option" where
  "local_copy d db =
     bind_res (fromIdTokenEnumType (ad_type d)) (\<lambda>t.
       case any_authorization (ad_idToken d) (Some t) db of
         None \<Rightarrow> Inl (JsErr ''Authorization not found, invalid SendLocalListRequest'' [JStr (ad_idToken d)])
       | Some a \<Rightarrow>
           bind_res (group_matches a d db) (\<lambda>ok.
             if \<not> ok then Inl (JsErr ''Authorization groupIdToken does not match groupAuthorizationId in database'' [])
             else Inr (Some \<lparr> la_id = 0, la_tenantId = 0, la_idToken = au_idToken a, la_idTokenType = au_idTokenType a,
                              la_status = au_status a, la_expiry = au_cacheExpiry a,
                              la_groupAuthorizationId = au_groupAuthorizationId a, la_authorizationId = Some (au_id a) \<rparr>)))"

definition store_local_auth :: "int \<Rightarrow> nat \<Rightarrow> local_auth \<Rightarrow> list_db \<Rightarrow> list_db" where
  "store_local_auth tenantId sendId a db =
     (let k = serial la_id (ld_local_auths db)
      in db\<lparr> ld_local_auths := ld_local_auths db @ [a\<lparr> la_id := k, la_tenantId := tenantId \<rparr>],
             ld_send_auths := ld_send_auths db @ [(sendId, k)] \<rparr>)"

text \<open>The loop over the entries; an error leaves what was stored before it.\<close>

fun store_entries :: "int \<Rightarrow> nat \<Rightarrow> ('e \<Rightarrow> list_db \<Rightarrow> exn + local_auth option) \<Rightarrow> 'e list \<Rightarrow> list_db \<Rightarrow> (exn + unit) \<times> list_db" where
  "store_entries tenantId sendId copy [] db = (Inr (), db)"
| "store_entries tenantId sendId copy (e # es) db =
     (case copy e db of
        Inl x \<Rightarrow> (Inl x, db)
      | Inr None \<Rightarrow> store_entries tenantId sendId copy es db
      | Inr (Some a) \<Rightarrow> store_entries tenantId sendId copy es (store_local_auth tenantId sendId a db))"

definition create_send_list ::
  "('e \<Rightarrow> list_db \<Rightarrow> exn + local_auth option) \<Rightarrow> int \<Rightarrow> string \<Rightarrow> string \<Rightarrow> string \<Rightarrow> int \<Rightarrow> 'e list \<Rightarrow> list_db
   \<Rightarrow> (exn + send_list) \<times> list_db" where
  "create_send_list copy tenantId name correlationId updateType versionNumber entries db =
     (let s = \<lparr> sl_id = serial sl_id (ld_sends db), sl_tenantId = tenantId, sl_name = name,
                sl_correlationId = correlationId, sl_versionNumber = versionNumber, sl_updateType = updateType \<rparr>
      in case store_entries tenantId (sl_id s) copy entries (db\<lparr> ld_sends := ld_sends db @ [s] \<rparr>) of
           (Inl e, db1) \<Rightarrow> (Inl e, db1)
         | (Inr _, db1) \<Rightarrow> (Inr s, db1))"

definition createSendLocalListFromRequestData ::
  "int \<Rightarrow> string \<Rightarrow> string \<Rightarrow> string \<Rightarrow> int \<Rightarrow> auth_data list \<Rightarrow> list_db \<Rightarrow> (exn + send_list) \<times> list_db" where
  "createSendLocalListFromRequestData = create_send_list local_copy"

record id_tag_info =
  ti_status :: "string option"
  ti_expiryDate :: "int option"
  ti_parentIdTag :: "string option"

record auth_data16 =
  a6_idTag :: string
  a6_idTagInfo :: "id_tag_info option"

definition fromIdTagStatus :: "string \<Rightarrow> string" where
  "fromIdTagStatus status =
     (if status \<in> {''Accepted'', ''Blocked'', ''Expired'', ''ConcurrentTx''} then status else ''Invalid'')"

definition parent_authorization :: "auth_data16 \<Rightarrow> list_db \<Rightarrow> exn + nat option" where
  "parent_authorization d db =
     (case Option.bind (a6_idTagInfo d) ti_parentIdTag of
        Some (c # cs) \<Rightarrow>
          (case any_authorization (c # cs) None db of
             None \<Rightarrow> Inl (JsErr ''Parent authorization not found for parentIdTag'' [JStr (c # cs)])
           | Some p \<Rightarrow> Inr (Some (au_id p)))
      | _ \<Rightarrow> Inr None)"

text \<open>An entry without idTagInfo in a differential update is a deletion, kept with the status Invalid.\<close>

definition local_copy16 :: "string \<Rightarrow> auth_data16 \<Rightarrow> list_db \<Rightarrow> exn + local_auth option" where
  "local_copy16 updateType d db =
     (if a6_idTag d = [] then Inr None
      else
        let isDelete = (updateType = ''Differential'' \<and> a6_idTagInfo d = None);
            auth = any_authorization (a6_idTag d) None db
        in if auth = None \<and> \<not> isDelete
           then Inl (JsErr ''Authorization not found for idTag'' [JStr (a6_idTag d)])
           else bind_res (parent_authorization d db) (\<lambda>parent.
                  Inr (Some \<lparr> la_id = 0, la_tenantId = 0, la_idToken = a6_idTag d, la_idTokenType = None,
                              la_status = (if isDelete then ''Invalid''
                                           else fromIdTagStatus (case Option.bind (a6_idTagInfo d) ti_status of
                                                                   Some s \<Rightarrow> s | None \<Rightarrow> ''Accepted'')),
                              la_expiry = Option.bind (a6_idTagInfo d) ti_expiryDate,
                              la_groupAuthorizationId = parent, la_authorizationId = map_option au_id auth \<rparr>)))"

definition createSendLocalListFromRequestData16 ::
  "int \<Rightarrow> string \<Rightarrow> string \<Rightarrow> string \<Rightarrow> int \<Rightarrow> auth_data16 list \<Rightarrow> list_db \<Rightarrow> (exn + send_list) \<times> list_db" where
  "createSendLocalListFromRequestData16 tenantId name correlationId updateType =
     create_send_list (local_copy16 updateType) tenantId name correlationId updateType"

section \<open>The service\<close>

definition stored_version :: "int \<Rightarrow> string \<Rightarrow> list_db \<Rightarrow> exn + list_version option" where
  "stored_version tenantId name db = read_only_one (\<lambda>v. lv_tenantId v = tenantId \<and> lv_name v = name) (ld_versions db)"

definition version_error :: "int \<Rightarrow> list_version option \<Rightarrow> exn + unit" where
  "version_error versionNumber current =
     (if versionNumber \<le> 0 then Inl (JsErr ''Version number must be greater than 0'' [JNum (of_int versionNumber)])
      else case current of
             None \<Rightarrow> Inr ()
           | Some v \<Rightarrow>
               if versionNumber \<le> lv_versionNumber v
               then Inl (JsErr ''version number must be higher'' [JNum (of_int (lv_versionNumber v)), JNum (of_int versionNumber)])
               else Inr ())"

definition duplicate_error :: "string list \<Rightarrow> exn + unit" where
  "duplicate_error toks = (if distinct toks then Inr () else Inl (JsErr ''Duplicated idToken in SendLocalList'' (map JStr toks)))"

definition countUpdatedAuthList :: "string \<Rightarrow> local_auth list \<Rightarrow> local_auth list \<Rightarrow> exn + nat" where
  "countUpdatedAuthList updateType sent current =
     (if updateType = ''Full'' then Inr (length sent)
      else if updateType = ''Differential'' then Inr (card (set (map la_authorizationId (sent @ current))))
      else Inl (JsErr ''Unknown update type'' [JStr updateType]))"

record list_env =
  le_maxEntries :: "rat option"
  le_itemsPerMessage :: "js_num option"

definition items_bound :: "js_num option \<Rightarrow> nat \<Rightarrow> js_num" where
  "items_bound items n =
     (case items of
        Some (Fin q) \<Rightarrow> if q = 0 then Fin (of_nat n) else Fin q
      | Some (Inf pos) \<Rightarrow> Inf pos
      | _ \<Rightarrow> Fin (of_nat n))"

definition below_count :: "js_num \<Rightarrow> nat \<Rightarrow> bool" where
  "below_count b n = (case b of Fin q \<Rightarrow> q \<noteq> 0 \<and> q < of_nat n | Inf pos \<Rightarrow> \<not> pos | NaN \<Rightarrow> False)"

record send_request =
  sr_versionNumber :: int
  sr_updateType :: string
  sr_list :: "auth_data list"

definition persistSendLocalList ::
  "list_env \<Rightarrow> int \<Rightarrow> string \<Rightarrow> string \<Rightarrow> send_request \<Rightarrow> list_db \<Rightarrow> (exn + send_list) \<times> list_db" where
  "persistSendLocalList env tenantId name correlationId request db =
     (case bind_res (stored_version tenantId name db) (\<lambda>current.
           bind_res (version_error (sr_versionNumber request) current) (\<lambda>_.
           bind_res (duplicate_error (map (\<lambda>d. ad_idToken d @ ad_type d) (sr_list request))) (\<lambda>_. Inr current))) of
        Inl e \<Rightarrow> (Inl e, db)
      | Inr current \<Rightarrow>
          (case createSendLocalListFromRequestData tenantId name correlationId (sr_updateType request)
                  (sr_versionNumber request) (sr_list request) db of
             (Inl e, db1) \<Rightarrow> (Inl e, db1)
           | (Inr s, db1) \<Rightarrow>
               (case countUpdatedAuthList (sr_updateType request) (sent_entries db1 (sl_id s))
                       (case current of Some v \<Rightarrow> version_entries db (lv_id v) | None \<Rightarrow> []) of
                  Inl e \<Rightarrow> (Inl e, db1)
                | Inr n \<Rightarrow>
                    if (case le_maxEntries env of Some m \<Rightarrow> m < of_nat n | None \<Rightarrow> False)
                    then (Inl (JsErr ''Updated local auth list length will exceed max local auth list entries'' []), db1)
                    else if below_count (items_bound (le_itemsPerMessage env) (length (sr_list request))) (length (sr_list request))
                    then (Inl (JsErr ''Number of authorizations exceeds itemsPerMessageSendLocalList'' []), db1)
                    else (Inr s, db1))))"

record send_request16 =
  s6_listVersion :: int
  s6_updateType :: string
  s6_list :: "auth_data16 list"

definition persistSendLocalList16 ::
  "int \<Rightarrow> string \<Rightarrow> string \<Rightarrow> send_request16 \<Rightarrow> list_db \<Rightarrow> (exn + send_list) \<times> list_db" where
  "persistSendLocalList16 tenantId name correlationId request db =
     (case bind_res (stored_version tenantId name db) (\<lambda>current.
           bind_res (version_error (s6_listVersion request) current) (\<lambda>_. duplicate_error (map a6_idTag (s6_list request)))) of
        Inl e \<Rightarrow> (Inl e, db)
      | Inr _ \<Rightarrow>
          createSendLocalListFromRequestData16 tenantId name correlationId (s6_updateType request)
            (s6_listVersion request) (s6_list request) db)"

section \<open>The stored version\<close>

text \<open>Versions are looked up by the name of the station alone.\<close>

definition any_version :: "string \<Rightarrow> list_db \<Rightarrow> list_version option" where
  "any_version name db = find (\<lambda>v. lv_name v = name) (ld_versions db)"

definition new_version :: "nat \<Rightarrow> int \<Rightarrow> string \<Rightarrow> int \<Rightarrow> list_db \<Rightarrow> list_db" where
  "new_version i tenantId name versionNumber db =
     db\<lparr> ld_versions := ld_versions db
          @ [\<lparr> lv_id = i, lv_tenantId = tenantId, lv_name = name, lv_versionNumber = versionNumber \<rparr>] \<rparr>"

definition set_version_number :: "nat \<Rightarrow> int \<Rightarrow> list_db \<Rightarrow> list_db" where
  "set_version_number i versionNumber db =
     db\<lparr> ld_versions := update_rows (\<lambda>v. lv_id v = i) (\<lambda>v. v\<lparr> lv_versionNumber := versionNumber \<rparr>) (ld_versions db) \<rparr>"

definition destroy_entries :: "(nat \<Rightarrow> nat \<Rightarrow> bool) \<Rightarrow> list_db \<Rightarrow> list_db" where
  "destroy_entries P db = db\<lparr> ld_version_auths := filter (\<lambda>(i, k). \<not> P i k) (ld_version_auths db) \<rparr>"

definition validateOrReplaceLocalListVersionForStation :: "int \<Rightarrow> int \<Rightarrow> string \<Rightarrow> list_db \<Rightarrow> list_db" where
  "validateOrReplaceLocalListVersionForStation tenantId versionNumber name db =
     (case any_version name db of
        Some v \<Rightarrow>
          if lv_versionNumber v = versionNumber then db
          else set_version_number (lv_id v) versionNumber (destroy_entries (\<lambda>i k. i = lv_id v) db)
      | None \<Rightarrow> new_version (serial lv_id (ld_versions db)) tenantId name versionNumber db)"

definition destroy_versions :: "string \<Rightarrow> list_db \<Rightarrow> list_db" where
  "destroy_versions name db =
     (let gone = set (map lv_id (filter (\<lambda>v. lv_name v = name) (ld_versions db)))
      in (destroy_entries (\<lambda>i k. i \<in> gone) db)\<lparr> ld_versions := filter (\<lambda>v. lv_name v \<noteq> name) (ld_versions db) \<rparr>)"

definition replaceLocalListVersion :: "int \<Rightarrow> string \<Rightarrow> int \<Rightarrow> local_auth list \<Rightarrow> list_db \<Rightarrow> list_db" where
  "replaceLocalListVersion tenantId name versionNumber entries db =
     (let i = serial lv_id (ld_versions db);
          db1 = (case any_version name db of None \<Rightarrow> db | Some v \<Rightarrow> destroy_versions name db);
          db2 = new_version i tenantId name versionNumber db1
      in db2\<lparr> ld_version_auths := ld_version_auths db2 @ map (\<lambda>a. (i, la_id a)) entries \<rparr>)"

definition is_tombstone :: "local_auth \<Rightarrow> bool" where
  "is_tombstone a = (no_id (la_authorizationId a) \<and> la_status a = ''Invalid'')"

text \<open>The entries of the version, as they were loaded, that an entry of the update replaces or deletes.\<close>

definition replaced_entries :: "local_auth list \<Rightarrow> local_auth \<Rightarrow> nat set" where
  "replaced_entries loaded a =
     set (map la_id (filter (\<lambda>b. if is_tombstone a then la_idToken b = la_idToken a
                                  else la_authorizationId b = la_authorizationId a) loaded))"

definition apply_entry :: "nat \<Rightarrow> local_auth list \<Rightarrow> local_auth \<Rightarrow> list_db \<Rightarrow> list_db" where
  "apply_entry i loaded a db =
     (let db1 = destroy_entries (\<lambda>j k. j = i \<and> k \<in> replaced_entries loaded a) db
      in if is_tombstone a then db1
         else db1\<lparr> ld_version_auths := ld_version_auths db1 @ [(i, la_id a)] \<rparr>)"

definition updateLocalListVersion :: "string \<Rightarrow> int \<Rightarrow> local_auth list \<Rightarrow> list_db \<Rightarrow> exn + list_db" where
  "updateLocalListVersion name versionNumber entries db =
     (case any_version name db of
        None \<Rightarrow> Inl (JsErr ''LocalListVersion not found during differential update'' [JStr name])
      | Some v \<Rightarrow>
          Inr (set_version_number (lv_id v) versionNumber
            (fold (apply_entry (lv_id v) (version_entries db (lv_id v))) entries db)))"

text \<open>Another update type does nothing.\<close>

definition createOrUpdateLocalListVersion :: "int \<Rightarrow> string \<Rightarrow> send_list \<Rightarrow> list_db \<Rightarrow> exn + list_db" where
  "createOrUpdateLocalListVersion tenantId name s db =
     (if sl_updateType s = ''Full''
      then Inr (replaceLocalListVersion tenantId name (sl_versionNumber s) (sent_entries db (sl_id s)) db)
      else if sl_updateType s = ''Differential''
      then updateLocalListVersion name (sl_versionNumber s) (sent_entries db (sl_id s)) db
      else Inr db)"

section \<open>Responses\<close>

text \<open>The tables and the GetLocalListVersion calls that are sent, with their protocol.\<close>

record list_state =
  ls_db :: list_db
  ls_calls :: "string list"

definition getSendLocalListRequest :: "int \<Rightarrow> string \<Rightarrow> string \<Rightarrow> list_db \<Rightarrow> exn + send_list option" where
  "getSendLocalListRequest tenantId name correlationId db =
     read_only_one (\<lambda>s. sl_tenantId s = tenantId \<and> sl_name s = name \<and> sl_correlationId s = correlationId) (ld_sends db)"

definition handleSendLocalListResponse ::
  "string \<Rightarrow> int \<Rightarrow> string \<Rightarrow> string \<Rightarrow> string \<Rightarrow> list_state \<Rightarrow> (exn + unit) \<times> list_state" where
  "handleSendLocalListResponse protocol tenantId name correlationId status st =
     (case getSendLocalListRequest tenantId name correlationId (ls_db st) of
        Inl e \<Rightarrow> (Inl e, st)
      | Inr None \<Rightarrow> (Inr (), st)
      | Inr (Some s) \<Rightarrow>
          if status = ''Accepted''
          then (case createOrUpdateLocalListVersion tenantId name s (ls_db st) of
                  Inl e \<Rightarrow> (Inl e, st)
                | Inr db \<Rightarrow> (Inr (), st\<lparr> ls_db := db \<rparr>))
          else if status = ''VersionMismatch'' then (Inr (), st\<lparr> ls_calls := ls_calls st @ [protocol] \<rparr>)
          else (Inr (), st))"

definition handleSendLocalListResponse16 ::
  "int \<Rightarrow> string \<Rightarrow> string \<Rightarrow> string \<Rightarrow> list_state \<Rightarrow> (exn + unit) \<times> list_state" where
  "handleSendLocalListResponse16 = handleSendLocalListResponse ''ocpp1.6''"

definition handleSendLocalListResponse2 ::
  "int \<Rightarrow> string \<Rightarrow> string \<Rightarrow> string \<Rightarrow> list_state \<Rightarrow> (exn + unit) \<times> list_state" where
  "handleSendLocalListResponse2 = handleSendLocalListResponse ''ocpp2.1''"

definition handleGetLocalListVersionResponse :: "int \<Rightarrow> string \<Rightarrow> int \<Rightarrow> list_state \<Rightarrow> list_state" where
  "handleGetLocalListVersionResponse tenantId name versionNumber st =
     st\<lparr> ls_db := validateOrReplaceLocalListVersionForStation tenantId versionNumber name (ls_db st) \<rparr>"

section \<open>Entries\<close>

lemma joined_simps [simp]:
  "joined i [] auths = []"
  "joined i (rows @ rows') auths = joined i rows auths @ joined i rows' auths"
  by (simp_all add: joined_def map_filter_def)

lemma joined_Cons:
  "joined i ((j, k) # rows) auths =
     (if j = i then (case find (\<lambda>a. la_id a = k) auths of Some a \<Rightarrow> [a] | None \<Rightarrow> []) else []) @ joined i rows auths"
  by (simp add: joined_def map_filter_def split: option.split)

lemma find_SomeD: "find P xs = Some x \<Longrightarrow> x \<in> set xs \<and> P x"
  by (induction xs) (auto split: if_splits)

lemma find_key: "find (\<lambda>b. key b = k) xs = Some a \<Longrightarrow> key a = k"
  by (induction xs) (auto split: if_splits)

lemma joined_found: "a \<in> set (joined i rows auths) \<Longrightarrow> find (\<lambda>b. la_id b = la_id a) auths = Some a"
proof (induction rows)
  case (Cons r rows)
  obtain j k where r: "r = (j, k)" by (cases r)
  show ?case
  proof (cases "find (\<lambda>a. la_id a = k) auths")
    case None
    then have "joined i (r # rows) auths = joined i rows auths" by (simp add: r joined_Cons)
    then show ?thesis using Cons by simp
  next
    case (Some c)
    then have "find (\<lambda>b. la_id b = la_id c) auths = Some c" using find_key [OF Some] by simp
    moreover have "joined i (r # rows) auths = (if j = i then [c] else []) @ joined i rows auths"
      using Some by (simp add: r joined_Cons)
    ultimately show ?thesis using Cons by (cases "a = c") (auto split: if_splits)
  qed
qed simp

lemma joined_none: "i \<notin> fst ` set rows \<Longrightarrow> joined i rows auths = []"
  by (induction rows) (auto simp: joined_Cons)

lemma joined_rows: "(\<And>a. a \<in> set as \<Longrightarrow> find (\<lambda>b. la_id b = la_id a) auths = Some a) \<Longrightarrow> joined i (map (\<lambda>a. (i, la_id a)) as) auths = as"
  by (induction as) (auto simp: joined_Cons)

lemma joined_filter:
  "joined i (filter (\<lambda>(j, k). \<not> (j = i \<and> k \<in> K)) rows) auths = filter (\<lambda>a. la_id a \<notin> K) (joined i rows auths)"
proof (induction rows)
  case (Cons r rows)
  obtain j k where r: "r = (j, k)" by (cases r)
  show ?case
  proof (cases "find (\<lambda>a. la_id a = k) auths")
    case (Some a)
    then have "la_id a = k" by (rule find_key)
    with Some show ?thesis using Cons by (cases "j = i") (simp_all add: r joined_Cons)
  next
    case None
    then show ?thesis using Cons by (cases "j = i") (simp_all add: r joined_Cons)
  qed
qed simp

section \<open>Integrity\<close>

text \<open>Ids of versions are unique, and every entry belongs to a version and every stored sending to a list.\<close>

definition list_ok :: "list_db \<Rightarrow> bool" where
  "list_ok db \<longleftrightarrow>
     distinct (map lv_id (ld_versions db)) \<and>
     fst ` set (ld_version_auths db) \<subseteq> lv_id ` set (ld_versions db) \<and>
     fst ` set (ld_send_auths db) \<subseteq> sl_id ` set (ld_sends db)"

lemma update_rows_map: "(\<And>x. key (f x) = key x) \<Longrightarrow> map key (update_rows P f xs) = map key xs"
  by (induction xs) auto

lemma set_version_number_ok: "list_ok (set_version_number i n db) = list_ok db"
proof -
  have *: "map lv_id (update_rows (\<lambda>v. lv_id v = i) (\<lambda>v. v\<lparr> lv_versionNumber := n \<rparr>) (ld_versions db)) = map lv_id (ld_versions db)"
    by (rule update_rows_map) simp
  have "lv_id ` set (update_rows (\<lambda>v. lv_id v = i) (\<lambda>v. v\<lparr> lv_versionNumber := n \<rparr>) (ld_versions db)) = lv_id ` set (ld_versions db)"
    using arg_cong [OF *, of set] by (simp only: set_map)
  with * show ?thesis
    by (simp add: list_ok_def set_version_number_def del: update_rows_simps)
qed

lemma destroy_entries_ok: "list_ok db \<Longrightarrow> list_ok (destroy_entries P db)"
  by (auto simp: list_ok_def destroy_entries_def)

lemma new_version_ok: "list_ok db \<Longrightarrow> i \<notin> lv_id ` set (ld_versions db) \<Longrightarrow> list_ok (new_version i tenantId name n db)"
  by (auto simp: list_ok_def new_version_def)

lemma serial_not_in: "serial key xs \<notin> key ` set xs"
  using serial_fresh [of _ xs key] by (metis image_iff less_irrefl)

lemma destroy_versions_ok:
  assumes ok: "list_ok db"
  shows "list_ok (destroy_versions name db)"
proof -
  have "fst r \<in> lv_id ` set (filter (\<lambda>v. lv_name v \<noteq> name) (ld_versions db))"
    if r: "r \<in> set (ld_version_auths db)" "fst r \<notin> set (map lv_id (filter (\<lambda>v. lv_name v = name) (ld_versions db)))" for r
  proof -
    have "fst r \<in> lv_id ` set (ld_versions db)" using ok r(1) unfolding list_ok_def by blast
    then obtain v where "v \<in> set (ld_versions db)" "lv_id v = fst r" by auto
    then show ?thesis using r(2) by (auto intro!: image_eqI [of _ _ v])
  qed
  then have "fst ` set (ld_version_auths (destroy_versions name db)) \<subseteq> lv_id ` set (ld_versions (destroy_versions name db))"
    by (fastforce simp: destroy_versions_def destroy_entries_def Let_def)
  then show ?thesis
    using ok by (simp add: list_ok_def destroy_versions_def destroy_entries_def Let_def distinct_map_filter)
qed

lemma destroyed_ids: "lv_id ` set (ld_versions (destroy_versions name db)) \<subseteq> lv_id ` set (ld_versions db)"
  by (auto simp: destroy_versions_def Let_def)

lemma new_entries_ok:
  "list_ok db \<Longrightarrow> i \<in> lv_id ` set (ld_versions db) \<Longrightarrow>
     list_ok (db\<lparr> ld_version_auths := ld_version_auths db @ map (\<lambda>a. (i, la_id a)) entries \<rparr>)"
  by (auto simp: list_ok_def)

lemma replace_ok:
  assumes ok: "list_ok db"
  shows "list_ok (replaceLocalListVersion tenantId name n entries db)"
proof -
  define db1 where "db1 = (case any_version name db of None \<Rightarrow> db | Some v \<Rightarrow> destroy_versions name db)"
  let ?i = "serial lv_id (ld_versions db)"
  have "list_ok db1" using ok by (cases "any_version name db") (simp_all add: db1_def destroy_versions_ok)
  moreover have "lv_id ` set (ld_versions db1) \<subseteq> lv_id ` set (ld_versions db)"
    by (cases "any_version name db") (simp_all add: db1_def destroyed_ids)
  then have "?i \<notin> lv_id ` set (ld_versions db1)" using serial_not_in [of lv_id "ld_versions db"] by blast
  ultimately have "list_ok (new_version ?i tenantId name n db1)" by (rule new_version_ok)
  moreover have "?i \<in> lv_id ` set (ld_versions (new_version ?i tenantId name n db1))" by (simp add: new_version_def)
  ultimately show ?thesis
    unfolding replaceLocalListVersion_def Let_def db1_def [symmetric] by (rule new_entries_ok)
qed

lemma apply_entry_ok: "list_ok db \<Longrightarrow> i \<in> lv_id ` set (ld_versions db) \<Longrightarrow> list_ok (apply_entry i loaded a db)"
  using destroy_entries_ok [of db "\<lambda>j k. j = i \<and> k \<in> replaced_entries loaded a"]
  by (auto simp: apply_entry_def Let_def list_ok_def destroy_entries_def)

lemma apply_entry_versions [simp]:
  "ld_versions (apply_entry i loaded a db) = ld_versions db"
  "ld_local_auths (apply_entry i loaded a db) = ld_local_auths db"
  by (simp_all add: apply_entry_def Let_def destroy_entries_def)

lemma fold_apply_versions [simp]:
  "ld_versions (fold (apply_entry i loaded) as db) = ld_versions db"
  "ld_local_auths (fold (apply_entry i loaded) as db) = ld_local_auths db"
  by (induction as arbitrary: db) simp_all

lemma fold_apply_ok: "list_ok db \<Longrightarrow> i \<in> lv_id ` set (ld_versions db) \<Longrightarrow> list_ok (fold (apply_entry i loaded) as db)"
  by (induction as arbitrary: db) (simp_all add: apply_entry_ok)

lemma update_ok: "updateLocalListVersion name n entries db = Inr db' \<Longrightarrow> list_ok db \<Longrightarrow> list_ok db'"
  by (auto simp: updateLocalListVersion_def any_version_def set_version_number_ok dest!: find_SomeD split: option.splits
      intro!: fold_apply_ok)

lemma store_entries_ok:
  "list_ok db \<Longrightarrow> sid \<in> sl_id ` set (ld_sends db) \<Longrightarrow> list_ok (snd (store_entries tenantId sid copy es db))"
proof (induction tenantId sid copy es db rule: store_entries.induct)
  case (2 tenantId sendId copy e es db)
  have "list_ok (store_local_auth tenantId sendId a db)" for a
    using "2.prems" by (auto simp: list_ok_def store_local_auth_def Let_def)
  moreover have "ld_sends (store_local_auth tenantId sendId a db) = ld_sends db" for a
    by (simp add: store_local_auth_def Let_def)
  ultimately show ?case
    using "2.IH" "2.prems" by (auto split: sum.split option.split)
qed simp

lemma create_send_list_ok:
  "list_ok db \<Longrightarrow> list_ok (snd (create_send_list copy tenantId name c u n es db))"
proof -
  assume ok: "list_ok db"
  let ?s = "\<lparr> sl_id = serial sl_id (ld_sends db), sl_tenantId = tenantId, sl_name = name, sl_correlationId = c,
      sl_versionNumber = n, sl_updateType = u \<rparr>"
  have "list_ok (db\<lparr> ld_sends := ld_sends db @ [?s] \<rparr>)" using ok by (auto simp: list_ok_def)
  then have "list_ok (snd (store_entries tenantId (sl_id ?s) copy es (db\<lparr> ld_sends := ld_sends db @ [?s] \<rparr>)))"
    by (rule store_entries_ok) simp
  then show ?thesis by (auto simp: create_send_list_def Let_def split: prod.split sum.split)
qed

section \<open>What an accepted list does\<close>

text \<open>The list of a station after a differential update: entries for the same authorization (for a
  tombstone, the same token) go, and those of the update that are no tombstones are added.\<close>

definition replaced_by :: "local_auth \<Rightarrow> local_auth \<Rightarrow> bool" where
  "replaced_by a b = (if is_tombstone a then la_idToken b = la_idToken a else la_authorizationId b = la_authorizationId a)"

definition updated_list :: "local_auth list \<Rightarrow> local_auth list \<Rightarrow> local_auth list" where
  "updated_list old sent =
     filter (\<lambda>b. \<not> list_ex (\<lambda>a. replaced_by a b) sent) old @ filter (\<lambda>a. \<not> is_tombstone a) sent"

definition accepted_list :: "string \<Rightarrow> local_auth list \<Rightarrow> local_auth list \<Rightarrow> local_auth list" where
  "accepted_list updateType old sent = (if updateType = ''Full'' then sent else updated_list old sent)"

lemma replaced_entries_iff: "k \<in> replaced_entries loaded a \<longleftrightarrow> (\<exists>b \<in> set loaded. la_id b = k \<and> replaced_by a b)"
  by (auto simp: replaced_entries_def replaced_by_def)

lemma fold_apply_rows:
  assumes "\<And>a b. a \<in> set as \<Longrightarrow> b \<in> set as \<Longrightarrow> la_id a \<notin> replaced_entries loaded b"
  shows "ld_version_auths (fold (apply_entry i loaded) as db) =
    filter (\<lambda>(j, k). \<not> (j = i \<and> k \<in> (\<Union>a \<in> set as. replaced_entries loaded a))) (ld_version_auths db) @
    map (\<lambda>a. (i, la_id a)) (filter (\<lambda>a. \<not> is_tombstone a) as)"
  using assms
proof (induction as rule: rev_induct)
  case (snoc a as)
  have keep: "filter (\<lambda>(j, k). \<not> (j = i \<and> k \<in> replaced_entries loaded a))
      (map (\<lambda>a. (i, la_id a)) (filter (\<lambda>a. \<not> is_tombstone a) as)) = map (\<lambda>a. (i, la_id a)) (filter (\<lambda>a. \<not> is_tombstone a) as)"
    using snoc.prems [of _ a] by (auto simp: filter_id_conv)
  have rows: "filter (\<lambda>(j, k). \<not> (j = i \<and> k \<in> replaced_entries loaded a))
      (filter (\<lambda>(j, k). \<not> (j = i \<and> k \<in> (\<Union>a \<in> set as. replaced_entries loaded a))) (ld_version_auths db)) =
      filter (\<lambda>(j, k). \<not> (j = i \<and> k \<in> (\<Union>a \<in> set (as @ [a]). replaced_entries loaded a))) (ld_version_auths db)"
    unfolding filter_filter by (rule filter_cong) auto
  have "ld_version_auths (fold (apply_entry i loaded) as db) =
    filter (\<lambda>(j, k). \<not> (j = i \<and> k \<in> (\<Union>a \<in> set as. replaced_entries loaded a))) (ld_version_auths db) @
    map (\<lambda>a. (i, la_id a)) (filter (\<lambda>a. \<not> is_tombstone a) as)"
    by (rule snoc.IH) (use snoc.prems in simp)
  then show ?case
    by (simp only: fold_append fold_simps o_apply id_apply apply_entry_def [of _ _ a] Let_def destroy_entries_def list_db.simps
        filter_append keep rows split: if_split) simp
qed simp

lemma sent_found: "a \<in> set (sent_entries db i) \<Longrightarrow> find (\<lambda>b. la_id b = la_id a) (ld_local_auths db) = Some a"
  unfolding sent_entries_def by (rule joined_found)

lemma version_found: "a \<in> set (version_entries db i) \<Longrightarrow> find (\<lambda>b. la_id b = la_id a) (ld_local_auths db) = Some a"
  unfolding version_entries_def by (rule joined_found)

lemma update_entries:
  assumes u: "updateLocalListVersion name n sent db = Inr db'" and v: "any_version name db = Some v"
    and found: "\<And>a. a \<in> set sent \<Longrightarrow> find (\<lambda>b. la_id b = la_id a) (ld_local_auths db) = Some a"
    and fresh: "\<And>a b. a \<in> set sent \<Longrightarrow> b \<in> set (version_entries db (lv_id v)) \<Longrightarrow> la_id a \<noteq> la_id b"
  shows "version_entries db' (lv_id v) = updated_list (version_entries db (lv_id v)) sent"
proof -
  let ?i = "lv_id v" and ?old = "version_entries db (lv_id v)"
  have db': "db' = set_version_number ?i n (fold (apply_entry ?i ?old) sent db)"
    using u v by (simp add: updateLocalListVersion_def)
  have "la_id a \<notin> replaced_entries ?old b" if "a \<in> set sent" "b \<in> set sent" for a b
  proof
    assume "la_id a \<in> replaced_entries ?old b"
    then obtain c where "c \<in> set ?old" "la_id c = la_id a" unfolding replaced_entries_iff by blast
    then show False using fresh [OF that(1)] by metis
  qed
  note rows = fold_apply_rows [OF this, where i = ?i and db = db]
  have kept: "filter (\<lambda>b. la_id b \<notin> (\<Union>a \<in> set sent. replaced_entries ?old a)) ?old
      = filter (\<lambda>b. \<not> list_ex (\<lambda>a. replaced_by a b) sent) ?old"
  proof (rule filter_cong [OF refl])
    fix b assume b: "b \<in> set ?old"
    have "c = b" if "c \<in> set ?old" "la_id c = la_id b" for c
      using version_found [OF b] version_found [OF that(1)] that(2) by simp
    then show "(la_id b \<notin> (\<Union>a \<in> set sent. replaced_entries ?old a)) = (\<not> list_ex (\<lambda>a. replaced_by a b) sent)"
      using b by (auto simp: replaced_entries_iff list_ex_iff)
  qed
  have new: "joined ?i (map (\<lambda>a. (?i, la_id a)) (filter (\<lambda>a. \<not> is_tombstone a) sent)) (ld_local_auths db)
      = filter (\<lambda>a. \<not> is_tombstone a) sent"
    by (rule joined_rows) (simp add: found)
  have "version_entries db' ?i = joined ?i (ld_version_auths (fold (apply_entry ?i ?old) sent db)) (ld_local_auths db)"
    by (simp add: db' version_entries_def set_version_number_def)
  also have "\<dots> = filter (\<lambda>b. la_id b \<notin> (\<Union>a \<in> set sent. replaced_entries ?old a)) ?old @ filter (\<lambda>a. \<not> is_tombstone a) sent"
    using rows by (simp only: joined_simps joined_filter new version_entries_def)
  finally show ?thesis by (simp only: kept updated_list_def)
qed

definition station_list :: "string \<Rightarrow> list_db \<Rightarrow> local_auth list" where
  "station_list name db = (case any_version name db of None \<Rightarrow> [] | Some v \<Rightarrow> version_entries db (lv_id v))"

definition station_version :: "string \<Rightarrow> list_db \<Rightarrow> int option" where
  "station_version name db = map_option lv_versionNumber (any_version name db)"

lemma found_updated:
  "(\<And>x. P (f x) = P x) \<Longrightarrow> find P (update_rows Q f xs) = map_option (\<lambda>x. if Q x then f x else x) (find P xs)"
  by (induction xs) auto

lemma set_number_version:
  "any_version name (set_version_number i n db) =
     map_option (\<lambda>v. if lv_id v = i then v\<lparr> lv_versionNumber := n \<rparr> else v) (any_version name db)"
  unfolding any_version_def set_version_number_def by (simp add: found_updated)

lemma any_version_none: "any_version name db = None \<longleftrightarrow> filter (\<lambda>v. lv_name v = name) (ld_versions db) = []"
  by (auto simp: any_version_def find_None_iff filter_empty_conv)

lemma find_append_none: "find P xs = None \<Longrightarrow> find P (xs @ ys) = find P ys"
  by (induction xs) (auto split: if_splits)

lemma new_version_found:
  "any_version name db = None \<Longrightarrow>
     any_version name (new_version i t name n db) = Some \<lparr> lv_id = i, lv_tenantId = t, lv_name = name, lv_versionNumber = n \<rparr>"
  by (simp add: any_version_def new_version_def find_append_none)

lemma destroyed_version: "any_version name (destroy_versions name db) = None"
  by (simp add: any_version_none destroy_versions_def Let_def)

lemma destroyed_rows:
  "ld_local_auths (destroy_versions name db) = ld_local_auths db"
  "set (ld_version_auths (destroy_versions name db)) \<subseteq> set (ld_version_auths db)"
  by (auto simp: destroy_versions_def destroy_entries_def Let_def)

lemma replace_list:
  assumes ok: "list_ok db" and found: "\<And>a. a \<in> set as \<Longrightarrow> find (\<lambda>b. la_id b = la_id a) (ld_local_auths db) = Some a"
    and db'_def: "db' = replaceLocalListVersion tenantId name n as db"
  shows "station_list name db' = as" "station_version name db' = Some n"
proof -
  define db1 where "db1 = (case any_version name db of None \<Rightarrow> db | Some v \<Rightarrow> destroy_versions name db)"
  let ?i = "serial lv_id (ld_versions db)"
  have none: "any_version name db1 = None" and auths: "ld_local_auths db1 = ld_local_auths db"
    and rows: "set (ld_version_auths db1) \<subseteq> set (ld_version_auths db)"
    using destroyed_rows [of name db] by (cases "any_version name db"; simp add: db1_def destroyed_version)+
  have "fst ` set (ld_version_auths db1) \<subseteq> lv_id ` set (ld_versions db)"
    using rows ok unfolding list_ok_def by blast
  then have "?i \<notin> fst ` set (ld_version_auths db1)" using serial_not_in [of lv_id "ld_versions db"] by blast
  then have old: "joined ?i (ld_version_auths db1) xs = []" for xs by (rule joined_none)
  have db': "db' = (new_version ?i tenantId name n db1)\<lparr> ld_version_auths := ld_version_auths db1 @ map (\<lambda>a. (?i, la_id a)) as \<rparr>"
    unfolding db'_def replaceLocalListVersion_def Let_def db1_def [symmetric] by (simp add: new_version_def)
  have "any_version name db' = any_version name (new_version ?i tenantId name n db1)"
    by (simp add: db' any_version_def)
  then have v: "any_version name db' = Some \<lparr> lv_id = ?i, lv_tenantId = tenantId, lv_name = name, lv_versionNumber = n \<rparr>"
    by (simp only: new_version_found [OF none])
  have "version_entries db' ?i = as"
    using joined_rows [OF found, where i = ?i] by (simp add: version_entries_def db' new_version_def auths old)
  then show "station_list name db' = as" "station_version name db' = Some n"
    by (simp_all add: station_list_def station_version_def v)
qed

lemma update_list:
  assumes u: "updateLocalListVersion name n sent db = Inr db'"
    and found: "\<And>a. a \<in> set sent \<Longrightarrow> find (\<lambda>b. la_id b = la_id a) (ld_local_auths db) = Some a"
    and fresh: "la_id ` set sent \<inter> la_id ` set (station_list name db) = {}"
  shows "station_list name db' = updated_list (station_list name db) sent" "station_version name db' = Some n"
proof -
  obtain v where v: "any_version name db = Some v" using u by (auto simp: updateLocalListVersion_def split: option.splits)
  then have old: "station_list name db = version_entries db (lv_id v)" by (simp add: station_list_def)
  have "la_id a \<noteq> la_id b" if "a \<in> set sent" "b \<in> set (version_entries db (lv_id v))" for a b
    using that fresh by (auto simp: old)
  from update_entries [OF u v found this]
  have e: "version_entries db' (lv_id v) = updated_list (version_entries db (lv_id v)) sent" .
  let ?db1 = "fold (apply_entry (lv_id v) (version_entries db (lv_id v))) sent db"
  have "any_version name ?db1 = Some v" using v by (simp add: any_version_def)
  moreover have "db' = set_version_number (lv_id v) n ?db1" using u v by (simp add: updateLocalListVersion_def)
  ultimately have "any_version name db' = Some (v\<lparr> lv_versionNumber := n \<rparr>)" by (simp add: set_number_version)
  then show "station_list name db' = updated_list (station_list name db) sent" "station_version name db' = Some n"
    using e by (simp_all add: station_list_def station_version_def old [unfolded station_list_def] v)
qed


lemma accepted_response:
  "getSendLocalListRequest tenantId name c db = Inr (Some s) \<Longrightarrow>
     handleSendLocalListResponse protocol tenantId name c ''Accepted'' \<lparr> ls_db = db, ls_calls = calls \<rparr> = (Inr (), st') \<Longrightarrow>
     createOrUpdateLocalListVersion tenantId name s db = Inr (ls_db st')"
  by (auto simp: handleSendLocalListResponse_def split: sum.splits)

lemma sent_request_stored:
  "getSendLocalListRequest tenantId name c db = Inr (Some s) \<Longrightarrow>
     s \<in> set (ld_sends db) \<and> sl_tenantId s = tenantId \<and> sl_name s = name \<and> sl_correlationId s = c"
  unfolding getSendLocalListRequest_def read_only_one_def
  by (auto simp: filter_eq_Cons_iff split: if_splits list.splits)

lemma created_list:
  assumes "createOrUpdateLocalListVersion tenantId name s db = Inr db'" "list_ok db"
    "sl_updateType s = ''Full'' \<or> sl_updateType s = ''Differential''"
    "la_id ` set (sent_entries db (sl_id s)) \<inter> la_id ` set (station_list name db) = {}"
  shows "station_version name db' = Some (sl_versionNumber s) \<and>
    station_list name db' = accepted_list (sl_updateType s) (station_list name db) (sent_entries db (sl_id s))"
proof (cases "sl_updateType s = ''Full''")
  case True
  then have "db' = replaceLocalListVersion tenantId name (sl_versionNumber s) (sent_entries db (sl_id s)) db"
    using assms(1) by (simp add: createOrUpdateLocalListVersion_def)
  from replace_list [OF assms(2) sent_found this] show ?thesis by (simp add: accepted_list_def True)
next
  case False
  then have "updateLocalListVersion name (sl_versionNumber s) (sent_entries db (sl_id s)) db = Inr db'"
    using assms(1,3) by (simp add: createOrUpdateLocalListVersion_def)
  from update_list [OF this sent_found assms(4)] show ?thesis by (simp add: accepted_list_def False)
qed

section \<open>Properties\<close>



definition list_authorization :: "nat \<Rightarrow> string \<Rightarrow> authorization" where
  "list_authorization i tok =
     \<lparr> au_id = i, au_idToken = tok, au_idTokenType = Some ''ISO14443'', au_status = ''Accepted'', au_cacheExpiry = None,
       au_concurrent = None, au_isPrepaid = False, au_prepaidBalance = None, au_allowedConnectorTypes = None,
       au_disallowedEvseIdPrefixes = None, au_realTimeAuth = None, au_realTimeAuthUrl = None,
       au_realTimeAuthLastAttempt = None, au_realTimeAuthTimeout = None, au_groupAuthorization = None,
       au_groupAuthorizationId = None, au_display = JUndef \<rparr>"

definition demo_local :: "nat \<Rightarrow> nat \<Rightarrow> string \<Rightarrow> local_auth" where
  "demo_local i a tok =
     \<lparr> la_id = i, la_tenantId = 1, la_idToken = tok, la_idTokenType = Some ''ISO14443'', la_status = ''Accepted'',
       la_expiry = None, la_groupAuthorizationId = None, la_authorizationId = Some a \<rparr>"

definition demo_sent :: "string \<Rightarrow> send_list" where
  "demo_sent u = \<lparr> sl_id = 1, sl_tenantId = 1, sl_name = ''CP1'', sl_correlationId = ''m1'', sl_versionNumber = 2, sl_updateType = u \<rparr>"

text \<open>Version 1 with the entries A and B; an update with A and C, which differs by its type, waits for its response.\<close>

definition demo_lists :: "string \<Rightarrow> list_db" where
  "demo_lists u =
     \<lparr> ld_authorizations = [(1, list_authorization 1 ''A''), (1, list_authorization 2 ''B''), (1, list_authorization 3 ''C'')],
       ld_local_auths = [demo_local 1 1 ''A'', demo_local 2 2 ''B'', demo_local 3 1 ''A'', demo_local 4 3 ''C''],
       ld_versions = [\<lparr> lv_id = 1, lv_tenantId = 1, lv_name = ''CP1'', lv_versionNumber = 1 \<rparr>],
       ld_version_auths = [(1, 1), (1, 2)], ld_sends = [demo_sent u], ld_send_auths = [(1, 3), (1, 4)] \<rparr>"

definition demo_list_state :: "string \<Rightarrow> list_state" where
  "demo_list_state u = \<lparr> ls_db = demo_lists u, ls_calls = [] \<rparr>"


lemma stored_single:
  assumes "create_send_list copy tenantId name c u n [e] db = (Inr s, db1)" "copy e (db\<lparr> ld_sends := ld_sends db @ [s] \<rparr>) = Inr (Some a)"
    "list_ok db"
  shows "\<exists>b. sent_entries db1 (sl_id s) = [b] \<and> la_idToken b = la_idToken a \<and> la_status b = la_status a \<and>
    la_authorizationId b = la_authorizationId a \<and> sl_updateType s = u"
proof -
  define s0 where "s0 = \<lparr> sl_id = serial sl_id (ld_sends db), sl_tenantId = tenantId, sl_name = name, sl_correlationId = c,
      sl_versionNumber = n, sl_updateType = u \<rparr>"
  let ?db0 = "db\<lparr> ld_sends := ld_sends db @ [s0] \<rparr>"
  let ?k = "serial la_id (ld_local_auths db)"
  let ?b = "a\<lparr> la_id := ?k, la_tenantId := tenantId \<rparr>"
  have s: "s = s0" using assms(1) unfolding create_send_list_def Let_def s0_def [symmetric]
    by (auto split: prod.splits sum.splits)
  have "db1 = store_local_auth tenantId (sl_id s0) a ?db0"
    using assms(1,2) unfolding create_send_list_def Let_def s0_def [symmetric] by (simp add: s)
  moreover have "fst ` set (ld_send_auths db) \<subseteq> sl_id ` set (ld_sends db)" using assms(3) by (simp add: list_ok_def)
  then have "sl_id s0 \<notin> fst ` set (ld_send_auths db)"
    using serial_not_in [of sl_id "ld_sends db"] by (auto simp: s0_def)
  then have "joined (sl_id s0) (ld_send_auths db) xs = []" for xs by (rule joined_none)
  moreover have "find (\<lambda>x. la_id x = ?k) (ld_local_auths db) = None"
    using serial_not_in [of la_id "ld_local_auths db"] unfolding find_None_iff by (metis image_eqI)
  ultimately have "sent_entries db1 (sl_id s0) = [?b]"
    by (simp add: sent_entries_def store_local_auth_def Let_def joined_Cons find_append_none)
  then show ?thesis by (simp add: s) (simp add: s0_def)
qed

lemma added_entry:
  assumes "updateLocalListVersion name n [b] db = Inr db'" "\<not> is_tombstone b"
    "find (\<lambda>x. la_id x = la_id b) (ld_local_auths db) = Some b"
  shows "b \<in> set (station_list name db')"
proof -
  obtain v where v: "any_version name db = Some v" using assms(1) by (auto simp: updateLocalListVersion_def split: option.splits)
  let ?i = "lv_id v"
  let ?db1 = "apply_entry ?i (version_entries db ?i) b db"
  have db': "db' = set_version_number ?i n ?db1" using assms(1) v by (simp add: updateLocalListVersion_def)
  have "any_version name ?db1 = Some v" using v by (simp add: any_version_def)
  then have "any_version name db' = Some (v\<lparr> lv_versionNumber := n \<rparr>)" by (simp add: set_number_version db')
  moreover have "version_entries db' ?i = joined ?i (ld_version_auths ?db1) (ld_local_auths db)"
    by (simp add: version_entries_def db' set_version_number_def)
  moreover have "b \<in> set (joined ?i (ld_version_auths ?db1) (ld_local_auths db))"
    using assms(2,3) by (simp add: apply_entry_def Let_def joined_Cons)
  ultimately show ?thesis by (simp add: station_list_def)
qed

lemma sends_authorization: "any_authorization tok t (db\<lparr> ld_sends := xs \<rparr>) = any_authorization tok t db"
  by (simp add: any_authorization_def)

lemma deletion_copy:
  "tag \<noteq> [] \<Longrightarrow> any_authorization tag None db = Some a \<Longrightarrow>
     \<exists>l. local_copy16 ''Differential'' \<lparr> a6_idTag = tag, a6_idTagInfo = None \<rparr> (db\<lparr> ld_sends := xs \<rparr>) = Inr (Some l) \<and>
       la_idToken l = tag \<and> la_status l = ''Invalid'' \<and> la_authorizationId l = Some (au_id a)"
  by (simp add: local_copy16_def parent_authorization_def sends_authorization Let_def)

text \<open>A known tag cannot be removed from the stored list by an OCPP 1.6 differential update:
  the deletion is stored with the id of the authorization, so that it is no tombstone for the
  update, and after the station has accepted the deletion the list still has an entry for
  the tag, with the status Invalid.\<close>

lemma deleted_tag_stays:
  assumes "list_ok db" and "tag \<noteq> []" and "any_authorization tag None db = Some a" and "au_id a \<noteq> 0"
    and "createSendLocalListFromRequestData16 tenantId name c ''Differential'' n [\<lparr> a6_idTag = tag, a6_idTagInfo = None \<rparr>] db
           = (Inr s, db1)"
    and "getSendLocalListRequest tenantId name c db1 = Inr (Some s)"
    and "handleSendLocalListResponse16 tenantId name c ''Accepted'' \<lparr> ls_db = db1, ls_calls = calls \<rparr> = (Inr (), st')"
  shows "\<exists>b. b \<in> set (station_list name (ls_db st')) \<and> la_idToken b = tag \<and> la_status b = ''Invalid''"
proof -
  obtain l where l: "local_copy16 ''Differential'' \<lparr> a6_idTag = tag, a6_idTagInfo = None \<rparr> (db\<lparr> ld_sends := ld_sends db @ [s] \<rparr>) = Inr (Some l)"
      "la_idToken l = tag" "la_status l = ''Invalid''" "la_authorizationId l = Some (au_id a)"
    using deletion_copy [OF assms(2,3), of "ld_sends db @ [s]"] by blast
  note stored = stored_single [where copy = "local_copy16 ''Differential''", OF _ l(1) assms(1), unfolded l(2-4)]
  from assms(5) have "create_send_list (local_copy16 ''Differential'') tenantId name c ''Differential'' n
      [\<lparr> a6_idTag = tag, a6_idTagInfo = None \<rparr>] db = (Inr s, db1)"
    by (simp only: createSendLocalListFromRequestData16_def)
  from stored [OF this] obtain b where b: "sent_entries db1 (sl_id s) = [b]" "la_idToken b = tag" "la_status b = ''Invalid''"
      "la_authorizationId b = Some (au_id a)" "sl_updateType s = ''Differential''"
    by blast
  have "find (\<lambda>x. la_id x = la_id b) (ld_local_auths db1) = Some b" using sent_found [of b db1 "sl_id s"] b(1) by simp
  moreover have "\<not> is_tombstone b" using b(4) assms(4) by (simp add: is_tombstone_def no_id_def)
  moreover have "createOrUpdateLocalListVersion tenantId name s db1 = Inr (ls_db st')"
    using assms(7) unfolding handleSendLocalListResponse16_def by (rule accepted_response [OF assms(6)])
  then have "updateLocalListVersion name (sl_versionNumber s) [b] db1 = Inr (ls_db st')"
    using b(1,5) by (simp add: createOrUpdateLocalListVersion_def)
  ultimately have "b \<in> set (station_list name (ls_db st'))" using added_entry by blast
  then show ?thesis using b(2,3) by blast
qed


definition demo_delete_db :: list_db where
  "demo_delete_db = (demo_lists ''Full'')\<lparr> ld_sends := [], ld_send_auths := [], ld_local_auths := [demo_local 1 1 ''A'', demo_local 2 2 ''B''] \<rparr>"

definition demo_delete_sent :: "(exn + send_list) \<times> list_db" where
  "demo_delete_sent =
     createSendLocalListFromRequestData16 1 ''CP1'' ''m2'' ''Differential'' 2 [\<lparr> a6_idTag = ''A'', a6_idTagInfo = None \<rparr>] demo_delete_db"

lemma deleted_tag_stays_witness:
  "\<exists>b. b \<in> set (station_list ''CP1'' (ls_db (snd (handleSendLocalListResponse16 1 ''CP1'' ''m2'' ''Accepted''
        \<lparr> ls_db = snd demo_delete_sent, ls_calls = [] \<rparr>)))) \<and> la_idToken b = ''A'' \<and> la_status b = ''Invalid''"
proof -
  let ?s = "\<lparr> sl_id = serial sl_id ([] :: send_list list), sl_tenantId = 1, sl_name = ''CP1'', sl_correlationId = ''m2'', sl_versionNumber = 2, sl_updateType = ''Differential'' \<rparr>"
  have 1: "list_ok demo_delete_db" by (simp add: list_ok_def demo_delete_db_def demo_lists_def)
  have 2: "any_authorization ''A'' None demo_delete_db = Some (list_authorization 1 ''A'')" by code_simp
  have 3: "au_id (list_authorization 1 ''A'') \<noteq> 0" by code_simp
  have 4: "createSendLocalListFromRequestData16 1 ''CP1'' ''m2'' ''Differential'' 2 [\<lparr> a6_idTag = ''A'', a6_idTagInfo = None \<rparr>] demo_delete_db
      = (Inr ?s, snd demo_delete_sent)" by code_simp
  have 5: "getSendLocalListRequest 1 ''CP1'' ''m2'' (snd demo_delete_sent) = Inr (Some ?s)" by code_simp
  have 6: "handleSendLocalListResponse16 1 ''CP1'' ''m2'' ''Accepted'' \<lparr> ls_db = snd demo_delete_sent, ls_calls = [] \<rparr>
      = (Inr (), snd (handleSendLocalListResponse16 1 ''CP1'' ''m2'' ''Accepted'' \<lparr> ls_db = snd demo_delete_sent, ls_calls = [] \<rparr>))"
    by code_simp
  have "''A'' \<noteq> ([] :: string)" by simp
  from deleted_tag_stays [OF 1 this 2 3 4 5 6] show ?thesis .
qed

lemma replaced_versions:
  "v \<in> set (ld_versions (replaceLocalListVersion tenantId name n es db)) \<Longrightarrow> lv_name v = name \<Longrightarrow>
     lv_tenantId v = tenantId"
  by (auto simp: replaceLocalListVersion_def Let_def new_version_def any_version_none filter_empty_conv destroy_versions_def
      dest: arg_cong [of _ _ lv_tenantId] split: option.splits)

text \<open>A full update of a station removes the versions that stations of the same name have
  in other tenants: they are destroyed by the name of the station alone.\<close>

lemma full_update_removes_other_tenants:
  assumes "v \<in> set (ld_versions (ls_db st))" and "lv_name v = name" and "lv_tenantId v \<noteq> tenantId"
    and "getSendLocalListRequest tenantId name c (ls_db st) = Inr (Some s)" and "sl_updateType s = ''Full''"
    and "handleSendLocalListResponse protocol tenantId name c ''Accepted'' st = (Inr (), st')"
  shows "v \<notin> set (ld_versions (ls_db st'))"
proof -
  obtain db calls where st: "st = \<lparr> ls_db = db, ls_calls = calls \<rparr>" by (cases st) simp
  have "createOrUpdateLocalListVersion tenantId name s db = Inr (ls_db st')"
    using accepted_response assms(4,6) by (simp add: st)
  then have "ls_db st' = replaceLocalListVersion tenantId name (sl_versionNumber s) (sent_entries db (sl_id s)) db"
    using assms(5) by (simp add: createOrUpdateLocalListVersion_def)
  then show ?thesis using replaced_versions assms(2,3) by metis
qed

definition demo_tenants_state :: list_state where
  "demo_tenants_state =
     \<lparr> ls_db = (demo_lists ''Full'')\<lparr> ld_versions :=
          [\<lparr> lv_id = 1, lv_tenantId = 1, lv_name = ''CP1'', lv_versionNumber = 1 \<rparr>,
           \<lparr> lv_id = 2, lv_tenantId = 2, lv_name = ''CP1'', lv_versionNumber = 7 \<rparr>] \<rparr>, ls_calls = [] \<rparr>"

lemma full_update_removes_other_tenants_witness:
  "\<lparr> lv_id = 2, lv_tenantId = 2, lv_name = ''CP1'', lv_versionNumber = 7 \<rparr> \<in> set (ld_versions (ls_db demo_tenants_state)) \<and>
   \<lparr> lv_id = 2, lv_tenantId = 2, lv_name = ''CP1'', lv_versionNumber = 7 \<rparr> \<notin>
     set (ld_versions (ls_db (snd (handleSendLocalListResponse2 1 ''CP1'' ''m1'' ''Accepted'' demo_tenants_state))))"
proof -
  let ?v = "\<lparr> lv_id = 2, lv_tenantId = 2, lv_name = ''CP1'', lv_versionNumber = 7 \<rparr>"
  have 1: "?v \<in> set (ld_versions (ls_db demo_tenants_state))" by (simp add: demo_tenants_state_def)
  have 2: "getSendLocalListRequest 1 ''CP1'' ''m1'' (ls_db demo_tenants_state) = Inr (Some (demo_sent ''Full''))" by code_simp
  have 3: "handleSendLocalListResponse ''ocpp2.1'' 1 ''CP1'' ''m1'' ''Accepted'' demo_tenants_state =
      (Inr (), snd (handleSendLocalListResponse2 1 ''CP1'' ''m1'' ''Accepted'' demo_tenants_state))" by code_simp
  show ?thesis using full_update_removes_other_tenants [OF 1 _ _ 2 _ 3] 1 by (simp add: demo_sent_def)
qed

lemma persist_ok: "list_ok db \<Longrightarrow> list_ok (snd (persistSendLocalList env tenantId name c r db))"
  unfolding persistSendLocalList_def createSendLocalListFromRequestData_def
  using create_send_list_ok [of db local_copy tenantId name c "sr_updateType r" "sr_versionNumber r" "sr_list r"]
  by (auto split: sum.split prod.split)

lemma persist16_ok: "list_ok db \<Longrightarrow> list_ok (snd (persistSendLocalList16 tenantId name c r db))"
  unfolding persistSendLocalList16_def createSendLocalListFromRequestData16_def
  using create_send_list_ok by (auto split: sum.split)

lemma create_or_update_ok: "createOrUpdateLocalListVersion tenantId name s db = Inr db' \<Longrightarrow> list_ok db \<Longrightarrow> list_ok db'"
  by (auto simp: createOrUpdateLocalListVersion_def replace_ok intro: update_ok split: if_splits)

lemma response_ok:
  "list_ok (ls_db st) \<Longrightarrow> list_ok (ls_db (snd (handleSendLocalListResponse protocol tenantId name c status st)))"
  by (auto simp: handleSendLocalListResponse_def intro: create_or_update_ok split: sum.split option.split)

lemma version_response_ok:
  "list_ok (ls_db st) \<Longrightarrow> list_ok (ls_db (handleGetLocalListVersionResponse tenantId name n st))"
  using new_version_ok [OF _ serial_not_in]
  by (auto simp: handleGetLocalListVersionResponse_def validateOrReplaceLocalListVersionForStation_def
      set_version_number_ok destroy_entries_ok split: option.split)



end
