(* ===== verification/DeviceModel.thy ===== *)
theory DeviceModel
  imports LocalAuthList MemoryCache
begin

text \<open>
  The device model of a charging station: the tables of components, variables, variable
  attributes, their characteristics and their status history
  (packages/core/src/dal/layers/sequelize/repository/DeviceModel.ts and the models of
  model/DeviceModel), and the handlers that write them (SetVariablesResponse,
  GetVariablesResponse, NotifyReport, and the part of StatusNotificationService and of
  DeviceModelService that reports attributes). A table is the list of its rows in the order
  they were created, as in TransactionStore. An empty instance or a connector 0 is looked up
  as null, which is how the code writes the key, and a row is created under that key.
  A status row's place in its table stands for its time of creation. Foreign keys to the
  tenant and the charging station are the database's and are left out, and so are emitted
  events; the attributes of one report are written one after the other (they have different
  types, so the code's concurrent promises write different rows).
\<close>

section \<open>Data\<close>

datatype attribute_enum = Actual | Target | MinSet | MaxSet

datatype mutability_enum = ReadOnly | WriteOnly | ReadWrite

datatype data_enum = DString | DDecimal | DInteger | DDateTime | DBoolean
  | DOptionList | DSequenceList | DMemberList | DPasswordString

datatype set_variable_status = SetAccepted | SetRejected | SetUnknownComponent
  | SetUnknownVariable | SetNotSupportedAttributeType | SetRebootRequired

datatype get_variable_status = GetAccepted | GetRejected | GetUnknownComponent
  | GetUnknownVariable | GetNotSupportedAttributeType

fun set_status_str :: "set_variable_status \<Rightarrow> string" where
  "set_status_str SetAccepted = ''Accepted''"
| "set_status_str SetRejected = ''Rejected''"
| "set_status_str SetUnknownComponent = ''UnknownComponent''"
| "set_status_str SetUnknownVariable = ''UnknownVariable''"
| "set_status_str SetNotSupportedAttributeType = ''NotSupportedAttributeType''"
| "set_status_str SetRebootRequired = ''RebootRequired''"

fun get_status_str :: "get_variable_status \<Rightarrow> string" where
  "get_status_str GetAccepted = ''Accepted''"
| "get_status_str GetRejected = ''Rejected''"
| "get_status_str GetUnknownComponent = ''UnknownComponent''"
| "get_status_str GetUnknownVariable = ''UnknownVariable''"
| "get_status_str GetNotSupportedAttributeType = ''NotSupportedAttributeType''"

record evse_ref =
  vf_id :: int
  vf_connectorId :: "int option"

record component_type =
  ct_name :: string
  ct_instance :: "string option"
  ct_evse :: "evse_ref option"

record variable_type =
  vt_name :: string
  vt_instance :: "string option"

record variable_attribute_type =
  at_type :: "attribute_enum option"
  at_value :: "string option"
  at_mutability :: "mutability_enum option"
  at_persistent :: "bool option"
  at_constant :: "bool option"

record characteristics_type =
  ch_unit :: "string option"
  ch_dataType :: data_enum
  ch_minLimit :: "rat option"
  ch_maxLimit :: "rat option"
  ch_valuesList :: "string option"
  ch_supportsMonitoring :: bool

record report_data =
  rp_component :: component_type
  rp_variable :: variable_type
  rp_attributes :: "variable_attribute_type list"
  rp_characteristics :: "characteristics_type option"

section \<open>Tables\<close>

record dm_evse_row =
  ey_databaseId :: nat
  ey_tenantId :: int
  ey_id :: int
  ey_connectorId :: "int option"

record component_row =
  cm_id :: nat
  cm_tenantId :: int
  cm_name :: string
  cm_instance :: "string option"
  cm_evseDatabaseId :: "nat option"

record variable_row =
  vr_id :: nat
  vr_tenantId :: int
  vr_name :: string
  vr_instance :: "string option"

record attribute_row =
  va_id :: nat
  va_tenantId :: int
  va_name :: string                     \<comment> \<open>ocppConnectionName\<close>
  va_variableId :: nat
  va_componentId :: nat
  va_type :: attribute_enum
  va_evseDatabaseId :: "nat option"
  va_dataType :: "data_enum option"
  va_value :: "string option"
  va_generatedAt :: "string option"
  va_mutability :: mutability_enum
  va_persistent :: bool
  va_constant :: bool
  va_bootConfigId :: "string option"

record status_row =
  vs_id :: nat
  vs_tenantId :: int
  vs_value :: "string option"
  vs_status :: string
  vs_statusInfo :: "string option"
  vs_attributeId :: nat

record dm_db =
  dm_evses :: "dm_evse_row list"
  dm_components :: "component_row list"
  dm_variables :: "variable_row list"
  dm_componentVariables :: "(int \<times> nat \<times> nat) list"   \<comment> \<open>tenant, component, variable\<close>
  dm_characteristics :: "(int \<times> nat \<times> characteristics_type) list"   \<comment> \<open>tenant, variable\<close>
  dm_attributes :: "attribute_row list"
  dm_statuses :: "status_row list"

definition empty_dm :: dm_db where
  "empty_dm = \<lparr> dm_evses = [], dm_components = [], dm_variables = [], dm_componentVariables = [],
     dm_characteristics = [], dm_attributes = [], dm_statuses = [] \<rparr>"

text \<open>
  readOrCreateByQuery (findOrCreate): the first row that matches, or a new one; and whether
  it is new. \<^verbatim>\<open>x ? x : null\<close> for a string and for a number.
\<close>

definition find_or_create :: "('a \<Rightarrow> bool) \<Rightarrow> ('a list \<Rightarrow> 'a) \<Rightarrow> 'a list \<Rightarrow> ('a \<times> bool) \<times> 'a list" where
  "find_or_create P mk rows =
     (case find P rows of
        Some r \<Rightarrow> ((r, False), rows)
      | None \<Rightarrow> let r = mk rows in ((r, True), rows @ [r]))"

definition truthy_str :: "string option \<Rightarrow> string option" where
  "truthy_str s = (case s of Some t \<Rightarrow> if t = [] then None else Some t | None \<Rightarrow> None)"

definition truthy_int :: "int option \<Rightarrow> int option" where
  "truthy_int i = (case i of Some n \<Rightarrow> if n = 0 then None else Some n | None \<Rightarrow> None)"

definition or_else :: "'a option \<Rightarrow> 'a \<Rightarrow> 'a" where
  "or_else x d = (case x of Some y \<Rightarrow> y | None \<Rightarrow> d)"

section \<open>Find or create\<close>

definition has_evse :: "int \<Rightarrow> int \<Rightarrow> int option \<Rightarrow> dm_evse_row \<Rightarrow> bool" where
  "has_evse t i c r \<longleftrightarrow> ey_tenantId r = t \<and> ey_id r = i \<and> ey_connectorId r = c"

definition read_or_create_evse :: "int \<Rightarrow> evse_ref \<Rightarrow> dm_db \<Rightarrow> dm_evse_row \<times> dm_db" where
  "read_or_create_evse t e db =
     (let c = truthy_int (vf_connectorId e);
          ((r, _), rows) = find_or_create (has_evse t (vf_id e) c)
            (\<lambda>rs. \<lparr> ey_databaseId = serial ey_databaseId rs, ey_tenantId = t, ey_id = vf_id e, ey_connectorId = c \<rparr>)
            (dm_evses db)
      in (r, db\<lparr> dm_evses := rows \<rparr>))"

definition has_component :: "int \<Rightarrow> string \<Rightarrow> string option \<Rightarrow> component_row \<Rightarrow> bool" where
  "has_component t n i r \<longleftrightarrow> cm_tenantId r = t \<and> cm_name r = n \<and> cm_instance r = i"

definition read_or_create_component :: "int \<Rightarrow> string \<Rightarrow> string option \<Rightarrow> dm_db \<Rightarrow> (component_row \<times> bool) \<times> dm_db" where
  "read_or_create_component t n i db =
     (let (r, rows) = find_or_create (has_component t n i)
            (\<lambda>rs. \<lparr> cm_id = serial cm_id rs, cm_tenantId = t, cm_name = n, cm_instance = i, cm_evseDatabaseId = None \<rparr>)
            (dm_components db)
      in (r, db\<lparr> dm_components := rows \<rparr>))"

definition has_variable :: "int \<Rightarrow> string \<Rightarrow> string option \<Rightarrow> variable_row \<Rightarrow> bool" where
  "has_variable t n i r \<longleftrightarrow> vr_tenantId r = t \<and> vr_name r = n \<and> vr_instance r = i"

definition read_or_create_variable :: "int \<Rightarrow> string \<Rightarrow> string option \<Rightarrow> dm_db \<Rightarrow> variable_row \<times> dm_db" where
  "read_or_create_variable t n i db =
     (let ((r, _), rows) = find_or_create (has_variable t n i)
            (\<lambda>rs. \<lparr> vr_id = serial vr_id rs, vr_tenantId = t, vr_name = n, vr_instance = i \<rparr>)
            (dm_variables db)
      in (r, db\<lparr> dm_variables := rows \<rparr>))"

definition link_variable :: "int \<Rightarrow> nat \<Rightarrow> nat \<Rightarrow> dm_db \<Rightarrow> dm_db" where
  "link_variable t c v db =
     db\<lparr> dm_componentVariables :=
           snd (find_or_create (\<lambda>r. r = (t, c, v)) (\<lambda>_. (t, c, v)) (dm_componentVariables db)) \<rparr>"

definition set_component_evse :: "int \<Rightarrow> nat \<Rightarrow> nat \<Rightarrow> dm_db \<Rightarrow> dm_db" where
  "set_component_evse t i e db =
     db\<lparr> dm_components := update_rows (\<lambda>c. cm_id c = i \<and> cm_tenantId c = t)
           (\<lambda>c. c\<lparr> cm_evseDatabaseId := Some e \<rparr>) (dm_components db) \<rparr>"

text \<open>A component seen for the first time gets the variables Present, Available and Enabled.\<close>

definition default_variable :: "int \<Rightarrow> string \<Rightarrow> nat \<Rightarrow> nat option \<Rightarrow> string \<Rightarrow> dm_db \<Rightarrow> dm_db" where
  "default_variable t name c evse n db =
     (let (v, db1) = read_or_create_variable t n None db;
          db2 = link_variable t c (vr_id v) db1
      in db2\<lparr> dm_attributes := dm_attributes db2 @
           [\<lparr> va_id = serial va_id (dm_attributes db2), va_tenantId = t, va_name = name,
              va_variableId = vr_id v, va_componentId = c, va_type = Actual,
              va_evseDatabaseId = evse, va_dataType = Some DBoolean, va_value = Some ''true'',
              va_generatedAt = None, va_mutability = ReadOnly, va_persistent = False,
              va_constant = False, va_bootConfigId = None \<rparr>] \<rparr>)"

definition default_names :: "string list" where
  "default_names = [''Present'', ''Available'', ''Enabled'']"

definition findOrCreateEvseAndComponent ::
  "int \<Rightarrow> component_type \<Rightarrow> string option \<Rightarrow> dm_db \<Rightarrow> component_row \<times> dm_db" where
  "findOrCreateEvseAndComponent t ct name db =
     (let (evse, db1) = (case ct_evse ct of
            None \<Rightarrow> (None, db)
          | Some e \<Rightarrow> let (r, db') = read_or_create_evse t e db in (Some (ey_databaseId r), db'));
          ((c, created), db2) = read_or_create_component t (ct_name ct) (truthy_str (ct_instance ct)) db1;
          db3 = (case evse of
                   Some e \<Rightarrow> if cm_evseDatabaseId c \<noteq> Some e then set_component_evse t (cm_id c) e db2 else db2
                 | None \<Rightarrow> db2);
          db4 = (case name of
                   Some s \<Rightarrow> if created \<and> s \<noteq> [] then fold (default_variable t s (cm_id c) evse) default_names db3 else db3
                 | None \<Rightarrow> db3)
      in (c, db4))"

definition findOrCreateEvseAndComponentAndVariable ::
  "int \<Rightarrow> component_type \<Rightarrow> variable_type \<Rightarrow> string option \<Rightarrow> dm_db \<Rightarrow> (component_row \<times> variable_row) \<times> dm_db" where
  "findOrCreateEvseAndComponentAndVariable t ct vt name db =
     (let (c, db1) = findOrCreateEvseAndComponent t ct name db;
          (v, db2) = read_or_create_variable t (vt_name vt) (truthy_str (vt_instance vt)) db1
      in ((c, v), link_variable t (cm_id c) (vr_id v) db2))"

section \<open>Reports\<close>

definition store_characteristics :: "int \<Rightarrow> nat \<Rightarrow> characteristics_type \<Rightarrow> dm_db \<Rightarrow> dm_db" where
  "store_characteristics t v ch db =
     (if find (\<lambda>(_, v', _). v' = v) (dm_characteristics db) = None
      then db\<lparr> dm_characteristics := dm_characteristics db @ [(t, v, ch)] \<rparr>
      else db\<lparr> dm_characteristics :=
                 update_rows (\<lambda>(t', v', _). v' = v \<and> t' = t) (\<lambda>_. (t, v, ch)) (dm_characteristics db) \<rparr>)"

definition has_attribute :: "int \<Rightarrow> string \<Rightarrow> nat \<Rightarrow> nat \<Rightarrow> attribute_enum \<Rightarrow> attribute_row \<Rightarrow> bool" where
  "has_attribute t name v c ty r \<longleftrightarrow> va_tenantId r = t \<and> va_name r = name \<and> va_variableId r = v
     \<and> va_componentId r = c \<and> va_type r = ty"

definition attribute_type_of :: "variable_attribute_type \<Rightarrow> attribute_enum" where
  "attribute_type_of a = or_else (at_type a) Actual"

definition updated_attribute ::
  "string \<Rightarrow> nat option \<Rightarrow> data_enum option \<Rightarrow> variable_attribute_type \<Rightarrow> attribute_row \<Rightarrow> attribute_row" where
  "updated_attribute ts evse dataType a r =
     (let mutability = or_else (at_mutability a) (va_mutability r)
      in r\<lparr> va_evseDatabaseId := evse,
            va_dataType := (case dataType of None \<Rightarrow> va_dataType r | Some d \<Rightarrow> Some d),
            va_type := or_else (at_type a) (va_type r),
            va_value := (if mutability = WriteOnly then va_value r else at_value a),
            va_mutability := mutability,
            va_persistent := or_else (at_persistent a) False,
            va_constant := or_else (at_constant a) False,
            va_generatedAt := Some ts \<rparr>)"

definition report_attribute ::
  "int \<Rightarrow> string \<Rightarrow> string \<Rightarrow> component_row \<Rightarrow> nat \<Rightarrow> data_enum option \<Rightarrow> variable_attribute_type \<Rightarrow>
     dm_db \<Rightarrow> attribute_row \<times> dm_db" where
  "report_attribute t name ts c v dataType a db =
     (let ty = attribute_type_of a;
          ((saved, created), rows) = find_or_create (has_attribute t name v (cm_id c) ty)
            (\<lambda>rs. \<lparr> va_id = serial va_id rs, va_tenantId = t, va_name = name, va_variableId = v,
                    va_componentId = cm_id c, va_type = ty, va_evseDatabaseId = cm_evseDatabaseId c,
                    va_dataType = dataType, va_value = at_value a, va_generatedAt = Some ts,
                    va_mutability = or_else (at_mutability a) ReadWrite,
                    va_persistent = or_else (at_persistent a) False,
                    va_constant = or_else (at_constant a) False, va_bootConfigId = None \<rparr>)
            (dm_attributes db)
      in if created then (saved, db\<lparr> dm_attributes := rows \<rparr>)
         else (updated_attribute ts (cm_evseDatabaseId c) dataType a saved,
               db\<lparr> dm_attributes := update_rows (\<lambda>r. va_id r = va_id saved \<and> va_tenantId r = t)
                     (updated_attribute ts (cm_evseDatabaseId c) dataType a) rows \<rparr>))"

fun report_attributes ::
  "int \<Rightarrow> string \<Rightarrow> string \<Rightarrow> component_row \<Rightarrow> nat \<Rightarrow> data_enum option \<Rightarrow> variable_attribute_type list \<Rightarrow>
     dm_db \<Rightarrow> attribute_row list \<times> dm_db" where
  "report_attributes t name ts c v d [] db = ([], db)"
| "report_attributes t name ts c v d (a # ats) db =
     (let (r, db1) = report_attribute t name ts c v d a db;
          (rs, db2) = report_attributes t name ts c v d ats db1
      in (r # rs, db2))"

definition createOrUpdateDeviceModelByStationId ::
  "int \<Rightarrow> report_data \<Rightarrow> string \<Rightarrow> string \<Rightarrow> dm_db \<Rightarrow> (exn + attribute_row list) \<times> dm_db" where
  "createOrUpdateDeviceModelByStationId t value name ts db =
     (if \<not> distinct (map attribute_type_of (rp_attributes value))
      then (Inl (JsErr ''All variable attributes in ReportData must have different types.'' []), db)
      else let ((c, v), db1) = findOrCreateEvseAndComponentAndVariable t (rp_component value) (rp_variable value) (Some name) db;
               (dataType, db2) = (case rp_characteristics value of
                  None \<Rightarrow> (None, db1)
                | Some ch \<Rightarrow> (Some (ch_dataType ch), store_characteristics t (vr_id v) ch db1));
               (rows, db3) = report_attributes t name ts c (vr_id v) dataType (rp_attributes value) db2
           in (Inr rows, db3))"


section \<open>The tables as a map\<close>

type_synonym name_key = "string \<times> string option"
type_synonym attribute_key = "int \<times> string \<times> name_key \<times> name_key \<times> attribute_enum"

definition component_at :: "dm_db \<Rightarrow> nat \<rightharpoonup> int \<times> name_key" where
  "component_at db i = map_option (\<lambda>c. (cm_tenantId c, cm_name c, cm_instance c))
     (find (\<lambda>c. cm_id c = i) (dm_components db))"

definition variable_at :: "dm_db \<Rightarrow> nat \<rightharpoonup> int \<times> name_key" where
  "variable_at db i = map_option (\<lambda>v. (vr_tenantId v, vr_name v, vr_instance v))
     (find (\<lambda>v. vr_id v = i) (dm_variables db))"

text \<open>The attribute row a key names: the join of the three tables.\<close>

definition is_stored :: "dm_db \<Rightarrow> attribute_key \<Rightarrow> attribute_row \<Rightarrow> bool" where
  "is_stored db k r = (case k of (t, name, ck, vk, ty) \<Rightarrow>
     va_tenantId r = t \<and> va_name r = name \<and> va_type r = ty
     \<and> component_at db (va_componentId r) = Some (t, ck)
     \<and> variable_at db (va_variableId r) = Some (t, vk))"

definition stored_attribute :: "dm_db \<Rightarrow> attribute_key \<rightharpoonup> attribute_row" where
  "stored_attribute db k = find (is_stored db k) (dm_attributes db)"

type_synonym abs_dm = "(int \<times> name_key) set \<times> (attribute_key \<rightharpoonup> string option \<times> mutability_enum)"

definition known_components :: "dm_db \<Rightarrow> (int \<times> name_key) set" where
  "known_components db = (\<lambda>c. (cm_tenantId c, cm_name c, cm_instance c)) ` set (dm_components db)"

definition stored_values :: "dm_db \<Rightarrow> attribute_key \<rightharpoonup> string option \<times> mutability_enum" where
  "stored_values db k = map_option (\<lambda>r. (va_value r, va_mutability r)) (stored_attribute db k)"

definition abs_dm :: "dm_db \<Rightarrow> abs_dm" where
  "abs_dm db = (known_components db, stored_values db)"

text \<open>
  What a report means: a component never reported before starts with its three default
  variables, then every reported attribute takes the reported value, except that a WriteOnly
  one keeps the value it has.
\<close>

definition spec_default :: "int \<Rightarrow> string \<Rightarrow> name_key \<Rightarrow> string \<Rightarrow>
    (attribute_key \<rightharpoonup> string option \<times> mutability_enum) \<Rightarrow> (attribute_key \<rightharpoonup> string option \<times> mutability_enum)" where
  "spec_default t name ck n m = m((t, name, ck, (n, None), Actual) \<mapsto> (Some ''true'', ReadOnly))"

definition spec_component :: "int \<Rightarrow> string \<Rightarrow> name_key \<Rightarrow> abs_dm \<Rightarrow> abs_dm" where
  "spec_component t name ck = (\<lambda>(known, m).
     (insert (t, ck) known,
      if (t, ck) \<notin> known \<and> name \<noteq> [] then fold (spec_default t name ck) default_names m else m))"

definition spec_attribute :: "int \<Rightarrow> string \<Rightarrow> name_key \<Rightarrow> name_key \<Rightarrow> variable_attribute_type \<Rightarrow>
    (attribute_key \<rightharpoonup> string option \<times> mutability_enum) \<Rightarrow> (attribute_key \<rightharpoonup> string option \<times> mutability_enum)" where
  "spec_attribute t name ck vk a m =
     (let k = (t, name, ck, vk, attribute_type_of a)
      in m(k \<mapsto> (case m k of
             None \<Rightarrow> (at_value a, or_else (at_mutability a) ReadWrite)
           | Some (old, mu) \<Rightarrow>
               let mu' = or_else (at_mutability a) mu
               in (if mu' = WriteOnly then old else at_value a, mu'))))"

definition component_key :: "component_type \<Rightarrow> name_key" where
  "component_key ct = (ct_name ct, truthy_str (ct_instance ct))"

definition variable_key :: "variable_type \<Rightarrow> name_key" where
  "variable_key vt = (vt_name vt, truthy_str (vt_instance vt))"

definition spec_report :: "int \<Rightarrow> report_data \<Rightarrow> string \<Rightarrow> abs_dm \<Rightarrow> abs_dm" where
  "spec_report t value name a =
     (let (known, m) = spec_component t name (component_key (rp_component value)) a
      in (known, fold (spec_attribute t name (component_key (rp_component value)) (variable_key (rp_variable value)))
                   (rp_attributes value) m))"

section \<open>The tables stay intact\<close>

definition evses_ok :: "dm_db \<Rightarrow> bool" where
  "evses_ok db \<longleftrightarrow> distinct (map ey_databaseId (dm_evses db))
     \<and> distinct (map (\<lambda>e. (ey_tenantId e, ey_id e, ey_connectorId e)) (dm_evses db))"

definition components_ok :: "dm_db \<Rightarrow> bool" where
  "components_ok db \<longleftrightarrow> distinct (map cm_id (dm_components db))
     \<and> distinct (map (\<lambda>c. (cm_tenantId c, cm_name c, cm_instance c)) (dm_components db))
     \<and> (\<forall>c \<in> set (dm_components db). cm_instance c \<noteq> Some []
           \<and> set_option (cm_evseDatabaseId c) \<subseteq> ey_databaseId ` set (dm_evses db))"

definition variables_ok :: "dm_db \<Rightarrow> bool" where
  "variables_ok db \<longleftrightarrow> distinct (map vr_id (dm_variables db))
     \<and> distinct (map (\<lambda>v. (vr_tenantId v, vr_name v, vr_instance v)) (dm_variables db))
     \<and> (\<forall>v \<in> set (dm_variables db). vr_instance v \<noteq> Some [])"

definition links_ok :: "dm_db \<Rightarrow> bool" where
  "links_ok db \<longleftrightarrow> distinct (dm_componentVariables db)
     \<and> (\<forall>(t, c, v) \<in> set (dm_componentVariables db). c \<in> dom (component_at db) \<and> v \<in> dom (variable_at db))"

definition attribute_index :: "attribute_row \<Rightarrow> int \<times> string \<times> nat \<times> nat \<times> attribute_enum" where
  "attribute_index r = (va_tenantId r, va_name r, va_variableId r, va_componentId r, va_type r)"

definition attribute_refs :: "dm_db \<Rightarrow> attribute_row \<Rightarrow> bool" where
  "attribute_refs db r \<longleftrightarrow>
     (\<exists>ck vk. component_at db (va_componentId r) = Some (va_tenantId r, ck)
            \<and> variable_at db (va_variableId r) = Some (va_tenantId r, vk))"

definition attributes_ok :: "dm_db \<Rightarrow> bool" where
  "attributes_ok db \<longleftrightarrow> distinct (map va_id (dm_attributes db))
     \<and> distinct (map attribute_index (dm_attributes db))
     \<and> (\<forall>r \<in> set (dm_attributes db). attribute_refs db r)"

definition statuses_ok :: "dm_db \<Rightarrow> bool" where
  "statuses_ok db \<longleftrightarrow> distinct (map vs_id (dm_statuses db))
     \<and> vs_attributeId ` set (dm_statuses db) \<subseteq> va_id ` set (dm_attributes db)"

definition dm_ok :: "dm_db \<Rightarrow> bool" where
  "dm_ok db \<longleftrightarrow> evses_ok db \<and> components_ok db \<and> variables_ok db \<and> links_ok db \<and> attributes_ok db \<and> statuses_ok db"


lemmas dm_ok_defs = dm_ok_def evses_ok_def components_ok_def variables_ok_def links_ok_def
  attributes_ok_def statuses_ok_def

lemma truthy_twice [simp]: "truthy_str (truthy_str s) = truthy_str s"
  by (simp add: truthy_str_def split: option.split)

lemma truthy_not_empty: "truthy_str s \<noteq> Some []"
  by (simp add: truthy_str_def split: option.split)

lemma truthy_id: "s \<noteq> Some [] \<Longrightarrow> truthy_str s = s"
  by (simp add: truthy_str_def split: option.split)

lemma find_append: "find P (xs @ ys) = (case find P xs of None \<Rightarrow> find P ys | Some x \<Rightarrow> Some x)"
  by (induction xs) auto

lemma find_index_iff:
  "distinct (map f xs) \<Longrightarrow> find (\<lambda>x. f x = k) xs = Some x \<longleftrightarrow> x \<in> set xs \<and> f x = k"
  by (induction xs) force+

lemma find_map_same:
  "(\<And>x. x \<in> set xs \<Longrightarrow> P (g x) = Q x) \<Longrightarrow> find P (map g xs) = map_option g (find Q xs)"
  by (induction xs) auto

lemma find_map_le: "(\<lambda>i. find (\<lambda>x. f x = i) xs) \<subseteq>\<^sub>m (\<lambda>i. find (\<lambda>x. f x = i) (xs @ ys))"
  by (auto simp: map_le_def find_append)

lemma same_row: "distinct (map f xs) \<Longrightarrow> x \<in> set xs \<Longrightarrow> y \<in> set xs \<Longrightarrow> f x = f y \<Longrightarrow> x = y"
  by (auto simp: distinct_map inj_on_def)

lemma component_at_iff:
  "components_ok db \<Longrightarrow> component_at db i = Some (t, n, s) \<longleftrightarrow>
     (\<exists>c \<in> set (dm_components db). cm_id c = i \<and> has_component t n s c)"
  by (auto simp: component_at_def components_ok_def has_component_def find_index_iff)

lemma variable_at_iff:
  "variables_ok db \<Longrightarrow> variable_at db i = Some (t, n, s) \<longleftrightarrow>
     (\<exists>v \<in> set (dm_variables db). vr_id v = i \<and> has_variable t n s v)"
  by (auto simp: variable_at_def variables_ok_def has_variable_def find_index_iff)

lemma component_at_inj:
  "components_ok db \<Longrightarrow> component_at db i = Some k \<Longrightarrow> component_at db j = Some k \<Longrightarrow> i = j"
proof (cases k)
  case (fields t n s)
  assume ok: "components_ok db" and i: "component_at db i = Some k" and j: "component_at db j = Some k"
  from i j obtain c c' where "c \<in> set (dm_components db)" "c' \<in> set (dm_components db)" "cm_id c = i" "cm_id c' = j"
    and "has_component t n s c" "has_component t n s c'"
    unfolding fields component_at_iff [OF ok] by blast
  moreover from this have "c = c'"
    using ok by (auto simp: components_ok_def has_component_def intro: same_row)
  ultimately show "i = j" by simp
qed

lemma variable_at_inj:
  "variables_ok db \<Longrightarrow> variable_at db i = Some k \<Longrightarrow> variable_at db j = Some k \<Longrightarrow> i = j"
proof (cases k)
  case (fields t n s)
  assume ok: "variables_ok db" and i: "variable_at db i = Some k" and j: "variable_at db j = Some k"
  from i j obtain c c' where "c \<in> set (dm_variables db)" "c' \<in> set (dm_variables db)" "vr_id c = i" "vr_id c' = j"
    and "has_variable t n s c" "has_variable t n s c'"
    unfolding fields variable_at_iff [OF ok] by blast
  moreover from this have "c = c'"
    using ok by (auto simp: variables_ok_def has_variable_def intro: same_row)
  ultimately show "i = j" by simp
qed

lemma known_iff: "components_ok db \<Longrightarrow> (t, n, s) \<in> known_components db \<longleftrightarrow> (\<exists>i. component_at db i = Some (t, n, s))"
  by (auto simp: known_components_def component_at_iff has_component_def)

lemma table_views [simp]:
  "component_at (db\<lparr> dm_evses := x1 \<rparr>) = component_at db" "variable_at (db\<lparr> dm_evses := x1 \<rparr>) = variable_at db"
  "component_at (db\<lparr> dm_variables := x2 \<rparr>) = component_at db" "variable_at (db\<lparr> dm_components := x3 \<rparr>) = variable_at db"
  "component_at (db\<lparr> dm_componentVariables := x4 \<rparr>) = component_at db"
  "variable_at (db\<lparr> dm_componentVariables := x4 \<rparr>) = variable_at db"
  "component_at (db\<lparr> dm_characteristics := x5 \<rparr>) = component_at db"
  "variable_at (db\<lparr> dm_characteristics := x5 \<rparr>) = variable_at db"
  "component_at (db\<lparr> dm_attributes := x6 \<rparr>) = component_at db" "variable_at (db\<lparr> dm_attributes := x6 \<rparr>) = variable_at db"
  "component_at (db\<lparr> dm_statuses := x7 \<rparr>) = component_at db" "variable_at (db\<lparr> dm_statuses := x7 \<rparr>) = variable_at db"
  by (simp_all add: component_at_def variable_at_def fun_eq_iff)

text \<open>A change of the tables that only adds components and variables keeps what is stored.\<close>

lemma map_leD: "m \<subseteq>\<^sub>m m' \<Longrightarrow> m k = Some v \<Longrightarrow> m' k = Some v"
  by (metis domI map_le_def)

lemma refs_grow:
  assumes "component_at db \<subseteq>\<^sub>m component_at db'" and "variable_at db \<subseteq>\<^sub>m variable_at db'"
  shows "attribute_refs db r \<Longrightarrow> attribute_refs db' r"
  using assms unfolding attribute_refs_def by (blast dest: map_leD)

lemma is_stored_grow:
  assumes "component_at db \<subseteq>\<^sub>m component_at db'" and "variable_at db \<subseteq>\<^sub>m variable_at db'" and "attribute_refs db r"
  shows "is_stored db' k r = is_stored db k r"
proof -
  from assms(3) obtain ck vk where "component_at db (va_componentId r) = Some (va_tenantId r, ck)"
    and "variable_at db (va_variableId r) = Some (va_tenantId r, vk)" unfolding attribute_refs_def by blast
  moreover from this have "component_at db' (va_componentId r) = Some (va_tenantId r, ck)"
    and "variable_at db' (va_variableId r) = Some (va_tenantId r, vk)"
    using assms(1,2) by (auto dest: map_leD)
  ultimately show ?thesis by (cases k) (simp add: is_stored_def)
qed

lemma stored_grow:
  assumes "component_at db \<subseteq>\<^sub>m component_at db'" and "variable_at db \<subseteq>\<^sub>m variable_at db'"
    and "attributes_ok db" and "dm_attributes db' = dm_attributes db"
  shows "stored_attribute db' = stored_attribute db" and "attributes_ok db'"
proof -
  have "find (is_stored db' k) (dm_attributes db) = find (is_stored db k) (dm_attributes db)" for k
    by (rule find_cong) (use assms(3) is_stored_grow [OF assms(1,2)] in \<open>simp_all add: attributes_ok_def\<close>)
  then show "stored_attribute db' = stored_attribute db"
    using assms(4) by (simp add: stored_attribute_def fun_eq_iff)
  show "attributes_ok db'"
    using assms refs_grow [OF assms(1,2)] by (auto simp: attributes_ok_def)
qed

lemma links_grow:
  assumes "component_at db \<subseteq>\<^sub>m component_at db'" and "variable_at db \<subseteq>\<^sub>m variable_at db'"
    and "links_ok db" and "dm_componentVariables db' = dm_componentVariables db"
  shows "links_ok db'"
proof -
  have *: "c \<in> dom (component_at db')" if "c \<in> dom (component_at db)" for c
    using that map_le_implies_dom_le [OF assms(1)] by blast
  have **: "v \<in> dom (variable_at db')" if "v \<in> dom (variable_at db)" for v
    using that map_le_implies_dom_le [OF assms(2)] by blast
  have "c \<in> dom (component_at db') \<and> v \<in> dom (variable_at db')" if "(t, c, v) \<in> set (dm_componentVariables db)" for t c v
    using that assms(3) * ** unfolding links_ok_def by blast
  then show ?thesis
    using assms(3) unfolding links_ok_def assms(4) by blast
qed

lemma find_or_create_cases:
  assumes "find_or_create P mk rows = ((r, b), rows')"
  obtains "find P rows = Some r" and "\<not> b" and "rows' = rows" and "r \<in> set rows" and "P r"
  | "find P rows = None" and "b" and "rows' = rows @ [r]" and "r = mk rows" and "\<forall>x \<in> set rows. \<not> P x"
proof (cases "find P rows")
  case None
  then have "r = mk rows \<and> b \<and> rows' = rows @ [mk rows]"
    using assms by (simp add: find_or_create_def Let_def) blast
  moreover have "\<forall>x \<in> set rows. \<not> P x"
    using None by (simp add: find_None_iff)
  ultimately show thesis using that(2) None by blast
next
  case (Some x)
  then have "r = x \<and> \<not> b \<and> rows' = rows"
    using assms by (simp add: find_or_create_def)
  then show thesis using that(1) Some find_SomeD [OF Some] by blast
qed

text \<open>Evse types, components and variables.\<close>

lemma evse_spec:
  assumes "read_or_create_evse t e db = (r, db')" and ok: "dm_ok db"
  shows "dm_ok db'" and "abs_dm db' = abs_dm db" and "component_at db' = component_at db"
    and "variable_at db' = variable_at db" and "ey_databaseId r \<in> ey_databaseId ` set (dm_evses db')"
    and "dm_components db' = dm_components db"
proof -
  let ?c = "truthy_int (vf_connectorId e)"
  obtain b rows where f: "find_or_create (has_evse t (vf_id e) ?c)
      (\<lambda>rs. \<lparr> ey_databaseId = serial ey_databaseId rs, ey_tenantId = t, ey_id = vf_id e, ey_connectorId = ?c \<rparr>)
      (dm_evses db) = ((r, b), rows)" and db': "db' = db\<lparr> dm_evses := rows \<rparr>"
    using assms(1) by (auto simp: read_or_create_evse_def Let_def split: prod.splits)
  show "component_at db' = component_at db" "variable_at db' = variable_at db" "dm_components db' = dm_components db"
    by (simp_all add: db')
  have same: "is_stored db' = is_stored db" by (simp add: db' is_stored_def fun_eq_iff)
  show "abs_dm db' = abs_dm db"
    by (simp add: abs_dm_def known_components_def stored_values_def fun_eq_iff stored_attribute_def same) (simp add: db')
  have refs: "attribute_refs db' = attribute_refs db" by (simp add: attribute_refs_def db' fun_eq_iff)
  from f have "ey_databaseId r \<in> ey_databaseId ` set rows \<and> dm_ok (db\<lparr> dm_evses := rows \<rparr>)"
  proof (cases rule: find_or_create_cases)
    case 1
    then show ?thesis using ok by simp
  next
    case 2
    have "evses_ok (db\<lparr> dm_evses := rows \<rparr>)"
      using ok 2 serial_not_in [of ey_databaseId "dm_evses db"]
      by (auto simp: dm_ok_def evses_ok_def has_evse_def)
    moreover have "components_ok (db\<lparr> dm_evses := rows \<rparr>)"
      using ok 2(3) by (auto simp: dm_ok_def components_ok_def)
    ultimately show ?thesis
      using ok refs by (simp add: 2(3) dm_ok_def variables_ok_def links_ok_def attributes_ok_def statuses_ok_def db')
  qed
  then show "dm_ok db'" and "ey_databaseId r \<in> ey_databaseId ` set (dm_evses db')" by (simp_all add: db')
qed

lemma component_spec:
  assumes "read_or_create_component t n i db = ((c, created), db')" and ok: "dm_ok db" and i: "i \<noteq> Some []"
  shows "dm_ok db'" and "component_at db \<subseteq>\<^sub>m component_at db'" and "variable_at db' = variable_at db"
    and "component_at db' (cm_id c) = Some (t, n, i)" and "created \<longleftrightarrow> (t, n, i) \<notin> known_components db"
    and "known_components db' = insert (t, n, i) (known_components db)"
    and "stored_attribute db' = stored_attribute db"
    and "dm_evses db' = dm_evses db" and "c \<in> set (dm_components db')"
proof -
  obtain rows where f: "find_or_create (has_component t n i)
      (\<lambda>rs. \<lparr> cm_id = serial cm_id rs, cm_tenantId = t, cm_name = n, cm_instance = i, cm_evseDatabaseId = None \<rparr>)
      (dm_components db) = ((c, created), rows)" and db': "db' = db\<lparr> dm_components := rows \<rparr>"
    using assms(1) by (auto simp: read_or_create_component_def split: prod.splits)
  show v: "variable_at db' = variable_at db" and "dm_evses db' = dm_evses db" by (simp_all add: db')
  from f have *: "components_ok db' \<and> component_at db \<subseteq>\<^sub>m component_at db' \<and> c \<in> set rows \<and> has_component t n i c
      \<and> (created \<longleftrightarrow> (t, n, i) \<notin> known_components db)
      \<and> known_components db' = insert (t, n, i) (known_components db)"
  proof (cases rule: find_or_create_cases)
    case 1
    then show ?thesis
      using ok by (auto simp: db' known_components_def has_component_def dm_ok_def)
  next
    case 2
    have "components_ok db'"
      using ok i 2 serial_not_in [of cm_id "dm_components db"]
      by (auto simp: dm_ok_def components_ok_def has_component_def db')
    moreover have "component_at db \<subseteq>\<^sub>m component_at db'"
      by (auto simp: component_at_def db' 2(3) map_le_def find_append)
    ultimately show ?thesis
      using 2 by (auto simp: known_components_def has_component_def db')
  qed
  then show "component_at db \<subseteq>\<^sub>m component_at db'" and "created \<longleftrightarrow> (t, n, i) \<notin> known_components db"
    and "known_components db' = insert (t, n, i) (known_components db)" and "c \<in> set (dm_components db')"
    by (simp_all add: db')
  from * show "component_at db' (cm_id c) = Some (t, n, i)"
    by (subst component_at_iff) (auto simp: db')
  have grow: "stored_attribute db' = stored_attribute db" "attributes_ok db'"
    by (rule stored_grow; use * v ok in \<open>simp add: db' dm_ok_def\<close>)+
  then show "stored_attribute db' = stored_attribute db" by simp
  have "links_ok db'"
    by (rule links_grow [of db]) (use * v ok in \<open>simp_all add: db' dm_ok_def\<close>)
  then show "dm_ok db'"
    using * grow ok by (simp add: dm_ok_def evses_ok_def variables_ok_def statuses_ok_def db')
qed

lemma variable_spec:
  assumes "read_or_create_variable t n i db = (v, db')" and ok: "dm_ok db" and i: "i \<noteq> Some []"
  shows "dm_ok db'" and "variable_at db \<subseteq>\<^sub>m variable_at db'" and "component_at db' = component_at db"
    and "variable_at db' (vr_id v) = Some (t, n, i)"
    and "stored_attribute db' = stored_attribute db" and "dm_components db' = dm_components db"
    and "dm_attributes db' = dm_attributes db"
proof -
  obtain b rows where f: "find_or_create (has_variable t n i)
      (\<lambda>rs. \<lparr> vr_id = serial vr_id rs, vr_tenantId = t, vr_name = n, vr_instance = i \<rparr>)
      (dm_variables db) = ((v, b), rows)" and db': "db' = db\<lparr> dm_variables := rows \<rparr>"
    using assms(1) by (auto simp: read_or_create_variable_def Let_def split: prod.splits)
  show c: "component_at db' = component_at db" and "dm_components db' = dm_components db"
    and "dm_attributes db' = dm_attributes db" by (simp_all add: db')
  from f have *: "variables_ok db' \<and> variable_at db \<subseteq>\<^sub>m variable_at db' \<and> v \<in> set rows \<and> has_variable t n i v"
  proof (cases rule: find_or_create_cases)
    case 1
    then show ?thesis using ok by (auto simp: db' dm_ok_def)
  next
    case 2
    have "variables_ok db'"
      using ok i 2 serial_not_in [of vr_id "dm_variables db"]
      by (auto simp: dm_ok_def variables_ok_def has_variable_def db')
    moreover have "variable_at db \<subseteq>\<^sub>m variable_at db'"
      by (auto simp: variable_at_def db' 2(3) map_le_def find_append)
    ultimately show ?thesis using 2 by (auto simp: has_variable_def)
  qed
  then show "variable_at db \<subseteq>\<^sub>m variable_at db'" by simp
  from * show "variable_at db' (vr_id v) = Some (t, n, i)"
    by (subst variable_at_iff) (auto simp: db')
  have grow: "stored_attribute db' = stored_attribute db" "attributes_ok db'"
    by (rule stored_grow; use * c ok in \<open>simp add: db' dm_ok_def\<close>)+
  then show "stored_attribute db' = stored_attribute db" by simp
  have "links_ok db'"
    by (rule links_grow [of db]) (use * c ok in \<open>simp_all add: db' dm_ok_def\<close>)
  then show "dm_ok db'"
    using * grow ok by (simp add: dm_ok_def evses_ok_def components_ok_def statuses_ok_def db')
qed


text \<open>What the writes of a report do to the tables.\<close>

lemma table_views_evse: "component_at (set_component_evse t i e db) = component_at db"
  "variable_at (set_component_evse t i e db) = variable_at db"
  by (auto simp: component_at_def variable_at_def set_component_evse_def found_updated fun_eq_iff
        option.map_comp o_def intro!: option.map_cong)

lemma stored_same:
  assumes "component_at db' = component_at db" and "variable_at db' = variable_at db"
    and "dm_attributes db' = dm_attributes db"
  shows "stored_attribute db' = stored_attribute db"
proof -
  have "is_stored db' = is_stored db" by (simp add: is_stored_def assms(1,2) fun_eq_iff)
  then show ?thesis by (intro ext) (simp add: stored_attribute_def assms(3))
qed

lemma set_evse_spec:
  assumes ok: "dm_ok db" and e: "e \<in> ey_databaseId ` set (dm_evses db)"
  shows "dm_ok (set_component_evse t i e db)" and "abs_dm (set_component_evse t i e db) = abs_dm db"
proof -
  let ?db = "set_component_evse t i e db"
  have fields: "dm_evses ?db = dm_evses db" "dm_variables ?db = dm_variables db"
    "dm_componentVariables ?db = dm_componentVariables db" "dm_attributes ?db = dm_attributes db"
    "dm_statuses ?db = dm_statuses db"
    by (simp_all add: set_component_evse_def)
  have ids: "map cm_id (dm_components ?db) = map cm_id (dm_components db)"
    "map (\<lambda>c. (cm_tenantId c, cm_name c, cm_instance c)) (dm_components ?db)
       = map (\<lambda>c. (cm_tenantId c, cm_name c, cm_instance c)) (dm_components db)"
    by (simp_all add: set_component_evse_def update_rows_map)
  have "components_ok ?db"
    using ok e unfolding dm_ok_def components_ok_def ids fields
    by (auto simp: set_component_evse_def)
  then show "dm_ok ?db"
    using ok by (simp add: dm_ok_def evses_ok_def variables_ok_def links_ok_def attributes_ok_def
        statuses_ok_def attribute_refs_def fields table_views_evse)
  have "known_components ?db = known_components db"
    using arg_cong [OF ids(2), of set] by (simp add: known_components_def)
  then show "abs_dm ?db = abs_dm db"
    by (simp add: abs_dm_def stored_values_def fun_eq_iff stored_same [OF table_views_evse fields(4)])
qed

lemma link_spec:
  assumes ok: "dm_ok db" and "component_at db c = Some x" and "variable_at db v = Some y"
  shows "dm_ok (link_variable t c v db)" and "abs_dm (link_variable t c v db) = abs_dm db"
    and "component_at (link_variable t c v db) = component_at db"
    and "variable_at (link_variable t c v db) = variable_at db"
    and "dm_attributes (link_variable t c v db) = dm_attributes db"
    and "stored_attribute (link_variable t c v db) = stored_attribute db"
proof -
  let ?db = "link_variable t c v db"
  show views: "component_at ?db = component_at db" "variable_at ?db = variable_at db"
    by (simp_all add: link_variable_def)
  have fields: "dm_evses ?db = dm_evses db" "dm_variables ?db = dm_variables db" "dm_components ?db = dm_components db"
    "dm_attributes ?db = dm_attributes db" "dm_statuses ?db = dm_statuses db"
    by (simp_all add: link_variable_def)
  then show "dm_attributes ?db = dm_attributes db" by simp
  show "stored_attribute ?db = stored_attribute db" by (rule stored_same) (simp_all add: views fields)
  then show "abs_dm ?db = abs_dm db"
    by (simp add: abs_dm_def stored_values_def known_components_def fun_eq_iff fields)
  obtain r b rows where f: "find_or_create (\<lambda>r. r = (t, c, v)) (\<lambda>_. (t, c, v)) (dm_componentVariables db) = ((r, b), rows)"
    by (metis prod.exhaust_sel)
  then have "links_ok ?db"
  proof (cases rule: find_or_create_cases)
    case 1
    then show ?thesis using ok f by (simp add: link_variable_def links_ok_def dm_ok_def)
  next
    case 2
    then show ?thesis using ok f assms(2,3) by (auto simp: link_variable_def links_ok_def dm_ok_def)
  qed
  then show "dm_ok ?db"
    using ok by (simp add: dm_ok_def evses_ok_def variables_ok_def components_ok_def attributes_ok_def
        statuses_ok_def attribute_refs_def fields views)
qed

lemma is_stored_unique:
  assumes ok: "dm_ok db" and r: "r \<in> set (dm_attributes db)" "is_stored db k r"
  shows "stored_attribute db k = Some r"
proof -
  obtain t name ck vk ty where k: "k = (t, name, ck, vk, ty)" by (cases k)
  have "s = r" if s: "s \<in> set (dm_attributes db)" "is_stored db k s" for s
  proof -
    have "va_componentId s = va_componentId r"
      by (rule component_at_inj [of db _ "(t, ck)"]) (use ok r s in \<open>simp_all add: dm_ok_def is_stored_def k\<close>)
    moreover have "va_variableId s = va_variableId r"
      by (rule variable_at_inj [of db _ "(t, vk)"]) (use ok r s in \<open>simp_all add: dm_ok_def is_stored_def k\<close>)
    ultimately have "attribute_index s = attribute_index r"
      using r(2) s(2) by (simp add: attribute_index_def is_stored_def k)
    then show "s = r"
      using ok s(1) r(1) same_row [of attribute_index "dm_attributes db"] by (simp add: dm_ok_def attributes_ok_def)
  qed
  moreover obtain s where "find (is_stored db k) (dm_attributes db) = Some s"
    using r by (cases "find (is_stored db k) (dm_attributes db)") (auto simp: find_None_iff)
  ultimately show ?thesis
    using find_SomeD [of "is_stored db k"] unfolding stored_attribute_def by metis
qed

lemma stored_in: "stored_attribute db k = Some r \<Longrightarrow> r \<in> set (dm_attributes db) \<and> is_stored db k r"
  unfolding stored_attribute_def by (rule find_SomeD)

lemma stored_unknown:
  assumes "dm_ok db" and "(t, ck) \<notin> known_components db"
  shows "stored_attribute db (t, name, ck, vk, ty) = None"
proof (rule ccontr)
  assume "stored_attribute db (t, name, ck, vk, ty) \<noteq> None"
  then obtain r where "is_stored db (t, name, ck, vk, ty) r" by (auto dest: stored_in)
  then have "component_at db (va_componentId r) = Some (t, ck)" by (simp add: is_stored_def)
  then show False
    using assms known_iff [of db t "fst ck" "snd ck"] by (auto simp: dm_ok_def)
qed

lemma append_attribute:
  assumes ok: "dm_ok db" and c: "component_at db (va_componentId r) = Some (t, ck)"
    and v: "variable_at db (va_variableId r) = Some (t, vk)" and t: "va_tenantId r = t"
    and fresh: "va_id r \<notin> va_id ` set (dm_attributes db)"
    and none: "stored_attribute db (t, va_name r, ck, vk, va_type r) = None"
    and db': "db' = db\<lparr> dm_attributes := dm_attributes db @ [r] \<rparr>"
  shows "dm_ok db'" and "stored_attribute db' = (stored_attribute db)((t, va_name r, ck, vk, va_type r) \<mapsto> r)"
proof -
  let ?k = "(t, va_name r, ck, vk, va_type r)"
  have views: "component_at db' = component_at db" "variable_at db' = variable_at db" by (simp_all add: db')
  have stored: "is_stored db' = is_stored db" by (simp add: is_stored_def views fun_eq_iff)
  have "attribute_index r \<notin> attribute_index ` set (dm_attributes db)"
  proof
    assume "attribute_index r \<in> attribute_index ` set (dm_attributes db)"
    then obtain s where "s \<in> set (dm_attributes db)" "attribute_index s = attribute_index r" by auto
    then have "s \<in> set (dm_attributes db)" "is_stored db ?k s"
      using c v t by (simp_all add: attribute_index_def is_stored_def)
    then show False using is_stored_unique [OF ok] none by fastforce
  qed
  moreover have "attribute_refs db r" using c v t by (auto simp: attribute_refs_def)
  ultimately have "attributes_ok db'"
  proof -
    have refs: "attribute_refs db' = attribute_refs db" by (simp add: attribute_refs_def views fun_eq_iff)
    assume "attribute_index r \<notin> attribute_index ` set (dm_attributes db)" and "attribute_refs db r"
    then show ?thesis
      using ok fresh unfolding attributes_ok_def refs dm_ok_def by (simp add: db')
  qed
  then show "dm_ok db'"
    using ok by (auto simp: dm_ok_def evses_ok_def variables_ok_def components_ok_def
        statuses_ok_def links_ok_def db')
  show "stored_attribute db' = (stored_attribute db)(?k \<mapsto> r)"
  proof
    fix k
    have "is_stored db k r \<longleftrightarrow> k = ?k"
      using c v t by (cases k) (auto simp: is_stored_def)
    then show "stored_attribute db' k = ((stored_attribute db)(?k \<mapsto> r)) k"
      using none by (simp add: stored_attribute_def stored) (auto simp: db' find_append split: option.split)
  qed
qed

lemma update_attribute:
  assumes ok: "dm_ok db" and r: "stored_attribute db k = Some r"
    and f: "\<And>x. x \<in> set (dm_attributes db) \<Longrightarrow> va_id x = va_id r \<Longrightarrow> va_id (f x) = va_id x \<and> attribute_index (f x) = attribute_index x"
    and db': "db' = db\<lparr> dm_attributes := update_rows (\<lambda>x. va_id x = va_id r \<and> va_tenantId x = va_tenantId r) f (dm_attributes db) \<rparr>"
  shows "dm_ok db'" and "stored_attribute db' = (stored_attribute db)(k \<mapsto> f r)"
proof -
  let ?g = "\<lambda>x. if x = r then f x else x"
  have rin: "r \<in> set (dm_attributes db)" "is_stored db k r" using stored_in [OF r] by auto
  have one: "x = r" if "x \<in> set (dm_attributes db)" "va_id x = va_id r" for x
    using ok that rin same_row [of va_id "dm_attributes db"] by (simp add: dm_ok_def attributes_ok_def)
  have rows: "dm_attributes db' = map ?g (dm_attributes db)"
    using one by (auto simp: db' update_rows_def)
  have keep: "va_id (?g x) = va_id x" "attribute_index (?g x) = attribute_index x" if "x \<in> set (dm_attributes db)" for x
    using that f [of x] by auto
  have views: "component_at db' = component_at db" "variable_at db' = variable_at db" by (simp_all add: db')
  have refs: "attribute_refs db' (?g x) = attribute_refs db x" if "x \<in> set (dm_attributes db)" for x
    using keep(2) [OF that] by (simp add: attribute_index_def attribute_refs_def views)
  have ids: "map va_id (dm_attributes db') = map va_id (dm_attributes db)"
    "map attribute_index (dm_attributes db') = map attribute_index (dm_attributes db)"
    using keep by (simp_all add: rows)
  have "attributes_ok db'"
  proof -
    have "attribute_refs db' y" if "y \<in> set (dm_attributes db')" for y
    proof -
      from that obtain x where "x \<in> set (dm_attributes db)" "y = ?g x" unfolding rows by auto
      then show ?thesis using refs ok by (simp add: dm_ok_def attributes_ok_def)
    qed
    then show ?thesis using ok unfolding attributes_ok_def ids dm_ok_def by simp
  qed
  moreover have "statuses_ok db'"
    using ok arg_cong [OF ids(1), of set] by (simp add: dm_ok_def statuses_ok_def) (simp add: db')
  ultimately show "dm_ok db'"
    using ok by (auto simp: dm_ok_def evses_ok_def variables_ok_def components_ok_def links_ok_def db')
  show "stored_attribute db' = (stored_attribute db)(k \<mapsto> f r)"
  proof
    fix k'
    have "is_stored db' k' (?g x) = is_stored db k' x" if "x \<in> set (dm_attributes db)" for x
      using keep(2) [OF that] by (cases k') (simp add: is_stored_def views attribute_index_def)
    then have "stored_attribute db' k' = map_option ?g (stored_attribute db k')"
      unfolding stored_attribute_def rows by (rule find_map_same)
    moreover have "stored_attribute db k' \<noteq> Some r" if "k' \<noteq> k"
    proof
      assume "stored_attribute db k' = Some r"
      then have "is_stored db k' r" using stored_in by blast
      then show False using rin(2) that by (cases k; cases k') (auto simp: is_stored_def)
    qed
    ultimately show "stored_attribute db' k' = ((stored_attribute db)(k \<mapsto> f r)) k'"
      using r by (cases "stored_attribute db k'") auto
  qed
qed


text \<open>
  A step that only grows the tables: the state stays intact and no component or variable
  disappears.
\<close>

definition grows :: "dm_db \<Rightarrow> dm_db \<Rightarrow> bool" where
  "grows db db' \<longleftrightarrow> dm_ok db' \<and> component_at db \<subseteq>\<^sub>m component_at db' \<and> variable_at db \<subseteq>\<^sub>m variable_at db'"

lemma grows_trans: "grows a b \<Longrightarrow> grows b c \<Longrightarrow> grows a c"
  unfolding grows_def by (blast intro: map_le_trans)

lemma growsD: "grows db db' \<Longrightarrow> dm_ok db'"
  "grows db db' \<Longrightarrow> component_at db i = Some x \<Longrightarrow> component_at db' i = Some x"
  "grows db db' \<Longrightarrow> variable_at db j = Some y \<Longrightarrow> variable_at db' j = Some y"
  by (auto simp: grows_def dest: map_leD)

lemma default_variable_spec:
  assumes ok: "dm_ok db" and c: "component_at db c = Some (t, ck)"
    and none: "stored_attribute db (t, name, ck, (n, None), Actual) = None"
  shows "grows db (default_variable t name c evse n db)"
    and "known_components (default_variable t name c evse n db) = known_components db"
    and "stored_values (default_variable t name c evse n db) = spec_default t name ck n (stored_values db)"
proof -
  obtain v db1 where v: "read_or_create_variable t n None db = (v, db1)" by fastforce
  note vs = variable_spec [OF v ok option.distinct(1)]
  let ?db2 = "link_variable t c (vr_id v) db1"
  note ls = link_spec [OF vs(1) c [folded vs(3)] vs(4), of t]
  let ?r = "\<lparr> va_id = serial va_id (dm_attributes ?db2), va_tenantId = t, va_name = name,
              va_variableId = vr_id v, va_componentId = c, va_type = Actual,
              va_evseDatabaseId = evse, va_dataType = Some DBoolean, va_value = Some ''true'',
              va_generatedAt = None, va_mutability = ReadOnly, va_persistent = False,
              va_constant = False, va_bootConfigId = None \<rparr>"
  have db': "default_variable t name c evse n db = ?db2\<lparr> dm_attributes := dm_attributes ?db2 @ [?r] \<rparr>"
    by (simp add: default_variable_def v Let_def)
  have a: "dm_ok (default_variable t name c evse n db)"
    "stored_attribute (default_variable t name c evse n db)
       = (stored_attribute ?db2)((t, va_name ?r, ck, (n, None), va_type ?r) \<mapsto> ?r)"
    using append_attribute [OF ls(1) _ _ _ _ _ db', of t ck "(n, None)"] serial_not_in [of va_id "dm_attributes db"] none
    by (simp_all add: ls vs c)
  show "grows db (default_variable t name c evse n db)"
    using a(1) vs(2) by (simp add: grows_def) (simp add: db' ls(3,4) vs(3))
  show "known_components (default_variable t name c evse n db) = known_components db"
    using vs(6) by (simp add: db' known_components_def link_variable_def)
  have "stored_attribute ?db2 = stored_attribute db" by (simp add: ls(6) vs(5))
  with a(2) show "stored_values (default_variable t name c evse n db) = spec_default t name ck n (stored_values db)"
    by (intro ext) (simp add: stored_values_def spec_default_def)
qed

lemma stored_values_None: "stored_attribute db k = None \<longleftrightarrow> stored_values db k = None"
  by (simp add: stored_values_def)

lemma default_variables_spec:
  assumes "dm_ok db" and "component_at db c = Some (t, ck)" and "distinct ns"
    and "\<And>n. n \<in> set ns \<Longrightarrow> stored_attribute db (t, name, ck, (n, None), Actual) = None"
  shows "grows db (fold (default_variable t name c evse) ns db)
    \<and> known_components (fold (default_variable t name c evse) ns db) = known_components db
    \<and> stored_values (fold (default_variable t name c evse) ns db) = fold (spec_default t name ck) ns (stored_values db)"
  using assms
proof (induction ns arbitrary: db)
  case Nil
  then show ?case by (simp add: grows_def)
next
  case (Cons n ns)
  let ?db = "default_variable t name c evse n db"
  note d = default_variable_spec [OF Cons.prems(1,2) Cons.prems(4) [OF list.set_intros(1)], of evse]
  have "stored_attribute ?db (t, name, ck, (m, None), Actual) = None" if "m \<in> set ns" for m
  proof -
    have "m \<noteq> n" using Cons.prems(3) that by auto
    then show ?thesis
      using Cons.prems(4) [of m] that by (simp add: stored_values_None d(3) spec_default_def)
  qed
  then have "grows ?db (fold (default_variable t name c evse) ns ?db)
    \<and> known_components (fold (default_variable t name c evse) ns ?db) = known_components ?db
    \<and> stored_values (fold (default_variable t name c evse) ns ?db) = fold (spec_default t name ck) ns (stored_values ?db)"
    using Cons.prems(3) growsD [OF d(1)] Cons.prems(2) by (intro Cons.IH) auto
  then show ?case using grows_trans [OF d(1)] by (simp add: d(2,3))
qed

lemma find_component_spec:
  assumes f: "findOrCreateEvseAndComponent t ct name db = (c, db')" and ok: "dm_ok db"
  shows "grows db db'" and "component_at db' (cm_id c) = Some (t, component_key ct)"
    and "abs_dm db' = spec_component t (case name of None \<Rightarrow> [] | Some s \<Rightarrow> s) (component_key ct) (abs_dm db)"
proof -
  obtain evse db1 where e: "(case ct_evse ct of None \<Rightarrow> (None, db)
      | Some e \<Rightarrow> let (r, db') = read_or_create_evse t e db in (Some (ey_databaseId r), db')) = (evse, db1)" by fastforce
  have es: "grows db db1 \<and> abs_dm db1 = abs_dm db \<and> set_option evse \<subseteq> ey_databaseId ` set (dm_evses db1)"
  proof (cases "ct_evse ct")
    case None
    then show ?thesis using e ok by (simp add: grows_def)
  next
    case (Some ef)
    obtain r where r: "read_or_create_evse t ef db = (r, db1)" "evse = Some (ey_databaseId r)"
      using e Some by (auto split: prod.splits)
    note s = evse_spec [OF r(1) ok]
    show ?thesis using s r(2) by (simp add: grows_def)
  qed
  obtain c' created db2 where c': "read_or_create_component t (ct_name ct) (truthy_str (ct_instance ct)) db1 = ((c', created), db2)"
    by (metis prod.exhaust_sel)
  have "c' = c" using f by (simp add: findOrCreateEvseAndComponent_def e c' Let_def)
  with c' have c: "read_or_create_component t (ct_name ct) (truthy_str (ct_instance ct)) db1 = ((c, created), db2)" by simp
  note cs = component_spec [OF c growsD(1) [OF conjunct1 [OF es]] truthy_not_empty, folded component_key_def]
  have g2: "grows db1 db2" using cs by (simp add: grows_def)
  define db3 where "db3 = (case evse of Some e \<Rightarrow> if cm_evseDatabaseId c \<noteq> Some e then set_component_evse t (cm_id c) e db2 else db2
                 | None \<Rightarrow> db2)"
  have s3: "dm_ok db3" "abs_dm db3 = abs_dm db2" "component_at db3 = component_at db2" "variable_at db3 = variable_at db2"
    using set_evse_spec [OF growsD(1) [OF g2], of _ t "cm_id c"] es cs(1,8)
    by (auto simp: db3_def table_views_evse split: option.split)
  have g3: "grows db2 db3" using s3 by (simp add: grows_def)
  have db': "db' = (case name of
                   Some s \<Rightarrow> if created \<and> s \<noteq> [] then fold (default_variable t s (cm_id c) evse) default_names db3 else db3
                 | None \<Rightarrow> db3)"
  proof -
    have "findOrCreateEvseAndComponent t ct name db = (c, case name of
           Some s \<Rightarrow> if created \<and> s \<noteq> [] then fold (default_variable t s (cm_id c) evse) default_names db3 else db3
         | None \<Rightarrow> db3)"
      unfolding findOrCreateEvseAndComponent_def e by (simp add: c Let_def, unfold db3_def, rule refl)
    then show ?thesis using f by simp
  qed
  let ?ck = "component_key ct"
  have c3: "component_at db3 (cm_id c) = Some (t, ?ck)" using cs(4) s3(3) by (simp add: component_key_def)
  have known1: "(t, ?ck) \<in> known_components db1 \<longleftrightarrow> (t, ?ck) \<in> known_components db"
    and vals1: "stored_values db1 = stored_values db"
    and known3: "known_components db3 = insert (t, ?ck) (known_components db)"
    and vals3: "stored_values db3 = stored_values db"
    using es s3(2) cs(6,7) by (simp_all add: abs_dm_def component_key_def stored_values_def fun_eq_iff)
  have new: "created \<longleftrightarrow> (t, ?ck) \<notin> known_components db"
    using cs(5) known1 by (simp add: component_key_def)
  have g: "grows db db3" using es g2 g3 grows_trans by blast
  have "grows db3 db' \<and> abs_dm db' = spec_component t (case name of None \<Rightarrow> [] | Some s \<Rightarrow> s) ?ck (abs_dm db)"
  proof (cases "created \<and> name \<noteq> None \<and> name \<noteq> Some []")
    case False
    then have "db' = db3" and "\<not> ((t, ?ck) \<notin> known_components db \<and> (case name of None \<Rightarrow> [] | Some s \<Rightarrow> s) \<noteq> [])"
      using new by (auto simp: db' split: option.splits)
    then show ?thesis
      using s3(1) by (auto simp: grows_def abs_dm_def spec_component_def known3 vals3)
  next
    case True
    then obtain s where s: "name = Some s" "s \<noteq> []" by auto
    have "stored_attribute db3 (t, s, ?ck, (n, None), Actual) = None" for n
      using stored_unknown [OF ok, of t ?ck] new True vals3 by (simp add: stored_values_None)
    then have "grows db3 db' \<and> known_components db' = known_components db3
        \<and> stored_values db' = fold (spec_default t s ?ck) default_names (stored_values db3)"
      using default_variables_spec [OF s3(1) c3, of default_names s evse] True s by (simp add: db' default_names_def)
    then show ?thesis
      using True new s by (simp add: abs_dm_def spec_component_def known3 vals3)
  qed
  then show "grows db db'" and "component_at db' (cm_id c) = Some (t, ?ck)"
    and "abs_dm db' = spec_component t (case name of None \<Rightarrow> [] | Some s \<Rightarrow> s) ?ck (abs_dm db)"
    using grows_trans [OF g] growsD(2) c3 by blast+
qed

lemma find_component_variable_spec:
  assumes f: "findOrCreateEvseAndComponentAndVariable t ct vt name db = ((c, v), db')" and ok: "dm_ok db"
  shows "grows db db'" and "component_at db' (cm_id c) = Some (t, component_key ct)"
    and "variable_at db' (vr_id v) = Some (t, variable_key vt)"
    and "abs_dm db' = spec_component t (case name of None \<Rightarrow> [] | Some s \<Rightarrow> s) (component_key ct) (abs_dm db)"
proof -
  obtain db1 where c: "findOrCreateEvseAndComponent t ct name db = (c, db1)"
    and "\<exists>db2. read_or_create_variable t (vt_name vt) (truthy_str (vt_instance vt)) db1 = (v, db2)
       \<and> db' = link_variable t (cm_id c) (vr_id v) db2"
    using f by (auto simp: findOrCreateEvseAndComponentAndVariable_def split: prod.splits)
  then obtain db2 where v: "read_or_create_variable t (vt_name vt) (truthy_str (vt_instance vt)) db1 = (v, db2)"
    and db': "db' = link_variable t (cm_id c) (vr_id v) db2" by blast
  note cs = find_component_spec [OF c ok]
  note vs = variable_spec [OF v growsD(1) [OF cs(1)] truthy_not_empty]
  note ls = link_spec [OF vs(1) cs(2) [folded vs(3)] vs(4), of t, folded db']
  have "grows db1 db'" using ls vs by (simp add: grows_def)
  then show "grows db db'" using cs(1) grows_trans by blast
  show "component_at db' (cm_id c) = Some (t, component_key ct)" using ls vs cs by simp
  show "variable_at db' (vr_id v) = Some (t, variable_key vt)" using ls vs by (simp add: variable_key_def)
  have "abs_dm db' = abs_dm db1"
    using ls(2) vs by (simp add: abs_dm_def known_components_def stored_values_def fun_eq_iff)
  then show "abs_dm db' = spec_component t (case name of None \<Rightarrow> [] | Some s \<Rightarrow> s) (component_key ct) (abs_dm db)"
    using cs(3) by simp
qed

text \<open>The attributes of a report.\<close>

lemma characteristics_spec:
  "abs_dm (store_characteristics t v ch db) = abs_dm db"
  "grows db (store_characteristics t v ch db) \<longleftrightarrow> dm_ok db"
proof -
  obtain x where x: "store_characteristics t v ch db = db\<lparr> dm_characteristics := x \<rparr>"
    unfolding store_characteristics_def by (cases "find (\<lambda>(_, v', _). v' = v) (dm_characteristics db) = None") auto
  have "stored_attribute (db\<lparr> dm_characteristics := x \<rparr>) = stored_attribute db" by (rule stored_same) simp_all
  then show "abs_dm (store_characteristics t v ch db) = abs_dm db"
    by (simp add: x abs_dm_def known_components_def stored_values_def fun_eq_iff)
  show "grows db (store_characteristics t v ch db) \<longleftrightarrow> dm_ok db"
    by (simp add: x grows_def dm_ok_defs attribute_refs_def)
qed

lemma report_attribute_spec:
  assumes r: "report_attribute t name ts c v d a db = (r, db')" and ok: "dm_ok db"
    and c: "component_at db (cm_id c) = Some (t, ck)" and v: "variable_at db v = Some (t, vk)"
  shows "grows db db'" and "known_components db' = known_components db"
    and "stored_values db' = spec_attribute t name ck vk a (stored_values db)"
    and "stored_attribute db' (t, name, ck, vk, attribute_type_of a) = Some r"
    and "k \<noteq> (t, name, ck, vk, attribute_type_of a) \<Longrightarrow> stored_attribute db' k = stored_attribute db k"
    and "dm_statuses db' = dm_statuses db" and "va_generatedAt r = Some ts"
proof -
  let ?k = "(t, name, ck, vk, attribute_type_of a)"
  let ?f = "updated_attribute ts (cm_evseDatabaseId c) d a"
  have has: "has_attribute t name v (cm_id c) (attribute_type_of a) x \<longleftrightarrow> is_stored db ?k x" for x
  proof -
    have "va_componentId x = cm_id c" if "component_at db (va_componentId x) = Some (t, ck)"
      using component_at_inj [OF _ that c] ok by (simp add: dm_ok_def)
    moreover have "va_variableId x = v" if "variable_at db (va_variableId x) = Some (t, vk)"
      using variable_at_inj [OF _ that v] ok by (simp add: dm_ok_def)
    ultimately show ?thesis using c v by (auto simp: has_attribute_def is_stored_def)
  qed
  then have has_eq: "has_attribute t name v (cm_id c) (attribute_type_of a) = is_stored db ?k" by (rule ext)
  obtain saved b rows where f: "find_or_create (has_attribute t name v (cm_id c) (attribute_type_of a))
            (\<lambda>rs. \<lparr> va_id = serial va_id rs, va_tenantId = t, va_name = name, va_variableId = v,
                    va_componentId = cm_id c, va_type = attribute_type_of a, va_evseDatabaseId = cm_evseDatabaseId c,
                    va_dataType = d, va_value = at_value a, va_generatedAt = Some ts,
                    va_mutability = or_else (at_mutability a) ReadWrite,
                    va_persistent = or_else (at_persistent a) False,
                    va_constant = or_else (at_constant a) False, va_bootConfigId = None \<rparr>)
            (dm_attributes db) = ((saved, b), rows)" by (metis prod.exhaust_sel)
  note res = r [unfolded report_attribute_def Let_def f, simplified]
  from f have *: "dm_ok db' \<and> stored_attribute db' = (stored_attribute db)(?k \<mapsto> r)
     \<and> (va_value r, va_mutability r) = the (spec_attribute t name ck vk a (stored_values db) ?k)
     \<and> component_at db' = component_at db \<and> variable_at db' = variable_at db
     \<and> dm_components db' = dm_components db \<and> dm_statuses db' = dm_statuses db \<and> va_generatedAt r = Some ts"
  proof (cases rule: find_or_create_cases)
    case 1
    have sv: "stored_attribute db ?k = Some saved"
      using 1(1) by (simp add: stored_attribute_def has_eq)
    have keys: "va_tenantId saved = t" "va_type saved = attribute_type_of a"
      using 1(5) by (simp_all add: has_attribute_def)
    have r': "r = ?f saved" "db' = db\<lparr> dm_attributes := update_rows (\<lambda>r. va_id r = va_id saved \<and> va_tenantId r = va_tenantId saved) ?f (dm_attributes db) \<rparr>"
      using res 1(2,3) by (auto simp: keys)
    have one: "x = saved" if "x \<in> set (dm_attributes db)" "va_id x = va_id saved" for x
      using ok that 1(4) same_row [of va_id "dm_attributes db"] by (simp add: dm_ok_def attributes_ok_def)
    have "va_id (?f x) = va_id x \<and> attribute_index (?f x) = attribute_index x"
      if "x \<in> set (dm_attributes db)" "va_id x = va_id saved" for x
      using one [OF that] keys(2)
      by (auto simp: updated_attribute_def Let_def attribute_index_def attribute_type_of_def or_else_def split: option.split)
    note u = update_attribute [OF ok sv this r'(2)]
    have "(va_value r, va_mutability r) = the (spec_attribute t name ck vk a (stored_values db) ?k)"
      by (simp add: r'(1) updated_attribute_def Let_def spec_attribute_def stored_values_def sv)
    moreover have "va_generatedAt r = Some ts" by (simp add: r'(1) updated_attribute_def Let_def)
    ultimately show ?thesis using u by (simp add: r' )
  next
    case 2
    have none: "stored_attribute db ?k = None"
      using 2(1) by (simp add: stored_attribute_def has_eq)
    have r': "r = saved" "db' = db\<lparr> dm_attributes := dm_attributes db @ [r] \<rparr>"
      using res 2(2,3) by auto
    have fields: "va_tenantId r = t" "va_name r = name" "va_type r = attribute_type_of a"
      "va_componentId r = cm_id c" "va_variableId r = v" "va_id r = serial va_id (dm_attributes db)"
      "va_value r = at_value a" "va_mutability r = or_else (at_mutability a) ReadWrite" "va_generatedAt r = Some ts"
      by (simp_all add: r'(1) 2(4))
    have "dm_ok db'" "stored_attribute db' = (stored_attribute db)((t, va_name r, ck, vk, va_type r) \<mapsto> r)"
      using append_attribute [OF ok _ _ _ _ _ r'(2), of t ck vk] c v none serial_not_in [of va_id "dm_attributes db"] by (simp_all add: fields)
    then show ?thesis
      using none by (simp add: fields spec_attribute_def stored_values_def) (simp add: r'(2))
  qed
  show "grows db db'" using * by (simp add: grows_def)
  show "known_components db' = known_components db" using * by (simp add: known_components_def)
  show "stored_attribute db' ?k = Some r" "dm_statuses db' = dm_statuses db" "va_generatedAt r = Some ts" using * by simp_all
  show "stored_attribute db' k = stored_attribute db k" if "k \<noteq> ?k" using * that by simp
  show "stored_values db' = spec_attribute t name ck vk a (stored_values db)"
  proof
    fix k
    show "stored_values db' k = spec_attribute t name ck vk a (stored_values db) k"
    proof (cases "k = ?k")
      case True
      then show ?thesis using * by (simp add: stored_values_def spec_attribute_def Let_def)
    next
      case False
      then show ?thesis using * by (simp add: stored_values_def spec_attribute_def Let_def)
    qed
  qed
qed

lemma report_attributes_spec:
  assumes "report_attributes t name ts c v d ats db = (rs, db')" and "dm_ok db"
    and "component_at db (cm_id c) = Some (t, ck)" and "variable_at db v = Some (t, vk)"
    and "distinct (map attribute_type_of ats)"
  shows "grows db db' \<and> known_components db' = known_components db
    \<and> stored_values db' = fold (spec_attribute t name ck vk) ats (stored_values db)
    \<and> list_all2 (\<lambda>a r. stored_attribute db' (t, name, ck, vk, attribute_type_of a) = Some r \<and> va_generatedAt r = Some ts) ats rs
    \<and> (\<forall>k. k \<notin> (\<lambda>a. (t, name, ck, vk, attribute_type_of a)) ` set ats \<longrightarrow> stored_attribute db' k = stored_attribute db k)
    \<and> dm_statuses db' = dm_statuses db"
  using assms
proof (induction ats arbitrary: db rs)
  case Nil
  then show ?case by (simp add: grows_def)
next
  case (Cons a ats)
  obtain r db1 rs' where r: "report_attribute t name ts c v d a db = (r, db1)"
    and rs: "report_attributes t name ts c v d ats db1 = (rs', db')" "rs = r # rs'"
    using Cons.prems(1) by (auto simp: Let_def split: prod.splits)
  note s = report_attribute_spec [OF r Cons.prems(2-4)]
  have IH: "grows db1 db' \<and> known_components db' = known_components db1
    \<and> stored_values db' = fold (spec_attribute t name ck vk) ats (stored_values db1)
    \<and> list_all2 (\<lambda>a r. stored_attribute db' (t, name, ck, vk, attribute_type_of a) = Some r \<and> va_generatedAt r = Some ts) ats rs'
    \<and> (\<forall>k. k \<notin> (\<lambda>a. (t, name, ck, vk, attribute_type_of a)) ` set ats \<longrightarrow> stored_attribute db' k = stored_attribute db1 k)
    \<and> dm_statuses db' = dm_statuses db1"
    by (rule Cons.IH [OF rs(1) growsD(1) [OF s(1)] growsD(2) [OF s(1) Cons.prems(3)] growsD(3) [OF s(1) Cons.prems(4)]])
      (use Cons.prems(5) in simp)
  have kept: "stored_attribute db' k = stored_attribute db1 k"
    if "k \<notin> (\<lambda>a. (t, name, ck, vk, attribute_type_of a)) ` set ats" for k
    using IH that by blast
  have "stored_attribute db' (t, name, ck, vk, attribute_type_of a) = Some r"
  proof -
    have "(t, name, ck, vk, attribute_type_of a) \<notin> (\<lambda>a. (t, name, ck, vk, attribute_type_of a)) ` set ats"
      using Cons.prems(5) by (auto simp: image_iff)
    then show ?thesis using kept s(4) by simp
  qed
  moreover have "stored_attribute db' k = stored_attribute db k"
    if "k \<notin> (\<lambda>a. (t, name, ck, vk, attribute_type_of a)) ` set (a # ats)" for k
  proof -
    from that have "k \<noteq> (t, name, ck, vk, attribute_type_of a)"
      and "k \<notin> (\<lambda>a. (t, name, ck, vk, attribute_type_of a)) ` set ats" by auto
    then show ?thesis using kept s(5) by simp
  qed
  moreover have "grows db db'" using IH grows_trans [OF s(1)] by blast
  moreover have "known_components db' = known_components db" "dm_statuses db' = dm_statuses db"
    "stored_values db' = fold (spec_attribute t name ck vk) (a # ats) (stored_values db)"
    using IH s(2,3,6) by simp_all
  moreover have "list_all2 (\<lambda>a r. stored_attribute db' (t, name, ck, vk, attribute_type_of a) = Some r \<and> va_generatedAt r = Some ts) ats rs'"
    using IH by blast
  ultimately show ?case
    unfolding rs(2) list_all2_Cons using s(7) by (intro conjI allI impI)
qed

lemma report_result:
  assumes r: "createOrUpdateDeviceModelByStationId t value name ts db = (Inr rows, db')" and ok: "dm_ok db"
  defines "ck \<equiv> component_key (rp_component value)" and "vk \<equiv> variable_key (rp_variable value)"
  shows "dm_ok db'" and "abs_dm db' = spec_report t value name (abs_dm db)"
    and "list_all2 (\<lambda>a r. stored_attribute db' (t, name, ck, vk, attribute_type_of a) = Some r \<and> va_generatedAt r = Some ts)
      (rp_attributes value) rows"
    and "grows db db'"
proof -
  have d: "distinct (map attribute_type_of (rp_attributes value))"
    using r by (auto simp: createOrUpdateDeviceModelByStationId_def split: if_splits)
  obtain c v db1 where cv: "findOrCreateEvseAndComponentAndVariable t (rp_component value) (rp_variable value) (Some name) db = ((c, v), db1)"
    by (metis prod.exhaust_sel)
  obtain dt db2 where dt: "(case rp_characteristics value of None \<Rightarrow> (None, db1)
                | Some ch \<Rightarrow> (Some (ch_dataType ch), store_characteristics t (vr_id v) ch db1)) = (dt, db2)"
    by fastforce
  have ra: "report_attributes t name ts c (vr_id v) dt (rp_attributes value) db2 = (rows, db')"
    using r d cv dt by (auto simp: createOrUpdateDeviceModelByStationId_def Let_def split: prod.splits)
  note s = find_component_variable_spec [OF cv ok]
  have g2: "grows db1 db2" and a2: "abs_dm db2 = abs_dm db1"
  proof -
    have "grows db1 db2 \<and> abs_dm db2 = abs_dm db1"
    proof (cases "rp_characteristics value")
      case None
      then show ?thesis using dt growsD(1) [OF s(1)] by (simp add: grows_def)
    next
      case (Some ch)
      then have "db2 = store_characteristics t (vr_id v) ch db1" using dt by simp
      then show ?thesis using characteristics_spec growsD(1) [OF s(1)] by simp
    qed
    then show "grows db1 db2" and "abs_dm db2 = abs_dm db1" by simp_all
  qed
  note ats = report_attributes_spec [OF ra growsD(1) [OF g2] growsD(2) [OF g2 s(2)] growsD(3) [OF g2 s(3)] d]
  show "grows db db'" using s(1) g2 ats grows_trans by blast
  then show "dm_ok db'" by (rule growsD)
  have "abs_dm db' = (known_components db1, fold (spec_attribute t name ck vk) (rp_attributes value) (stored_values db1))"
    using ats a2 by (simp add: abs_dm_def ck_def vk_def)
  also have "\<dots> = spec_report t value name (abs_dm db)"
    using s(4) [symmetric] by (simp add: spec_report_def ck_def vk_def) (simp add: abs_dm_def)
  finally show "abs_dm db' = spec_report t value name (abs_dm db)" .
  show "list_all2 (\<lambda>a r. stored_attribute db' (t, name, ck, vk, attribute_type_of a) = Some r \<and> va_generatedAt r = Some ts)
      (rp_attributes value) rows" using ats by (simp add: ck_def vk_def)
qed


section \<open>Status history\<close>

definition add_status :: "int \<Rightarrow> string option \<Rightarrow> string \<Rightarrow> string option \<Rightarrow> nat \<Rightarrow> dm_db \<Rightarrow> dm_db" where
  "add_status t v s info a db =
     db\<lparr> dm_statuses := dm_statuses db @
           [\<lparr> vs_id = serial vs_id (dm_statuses db), vs_tenantId = t, vs_value = v, vs_status = s,
              vs_statusInfo = info, vs_attributeId = a \<rparr>] \<rparr>"

definition last_accepted :: "int \<Rightarrow> nat \<Rightarrow> dm_db \<Rightarrow> status_row option" where
  "last_accepted t a db =
     (case rev (filter (\<lambda>s. vs_tenantId s = t \<and> vs_attributeId s = a \<and> vs_status s = ''Accepted'') (dm_statuses db)) of
        [] \<Rightarrow> None | s # _ \<Rightarrow> Some s)"

record set_variable_result =
  sv_type :: "attribute_enum option"
  sv_status :: set_variable_status
  sv_statusInfo :: "string option"
  sv_component :: component_type
  sv_variable :: variable_type

record get_variable_result =
  gr_type :: "attribute_enum option"
  gr_value :: "string option"
  gr_status :: get_variable_status
  gr_statusInfo :: "string option"
  gr_component :: component_type
  gr_variable :: variable_type

record set_variable_data =
  sd_type :: "attribute_enum option"
  sd_value :: string
  sd_component :: component_type
  sd_variable :: variable_type

text \<open>
  The query for the attribute of a component and a variable (an inner join on both). The
  argument undef of the operations below is what saving a row does to a column that was set
  to undefined, given the column's value: the object-relational mapper decides that.
\<close>

definition joins_attribute ::
  "dm_db \<Rightarrow> int \<Rightarrow> string \<Rightarrow> attribute_enum \<Rightarrow> name_key \<Rightarrow> name_key \<Rightarrow> attribute_row \<Rightarrow> bool" where
  "joins_attribute db t name ty ck vk r \<longleftrightarrow> va_tenantId r = t \<and> va_name r = name \<and> va_type r = ty
     \<and> map_option snd (component_at db (va_componentId r)) = Some ck
     \<and> map_option snd (variable_at db (va_variableId r)) = Some vk"

definition result_attribute :: "int \<Rightarrow> set_variable_result \<Rightarrow> string \<Rightarrow> attribute_row option \<Rightarrow> dm_db \<Rightarrow> exn + attribute_row option" where
  "result_attribute t result name existing db =
     (case existing of
        Some r \<Rightarrow> Inr (Some r)
      | None \<Rightarrow> read_only_one (joins_attribute db t name (or_else (sv_type result) Actual)
                   (component_key (sv_component result)) (variable_key (sv_variable result)))
                   (dm_attributes db))"

definition updateResultByStationId ::
  "(string option \<Rightarrow> string option) \<Rightarrow> int \<Rightarrow> set_variable_result \<Rightarrow> string \<Rightarrow> string \<Rightarrow> attribute_row option \<Rightarrow>
     dm_db \<Rightarrow> exn option \<times> dm_db" where
  "updateResultByStationId undef t result name ts existing db =
     (case result_attribute t result name existing db of
        Inl e \<Rightarrow> (Some e, db)
      | Inr None \<Rightarrow> (Some (JsErr ''Unable to update variable attribute status...'' []), db)
      | Inr (Some r) \<Rightarrow>
          let db1 = add_status t (va_value r) (set_status_str (sv_status result)) (sv_statusInfo result) (va_id r) db;
              new = (\<lambda>x. if sv_status result = SetAccepted then va_value r
                         else case last_accepted t (va_id r) db1 of
                                Some s \<Rightarrow> vs_value s
                              | None \<Rightarrow> undef (va_value x))
          in (None, db1\<lparr> dm_attributes := update_rows (\<lambda>x. va_id x = va_id r)
                (\<lambda>x. x\<lparr> va_value := new x, va_generatedAt := Some ts \<rparr>) (dm_attributes db1) \<rparr>))"

section \<open>SetVariables and GetVariables\<close>

definition set_data_report :: "set_variable_data \<Rightarrow> report_data" where
  "set_data_report d =
     \<lparr> rp_component = sd_component d, rp_variable = sd_variable d,
       rp_attributes = [\<lparr> at_type = sd_type d, at_value = Some (sd_value d), at_mutability = None,
                          at_persistent = None, at_constant = None \<rparr>],
       rp_characteristics = None \<rparr>"

fun createOrUpdateBySetVariablesDataAndStationId ::
  "int \<Rightarrow> set_variable_data list \<Rightarrow> string \<Rightarrow> string \<Rightarrow> dm_db \<Rightarrow> (exn + attribute_row list) \<times> dm_db" where
  "createOrUpdateBySetVariablesDataAndStationId t [] name ts db = (Inr [], db)"
| "createOrUpdateBySetVariablesDataAndStationId t (d # ds) name ts db =
     (case createOrUpdateDeviceModelByStationId t (set_data_report d) name ts db of
        (Inl e, db1) \<Rightarrow> (Inl e, db1)
      | (Inr rows, db1) \<Rightarrow>
          (case createOrUpdateBySetVariablesDataAndStationId t ds name ts db1 of
             (Inl e, db2) \<Rightarrow> (Inl e, db2)
           | (Inr rs, db2) \<Rightarrow> (Inr (hd rows # rs), db2)))"

definition get_result_report :: "get_variable_result \<Rightarrow> report_data" where
  "get_result_report g =
     \<lparr> rp_component = gr_component g, rp_variable = gr_variable g,
       rp_attributes = [\<lparr> at_type = gr_type g, at_value = gr_value g, at_mutability = None,
                          at_persistent = None, at_constant = None \<rparr>],
       rp_characteristics = None \<rparr>"

definition create_refused_attribute ::
  "int \<Rightarrow> get_variable_result \<Rightarrow> string \<Rightarrow> string \<Rightarrow> dm_db \<Rightarrow> attribute_row \<times> dm_db" where
  "create_refused_attribute t g name ts db =
     (let ((c, v), db1) = findOrCreateEvseAndComponentAndVariable t (gr_component g) (gr_variable g) (Some name) db;
          ty = or_else (gr_type g) Actual;
          ((r, _), rows) = find_or_create (has_attribute t name (vr_id v) (cm_id c) ty)
            (\<lambda>rs. \<lparr> va_id = serial va_id rs, va_tenantId = t, va_name = name, va_variableId = vr_id v,
                    va_componentId = cm_id c, va_type = ty, va_evseDatabaseId = cm_evseDatabaseId c,
                    va_dataType = None, va_value = None, va_generatedAt = Some ts,
                    va_mutability = ReadWrite, va_persistent = False, va_constant = False,
                    va_bootConfigId = None \<rparr>)
            (dm_attributes db1)
      in (r, db1\<lparr> dm_attributes := rows \<rparr>))"

fun createOrUpdateByGetVariablesResultAndStationId ::
  "int \<Rightarrow> get_variable_result list \<Rightarrow> string \<Rightarrow> string \<Rightarrow> dm_db \<Rightarrow> (exn + attribute_row list) \<times> dm_db" where
  "createOrUpdateByGetVariablesResultAndStationId t [] name ts db = (Inr [], db)"
| "createOrUpdateByGetVariablesResultAndStationId t (g # gs) name ts db =
     (if gr_status g = GetAccepted
      then (case createOrUpdateDeviceModelByStationId t (get_result_report g) name ts db of
              (Inl e, db1) \<Rightarrow> (Inl e, db1)
            | (Inr rows, db1) \<Rightarrow>
                let db2 = add_status t (gr_value g) (get_status_str (gr_status g)) (gr_statusInfo g) (va_id (hd rows)) db1
                in (case createOrUpdateByGetVariablesResultAndStationId t gs name ts db2 of
                      (Inl e, db3) \<Rightarrow> (Inl e, db3)
                    | (Inr rs, db3) \<Rightarrow> (Inr (hd rows # rs), db3)))
      else let (r, db1) = create_refused_attribute t g name ts db;
               db2 = add_status t (gr_value g) (get_status_str (gr_status g)) (gr_statusInfo g) (va_id r) db1
           in createOrUpdateByGetVariablesResultAndStationId t gs name ts db2)"

text \<open>
  SetVariablesResponse: the data of the request under the text of its component and variable
  (a later item of the request replaces an earlier one under the same text).
\<close>

definition instance_text :: "string option \<Rightarrow> string" where
  "instance_text i = or_else (truthy_str i) ''null''"

definition getSetVariableDataMapKey :: "component_type \<Rightarrow> variable_type \<Rightarrow> string" where
  "getSetVariableDataMapKey c v =
     ct_name c @ ''-'' @ instance_text (ct_instance c) @ ''-'' @ vt_name v @ ''-'' @ instance_text (vt_instance v)"

definition set_variables_data_map :: "set_variable_data list \<Rightarrow> string \<rightharpoonup> set_variable_data" where
  "set_variables_data_map ds = map_of (rev (map (\<lambda>d. (getSetVariableDataMapKey (sd_component d) (sd_variable d), d)) ds))"

definition getExistingOrCreateVariableAttribute ::
  "int \<Rightarrow> string \<Rightarrow> component_type \<Rightarrow> variable_type \<Rightarrow> string \<Rightarrow> attribute_enum \<Rightarrow> string \<Rightarrow> dm_db \<Rightarrow>
     (exn + attribute_row option) \<times> dm_db" where
  "getExistingOrCreateVariableAttribute t name c v val ty clock db =
     (case read_only_one (joins_attribute db t name ty (component_key c) (variable_key v)) (dm_attributes db) of
        Inl e \<Rightarrow> (Inl e, db)
      | Inr (Some r) \<Rightarrow> (Inr (Some r), db)
      | Inr None \<Rightarrow>
          (case createOrUpdateBySetVariablesDataAndStationId t
                  [\<lparr> sd_type = Some ty, sd_value = val,
                     sd_component = \<lparr> ct_name = ct_name c, ct_instance = truthy_str (ct_instance c), ct_evse = None \<rparr>,
                     sd_variable = \<lparr> vt_name = vt_name v, vt_instance = truthy_str (vt_instance v) \<rparr> \<rparr>] name clock db of
             (Inl e, db1) \<Rightarrow> (Inl e, db1)
           | (Inr rows, db1) \<Rightarrow> (Inr (case rows of [r] \<Rightarrow> Some r | _ \<Rightarrow> None), db1)))"

definition handleSetVariableResultType ::
  "(string option \<Rightarrow> string option) \<Rightarrow> int \<Rightarrow> string \<Rightarrow> set_variable_result \<Rightarrow> (string \<rightharpoonup> set_variable_data) \<Rightarrow>
     string \<Rightarrow> string \<Rightarrow> dm_db \<Rightarrow> exn option \<times> dm_db" where
  "handleSetVariableResultType undef t name result data ts clock db =
     (case data (getSetVariableDataMapKey (sv_component result) (sv_variable result)) of
        None \<Rightarrow> (None, db)
      | Some d \<Rightarrow>
          (case getExistingOrCreateVariableAttribute t name (sv_component result) (sv_variable result)
                  (sd_value d) (or_else (sd_type d) Actual) clock db of
             (Inl e, db1) \<Rightarrow> (Some e, db1)
           | (Inr existing, db1) \<Rightarrow>
               updateResultByStationId undef t result name ts
                 (if sv_status result = SetAccepted
                  then map_option (\<lambda>r. r\<lparr> va_value := Some (sd_value d) \<rparr>) existing
                  else existing) db1))"

fun handle_results ::
  "(string option \<Rightarrow> string option) \<Rightarrow> int \<Rightarrow> string \<Rightarrow> (string \<rightharpoonup> set_variable_data) \<Rightarrow> string \<Rightarrow> string \<Rightarrow>
     set_variable_result list \<Rightarrow> dm_db \<Rightarrow> exn option \<times> dm_db" where
  "handle_results undef t name data ts clock [] db = (None, db)"
| "handle_results undef t name data ts clock (r # rs) db =
     (case handleSetVariableResultType undef t name r data ts clock db of
        (Some e, db1) \<Rightarrow> (Some e, db1)
      | (None, db1) \<Rightarrow> handle_results undef t name data ts clock rs db1)"

text \<open>
  The handler: request is what the message log has under the response's correlation id, clock
  the time a created attribute gets (its clock is read per result in the code).
\<close>

definition handle_set_variables_response ::
  "(string option \<Rightarrow> string option) \<Rightarrow> int \<Rightarrow> string \<Rightarrow> exn + set_variable_data list option \<Rightarrow>
     set_variable_result list \<Rightarrow> string \<Rightarrow> string \<Rightarrow> dm_db \<Rightarrow> exn option \<times> dm_db" where
  "handle_set_variables_response undef t name request items ts clock db =
     (case request of
        Inl e \<Rightarrow> (Some e, db)
      | Inr r \<Rightarrow> handle_results undef t name
                   (case r of None \<Rightarrow> (\<lambda>_. None) | Some ds \<Rightarrow> set_variables_data_map ds) ts clock items db)"

section \<open>NotifyReport\<close>

text \<open>Each stored attribute is reloaded and gets an Accepted status with the message's action.\<close>

definition reported_result :: "dm_db \<Rightarrow> string \<Rightarrow> attribute_row \<Rightarrow> set_variable_result" where
  "reported_result db action r =
     (let ck = (case component_at db (va_componentId r) of Some (_, k) \<Rightarrow> k | None \<Rightarrow> ([], None));
          vk = (case variable_at db (va_variableId r) of Some (_, k) \<Rightarrow> k | None \<Rightarrow> ([], None))
      in \<lparr> sv_type = Some (va_type r), sv_status = SetAccepted, sv_statusInfo = Some action,
           sv_component = \<lparr> ct_name = fst ck, ct_instance = snd ck, ct_evse = None \<rparr>,
           sv_variable = \<lparr> vt_name = fst vk, vt_instance = snd vk \<rparr> \<rparr>)"

fun accept_attributes ::
  "(string option \<Rightarrow> string option) \<Rightarrow> int \<Rightarrow> string \<Rightarrow> string \<Rightarrow> string \<Rightarrow> attribute_row list \<Rightarrow> dm_db \<Rightarrow> exn option \<times> dm_db" where
  "accept_attributes undef t name ts action [] db = (None, db)"
| "accept_attributes undef t name ts action (r # rs) db =
     (case updateResultByStationId undef t (reported_result db action r) name ts None db of
        (Some e, db1) \<Rightarrow> (Some e, db1)
      | (None, db1) \<Rightarrow> accept_attributes undef t name ts action rs db1)"

fun store_reports ::
  "(string option \<Rightarrow> string option) \<Rightarrow> int \<Rightarrow> string \<Rightarrow> string \<Rightarrow> string \<Rightarrow> report_data list \<Rightarrow> dm_db \<Rightarrow> exn option \<times> dm_db" where
  "store_reports undef t name ts action [] db = (None, db)"
| "store_reports undef t name ts action (v # vs) db =
     (case createOrUpdateDeviceModelByStationId t v name ts db of
        (Inl e, db1) \<Rightarrow> (Some e, db1)
      | (Inr rows, db1) \<Rightarrow>
          (case accept_attributes undef t name ts action rows db1 of
             (Some e, db2) \<Rightarrow> (Some e, db2)
           | (None, db2) \<Rightarrow> store_reports undef t name ts action vs db2))"

record notify_report =
  np_requestId :: int
  np_generatedAt :: string
  np_tbc :: "bool option"
  np_reportData :: "report_data list option"

datatype report_answer = Report_result | Report_call_error error_code string | Report_throws exn

text \<open>fk is what the database's foreign-key errors look like.\<close>

definition handle_notify_report ::
  "(string option \<Rightarrow> string option) \<Rightarrow> (exn \<Rightarrow> bool) \<Rightarrow> int \<Rightarrow> int \<Rightarrow> string \<Rightarrow> notify_report \<Rightarrow>
     dm_db \<times> mem_cache \<Rightarrow> report_answer \<times> dm_db \<times> mem_cache" where
  "handle_notify_report undef fk maxCachingSeconds t name m = (\<lambda>(db, ca).
     (case store_reports undef t name (np_generatedAt m) ''NotifyReport'' (or_else (np_reportData m) []) db of
        (Some e, db1) \<Rightarrow>
          (if fk e then Report_call_error PropertyConstraintViolation ''Referenced entity does not exist.''
           else Report_throws e, db1, ca)
      | (None, db1) \<Rightarrow>
          (Report_result, db1,
           if or_else (np_tbc m) False
           then snd (set_key (int_str (np_requestId m)) ''ongoing'' (Some name) (Some maxCachingSeconds) ca)
           else snd (set_key (int_str (np_requestId m)) ''complete'' (Some name) None ca))))"

section \<open>The state of a connector\<close>

text \<open>
  The part of processStatusNotification that writes the device model: the components named
  Connector that are linked to the reported EVSE and connector and have the variable
  AvailabilityState.
\<close>

definition connector_components :: "int \<Rightarrow> int \<Rightarrow> int \<Rightarrow> dm_db \<Rightarrow> (component_row \<times> evse_ref \<times> variable_row) list" where
  "connector_components t evseId connectorId db =
     concat (map (\<lambda>c.
       (case find (\<lambda>e. Some (ey_databaseId e) = cm_evseDatabaseId c \<and> ey_id e = evseId
                     \<and> ey_connectorId e = Some connectorId) (dm_evses db) of
          None \<Rightarrow> []
        | Some e \<Rightarrow>
            (case filter (\<lambda>v. vr_name v = ''AvailabilityState''
                     \<and> (\<exists>(_, c', v') \<in> set (dm_componentVariables db). c' = cm_id c \<and> v' = vr_id v)) (dm_variables db) of
               [] \<Rightarrow> []
             | v # _ \<Rightarrow> [(c, \<lparr> vf_id = ey_id e, vf_connectorId = ey_connectorId e \<rparr>, v)])))
       (filter (\<lambda>c. cm_tenantId c = t \<and> cm_name c = ''Connector'') (dm_components db)))"

fun store_connector_status ::
  "int \<Rightarrow> string \<Rightarrow> string \<Rightarrow> string \<Rightarrow> (component_row \<times> evse_ref \<times> variable_row) list \<Rightarrow> dm_db \<Rightarrow> exn option \<times> dm_db" where
  "store_connector_status t name status ts [] db = (None, db)"
| "store_connector_status t name status ts ((c, e, v) # rest) db =
     (case createOrUpdateDeviceModelByStationId t
             \<lparr> rp_component = \<lparr> ct_name = cm_name c, ct_instance = cm_instance c, ct_evse = Some e \<rparr>,
               rp_variable = \<lparr> vt_name = vr_name v, vt_instance = vr_instance v \<rparr>,
               rp_attributes = [\<lparr> at_type = None, at_value = Some status, at_mutability = None,
                                  at_persistent = None, at_constant = None \<rparr>],
               rp_characteristics = None \<rparr> name ts db of
        (Inl e, db1) \<Rightarrow> (Some e, db1)
      | (Inr _, db1) \<Rightarrow> store_connector_status t name status ts rest db1)"

definition assign_connector_status ::
  "int \<Rightarrow> string \<Rightarrow> int \<Rightarrow> int \<Rightarrow> string \<Rightarrow> string \<Rightarrow> dm_db \<Rightarrow> exn option \<times> dm_db" where
  "assign_connector_status t name evseId connectorId status ts db =
     store_connector_status t name status ts (connector_components t evseId connectorId db) db"


section \<open>Results\<close>

text \<open>
  C0. A report refines its meaning: with intact tables, a report whose attributes have
  different types takes the stored values to exactly those the abstract map prescribes (a
  component seen for the first time gets its three default variables, every reported attribute
  its reported value, a WriteOnly attribute keeps the value it has, and no other attribute of
  any station or tenant changes); a report that repeats a type is refused and changes nothing;
  and the tables stay intact (unique keys, no dangling references).
\<close>

lemma report_refines:
  assumes "dm_ok db"
  shows "abs_dm (snd (createOrUpdateDeviceModelByStationId t value name ts db)) =
      (if distinct (map attribute_type_of (rp_attributes value)) then spec_report t value name (abs_dm db) else abs_dm db)"
    and "dm_ok (snd (createOrUpdateDeviceModelByStationId t value name ts db))"
    and "(\<exists>e. fst (createOrUpdateDeviceModelByStationId t value name ts db) = Inl e) \<longleftrightarrow>
      \<not> distinct (map attribute_type_of (rp_attributes value))"
proof -
  obtain res db' where r: "createOrUpdateDeviceModelByStationId t value name ts db = (res, db')" by fastforce
  have "abs_dm db' = (if distinct (map attribute_type_of (rp_attributes value)) then spec_report t value name (abs_dm db) else abs_dm db)
    \<and> dm_ok db' \<and> ((\<exists>e. res = Inl e) \<longleftrightarrow> \<not> distinct (map attribute_type_of (rp_attributes value)))"
  proof (cases "distinct (map attribute_type_of (rp_attributes value))")
    case True
    then obtain rows where "res = Inr rows"
      using r by (auto simp: createOrUpdateDeviceModelByStationId_def Let_def split: prod.splits)
    then show ?thesis using report_result [OF _ assms, of t "value" name ts rows db'] r True by simp
  next
    case False
    then show ?thesis using r assms by (auto simp: createOrUpdateDeviceModelByStationId_def)
  qed
  then show "abs_dm (snd (createOrUpdateDeviceModelByStationId t value name ts db)) =
      (if distinct (map attribute_type_of (rp_attributes value)) then spec_report t value name (abs_dm db) else abs_dm db)"
    and "dm_ok (snd (createOrUpdateDeviceModelByStationId t value name ts db))"
    and "(\<exists>e. fst (createOrUpdateDeviceModelByStationId t value name ts db) = Inl e) \<longleftrightarrow>
      \<not> distinct (map attribute_type_of (rp_attributes value))"
    using r by simp_all
qed

lemma dm_ok_empty: "dm_ok empty_dm"
  by (simp add: dm_ok_defs empty_dm_def)

lemma report_refines_witness:
  "abs_dm (snd (createOrUpdateDeviceModelByStationId 1
      \<lparr> rp_component = \<lparr> ct_name = ''EVSE'', ct_instance = None, ct_evse = Some \<lparr> vf_id = 1, vf_connectorId = None \<rparr> \<rparr>,
        rp_variable = \<lparr> vt_name = ''Power'', vt_instance = None \<rparr>,
        rp_attributes = [\<lparr> at_type = None, at_value = Some ''11'', at_mutability = None, at_persistent = None, at_constant = None \<rparr>],
        rp_characteristics = None \<rparr> ''cs1'' ''t'' empty_dm)) =
    spec_report 1
      \<lparr> rp_component = \<lparr> ct_name = ''EVSE'', ct_instance = None, ct_evse = Some \<lparr> vf_id = 1, vf_connectorId = None \<rparr> \<rparr>,
        rp_variable = \<lparr> vt_name = ''Power'', vt_instance = None \<rparr>,
        rp_attributes = [\<lparr> at_type = None, at_value = Some ''11'', at_mutability = None, at_persistent = None, at_constant = None \<rparr>],
        rp_characteristics = None \<rparr> ''cs1'' (abs_dm empty_dm)"
  by (subst report_refines(1) [OF dm_ok_empty]) simp

lemma distinct_single: "distinct xs \<Longrightarrow> set xs = {r} \<Longrightarrow> xs = [r]"
  by (cases xs; cases "tl xs") auto

lemma joined_attribute:
  assumes ok: "dm_ok db"
  shows "read_only_one (joins_attribute db t name ty ck vk) (dm_attributes db) = Inr (stored_attribute db (t, name, ck, vk, ty))"
proof -
  have join: "joins_attribute db t name ty ck vk r = is_stored db (t, name, ck, vk, ty) r" if "r \<in> set (dm_attributes db)" for r
  proof -
    have "attribute_refs db r" using ok that by (simp add: dm_ok_def attributes_ok_def)
    then obtain ck' vk' where "component_at db (va_componentId r) = Some (va_tenantId r, ck')"
      and "variable_at db (va_variableId r) = Some (va_tenantId r, vk')"
      unfolding attribute_refs_def by blast
    then show ?thesis by (cases "va_tenantId r = t") (simp_all add: joins_attribute_def is_stored_def)
  qed
  have rows: "filter (joins_attribute db t name ty ck vk) (dm_attributes db) = filter (is_stored db (t, name, ck, vk, ty)) (dm_attributes db)"
    by (rule filter_cong) (simp_all add: join)
  show ?thesis
  proof (cases "stored_attribute db (t, name, ck, vk, ty)")
    case None
    then have "filter (is_stored db (t, name, ck, vk, ty)) (dm_attributes db) = []"
      by (auto simp: stored_attribute_def find_None_iff filter_empty_conv)
    then show ?thesis by (simp add: read_only_one_def rows None)
  next
    case (Some r)
    have d: "distinct (dm_attributes db)" using ok by (auto simp: dm_ok_def attributes_ok_def distinct_map)
    have "set (filter (is_stored db (t, name, ck, vk, ty)) (dm_attributes db)) = {r}"
    proof -
      have "x = r" if "x \<in> set (dm_attributes db)" "is_stored db (t, name, ck, vk, ty) x" for x
        using is_stored_unique [OF ok that] Some by simp
      then show ?thesis using stored_in [OF Some] by auto
    qed
    then have "filter (is_stored db (t, name, ck, vk, ty)) (dm_attributes db) = [r]"
      by (rule distinct_single [OF distinct_filter [OF d]])
    then show ?thesis by (simp add: read_only_one_def rows Some)
  qed
qed

lemma stored_id_unique:
  "dm_ok db \<Longrightarrow> r \<in> set (dm_attributes db) \<Longrightarrow> s \<in> set (dm_attributes db) \<Longrightarrow> va_id r = va_id s \<Longrightarrow> r = s"
  using same_row [of va_id "dm_attributes db"] by (simp add: dm_ok_def attributes_ok_def)

lemma add_status_spec:
  assumes ok: "dm_ok db" and a: "a \<in> va_id ` set (dm_attributes db)"
  shows "dm_ok (add_status t v s info a db)" and "abs_dm (add_status t v s info a db) = abs_dm db"
    and "stored_attribute (add_status t v s info a db) = stored_attribute db"
    and "grows db (add_status t v s info a db)"
proof -
  let ?db = "add_status t v s info a db"
  have views: "component_at ?db = component_at db" "variable_at ?db = variable_at db" by (simp_all add: add_status_def)
  show st: "stored_attribute ?db = stored_attribute db"
    by (rule stored_same) (simp_all add: add_status_def)
  then show "abs_dm ?db = abs_dm db"
    by (simp add: abs_dm_def stored_values_def fun_eq_iff) (simp add: known_components_def add_status_def)
  have "statuses_ok ?db"
    using ok a serial_not_in [of vs_id "dm_statuses db"] by (auto simp: dm_ok_def statuses_ok_def add_status_def)
  then show ok': "dm_ok ?db"
    using ok by (simp add: dm_ok_def evses_ok_def components_ok_def variables_ok_def links_ok_def attributes_ok_def
        attribute_refs_def views) (simp add: add_status_def)
  then show "grows db ?db" by (simp add: grows_def views)
qed

lemma last_accepted_status:
  "last_accepted t a (add_status t v s info b db) =
     (if b = a \<and> s = ''Accepted''
      then Some \<lparr> vs_id = serial vs_id (dm_statuses db), vs_tenantId = t, vs_value = v, vs_status = s,
                  vs_statusInfo = info, vs_attributeId = a \<rparr>
      else last_accepted t a db)"
  by (simp add: last_accepted_def add_status_def)

lemma set_status_accepted: "set_status_str s = ''Accepted'' \<longleftrightarrow> s = SetAccepted"
  by (cases s) simp_all

text \<open>Saving the result of a SetVariables item or of a report for a stored attribute.\<close>

lemma update_result_spec:
  assumes ok: "dm_ok db" and r: "stored_attribute db k = Some r" and t: "fst k = t"
    and ex: "result_attribute t result name existing db = Inr (Some (r\<lparr> va_value := v \<rparr>))"
    and u: "updateResultByStationId undef t result name ts existing db = (err, db')"
  defines "new \<equiv> (if sv_status result = SetAccepted then v
      else case last_accepted t (va_id r) db of Some s \<Rightarrow> vs_value s | None \<Rightarrow> undef (va_value r))"
  shows "err = None" and "grows db db'"
    and "stored_attribute db' = (stored_attribute db)(k \<mapsto> r\<lparr> va_value := new, va_generatedAt := Some ts \<rparr>)"
    and "known_components db' = known_components db"
    and "dm_statuses db' = dm_statuses (add_status t v (set_status_str (sv_status result)) (sv_statusInfo result) (va_id r) db)"
proof -
  let ?db1 = "add_status t v (set_status_str (sv_status result)) (sv_statusInfo result) (va_id r) db"
  let ?f = "\<lambda>x. x\<lparr> va_value := if sv_status result = SetAccepted then v
        else case last_accepted t (va_id r) ?db1 of Some s \<Rightarrow> vs_value s | None \<Rightarrow> undef (va_value x),
      va_generatedAt := Some ts \<rparr>"
  have rin: "r \<in> set (dm_attributes db)" "is_stored db k r" using stored_in [OF r] by simp_all
  have db': "err = None" "db' = ?db1\<lparr> dm_attributes := update_rows (\<lambda>x. va_id x = va_id r) ?f (dm_attributes ?db1) \<rparr>"
  proof -
    have "updateResultByStationId undef t result name ts existing db =
        (None, ?db1\<lparr> dm_attributes := update_rows (\<lambda>x. va_id x = va_id r) ?f (dm_attributes ?db1) \<rparr>)"
      by (simp add: updateResultByStationId_def ex Let_def cong: if_cong option.case_cong)
    then show "err = None" "db' = ?db1\<lparr> dm_attributes := update_rows (\<lambda>x. va_id x = va_id r) ?f (dm_attributes ?db1) \<rparr>"
      using u by simp_all
  qed
  show "err = None" by (rule db')
  note s = add_status_spec [OF ok imageI [OF rin(1)], of t v "set_status_str (sv_status result)" "sv_statusInfo result"]
  have attrs: "dm_attributes ?db1 = dm_attributes db" by (simp add: add_status_def)
  have rows: "update_rows (\<lambda>x. va_id x = va_id r) ?f (dm_attributes ?db1)
      = update_rows (\<lambda>x. va_id x = va_id r \<and> va_tenantId x = va_tenantId r) ?f (dm_attributes ?db1)"
    using stored_id_unique [OF ok _ rin(1)] by (auto simp: update_rows_def attrs)
  have st1: "stored_attribute ?db1 k = Some r" using r s(3) by simp
  have up: "dm_ok db'" "stored_attribute db' = (stored_attribute ?db1)(k \<mapsto> ?f r)"
    by (rule update_attribute [OF s(1) st1 _ db'(2) [unfolded rows]]; simp add: attribute_index_def)+
  have "?f r = r\<lparr> va_value := new, va_generatedAt := Some ts \<rparr>"
    by (simp add: new_def last_accepted_status set_status_accepted)
  then show "stored_attribute db' = (stored_attribute db)(k \<mapsto> r\<lparr> va_value := new, va_generatedAt := Some ts \<rparr>)"
    using up(2) s(3) by simp
  have "component_at db' = component_at db" "variable_at db' = variable_at db"
    by (simp_all add: db'(2) add_status_def)
  then show "grows db db'" using up(1) by (simp add: grows_def)
  show "known_components db' = known_components db" by (simp add: db'(2) known_components_def add_status_def)
  show "dm_statuses db' = dm_statuses ?db1" by (simp add: db'(2))
qed


lemma spec_default_keeps:
  "k \<notin> range (\<lambda>n. (t, name, ck, (n, None), Actual)) \<Longrightarrow> fold (spec_default t name ck) ns m k = m k"
  by (induction ns arbitrary: m) (auto simp: spec_default_def)

lemma spec_default_values:
  "m k = None \<Longrightarrow> fold (spec_default t name ck) ns m k \<in> {None, Some (Some ''true'', ReadOnly)}"
proof -
  have "m k \<in> {None, Some (Some ''true'', ReadOnly)} \<Longrightarrow> fold (spec_default t name ck) ns m k \<in> {None, Some (Some ''true'', ReadOnly)}"
    by (induction ns arbitrary: m) (simp_all add: spec_default_def)
  then show "m k = None \<Longrightarrow> fold (spec_default t name ck) ns m k \<in> {None, Some (Some ''true'', ReadOnly)}" by simp
qed

text \<open>A value that is stored stays when another attribute is reported.\<close>

lemma spec_component_keeps:
  assumes "dm_ok db" and "stored_values db k \<noteq> None"
  shows "snd (spec_component t name ck (abs_dm db)) k = stored_values db k"
proof (cases "(t, ck) \<in> known_components db")
  case True
  then show ?thesis by (simp add: spec_component_def abs_dm_def)
next
  case False
  obtain t' n' ck' vk' ty' where k: "k = (t', n', ck', vk', ty')" by (cases k)
  have "(t', ck') \<noteq> (t, ck)"
    using assms(2) stored_unknown [OF assms(1) False, of n' vk' ty'] by (auto simp: stored_values_None [symmetric] k)
  then have "k \<notin> range (\<lambda>n. (t, name, ck, (n, None), Actual))" by (auto simp: k)
  then show ?thesis by (simp add: spec_component_def abs_dm_def spec_default_keeps)
qed

lemma spec_component_new:
  assumes "stored_values db k = None"
  shows "snd (spec_component t name ck (abs_dm db)) k \<in> {None, Some (Some ''true'', ReadOnly)}"
  using spec_default_values [of "stored_values db" k t name ck default_names] assms
  by (simp add: spec_component_def abs_dm_def)

lemma single_report:
  assumes ok: "dm_ok db" and r: "createOrUpdateDeviceModelByStationId t v name ts db = (res, db')"
    and a: "rp_attributes v = [a]" and m: "at_mutability a = None"
  defines "k \<equiv> (t, name, component_key (rp_component v), variable_key (rp_variable v), attribute_type_of a)"
  shows "\<exists>row. res = Inr [row] \<and> stored_attribute db' k = Some row \<and> va_generatedAt row = Some ts
      \<and> (stored_attribute db k = None \<longrightarrow> va_value row = at_value a \<and> va_mutability row \<noteq> WriteOnly)"
    and "grows db db'" and "k' \<noteq> k \<Longrightarrow> stored_values db k' \<noteq> None \<Longrightarrow> stored_values db' k' = stored_values db k'"
proof -
  have d: "distinct (map attribute_type_of (rp_attributes v))" by (simp add: a)
  then obtain rows where rows: "res = Inr rows"
    using r by (auto simp: createOrUpdateDeviceModelByStationId_def Let_def split: prod.splits)
  note s = report_result [OF r [unfolded rows] ok]
  from s(3) obtain row where row: "rows = [row]" "stored_attribute db' k = Some row" "va_generatedAt row = Some ts"
    by (auto simp: a k_def list_all2_Cons1)
  show "grows db db'" by (rule s(4))
  let ?m = "snd (spec_component t name (component_key (rp_component v)) (abs_dm db))"
  have vals: "stored_values db' = spec_attribute t name (component_key (rp_component v)) (variable_key (rp_variable v)) a ?m"
    using arg_cong [OF s(2), of snd] by (simp add: abs_dm_def spec_report_def a split: prod.splits)
  show "stored_values db' k' = stored_values db k'" if "k' \<noteq> k" "stored_values db k' \<noteq> None"
    using spec_component_keeps [OF ok that(2)] that(1) by (simp add: vals spec_attribute_def Let_def k_def)
  have "va_value row = at_value a \<and> va_mutability row \<noteq> WriteOnly" if "stored_attribute db k = None"
  proof -
    have "?m k \<in> {None, Some (Some ''true'', ReadOnly)}"
      by (rule spec_component_new) (use that in \<open>simp add: stored_values_def\<close>)
    moreover have "stored_values db' k = Some (va_value row, va_mutability row)" by (simp add: stored_values_def row)
    ultimately show ?thesis
      by (auto simp: vals spec_attribute_def Let_def m or_else_def simp flip: k_def)
  qed
  then show "\<exists>row. res = Inr [row] \<and> stored_attribute db' k = Some row \<and> va_generatedAt row = Some ts
      \<and> (stored_attribute db k = None \<longrightarrow> va_value row = at_value a \<and> va_mutability row \<noteq> WriteOnly)"
    using rows row by simp
qed

lemma existing_attribute:
  assumes ok: "dm_ok db"
    and g: "getExistingOrCreateVariableAttribute t name c v val ty clock db = (res, db1)"
  defines "k \<equiv> (t, name, component_key c, variable_key v, ty)"
  shows "\<exists>r. res = Inr (Some r) \<and> stored_attribute db1 k = Some r
      \<and> (case stored_attribute db k of None \<Rightarrow> va_value r = Some val | Some r0 \<Rightarrow> r = r0 \<and> db1 = db)"
    and "grows db db1" and "k' \<noteq> k \<Longrightarrow> stored_values db k' \<noteq> None \<Longrightarrow> stored_values db1 k' = stored_values db k'"
proof -
  note j = joined_attribute [OF ok, of t name ty "component_key c" "variable_key v", folded k_def]
  have "(\<exists>r. res = Inr (Some r) \<and> stored_attribute db1 k = Some r
      \<and> (case stored_attribute db k of None \<Rightarrow> va_value r = Some val | Some r0 \<Rightarrow> r = r0 \<and> db1 = db))
    \<and> grows db db1 \<and> (\<forall>k'. k' \<noteq> k \<longrightarrow> stored_values db k' \<noteq> None \<longrightarrow> stored_values db1 k' = stored_values db k')"
  proof (cases "stored_attribute db k")
    case (Some r)
    then have "res = Inr (Some r)" "db1 = db"
      using g by (simp_all add: getExistingOrCreateVariableAttribute_def j)
    then show ?thesis using Some ok by (simp add: grows_def)
  next
    case None
    let ?d = "\<lparr> sd_type = Some ty, sd_value = val,
                sd_component = \<lparr> ct_name = ct_name c, ct_instance = truthy_str (ct_instance c), ct_evse = None \<rparr>,
                sd_variable = \<lparr> vt_name = vt_name v, vt_instance = truthy_str (vt_instance v) \<rparr> \<rparr>"
    obtain res' db' where r: "createOrUpdateDeviceModelByStationId t (set_data_report ?d) name clock db = (res', db')" by fastforce
    have k: "(t, name, component_key (rp_component (set_data_report ?d)), variable_key (rp_variable (set_data_report ?d)),
        attribute_type_of \<lparr> at_type = Some ty, at_value = Some val, at_mutability = None, at_persistent = None, at_constant = None \<rparr>) = k"
      by (simp add: k_def set_data_report_def component_key_def variable_key_def attribute_type_of_def or_else_def)
    note s = single_report [OF ok r, of "\<lparr> at_type = Some ty, at_value = Some val, at_mutability = None,
        at_persistent = None, at_constant = None \<rparr>", unfolded k, simplified, OF _ ]
    have a: "rp_attributes (set_data_report ?d) = [\<lparr> at_type = Some ty, at_value = Some val, at_mutability = None,
        at_persistent = None, at_constant = None \<rparr>]" by (simp add: set_data_report_def)
    obtain row where row: "res' = Inr [row]" "stored_attribute db' k = Some row" "va_value row = Some val"
      using s(1) [OF a] None by auto
    have "res = Inr (Some row)" "db1 = db'"
      using g None row(1) r by (simp_all add: getExistingOrCreateVariableAttribute_def j)
    then show ?thesis using row s(2,3) [OF a] None by simp
  qed
  then show "\<exists>r. res = Inr (Some r) \<and> stored_attribute db1 k = Some r
      \<and> (case stored_attribute db k of None \<Rightarrow> va_value r = Some val | Some r0 \<Rightarrow> r = r0 \<and> db1 = db)"
    and "grows db db1" and "k' \<noteq> k \<Longrightarrow> stored_values db k' \<noteq> None \<Longrightarrow> stored_values db1 k' = stored_values db k'"
    by blast+
qed

text \<open>The attribute a result of SetVariables is stored at.\<close>

definition result_target :: "(string \<rightharpoonup> set_variable_data) \<Rightarrow> int \<Rightarrow> string \<Rightarrow> set_variable_result \<rightharpoonup> attribute_key" where
  "result_target data t name r =
     map_option (\<lambda>d. (t, name, component_key (sv_component r), variable_key (sv_variable r), or_else (sd_type d) Actual))
       (data (getSetVariableDataMapKey (sv_component r) (sv_variable r)))"

lemma handled_result:
  assumes ok: "dm_ok db"
    and d: "data (getSetVariableDataMapKey (sv_component result) (sv_variable result)) = Some d"
    and k: "result_target data t name result = Some k"
    and h: "handleSetVariableResultType undef t name result data ts clock db = (err, db')"
  shows "err = None" and "grows db db'"
    and "sv_status result = SetAccepted \<Longrightarrow> \<exists>m. stored_values db' k = Some (Some (sd_value d), m)"
    and "sv_status result \<noteq> SetAccepted \<Longrightarrow> stored_attribute db k = Some r0 \<Longrightarrow> last_accepted t (va_id r0) db = Some s \<Longrightarrow>
      \<exists>m. stored_values db' k = Some (vs_value s, m)"
    and "k' \<noteq> k \<Longrightarrow> stored_values db k' \<noteq> None \<Longrightarrow> stored_values db' k' = stored_values db k'"
proof -
  have k': "k = (t, name, component_key (sv_component result), variable_key (sv_variable result), or_else (sd_type d) Actual)"
    using k by (simp add: result_target_def d)
  obtain res db1 where g: "getExistingOrCreateVariableAttribute t name (sv_component result) (sv_variable result)
      (sd_value d) (or_else (sd_type d) Actual) clock db = (res, db1)" by fastforce
  note e = existing_attribute [OF ok g, folded k']
  obtain r where r: "res = Inr (Some r)" "stored_attribute db1 k = Some r"
      "case stored_attribute db k of None \<Rightarrow> va_value r = Some (sd_value d) | Some r0 \<Rightarrow> r = r0 \<and> db1 = db"
    using e(1) by blast
  let ?v = "if sv_status result = SetAccepted then Some (sd_value d) else va_value r"
  let ?ex = "Some (r\<lparr> va_value := ?v \<rparr>)"
  have u: "updateResultByStationId undef t result name ts ?ex db1 = (err, db')"
    using h by (simp add: handleSetVariableResultType_def d g r(1) split: if_splits)
  note s = update_result_spec [OF growsD(1) [OF e(2)] r(2) _ _ u, of ?v, unfolded k' fst_conv, folded k', OF refl]
  have ex: "result_attribute t result name ?ex db1 = Inr (Some (r\<lparr> va_value := ?v \<rparr>))" by (simp add: result_attribute_def)
  show "err = None" by (rule s(1) [OF ex])
  show "grows db db'" using e(2) s(2) [OF ex] grows_trans by blast
  have st: "stored_attribute db' k = Some (r\<lparr> va_value := (if sv_status result = SetAccepted then ?v
      else case last_accepted t (va_id r) db1 of Some s \<Rightarrow> vs_value s | None \<Rightarrow> undef (va_value r)), va_generatedAt := Some ts \<rparr>)"
    using s(3) [OF ex] by simp
  show "\<exists>m. stored_values db' k = Some (Some (sd_value d), m)" if "sv_status result = SetAccepted"
    using st that by (simp add: stored_values_def)
  show "\<exists>m. stored_values db' k = Some (vs_value s, m)"
    if "sv_status result \<noteq> SetAccepted" "stored_attribute db k = Some r0" "last_accepted t (va_id r0) db = Some s"
    using st that r(3) by (simp add: stored_values_def)
  show "stored_values db' k' = stored_values db k'" if "k' \<noteq> k" "stored_values db k' \<noteq> None"
    using e(3) [OF that] s(3) [OF ex] that(1) by (simp add: stored_values_def)
qed


lemma unmatched_result:
  "data (getSetVariableDataMapKey (sv_component result) (sv_variable result)) = None \<Longrightarrow>
     handleSetVariableResultType undef t name result data ts clock db = (None, db)"
  by (simp add: handleSetVariableResultType_def)

lemma result_target_None:
  "result_target data t name result = None \<longleftrightarrow> data (getSetVariableDataMapKey (sv_component result) (sv_variable result)) = None"
  by (simp add: result_target_def)

lemma handled_results_keep:
  assumes "dm_ok db" and "handle_results undef t name data ts clock rs db = (err, db')"
  shows "err = None \<and> grows db db'
    \<and> (\<forall>k. Some k \<notin> result_target data t name ` set rs \<longrightarrow> stored_values db k \<noteq> None \<longrightarrow> stored_values db' k = stored_values db k)"
  using assms
proof (induction rs arbitrary: db)
  case Nil
  then show ?case by (simp add: grows_def)
next
  case (Cons r rs)
  obtain err1 db1 where h: "handleSetVariableResultType undef t name r data ts clock db = (err1, db1)" by fastforce
  have *: "err1 = None \<and> grows db db1 \<and>
     (\<forall>k. Some k \<noteq> result_target data t name r \<longrightarrow> stored_values db k \<noteq> None \<longrightarrow> stored_values db1 k = stored_values db k)"
  proof (cases "result_target data t name r")
    case None
    then show ?thesis
      using h Cons.prems(1) unmatched_result by (simp add: result_target_None grows_def)
  next
    case (Some k)
    then obtain d where "data (getSetVariableDataMapKey (sv_component r) (sv_variable r)) = Some d"
      by (auto simp: result_target_def)
    note s = handled_result [OF Cons.prems(1) this Some h]
    show ?thesis using s(1,2,5) Some by auto
  qed
  then have "handle_results undef t name data ts clock rs db1 = (err, db')"
    using Cons.prems(2) h by simp
  note IH = Cons.IH [OF growsD(1) [OF conjunct1 [OF conjunct2 [OF *]]] this]
  show ?case
  proof (intro conjI allI impI)
    show "err = None" and "grows db db'" using IH * grows_trans by blast+
    fix k
    assume k: "Some k \<notin> result_target data t name ` set (r # rs)" and v: "stored_values db k \<noteq> None"
    then have kr: "Some k \<noteq> result_target data t name r" and krs: "Some k \<notin> result_target data t name ` set rs" by simp_all
    have 1: "stored_values db1 k = stored_values db k" using * kr v by blast
    have "stored_values db1 k \<noteq> None" using 1 v by (simp only: not_False_eq_True)
    then have "stored_values db' k = stored_values db1 k" using IH krs by blast
    then show "stored_values db' k = stored_values db k" using 1 by (simp only:)
  qed
qed

lemma handle_results_append:
  "handle_results undef t name data ts clock (xs @ ys) db =
     (case handle_results undef t name data ts clock xs db of
        (Some e, db1) \<Rightarrow> (Some e, db1)
      | (None, db1) \<Rightarrow> handle_results undef t name data ts clock ys db1)"
  by (induction xs arbitrary: db) (auto split: prod.split option.split)


definition demo_set_data :: set_variable_data where
  "demo_set_data = \<lparr> sd_type = None, sd_value = ''30'', sd_component = \<lparr> ct_name = ''OCPPCommCtrlr'', ct_instance = None, ct_evse = None \<rparr>,
     sd_variable = \<lparr> vt_name = ''HeartbeatInterval'', vt_instance = None \<rparr> \<rparr>"

definition demo_set_result :: set_variable_result where
  "demo_set_result = \<lparr> sv_type = None, sv_status = SetAccepted, sv_statusInfo = None,
     sv_component = sd_component demo_set_data, sv_variable = sd_variable demo_set_data \<rparr>"


section \<open>What the keys lose\<close>

text \<open>
  The request map has no attribute type in its keys: of two items for the Actual and the
  Target of one variable the second one stands for both, so the accepted Actual value is not
  stored at all.
\<close>

lemma actual_value_lost:
  "let d = (\<lambda>ty v. \<lparr> sd_type = Some ty, sd_value = v, sd_component = \<lparr> ct_name = ''C'', ct_instance = None, ct_evse = None \<rparr>,
                     sd_variable = \<lparr> vt_name = ''V'', vt_instance = None \<rparr> \<rparr>);
       r = (\<lambda>ty. \<lparr> sv_type = Some ty, sv_status = SetAccepted, sv_statusInfo = None,
                   sv_component = \<lparr> ct_name = ''C'', ct_instance = None, ct_evse = None \<rparr>,
                   sv_variable = \<lparr> vt_name = ''V'', vt_instance = None \<rparr> \<rparr>);
       db' = snd (handle_set_variables_response id 1 ''cs1'' (Inr (Some [d Actual ''1'', d Target ''2''])) [r Actual, r Target] ''t'' ''t'' empty_dm)
   in stored_values db' (1, ''cs1'', (''C'', None), (''V'', None), Actual) = None
      \<and> stored_values db' (1, ''cs1'', (''C'', None), (''V'', None), Target) = Some (Some ''2'', ReadWrite)"
  by code_simp

text \<open>
  A component row has no EVSE in its key: the second EVSE's report takes over the row and the
  attribute of the first, and a status notification for the first EVSE is no longer stored in
  the device model. An attribute's own EVSE is that of the component row as it was read, so
  the first report of a component stores none.
\<close>

definition connector_report :: "int \<Rightarrow> string \<Rightarrow> report_data" where
  "connector_report e v =
     \<lparr> rp_component = \<lparr> ct_name = ''Connector'', ct_instance = None, ct_evse = Some \<lparr> vf_id = e, vf_connectorId = Some 1 \<rparr> \<rparr>,
       rp_variable = \<lparr> vt_name = ''AvailabilityState'', vt_instance = None \<rparr>,
       rp_attributes = [\<lparr> at_type = None, at_value = Some v, at_mutability = None, at_persistent = None, at_constant = None \<rparr>],
       rp_characteristics = None \<rparr>"

lemma second_evse_takes_over:
  "let db1 = snd (createOrUpdateDeviceModelByStationId 1 (connector_report 1 ''Occupied'') ''cs1'' ''t1'' empty_dm);
       db2 = snd (createOrUpdateDeviceModelByStationId 1 (connector_report 2 ''Available'') ''cs1'' ''t2'' db1);
       k = (1, ''cs1'', (''Connector'', None), (''AvailabilityState'', None), Actual)
   in map_option va_evseDatabaseId (stored_attribute db1 k) = Some None
      \<and> length (dm_components db2) = 1
      \<and> map_option va_value (stored_attribute db2 k) = Some (Some ''Available'')
      \<and> assign_connector_status 1 ''cs1'' 1 1 ''Faulted'' ''t3'' db2 = (None, db2)"
  by code_simp


section \<open>Whole messages\<close>

definition stored_somewhere :: "int \<Rightarrow> string \<Rightarrow> dm_db \<Rightarrow> attribute_row \<Rightarrow> bool" where
  "stored_somewhere t name db r \<longleftrightarrow> (\<exists>ck vk. component_at db (va_componentId r) = Some (t, ck)
     \<and> variable_at db (va_variableId r) = Some (t, vk) \<and> stored_attribute db (t, name, ck, vk, va_type r) \<noteq> None)"

lemma instances_nonempty:
  "dm_ok db \<Longrightarrow> component_at db i = Some (t, ck) \<Longrightarrow> snd ck \<noteq> Some []"
  "dm_ok db \<Longrightarrow> variable_at db j = Some (t, vk) \<Longrightarrow> snd vk \<noteq> Some []"
  by (cases ck; auto simp: dm_ok_def component_at_iff has_component_def components_ok_def)
    (cases vk; auto simp: dm_ok_def variable_at_iff has_variable_def variables_ok_def)

lemma accept_attribute_spec:
  assumes ok: "dm_ok db" and r: "stored_somewhere t name db r"
    and u: "updateResultByStationId undef t (reported_result db action r) name ts None db = (err, db')"
  shows "err = None" and "grows db db'" and "abs_dm db' = abs_dm db"
proof -
  from r obtain ck vk s where ck: "component_at db (va_componentId r) = Some (t, ck)"
    and vk: "variable_at db (va_variableId r) = Some (t, vk)" and s: "stored_attribute db (t, name, ck, vk, va_type r) = Some s"
    unfolding stored_somewhere_def by auto
  let ?k = "(t, name, ck, vk, va_type r)"
  have keys: "component_key (sv_component (reported_result db action r)) = ck"
    "variable_key (sv_variable (reported_result db action r)) = vk"
    "sv_type (reported_result db action r) = Some (va_type r)" "sv_status (reported_result db action r) = SetAccepted"
    using instances_nonempty(1) [OF ok ck] instances_nonempty(2) [OF ok vk]
    by (simp_all add: reported_result_def ck vk component_key_def variable_key_def truthy_id)
  have ex: "result_attribute t (reported_result db action r) name None db = Inr (Some (s\<lparr> va_value := va_value s \<rparr>))"
    by (simp add: result_attribute_def keys or_else_def joined_attribute [OF ok] s)
  note up = update_result_spec [OF ok s fst_conv ex u]
  show "err = None" "grows db db'" by (rule up)+
  have "stored_values db' = stored_values db"
  proof
    fix k
    show "stored_values db' k = stored_values db k"
      using up(3) s by (simp add: stored_values_def keys)
  qed
  then show "abs_dm db' = abs_dm db" using up(4) by (simp add: abs_dm_def)
qed

lemma accept_attributes_spec:
  assumes "dm_ok db" and "list_all (stored_somewhere t name db) rows"
    and "accept_attributes undef t name ts action rows db = (err, db')"
  shows "err = None \<and> dm_ok db' \<and> abs_dm db' = abs_dm db"
  using assms
proof (induction rows arbitrary: db)
  case Nil
  then show ?case by simp
next
  case (Cons r rows)
  obtain e1 db1 where u: "updateResultByStationId undef t (reported_result db action r) name ts None db = (e1, db1)" by fastforce
  have r: "stored_somewhere t name db r" using Cons.prems(2) by simp
  note a = accept_attribute_spec [OF Cons.prems(1) r u]
  have "stored_somewhere t name db1 x" if "stored_somewhere t name db x" for x
    using that growsD [OF a(2)] arg_cong [OF a(3), of snd]
    unfolding stored_somewhere_def stored_values_None abs_dm_def snd_conv by metis
  then have "list_all (stored_somewhere t name db1) rows"
    using Cons.prems(2) by (auto simp: list_all_iff)
  moreover have "accept_attributes undef t name ts action rows db1 = (err, db')"
    using Cons.prems(3) u a(1) by simp
  ultimately have "err = None \<and> dm_ok db' \<and> abs_dm db' = abs_dm db1"
    using growsD(1) [OF a(2)] by (intro Cons.IH)
  then show ?case using a(3) by simp
qed

definition well_typed_report :: "report_data \<Rightarrow> bool" where
  "well_typed_report v \<longleftrightarrow> distinct (map attribute_type_of (rp_attributes v))"

lemma store_reports_spec:
  assumes "dm_ok db" and "list_all well_typed_report vs"
    and "store_reports undef t name ts action vs db = (err, db')"
  shows "err = None \<and> dm_ok db' \<and> abs_dm db' = fold (\<lambda>v. spec_report t v name) vs (abs_dm db)"
  using assms
proof (induction vs arbitrary: db)
  case Nil
  then show ?case by simp
next
  case (Cons v vs)
  obtain res db1 where r: "createOrUpdateDeviceModelByStationId t v name ts db = (res, db1)" by fastforce
  have "distinct (map attribute_type_of (rp_attributes v))" using Cons.prems(2) by (simp add: well_typed_report_def)
  then obtain rows where rows: "res = Inr rows"
    using r by (auto simp: createOrUpdateDeviceModelByStationId_def Let_def split: prod.splits)
  note s = report_result [OF r [unfolded rows] Cons.prems(1)]
  have "list_all (stored_somewhere t name db1) rows"
    unfolding list_all_iff
  proof
    fix row assume row: "row \<in> set rows"
    obtain a where st: "stored_attribute db1 (t, name, component_key (rp_component v), variable_key (rp_variable v), attribute_type_of a) = Some row"
    proof -
      from row obtain i where i: "i < length rows" "row = rows ! i" by (auto simp: in_set_conv_nth)
      have "i < length (rp_attributes v)" using i s(3) by (simp add: list_all2_conv_all_nth)
      then have "stored_attribute db1 (t, name, component_key (rp_component v), variable_key (rp_variable v),
          attribute_type_of (rp_attributes v ! i)) = Some row"
        using list_all2_nthD [OF s(3)] i(2) by blast
      then show thesis by (rule that)
    qed
    then show "stored_somewhere t name db1 row"
      using stored_in [OF st] by (auto simp: stored_somewhere_def is_stored_def)
  qed
  moreover obtain e2 db2 where a: "accept_attributes undef t name ts action rows db1 = (e2, db2)" by fastforce
  ultimately have a2: "e2 = None \<and> dm_ok db2 \<and> abs_dm db2 = abs_dm db1"
    using accept_attributes_spec s(1) by blast
  then have "store_reports undef t name ts action vs db2 = (err, db')"
    using Cons.prems(3) r rows a by simp
  then have "err = None \<and> dm_ok db' \<and> abs_dm db' = fold (\<lambda>v. spec_report t v name) vs (abs_dm db2)"
    using Cons.prems(2) a2 by (intro Cons.IH) auto
  then show ?case using a2 s(2) by simp
qed



end
