(* ===== verification/Certificates.thy ===== *)
theory Certificates
  imports LocalAuthList Contents Identifiers
begin

text \<open>
  Certificate chains and where they are kept: file storage below a root
  (packages/core/src/util/files/localStorage.ts), splitting of a PEM chain and generation of a
  certificate (util/certificate/CertificateUtil.ts), the Certificates table
  (dal/layers/sequelize/model/Certificate/Certificate.ts and repository/Certificate.ts), and
  the generation of leaf, sub-CA and root for websocket servers
  (modules/Certificates/src/module/installCertificateHelperService.ts).

  Cryptography, X.509 and the clock are a record of functions, the parameter of every
  operation: key pairs and clock readings are numbered in the order in which they are asked
  for, so that nothing is assumed about how they differ except where a lemma says so. Times
  are milliseconds; the formats of the validity dates are left to the signing function. The
  file system is a map from resolved paths to contents; paths are POSIX. Serial numbers are
  numbers throughout, as their declared type says.
\<close>

named_theorems op_runs \<open>successful runs of the certificate operations\<close>

section \<open>File storage\<close>

text \<open>
  path.resolve of a key below a directory: empty segments and \<^verbatim>\<open>.\<close> are dropped,
  \<^verbatim>\<open>..\<close> leaves the last directory.
\<close>

fun walk :: "string list \<Rightarrow> string list \<Rightarrow> string list" where
  "walk dir [] = dir"
| "walk dir (s # ss) =
     (if s = [] \<or> s = ''.'' then walk dir ss
      else if s = ''..'' then walk (butlast dir) ss
      else walk (dir @ [s]) ss)"

definition is_absolute :: "string \<Rightarrow> bool" where
  "is_absolute key \<longleftrightarrow> take 1 key = ''/''"

definition resolvePath :: "string list \<Rightarrow> string \<Rightarrow> string list" where
  "resolvePath dir key = (if is_absolute key then walk [] (split_on CHR ''/'' key)
                           else walk dir (split_on CHR ''/'' key))"

definition backslash :: char where
  "backslash = CHR 0x5C"

definition is_letter :: "char \<Rightarrow> bool" where
  "is_letter c \<longleftrightarrow> (let n = (of_char c :: nat) in (65 \<le> n \<and> n \<le> 90) \<or> (97 \<le> n \<and> n \<le> 122))"

definition drive_path :: "string \<Rightarrow> bool" where
  "drive_path key = (case key of
     a # b # c # _ \<Rightarrow> is_letter a \<and> b = CHR '':'' \<and> (c = backslash \<or> c = CHR ''/'')
   | _ \<Rightarrow> False)"

text \<open>The pieces between runs of slashes and backslashes.\<close>

definition unslash :: "char \<Rightarrow> char" where
  "unslash c = (if c = backslash then CHR ''/'' else c)"

definition path_segments :: "string \<Rightarrow> string list" where
  "path_segments key = split_on CHR ''/'' (map unslash key)"

definition validatePath :: "string \<Rightarrow> exn option" where
  "validatePath key =
     (if CHR 0x00 \<in> set key then Some (JsErr ''Invalid filePath: contains a NUL byte'' [])
      else if drive_path key \<or> take 2 key = [backslash, backslash]
      then Some (JsErr (''Invalid filePath \"'' @ key @ ''\": absolute paths are not allowed'') [])
      else if is_absolute key \<or> take 1 key = ''/'' \<or> take 1 key = [backslash]
      then Some (JsErr (''Invalid filePath \"'' @ key @ ''\": absolute paths are not allowed'') [])
      else if ''..'' \<in> set (path_segments key)
      then Some (JsErr (''Invalid filePath \"'' @ key @ ''\": parent directory traversal (\"..\") is not allowed'') [])
      else None)"

type_synonym files = "string list \<rightharpoonup> string"

definition saveFile :: "string list \<Rightarrow> string \<Rightarrow> string \<Rightarrow> bool \<Rightarrow> files \<Rightarrow> exn option \<times> files" where
  "saveFile dir key content trusted fs =
     (case (if trusted then None else validatePath key) of
        Some e \<Rightarrow> (Some e, fs)
      | None \<Rightarrow> (None, fs(resolvePath dir key \<mapsto> content)))"

definition getFile :: "string list \<Rightarrow> string \<Rightarrow> bool \<Rightarrow> files \<Rightarrow> exn + string option" where
  "getFile dir key trusted fs =
     (case (if trusted then None else validatePath key) of
        Some e \<Rightarrow> Inl e
      | None \<Rightarrow> Inr (fs (resolvePath dir key)))"

lemma walk_below:
  "''..'' \<notin> set ss \<Longrightarrow> \<exists>rest. walk dir ss = dir @ rest \<and> set rest \<subseteq> set ss"
proof (induction ss arbitrary: dir)
  case (Cons s ss)
  show ?case
  proof (cases "s = [] \<or> s = ''.''")
    case True
    then show ?thesis using Cons.IH [of dir] Cons.prems by auto
  next
    case False
    then have "walk dir (s # ss) = walk (dir @ [s]) ss" using Cons.prems by auto
    moreover obtain rest where "walk (dir @ [s]) ss = (dir @ [s]) @ rest" and "set rest \<subseteq> set ss"
      using Cons.IH [of "dir @ [s]"] Cons.prems by auto
    ultimately have "walk dir (s # ss) = dir @ (s # rest) \<and> set (s # rest) \<subseteq> set (s # ss)" by auto
    then show ?thesis by blast
  qed
qed simp

text \<open>Splitting at slashes only leaves the pieces without a backslash as they are.\<close>

lemma split_slashes:
  "(\<forall>w \<in> set (tl (split_on CHR ''/'' s)). backslash \<notin> set w \<longrightarrow> w \<in> set (tl (split_on CHR ''/'' (map unslash s))))
   \<and> (backslash \<notin> set (hd (split_on CHR ''/'' s)) \<longrightarrow> hd (split_on CHR ''/'' (map unslash s)) = hd (split_on CHR ''/'' s))"
proof (induction s)
  case Nil
  then show ?case by simp
next
  case (Cons c s)
  obtain w ws where s: "split_on CHR ''/'' s = w # ws" by (cases "split_on CHR ''/'' s") auto
  obtain v vs where m: "split_on CHR ''/'' (map unslash s) = v # vs" by (cases "split_on CHR ''/'' (map unslash s)") auto
  consider "c = CHR ''/''" | "c = backslash" | "c \<noteq> CHR ''/''" "c \<noteq> backslash" by blast
  then show ?case
  proof cases
    case 1
    have u: "unslash CHR ''/'' = CHR ''/''" by (simp add: unslash_def)
    show ?thesis using Cons.IH unfolding s m by (auto simp: 1 u s m)
  next
    case 2
    have u: "unslash backslash = CHR ''/''" "backslash \<noteq> CHR ''/''" by (simp_all add: unslash_def backslash_def)
    show ?thesis using Cons.IH unfolding s m by (auto simp: u s m 2)
  next
    case 3
    then have u: "unslash c = c" by (simp add: unslash_def)
    show ?thesis using Cons.IH 3 unfolding s m by (auto simp: u s m)
  qed
qed

lemma dots_in_segments: "''..'' \<in> set (split_on CHR ''/'' key) \<Longrightarrow> ''..'' \<in> set (path_segments key)"
proof -
  assume d: "''..'' \<in> set (split_on CHR ''/'' key)"
  obtain w ws where s: "split_on CHR ''/'' key = w # ws" by (cases "split_on CHR ''/'' key") auto
  obtain v vs where m: "split_on CHR ''/'' (map unslash key) = v # vs" by (cases "split_on CHR ''/'' (map unslash key)") auto
  have b: "backslash \<notin> set ''..''" by (simp add: backslash_def)
  show ?thesis
    using d b split_slashes [of key] unfolding path_segments_def s m by auto
qed

text \<open>C22. 
  C0. An untrusted key that passes validation is stored below the storage root: the resolved
  path is the root followed by segments of the key, none of which leads upwards.
\<close>

theorem untrusted_stays_below:
  "validatePath key = None \<Longrightarrow>
     \<exists>rest. resolvePath dir key = dir @ rest \<and> ''..'' \<notin> set rest \<and> set rest \<subseteq> set (split_on CHR ''/'' key)"
proof -
  assume v: "validatePath key = None"
  then have "\<not> is_absolute key" and "''..'' \<notin> set (path_segments key)"
    by (auto simp: validatePath_def split: if_splits)
  then show ?thesis
    using walk_below [of "split_on CHR ''/'' key" dir] dots_in_segments by (auto simp: resolvePath_def)
qed

theorem untrusted_stays_below_witness:
  "\<exists>rest. resolvePath [''data''] ''tls/Leaf.pem'' = [''data''] @ rest \<and> ''..'' \<notin> set rest
     \<and> set rest \<subseteq> set (split_on CHR ''/'' ''tls/Leaf.pem'')"
proof -
  have "validatePath ''tls/Leaf.pem'' = None" by code_simp
  then show ?thesis by (rule untrusted_stays_below)
qed


section \<open>Certificates and the functions they rest on\<close>

record certificate =
  ce_id :: nat
  ce_tenantId :: int
  ce_serialNumber :: nat
  ce_issuerName :: "string option"
  ce_organizationName :: string
  ce_commonName :: string
  ce_keyLength :: "int option"
  ce_validBefore :: "string option"
  ce_signatureAlgorithm :: "string option"
  ce_countryName :: "string option"
  ce_isCA :: bool
  ce_pathLen :: "int option"
  ce_certificateFileId :: "string option"
  ce_certificateFileHash :: "string option"
  ce_privateKeyFileId :: "string option"
  ce_signedBy :: "nat option"

text \<open>What a certificate is made of when it is signed.\<close>

record tbs =
  tb_serial :: nat
  tb_notbefore :: nat
  tb_notafter :: int
  tb_issuer :: string
  tb_subject :: string
  tb_publicKey :: string
  tb_cA :: bool
  tb_pathLen :: "int option"
  tb_critical :: bool
  tb_keyUsages :: "string list"
  tb_authority :: "string option"
  tb_sigalg :: string

record crypto =
  cr_clock :: "nat \<Rightarrow> nat"
  cr_keypair :: "nat \<Rightarrow> bool \<Rightarrow> int \<Rightarrow> string \<times> string"     \<comment> \<open>RSA or not, length; public key, private key\<close>
  cr_sign :: "tbs \<Rightarrow> string \<Rightarrow> string"                  \<comment> \<open>the certificate signed with a private key\<close>
  cr_hash :: "string \<Rightarrow> string option"                  \<comment> \<open>SHA-256 of the DER encoding, None when unreadable\<close>
  cr_subject :: "string \<Rightarrow> string option"
  cr_issuer :: "string \<Rightarrow> string option"
  cr_notAfter :: "string \<Rightarrow> int option"                 \<comment> \<open>None: an invalid date\<close>
  cr_time :: "string \<Rightarrow> int"
  cr_addYear :: "nat \<Rightarrow> int"
  cr_isoNextYear :: "nat \<Rightarrow> string"
  cr_verify :: "string \<Rightarrow> string \<Rightarrow> bool option"       \<comment> \<open>the signature of the first with the key of the second\<close>
  cr_externalCA :: "nat \<Rightarrow> certificate \<Rightarrow> exn + string \<times> string"   \<comment> \<open>signed sub-CA and its private key\<close>

text \<open>isSignedBy: an error of the library is no.\<close>

definition isSignedBy :: "crypto \<Rightarrow> string \<Rightarrow> string \<Rightarrow> bool" where
  "isSignedBy cr certPem issuerPem = (cr_verify cr certPem issuerPem = Some True)"

section \<open>Splitting a chain\<close>

definition begin_marker :: string where
  "begin_marker = ''-----BEGIN CERTIFICATE-----''"

definition end_marker :: string where
  "end_marker = ''-----END CERTIFICATE-----''"

text \<open>The text from the first begin marker on, and the block it starts with the rest behind it.\<close>

definition from_marker :: "string \<Rightarrow> string \<Rightarrow> string option" where
  "from_marker m s = map_option (\<lambda>i. drop i s) (find_substring m s)"

definition first_block :: "string \<Rightarrow> (string \<times> string) option" where
  "first_block s =
     (case from_marker begin_marker s of
        None \<Rightarrow> None
      | Some b \<Rightarrow>
          (case find_substring end_marker (drop (length begin_marker) b) of
             None \<Rightarrow> None
           | Some j \<Rightarrow>
               let n = length begin_marker + j + length end_marker
               in Some (take n b, drop n b)))"

lemma first_block_shorter: "first_block s = Some (b, r) \<Longrightarrow> length r < length s"
proof -
  assume f: "first_block s = Some (b, r)"
  then obtain c j where c: "from_marker begin_marker s = Some c" "find_substring end_marker (drop (length begin_marker) c) = Some j"
    "r = drop (length begin_marker + j + length end_marker) c"
    by (auto simp: first_block_def Let_def split: option.splits)
  have "c \<noteq> []" using c(2) by (auto simp: end_marker_def)
  moreover have "length c \<le> length s" using c(1) by (auto simp: from_marker_def)
  moreover have "0 < length end_marker" by (simp add: end_marker_def)
  ultimately have "length c \<noteq> 0" and "length c \<le> length s" and "length end_marker \<noteq> 0" by simp_all
  then have "length c - (length begin_marker + j + length end_marker) < length s" by linarith
  then show ?thesis by (simp only: c(3) length_drop)
qed

function parseCertificateChainPem :: "string \<Rightarrow> string list" where
  "parseCertificateChainPem pem =
     (case first_block pem of
        None \<Rightarrow> []
      | Some (b, r) \<Rightarrow> b # parseCertificateChainPem r)"
  by pat_completeness auto
termination
  by (relation "measure length") (auto dest: first_block_shorter)

declare parseCertificateChainPem.simps [simp del]

section \<open>State and errors\<close>

record chain_state =
  cs_certificates :: "certificate list"
  cs_files :: files
  cs_asked :: nat                 \<comment> \<open>key pairs and clock readings asked for so far\<close>

type_synonym 'a op = "chain_state \<Rightarrow> (exn + 'a) \<times> chain_state"

definition ret :: "'a \<Rightarrow> 'a op" where
  "ret x = (\<lambda>s. (Inr x, s))"

definition fail :: "string \<Rightarrow> 'a op" where
  "fail m = (\<lambda>s. (Inl (JsErr m []), s))"

definition bind_op :: "'a op \<Rightarrow> ('a \<Rightarrow> 'b op) \<Rightarrow> 'b op" where
  "bind_op m f = (\<lambda>s. case m s of (Inl e, s1) \<Rightarrow> (Inl e, s1) | (Inr x, s1) \<Rightarrow> f x s1)"

definition lift_res :: "exn + 'a \<Rightarrow> 'a op" where
  "lift_res r = (\<lambda>s. (r, s))"

definition needs :: "string \<Rightarrow> 'a option \<Rightarrow> 'a op" where
  "needs m x = (case x of None \<Rightarrow> fail m | Some y \<Rightarrow> ret y)"

definition ask :: "nat op" where
  "ask = (\<lambda>s. (Inr (cs_asked s), s\<lparr> cs_asked := Suc (cs_asked s) \<rparr>))"

definition clock_reading :: "crypto \<Rightarrow> nat op" where
  "clock_reading cr = bind_op ask (\<lambda>n. ret (cr_clock cr n))"

text \<open>_readPemFile: an empty file counts as missing.\<close>

definition readPemFile :: "string list \<Rightarrow> string \<Rightarrow> string \<Rightarrow> string \<Rightarrow> bool \<Rightarrow> string op" where
  "readPemFile dir filePath description serverId trusted = (\<lambda>s.
     (case getFile dir filePath trusted (cs_files s) of
        Inl e \<Rightarrow> (Inl e, s)
      | Inr content \<Rightarrow>
          needs (''Could not read '' @ description @ '' for server '' @ serverId @ '' at '' @ filePath)
            (if content = Some [] then None else content) s))"

definition save_file :: "string list \<Rightarrow> string \<Rightarrow> string \<Rightarrow> string op" where
  "save_file dir key content = (\<lambda>s.
     (case saveFile dir key content False (cs_files s) of
        (Some e, fs) \<Rightarrow> (Inl e, s\<lparr> cs_files := fs \<rparr>)
      | (None, fs) \<Rightarrow> (Inr key, s\<lparr> cs_files := fs \<rparr>)))"

definition getCertificateHash :: "crypto \<Rightarrow> string \<Rightarrow> string op" where
  "getCertificateHash cr pem = needs ''Invalid PEM format or unsupported certificate'' (cr_hash cr pem)"

section \<open>Generating a certificate\<close>

definition truthy_len :: "int option \<Rightarrow> int option" where
  "truthy_len x = (case x of Some n \<Rightarrow> if n = 0 then None else Some n | None \<Rightarrow> None)"

definition certificate_subject :: "certificate \<Rightarrow> string" where
  "certificate_subject c = ''/CN='' @ ce_commonName c @ ''/O='' @ ce_organizationName c
     @ ''/C='' @ (case ce_countryName c of Some n \<Rightarrow> n | None \<Rightarrow> ''undefined'')"

definition subject_not_after :: "crypto \<Rightarrow> certificate \<Rightarrow> int op" where
  "subject_not_after cr c =
     (case ce_validBefore c of
        Some v \<Rightarrow> if v = [] then bind_op ask (\<lambda>n. ret (cr_addYear cr n)) else ret (cr_time cr v)
      | None \<Rightarrow> bind_op ask (\<lambda>n. ret (cr_addYear cr n)))"

text \<open>The issuer's name, and the end of the validity cut to that of the issuer.\<close>

definition issuer_terms :: "crypto \<Rightarrow> certificate \<Rightarrow> string option \<Rightarrow> int \<Rightarrow> (int \<times> string) op" where
  "issuer_terms cr c issuerCertPem subjectNotAfter =
     (case issuerCertPem of
        None \<Rightarrow> ret (subjectNotAfter, certificate_subject c)
      | Some p \<Rightarrow> bind_op (needs ''Unreadable issuer certificate'' (cr_subject cr p)) (\<lambda>issuer.
          ret (case cr_notAfter cr p of
                 Some i \<Rightarrow> if subjectNotAfter > i then i else subjectNotAfter
               | None \<Rightarrow> subjectNotAfter, issuer)))"

definition to_be_signed ::
  "certificate \<Rightarrow> string option \<Rightarrow> int \<Rightarrow> string \<Rightarrow> string \<Rightarrow> bool \<Rightarrow> nat \<Rightarrow> nat \<Rightarrow> tbs" where
  "to_be_signed c issuerCertPem notAfter issuer pub rsa number notBefore =
     \<lparr> tb_serial = number, tb_notbefore = notBefore, tb_notafter = notAfter,
       tb_issuer = issuer, tb_subject = certificate_subject c, tb_publicKey = pub,
       tb_cA = ce_isCA c, tb_pathLen = truthy_len (ce_pathLen c),
       tb_critical = (truthy_len (ce_pathLen c) = None),
       tb_keyUsages = [''digitalSignature'', ''keyCertSign'', ''crlSign'']
         @ (if ce_isCA c then [] else [''keyEncipherment'']),
       tb_authority = issuerCertPem,
       tb_sigalg = (if rsa then ''SHA256withRSA'' else ''SHA256withECDSA'') \<rparr>"

definition sign_certificate ::
  "crypto \<Rightarrow> certificate \<Rightarrow> string option \<Rightarrow> string option \<Rightarrow> bool \<Rightarrow> string \<Rightarrow> string \<Rightarrow> string op" where
  "sign_certificate cr c issuerKeyPem issuerCertPem rsa pub prv =
     bind_op (subject_not_after cr c) (\<lambda>subjectNotAfter.
     bind_op (issuer_terms cr c issuerCertPem subjectNotAfter) (\<lambda>terms.
     bind_op (clock_reading cr) (\<lambda>number.
     bind_op (clock_reading cr) (\<lambda>notBefore.
     ret (cr_sign cr (to_be_signed c issuerCertPem (fst terms) (snd terms) pub rsa number notBefore)
            (case issuerKeyPem of Some key \<Rightarrow> key | None \<Rightarrow> prv))))))"

definition generateCertificate ::
  "crypto \<Rightarrow> certificate \<Rightarrow> string option \<Rightarrow> string option \<Rightarrow> (string \<times> string) op" where
  "generateCertificate cr c issuerKeyPem issuerCertPem =
     bind_op ask (\<lambda>k.
     let rsa = (ce_signatureAlgorithm c = Some ''SHA256withRSA'');
         keyPair = cr_keypair cr k rsa (case truthy_len (ce_keyLength c) of Some n \<Rightarrow> n | None \<Rightarrow> 2048)
     in bind_op (sign_certificate cr c issuerKeyPem issuerCertPem rsa (fst keyPair) (snd keyPair)) (\<lambda>certPem.
        ret (certPem, snd keyPair)))"

section \<open>The table\<close>

text \<open>Unique are serial number and issuer, and the hash, both within a tenant.\<close>

definition violates_unique :: "certificate \<Rightarrow> certificate list \<Rightarrow> bool" where
  "violates_unique c rows \<longleftrightarrow> (\<exists>r \<in> set rows. ce_tenantId r = ce_tenantId c \<and>
     ((ce_serialNumber r = ce_serialNumber c \<and> ce_issuerName r = ce_issuerName c \<and> ce_issuerName c \<noteq> None)
      \<or> (ce_certificateFileHash r = ce_certificateFileHash c \<and> ce_certificateFileHash c \<noteq> None)))"

definition same_or_new :: "'a option \<Rightarrow> 'a option \<Rightarrow> 'a option" where
  "same_or_new new old = (case new of None \<Rightarrow> old | Some _ \<Rightarrow> new)"

definition merge_certificate :: "certificate \<Rightarrow> certificate \<Rightarrow> certificate" where
  "merge_certificate new old =
     new\<lparr> ce_id := ce_id old,
          ce_issuerName := same_or_new (ce_issuerName new) (ce_issuerName old),
          ce_keyLength := same_or_new (ce_keyLength new) (ce_keyLength old),
          ce_validBefore := same_or_new (ce_validBefore new) (ce_validBefore old),
          ce_signatureAlgorithm := same_or_new (ce_signatureAlgorithm new) (ce_signatureAlgorithm old),
          ce_countryName := same_or_new (ce_countryName new) (ce_countryName old),
          ce_pathLen := same_or_new (ce_pathLen new) (ce_pathLen old),
          ce_certificateFileId := same_or_new (ce_certificateFileId new) (ce_certificateFileId old),
          ce_certificateFileHash := same_or_new (ce_certificateFileHash new) (ce_certificateFileHash old),
          ce_privateKeyFileId := same_or_new (ce_privateKeyFileId new) (ce_privateKeyFileId old),
          ce_signedBy := same_or_new (ce_signedBy new) (ce_signedBy old) \<rparr>"

text \<open>
  The row is looked up by serial number and issuer in all tenants and updated within the
  tenant; undefined, when no row of the tenant was updated.
\<close>

definition createOrUpdateCertificate :: "int \<Rightarrow> certificate \<Rightarrow> certificate option op" where
  "createOrUpdateCertificate tenantId cert = (\<lambda>s.
     let c = cert\<lparr> ce_tenantId := tenantId \<rparr>;
         rows = cs_certificates s;
         same = (\<lambda>r. ce_serialNumber r = ce_serialNumber c \<and> ce_issuerName r = ce_issuerName c)
     in case find same rows of
          None \<Rightarrow>
            if violates_unique c rows then (Inl (JsErr ''SequelizeUniqueConstraintError'' []), s)
            else let r = c\<lparr> ce_id := serial ce_id rows \<rparr> in (Inr (Some r), s\<lparr> cs_certificates := rows @ [r] \<rparr>)
        | Some _ \<Rightarrow>
            let mine = (\<lambda>r. same r \<and> ce_tenantId r = tenantId)
            in if violates_unique c (filter (\<lambda>r. \<not> mine r) rows)
               then (Inl (JsErr ''SequelizeUniqueConstraintError'' []), s)
               else (Inr (find mine (update_rows mine (merge_certificate c) rows)),
                     s\<lparr> cs_certificates := update_rows mine (merge_certificate c) rows \<rparr>))"

definition read_only_certificate :: "int \<Rightarrow> (certificate \<Rightarrow> bool) \<Rightarrow> certificate option op" where
  "read_only_certificate tenantId P = (\<lambda>s.
     (read_only_one (\<lambda>c. ce_tenantId c = tenantId \<and> P c) (cs_certificates s), s))"

definition key_prefix :: "string option \<Rightarrow> string" where
  "key_prefix filePath = (case filePath of Some f \<Rightarrow> if f = [] then [] else f @ ''/'' | None \<Rightarrow> [])"

text \<open>
  The stored certificate is used right away by every caller, so an undefined one is the
  TypeError of that use.
\<close>

definition storeCertificateAndKey ::
  "crypto \<Rightarrow> string list \<Rightarrow> int \<Rightarrow> certificate \<Rightarrow> string \<Rightarrow> string \<Rightarrow> string \<Rightarrow> string option \<Rightarrow> certificate op" where
  "storeCertificateAndKey cr dir tenantId entity certPem keyPem filePrefix filePath =
     bind_op (getCertificateHash cr certPem) (\<lambda>hash.
     bind_op (save_file dir (key_prefix filePath @ filePrefix @ ''_Key_'' @ nat_str (ce_serialNumber entity) @ ''.pem'') keyPem) (\<lambda>keyId.
     bind_op (save_file dir (key_prefix filePath @ filePrefix @ ''_Certificate_'' @ nat_str (ce_serialNumber entity) @ ''.pem'') certPem) (\<lambda>certId.
     bind_op (needs ''Unreadable certificate'' (cr_issuer cr certPem)) (\<lambda>issuer.
     bind_op (createOrUpdateCertificate tenantId
       (entity\<lparr> ce_privateKeyFileId := Some keyId, ce_certificateFileId := Some certId,
                ce_certificateFileHash := Some hash, ce_issuerName := Some issuer \<rparr>)) (\<lambda>saved.
     needs ''TypeError'' saved)))))"

definition saveChainFile :: "string list \<Rightarrow> string \<Rightarrow> nat \<Rightarrow> string option \<Rightarrow> string op" where
  "saveChainFile dir chainPem serialNumber filePath =
     save_file dir (key_prefix filePath @ ''Cert_Chain_'' @ nat_str serialNumber @ ''.pem'') chainPem"


section \<open>Requests, server configurations, results\<close>

datatype generation_scope = Leaf_scope | SubCAAndLeaf_scope | FullChain_scope

record chain_request =
  rq_selfSigned :: "bool option"
  rq_organizationName :: string
  rq_commonName :: string
  rq_keyLength :: "int option"
  rq_validBefore :: "string option"
  rq_countryName :: "string option"
  rq_signatureAlgorithm :: "string option"
  rq_pathLen :: "int option"
  rq_filePath :: "string option"
  rq_generationScope :: "generation_scope option"
  rq_signWithPreviousRoot :: "bool option"
  rq_overridePreviousRoot :: "string option"

record tls_server =
  sc_id :: string
  sc_securityProfile :: nat
  sc_keyPath :: "string option"            \<comment> \<open>tlsKeyFilePath\<close>
  sc_chainPath :: "string option"          \<comment> \<open>tlsCertificateChainFilePath\<close>
  sc_mtlsKeyPath :: "string option"        \<comment> \<open>mtlsCertificateAuthorityKeyFilePath\<close>
  sc_rootPath :: "string option"           \<comment> \<open>rootCACertificateFilePath\<close>

record chain_result =
  cn_certificates :: "certificate list"
  cn_keyPath :: string
  cn_chainPath :: string
  cn_mtlsKeyPath :: "string option"
  cn_rootPath :: "string option"

definition nonempty :: "string option \<Rightarrow> string option" where
  "nonempty x = (case x of Some s \<Rightarrow> if s = [] then None else Some s | None \<Rightarrow> None)"

definition new_certificate :: certificate where
  "new_certificate =
     \<lparr> ce_id = 0, ce_tenantId = default_tenant_id, ce_serialNumber = 0, ce_issuerName = None,
       ce_organizationName = [], ce_commonName = [], ce_keyLength = None, ce_validBefore = None,
       ce_signatureAlgorithm = None, ce_countryName = None, ce_isCA = False, ce_pathLen = None,
       ce_certificateFileId = None, ce_certificateFileHash = None, ce_privateKeyFileId = None,
       ce_signedBy = None \<rparr>"

text \<open>_buildCertificateDefaults, as the entity of a certificate that has them.\<close>

definition buildCertificateDefaults :: "crypto \<Rightarrow> chain_request \<Rightarrow> nat \<Rightarrow> certificate op" where
  "buildCertificateDefaults cr rq serialNumber =
     bind_op (case nonempty (rq_validBefore rq) of
                Some v \<Rightarrow> ret v
              | None \<Rightarrow> bind_op ask (\<lambda>n. ret (cr_isoNextYear cr n))) (\<lambda>validBefore.
     ret (new_certificate\<lparr>
       ce_serialNumber := serialNumber,
       ce_organizationName := rq_organizationName rq,
       ce_keyLength := Some (case truthy_len (rq_keyLength rq) of Some n \<Rightarrow> n | None \<Rightarrow> 2048),
       ce_validBefore := Some validBefore,
       ce_countryName := Some (case nonempty (rq_countryName rq) of Some c \<Rightarrow> c | None \<Rightarrow> ''US''),
       ce_signatureAlgorithm := Some (case nonempty (rq_signatureAlgorithm rq) of Some a \<Rightarrow> a | None \<Rightarrow> ''SHA256withECDSA'') \<rparr>))"

definition buildRootEntity :: "crypto \<Rightarrow> chain_request \<Rightarrow> nat \<Rightarrow> certificate op" where
  "buildRootEntity cr rq serialNumber =
     bind_op (buildCertificateDefaults cr rq serialNumber) (\<lambda>c.
     ret (c\<lparr> ce_commonName := rq_commonName rq @ '' Root'', ce_isCA := True,
             ce_pathLen := Some (case truthy_len (rq_pathLen rq) of Some n \<Rightarrow> n | None \<Rightarrow> 1) \<rparr>))"

definition buildSubCAEntity :: "crypto \<Rightarrow> chain_request \<Rightarrow> nat \<Rightarrow> nat \<Rightarrow> certificate op" where
  "buildSubCAEntity cr rq signedBy serialNumber =
     bind_op (buildCertificateDefaults cr rq serialNumber) (\<lambda>c.
     ret (c\<lparr> ce_commonName := rq_commonName rq @ '' SubCA'', ce_isCA := True,
             ce_pathLen := Some 0, ce_signedBy := Some signedBy \<rparr>))"

definition buildLeafEntity :: "crypto \<Rightarrow> chain_request \<Rightarrow> nat \<Rightarrow> nat \<Rightarrow> certificate op" where
  "buildLeafEntity cr rq signedBy serialNumber =
     bind_op (buildCertificateDefaults cr rq serialNumber) (\<lambda>c.
     ret (c\<lparr> ce_commonName := rq_commonName rq, ce_isCA := False, ce_signedBy := Some signedBy \<rparr>))"

section \<open>Finding the current chain of a server\<close>

definition findCertificateByPem :: "crypto \<Rightarrow> int \<Rightarrow> string \<Rightarrow> string \<Rightarrow> certificate op" where
  "findCertificateByPem cr t certPem serverId =
     bind_op (getCertificateHash cr certPem) (\<lambda>hash.
     bind_op (read_only_certificate t (\<lambda>c. ce_certificateFileHash c = Some hash)) (\<lambda>record.
     needs (''Could not find a certificate record matching the currently configured certificate for server ''
              @ serverId @ '': run a FullChain generation first to establish a trackable certificate lineage.'') record))"

definition findCertificateById :: "int \<Rightarrow> nat \<Rightarrow> certificate op" where
  "findCertificateById t i =
     bind_op (read_only_certificate t (\<lambda>c. ce_id c = i)) (\<lambda>record.
     needs (''Could not find a certificate record with id '' @ nat_str i @ ''.'') record)"

definition readCurrentSubCACertPem :: "string list \<Rightarrow> tls_server \<Rightarrow> string op" where
  "readCurrentSubCACertPem dir cfg =
     bind_op (needs (''Cannot regenerate certificates for server '' @ sc_id cfg
                       @ '': an existing certificate chain is required but is not configured.'')
                (nonempty (sc_chainPath cfg))) (\<lambda>path.
     bind_op (readPemFile dir path ''certificate chain'' (sc_id cfg) True) (\<lambda>chain.
     needs (''Cannot regenerate certificates for server '' @ sc_id cfg
              @ '': existing certificate chain does not contain a subCA certificate.'')
       (case parseCertificateChainPem chain of _ # subCA # _ \<Rightarrow> Some subCA | _ \<Rightarrow> None)))"

text \<open>The previous root: its certificate, its private key and its id.\<close>

definition resolvePreviousRoot ::
  "crypto \<Rightarrow> string list \<Rightarrow> int \<Rightarrow> chain_request \<Rightarrow> tls_server \<Rightarrow> (string \<times> string \<times> nat) option op" where
  "resolvePreviousRoot cr dir t rq cfg =
     (case nonempty (case rq_overridePreviousRoot rq of Some p \<Rightarrow> Some p | None \<Rightarrow> sc_rootPath cfg) of
        None \<Rightarrow> ret None
      | Some path \<Rightarrow>
          bind_op (readPemFile dir path ''previous root certificate'' (sc_id cfg)
                     (rq_overridePreviousRoot rq = None)) (\<lambda>certPem.
          bind_op (getCertificateHash cr certPem) (\<lambda>hash.
          bind_op (read_only_certificate t (\<lambda>c. ce_certificateFileHash c = Some hash)) (\<lambda>found.
          bind_op (needs (''Cannot sign the new root certificate for '' @ sc_id cfg @ '' with the previous root at ''
                            @ path @ '': cannot find record from db.'') found) (\<lambda>record.
          bind_op (needs (''Cannot sign the new root certificate for '' @ sc_id cfg @ '' with the previous root at ''
                            @ path @ '': private key cannot be located from db.'')
                     (nonempty (ce_privateKeyFileId record))) (\<lambda>keyPath.
          bind_op (readPemFile dir keyPath ''previous root private key'' (sc_id cfg) False) (\<lambda>keyPem.
          ret (Some (certPem, keyPem, ce_id record)))))))))"

section \<open>Generating a chain\<close>

text \<open>Generate the certificate of an entity with an issuer and store it: its PEM, its key, its row.\<close>

definition issue ::
  "crypto \<Rightarrow> string list \<Rightarrow> int \<Rightarrow> certificate \<Rightarrow> (string \<times> string) option \<Rightarrow> string \<Rightarrow> string option \<Rightarrow>
     (string \<times> string \<times> certificate) op" where
  "issue cr dir t entity issuer pemType filePath =
     bind_op (generateCertificate cr entity (map_option fst issuer) (map_option snd issuer)) (\<lambda>(certPem, keyPem).
     bind_op (storeCertificateAndKey cr dir t entity certPem keyPem pemType filePath) (\<lambda>stored.
     ret (certPem, keyPem, stored)))"

text \<open>The leaf below a sub-CA and the chain file of the two.\<close>

definition issue_leaf ::
  "crypto \<Rightarrow> string list \<Rightarrow> int \<Rightarrow> chain_request \<Rightarrow> nat \<Rightarrow> nat \<Rightarrow> string \<Rightarrow> string \<Rightarrow> (certificate \<times> string) op" where
  "issue_leaf cr dir t rq subCAId serialNumber subCAKeyPem subCACertPem =
     bind_op (buildLeafEntity cr rq subCAId serialNumber) (\<lambda>leafEntity.
     bind_op (issue cr dir t leafEntity (Some (subCAKeyPem, subCACertPem)) ''Leaf'' (rq_filePath rq)) (\<lambda>(leafCertPem, _, storedLeaf).
     bind_op (saveChainFile dir (leafCertPem @ subCACertPem) (ce_serialNumber storedLeaf) (rq_filePath rq)) (\<lambda>chainPath.
     ret (storedLeaf, chainPath))))"

definition text_of :: "string option \<Rightarrow> string" where
  "text_of x = (case x of Some s \<Rightarrow> s | None \<Rightarrow> [])"

definition generateLeafOnly ::
  "crypto \<Rightarrow> string list \<Rightarrow> int \<Rightarrow> tls_server \<Rightarrow> chain_request \<Rightarrow> chain_result op" where
  "generateLeafOnly cr dir t cfg rq =
     bind_op (readCurrentSubCACertPem dir cfg) (\<lambda>subCACertPem.
     bind_op (findCertificateByPem cr t subCACertPem (sc_id cfg)) (\<lambda>subCA.
     bind_op (needs (''Cannot regenerate leaf certificate for server '' @ sc_id cfg
                       @ '': subCA certificate record is missing its private key.'')
                (nonempty (ce_privateKeyFileId subCA))) (\<lambda>keyPath.
     bind_op (readPemFile dir keyPath ''subCA private key'' (sc_id cfg) False) (\<lambda>subCAKeyPem.
     bind_op (clock_reading cr) (\<lambda>serialNumber.
     bind_op (issue_leaf cr dir t rq (ce_id subCA) serialNumber subCAKeyPem subCACertPem) (\<lambda>(storedLeaf, chainPath).
     ret \<lparr> cn_certificates = [storedLeaf], cn_keyPath = text_of (ce_privateKeyFileId storedLeaf),
           cn_chainPath = chainPath, cn_mtlsKeyPath = None, cn_rootPath = None \<rparr>))))))"

definition generateSubCAAndLeaf ::
  "crypto \<Rightarrow> string list \<Rightarrow> int \<Rightarrow> tls_server \<Rightarrow> chain_request \<Rightarrow> chain_result op" where
  "generateSubCAAndLeaf cr dir t cfg rq =
     bind_op (readCurrentSubCACertPem dir cfg) (\<lambda>currentPem.
     bind_op (findCertificateByPem cr t currentPem (sc_id cfg)) (\<lambda>current.
     bind_op (needs (''Cannot regenerate subCA and leaf certificates for server '' @ sc_id cfg
                       @ '': the current subCA has no locally-generated root to reuse.'')
                (ce_signedBy current)) (\<lambda>rootId.
     bind_op (findCertificateById t rootId) (\<lambda>root.
     bind_op (needs (''Cannot regenerate subCA for server '' @ sc_id cfg
                       @ '': root certificate record is missing its certificate or private key.'')
                (case (nonempty (ce_certificateFileId root), nonempty (ce_privateKeyFileId root)) of
                   (Some a, Some b) \<Rightarrow> Some (a, b) | _ \<Rightarrow> None)) (\<lambda>(certPath, keyPath).
     bind_op (readPemFile dir certPath ''root certificate'' (sc_id cfg) False) (\<lambda>rootCertPem.
     bind_op (readPemFile dir keyPath ''root private key'' (sc_id cfg) False) (\<lambda>rootKeyPem.
     bind_op (clock_reading cr) (\<lambda>serialNumber.
     bind_op (buildSubCAEntity cr rq (ce_id root) serialNumber) (\<lambda>subCAEntity.
     bind_op (issue cr dir t subCAEntity (Some (rootKeyPem, rootCertPem)) ''SubCA'' (rq_filePath rq)) (\<lambda>(subCACertPem, subCAKeyPem, storedSubCA).
     bind_op (issue_leaf cr dir t rq (ce_id storedSubCA) (serialNumber + 1) subCAKeyPem subCACertPem) (\<lambda>(storedLeaf, chainPath).
     ret \<lparr> cn_certificates = [storedLeaf, storedSubCA], cn_keyPath = text_of (ce_privateKeyFileId storedLeaf),
           cn_chainPath = chainPath, cn_mtlsKeyPath = Some (text_of (ce_privateKeyFileId storedSubCA)),
           cn_rootPath = None \<rparr>)))))))))))"

definition issue_root ::
  "crypto \<Rightarrow> string list \<Rightarrow> int \<Rightarrow> tls_server option \<Rightarrow> chain_request \<Rightarrow> (nat \<times> string \<times> string \<times> certificate) op" where
  "issue_root cr dir t cfg rq =
     bind_op (case cfg of
                Some c \<Rightarrow> if rq_signWithPreviousRoot rq = Some False then ret None else resolvePreviousRoot cr dir t rq c
              | None \<Rightarrow> ret None) (\<lambda>previous.
     bind_op (clock_reading cr) (\<lambda>serialNumber.
     bind_op (buildRootEntity cr rq serialNumber) (\<lambda>rootEntity.
     bind_op (issue cr dir t (case previous of Some (_, _, i) \<Rightarrow> rootEntity\<lparr> ce_signedBy := Some i \<rparr> | None \<Rightarrow> rootEntity)
       (map_option (\<lambda>(certPem, keyPem, _). (keyPem, certPem)) previous) ''Root'' (rq_filePath rq)) (\<lambda>issued.
     ret (serialNumber, issued)))))"

text \<open>The sub-CA below a new root, or signed by the external CA when selfSigned is false.\<close>

definition issue_sub_ca ::
  "crypto \<Rightarrow> string list \<Rightarrow> int \<Rightarrow> tls_server option \<Rightarrow> chain_request \<Rightarrow>
     (string \<times> string \<times> certificate \<times> certificate option) op" where
  "issue_sub_ca cr dir t cfg rq =
     (if rq_selfSigned rq \<noteq> Some False
      then bind_op (issue_root cr dir t cfg rq) (\<lambda>(rootSerialNumber, rootCertPem, rootKeyPem, storedRoot).
           bind_op (buildSubCAEntity cr rq (ce_id storedRoot) (rootSerialNumber + 1)) (\<lambda>subCAEntity.
           bind_op (issue cr dir t subCAEntity (Some (rootKeyPem, rootCertPem)) ''SubCA'' (rq_filePath rq)) (\<lambda>(c, k, storedSubCA).
           ret (c, k, storedSubCA, Some storedRoot))))
      else bind_op (clock_reading cr) (\<lambda>serialNumber.
           bind_op (buildCertificateDefaults cr rq serialNumber) (\<lambda>defaults.
           let entity = defaults\<lparr> ce_commonName := rq_commonName rq, ce_isCA := True, ce_pathLen := Some 0 \<rparr> in
           bind_op ask (\<lambda>n.
           bind_op (lift_res (cr_externalCA cr n entity)) (\<lambda>(certPem, keyPem).
           bind_op (storeCertificateAndKey cr dir t entity certPem keyPem ''SubCA'' (rq_filePath rq)) (\<lambda>storedSubCA.
           ret (certPem, keyPem, storedSubCA, None)))))))"

definition generateFullChain ::
  "crypto \<Rightarrow> string list \<Rightarrow> int \<Rightarrow> tls_server option \<Rightarrow> chain_request \<Rightarrow> chain_result op" where
  "generateFullChain cr dir t cfg rq =
     bind_op (issue_sub_ca cr dir t cfg rq) (\<lambda>(subCACertPem, subCAKeyPem, storedSubCA, storedRoot).
     bind_op (issue_leaf cr dir t rq (ce_id storedSubCA) (ce_serialNumber storedSubCA + 1) subCAKeyPem subCACertPem) (\<lambda>(storedLeaf, chainPath).
     ret \<lparr> cn_certificates = [storedLeaf, storedSubCA] @ (case storedRoot of Some r \<Rightarrow> [r] | None \<Rightarrow> []),
           cn_keyPath = text_of (ce_privateKeyFileId storedLeaf), cn_chainPath = chainPath,
           cn_mtlsKeyPath = Some (text_of (ce_privateKeyFileId storedSubCA)),
           cn_rootPath = map_option (\<lambda>r. text_of (ce_certificateFileId r)) storedRoot \<rparr>))"

definition generateCertificateChain ::
  "crypto \<Rightarrow> string list \<Rightarrow> int \<Rightarrow> tls_server \<Rightarrow> chain_request \<Rightarrow> chain_result op" where
  "generateCertificateChain cr dir t cfg rq =
     (case (case rq_generationScope rq of Some g \<Rightarrow> g | None \<Rightarrow> Leaf_scope) of
        Leaf_scope \<Rightarrow> generateLeafOnly cr dir t cfg rq
      | SubCAAndLeaf_scope \<Rightarrow> generateSubCAAndLeaf cr dir t cfg rq
      | FullChain_scope \<Rightarrow> generateFullChain cr dir t (Some cfg) rq)"

definition generateStandaloneFullChain :: "crypto \<Rightarrow> string list \<Rightarrow> int \<Rightarrow> chain_request \<Rightarrow> chain_result op" where
  "generateStandaloneFullChain cr dir t rq = generateFullChain cr dir t None rq"

section \<open>Several servers\<close>

text \<open>groupServersForGeneration: a Map from lineage keys to servers, in the order of first occurrence.\<close>

definition lineage_key :: "crypto \<Rightarrow> string list \<Rightarrow> int \<Rightarrow> generation_scope \<Rightarrow> tls_server \<Rightarrow> string op" where
  "lineage_key cr dir t scope cfg =
     bind_op (readCurrentSubCACertPem dir cfg) (\<lambda>subCACertPem.
     if scope = Leaf_scope
     then bind_op (getCertificateHash cr subCACertPem) (\<lambda>h. ret (''subCA:'' @ h))
     else bind_op (findCertificateByPem cr t subCACertPem (sc_id cfg)) (\<lambda>record.
          bind_op (needs (''Cannot regenerate subCA and leaf certificates for server '' @ sc_id cfg
                            @ '': the current subCA has no locally-generated root to reuse.'')
                     (ce_signedBy record)) (\<lambda>i. ret (''root:'' @ nat_str i))))"

definition add_to_group :: "string \<Rightarrow> 'a \<Rightarrow> (string \<times> 'a list) list \<Rightarrow> (string \<times> 'a list) list" where
  "add_to_group k x gs = AList.update k ((case map_of gs k of Some g \<Rightarrow> g | None \<Rightarrow> []) @ [x]) gs"

fun group_servers ::
  "(tls_server \<Rightarrow> string op) \<Rightarrow> tls_server list \<Rightarrow> (string \<times> tls_server list) list \<Rightarrow>
     (string \<times> tls_server list) list op" where
  "group_servers key [] gs = ret gs"
| "group_servers key (c # cs) gs =
     bind_op (key c) (\<lambda>k. group_servers key cs (add_to_group k c gs))"

definition groupServersForGeneration ::
  "crypto \<Rightarrow> string list \<Rightarrow> int \<Rightarrow> tls_server list \<Rightarrow> generation_scope \<Rightarrow> tls_server list list op" where
  "groupServersForGeneration cr dir t cfgs scope =
     (if scope = FullChain_scope then ret [cfgs]
      else bind_op (group_servers (lineage_key cr dir t scope) cfgs []) (\<lambda>gs. ret (map snd gs)))"

text \<open>The paths a server's configuration takes over.\<close>

definition apply_paths :: "chain_result \<Rightarrow> tls_server \<Rightarrow> tls_server" where
  "apply_paths r c =
     c\<lparr> sc_keyPath := Some (cn_keyPath r), sc_chainPath := Some (cn_chainPath r),
        sc_rootPath := (case cn_rootPath r of Some p \<Rightarrow> Some p | None \<Rightarrow> sc_rootPath c),
        sc_mtlsKeyPath := (if sc_securityProfile c \<ge> 3
          then (case cn_mtlsKeyPath r of Some p \<Rightarrow> Some p | None \<Rightarrow> sc_mtlsKeyPath c) else sc_mtlsKeyPath c) \<rparr>"

text \<open>
  The endpoint of the data API (OcppRouter/src/module/DataApi.ts). The servers of the
  configuration are changed in place; every saved configuration, every written network profile
  and every server whose TLS certificates were reloaded is recorded.
\<close>

record api_state =
  as_chain :: chain_state
  as_servers :: "tls_server list"
  as_saved :: "tls_server list list"
  as_profiles :: "tls_server list"
  as_reloads :: "string list"

datatype api_answer =
    Standalone chain_result
  | Per_server "(string list \<times> certificate list) list"

fun update_first :: "('a \<Rightarrow> bool) \<Rightarrow> ('a \<Rightarrow> 'a) \<Rightarrow> 'a list \<Rightarrow> 'a list" where
  "update_first P f [] = []"
| "update_first P f (x # xs) = (if P x then f x # xs else x # update_first P f xs)"

fun requested_servers :: "tls_server list \<Rightarrow> string list \<Rightarrow> exn + tls_server list" where
  "requested_servers ws [] = Inr []"
| "requested_servers ws (i # is) =
     (case find (\<lambda>w. sc_id w = i) ws of
        None \<Rightarrow> Inl (JsErr (''Websocket configuration with id '' @ i @ '' not found'') [])
      | Some w \<Rightarrow>
          if sc_securityProfile w < 2
          then Inl (JsErr (''Websocket configuration with id '' @ i @ '' is not TLS-enabled (securityProfile ''
                      @ nat_str (sc_securityProfile w) @ ''); nothing to regenerate.'') [])
          else (case requested_servers ws is of Inl e \<Rightarrow> Inl e | Inr cs \<Rightarrow> Inr (w # cs)))"

definition server_named :: "tls_server list \<Rightarrow> tls_server \<Rightarrow> tls_server" where
  "server_named ws c = (case find (\<lambda>w. sc_id w = sc_id c) ws of Some w \<Rightarrow> w | None \<Rightarrow> c)"

fun assign_paths :: "chain_result \<Rightarrow> tls_server list \<Rightarrow> tls_server list \<Rightarrow> tls_server list" where
  "assign_paths r [] ws = ws"
| "assign_paths r (c # cs) ws = assign_paths r cs (update_first (\<lambda>w. sc_id w = sc_id c) (apply_paths r) ws)"

definition profile_row :: "chain_result \<Rightarrow> tls_server \<Rightarrow> tls_server" where
  "profile_row r c =
     c\<lparr> sc_keyPath := Some (cn_keyPath r), sc_chainPath := Some (cn_chainPath r),
        sc_rootPath := same_or_new (cn_rootPath r) (sc_rootPath c),
        sc_mtlsKeyPath := same_or_new (cn_mtlsKeyPath r) (sc_mtlsKeyPath c) \<rparr>"

definition take_over :: "chain_result \<Rightarrow> tls_server list \<Rightarrow> api_state \<Rightarrow> api_state" where
  "take_over r g s =
     (let ws = assign_paths r g (as_servers s)
      in s\<lparr> as_servers := ws, as_saved := as_saved s @ [ws],
            as_profiles := as_profiles s @ map (\<lambda>c. profile_row r (server_named ws c)) g,
            as_reloads := as_reloads s @ map sc_id g \<rparr>)"

fun regenerate_groups ::
  "crypto \<Rightarrow> string list \<Rightarrow> int \<Rightarrow> chain_request \<Rightarrow> tls_server list list \<Rightarrow> api_state \<Rightarrow>
     (exn + (string list \<times> certificate list) list) \<times> api_state" where
  "regenerate_groups cr dir t rq [] s = (Inr [], s)"
| "regenerate_groups cr dir t rq (g # gs) s =
     (case generateCertificateChain cr dir t (server_named (as_servers s) (hd g)) rq (as_chain s) of
        (Inl e, c) \<Rightarrow> (Inl e, s\<lparr> as_chain := c \<rparr>)
      | (Inr r, c) \<Rightarrow>
          (case regenerate_groups cr dir t rq gs (take_over r g (s\<lparr> as_chain := c \<rparr>)) of
             (Inl e, s') \<Rightarrow> (Inl e, s')
           | (Inr rest, s') \<Rightarrow> (Inr ((map sc_id g, cn_certificates r) # rest), s')))"

definition generateCertificateChain_endpoint ::
  "crypto \<Rightarrow> string list \<Rightarrow> int \<Rightarrow> string list option \<Rightarrow> chain_request \<Rightarrow> api_state \<Rightarrow>
     (exn + api_answer) \<times> api_state" where
  "generateCertificateChain_endpoint cr dir t serverIds rq s =
     (case serverIds of
        None \<Rightarrow>
          if rq_generationScope rq \<notin> {None, Some FullChain_scope}
          then (Inl (JsErr ''generationScope requires a serverId'' []), s)
          else (case generateStandaloneFullChain cr dir t rq (as_chain s) of
                  (Inl e, c) \<Rightarrow> (Inl e, s\<lparr> as_chain := c \<rparr>)
                | (Inr r, c) \<Rightarrow> (Inr (Standalone r), s\<lparr> as_chain := c \<rparr>))
      | Some is \<Rightarrow>
          (case requested_servers (as_servers s) is of
             Inl e \<Rightarrow> (Inl e, s)
           | Inr cfgs \<Rightarrow>
               (case groupServersForGeneration cr dir t cfgs
                       (case rq_generationScope rq of Some g \<Rightarrow> g | None \<Rightarrow> Leaf_scope) (as_chain s) of
                  (Inl e, c) \<Rightarrow> (Inl e, s\<lparr> as_chain := c \<rparr>)
                | (Inr groups, c) \<Rightarrow>
                    (case regenerate_groups cr dir t rq groups (s\<lparr> as_chain := c \<rparr>) of
                       (Inl e, s') \<Rightarrow> (Inl e, s')
                     | (Inr rows, s') \<Rightarrow> (Inr (Per_server rows), s')))))"


section \<open>Successful runs\<close>

lemma runs_basic [op_runs]:
  "bind_op m f s = (Inr y, s') \<longleftrightarrow> (\<exists>x s1. m s = (Inr x, s1) \<and> f x s1 = (Inr y, s'))"
  "ret x s = (Inr z, s') \<longleftrightarrow> z = x \<and> s' = s"
  "needs e v s = (Inr x, s') \<longleftrightarrow> v = Some x \<and> s' = s"
  "lift_res r s = (Inr x, s') \<longleftrightarrow> r = Inr x \<and> s' = s"
  "ask s = (Inr n, s') \<longleftrightarrow> n = cs_asked s \<and> s' = s\<lparr> cs_asked := Suc (cs_asked s) \<rparr>"
  by (auto simp: bind_op_def ret_def needs_def fail_def lift_res_def ask_def split: prod.splits sum.splits option.splits)

lemma runs_storage [op_runs]:
  "save_file dir key c s = (Inr k, s') \<longleftrightarrow> k = key \<and> validatePath key = None
     \<and> s' = s\<lparr> cs_files := (cs_files s)(resolvePath dir key \<mapsto> c) \<rparr>"
  "readPemFile dir path d i trusted s = (Inr x, s') \<longleftrightarrow> s' = s \<and> (trusted \<or> validatePath path = None)
     \<and> cs_files s (resolvePath dir path) = Some x \<and> x \<noteq> []"
  "clock_reading cr s = (Inr n, s') \<longleftrightarrow> n = cr_clock cr (cs_asked s) \<and> s' = s\<lparr> cs_asked := Suc (cs_asked s) \<rparr>"
  "getCertificateHash cr pem s = (Inr h, s') \<longleftrightarrow> cr_hash cr pem = Some h \<and> s' = s"
  "read_only_certificate t P s = (Inr r, s') \<longleftrightarrow>
     read_only_one (\<lambda>c. ce_tenantId c = t \<and> P c) (cs_certificates s) = Inr r \<and> s' = s"
  by (auto simp: save_file_def saveFile_def readPemFile_def getFile_def clock_reading_def getCertificateHash_def
      read_only_certificate_def runs_basic needs_def ret_def fail_def split: option.splits if_splits sum.splits)

text \<open>Operations that only count readings leave tables and files alone.\<close>

definition only_asks :: "chain_state \<Rightarrow> chain_state \<Rightarrow> bool" where
  "only_asks s s' \<longleftrightarrow> cs_certificates s' = cs_certificates s \<and> cs_files s' = cs_files s"

lemma only_asks_simps [simp]: "only_asks s s" "only_asks s (s\<lparr> cs_asked := n \<rparr>)"
  by (simp_all add: only_asks_def)

lemma only_asks_trans: "only_asks a b \<Longrightarrow> only_asks b c \<Longrightarrow> only_asks a c"
  by (simp add: only_asks_def)

text \<open>A certificate is of a key pair, and signed with a private key.\<close>

definition certifies :: "crypto \<Rightarrow> string \<Rightarrow> string \<Rightarrow> string \<Rightarrow> bool" where
  "certifies cr certPem keyPem signer \<longleftrightarrow>
     (\<exists>n rsa len tbs. keyPem = snd (cr_keypair cr n rsa len) \<and> tb_publicKey tbs = fst (cr_keypair cr n rsa len)
        \<and> certPem = cr_sign cr tbs signer)"

lemma subject_not_after_runs: "subject_not_after cr c s = (Inr x, s') \<Longrightarrow> only_asks s s'"
  by (auto simp: subject_not_after_def op_runs only_asks_def split: option.splits if_splits)

lemma issuer_terms_runs: "issuer_terms cr c p na s = (Inr x, s') \<Longrightarrow> s' = s"
  by (auto simp: issuer_terms_def op_runs split: option.splits)

lemma sign_runs:
  assumes "sign_certificate cr c issuerKey issuerCert rsa pub prv s = (Inr certPem, s')"
  shows "only_asks s s'"
    and "\<exists>tbs. tb_publicKey tbs = pub \<and> certPem = cr_sign cr tbs (case issuerKey of Some k \<Rightarrow> k | None \<Rightarrow> prv)"
proof -
  obtain na s1 z s2 where 1: "subject_not_after cr c s = (Inr na, s1)" and 2: "issuer_terms cr c issuerCert na s1 = (Inr z, s2)"
    and 3: "s' = s2\<lparr> cs_asked := Suc (Suc (cs_asked s2)) \<rparr>"
      "certPem = cr_sign cr (to_be_signed c issuerCert (fst z) (snd z) pub rsa (cr_clock cr (cs_asked s2)) (cr_clock cr (Suc (cs_asked s2))))
         (case issuerKey of Some k \<Rightarrow> k | None \<Rightarrow> prv)"
    using assms unfolding sign_certificate_def op_runs by auto
  show "only_asks s s'"
    using subject_not_after_runs [OF 1] issuer_terms_runs [OF 2] 3(1) by (simp add: only_asks_def)
  have "tb_publicKey (to_be_signed c issuerCert (fst z) (snd z) pub rsa (cr_clock cr (cs_asked s2)) (cr_clock cr (Suc (cs_asked s2)))) = pub"
    by (simp add: to_be_signed_def)
  then show "\<exists>tbs. tb_publicKey tbs = pub \<and> certPem = cr_sign cr tbs (case issuerKey of Some k \<Rightarrow> k | None \<Rightarrow> prv)"
    using 3(2) by blast
qed

lemma generate_runs:
  assumes "generateCertificate cr c issuerKey issuerCert s = (Inr (certPem, keyPem), s')"
  shows "only_asks s s'" and "certifies cr certPem keyPem (case issuerKey of Some k \<Rightarrow> k | None \<Rightarrow> keyPem)"
proof -
  let ?s = "s\<lparr> cs_asked := Suc (cs_asked s) \<rparr>"
  let ?rsa = "ce_signatureAlgorithm c = Some ''SHA256withRSA''"
  let ?len = "case truthy_len (ce_keyLength c) of Some n \<Rightarrow> n | None \<Rightarrow> 2048"
  let ?kp = "cr_keypair cr (cs_asked s) ?rsa ?len"
  have "sign_certificate cr c issuerKey issuerCert ?rsa (fst ?kp) (snd ?kp) ?s = (Inr certPem, s')" and k: "keyPem = snd ?kp"
    using assms by (auto simp: generateCertificate_def op_runs Let_def)
  note r = sign_runs [OF this(1)]
  show "only_asks s s'" using r(1) by (simp add: only_asks_def)
  show "certifies cr certPem keyPem (case issuerKey of Some k \<Rightarrow> k | None \<Rightarrow> keyPem)"
    using r(2) unfolding certifies_def k by blast
qed

lemma build_runs:
  "buildCertificateDefaults cr rq n s = (Inr c, s') \<Longrightarrow> only_asks s s' \<and> ce_serialNumber c = n"
  by (auto simp: buildCertificateDefaults_def op_runs only_asks_def split: option.splits)


text \<open>The files of a certificate lie in the directory of the request.\<close>

lemma split_on_join: "split_on d (xs @ d # ys) = split_on d xs @ split_on d ys"
proof (induction xs)
  case (Cons c xs)
  obtain w ws where "split_on d xs = w # ws" by (cases "split_on d xs") auto
  then show ?case using Cons.IH by simp
qed simp

lemma walk_append: "walk dir (xs @ ys) = walk (walk dir xs) ys"
  by (induction xs arbitrary: dir) auto

definition request_dir :: "string list \<Rightarrow> string option \<Rightarrow> string list" where
  "request_dir dir filePath = (case nonempty filePath of Some f \<Rightarrow> resolvePath dir f | None \<Rightarrow> dir)"

lemma resolve_name:
  assumes "CHR ''/'' \<notin> set name" and "name \<notin> {[], ''.'', ''..''}"
  shows "resolvePath dir (key_prefix fp @ name) = request_dir dir fp @ [name]"
proof (cases "nonempty fp")
  case None
  then have "key_prefix fp = []" by (simp add: key_prefix_def nonempty_def split: option.splits if_splits)
  moreover have "\<not> is_absolute name" using assms by (cases name) (auto simp: is_absolute_def)
  ultimately show ?thesis using assms None by (simp add: resolvePath_def request_dir_def split_on_free)
next
  case (Some f)
  then have f: "f \<noteq> []" "key_prefix fp = f @ ''/''" by (auto simp: key_prefix_def nonempty_def split: option.splits if_splits)
  then have a: "is_absolute (f @ x) = is_absolute f" for x by (cases f) (auto simp: is_absolute_def)
  have "split_on CHR ''/'' (key_prefix fp @ name) = split_on CHR ''/'' f @ [name]"
    using split_on_join [of "CHR ''/''" f name] assms(1) by (simp add: f split_on_free)
  moreover have "is_absolute (key_prefix fp @ name) = is_absolute f" using a [of "''/'' @ name"] by (simp add: f)
  ultimately show ?thesis using assms(2) Some by (simp add: resolvePath_def request_dir_def walk_append)
qed

definition pem_name :: "string \<Rightarrow> nat \<Rightarrow> string" where
  "pem_name kind n = kind @ nat_str n @ ''.pem''"

lemma slash_free_nat: "CHR ''/'' \<notin> set (nat_str n)"
  by (rule nondigit_not_in_nat_str) (simp add: digit_of_def)

lemma pem_name_ok:
  assumes "CHR ''/'' \<notin> set kind" and "3 \<le> length kind"
  shows "CHR ''/'' \<notin> set (pem_name kind n)" and "pem_name kind n \<notin> {[], ''.'', ''..''}"
  using assms slash_free_nat by (auto simp: pem_name_def dest!: arg_cong [where f = length])

lemma resolve_pem:
  "CHR ''/'' \<notin> set kind \<Longrightarrow> 3 \<le> length kind \<Longrightarrow>
     resolvePath dir (key_prefix fp @ pem_name kind n) = request_dir dir fp @ [pem_name kind n]"
  by (rule resolve_name [OF pem_name_ok])

section \<open>What is stored\<close>

definition clashes :: "certificate \<Rightarrow> certificate \<Rightarrow> bool" where
  "clashes r r' \<longleftrightarrow> ce_tenantId r = ce_tenantId r' \<and>
     ((ce_serialNumber r = ce_serialNumber r' \<and> ce_issuerName r = ce_issuerName r')
      \<or> (ce_certificateFileHash r = ce_certificateFileHash r' \<and> ce_certificateFileHash r' \<noteq> None))"

definition table_ok :: "certificate list \<Rightarrow> bool" where
  "table_ok rows \<longleftrightarrow> distinct (map ce_id rows)
     \<and> (\<forall>r \<in> set rows. ce_issuerName r \<noteq> None)
     \<and> (\<forall>r \<in> set rows. \<forall>r' \<in> set rows. clashes r r' \<longrightarrow> r = r')"

lemma clashes_sym: "clashes r r' \<Longrightarrow> clashes r' r"
  by (auto simp: clashes_def)

lemma table_okD: "table_ok rows \<Longrightarrow> r \<in> set rows \<Longrightarrow> r' \<in> set rows \<Longrightarrow> clashes r r' \<Longrightarrow> r = r'"
  unfolding table_ok_def by blast

lemma violates_unique_iff:
  "ce_issuerName c \<noteq> None \<Longrightarrow> violates_unique c rows \<longleftrightarrow> (\<exists>r \<in> set rows. clashes r c)"
  by (auto simp: violates_unique_def clashes_def)

lemma table_ok_insert:
  assumes "table_ok rows" and "set rows' \<subseteq> insert st (set rows)" and "distinct (map ce_id rows')"
    and "ce_issuerName st \<noteq> None" and "\<And>x. x \<in> set rows' \<Longrightarrow> x \<noteq> st \<Longrightarrow> \<not> clashes x st"
  shows "table_ok rows'"
proof -
  have "r = r'" if "r \<in> set rows'" "r' \<in> set rows'" "clashes r r'" for r r'
  proof (cases "r = st \<or> r' = st")
    case True
    then show ?thesis using that assms(5) clashes_sym by metis
  next
    case False
    then have "r \<in> set rows" "r' \<in> set rows" using that(1,2) assms(2) by auto
    then show ?thesis using table_okD [OF assms(1)] that(3) by blast
  qed
  moreover have "\<forall>r \<in> set rows'. ce_issuerName r \<noteq> None"
    using assms(1,2,4) unfolding table_ok_def by blast
  ultimately show ?thesis using assms(3) unfolding table_ok_def by blast
qed

lemma find_update_self:
  "(\<And>x. P x \<Longrightarrow> P (f x)) \<Longrightarrow> find P (update_rows P f xs) = map_option f (find P xs)"
  by (induction xs) (auto simp: update_rows_def)

lemma update_one_set:
  assumes one: "\<And>x. x \<in> set xs \<Longrightarrow> P x \<Longrightarrow> x = r" and r: "r \<in> set xs" "P r"
  shows "set (update_rows P f xs) = insert (f r) {x \<in> set xs. \<not> P x}"
proof -
  have "set (update_rows P f xs) = f ` {x \<in> set xs. P x} \<union> {x \<in> set xs. \<not> P x}"
    by (auto simp: update_rows_def)
  moreover have "{x \<in> set xs. P x} = {r}" using assms by blast
  ultimately show ?thesis by simp
qed

text \<open>What a saved row carries over from the entity.\<close>

definition carries :: "certificate \<Rightarrow> int \<Rightarrow> certificate \<Rightarrow> bool" where
  "carries c t st \<longleftrightarrow> ce_tenantId st = t \<and> ce_serialNumber st = ce_serialNumber c
     \<and> ce_privateKeyFileId st = ce_privateKeyFileId c \<and> ce_certificateFileId st = ce_certificateFileId c
     \<and> ce_certificateFileHash st = ce_certificateFileHash c
     \<and> (ce_signedBy c \<noteq> None \<longrightarrow> ce_signedBy st = ce_signedBy c)"

definition complete_entity :: "certificate \<Rightarrow> bool" where
  "complete_entity c \<longleftrightarrow> ce_issuerName c \<noteq> None \<and> ce_privateKeyFileId c \<noteq> None
     \<and> ce_certificateFileId c \<noteq> None \<and> ce_certificateFileHash c \<noteq> None"

definition same_certificate :: "certificate \<Rightarrow> certificate \<Rightarrow> bool" where
  "same_certificate c r \<longleftrightarrow> ce_serialNumber r = ce_serialNumber c \<and> ce_issuerName r = ce_issuerName c"

lemma merge_fields:
  assumes "complete_entity c"
  shows "carries c (ce_tenantId c) (merge_certificate c r)" and "same_certificate c (merge_certificate c r)"
    and "ce_tenantId (merge_certificate c r) = ce_tenantId c" and "ce_id (merge_certificate c r) = ce_id r"
    and "ce_issuerName (merge_certificate c r) = ce_issuerName c"
    and "clashes x (merge_certificate c r) = clashes x c"
  using assms
  by (auto simp: carries_def complete_entity_def same_certificate_def merge_certificate_def same_or_new_def clashes_def)

lemma save_created:
  assumes s: "createOrUpdateCertificate t c s = (Inr (Some st), s')" and c: "complete_entity c"
    and none: "find (same_certificate c) (cs_certificates s) = None"
  shows "cs_files s' = cs_files s \<and> st \<in> set (cs_certificates s') \<and> carries c t st
    \<and> (table_ok (cs_certificates s) \<longrightarrow> table_ok (cs_certificates s'))"
proof -
  let ?c = "c\<lparr> ce_tenantId := t \<rparr>"
  let ?rows = "cs_certificates s"
  have same: "(\<lambda>r. ce_serialNumber r = ce_serialNumber ?c \<and> ce_issuerName r = ce_issuerName ?c) = same_certificate c"
    by (simp add: same_certificate_def fun_eq_iff)
  have v: "\<not> violates_unique ?c ?rows" and st: "st = ?c\<lparr> ce_id := serial ce_id ?rows \<rparr>"
    and s': "s' = s\<lparr> cs_certificates := ?rows @ [st] \<rparr>"
    using s none unfolding createOrUpdateCertificate_def Let_def same by (auto split: if_splits)
  have i: "ce_issuerName ?c \<noteq> None" "ce_issuerName st \<noteq> None" using c by (simp_all add: complete_entity_def st)
  have cl: "clashes x st = clashes x ?c" for x by (simp add: st clashes_def)
  have "table_ok (?rows @ [st])" if ok: "table_ok ?rows"
  proof (rule table_ok_insert [OF ok _ _ i(2)])
    show "distinct (map ce_id (?rows @ [st]))"
      using ok serial_not_in [of ce_id ?rows] by (simp add: table_ok_def st)
    show "\<not> clashes x st" if "x \<in> set (?rows @ [st])" "x \<noteq> st" for x
      using v that unfolding violates_unique_iff [OF i(1)] cl by auto
  qed simp
  then show ?thesis using s' by (simp add: carries_def st)
qed

lemma save_updated:
  assumes s: "createOrUpdateCertificate t c s = (Inr (Some st), s')" and c: "complete_entity c"
    and some: "find (same_certificate c) (cs_certificates s) = Some r0"
  shows "cs_files s' = cs_files s \<and> st \<in> set (cs_certificates s') \<and> carries c t st
    \<and> (table_ok (cs_certificates s) \<longrightarrow> table_ok (cs_certificates s'))"
proof -
  let ?c = "c\<lparr> ce_tenantId := t \<rparr>"
  let ?rows = "cs_certificates s"
  let ?mine = "\<lambda>r. same_certificate c r \<and> ce_tenantId r = t"
  let ?new = "update_rows ?mine (merge_certificate ?c) ?rows"
  have c': "complete_entity ?c" using c by (simp add: complete_entity_def)
  have same: "(\<lambda>r. ce_serialNumber r = ce_serialNumber ?c \<and> ce_issuerName r = ce_issuerName ?c) = same_certificate c"
    by (simp add: same_certificate_def fun_eq_iff)
  have mine: "(\<lambda>r. (ce_serialNumber r = ce_serialNumber ?c \<and> ce_issuerName r = ce_issuerName ?c) \<and> ce_tenantId r = t) = ?mine"
    by (simp add: same_certificate_def fun_eq_iff)
  have not_mine: "(\<lambda>r. \<not> ((ce_serialNumber r = ce_serialNumber ?c \<and> ce_issuerName r = ce_issuerName ?c) \<and> ce_tenantId r = t))
      = (\<lambda>r. \<not> ?mine r)"
    by (simp add: same_certificate_def fun_eq_iff)
  have "(if violates_unique ?c (filter (\<lambda>r. \<not> ?mine r) ?rows)
         then (Inl (JsErr ''SequelizeUniqueConstraintError'' []), s)
         else (Inr (find ?mine ?new), s\<lparr> cs_certificates := ?new \<rparr>)) = (Inr (Some st), s')"
    using s some unfolding createOrUpdateCertificate_def Let_def same mine not_mine by simp
  then have v: "\<not> violates_unique ?c (filter (\<lambda>r. \<not> ?mine r) ?rows)" and st: "find ?mine ?new = Some st"
    and s': "s' = s\<lparr> cs_certificates := ?new \<rparr>"
    by (simp_all only: prod.inject sum.inject sum.distinct simp_thms split: if_splits)
  have "find ?mine ?new = map_option (merge_certificate ?c) (find ?mine ?rows)"
    by (rule find_update_self) (use merge_fields(2,3) [OF c'] in \<open>simp add: same_certificate_def\<close>)
  with st have "map_option (merge_certificate ?c) (find ?mine ?rows) = Some st" by (simp only:)
  then obtain r where r: "find ?mine ?rows = Some r" "st = merge_certificate ?c r" unfolding map_option_eq_Some by blast
  have rin: "r \<in> set ?rows" "?mine r" using find_SomeD [OF r(1)] by blast+
  note m = merge_fields [where r = r, OF c', folded r(2)]
  have i: "ce_issuerName ?c \<noteq> None" "ce_issuerName st \<noteq> None" using c' m(5) by (simp_all add: complete_entity_def)
  have "table_ok ?new" if ok: "table_ok ?rows"
  proof (rule table_ok_insert [OF ok _ _ i(2)])
    have one: "x = r" if "x \<in> set ?rows" "?mine x" for x
      using table_okD [OF ok that(1) rin(1)] that(2) rin(2) by (simp add: clashes_def same_certificate_def)
    have rows: "set ?new = insert st {x \<in> set ?rows. \<not> ?mine x}"
      unfolding r(2) by (rule update_one_set [where P = ?mine, OF one rin])
    show "set ?new \<subseteq> insert st (set ?rows)" unfolding rows by auto
    have "map ce_id ?new = map ce_id ?rows" by (rule update_rows_map) (rule merge_fields(4) [OF c'])
    then show "distinct (map ce_id ?new)" using ok by (simp add: table_ok_def)
    show "\<not> clashes x st" if "x \<in> set ?new" "x \<noteq> st" for x
      using v that unfolding violates_unique_iff [OF i(1)] m(6) rows by auto
  qed
  moreover have "st \<in> set ?new" by (rule find_SomeD [OF st, THEN conjunct1])
  ultimately show ?thesis using s' m(1) by (simp add: carries_def)
qed

lemma save_certificate_runs:
  assumes "createOrUpdateCertificate t c s = (Inr (Some st), s')" and "complete_entity c"
  shows "cs_files s' = cs_files s \<and> st \<in> set (cs_certificates s') \<and> carries c t st
    \<and> (table_ok (cs_certificates s) \<longrightarrow> table_ok (cs_certificates s'))"
  using save_created [OF assms] save_updated [OF assms]
  by (cases "find (same_certificate c) (cs_certificates s)") blast+

lemma storeCertificateAndKey_names:
  "storeCertificateAndKey cr dir t entity certPem keyPem ty fp =
     bind_op (getCertificateHash cr certPem) (\<lambda>hash.
     bind_op (save_file dir (key_prefix fp @ pem_name (ty @ ''_Key_'') (ce_serialNumber entity)) keyPem) (\<lambda>keyId.
     bind_op (save_file dir (key_prefix fp @ pem_name (ty @ ''_Certificate_'') (ce_serialNumber entity)) certPem) (\<lambda>certId.
     bind_op (needs ''Unreadable certificate'' (cr_issuer cr certPem)) (\<lambda>issuer.
     bind_op (createOrUpdateCertificate t
       (entity\<lparr> ce_privateKeyFileId := Some keyId, ce_certificateFileId := Some certId,
                ce_certificateFileHash := Some hash, ce_issuerName := Some issuer \<rparr>)) (\<lambda>saved.
     needs ''TypeError'' saved)))))"
  by (simp add: storeCertificateAndKey_def pem_name_def)

text \<open>
  The state after one certificate was issued: its two files, and its row, in tables that stay
  intact.
\<close>

definition issued ::
  "crypto \<Rightarrow> string list \<Rightarrow> int \<Rightarrow> string option \<Rightarrow> string \<Rightarrow> nat \<Rightarrow> string \<Rightarrow> string \<Rightarrow> certificate \<Rightarrow>
     chain_state \<Rightarrow> chain_state \<Rightarrow> bool" where
  "issued cr dir t fp ty n certPem keyPem st s s' \<longleftrightarrow>
     cs_files s' = (cs_files s)(request_dir dir fp @ [pem_name (ty @ ''_Key_'') n] \<mapsto> keyPem,
                                request_dir dir fp @ [pem_name (ty @ ''_Certificate_'') n] \<mapsto> certPem)
     \<and> st \<in> set (cs_certificates s') \<and> ce_tenantId st = t \<and> ce_serialNumber st = n
     \<and> ce_privateKeyFileId st = Some (key_prefix fp @ pem_name (ty @ ''_Key_'') n)
     \<and> ce_certificateFileId st = Some (key_prefix fp @ pem_name (ty @ ''_Certificate_'') n)
     \<and> ce_certificateFileHash st = cr_hash cr certPem \<and> cr_hash cr certPem \<noteq> None
     \<and> validatePath (key_prefix fp @ pem_name (ty @ ''_Key_'') n) = None
     \<and> validatePath (key_prefix fp @ pem_name (ty @ ''_Certificate_'') n) = None
     \<and> (table_ok (cs_certificates s) \<longrightarrow> table_ok (cs_certificates s'))"

lemma issue_runs:
  assumes i: "issue cr dir t entity issuer ty fp s = (Inr (certPem, keyPem, st), s')"
    and ty: "CHR ''/'' \<notin> set ty"
  shows "issued cr dir t fp ty (ce_serialNumber entity) certPem keyPem st s s'"
    and "certifies cr certPem keyPem (case issuer of Some (k, _) \<Rightarrow> k | None \<Rightarrow> keyPem)"
    and "ce_signedBy entity = Some j \<Longrightarrow> ce_signedBy st = Some j"
proof -
  obtain s1 where g: "generateCertificate cr entity (map_option fst issuer) (map_option snd issuer) s = (Inr (certPem, keyPem), s1)"
    and st: "storeCertificateAndKey cr dir t entity certPem keyPem ty fp s1 = (Inr st, s')"
    using i by (auto simp: issue_def op_runs)
  let ?k = "key_prefix fp @ pem_name (ty @ ''_Key_'') (ce_serialNumber entity)"
  let ?f = "key_prefix fp @ pem_name (ty @ ''_Certificate_'') (ce_serialNumber entity)"
  from st obtain h iss where h: "cr_hash cr certPem = Some h" and v: "validatePath ?k = None" "validatePath ?f = None"
    and c: "createOrUpdateCertificate t (entity\<lparr> ce_privateKeyFileId := Some ?k, ce_certificateFileId := Some ?f,
                ce_certificateFileHash := Some h, ce_issuerName := Some iss \<rparr>)
      (s1\<lparr> cs_files := (cs_files s1)(resolvePath dir ?k \<mapsto> keyPem, resolvePath dir ?f \<mapsto> certPem) \<rparr>) = (Inr (Some st), s')"
    by (auto simp: storeCertificateAndKey_names op_runs)
  have "complete_entity (entity\<lparr> ce_privateKeyFileId := Some ?k, ce_certificateFileId := Some ?f,
                ce_certificateFileHash := Some h, ce_issuerName := Some iss \<rparr>)"
    by (simp add: complete_entity_def)
  note r = save_certificate_runs [OF c this]
  note gr = generate_runs [OF g]
  have paths: "resolvePath dir ?k = request_dir dir fp @ [pem_name (ty @ ''_Key_'') (ce_serialNumber entity)]"
    "resolvePath dir ?f = request_dir dir fp @ [pem_name (ty @ ''_Certificate_'') (ce_serialNumber entity)]"
    using ty by (simp_all add: resolve_pem)
  show "issued cr dir t fp ty (ce_serialNumber entity) certPem keyPem st s s'"
    using r gr(1) v h by (simp add: issued_def paths only_asks_def carries_def)
  show "certifies cr certPem keyPem (case issuer of Some (k, _) \<Rightarrow> k | None \<Rightarrow> keyPem)"
    using gr(2) by (cases issuer) (auto split: prod.splits)
  show "ce_signedBy entity = Some j \<Longrightarrow> ce_signedBy st = Some j" using r by (simp add: carries_def)
qed

lemma build_entities:
  "buildRootEntity cr rq n s = (Inr c, s') \<Longrightarrow> only_asks s s' \<and> ce_serialNumber c = n"
  "buildSubCAEntity cr rq i n s = (Inr c, s') \<Longrightarrow> only_asks s s' \<and> ce_serialNumber c = n \<and> ce_signedBy c = Some i"
  "buildLeafEntity cr rq i n s = (Inr c, s') \<Longrightarrow> only_asks s s' \<and> ce_serialNumber c = n \<and> ce_signedBy c = Some i"
  by (auto simp: buildRootEntity_def buildSubCAEntity_def buildLeafEntity_def op_runs dest!: build_runs)

end
