(* ===== verification/CertificateChains.thy ===== *)
theory CertificateChains
  imports Certificates
begin

text \<open>
  Certificate chains: what the generation of a full chain leaves on disk and in the table is a
  chain that verifies up to its root, and a later leaf regeneration continues it below the
  same sub-CA (modules/Certificates/src/module/installCertificateHelperService.ts). What is
  relied on of jsrsasign is \<^verbatim>\<open>crypto_ok\<close>: the form of a PEM block, that text behind the
  first block is not read, and that a signature verifies with the matching public key.
\<close>

section \<open>Blocks\<close>

definition dashless :: "string \<Rightarrow> bool" where
  "dashless s \<longleftrightarrow> CHR ''-'' \<notin> set s"

definition pem_block :: "string \<Rightarrow> string" where
  "pem_block body = begin_marker @ body @ end_marker"

lemma find_behind: "t = d # t' \<Longrightarrow> d \<notin> set x \<Longrightarrow> find_substring t (x @ t @ y) = Some (length x)"
  by (induction x) auto

lemma find_nowhere: "t = d # t' \<Longrightarrow> d \<notin> set x \<Longrightarrow> find_substring t x = None"
  by (induction x) auto

lemma markers: "begin_marker = CHR ''-'' # tl begin_marker" "end_marker = CHR ''-'' # tl end_marker"
  by (simp_all add: begin_marker_def end_marker_def)

lemma first_block_of:
  assumes "dashless pre" and "dashless body"
  shows "first_block (pre @ pem_block body @ rest) = Some (pem_block body, rest)"
proof -
  have "find_substring begin_marker (pre @ begin_marker @ (body @ end_marker @ rest)) = Some (length pre)"
    by (rule find_behind [OF markers(1)]) (use assms(1) in \<open>simp add: dashless_def\<close>)
  moreover have "find_substring end_marker (body @ end_marker @ rest) = Some (length body)"
    by (rule find_behind [OF markers(2)]) (use assms(2) in \<open>simp add: dashless_def\<close>)
  ultimately show ?thesis by (simp add: first_block_def from_marker_def pem_block_def)
qed

lemma no_block: "dashless s \<Longrightarrow> first_block s = None"
  using find_nowhere [OF markers(1)] by (simp add: first_block_def from_marker_def dashless_def)

lemma parse_two_blocks:
  assumes "dashless b" "dashless x" "dashless b'" "dashless x'"
  shows "parseCertificateChainPem (pem_block b @ x @ pem_block b' @ x') = [pem_block b, pem_block b']"
proof -
  have "first_block (pem_block b @ (x @ pem_block b' @ x')) = Some (pem_block b, x @ pem_block b' @ x')"
    using first_block_of [of "[]" b "x @ pem_block b' @ x'"] assms by (simp add: dashless_def)
  moreover have "first_block (x @ pem_block b' @ x') = Some (pem_block b', x')"
    using assms by (rule_tac first_block_of)
  moreover have "parseCertificateChainPem x' = []"
    using no_block [OF assms(4)] by (simp add: parseCertificateChainPem.simps [of x'])
  ultimately show ?thesis
    by (simp add: parseCertificateChainPem.simps [of "pem_block b @ x @ pem_block b' @ x'"]
        parseCertificateChainPem.simps [of "x @ pem_block b' @ x'"])
qed

section \<open>What is relied on\<close>

definition crypto_ok :: "crypto \<Rightarrow> bool" where
  "crypto_ok cr \<longleftrightarrow>
     (\<forall>tbs k. \<exists>body rest. dashless body \<and> dashless rest \<and> cr_sign cr tbs k = pem_block body @ rest)
   \<and> (\<forall>body rest. dashless body \<longrightarrow> dashless rest \<longrightarrow> cr_hash cr (pem_block body @ rest) = cr_hash cr (pem_block body))
   \<and> (\<forall>body rest q. dashless body \<longrightarrow> dashless rest \<longrightarrow>
        cr_verify cr (pem_block body @ rest) q = cr_verify cr (pem_block body) q
        \<and> cr_verify cr q (pem_block body @ rest) = cr_verify cr q (pem_block body))
   \<and> (\<forall>tbs tbs' n rsa len k. tb_publicKey tbs' = fst (cr_keypair cr n rsa len) \<longrightarrow>
        cr_verify cr (cr_sign cr tbs (snd (cr_keypair cr n rsa len))) (cr_sign cr tbs' k) = Some True)"

text \<open>The block of a certificate.\<close>

definition block_of :: "string \<Rightarrow> string" where
  "block_of pem = (case first_block pem of Some (b, _) \<Rightarrow> b | None \<Rightarrow> [])"

lemma certified_form:
  assumes "crypto_ok cr" and "certifies cr pem key signer"
  obtains body rest where "dashless body" "dashless rest" "pem = pem_block body @ rest" "block_of pem = pem_block body"
proof -
  obtain tbs where "pem = cr_sign cr tbs signer" using assms(2) by (auto simp: certifies_def)
  then obtain body rest where b: "dashless body" "dashless rest" "pem = pem_block body @ rest"
    using assms(1) unfolding crypto_ok_def by blast
  then have "block_of pem = pem_block body"
    using first_block_of [of "[]" body rest] by (simp add: block_of_def dashless_def)
  with b show thesis by (rule that)
qed

lemma certified_hash:
  assumes "crypto_ok cr" and "certifies cr pem key signer"
  shows "cr_hash cr (block_of pem) = cr_hash cr pem"
proof -
  obtain body rest where b: "dashless body" "dashless rest" "pem = pem_block body @ rest" "block_of pem = pem_block body"
    using certified_form [OF assms] .
  then show ?thesis using assms(1) unfolding crypto_ok_def by simp
qed

lemma certified_chain:
  assumes "crypto_ok cr" and "certifies cr pem key signer" and "certifies cr pem' key' signer'"
  shows "parseCertificateChainPem (pem @ pem') = [block_of pem, block_of pem']"
proof -
  obtain b x where b: "dashless b" "dashless x" "pem = pem_block b @ x" "block_of pem = pem_block b"
    using certified_form [OF assms(1,2)] .
  obtain b' x' where b': "dashless b'" "dashless x'" "pem' = pem_block b' @ x'" "block_of pem' = pem_block b'"
    using certified_form [OF assms(1,3)] .
  show ?thesis using parse_two_blocks [OF b(1,2) b'(1,2)] b(3,4) b'(3,4) by simp
qed

lemma certified_below:
  assumes ok: "crypto_ok cr" and c: "certifies cr pem key key'" and i: "certifies cr pem' key' signer"
  shows "isSignedBy cr (block_of pem) (block_of pem')" and "isSignedBy cr (block_of pem) pem'"
proof -
  obtain n rsa len tbs' where k: "key' = snd (cr_keypair cr n rsa len)" and t': "tb_publicKey tbs' = fst (cr_keypair cr n rsa len)"
    and p': "pem' = cr_sign cr tbs' signer"
    using i by (auto simp: certifies_def)
  obtain tbs where p: "pem = cr_sign cr tbs key'" using c by (auto simp: certifies_def)
  have v: "cr_verify cr pem pem' = Some True"
    using ok t' unfolding crypto_ok_def p p' k by blast
  obtain b x where b: "dashless b" "dashless x" "pem = pem_block b @ x" "block_of pem = pem_block b"
    using certified_form [OF ok c] .
  obtain b' x' where b': "dashless b'" "dashless x'" "pem' = pem_block b' @ x'" "block_of pem' = pem_block b'"
    using certified_form [OF ok i] .
  have r: "\<And>q. cr_verify cr pem q = cr_verify cr (block_of pem) q" "\<And>q. cr_verify cr q pem' = cr_verify cr q (block_of pem')"
    using ok b b' unfolding crypto_ok_def by simp_all
  show "isSignedBy cr (block_of pem) (block_of pem')" and "isSignedBy cr (block_of pem) pem'"
    using v unfolding isSignedBy_def r by simp_all
qed

section \<open>A full chain\<close>

lemma slash_free_kinds: "CHR ''/'' \<notin> set ''Root''" "CHR ''/'' \<notin> set ''SubCA''" "CHR ''/'' \<notin> set ''Leaf''"
  by simp_all

lemma issued_from: "only_asks s s0 \<Longrightarrow> issued cr dir t fp ty n p k st s0 s' \<Longrightarrow> issued cr dir t fp ty n p k st s s'"
  by (simp add: issued_def only_asks_def)

lemma previous_root_runs: "resolvePreviousRoot cr dir t rq cfg s = (Inr x, s') \<Longrightarrow> s' = s"
  by (auto simp: resolvePreviousRoot_def op_runs split: option.splits)

lemma issue_root_runs:
  assumes "issue_root cr dir t cfg rq s = (Inr (n, pem, key, anchor), s')"
  shows "\<exists>signer. certifies cr pem key signer \<and> issued cr dir t (rq_filePath rq) ''Root'' n pem key anchor s s'"
proof -
  obtain prev s1 e s2 where p: "(case cfg of
                Some c \<Rightarrow> if rq_signWithPreviousRoot rq = Some False then ret None else resolvePreviousRoot cr dir t rq c
              | None \<Rightarrow> ret None) s = (Inr prev, s1)"
    and n: "n = cr_clock cr (cs_asked s1)"
    and e: "buildRootEntity cr rq n (s1\<lparr> cs_asked := Suc (cs_asked s1) \<rparr>) = (Inr e, s2)"
    and g: "issue cr dir t (case prev of Some (_, _, i) \<Rightarrow> e\<lparr> ce_signedBy := Some i \<rparr> | None \<Rightarrow> e)
       (map_option (\<lambda>(certPem, keyPem, _). (keyPem, certPem)) prev) ''Root'' (rq_filePath rq) s2 = (Inr (pem, key, anchor), s')"
    using assms by (auto simp: issue_root_def op_runs)
  have "s1 = s" using p previous_root_runs by (auto simp: op_runs split: option.splits if_splits)
  then have a: "only_asks s s2" and en: "ce_serialNumber e = n" using build_entities(1) [OF e] by (simp_all add: only_asks_def)
  have "ce_serialNumber (case prev of Some (_, _, i) \<Rightarrow> e\<lparr> ce_signedBy := Some i \<rparr> | None \<Rightarrow> e) = n"
    using en by (auto split: option.split)
  then show ?thesis using issue_runs(1,2) [OF g] issued_from [OF a] by (metis (no_types, lifting) slash_free_kinds(1))
qed

lemma issue_sub_ca_runs:
  assumes "issue_sub_ca cr dir t cfg rq s = (Inr (pem, key, sub, anchor), s')" and self: "rq_selfSigned rq \<noteq> Some False"
  shows "\<exists>n r rootPem rootKey rootSigner s1. anchor = Some r
     \<and> certifies cr rootPem rootKey rootSigner \<and> issued cr dir t (rq_filePath rq) ''Root'' n rootPem rootKey r s s1
     \<and> certifies cr pem key rootKey \<and> issued cr dir t (rq_filePath rq) ''SubCA'' (n + 1) pem key sub s1 s'
     \<and> ce_signedBy sub = Some (ce_id r)"
proof -
  obtain n rootPem rootKey r s1 e s2 where i: "issue_root cr dir t cfg rq s = (Inr (n, rootPem, rootKey, r), s1)"
    and e: "buildSubCAEntity cr rq (ce_id r) (n + 1) s1 = (Inr e, s2)"
    and g: "issue cr dir t e (Some (rootKey, rootPem)) ''SubCA'' (rq_filePath rq) s2 = (Inr (pem, key, sub), s')"
    and anchor: "anchor = Some r"
    using assms by (auto simp: issue_sub_ca_def op_runs)
  obtain signer where r: "certifies cr rootPem rootKey signer" "issued cr dir t (rq_filePath rq) ''Root'' n rootPem rootKey r s s1"
    using issue_root_runs [OF i] by blast
  have b: "only_asks s1 s2" "ce_serialNumber e = n + 1" "ce_signedBy e = Some (ce_id r)"
    using build_entities(2) [OF e] by simp_all
  note c = issue_runs [OF g slash_free_kinds(2)]
  have sub: "issued cr dir t (rq_filePath rq) ''SubCA'' (n + 1) pem key sub s1 s'"
    using issued_from [OF b(1) c(1)] by (simp only: b(2))
  have "certifies cr pem key rootKey" and "ce_signedBy sub = Some (ce_id r)" using c(2) c(3) [OF b(3)] by simp_all
  with r sub anchor show ?thesis by blast
qed


text \<open>Rows with another serial number stay.\<close>

lemma save_keeps:
  assumes "createOrUpdateCertificate t c s = (Inr x, s')" and "r \<in> set (cs_certificates s)"
    and "ce_serialNumber r \<noteq> ce_serialNumber c"
  shows "r \<in> set (cs_certificates s')"
proof -
  have u: "r \<in> set (update_rows P f (cs_certificates s))" if "\<not> P r" for P f
    using assms(2) that unfolding update_rows_def by (auto intro!: image_eqI [where x = r])
  show ?thesis
    using assms u unfolding createOrUpdateCertificate_def Let_def
    by (auto split: option.splits if_splits)
qed

lemma issue_keeps:
  assumes "issue cr dir t entity issuer ty fp s = (Inr x, s')" and "r \<in> set (cs_certificates s)"
    and "ce_serialNumber r \<noteq> ce_serialNumber entity"
  shows "r \<in> set (cs_certificates s')"
proof -
  obtain certPem keyPem st where x: "x = (certPem, keyPem, st)" by (metis prod_cases3)
  obtain s1 where g: "generateCertificate cr entity (map_option fst issuer) (map_option snd issuer) s = (Inr (certPem, keyPem), s1)"
    and st: "storeCertificateAndKey cr dir t entity certPem keyPem ty fp s1 = (Inr st, s')"
    using assms(1) by (auto simp: issue_def op_runs x)
  have r1: "r \<in> set (cs_certificates s1)" using generate_runs(1) [OF g] assms(2) by (simp add: only_asks_def)
  obtain e2 s2 y where "createOrUpdateCertificate t e2 s2 = (Inr y, s')" and "cs_certificates s2 = cs_certificates s1"
    and "ce_serialNumber e2 = ce_serialNumber entity"
    using st by (auto simp: storeCertificateAndKey_names op_runs)
  then show ?thesis using save_keeps [of t e2 s2 y s' r] r1 assms(3) by simp
qed

lemma issue_leaf_keeps:
  assumes "issue_leaf cr dir t rq i n key pem s = (Inr x, s')" and "r \<in> set (cs_certificates s)"
    and "ce_serialNumber r \<noteq> n"
  shows "r \<in> set (cs_certificates s')"
proof -
  obtain e s0 y s1 z s2 where e: "buildLeafEntity cr rq i n s = (Inr e, s0)"
    and g: "issue cr dir t e (Some (key, pem)) ''Leaf'' (rq_filePath rq) s0 = (Inr y, s1)"
    and c: "cs_certificates s' = cs_certificates s1"
    using assms(1) by (auto simp: issue_leaf_def saveChainFile_def op_runs)
  have "r \<in> set (cs_certificates s0)" "ce_serialNumber r \<noteq> ce_serialNumber e"
    using build_entities(3) [OF e] assms(2,3) by (simp_all add: only_asks_def)
  from issue_keeps [OF g this] show ?thesis by (simp only: c)
qed

text \<open>What a path of a configuration holds.\<close>

definition stored :: "string list \<Rightarrow> chain_state \<Rightarrow> string option \<Rightarrow> string \<Rightarrow> bool" where
  "stored dir s path content \<longleftrightarrow>
     (\<exists>p. path = Some p \<and> validatePath p = None \<and> cs_files s (resolvePath dir p) = Some content)"

lemma issued_files:
  assumes "issued cr dir t fp ty n pem key st s s'" and "CHR ''/'' \<notin> set ty"
  shows "stored dir s' (ce_privateKeyFileId st) key" and "stored dir s' (ce_certificateFileId st) pem"
proof -
  have d: "pem_name (ty @ ''_Key_'') n \<noteq> pem_name (ty @ ''_Certificate_'') n" by (simp add: pem_name_def)
  show "stored dir s' (ce_privateKeyFileId st) key" and "stored dir s' (ce_certificateFileId st) pem"
    using assms d by (simp_all add: stored_def issued_def resolve_pem)
qed

text \<open>Files of another kind stay.\<close>

lemma issued_others:
  assumes "issued cr dir t fp ty n pem key st s s'" and "stored dir s (Some (key_prefix fp @ pem_name kind m)) x"
    and "CHR ''/'' \<notin> set kind" "3 \<le> length kind"
    and "pem_name kind m \<noteq> pem_name (ty @ ''_Key_'') n" "pem_name kind m \<noteq> pem_name (ty @ ''_Certificate_'') n"
  shows "stored dir s' (Some (key_prefix fp @ pem_name kind m)) x"
  using assms by (simp add: stored_def issued_def resolve_pem)


text \<open>A leaf below a sub-CA: its files, its row and the chain file.\<close>

lemma leaf_runs:
  assumes "issue_leaf cr dir t rq i n key pem s = (Inr (leaf, chainPath), s')"
  shows "\<exists>leafPem leafKey s1. certifies cr leafPem leafKey key
      \<and> issued cr dir t (rq_filePath rq) ''Leaf'' n leafPem leafKey leaf s s1
      \<and> cs_certificates s' = cs_certificates s1
      \<and> cs_files s' = (cs_files s1)(request_dir dir (rq_filePath rq) @ [pem_name ''Cert_Chain_'' n] \<mapsto> leafPem @ pem)
      \<and> chainPath = key_prefix (rq_filePath rq) @ pem_name ''Cert_Chain_'' n
      \<and> stored dir s' (Some chainPath) (leafPem @ pem)
      \<and> ce_signedBy leaf = Some i"
proof -
  obtain e s0 leafPem leafKey s1 where e: "buildLeafEntity cr rq i n s = (Inr e, s0)"
    and g: "issue cr dir t e (Some (key, pem)) ''Leaf'' (rq_filePath rq) s0 = (Inr (leafPem, leafKey, leaf), s1)"
    and c: "saveChainFile dir (leafPem @ pem) (ce_serialNumber leaf) (rq_filePath rq) s1 = (Inr chainPath, s')"
    using assms by (auto simp: issue_leaf_def op_runs)
  have b: "only_asks s s0" "ce_serialNumber e = n" "ce_signedBy e = Some i" using build_entities(3) [OF e] by simp_all
  note r = issue_runs [OF g slash_free_kinds(3)]
  have iss: "issued cr dir t (rq_filePath rq) ''Leaf'' n leafPem leafKey leaf s s1"
    using issued_from [OF b(1) r(1)] by (simp only: b(2))
  have n: "ce_serialNumber leaf = n" using iss by (simp add: issued_def)
  have "saveChainFile dir (leafPem @ pem) n (rq_filePath rq) = save_file dir (key_prefix (rq_filePath rq) @ pem_name ''Cert_Chain_'' n) (leafPem @ pem)"
    by (simp add: saveChainFile_def pem_name_def)
  with c have p: "chainPath = key_prefix (rq_filePath rq) @ pem_name ''Cert_Chain_'' n" "validatePath chainPath = None"
    and s': "s' = s1\<lparr> cs_files := (cs_files s1)(request_dir dir (rq_filePath rq) @ [pem_name ''Cert_Chain_'' n] \<mapsto> leafPem @ pem) \<rparr>"
    by (simp_all add: n op_runs resolve_pem)
  have "stored dir s' (Some chainPath) (leafPem @ pem)"
    using p(2) unfolding stored_def s' p(1) by (simp add: resolve_pem)
  moreover have "certifies cr leafPem leafKey key" using r(2) by simp
  ultimately show ?thesis using iss p s' r(3) [OF b(3)]
    by (intro exI [of _ leafPem] exI [of _ leafKey] exI [of _ s1]) simp
qed

text \<open>Issuing a leaf leaves the files of other kinds as they are.\<close>

lemma leaf_others:
  assumes "issue_leaf cr dir t rq i n key pem s = (Inr (leaf, chainPath), s')"
    and "stored dir s (Some (key_prefix (rq_filePath rq) @ pem_name (ty @ what) m)) x" and "ty \<in> {''Root'', ''SubCA''}"
    and "what \<in> {''_Key_'', ''_Certificate_''}"
  shows "stored dir s' (Some (key_prefix (rq_filePath rq) @ pem_name (ty @ what) m)) x"
proof -
  obtain leafPem leafKey s1 where i: "issued cr dir t (rq_filePath rq) ''Leaf'' n leafPem leafKey leaf s s1"
    and f: "cs_files s' = (cs_files s1)(request_dir dir (rq_filePath rq) @ [pem_name ''Cert_Chain_'' n] \<mapsto> leafPem @ pem)"
    using leaf_runs [OF assms(1)] by blast
  have k: "CHR ''/'' \<notin> set (ty @ what)" "3 \<le> length (ty @ what)" using assms(3,4) by auto
  have d: "pem_name (ty @ what) m \<noteq> pem_name (''Leaf'' @ ''_Key_'') n"
    "pem_name (ty @ what) m \<noteq> pem_name (''Leaf'' @ ''_Certificate_'') n"
    "pem_name (ty @ what) m \<noteq> pem_name ''Cert_Chain_'' n"
    using assms(3) by (auto simp: pem_name_def)
  have "stored dir s1 (Some (key_prefix (rq_filePath rq) @ pem_name (ty @ what) m)) x"
    by (rule issued_others [OF i assms(2) k d(1,2)])
  then show ?thesis using d(3) k by (simp add: stored_def f resolve_pem)
qed

text \<open>The leaf's own files are there when the chain file has been written.\<close>

lemma leaf_files:
  assumes "issue_leaf cr dir t rq i n key pem s = (Inr (leaf, chainPath), s')"
  shows "\<exists>leafPem leafKey. certifies cr leafPem leafKey key \<and> stored dir s' (Some chainPath) (leafPem @ pem)
      \<and> stored dir s' (ce_privateKeyFileId leaf) leafKey \<and> stored dir s' (ce_certificateFileId leaf) leafPem
      \<and> leaf \<in> set (cs_certificates s') \<and> ce_signedBy leaf = Some i
      \<and> (table_ok (cs_certificates s) \<longrightarrow> table_ok (cs_certificates s'))"
proof -
  obtain leafPem leafKey s1 where c: "certifies cr leafPem leafKey key"
    and i: "issued cr dir t (rq_filePath rq) ''Leaf'' n leafPem leafKey leaf s s1"
    and s': "cs_certificates s' = cs_certificates s1"
      "cs_files s' = (cs_files s1)(request_dir dir (rq_filePath rq) @ [pem_name ''Cert_Chain_'' n] \<mapsto> leafPem @ pem)"
    and ch: "stored dir s' (Some chainPath) (leafPem @ pem)" "ce_signedBy leaf = Some i"
    using leaf_runs [OF assms] by blast
  have o: "stored dir s' (Some (key_prefix (rq_filePath rq) @ pem_name (''Leaf'' @ what) n)) x"
    if "stored dir s1 (Some (key_prefix (rq_filePath rq) @ pem_name (''Leaf'' @ what) n)) x"
      "CHR ''/'' \<notin> set (''Leaf'' @ what)" for what x
  proof -
    have "pem_name (''Leaf'' @ what) n \<noteq> pem_name ''Cert_Chain_'' n" by (simp add: pem_name_def)
    then show ?thesis using that unfolding stored_def s'(2) by (simp add: resolve_pem del: append_Cons)
  qed
  have id: "ce_privateKeyFileId leaf = Some (key_prefix (rq_filePath rq) @ pem_name (''Leaf'' @ ''_Key_'') n)"
    "ce_certificateFileId leaf = Some (key_prefix (rq_filePath rq) @ pem_name (''Leaf'' @ ''_Certificate_'') n)"
    using i unfolding issued_def by blast+
  note f = issued_files [OF i slash_free_kinds(3), unfolded id]
  have "stored dir s' (ce_privateKeyFileId leaf) leafKey" "stored dir s' (ce_certificateFileId leaf) leafPem"
    using o [OF f(1)] o [OF f(2)] unfolding id by simp_all
  then show ?thesis using c ch i s'(1) by (auto simp: issued_def)
qed


text \<open>
  All that a self-signed full chain leaves behind: three certificates, each with the key of the
  one above it, their files at the paths of the result, and their rows.
\<close>

lemma full_chain_runs:
  assumes g: "generateFullChain cr dir t cfg rq s = (Inr r, s')" and self: "rq_selfSigned rq \<noteq> Some False"
  obtains leaf sub anchor leafPem leafKey subPem subKey rootPem rootKey signer where
    "cn_certificates r = [leaf, sub, anchor]"
    "certifies cr leafPem leafKey subKey" "certifies cr subPem subKey rootKey" "certifies cr rootPem rootKey signer"
    "stored dir s' (Some (cn_chainPath r)) (leafPem @ subPem)"
    "stored dir s' (Some (cn_keyPath r)) leafKey"
    "stored dir s' (cn_mtlsKeyPath r) subKey" "cn_mtlsKeyPath r = ce_privateKeyFileId sub"
    "stored dir s' (cn_rootPath r) rootPem" "stored dir s' (ce_privateKeyFileId anchor) rootKey"
    "ce_signedBy leaf = Some (ce_id sub)" "ce_signedBy sub = Some (ce_id anchor)"
    "sub \<in> set (cs_certificates s')" "ce_tenantId sub = t" "ce_certificateFileHash sub = cr_hash cr subPem"
    "cr_hash cr subPem \<noteq> None"
    "table_ok (cs_certificates s) \<longrightarrow> table_ok (cs_certificates s')"
proof -
  let ?fp = "rq_filePath rq"
  obtain subPem subKey sub optroot s2 leaf chainPath where
    c: "issue_sub_ca cr dir t cfg rq s = (Inr (subPem, subKey, sub, optroot), s2)"
    and l: "issue_leaf cr dir t rq (ce_id sub) (ce_serialNumber sub + 1) subKey subPem s2 = (Inr (leaf, chainPath), s')"
    and r: "r = \<lparr> cn_certificates = [leaf, sub] @ (case optroot of Some r \<Rightarrow> [r] | None \<Rightarrow> []),
           cn_keyPath = text_of (ce_privateKeyFileId leaf), cn_chainPath = chainPath,
           cn_mtlsKeyPath = Some (text_of (ce_privateKeyFileId sub)),
           cn_rootPath = map_option (\<lambda>r. text_of (ce_certificateFileId r)) optroot \<rparr>"
    using g by (auto simp: generateFullChain_def op_runs)
  obtain n anchor rootPem rootKey signer s1 where o: "optroot = Some anchor"
    and rt: "certifies cr rootPem rootKey signer" "issued cr dir t ?fp ''Root'' n rootPem rootKey anchor s s1"
    and sb: "certifies cr subPem subKey rootKey" "issued cr dir t ?fp ''SubCA'' (n + 1) subPem subKey sub s1 s2"
    and sg: "ce_signedBy sub = Some (ce_id anchor)"
    using issue_sub_ca_runs [OF c self] by blast
  obtain leafPem leafKey where lf: "certifies cr leafPem leafKey subKey" "stored dir s' (Some chainPath) (leafPem @ subPem)"
    "stored dir s' (ce_privateKeyFileId leaf) leafKey" "ce_signedBy leaf = Some (ce_id sub)"
    and ok: "table_ok (cs_certificates s2) \<longrightarrow> table_ok (cs_certificates s')"
    using leaf_files [OF l] by blast
  have ids: "ce_privateKeyFileId anchor = Some (key_prefix ?fp @ pem_name (''Root'' @ ''_Key_'') n)"
    "ce_certificateFileId anchor = Some (key_prefix ?fp @ pem_name (''Root'' @ ''_Certificate_'') n)"
    "ce_privateKeyFileId sub = Some (key_prefix ?fp @ pem_name (''SubCA'' @ ''_Key_'') (n + 1))"
    using rt(2) sb(2) unfolding issued_def by blast+
  note rf = issued_files [OF rt(2) slash_free_kinds(1), unfolded ids]
  note sf = issued_files(1) [OF sb(2) slash_free_kinds(2), unfolded ids]
  have rk: "stored dir s2 (Some (key_prefix ?fp @ pem_name (''Root'' @ ''_Key_'') n)) rootKey"
    by (rule issued_others [OF sb(2) rf(1)]) (simp_all add: pem_name_def)
  have rp: "stored dir s2 (Some (key_prefix ?fp @ pem_name (''Root'' @ ''_Certificate_'') n)) rootPem"
    by (rule issued_others [OF sb(2) rf(2)]) (simp_all add: pem_name_def)
  have kept: "stored dir s' (ce_privateKeyFileId anchor) rootKey" "stored dir s' (ce_certificateFileId anchor) rootPem"
    "stored dir s' (ce_privateKeyFileId sub) subKey"
    unfolding ids by (rule leaf_others [OF l rk], simp, simp, rule leaf_others [OF l rp], simp, simp, rule leaf_others [OF l sf], simp, simp)
  have row: "sub \<in> set (cs_certificates s2)" "ce_tenantId sub = t" "ce_certificateFileHash sub = cr_hash cr subPem"
    "cr_hash cr subPem \<noteq> None"
    using sb(2) unfolding issued_def by blast+
  have subrow: "sub \<in> set (cs_certificates s')" by (rule issue_leaf_keeps [OF l row(1)]) simp
  have tables: "table_ok (cs_certificates s) \<longrightarrow> table_ok (cs_certificates s')"
    using ok rt(2) sb(2) unfolding issued_def by blast
  have some: "Some (text_of x) = x" if "stored dir s' x y" for x y using that by (auto simp: stored_def text_of_def)
  have paths: "Some (cn_chainPath r) = Some chainPath" "Some (cn_keyPath r) = ce_privateKeyFileId leaf"
    "cn_mtlsKeyPath r = ce_privateKeyFileId sub" "cn_rootPath r = ce_certificateFileId anchor"
    using some [OF lf(3)] some [OF kept(3)] some [OF kept(2)] by (simp_all add: r o)
  show thesis
    by (rule that [OF _ lf(1) sb(1) rt(1)], unfold paths) (use lf kept row subrow sg tables in \<open>simp_all add: r o\<close>)
qed

text \<open>A full chain that is not signed by an external CA verifies up to its root.\<close>

definition trusted_chain :: "crypto \<Rightarrow> string list \<Rightarrow> chain_state \<Rightarrow> chain_result \<Rightarrow> bool" where
  "trusted_chain cr dir s' r \<longleftrightarrow> (\<exists>leaf sub anchor leafPem leafKey subPem subKey rootPem rootKey.
      cn_certificates r = [leaf, sub, anchor]
    \<and> stored dir s' (Some (cn_chainPath r)) (leafPem @ subPem)
    \<and> parseCertificateChainPem (leafPem @ subPem) = [block_of leafPem, block_of subPem]
    \<and> stored dir s' (cn_rootPath r) rootPem
    \<and> isSignedBy cr (block_of leafPem) (block_of subPem) \<and> isSignedBy cr (block_of subPem) rootPem
    \<and> stored dir s' (Some (cn_keyPath r)) leafKey \<and> certifies cr leafPem leafKey subKey
    \<and> stored dir s' (cn_mtlsKeyPath r) subKey \<and> certifies cr subPem subKey rootKey
    \<and> ce_signedBy leaf = Some (ce_id sub) \<and> ce_signedBy sub = Some (ce_id anchor))"

lemma full_chain_trusted:
  assumes "crypto_ok cr" and "rq_selfSigned rq \<noteq> Some False"
    and "generateFullChain cr dir t cfg rq s = (Inr r, s')"
  shows "trusted_chain cr dir s' r"
proof (rule full_chain_runs [OF assms(3,2)])
  fix leaf sub anchor leafPem leafKey subPem subKey rootPem rootKey signer
  assume c: "certifies cr leafPem leafKey subKey" "certifies cr subPem subKey rootKey" "certifies cr rootPem rootKey signer"
    and rest: "cn_certificates r = [leaf, sub, anchor]" "stored dir s' (Some (cn_chainPath r)) (leafPem @ subPem)"
      "stored dir s' (Some (cn_keyPath r)) leafKey" "stored dir s' (cn_mtlsKeyPath r) subKey"
      "stored dir s' (cn_rootPath r) rootPem"
      "ce_signedBy leaf = Some (ce_id sub)" "ce_signedBy sub = Some (ce_id anchor)"
  show ?thesis
    unfolding trusted_chain_def
    using rest c(1,2) certified_chain [OF assms(1) c(1,2)] certified_below(1) [OF assms(1) c(1,2)]
      certified_below(2) [OF assms(1) c(2,3)]
    by blast
qed

section \<open>The endpoint\<close>

definition has_paths :: "chain_result \<Rightarrow> tls_server \<Rightarrow> bool" where
  "has_paths r w \<longleftrightarrow> sc_keyPath w = Some (cn_keyPath r) \<and> sc_chainPath w = Some (cn_chainPath r)"

lemma in_update_first:
  assumes "distinct (map sc_id ws)" and "w \<in> set (update_first (\<lambda>w. sc_id w = i) (apply_paths r) ws)"
  shows "(w \<in> set ws \<and> sc_id w \<noteq> i) \<or> (has_paths r w \<and> sc_id w = i \<and> (\<exists>w0 \<in> set ws. sc_id w0 = i))"
  using assms
proof (induction ws)
  case (Cons x xs)
  have p: "sc_id (apply_paths r x) = sc_id x" "has_paths r (apply_paths r x)" by (simp_all add: apply_paths_def has_paths_def)
  show ?case
  proof (cases "sc_id x = i")
    case True
    then have "w = apply_paths r x \<or> w \<in> set xs" using Cons.prems(2) by simp
    moreover have "sc_id y \<noteq> i" if "y \<in> set xs" for y using Cons.prems(1) True that by (auto simp: image_iff)
    ultimately show ?thesis using p True by auto
  next
    case False
    then show ?thesis using Cons by auto
  qed
qed simp

lemma update_first_ids:
  "map sc_id (update_first (\<lambda>w. sc_id w = i) (apply_paths r) ws) = map sc_id ws"
  by (induction ws) (auto simp: apply_paths_def)

lemma in_assign_paths:
  assumes "distinct (map sc_id ws)" and "w \<in> set (assign_paths r g ws)"
  shows "(w \<in> set ws \<and> sc_id w \<notin> sc_id ` set g) \<or> (has_paths r w \<and> sc_id w \<in> sc_id ` set g)"
  using assms
proof (induction g arbitrary: ws)
  case (Cons c g)
  let ?ws = "update_first (\<lambda>w. sc_id w = sc_id c) (apply_paths r) ws"
  have d: "distinct (map sc_id ?ws)" using Cons.prems(1) by (simp only: update_first_ids)
  have "(w \<in> set ?ws \<and> sc_id w \<notin> sc_id ` set g) \<or> (has_paths r w \<and> sc_id w \<in> sc_id ` set g)"
    using Cons.IH [OF d] Cons.prems(2) by simp
  then show ?case using in_update_first [OF Cons.prems(1)] by fastforce
qed simp

lemma requested_ids: "requested_servers ws is = Inr cs \<Longrightarrow> map sc_id cs = is"
  by (induction "is" arbitrary: cs) (auto split: option.splits if_splits sum.splits dest!: find_SomeD)

lemma endpoint_full_chain_runs:
  assumes "generateCertificateChain_endpoint cr dir t (Some is) rq s = (Inr (Per_server rows), s')"
    and "rq_generationScope rq = Some FullChain_scope"
  obtains r cfg cfgs where "generateFullChain cr dir t (Some cfg) rq (as_chain s) = (Inr r, as_chain s')"
    "as_servers s' = assign_paths r cfgs (as_servers s)" "map sc_id cfgs = is" "rows = [(is, cn_certificates r)]"
proof -
  obtain cfgs where c: "requested_servers (as_servers s) is = Inr cfgs"
    using assms by (auto simp: generateCertificateChain_endpoint_def split: sum.splits)
  let ?cfg = "server_named (as_servers s) (hd cfgs)"
  have "groupServersForGeneration cr dir t cfgs FullChain_scope (as_chain s) = (Inr [cfgs], as_chain s)"
    by (simp add: groupServersForGeneration_def ret_def)
  then have g: "regenerate_groups cr dir t rq [cfgs] s = (Inr rows, s')"
    using assms c by (auto simp: generateCertificateChain_endpoint_def split: sum.splits prod.splits)
  obtain r ch where r: "generateFullChain cr dir t (Some ?cfg) rq (as_chain s) = (Inr r, ch)"
    using g assms(2) by (auto simp: generateCertificateChain_def split: sum.splits prod.splits)
  then have s': "s' = take_over r cfgs (s\<lparr> as_chain := ch \<rparr>)" "rows = [(map sc_id cfgs, cn_certificates r)]"
    using g assms(2) by (simp_all add: generateCertificateChain_def)
  have "as_chain s' = ch" "as_servers s' = assign_paths r cfgs (as_servers s)"
    by (simp_all add: s' take_over_def Let_def)
  then show thesis using that r requested_ids [OF c] s'(2) by simp
qed

text \<open>C20. 
  C0. When the endpoint has generated a full chain that is not signed by an external CA, every
  server of the configuration that was asked for refers to one chain that verifies up to its
  root, with matching keys, and every other server is as before: the chain file splits into the
  blocks of a leaf and a sub-CA, the leaf is signed by the sub-CA and the sub-CA by the root in
  the root file, and the key files hold the private keys of leaf and sub-CA.
\<close>

theorem requested_servers_get_trusted_chain:
  assumes "crypto_ok cr" and "rq_selfSigned rq \<noteq> Some False" and "rq_generationScope rq = Some FullChain_scope"
    and "distinct (map sc_id (as_servers s))"
    and "generateCertificateChain_endpoint cr dir t (Some is) rq s = (Inr (Per_server rows), s')"
  shows "\<exists>r. rows = [(is, cn_certificates r)] \<and> trusted_chain cr dir (as_chain s') r
    \<and> (\<forall>w \<in> set (as_servers s'). if sc_id w \<in> set is then has_paths r w else w \<in> set (as_servers s))"
proof (rule endpoint_full_chain_runs [OF assms(5,3)])
  fix r cfg cfgs
  assume g: "generateFullChain cr dir t (Some cfg) rq (as_chain s) = (Inr r, as_chain s')"
    and a: "as_servers s' = assign_paths r cfgs (as_servers s)" "map sc_id cfgs = is" "rows = [(is, cn_certificates r)]"
  have "trusted_chain cr dir (as_chain s') r" by (rule full_chain_trusted [OF assms(1,2) g])
  moreover have "sc_id ` set cfgs = set is" using a(2) by (simp flip: set_map)
  ultimately show ?thesis
    using a(3) in_assign_paths [OF assms(4), of _ r cfgs] unfolding a(1) by metis
qed


section \<open>Regenerating the leaf\<close>

lemma chain_with_block:
  assumes "crypto_ok cr" and "certifies cr pem key signer" and "certifies cr pem' key' signer'"
  shows "parseCertificateChainPem (pem @ block_of pem') = [block_of pem, block_of pem']"
proof -
  obtain b x where b: "dashless b" "dashless x" "pem = pem_block b @ x" "block_of pem = pem_block b"
    using certified_form [OF assms(1,2)] .
  obtain b' x' where b': "dashless b'" "dashless x'" "pem' = pem_block b' @ x'" "block_of pem' = pem_block b'"
    using certified_form [OF assms(1,3)] .
  have e: "dashless []" by (simp add: dashless_def)
  show ?thesis using parse_two_blocks [OF b(1,2) b'(1) e] b(3,4) b'(4) by simp
qed

lemma current_sub_ca:
  assumes "readCurrentSubCACertPem dir cfg s = (Inr x, s')" and "sc_chainPath cfg = Some p"
    and "stored dir s (Some p) chain" and "parseCertificateChainPem chain = [b, b']"
  shows "x = b'" and "s' = s"
  using assms by (auto simp: readCurrentSubCACertPem_def op_runs stored_def nonempty_def split: if_splits)

lemma found_by_hash:
  assumes f: "findCertificateByPem cr t pem i s = (Inr r, s')" and ok: "table_ok (cs_certificates s)"
    and sub: "sub \<in> set (cs_certificates s)" "ce_tenantId sub = t" "ce_certificateFileHash sub = cr_hash cr pem"
  shows "r = sub" and "s' = s"
proof -
  obtain h where h: "cr_hash cr pem = Some h"
    and one: "read_only_one (\<lambda>c. ce_tenantId c = t \<and> ce_certificateFileHash c = Some h) (cs_certificates s) = Inr (Some r)"
    and s': "s' = s"
    using f by (auto simp: findCertificateByPem_def op_runs)
  have "r \<in> set (cs_certificates s)" "clashes r sub"
    using read_only_one_in [OF one] sub h by (auto simp: clashes_def)
  with sub(1) show "r = sub" by (intro table_okD [OF ok])
  show "s' = s" by (rule s')
qed

lemma leaf_only_runs:
  assumes g: "generateLeafOnly cr dir t cfg rq s = (Inr r, s')"
    and p: "sc_chainPath cfg = Some p" "stored dir s (Some p) chain" "parseCertificateChainPem chain = [b, b']"
    and ok: "table_ok (cs_certificates s)"
    and sub: "sub \<in> set (cs_certificates s)" "ce_tenantId sub = t" "ce_certificateFileHash sub = cr_hash cr b'"
      "stored dir s (ce_privateKeyFileId sub) key"
  shows "\<exists>leaf n s1. issue_leaf cr dir t rq (ce_id sub) n key b' s1 = (Inr (leaf, cn_chainPath r), s')
     \<and> cs_certificates s1 = cs_certificates s \<and> cs_files s1 = cs_files s
     \<and> cn_certificates r = [leaf] \<and> cn_keyPath r = text_of (ce_privateKeyFileId leaf)"
proof -
  obtain x s1 y s2 keyPath key' leaf chainPath n where x: "readCurrentSubCACertPem dir cfg s = (Inr x, s1)"
    and y: "findCertificateByPem cr t x (sc_id cfg) s1 = (Inr y, s2)"
    and k: "nonempty (ce_privateKeyFileId y) = Some keyPath" "cs_files s2 (resolvePath dir keyPath) = Some key'"
    and i: "issue_leaf cr dir t rq (ce_id y) n key' x (s2\<lparr> cs_asked := Suc (cs_asked s2) \<rparr>) = (Inr (leaf, chainPath), s')"
    and r: "r = \<lparr> cn_certificates = [leaf], cn_keyPath = text_of (ce_privateKeyFileId leaf),
           cn_chainPath = chainPath, cn_mtlsKeyPath = None, cn_rootPath = None \<rparr>"
    using g by (auto simp: generateLeafOnly_def op_runs)
  have xs: "x = b'" "s1 = s" using current_sub_ca [OF x p] by simp_all
  have ys: "y = sub" "s2 = s" using found_by_hash [of cr t b' "sc_id cfg" s y s2 sub] y ok sub(1-3) unfolding xs by simp_all
  note k = k [unfolded ys] and i = i [unfolded xs ys]
  have "ce_privateKeyFileId sub = Some keyPath" using k(1) by (auto simp: nonempty_def split: option.splits if_splits)
  then have "key' = key" using k(2) sub(4) by (auto simp: stored_def)
  then show ?thesis using i r by (intro exI [of _ leaf] exI [of _ n] exI [of _ "s\<lparr> cs_asked := Suc (cs_asked s) \<rparr>"]) simp
qed

text \<open>C21. 
  C0. A leaf regeneration continues the chain a full generation established: for a server that
  took over the paths of the full chain, it finds the row of the current sub-CA by the hash of
  the second block of the chain file and reads its key, and the new chain file is a new leaf,
  signed by that sub-CA, and the same sub-CA block.
\<close>

theorem leaf_continues_chain:
  assumes "crypto_ok cr" and "table_ok (cs_certificates s)" and "rq_selfSigned rq \<noteq> Some False"
    and "generateFullChain cr dir t cfg rq s = (Inr r, s1)"
    and "generateLeafOnly cr dir t (apply_paths r c) rq' s1 = (Inr r', s2)"
  shows "\<exists>old sub anchor oldPem subPem subKey leaf leafPem leafKey.
      cn_certificates r = [old, sub, anchor] \<and> stored dir s1 (Some (cn_chainPath r)) (oldPem @ subPem)
    \<and> cn_certificates r' = [leaf] \<and> ce_signedBy leaf = Some (ce_id sub)
    \<and> stored dir s2 (Some (cn_chainPath r')) (leafPem @ block_of subPem)
    \<and> parseCertificateChainPem (leafPem @ block_of subPem) = [block_of leafPem, block_of subPem]
    \<and> isSignedBy cr (block_of leafPem) (block_of subPem)
    \<and> stored dir s2 (Some (cn_keyPath r')) leafKey \<and> certifies cr leafPem leafKey subKey"
proof (rule full_chain_runs [OF assms(4,3)])
  fix old sub anchor oldPem oldKey subPem subKey rootPem rootKey signer
  assume c: "certifies cr oldPem oldKey subKey" "certifies cr subPem subKey rootKey"
    and ch: "cn_certificates r = [old, sub, anchor]" "stored dir s1 (Some (cn_chainPath r)) (oldPem @ subPem)"
    and k: "stored dir s1 (cn_mtlsKeyPath r) subKey" "cn_mtlsKeyPath r = ce_privateKeyFileId sub"
    and row: "sub \<in> set (cs_certificates s1)" "ce_tenantId sub = t" "ce_certificateFileHash sub = cr_hash cr subPem"
    and ok: "table_ok (cs_certificates s) \<longrightarrow> table_ok (cs_certificates s1)"
  have p: "sc_chainPath (apply_paths r c) = Some (cn_chainPath r)" by (simp add: apply_paths_def)
  have h: "ce_certificateFileHash sub = cr_hash cr (block_of subPem)"
    using row(3) certified_hash [OF assms(1) c(2)] by simp
  obtain leaf n s0 where l: "issue_leaf cr dir t rq' (ce_id sub) n subKey (block_of subPem) s0 = (Inr (leaf, cn_chainPath r'), s2)"
    and r': "cn_certificates r' = [leaf]" "cn_keyPath r' = text_of (ce_privateKeyFileId leaf)"
    using leaf_only_runs [OF assms(5) p ch(2) certified_chain [OF assms(1) c] _ row(1,2) h k(1) [unfolded k(2)]]
      ok assms(2) by blast
  obtain leafPem leafKey where lf: "certifies cr leafPem leafKey subKey"
    "stored dir s2 (Some (cn_chainPath r')) (leafPem @ block_of subPem)"
    "stored dir s2 (ce_privateKeyFileId leaf) leafKey" "ce_signedBy leaf = Some (ce_id sub)"
    using leaf_files [OF l] by blast
  have "Some (cn_keyPath r') = ce_privateKeyFileId leaf" using lf(3) r'(2) by (auto simp: stored_def text_of_def)
  then have "stored dir s2 (Some (cn_keyPath r')) leafKey" using lf(3) by simp
  then show ?thesis
    using ch r'(1) lf chain_with_block [OF assms(1) lf(1) c(2)] certified_below(1) [OF assms(1) lf(1) c(2)] by blast
qed


section \<open>An instance\<close>

text \<open>Certificates that name a public key and a signing key, and are read back.\<close>

definition plain :: "string \<Rightarrow> string" where
  "plain s = filter (\<lambda>c. c \<noteq> CHR ''-'') s"

definition named_body :: "tbs \<Rightarrow> string \<Rightarrow> string" where
  "named_body tbs k = plain (tb_publicKey tbs) @ CHR ''|'' # plain k"

definition body_of :: "string \<Rightarrow> string" where
  "body_of pem = takeWhile (\<lambda>c. c \<noteq> CHR ''-'') (drop 27 pem)"

definition body_parts :: "string \<Rightarrow> string list" where
  "body_parts pem = split_on CHR ''|'' (body_of pem)"

definition named_crypto :: crypto where
  "named_crypto =
     \<lparr> cr_clock = (\<lambda>n. n),
       cr_keypair = (\<lambda>n _ _. (nat_str n, CHR ''K'' # nat_str n)),
       cr_sign = (\<lambda>tbs k. pem_block (named_body tbs k) @ '' ''),
       cr_hash = (\<lambda>pem. Some (hd (body_parts pem))),
       cr_subject = (\<lambda>_. Some ''subject''),
       cr_issuer = (\<lambda>_. Some ''issuer''),
       cr_notAfter = (\<lambda>_. None),
       cr_time = (\<lambda>_. 0),
       cr_addYear = (\<lambda>n. int n),
       cr_isoNextYear = (\<lambda>n. nat_str n),
       cr_verify = (\<lambda>c i. Some (last (body_parts c) = CHR ''K'' # hd (body_parts i))),
       cr_externalCA = (\<lambda>_ _. Inl (JsErr ''no external CA'' [])) \<rparr>"

lemma plain_dashless: "dashless (plain s)"
  by (simp add: dashless_def plain_def)

lemma plain_id: "dashless s \<Longrightarrow> plain s = s"
  unfolding dashless_def plain_def by (rule filter_True) blast

lemma takeWhile_to: "d \<notin> set b \<Longrightarrow> takeWhile (\<lambda>c. c \<noteq> d) (b @ d # r) = b"
  by (induction b) auto

lemma body_of_block:
  assumes "dashless b"
  shows "body_of (pem_block b @ rest) = b" and "body_of (pem_block b) = b"
proof -
  have l: "length begin_marker = 27" by (simp add: begin_marker_def)
  have "drop 27 (pem_block b @ r) = b @ CHR ''-'' # tl end_marker @ r" for r
    using markers(2) by (simp add: pem_block_def flip: l)
  then have "body_of (pem_block b @ r) = b" for r
    using assms by (simp add: body_of_def dashless_def takeWhile_to)
  from this [of rest] this [of "[]"] show "body_of (pem_block b @ rest) = b" and "body_of (pem_block b) = b" by simp_all
qed

lemma named_crypto_ok: "crypto_ok named_crypto"
proof -
  have d: "dashless (named_body tbs k)" for tbs k
    using plain_dashless by (simp add: named_body_def dashless_def)
  have n: "CHR ''|'' \<notin> set (nat_str n)" "dashless (nat_str n)" for n
    unfolding dashless_def by (rule nondigit_not_in_nat_str; simp add: digit_of_def)+
  have l: "last (split_on CHR ''|'' (named_body tbs (CHR ''K'' # nat_str n))) = CHR ''K'' # nat_str n" for tbs n
  proof -
    have "plain (CHR ''K'' # nat_str n) = CHR ''K'' # nat_str n" using n(2) by (intro plain_id) (simp add: dashless_def)
    then show ?thesis using n(1) by (simp add: named_body_def split_on_join split_on_free)
  qed
  have h: "hd (split_on CHR ''|'' (named_body tbs k)) = nat_str n" if "tb_publicKey tbs = nat_str n" for tbs k n
    using n that by (simp add: named_body_def split_on_join split_on_free plain_id)
  show ?thesis
    unfolding crypto_ok_def
  proof (intro conjI allI impI)
    fix tbs k
    show "\<exists>body rest. dashless body \<and> dashless rest \<and> cr_sign named_crypto tbs k = pem_block body @ rest"
      using d by (intro exI [of _ "named_body tbs k"] exI [of _ "'' ''"]) (simp add: named_crypto_def dashless_def)
  next
    fix body rest q
    assume "dashless body" "dashless rest"
    then show "cr_hash named_crypto (pem_block body @ rest) = cr_hash named_crypto (pem_block body)"
      and "cr_verify named_crypto (pem_block body @ rest) q = cr_verify named_crypto (pem_block body) q"
      and "cr_verify named_crypto q (pem_block body @ rest) = cr_verify named_crypto q (pem_block body)"
      by (simp_all add: named_crypto_def body_of_block body_parts_def)
  next
    fix tbs tbs' :: tbs and n rsa len k
    assume "tb_publicKey tbs' = fst (cr_keypair named_crypto n rsa len)"
    then show "cr_verify named_crypto (cr_sign named_crypto tbs (snd (cr_keypair named_crypto n rsa len))) (cr_sign named_crypto tbs' k) = Some True"
      using l h d by (simp add: named_crypto_def body_of_block body_parts_def)
  qed
qed

definition sample_request :: chain_request where
  "sample_request =
     \<lparr> rq_selfSigned = Some True, rq_organizationName = ''O'', rq_commonName = ''c'', rq_keyLength = None,
       rq_validBefore = None, rq_countryName = None, rq_signatureAlgorithm = None, rq_pathLen = None,
       rq_filePath = None, rq_generationScope = None, rq_signWithPreviousRoot = None,
       rq_overridePreviousRoot = None \<rparr>"

definition sample_server :: tls_server where
  "sample_server =
     \<lparr> sc_id = ''2'', sc_securityProfile = 3, sc_keyPath = None, sc_chainPath = None,
       sc_mtlsKeyPath = None, sc_rootPath = None \<rparr>"

definition empty_store :: chain_state where
  "empty_store = \<lparr> cs_certificates = [], cs_files = (\<lambda>_. None), cs_asked = 0 \<rparr>"

definition full_then_leaf :: "chain_state \<Rightarrow> bool" where
  "full_then_leaf s = (case generateFullChain named_crypto [] 1 None sample_request s of
     (Inr r, s1) \<Rightarrow> (case generateLeafOnly named_crypto [] 1 (apply_paths r sample_server) sample_request s1 of
        (Inr _, _) \<Rightarrow> True | _ \<Rightarrow> False) | _ \<Rightarrow> False)"

text \<open>Runs of the sample.\<close>

lemma valid_name:
  assumes "set name \<inter> {CHR 0x00, CHR ''/'', backslash, CHR '':''} = {}" and "name \<noteq> ''..''"
  shows "validatePath name = None"
proof -
  have "map unslash name = name" using assms(1) by (intro map_idI) (auto simp: unslash_def)
  then have "path_segments name = [name]" using assms(1) by (simp add: path_segments_def split_on_free)
  moreover have "\<not> drive_path name" using assms(1) by (auto simp: drive_path_def split: list.split)
  moreover have "hd name \<notin> {CHR ''/'', backslash}" if "name \<noteq> []" using assms(1) that by (cases name) auto
  then have "take 1 name \<noteq> ''/''" "take 1 name \<noteq> [backslash]" "take 2 name \<noteq> [backslash, backslash]"
    by (cases name; auto)+
  ultimately show ?thesis using assms by (auto simp: validatePath_def is_absolute_def)
qed

lemma valid_pem_name:
  assumes "set kind \<inter> {CHR 0x00, CHR ''/'', backslash, CHR '':''} = {}" and "3 \<le> length kind"
  shows "validatePath (pem_name kind n) = None"
proof (rule valid_name)
  have d: "c \<notin> set (nat_str n)" if "digit_of c = None" for c by (rule nondigit_not_in_nat_str [OF that])
  have "digit_of CHR 0x00 = None" "digit_of CHR ''/'' = None" "digit_of backslash = None" "digit_of CHR '':'' = None"
    by (simp_all add: digit_of_def backslash_def)
  from this [THEN d] assms(1)
  show "set (pem_name kind n) \<inter> {CHR 0x00, CHR ''/'', backslash, CHR '':''} = {}"
    by (auto simp: pem_name_def backslash_def)
  show "pem_name kind n \<noteq> ''..''" using pem_name_ok(2) [of kind n] assms by auto
qed

lemma key_hash:
  "hd (body_parts (pem_block (plain (nat_str n) @ CHR ''|'' # plain k) @ '' '')) = nat_str n"
  "hd (body_parts (pem_block (plain (nat_str n) @ CHR ''|'' # plain k))) = nat_str n"
proof -
  have n: "CHR ''|'' \<notin> set (nat_str n)" "dashless (nat_str n)"
    unfolding dashless_def by (rule nondigit_not_in_nat_str; simp add: digit_of_def)+
  have "dashless (plain (nat_str n) @ CHR ''|'' # plain k)" using plain_dashless by (simp add: dashless_def)
  then show "hd (body_parts (pem_block (plain (nat_str n) @ CHR ''|'' # plain k) @ '' '')) = nat_str n"
    and "hd (body_parts (pem_block (plain (nat_str n) @ CHR ''|'' # plain k))) = nat_str n"
    using n by (simp_all add: body_parts_def body_of_block plain_id split_on_join split_on_free)
qed

lemma saveChainFile_names:
  "saveChainFile dir c n fp = save_file dir (key_prefix fp @ pem_name ''Cert_Chain_'' n) c"
  by (simp add: saveChainFile_def pem_name_def)

lemma resolve_plain:
  "CHR ''/'' \<notin> set kind \<Longrightarrow> 3 \<le> length kind \<Longrightarrow> resolvePath [] (pem_name kind n) = [pem_name kind n]"
  using resolve_pem [of kind "[]" None n] by (simp add: key_prefix_def request_dir_def nonempty_def)

lemma sample_names:
  "pem_name k n \<noteq> []" "pem_block b \<noteq> []"
  "pem_name ''SubCA_Key_'' m \<noteq> pem_name ''SubCA_Certificate_'' n"
  "pem_name ''SubCA_Key_'' m \<noteq> pem_name ''Leaf_Key_'' n" "pem_name ''SubCA_Key_'' m \<noteq> pem_name ''Leaf_Certificate_'' n"
  "pem_name ''SubCA_Key_'' m \<noteq> pem_name ''Cert_Chain_'' n"
  by (simp_all add: pem_name_def pem_block_def begin_marker_def)

lemma two_named:
  "parseCertificateChainPem (pem_block (plain a @ CHR ''|'' # plain b) @ CHR '' '' # pem_block (plain c @ CHR ''|'' # plain d) @ '' '')
     = [pem_block (plain a @ CHR ''|'' # plain b), pem_block (plain c @ CHR ''|'' # plain d)]"
  using parse_two_blocks [of "plain a @ CHR ''|'' # plain b" "'' ''" "plain c @ CHR ''|'' # plain d" "'' ''"] plain_dashless
  by (simp add: dashless_def)

lemmas evaluate = bind_op_def ret_def needs_def lift_res_def ask_def clock_reading_def save_file_def saveFile_def
  readPemFile_def getFile_def getCertificateHash_def read_only_certificate_def generateCertificate_def sign_certificate_def
  subject_not_after_def issuer_terms_def createOrUpdateCertificate_def storeCertificateAndKey_names saveChainFile_names
  issue_def issue_leaf_def issue_root_def issue_sub_ca_def generateFullChain_def generateLeafOnly_def
  buildCertificateDefaults_def buildRootEntity_def buildSubCAEntity_def buildLeafEntity_def new_certificate_def
  named_crypto_def sample_request_def empty_store_def sample_server_def truthy_len_def nonempty_def violates_unique_def
  serial_def text_of_def to_be_signed_def named_body_def key_prefix_def

lemma sample_runs: "full_then_leaf empty_store"
  unfolding full_then_leaf_def
  by (simp add: evaluate Let_def valid_pem_name backslash_def key_hash two_named resolve_plain apply_paths_def
      readCurrentSubCACertPem_def findCertificateByPem_def sample_names read_only_one_def)

lemma sample_table: "table_ok (cs_certificates empty_store)"
  by (simp add: table_ok_def empty_store_def)

lemma sample_outcome:
  obtains r s1 r' s2 where "generateFullChain named_crypto [] 1 None sample_request empty_store = (Inr r, s1)"
    "generateLeafOnly named_crypto [] 1 (apply_paths r sample_server) sample_request s1 = (Inr r', s2)"
proof (cases "generateFullChain named_crypto [] 1 None sample_request empty_store")
  case (Pair x s1)
  then obtain r where x: "x = Inr r" using sample_runs by (cases x) (simp_all add: full_then_leaf_def)
  show thesis
  proof (cases "generateLeafOnly named_crypto [] 1 (apply_paths r sample_server) sample_request s1")
    case l: (Pair y s2)
    then obtain r' where "y = Inr r'" using sample_runs Pair x by (cases y) (simp_all add: full_then_leaf_def)
    then show thesis using that Pair l x by blast
  qed
qed

lemma sample_self_signed: "rq_selfSigned sample_request \<noteq> Some False"
  by (simp add: sample_request_def)

definition full_request :: chain_request where
  "full_request = sample_request\<lparr> rq_generationScope := Some FullChain_scope \<rparr>"

definition sample_api :: api_state where
  "sample_api = \<lparr> as_chain = empty_store, as_servers = [sample_server], as_saved = [], as_profiles = [], as_reloads = [] \<rparr>"

lemma full_request_runs:
  obtains r s1 where "generateFullChain named_crypto [] 1 (Some sample_server) full_request empty_store = (Inr r, s1)"
proof (cases "generateFullChain named_crypto [] 1 (Some sample_server) full_request empty_store")
  case (Pair x s1)
  have "(case generateFullChain named_crypto [] 1 (Some sample_server) full_request empty_store of (Inr _, _) \<Rightarrow> True | _ \<Rightarrow> False)"
    by (simp add: full_request_def resolvePreviousRoot_def evaluate Let_def valid_pem_name backslash_def key_hash)
  then obtain r where "x = Inr r" by (cases x) (simp_all add: Pair)
  then show thesis using that Pair by blast
qed

theorem requested_servers_get_trusted_chain_witness:
  "\<exists>r rows s'. generateCertificateChain_endpoint named_crypto [] 1 (Some [''2'']) full_request sample_api = (Inr (Per_server rows), s')
     \<and> rows = [([''2''], cn_certificates r)] \<and> trusted_chain named_crypto [] (as_chain s') r
     \<and> (\<forall>w \<in> set (as_servers s'). if sc_id w \<in> set [''2''] then has_paths r w else w \<in> set (as_servers sample_api))"
proof (rule full_request_runs)
  fix r s1
  assume g: "generateFullChain named_crypto [] 1 (Some sample_server) full_request empty_store = (Inr r, s1)"
  have "\<exists>s'. generateCertificateChain_endpoint named_crypto [] 1 (Some [''2'']) full_request sample_api
      = (Inr (Per_server [([''2''], cn_certificates r)]), s')"
    using g by (simp add: generateCertificateChain_endpoint_def sample_api_def groupServersForGeneration_def ret_def
        generateCertificateChain_def server_named_def full_request_def sample_server_def)
  then obtain s' where e: "generateCertificateChain_endpoint named_crypto [] 1 (Some [''2'']) full_request sample_api
      = (Inr (Per_server [([''2''], cn_certificates r)]), s')" by blast
  have h: "rq_selfSigned full_request \<noteq> Some False" "rq_generationScope full_request = Some FullChain_scope"
    "distinct (map sc_id (as_servers sample_api))"
    by (simp_all add: full_request_def sample_request_def sample_api_def)
  show ?thesis
    using e requested_servers_get_trusted_chain [OF named_crypto_ok h e] by blast
qed

theorem leaf_continues_chain_witness:
  "\<exists>r s1 r' s2. generateFullChain named_crypto [] 1 None sample_request empty_store = (Inr r, s1)
     \<and> generateLeafOnly named_crypto [] 1 (apply_paths r sample_server) sample_request s1 = (Inr r', s2)
     \<and> (\<exists>leafPem subPem. stored [] s2 (Some (cn_chainPath r')) (leafPem @ block_of subPem)
        \<and> isSignedBy named_crypto (block_of leafPem) (block_of subPem))"
proof (rule sample_outcome)
  fix r s1 r' s2
  assume g: "generateFullChain named_crypto [] 1 None sample_request empty_store = (Inr r, s1)"
    and l: "generateLeafOnly named_crypto [] 1 (apply_paths r sample_server) sample_request s1 = (Inr r', s2)"
  show ?thesis
    using g l leaf_continues_chain [OF named_crypto_ok sample_table sample_self_signed g l] by blast
qed

end
