(* ===== verification/CertificateInstall.thy ===== *)
theory CertificateInstall
  imports CertificateChains
begin

text \<open>
  Installing certificates on a station: the attempts the CSMS records, the check that a new
  CSMS root is signed by the one it replaces, and what the answers of the station make of the
  table of installed certificates (modules/Certificates/src/module/installCertificateHelperService.ts
  and 2/MessageApi.ts, the handlers of the responses InstallCertificate, DeleteCertificate and
  GetInstalledCertificateIds, and the models of dal/layers/sequelize/model/Certificate). What
  jsrsasign reads of a certificate is the argument details; the value of
  SecurityCtrlr.AdditionalRootCertificateCheck is the argument rootCheck.
\<close>

section \<open>Tables\<close>

record install_attempt =
  ia_id :: nat
  ia_tenantId :: int
  ia_name :: string
  ia_type :: string
  ia_certificate :: nat
  ia_requestId :: "int option"
  ia_status :: "string option"

record hash_data =
  hd_algorithm :: string
  hd_issuerNameHash :: string
  hd_issuerKeyHash :: string
  hd_serialNumber :: string

record installed_certificate =
  ic_id :: nat
  ic_tenantId :: int
  ic_name :: string
  ic_type :: string
  ic_certificate :: "nat option"
  ic_hash :: "hash_data option"

record delete_attempt =
  da_id :: nat
  da_tenantId :: int
  da_name :: string
  da_hash :: hash_data
  da_status :: "string option"

record install_state =
  in_store :: chain_state
  in_attempts :: "install_attempt list"
  in_installed :: "installed_certificate list"
  in_deletes :: "delete_attempt list"

record certificate_details =
  dt_serialNumber :: "nat option"        \<comment> \<open>None: not a number\<close>
  dt_issuerName :: string
  dt_organizationName :: "string option"
  dt_commonName :: "string option"
  dt_countryName :: "string option"
  dt_validBefore :: "string option"
  dt_signatureAlgorithm :: string

definition default_tenant :: int where
  "default_tenant = int default_tenant_id"

definition CSMSRootCertificate :: string where
  "CSMSRootCertificate = ''CSMSRootCertificate''"

definition certificates :: "install_state \<Rightarrow> certificate list" where
  "certificates s = cs_certificates (in_store s)"

definition certificate_with :: "nat option \<Rightarrow> install_state \<Rightarrow> certificate option" where
  "certificate_with i s = (case i of None \<Rightarrow> None | Some k \<Rightarrow> find (\<lambda>c. ce_id c = k) (certificates s))"

section \<open>Preparing an installation\<close>

definition bad_request :: "string \<Rightarrow> exn" where
  "bad_request m = JsErr m []"

text \<open>OCPP 2.0.1 M05.FR.10.\<close>

definition verifyAdditionalRootCertificateCheck ::
  "crypto \<Rightarrow> string list \<Rightarrow> int \<Rightarrow> string \<Rightarrow> string \<Rightarrow> string \<Rightarrow> string option \<Rightarrow> install_state \<Rightarrow> exn option" where
  "verifyAdditionalRootCertificateCheck cr dir t name ty pem rootCheck s =
     (if ty \<noteq> CSMSRootCertificate then None
      else if rootCheck \<noteq> Some ''true'' then None
      else case read_only_one (\<lambda>i. ic_tenantId i = t \<and> ic_name i = name \<and> ic_type i = CSMSRootCertificate) (in_installed s) of
             Inl e \<Rightarrow> Some e
           | Inr None \<Rightarrow> None
           | Inr (Some i) \<Rightarrow>
               (case nonempty (case certificate_with (ic_certificate i) s of Some c \<Rightarrow> ce_certificateFileId c | None \<Rightarrow> None) of
                  None \<Rightarrow> Some (bad_request ''Cannot verify AdditionalRootCertificateCheck'')
                | Some path \<Rightarrow>
                    (case readPemFile dir path ''previously installed CSMS root certificate'' name False (in_store s) of
                       (Inl e, _) \<Rightarrow> Some e
                     | (Inr previous, _) \<Rightarrow>
                         if isSignedBy cr pem previous then None
                         else Some (bad_request ''Cannot install new CSMS root certificate''))))"

definition existing_cert_key :: "certificate_details \<Rightarrow> string" where
  "existing_cert_key d = ''Existing_Cert_'' @ (case dt_serialNumber d of Some n \<Rightarrow> nat_str n | None \<Rightarrow> ''NaN'') @ ''.pem''"

definition uploaded_certificate :: "certificate_details \<Rightarrow> nat \<Rightarrow> string \<Rightarrow> string \<Rightarrow> certificate" where
  "uploaded_certificate d k key h =
     new_certificate\<lparr> ce_id := k, ce_serialNumber := (case dt_serialNumber d of Some n \<Rightarrow> n | None \<Rightarrow> 0),
       ce_issuerName := Some (dt_issuerName d), ce_organizationName := text_of (dt_organizationName d),
       ce_commonName := text_of (dt_commonName d), ce_countryName := dt_countryName d,
       ce_validBefore := dt_validBefore d, ce_signatureAlgorithm := Some (dt_signatureAlgorithm d),
       ce_certificateFileId := Some key, ce_certificateFileHash := Some h \<rparr>"

text \<open>The file is written before the row; the row belongs to the default tenant.\<close>

definition createNewCertificate ::
  "crypto \<Rightarrow> string list \<Rightarrow> string \<Rightarrow> certificate_details \<Rightarrow> install_state \<Rightarrow> (exn + nat) \<times> install_state" where
  "createNewCertificate cr dir pem d s =
     (case cr_hash cr pem of
        None \<Rightarrow> (Inl (bad_request ''Invalid PEM format or unsupported certificate''), s)
      | Some h \<Rightarrow>
          (case save_file dir (existing_cert_key d) pem (in_store s) of
             (Inl e, st) \<Rightarrow> (Inl e, s\<lparr> in_store := st \<rparr>)
           | (Inr key, st) \<Rightarrow>
               let rows = cs_certificates st;
                   k = serial ce_id rows;
                   c = uploaded_certificate d k key h
               in if dt_serialNumber d = None \<or> violates_unique c rows
                  then (Inl (JsErr ''SequelizeDatabaseError'' []), s\<lparr> in_store := st \<rparr>)
                  else (Inr k, s\<lparr> in_store := st\<lparr> cs_certificates := rows @ [c] \<rparr> \<rparr>)))"

definition pending_for :: "int \<Rightarrow> string \<Rightarrow> int option \<Rightarrow> install_attempt \<Rightarrow> bool" where
  "pending_for t name requestId a \<longleftrightarrow> ia_tenantId a = t \<and> ia_name a = name \<and> ia_status a = None
     \<and> (requestId = None \<or> ia_requestId a = requestId)"

definition has_hash :: "string \<Rightarrow> nat \<Rightarrow> install_state \<Rightarrow> bool" where
  "has_hash h i s = (case certificate_with (Some i) s of Some c \<Rightarrow> ce_certificateFileHash c = Some h | None \<Rightarrow> False)"

text \<open>A new attempt belongs to the default tenant.\<close>

definition add_attempt :: "string \<Rightarrow> string \<Rightarrow> nat \<Rightarrow> int option \<Rightarrow> install_state \<Rightarrow> install_state" where
  "add_attempt name ty c requestId s =
     s\<lparr> in_attempts := in_attempts s
          @ [\<lparr> ia_id = serial ia_id (in_attempts s), ia_tenantId = default_tenant, ia_name = name, ia_type = ty,
               ia_certificate = c, ia_requestId = requestId, ia_status = None \<rparr>] \<rparr>"

definition prepareToInstallCertificate ::
  "crypto \<Rightarrow> string list \<Rightarrow> (string \<Rightarrow> certificate_details option) \<Rightarrow> string option \<Rightarrow>
     int \<Rightarrow> string \<Rightarrow> string \<Rightarrow> string \<Rightarrow> int option \<Rightarrow> install_state \<Rightarrow> exn option \<times> install_state" where
  "prepareToInstallCertificate cr dir details rootCheck t name pem ty requestId s =
     (case verifyAdditionalRootCertificateCheck cr dir t name ty pem rootCheck s of
        Some e \<Rightarrow> (Some e, s)
      | None \<Rightarrow>
          (case cr_hash cr pem of
             None \<Rightarrow> (Some (bad_request ''Invalid PEM format or unsupported certificate''), s)
           | Some h \<Rightarrow>
               (case read_only_one (\<lambda>a. pending_for t name requestId a \<and> ia_type a = ty \<and> has_hash h (ia_certificate a) s) (in_attempts s) of
                  Inl e \<Rightarrow> (Some e, s)
                | Inr (Some _) \<Rightarrow> (None, s)
                | Inr None \<Rightarrow>
                    (case details pem of
                       None \<Rightarrow> (Some (bad_request ''Invalid PEM format or unsupported certificate''), s)
                     | Some d \<Rightarrow>
                         (case read_only_one (\<lambda>c. ce_tenantId c = t \<and> ce_certificateFileHash c = Some h) (certificates s) of
                            Inl e \<Rightarrow> (Some e, s)
                          | Inr (Some c) \<Rightarrow> (None, add_attempt name ty (ce_id c) requestId s)
                          | Inr None \<Rightarrow>
                              (case createNewCertificate cr dir pem d s of
                                 (Inl e, s1) \<Rightarrow> (Some e, s1)
                               | (Inr k, s1) \<Rightarrow> (None, add_attempt name ty k requestId s1)))))))"

section \<open>Answers of the station\<close>

definition set_attempt_status :: "nat \<Rightarrow> string \<Rightarrow> install_state \<Rightarrow> install_state" where
  "set_attempt_status i status s =
     s\<lparr> in_attempts := update_rows (\<lambda>a. ia_id a = i) (\<lambda>a. a\<lparr> ia_status := Some status \<rparr>) (in_attempts s) \<rparr>"

definition new_installed :: "string \<Rightarrow> string \<Rightarrow> nat option \<Rightarrow> hash_data option \<Rightarrow> install_state \<Rightarrow> install_state" where
  "new_installed name ty c h s =
     s\<lparr> in_installed := in_installed s
          @ [\<lparr> ic_id = serial ic_id (in_installed s), ic_tenantId = default_tenant, ic_name = name, ic_type = ty,
               ic_certificate = c, ic_hash = h \<rparr>] \<rparr>"

text \<open>A first installation is recorded when the file of the certificate is there and can be read.\<close>

definition record_first ::
  "crypto \<Rightarrow> string list \<Rightarrow> string \<Rightarrow> install_attempt \<Rightarrow> install_state \<Rightarrow> exn option \<times> install_state" where
  "record_first cr dir name a s =
     (case nonempty (case certificate_with (Some (ia_certificate a)) s of Some c \<Rightarrow> ce_certificateFileId c | None \<Rightarrow> None) of
        None \<Rightarrow> (None, s)
      | Some path \<Rightarrow>
          (case getFile dir path False (cs_files (in_store s)) of
             Inl e \<Rightarrow> (Some e, s)
           | Inr content \<Rightarrow>
               (case nonempty content of
                  None \<Rightarrow> (None, s)
                | Some text \<Rightarrow>
                    if cr_subject cr text = None then (Some (JsErr ''unreadable certificate'' []), s)
                    else (None, new_installed name (ia_type a) (Some (ia_certificate a)) None s))))"

definition finalizeInstalledCertificate ::
  "crypto \<Rightarrow> string list \<Rightarrow> int \<Rightarrow> string \<Rightarrow> string \<Rightarrow> int option \<Rightarrow> install_state \<Rightarrow> exn option \<times> install_state" where
  "finalizeInstalledCertificate cr dir t name status requestId s =
     (case read_only_one (pending_for t name requestId) (in_attempts s) of
        Inl e \<Rightarrow> (Some e, s)
      | Inr None \<Rightarrow> (None, s)
      | Inr (Some a) \<Rightarrow>
          (let s1 = set_attempt_status (ia_id a) status s
           in if status \<noteq> ''Accepted'' then (None, s1)
              else case read_only_one (\<lambda>i. ic_tenantId i = t \<and> ic_name i = name \<and> ic_type i = ia_type a) (in_installed s1) of
                     Inl e \<Rightarrow> (Some e, s1)
                   | Inr (Some i) \<Rightarrow>
                       (None, s1\<lparr> in_installed := update_rows (\<lambda>x. ic_id x = ic_id i)
                                   (\<lambda>x. x\<lparr> ic_certificate := Some (ia_certificate a) \<rparr>) (in_installed s1) \<rparr>)
                   | Inr None \<Rightarrow> record_first cr dir name a s1))"

definition InstallCertificateResponse ::
  "crypto \<Rightarrow> string list \<Rightarrow> int \<Rightarrow> string \<Rightarrow> string \<Rightarrow> install_state \<Rightarrow> exn option \<times> install_state" where
  "InstallCertificateResponse cr dir t name status s = finalizeInstalledCertificate cr dir t name status None s"

definition same_delete :: "int \<Rightarrow> string \<Rightarrow> hash_data \<Rightarrow> delete_attempt \<Rightarrow> bool" where
  "same_delete t name h a \<longleftrightarrow> da_tenantId a = t \<and> da_name a = name \<and> da_hash a = h \<and> da_status a = None"

definition record_deletion :: "int \<Rightarrow> string \<Rightarrow> hash_data \<Rightarrow> install_state \<Rightarrow> exn option \<times> install_state" where
  "record_deletion t name h s =
     (case read_only_one (same_delete t name h) (in_deletes s) of
        Inl e \<Rightarrow> (Some e, s)
      | Inr (Some _) \<Rightarrow> (None, s)
      | Inr None \<Rightarrow>
          (None, s\<lparr> in_deletes := in_deletes s
             @ [\<lparr> da_id = serial da_id (in_deletes s), da_tenantId = default_tenant, da_name = name, da_hash = h, da_status = None \<rparr>] \<rparr>))"

definition DeleteCertificateResponse :: "int \<Rightarrow> string \<Rightarrow> string \<Rightarrow> install_state \<Rightarrow> exn option \<times> install_state" where
  "DeleteCertificateResponse t name status s =
     (case read_only_one (\<lambda>a. da_tenantId a = t \<and> da_name a = name \<and> da_status a = None) (in_deletes s) of
        Inl e \<Rightarrow> (Some e, s)
      | Inr None \<Rightarrow> (None, s)
      | Inr (Some a) \<Rightarrow>
          (let s1 = s\<lparr> in_deletes := update_rows (\<lambda>x. da_id x = da_id a) (\<lambda>x. x\<lparr> da_status := Some status \<rparr>) (in_deletes s) \<rparr>
           in if status \<noteq> ''Accepted'' then (None, s1)
              else (None, s1\<lparr> in_installed :=
                      filter (\<lambda>i. \<not> (ic_tenantId i = t \<and> ic_name i = name \<and> ic_hash i = Some (da_hash a))) (in_installed s1) \<rparr>)))"

text \<open>
  GetInstalledCertificateIds: NotFound clears the rows of the type that was asked for, the
  request being looked up by its correlation id; otherwise each reported hash is stored.
\<close>

fun store_hashes :: "int \<Rightarrow> string \<Rightarrow> (string \<times> hash_data) list \<Rightarrow> install_state \<Rightarrow> exn option \<times> install_state" where
  "store_hashes t name [] s = (None, s)"
| "store_hashes t name ((ty, h) # hs) s =
     (case read_only_one (\<lambda>i. ic_tenantId i = t \<and> ic_name i = name \<and> ic_type i = ty) (in_installed s) of
        Inl e \<Rightarrow> (Some e, s)
      | Inr (Some i) \<Rightarrow>
          store_hashes t name hs (s\<lparr> in_installed := update_rows (\<lambda>x. ic_id x = ic_id i)
                                      (\<lambda>x. x\<lparr> ic_hash := Some h \<rparr>) (in_installed s) \<rparr>)
      | Inr None \<Rightarrow> store_hashes t name hs (new_installed name ty None (Some h) s))"

definition GetInstalledCertificateIdsResponse ::
  "int \<Rightarrow> string \<Rightarrow> string \<Rightarrow> (string \<times> hash_data) list \<Rightarrow> exn + string option option \<Rightarrow> install_state \<Rightarrow> exn option \<times> install_state" where
  "GetInstalledCertificateIdsResponse t name status reported request s =
     (if status = ''NotFound''
      then (case request of
              Inl e \<Rightarrow> (Some e, s)
            | Inr None \<Rightarrow> (None, s)
            | Inr (Some ty) \<Rightarrow>
                (None, s\<lparr> in_installed := filter (\<lambda>i. \<not> (ic_tenantId i = t \<and> ic_name i = name
                     \<and> (case nonempty ty of None \<Rightarrow> True | Some x \<Rightarrow> ic_type i = x))) (in_installed s) \<rparr>))
      else store_hashes t name reported s)"

section \<open>From the request to the table\<close>

text \<open>
  The check of M05.FR.10: when it is on and a root is installed, a new root is only prepared
  if the file of the installed one verifies its signature.
\<close>

lemma root_check_enforced:
  assumes "prepareToInstallCertificate cr dir details (Some ''true'') t name pem CSMSRootCertificate requestId s = (None, s1)"
    and "read_only_one (\<lambda>i. ic_tenantId i = t \<and> ic_name i = name \<and> ic_type i = CSMSRootCertificate) (in_installed s) = Inr (Some i)"
  shows "\<exists>c p previous. certificate_with (ic_certificate i) s = Some c \<and> ce_certificateFileId c = Some p
     \<and> cs_files (in_store s) (resolvePath dir p) = Some previous \<and> isSignedBy cr pem previous"
proof -
  have "verifyAdditionalRootCertificateCheck cr dir t name CSMSRootCertificate pem (Some ''true'') s = None"
    using assms(1) by (auto simp: prepareToInstallCertificate_def split: option.splits)
  then show ?thesis
    using assms(2)
    by (auto simp: verifyAdditionalRootCertificateCheck_def op_runs nonempty_def split: option.splits if_splits prod.splits sum.splits)
qed

text \<open>
  The file of a certificate is named after its serial number only: preparing a certificate
  replaces the file of every other one of that number, whether it gets installed or not.
\<close>

lemma preparing_replaces_file:
  assumes "createNewCertificate cr dir pem d s = (r, s1)" and "cr_hash cr pem \<noteq> None"
    and "validatePath (existing_cert_key d) = None"
  shows "cs_files (in_store s1) (resolvePath dir (existing_cert_key d)) = Some pem"
proof -
  have "save_file dir (existing_cert_key d) pem (in_store s)
      = (Inr (existing_cert_key d), (in_store s)\<lparr> cs_files := (cs_files (in_store s))(resolvePath dir (existing_cert_key d) \<mapsto> pem) \<rparr>)"
    using assms(3) by (simp add: save_file_def saveFile_def)
  then show ?thesis using assms(1,2) by (auto simp: createNewCertificate_def Let_def split: if_splits)
qed

text \<open>What is recorded for another tenant than the default one is not found again.\<close>

lemma attempt_of_other_tenant_lost:
  assumes "t \<noteq> default_tenant" and "\<forall>a \<in> set (in_attempts s). ia_tenantId a \<noteq> t"
  shows "finalizeInstalledCertificate cr dir t name status r (add_attempt name ty c requestId s)
     = (None, add_attempt name ty c requestId s)"
proof -
  have "filter (pending_for t name r) (in_attempts (add_attempt name ty c requestId s)) = []"
    using assms by (auto simp: add_attempt_def pending_for_def filter_empty_conv)
  then have "read_only_one (pending_for t name r) (in_attempts (add_attempt name ty c requestId s)) = Inr None"
    by (simp add: read_only_one_def)
  then show ?thesis by (simp add: finalizeInstalledCertificate_def)
qed

definition readable :: "crypto \<Rightarrow> string list \<Rightarrow> install_state \<Rightarrow> certificate \<Rightarrow> bool" where
  "readable cr dir s c \<longleftrightarrow> (\<exists>p x. ce_certificateFileId c = Some p \<and> p \<noteq> [] \<and> validatePath p = None
     \<and> cs_files (in_store s) (resolvePath dir p) = Some x \<and> x \<noteq> [] \<and> cr_subject cr x \<noteq> None)"

definition certificates_ok :: "crypto \<Rightarrow> string list \<Rightarrow> install_state \<Rightarrow> bool" where
  "certificates_ok cr dir s \<longleftrightarrow> distinct (map ce_id (certificates s)) \<and> (\<forall>c \<in> set (certificates s). readable cr dir s c)"

lemma existing_key_ok: "existing_cert_key d \<noteq> []" "validatePath (existing_cert_key d) = None"
proof -
  show "existing_cert_key d \<noteq> []" by (simp add: existing_cert_key_def)
  have "validatePath ''Existing_Cert_NaN.pem'' = None" by code_simp
  moreover have "validatePath (pem_name ''Existing_Cert_'' n) = None" for n
    by (rule valid_pem_name) (auto simp: backslash_def)
  ultimately show "validatePath (existing_cert_key d) = None"
    by (simp add: existing_cert_key_def pem_name_def split: option.split)
qed

lemma created_certificate:
  assumes c: "createNewCertificate cr dir pem d s = (Inr k, s1)" and ok: "certificates_ok cr dir s"
    and pem: "pem \<noteq> []" "cr_subject cr pem \<noteq> None"
  shows "certificates_ok cr dir s1" and "\<exists>x \<in> set (certificates s1). ce_id x = k \<and> ce_certificateFileHash x = cr_hash cr pem"
    and "in_attempts s1 = in_attempts s" and "in_installed s1 = in_installed s"
proof -
  let ?f = "(cs_files (in_store s))(resolvePath dir (existing_cert_key d) \<mapsto> pem)"
  have sv: "save_file dir (existing_cert_key d) pem (in_store s) = (Inr (existing_cert_key d), (in_store s)\<lparr> cs_files := ?f \<rparr>)"
    using existing_key_ok(2) by (simp add: save_file_def saveFile_def)
  obtain h where h: "cr_hash cr pem = Some h" using c by (auto simp: createNewCertificate_def split: option.splits)
  let ?k = "serial ce_id (certificates s)"
  let ?x = "uploaded_certificate d ?k (existing_cert_key d) h"
  have k: "k = ?k" and s1': "s1 = s\<lparr> in_store := (in_store s)\<lparr> cs_files := ?f, cs_certificates := certificates s @ [?x] \<rparr> \<rparr>"
    using c unfolding createNewCertificate_def h sv certificates_def
    by (auto simp: Let_def split: if_splits)
  have s1: "cs_files (in_store s1) = ?f" "in_attempts s1 = in_attempts s" "in_installed s1 = in_installed s"
    by (simp_all add: s1')
  obtain x where x: "certificates s1 = certificates s @ [x]" "ce_id x = ?k" "k = ce_id x"
      "ce_certificateFileHash x = Some h" "ce_certificateFileId x = Some (existing_cert_key d)"
    by (rule that [of ?x]) (simp_all add: s1' certificates_def k uploaded_certificate_def)
  show "in_attempts s1 = in_attempts s" "in_installed s1 = in_installed s" by (fact s1)+
  show "\<exists>x \<in> set (certificates s1). ce_id x = k \<and> ce_certificateFileHash x = cr_hash cr pem" using x h by simp
  have "readable cr dir s1 y" if "y \<in> set (certificates s)" for y
  proof -
    have "readable cr dir s y" using ok that by (simp add: certificates_ok_def)
    then obtain p z where p: "ce_certificateFileId y = Some p" "p \<noteq> []" "validatePath p = None"
      "cs_files (in_store s) (resolvePath dir p) = Some z" "z \<noteq> []" "cr_subject cr z \<noteq> None"
      unfolding readable_def by (elim exE conjE) (rule that)
    show ?thesis
      unfolding readable_def s1(1) using p pem
      by (intro exI [of _ p] exI [of _ "if resolvePath dir p = resolvePath dir (existing_cert_key d) then pem else z"]) simp
  qed
  moreover have "readable cr dir s1 x" unfolding readable_def s1(1) using x(5) existing_key_ok pem by auto
  moreover have "distinct (map ce_id (certificates s1))"
    using ok serial_not_in [of ce_id "certificates s"] by (simp add: certificates_ok_def x(1,2))
  ultimately show "certificates_ok cr dir s1" by (auto simp: certificates_ok_def x(1))
qed

lemma prepared:
  assumes p: "prepareToInstallCertificate cr dir details rootCheck default_tenant name pem ty requestId s = (None, s1)"
    and ok: "certificates_ok cr dir s" and d: "\<And>x y. details x = Some y \<Longrightarrow> x \<noteq> [] \<and> cr_subject cr x \<noteq> None"
    and none: "\<forall>a \<in> set (in_attempts s). \<not> pending_for default_tenant name None a"
  obtains a x where "in_attempts s1 = in_attempts s @ [a]" "pending_for default_tenant name None a" "ia_type a = ty"
    "ia_certificate a = ce_id x" "x \<in> set (certificates s1)" "ce_certificateFileHash x = cr_hash cr pem"
    "certificates_ok cr dir s1" "in_installed s1 = in_installed s"
proof -
  obtain h where h: "cr_hash cr pem = Some h"
    using p by (auto simp: prepareToInstallCertificate_def split: option.splits)
  have "filter (\<lambda>a. pending_for default_tenant name requestId a \<and> ia_type a = ty \<and> has_hash h (ia_certificate a) s) (in_attempts s) = []"
    using none by (auto simp: filter_empty_conv pending_for_def)
  then have n: "read_only_one (\<lambda>a. pending_for default_tenant name requestId a \<and> ia_type a = ty \<and> has_hash h (ia_certificate a) s) (in_attempts s) = Inr None"
    by (simp add: read_only_one_def)
  obtain e where e: "details pem = Some e"
    using p h n by (auto simp: prepareToInstallCertificate_def split: option.splits)
  have attempt: "\<exists>a. in_attempts (add_attempt name ty k requestId s0) = in_attempts s0 @ [a]
      \<and> pending_for default_tenant name None a \<and> ia_type a = ty \<and> ia_certificate a = k" for k s0
    by (simp add: add_attempt_def pending_for_def)
  have p': "(case read_only_one (\<lambda>c. ce_tenantId c = default_tenant \<and> ce_certificateFileHash c = Some h) (certificates s) of
                            Inl e \<Rightarrow> (Some e, s)
                          | Inr (Some c) \<Rightarrow> (None, add_attempt name ty (ce_id c) requestId s)
                          | Inr None \<Rightarrow>
                              (case createNewCertificate cr dir pem e s of
                                 (Inl e, s1) \<Rightarrow> (Some e, s1)
                               | (Inr k, s1) \<Rightarrow> (None, add_attempt name ty k requestId s1))) = (None, s1)"
    using p h n e by (auto simp: prepareToInstallCertificate_def split: option.splits)
  consider c where "read_only_one (\<lambda>c. ce_tenantId c = default_tenant \<and> ce_certificateFileHash c = Some h) (certificates s) = Inr (Some c)"
      "s1 = add_attempt name ty (ce_id c) requestId s"
    | k s0 where "createNewCertificate cr dir pem e s = (Inr k, s0)" "s1 = add_attempt name ty k requestId s0"
    using p' by (auto split: option.splits sum.splits prod.splits)
  then show thesis
  proof cases
    case 1
    note c = read_only_one_in [OF 1(1)]
    have "certificates_ok cr dir s1" "c \<in> set (certificates s1)" "in_installed s1 = in_installed s"
      using ok c by (simp_all add: 1(2) certificates_ok_def certificates_def readable_def add_attempt_def)
    moreover obtain a where "in_attempts s1 = in_attempts s @ [a]" "pending_for default_tenant name None a" "ia_type a = ty"
      "ia_certificate a = ce_id c" using attempt [of "ce_id c" s] unfolding 1(2) by blast
    ultimately show thesis using that [of a c] c h by simp
  next
    case 2
    note c = created_certificate [OF 2(1) ok]
    obtain x where x: "x \<in> set (certificates s0)" "ce_id x = k" "ce_certificateFileHash x = cr_hash cr pem"
      using c(2) d [OF e] by blast
    have "certificates_ok cr dir s1" "x \<in> set (certificates s1)" "in_installed s1 = in_installed s"
      using c(1,4) x d [OF e] by (simp_all add: 2(2) certificates_ok_def certificates_def readable_def add_attempt_def)
    moreover obtain a where "in_attempts s1 = in_attempts s @ [a]" "pending_for default_tenant name None a" "ia_type a = ty"
      "ia_certificate a = k" using attempt [of k s0] c(3) d [OF e] unfolding 2(2) by auto
    ultimately show thesis using that [of a x] x by simp
  qed
qed

abbreviation installed_for :: "string \<Rightarrow> string \<Rightarrow> installed_certificate \<Rightarrow> bool" where
  "installed_for name ty i \<equiv> ic_tenantId i = default_tenant \<and> ic_name i = name \<and> ic_type i = ty"

lemma certificate_with_id:
  assumes "certificates_ok cr dir s" and "x \<in> set (certificates s)"
  shows "certificate_with (Some (ce_id x)) s = Some x"
proof -
  have "find (\<lambda>c. ce_id c = ce_id x) (certificates s) \<noteq> None"
    using assms(2) by (auto simp: find_None_iff)
  then obtain y where y: "find (\<lambda>c. ce_id c = ce_id x) (certificates s) = Some y" by blast
  then have "y \<in> set (certificates s)" "ce_id y = ce_id x" by (auto dest: find_SomeD)
  then have "y = x" using assms by (auto simp: certificates_ok_def distinct_map dest: inj_onD)
  then show ?thesis using y by (simp add: certificate_with_def)
qed

lemma record_first_runs:
  assumes ok: "certificates_ok cr dir s" and x: "x \<in> set (certificates s)" "ia_certificate a = ce_id x"
  shows "record_first cr dir name a s = (None, new_installed name (ia_type a) (Some (ce_id x)) None s)"
proof -
  have "readable cr dir s x" using ok x(1) by (simp add: certificates_ok_def)
  then obtain p t where p: "ce_certificateFileId x = Some p" "p \<noteq> []" "validatePath p = None"
    "cs_files (in_store s) (resolvePath dir p) = Some t" "t \<noteq> []" "cr_subject cr t \<noteq> None"
    unfolding readable_def by (elim exE conjE) (rule that)
  then show ?thesis
    by (auto simp: record_first_def x(2) certificate_with_id [OF ok x(1)] nonempty_def getFile_def)
qed

text \<open>The answer that ends the only pending attempt.\<close>

lemma accepted_answer:
  assumes a: "filter (pending_for default_tenant name None) (in_attempts s) = [a]" "ia_certificate a = ce_id x"
    and ok: "certificates_ok cr dir s" "x \<in> set (certificates s)"
    and one: "length (filter (installed_for name (ia_type a)) (in_installed s)) \<le> 1"
  shows "\<exists>s' i. InstallCertificateResponse cr dir default_tenant name ''Accepted'' s = (None, s')
     \<and> certificates s' = certificates s
     \<and> filter (installed_for name (ia_type a)) (in_installed s') = [i] \<and> ic_certificate i = Some (ce_id x)"
proof -
  let ?P = "installed_for name (ia_type a)"
  let ?s = "set_attempt_status (ia_id a) ''Accepted'' s"
  have s: "in_installed ?s = in_installed s" "certificates ?s = certificates s" "in_store ?s = in_store s"
    by (simp_all add: set_attempt_status_def certificates_def)
  have p: "read_only_one (pending_for default_tenant name None) (in_attempts s) = Inr (Some a)"
    by (simp add: read_only_one_def a(1))
  consider "filter ?P (in_installed s) = []" | i where "filter ?P (in_installed s) = [i]"
    using one by (cases "filter ?P (in_installed s)") auto
  then show ?thesis
  proof cases
    case 1
    then have n: "read_only_one ?P (in_installed s) = Inr None" by (simp add: read_only_one_None)
    have "certificates_ok cr dir ?s" using ok(1) by (simp add: certificates_ok_def readable_def s)
    from record_first_runs [OF this, of x a name] ok(2) a(2)
    have "InstallCertificateResponse cr dir default_tenant name ''Accepted'' s
        = (None, new_installed name (ia_type a) (Some (ce_id x)) None ?s)"
      by (simp add: InstallCertificateResponse_def finalizeInstalledCertificate_def p s n)
    then show ?thesis using 1 by (simp add: new_installed_def s certificates_def)
  next
    case (2 i)
    then have n: "read_only_one ?P (in_installed s) = Inr (Some i)" by (simp add: read_only_one_def)
    let ?f = "\<lambda>x. if ic_id x = ic_id i then x\<lparr> ic_certificate := Some (ia_certificate a) \<rparr> else x"
    have "filter ?P (map ?f xs) = map ?f (filter ?P xs)" for xs by (induction xs) auto
    then have "filter ?P (map ?f (in_installed s)) = [i\<lparr> ic_certificate := Some (ia_certificate a) \<rparr>]"
      using 2 by simp
    moreover have "InstallCertificateResponse cr dir default_tenant name ''Accepted'' s
        = (None, ?s\<lparr> in_installed := map ?f (in_installed s) \<rparr>)"
      by (simp add: InstallCertificateResponse_def finalizeInstalledCertificate_def p s n update_rows_def)
    ultimately show ?thesis by (simp add: a(2) certificates_def set_attempt_status_def)
  qed
qed


definition sample_details :: certificate_details where
  "sample_details =
     \<lparr> dt_serialNumber = Some 7, dt_issuerName = ''issuer'', dt_organizationName = Some ''O'', dt_commonName = Some ''c'',
       dt_countryName = None, dt_validBefore = None, dt_signatureAlgorithm = ''SHA256withECDSA'' \<rparr>"

definition sample_read :: "string \<Rightarrow> certificate_details option" where
  "sample_read x = (if x = [] then None else Some sample_details)"

definition sample_install :: install_state where
  "sample_install = \<lparr> in_store = empty_store, in_attempts = [], in_installed = [], in_deletes = [] \<rparr>"

lemma empty_install:
  "certificates sample_install = []" "in_attempts sample_install = []" "in_installed sample_install = []"
  "cs_certificates (in_store sample_install) = []"
  by (simp_all add: sample_install_def certificates_def empty_store_def)

lemma first_preparation:
  assumes h: "cr_hash cr pem = Some h" and e: "details pem = Some e" "dt_serialNumber e \<noteq> None"
  shows "\<exists>s1. prepareToInstallCertificate cr dir details None t name pem ty requestId sample_install = (None, s1)"
proof -
  have "validatePath (existing_cert_key e) = None" by (rule existing_key_ok)
  then have sv: "\<exists>st. save_file dir (existing_cert_key e) pem (in_store sample_install) = (Inr (existing_cert_key e), st)
      \<and> cs_certificates st = []"
    by (simp add: save_file_def saveFile_def empty_install)
  have "\<exists>k s1. createNewCertificate cr dir pem e sample_install = (Inr k, s1)"
    using sv by (auto simp: createNewCertificate_def h e(2) violates_unique_def Let_def)
  then show ?thesis
    by (auto simp: prepareToInstallCertificate_def verifyAdditionalRootCertificateCheck_def h e(1) empty_install read_only_one_def)
qed

lemma sample_prepared:
  "\<exists>s1. prepareToInstallCertificate named_crypto [] sample_read None default_tenant ''cs1'' (pem_block ''one'') CSMSRootCertificate None
     sample_install = (None, s1)"
proof -
  have c: "cr_hash named_crypto (pem_block ''one'') = Some (hd (body_parts (pem_block ''one'')))"
    by (simp only: named_crypto_def crypto.simps)
  have r: "sample_read (pem_block ''one'') = Some sample_details"
    unfolding sample_read_def pem_block_def begin_marker_def by (simp only: append_Cons list.distinct if_False)
  have "dt_serialNumber sample_details \<noteq> None" by (simp add: sample_details_def)
  from first_preparation [where cr = named_crypto and details = sample_read and e = sample_details, OF c r this] show ?thesis .
qed



end
