(* ===== verification/SmartCharging.thy ===== *)
theory SmartCharging
  imports LocalAuthList
begin

text \<open>
  Charging profiles: their tables (dal/layers/sequelize/model/ChargingProfile, and the
  repository ChargingProfile.ts), the profile the CSMS computes from the charging needs of an
  EV (modules/SmartCharging/src/module/smartCharging/InternalSmartCharging.ts), and the handlers
  that read and write them (handlers/requests/2: NotifyEVChargingNeeds, NotifyEVChargingSchedule,
  ReportChargingProfiles; handlers/responses: SetChargingProfile and ClearChargingProfile of both
  protocol versions). Electric values are exact rationals, times are milliseconds, the fields
  that are only passed on are JSON values, and the time a transaction was last updated is a
  function, the argument updated.
\<close>

section \<open>Data\<close>

record charging_period =
  pr_startPeriod :: rat
  pr_limit :: rat
  pr_numberPhases :: "int option"
  pr_rest :: jsval

record schedule_input =
  si_id :: int
  si_startSchedule :: "int option"
  si_duration :: "int option"
  si_unit :: string
  si_periods :: "charging_period list"
  si_minRate :: "rat option"
  si_salesTariff :: "jsval option"

record profile_input =
  pi_id :: int
  pi_stackLevel :: int
  pi_purpose :: string
  pi_kind :: string
  pi_recurrencyKind :: "string option"
  pi_validFrom :: "int option"
  pi_validTo :: "int option"
  pi_dynamic :: jsval
  pi_schedules :: "schedule_input list"
  pi_transactionId :: "string option"

record cp_row =
  cp_databaseId :: nat
  cp_tenantId :: int
  cp_name :: string
  cp_id :: int
  cp_stackLevel :: int
  cp_purpose :: string
  cp_kind :: string
  cp_recurrencyKind :: "string option"
  cp_validFrom :: "int option"
  cp_validTo :: "int option"
  cp_dynamic :: jsval
  cp_evseId :: "int option"
  cp_isActive :: bool
  cp_source :: string
  cp_transaction :: "nat option"

record cs_row =
  cs_databaseId :: nat
  cs_tenantId :: int
  cs_name :: string
  cs_id :: int
  cs_startSchedule :: "int option"
  cs_duration :: "int option"
  cs_unit :: string
  cs_periods :: "charging_period list"
  cs_minRate :: "rat option"
  cs_profile :: nat

record ac_parameters =
  ac_evMinCurrent :: rat
  ac_evMaxCurrent :: rat

record dc_parameters =
  dc_evMaxCurrent :: rat
  dc_evMaxVoltage :: rat
  dc_evMaxPower :: "rat option"

text \<open>An optional field may be absent, null, or there.\<close>

datatype 'a field = Absent | Null_field | Given 'a

datatype energy_transfer = AC_single_phase | AC_two_phase | AC_three_phase | DC | Other_transfer string

record needs_request =
  nr_evseId :: int
  nr_transfer :: energy_transfer
  nr_ac :: "ac_parameters field"
  nr_dc :: "dc_parameters field"
  nr_departure :: "int option"
  nr_maxScheduleTuples :: "int option"

record needs_row =
  nd_tenantId :: int
  nd_evse :: "nat option"
  nd_transaction :: nat
  nd_request :: needs_request

record cp_db =
  pd_tx :: tx_db
  pd_profiles :: "cp_row list"
  pd_schedules :: "cs_row list"
  pd_tariffs :: "(int \<times> nat \<times> jsval) list"     \<comment> \<open>tenant, schedule, tariff\<close>
  pd_needs :: "needs_row list"
  pd_requests :: "int \<times> string \<Rightarrow> int option"       \<comment> \<open>sequence of GetChargingProfiles\<close>

datatype cp_effect =
    Answer string                                  \<comment> \<open>status of the call result\<close>
  | SetProfile int profile_input                   \<comment> \<open>EVSE; the call SetChargingProfile\<close>
  | GetProfiles int "string list"                  \<comment> \<open>request id, sources\<close>

section \<open>The repository\<close>

text \<open>readNextValue: one more than the largest value. The tenant is not part of the query.\<close>

definition next_value :: "('a \<Rightarrow> int) \<Rightarrow> int \<Rightarrow> 'a list \<Rightarrow> int" where
  "next_value key start rows = (case rows of [] \<Rightarrow> start | _ \<Rightarrow> Max (set (map key rows)) + 1)"

definition getNextChargingScheduleId :: "string \<Rightarrow> cp_db \<Rightarrow> int" where
  "getNextChargingScheduleId name db = next_value cs_id 1 (filter (\<lambda>r. cs_name r = name) (pd_schedules db))"

definition getNextChargingProfileId :: "string \<Rightarrow> cp_db \<Rightarrow> int" where
  "getNextChargingProfileId name db = next_value cp_id 1 (filter (\<lambda>r. cp_name r = name) (pd_profiles db))"

definition getNextStackLevel :: "string \<Rightarrow> nat option \<Rightarrow> string \<Rightarrow> cp_db \<Rightarrow> int" where
  "getNextStackLevel name tx purpose db =
     next_value cp_stackLevel 0
       (filter (\<lambda>r. cp_name r = name \<and> cp_transaction r = tx \<and> cp_purpose r = purpose) (pd_profiles db))"

text \<open>Transaction.findOne looks in all tenants.\<close>

definition transaction_named :: "string \<Rightarrow> string option \<Rightarrow> cp_db \<Rightarrow> nat option" where
  "transaction_named name transactionId db =
     (case transactionId of
        None \<Rightarrow> None
      | Some i \<Rightarrow>
          if i = [] then None
          else map_option tx_id (find (\<lambda>t. tx_name t = name \<and> tx_transactionId t = i) (db_transactions (pd_tx db))))"

definition profile_fields :: "profile_input \<Rightarrow> string \<Rightarrow> int option \<Rightarrow> nat option \<Rightarrow> string \<Rightarrow> bool \<Rightarrow> cp_row \<Rightarrow> cp_row" where
  "profile_fields inp name evseId tx source active r =
     r\<lparr> cp_name := name, cp_id := pi_id inp, cp_stackLevel := pi_stackLevel inp, cp_purpose := pi_purpose inp,
        cp_kind := pi_kind inp, cp_recurrencyKind := pi_recurrencyKind inp, cp_validFrom := pi_validFrom inp,
        cp_validTo := pi_validTo inp, cp_dynamic := pi_dynamic inp, cp_evseId := evseId,
        cp_isActive := active, cp_source := source, cp_transaction := tx \<rparr>"

definition blank_profile :: "int \<Rightarrow> nat \<Rightarrow> cp_row" where
  "blank_profile tenantId k =
     \<lparr> cp_databaseId = k, cp_tenantId = tenantId, cp_name = [], cp_id = 0, cp_stackLevel = 0, cp_purpose = [],
       cp_kind = [], cp_recurrencyKind = None, cp_validFrom = None, cp_validTo = None, cp_dynamic = JUndef,
       cp_evseId = None, cp_isActive = False, cp_source = [], cp_transaction = None \<rparr>"

text \<open>The profile row, found or created, and its schedules of before removed.\<close>

definition save_profile ::
  "int \<Rightarrow> profile_input \<Rightarrow> string \<Rightarrow> int option \<Rightarrow> string \<Rightarrow> bool \<Rightarrow> cp_db \<Rightarrow> nat \<times> cp_db" where
  "save_profile tenantId inp name evseId source active db =
     (let tx = transaction_named name (pi_transactionId inp) db;
          fields = profile_fields inp name evseId tx source active
      in case find (\<lambda>r. cp_tenantId r = tenantId \<and> cp_name r = name \<and> cp_id r = pi_id inp) (pd_profiles db) of
           None \<Rightarrow>
             let k = serial cp_databaseId (pd_profiles db)
             in (k, db\<lparr> pd_profiles := pd_profiles db @ [fields (blank_profile tenantId k)] \<rparr>)
         | Some r \<Rightarrow>
             let mine = (\<lambda>s. cs_profile s = cp_databaseId r \<and> cs_tenantId s = tenantId);
                 gone = map cs_databaseId (filter mine (pd_schedules db))
             in (cp_databaseId r,
                 db\<lparr> pd_profiles := update_rows (\<lambda>x. cp_databaseId x = cp_databaseId r \<and> cp_tenantId x = tenantId)
                       fields (pd_profiles db),
                     pd_schedules := filter (\<lambda>s. \<not> mine s) (pd_schedules db),
                     pd_tariffs := filter (\<lambda>(t, s, _). \<not> (t = tenantId \<and> s \<in> set gone)) (pd_tariffs db) \<rparr>))"

definition schedule_row :: "int \<Rightarrow> string \<Rightarrow> nat \<Rightarrow> nat \<Rightarrow> int \<Rightarrow> schedule_input \<Rightarrow> cs_row" where
  "schedule_row tenantId name profile k i inp =
     \<lparr> cs_databaseId = k, cs_tenantId = tenantId, cs_name = name, cs_id = i,
       cs_startSchedule = si_startSchedule inp, cs_duration = si_duration inp, cs_unit = si_unit inp,
       cs_periods = si_periods inp, cs_minRate = si_minRate inp, cs_profile = profile \<rparr>"

text \<open>A schedule id that the station already has is replaced by the next free one.\<close>

definition save_schedule :: "int \<Rightarrow> string \<Rightarrow> nat \<Rightarrow> schedule_input \<Rightarrow> cp_db \<Rightarrow> cp_db" where
  "save_schedule tenantId name profile inp db =
     (let taken = list_ex (\<lambda>s. cs_tenantId s = tenantId \<and> cs_name s = name \<and> cs_id s = si_id inp) (pd_schedules db);
          i = (if taken then getNextChargingScheduleId name db else si_id inp);
          k = serial cs_databaseId (pd_schedules db)
      in db\<lparr> pd_schedules := pd_schedules db @ [schedule_row tenantId name profile k i inp],
             pd_tariffs := pd_tariffs db
               @ (case si_salesTariff inp of None \<Rightarrow> [] | Some t \<Rightarrow> [(tenantId, k, t)]) \<rparr>)"

definition createOrUpdateChargingProfile ::
  "int \<Rightarrow> profile_input \<Rightarrow> string \<Rightarrow> int option \<Rightarrow> string \<Rightarrow> bool \<Rightarrow> cp_db \<Rightarrow> cp_db" where
  "createOrUpdateChargingProfile tenantId inp name evseId source active db =
     (let (k, db1) = save_profile tenantId inp name evseId source active db
      in fold (save_schedule tenantId name k) (pi_schedules inp) db1)"

text \<open>Is the transaction active at an EVSE with the number?\<close>

definition active_at :: "string \<Rightarrow> int \<Rightarrow> cp_db \<Rightarrow> tx_row \<Rightarrow> bool" where
  "active_at name evseId db t \<longleftrightarrow> tx_name t = name \<and> tx_isActive t \<and>
     (case evse_of (pd_tx db) (tx_evseId t) of Some e \<Rightarrow> er_evseTypeId e = Some evseId | None \<Rightarrow> False)"

definition createChargingNeeds :: "int \<Rightarrow> needs_request \<Rightarrow> string \<Rightarrow> cp_db \<Rightarrow> exn + cp_db" where
  "createChargingNeeds tenantId request name db =
     (case find (active_at name (nr_evseId request) db) (db_transactions (pd_tx db)) of
        None \<Rightarrow> Inl (JsErr (''No active transaction found on station '' @ name @ '' evse '' @ int_str (nr_evseId request)) [])
      | Some t \<Rightarrow> Inr (db\<lparr> pd_needs := pd_needs db
          @ [\<lparr> nd_tenantId = tenantId, nd_evse = tx_evseId t, nd_transaction = tx_id t, nd_request = request \<rparr>] \<rparr>))"

text \<open>The active transaction at an EVSE that was updated last.\<close>

definition getActiveTransactionByStationIdAndEvseId ::
  "(tx_row \<Rightarrow> nat) \<Rightarrow> int \<Rightarrow> string \<Rightarrow> int \<Rightarrow> cp_db \<Rightarrow> tx_row option" where
  "getActiveTransactionByStationIdAndEvseId updated tenantId name evseId db =
     (case sort_key (\<lambda>t. - int (updated t))
             (filter (\<lambda>t. tx_tenantId t = tenantId \<and> active_at name evseId db t) (db_transactions (pd_tx db))) of
        [] \<Rightarrow> None
      | t # _ \<Rightarrow> Some t)"

section \<open>Internal smart charging\<close>

definition TxProfile :: string where
  "TxProfile = ''TxProfile''"

definition schedules_of :: "cp_row \<Rightarrow> cp_db \<Rightarrow> cs_row list" where
  "schedules_of p db = filter (\<lambda>s. cs_profile s = cp_databaseId p) (pd_schedules db)"

definition is_tx_profile :: "int \<Rightarrow> string \<Rightarrow> nat option \<Rightarrow> cp_row \<Rightarrow> bool" where
  "is_tx_profile tenantId name tx r \<longleftrightarrow>
     cp_tenantId r = tenantId \<and> cp_name r = name \<and> cp_transaction r = tx \<and> cp_purpose r = TxProfile"

definition findExistingChargingProfileWithHighestStackLevel ::
  "int \<Rightarrow> string \<Rightarrow> nat \<Rightarrow> cp_db \<Rightarrow> cp_row option" where
  "findExistingChargingProfileWithHighestStackLevel tenantId name tx db =
     (case sort_key (\<lambda>r. - cp_stackLevel r) (filter (is_tx_profile tenantId name (Some tx)) (pd_profiles db)) of
        [] \<Rightarrow> None
      | p # _ \<Rightarrow> Some p)"

fun first_smaller :: "rat \<Rightarrow> cs_row list \<Rightarrow> exn option" where
  "first_smaller limit [] = None"
| "first_smaller limit (s # ss) =
     (case find (\<lambda>p. pr_limit p < limit) (cs_periods s) of
        Some p \<Rightarrow> Some (JsErr (''Limit is bigger than existing limit in charging schedule '' @ int_str (cs_id s)) [JNum limit, JNum (pr_limit p)])
      | None \<Rightarrow> first_smaller limit ss)"

definition validateLimitAgainstExistingProfile :: "rat \<Rightarrow> int \<Rightarrow> string \<Rightarrow> nat \<Rightarrow> cp_db \<Rightarrow> exn option" where
  "validateLimitAgainstExistingProfile limit tenantId name tx db =
     (case findExistingChargingProfileWithHighestStackLevel tenantId name tx db of
        None \<Rightarrow> None
      | Some p \<Rightarrow> first_smaller limit (schedules_of p db))"

definition getChargingRateUnitAndLimit :: "rat \<Rightarrow> rat \<Rightarrow> rat option \<Rightarrow> string \<times> rat" where
  "getChargingRateUnitAndLimit evMaxCurrent evMaxVoltage evMaxPower =
     (case evMaxPower of
        Some p \<Rightarrow> if p \<noteq> 0 \<and> p < evMaxCurrent * evMaxVoltage then (''W'', p * 1000)
                  else (''A'', evMaxCurrent * evMaxVoltage)
      | None \<Rightarrow> (''A'', evMaxCurrent * evMaxVoltage))"

text \<open>Unit, limit, phases and minimal rate for the requested transfer; None for one that is not supported.\<close>

definition ac_phases :: "energy_transfer \<Rightarrow> int" where
  "ac_phases m = (if m = AC_single_phase then 1 else if m = AC_two_phase then 2 else 3)"

definition charging_parameters :: "needs_request \<Rightarrow> (string \<times> rat \<times> int option \<times> rat option) option" where
  "charging_parameters r =
     (case nr_transfer r of
        Other_transfer _ \<Rightarrow> None
      | DC \<Rightarrow>
          (case nr_dc r of
             Given d \<Rightarrow>
               (let (unit, limit) = getChargingRateUnitAndLimit (dc_evMaxCurrent d) (dc_evMaxVoltage d) (dc_evMaxPower d)
                in Some (unit, limit, None, None))
           | _ \<Rightarrow> Some (''A'', 0, None, None))
      | m \<Rightarrow>
          (case nr_ac r of
             Given a \<Rightarrow> Some (''A'', ac_evMaxCurrent a, Some (ac_phases m), Some (ac_evMinCurrent a))
           | _ \<Rightarrow> Some (''A'', 0, None, None)))"

definition computed_profile ::
  "int \<Rightarrow> int \<Rightarrow> int \<Rightarrow> string \<times> rat \<times> int option \<times> rat option \<Rightarrow> int \<Rightarrow> int option \<Rightarrow> string \<Rightarrow> profile_input" where
  "computed_profile profileId stackLevel scheduleId params time departure transactionId =
     \<lparr> pi_id = profileId, pi_stackLevel = stackLevel, pi_purpose = TxProfile, pi_kind = ''Absolute'',
       pi_recurrencyKind = None, pi_validFrom = Some time, pi_validTo = departure, pi_dynamic = JUndef,
       pi_schedules =
         [\<lparr> si_id = scheduleId, si_startSchedule = Some time,
            si_duration = map_option (\<lambda>d. d - time) departure,
            si_unit = fst params,
            si_periods = [\<lparr> pr_startPeriod = 0, pr_limit = fst (snd params),
                            pr_numberPhases = fst (snd (snd params)), pr_rest = JUndef \<rparr>],
            si_minRate = snd (snd (snd params)), si_salesTariff = None \<rparr>],
       pi_transactionId = Some transactionId \<rparr>"

definition calculateChargingProfile ::
  "needs_request \<Rightarrow> tx_row \<Rightarrow> int \<Rightarrow> string \<Rightarrow> int \<Rightarrow> cp_db \<Rightarrow> exn + profile_input" where
  "calculateChargingProfile request t tenantId name time db =
     (case charging_parameters request of
        None \<Rightarrow> Inl (JsErr ''Unsupported energy transfer mode'' [])
      | Some params \<Rightarrow>
          (case validateLimitAgainstExistingProfile (fst (snd params)) tenantId name (tx_id t) db of
             Some e \<Rightarrow> Inl e
           | None \<Rightarrow>
               Inr (computed_profile (getNextChargingProfileId name db)
                      (getNextStackLevel name (Some (tx_id t)) TxProfile db)
                      (getNextChargingScheduleId name db) params time (nr_departure request) (tx_transactionId t))))"

fun exceeding :: "charging_period list \<Rightarrow> charging_period list \<Rightarrow> bool" where
  "exceeding (g # gs) (e # es) = (pr_limit g > pr_limit e \<or> exceeding gs es)"
| "exceeding _ _ = False"

definition checkLimitsOfChargingSchedule ::
  "charging_period list \<Rightarrow> int \<Rightarrow> string \<Rightarrow> nat \<Rightarrow> cp_db \<Rightarrow> exn option" where
  "checkLimitsOfChargingSchedule given tenantId name tx db =
     (case findExistingChargingProfileWithHighestStackLevel tenantId name tx db of
        None \<Rightarrow> None
      | Some p \<Rightarrow>
          (case schedules_of p db of
             [s] \<Rightarrow>
               if length given \<noteq> length (cs_periods s)
               then Some (JsErr ''Given charging periods and existing charging periods are unmatched'' [])
               else if exceeding given (cs_periods s)
               then Some (JsErr ''Given limits exceed existing limits'' [])
               else None
           | _ \<Rightarrow> Some (JsErr ''Existing charging profile have more than one charging schedules'' [])))"

section \<open>Handlers\<close>

definition is_given :: "'a field \<Rightarrow> bool" where
  "is_given f = (case f of Given _ \<Rightarrow> True | _ \<Rightarrow> False)"

definition matchedChargingType :: "needs_request \<Rightarrow> bool" where
  "matchedChargingType r \<longleftrightarrow>
     (is_given (nr_dc r) \<and> nr_transfer r = DC) \<or> (is_given (nr_ac r) \<and> nr_transfer r \<noteq> DC)"

definition hasAcOrDcChargingParameters :: "needs_request \<Rightarrow> bool" where
  "hasAcOrDcChargingParameters r \<longleftrightarrow> nr_dc r \<noteq> Null_field \<or> nr_ac r \<noteq> Null_field"

text \<open>
  NotifyEVChargingNeeds: effects in their order, and an error when the needs cannot be stored.
\<close>

definition NotifyEVChargingNeeds ::
  "(tx_row \<Rightarrow> nat) \<Rightarrow> int \<Rightarrow> int \<Rightarrow> string \<Rightarrow> needs_request \<Rightarrow> cp_db \<Rightarrow> (exn + cp_effect list) \<times> cp_db" where
  "NotifyEVChargingNeeds updated time tenantId name request db =
     (case getActiveTransactionByStationIdAndEvseId updated tenantId name (nr_evseId request) db of
        None \<Rightarrow> (Inr [Answer ''Rejected''], db)
      | Some t \<Rightarrow>
          if \<not> hasAcOrDcChargingParameters request \<or> \<not> matchedChargingType request
          then (Inr [Answer ''Rejected''], db)
          else (case calculateChargingProfile request t tenantId name time db of
                  Inl _ \<Rightarrow> (Inr [Answer ''Rejected''], db)
                | Inr profile \<Rightarrow>
                    (case createChargingNeeds tenantId request name db of
                       Inl e \<Rightarrow> (Inl e, db)
                     | Inr db1 \<Rightarrow>
                         (Inr [Answer ''Accepted'', SetProfile (nr_evseId request) profile],
                          createOrUpdateChargingProfile tenantId profile name (Some (nr_evseId request)) ''CSO'' False db1))))"

record schedule_notice =
  sn_evseId :: int
  sn_schedule :: schedule_input

definition NotifyEVChargingSchedule ::
  "(tx_row \<Rightarrow> nat) \<Rightarrow> int \<Rightarrow> int \<Rightarrow> string \<Rightarrow> schedule_notice \<Rightarrow> cp_db \<Rightarrow> cp_effect list" where
  "NotifyEVChargingSchedule updated time tenantId name request db =
     Answer ''Accepted'' #
     (case getActiveTransactionByStationIdAndEvseId updated tenantId name (sn_evseId request) db of
        None \<Rightarrow> []
      | Some t \<Rightarrow>
          (case checkLimitsOfChargingSchedule (si_periods (sn_schedule request)) tenantId name (tx_id t) db of
             None \<Rightarrow> []
           | Some _ \<Rightarrow>
               let s = (sn_schedule request)\<lparr> si_id := getNextChargingScheduleId name db,
                          si_startSchedule := (case si_startSchedule (sn_schedule request) of Some x \<Rightarrow> Some x | None \<Rightarrow> Some time) \<rparr>
               in [SetProfile (sn_evseId request)
                    \<lparr> pi_id = getNextChargingProfileId name db,
                      pi_stackLevel = getNextStackLevel name (Some (tx_id t)) TxProfile db,
                      pi_purpose = TxProfile, pi_kind = ''Absolute'', pi_recurrencyKind = None,
                      pi_validFrom = None, pi_validTo = None, pi_dynamic = JUndef,
                      pi_schedules = [s], pi_transactionId = Some (tx_transactionId t) \<rparr>]))"

definition ReportChargingProfiles ::
  "int \<Rightarrow> string \<Rightarrow> int \<Rightarrow> string \<Rightarrow> profile_input list \<Rightarrow> cp_db \<Rightarrow> cp_db" where
  "ReportChargingProfiles tenantId name evseId source profiles db =
     fold (\<lambda>p. createOrUpdateChargingProfile tenantId p name (Some evseId) source True) profiles db"

definition deactivate_profiles :: "int \<Rightarrow> string \<Rightarrow> (cp_row \<Rightarrow> bool) \<Rightarrow> cp_db \<Rightarrow> cp_db" where
  "deactivate_profiles tenantId name P db =
     db\<lparr> pd_profiles := update_rows (\<lambda>r. cp_tenantId r = tenantId \<and> cp_name r = name \<and> cp_isActive r \<and> P r)
            (\<lambda>r. r\<lparr> cp_isActive := False \<rparr>) (pd_profiles db) \<rparr>"

definition generateRequestId :: "int \<Rightarrow> string \<Rightarrow> cp_db \<Rightarrow> int \<times> cp_db" where
  "generateRequestId tenantId name db =
     (let n = (case pd_requests db (tenantId, name) of None \<Rightarrow> 1 | Some k \<Rightarrow> k + 1)
      in (n, db\<lparr> pd_requests := (pd_requests db)((tenantId, name) \<mapsto> n) \<rparr>))"

definition SetChargingProfileResponse2 :: "int \<Rightarrow> string \<Rightarrow> string \<Rightarrow> cp_db \<Rightarrow> cp_effect list \<times> cp_db" where
  "SetChargingProfileResponse2 tenantId name status db =
     (if status = ''Rejected'' then ([], db)
      else let (n, db1) = generateRequestId tenantId name (deactivate_profiles tenantId name (\<lambda>r. cp_source r = ''CSO'') db)
           in ([GetProfiles n [''CSO'']], db1))"

definition ClearChargingProfileResponse2 :: "int \<Rightarrow> string \<Rightarrow> string \<Rightarrow> cp_db \<Rightarrow> cp_effect list \<times> cp_db" where
  "ClearChargingProfileResponse2 tenantId name status db =
     (if status \<noteq> ''Accepted'' then ([], db)
      else let (n, db1) = generateRequestId tenantId name (deactivate_profiles tenantId name (\<lambda>_. True) db)
           in ([GetProfiles n [''CSO'', ''EMS'', ''SO'', ''Other'']], db1))"

text \<open>OCPP 1.6: the profile of the request is stored when it was accepted; it has no schedule ids.\<close>

record cs_charging_profile =
  cc_connectorId :: int
  cc_chargingProfileId :: int
  cc_stackLevel :: int
  cc_purpose :: string
  cc_kind :: string
  cc_recurrencyKind :: "string option"
  cc_validFrom :: "int option"
  cc_validTo :: "int option"
  cc_transactionId :: "int option"
  cc_schedule :: schedule_input

definition fromSetChargingProfileRequest :: "cs_charging_profile \<Rightarrow> profile_input" where
  "fromSetChargingProfileRequest p =
     \<lparr> pi_id = cc_chargingProfileId p, pi_stackLevel = cc_stackLevel p,
       pi_purpose = (if cc_purpose p = ''ChargePointMaxProfile'' then ''ChargingStationMaxProfile'' else cc_purpose p),
       pi_kind = cc_kind p,
       pi_recurrencyKind = (if cc_recurrencyKind p = Some [] then None else cc_recurrencyKind p),
       pi_validFrom = cc_validFrom p, pi_validTo = cc_validTo p, pi_dynamic = JUndef,
       pi_schedules = [(cc_schedule p)\<lparr> si_id := cc_chargingProfileId p, si_salesTariff := None \<rparr>],
       pi_transactionId = map_option int_str (cc_transactionId p) \<rparr>"

definition SetChargingProfileResponse16 ::
  "int \<Rightarrow> string \<Rightarrow> string \<Rightarrow> exn + cs_charging_profile option \<Rightarrow> cp_db \<Rightarrow> exn option \<times> cp_db" where
  "SetChargingProfileResponse16 tenantId name status original db =
     (if status \<noteq> ''Accepted'' then (None, db)
      else case original of
             Inl e \<Rightarrow> (Some e, db)
           | Inr None \<Rightarrow> (None, db)
           | Inr (Some p) \<Rightarrow>
               (None, createOrUpdateChargingProfile tenantId (fromSetChargingProfileRequest p) name
                        (Some (cc_connectorId p)) ''CSO'' True db))"

definition ClearChargingProfileResponse16 :: "int \<Rightarrow> string \<Rightarrow> string \<Rightarrow> cp_db \<Rightarrow> cp_db" where
  "ClearChargingProfileResponse16 tenantId name status db =
     (if status = ''Accepted'' then deactivate_profiles tenantId name (\<lambda>_. True) db else db)"


section \<open>Limits of a transaction\<close>

definition limits :: "cp_row \<Rightarrow> cp_db \<Rightarrow> rat set" where
  "limits p db = (\<Union>s \<in> set (schedules_of p db). pr_limit ` set (cs_periods s))"

definition stacked :: "cp_row \<Rightarrow> cp_row \<Rightarrow> bool" where
  "stacked p q \<longleftrightarrow> cp_tenantId p = cp_tenantId q \<and> cp_name p = cp_name q \<and> cp_transaction p = cp_transaction q
     \<and> cp_transaction p \<noteq> None \<and> cp_purpose p = TxProfile \<and> cp_purpose q = TxProfile"

definition linked :: "cp_db \<Rightarrow> bool" where
  "linked db \<longleftrightarrow> distinct (map cp_databaseId (pd_profiles db))
     \<and> (\<forall>s \<in> set (pd_schedules db). cs_profile s \<in> cp_databaseId ` set (pd_profiles db))"

text \<open>
  Among the profiles of a transaction the stack levels differ, and a profile with a higher level
  has no limit above one of a profile with a lower level.
\<close>

definition limits_fall :: "cp_db \<Rightarrow> bool" where
  "limits_fall db \<longleftrightarrow> linked db
     \<and> (\<forall>p \<in> set (pd_profiles db). stacked p p \<longrightarrow> limits p db \<noteq> {})
     \<and> (\<forall>p \<in> set (pd_profiles db). \<forall>q \<in> set (pd_profiles db). stacked p q \<longrightarrow> p \<noteq> q \<longrightarrow>
          cp_stackLevel p \<noteq> cp_stackLevel q
          \<and> (cp_stackLevel p < cp_stackLevel q \<longrightarrow> (\<forall>l \<in> limits p db. \<forall>m \<in> limits q db. m \<le> l)))"

definition one_transaction :: "cp_db \<Rightarrow> bool" where
  "one_transaction db \<longleftrightarrow> (\<forall>a \<in> set (db_transactions (pd_tx db)). \<forall>b \<in> set (db_transactions (pd_tx db)).
     tx_name a = tx_name b \<and> tx_transactionId a = tx_transactionId b \<longrightarrow> a = b)"

lemma next_value_above: "x \<in> set rows \<Longrightarrow> key x < next_value key start rows"
  by (cases rows) (auto simp: next_value_def less_le_trans [OF _ Max_ge] intro!: zle_add1_eq_le [THEN iffD2] Max_ge)

lemma highest_profile:
  assumes "findExistingChargingProfileWithHighestStackLevel t name tx db = Some h"
  shows "h \<in> set (pd_profiles db)" and "is_tx_profile t name (Some tx) h"
    and "q \<in> set (pd_profiles db) \<Longrightarrow> is_tx_profile t name (Some tx) q \<Longrightarrow> cp_stackLevel q \<le> cp_stackLevel h"
proof -
  let ?ps = "filter (is_tx_profile t name (Some tx)) (pd_profiles db)"
  obtain rest where s: "sort_key (\<lambda>r. - cp_stackLevel r) ?ps = h # rest"
    using assms by (auto simp: findExistingChargingProfileWithHighestStackLevel_def split: list.splits)
  have set: "set (h # rest) = set ?ps" by (metis s set_sort)
  then show "h \<in> set (pd_profiles db)" and "is_tx_profile t name (Some tx) h" by auto
  have "sorted (map (\<lambda>r. - cp_stackLevel r) (h # rest))" by (metis s sorted_sort_key)
  then have all: "\<forall>q \<in> set (h # rest). cp_stackLevel q \<le> cp_stackLevel h" by auto
  show "cp_stackLevel q \<le> cp_stackLevel h" if "q \<in> set (pd_profiles db)" "is_tx_profile t name (Some tx) q"
    using all that unfolding set by simp
qed

lemma no_highest:
  assumes "findExistingChargingProfileWithHighestStackLevel t name tx db = None" and "q \<in> set (pd_profiles db)"
  shows "\<not> is_tx_profile t name (Some tx) q"
proof -
  have "sort_key (\<lambda>r. - cp_stackLevel r) (filter (is_tx_profile t name (Some tx)) (pd_profiles db)) = []"
    using assms(1) by (auto simp: findExistingChargingProfileWithHighestStackLevel_def split: list.splits)
  then have "set (filter (is_tx_profile t name (Some tx)) (pd_profiles db)) = {}" by (metis empty_set set_sort)
  then show ?thesis using assms(2) by auto
qed

lemma first_smaller_None: "first_smaller l ss = None \<Longrightarrow> s \<in> set ss \<Longrightarrow> p \<in> set (cs_periods s) \<Longrightarrow> l \<le> pr_limit p"
  by (induction ss) (auto split: option.splits simp: find_None_iff not_less)

text \<open>A limit that passed the check is at most every limit of the transaction.\<close>

lemma checked_limit:
  assumes "validateLimitAgainstExistingProfile l t name tx db = None" and ok: "limits_fall db"
    and q: "q \<in> set (pd_profiles db)" "is_tx_profile t name (Some tx) q" and m: "m \<in> limits q db"
  shows "l \<le> m"
proof (cases "findExistingChargingProfileWithHighestStackLevel t name tx db")
  case None
  then show ?thesis using no_highest q by blast
next
  case (Some h)
  note hp = highest_profile [OF Some]
  have h: "\<forall>k \<in> limits h db. l \<le> k"
    using assms(1) first_smaller_None unfolding validateLimitAgainstExistingProfile_def limits_def Some by fastforce
  have st: "stacked q h" "stacked h h" using q(2) hp(2) by (simp_all add: is_tx_profile_def stacked_def)
  show ?thesis
  proof (cases "q = h")
    case False
    obtain k where k: "k \<in> limits h db" using ok st(2) hp(1) unfolding limits_fall_def by blast
    have "cp_stackLevel q < cp_stackLevel h"
      using ok q(1) hp(1) st(1) False hp(3) [OF q] unfolding limits_fall_def by (metis order_le_less)
    then have "k \<le> m" using ok q(1) hp(1) st(1) False k m unfolding limits_fall_def by blast
    then show ?thesis using h k by fastforce
  qed (use h m in blast)
qed


text \<open>Storing a profile with a new id and one schedule: one row each.\<close>

definition new_row :: "int \<Rightarrow> profile_input \<Rightarrow> string \<Rightarrow> int option \<Rightarrow> string \<Rightarrow> bool \<Rightarrow> cp_db \<Rightarrow> cp_row" where
  "new_row t inp name evseId source active db =
     profile_fields inp name evseId (transaction_named name (pi_transactionId inp) db) source active
       (blank_profile t (serial cp_databaseId (pd_profiles db)))"

lemma stored_new:
  assumes "pi_id inp = getNextChargingProfileId name db" and "pi_schedules inp = [s]"
  shows "\<exists>i. pd_profiles (createOrUpdateChargingProfile t inp name evseId source active db)
        = pd_profiles db @ [new_row t inp name evseId source active db]
      \<and> pd_schedules (createOrUpdateChargingProfile t inp name evseId source active db)
        = pd_schedules db @ [schedule_row t name (serial cp_databaseId (pd_profiles db)) (serial cs_databaseId (pd_schedules db)) i s]
      \<and> pd_tx (createOrUpdateChargingProfile t inp name evseId source active db) = pd_tx db"
proof -
  have "find (\<lambda>r. cp_tenantId r = t \<and> cp_name r = name \<and> cp_id r = pi_id inp) (pd_profiles db) = None"
    unfolding find_None_iff using next_value_above [of _ "filter (\<lambda>r. cp_name r = name) (pd_profiles db)" cp_id 1]
    by (force simp: assms(1) getNextChargingProfileId_def)
  then show ?thesis
    by (auto simp: createOrUpdateChargingProfile_def save_profile_def save_schedule_def assms(2) Let_def new_row_def)
qed

lemma needs_stored: "createChargingNeeds t request name db = Inr db1 \<Longrightarrow>
    pd_profiles db1 = pd_profiles db \<and> pd_schedules db1 = pd_schedules db \<and> pd_tx db1 = pd_tx db"
  by (auto simp: createChargingNeeds_def split: option.splits)

lemma limits_fall_cong:
  "pd_profiles db1 = pd_profiles db \<Longrightarrow> pd_schedules db1 = pd_schedules db \<Longrightarrow> limits_fall db1 = limits_fall db"
  by (simp add: limits_fall_def linked_def limits_def schedules_of_def)

text \<open>A profile on top of the others, below their limits, keeps the limits falling.\<close>

lemma limits_fall_add:
  assumes ok: "limits_fall db"
    and p: "pd_profiles db' = pd_profiles db @ [n]" and s: "pd_schedules db' = pd_schedules db @ [x]"
    and n: "cp_databaseId n = serial cp_databaseId (pd_profiles db)" "cs_profile x = cp_databaseId n"
    and x: "cs_periods x \<noteq> []"
    and above: "\<And>q. q \<in> set (pd_profiles db) \<Longrightarrow> stacked q n \<Longrightarrow> cp_stackLevel q < cp_stackLevel n"
    and below: "\<And>q m l. q \<in> set (pd_profiles db) \<Longrightarrow> stacked q n \<Longrightarrow> m \<in> limits q db \<Longrightarrow> l \<in> pr_limit ` set (cs_periods x) \<Longrightarrow> l \<le> m"
  shows "limits_fall db'"
proof -
  have fresh: "cp_databaseId n \<notin> cp_databaseId ` set (pd_profiles db)" unfolding n(1) by (rule serial_not_in)
  have old: "limits q db' = limits q db" if "q \<in> set (pd_profiles db)" for q
  proof -
    have "cp_databaseId q \<noteq> cs_profile x" using that fresh n(2) by (metis image_eqI)
    then show ?thesis by (simp add: limits_def schedules_of_def s)
  qed
  have "filter (\<lambda>s. cs_profile s = cp_databaseId n) (pd_schedules db) = []"
    using ok fresh unfolding limits_fall_def linked_def filter_empty_conv by metis
  then have new: "limits n db' = pr_limit ` set (cs_periods x)" by (simp add: limits_def schedules_of_def s n(2))
  have nn: "n \<notin> set (pd_profiles db)" using fresh by blast
  have sym: "stacked a b = stacked b a" for a b unfolding stacked_def by metis
  have 1: "linked db'" using ok fresh n(2) by (auto simp: limits_fall_def linked_def p s)
  have 2: "\<forall>q \<in> set (pd_profiles db'). stacked q q \<longrightarrow> limits q db' \<noteq> {}"
    using ok old new x by (auto simp: limits_fall_def p)
  have "cp_stackLevel a \<noteq> cp_stackLevel b \<and> (cp_stackLevel a < cp_stackLevel b \<longrightarrow> (\<forall>l \<in> limits a db'. \<forall>m \<in> limits b db'. m \<le> l))"
    if w: "a \<in> set (pd_profiles db')" "b \<in> set (pd_profiles db')" "stacked a b" "a \<noteq> b" for a b
  proof -
    consider "a \<in> set (pd_profiles db)" "b \<in> set (pd_profiles db)" | "a \<in> set (pd_profiles db)" "b = n" | "a = n" "b \<in> set (pd_profiles db)"
      using w by (auto simp: p)
    then show ?thesis
    proof cases
      case 1
      then show ?thesis using ok w(3,4) old unfolding limits_fall_def by simp
    next
      case 2
      then show ?thesis using above [OF 2(1)] below [OF 2(1)] w(3) old [OF 2(1)] new by auto
    next
      case 3
      then show ?thesis using above [OF 3(2)] w(3) sym by fastforce
    qed
  qed
  then show ?thesis using 1 2 unfolding limits_fall_def by blast
qed

lemma active_transaction:
  assumes "getActiveTransactionByStationIdAndEvseId updated t name e db = Some tr"
  shows "tr \<in> set (db_transactions (pd_tx db))" and "tx_tenantId tr = t" and "active_at name e db tr"
proof -
  let ?ts = "filter (\<lambda>x. tx_tenantId x = t \<and> active_at name e db x) (db_transactions (pd_tx db))"
  obtain rest where s: "sort_key (\<lambda>x. - int (updated x)) ?ts = tr # rest"
    using assms by (auto simp: getActiveTransactionByStationIdAndEvseId_def split: list.splits)
  have "set (tr # rest) = set ?ts" by (metis s set_sort)
  then show "tr \<in> set (db_transactions (pd_tx db))" and "tx_tenantId tr = t" and "active_at name e db tr" by auto
qed

lemma calculated_profile:
  assumes "calculateChargingProfile request tr t name time db = Inr p"
  obtains params where "charging_parameters request = Some params"
    "validateLimitAgainstExistingProfile (fst (snd params)) t name (tx_id tr) db = None"
    "p = computed_profile (getNextChargingProfileId name db) (getNextStackLevel name (Some (tx_id tr)) TxProfile db)
           (getNextChargingScheduleId name db) params time (nr_departure request) (tx_transactionId tr)"
  using assms by (auto simp: calculateChargingProfile_def split: option.splits)

lemma needs_cases:
  "snd (NotifyEVChargingNeeds updated time t name request db) = db
   \<or> (\<exists>tr p db1. getActiveTransactionByStationIdAndEvseId updated t name (nr_evseId request) db = Some tr
        \<and> calculateChargingProfile request tr t name time db = Inr p
        \<and> createChargingNeeds t request name db = Inr db1
        \<and> snd (NotifyEVChargingNeeds updated time t name request db)
            = createOrUpdateChargingProfile t p name (Some (nr_evseId request)) ''CSO'' False db1)"
proof (cases "getActiveTransactionByStationIdAndEvseId updated t name (nr_evseId request) db")
  case (Some tr)
  then show ?thesis
    by (cases "calculateChargingProfile request tr t name time db"; cases "createChargingNeeds t request name db")
      (simp_all add: NotifyEVChargingNeeds_def)
qed (simp add: NotifyEVChargingNeeds_def)

text \<open>The row stored for a computed profile belongs to its transaction, or to none.\<close>

lemma computed_row_transaction:
  assumes tr: "getActiveTransactionByStationIdAndEvseId updated t name e db = Some tr" and one: "one_transaction db"
    and tx: "pd_tx db1 = pd_tx db" and p: "pi_transactionId p = Some (tx_transactionId tr)"
  shows "cp_transaction (new_row t p name (Some e) ''CSO'' False db1) = None
    \<or> cp_transaction (new_row t p name (Some e) ''CSO'' False db1) = Some (tx_id tr)"
proof -
  note tr = active_transaction [OF tr]
  have "a = tr" if "find (\<lambda>x. tx_name x = name \<and> tx_transactionId x = tx_transactionId tr) (db_transactions (pd_tx db)) = Some a" for a
    using find_SomeD [OF that] tr(1,3) one unfolding one_transaction_def active_at_def by metis
  then show ?thesis using tx p by (auto simp: new_row_def profile_fields_def transaction_named_def)
qed

lemma computed_profile_falls:
  assumes "limits_fall db" and "one_transaction db"
    and a: "getActiveTransactionByStationIdAndEvseId updated t name (nr_evseId request) db = Some tr"
      "calculateChargingProfile request tr t name time db = Inr p"
      "createChargingNeeds t request name db = Inr db1"
  shows "limits_fall (createOrUpdateChargingProfile t p name (Some (nr_evseId request)) ''CSO'' False db1)"
proof -
  let ?out = "createOrUpdateChargingProfile t p name (Some (nr_evseId request)) ''CSO'' False db1"
  note tr = active_transaction [OF a(1)]
  note same = needs_stored [OF a(3)]
  obtain params where v: "validateLimitAgainstExistingProfile (fst (snd params)) t name (tx_id tr) db = None"
    and p: "p = computed_profile (getNextChargingProfileId name db) (getNextStackLevel name (Some (tx_id tr)) TxProfile db)
         (getNextChargingScheduleId name db) params time (nr_departure request) (tx_transactionId tr)"
    using calculated_profile [OF a(2)] by blast
  have pid: "pi_id p = getNextChargingProfileId name db1"
    using same by (simp add: p computed_profile_def getNextChargingProfileId_def)
  obtain sc where ps: "pi_schedules p = [sc]" and periods: "map pr_limit (si_periods sc) = [fst (snd params)]"
    by (simp add: p computed_profile_def)
  let ?n = "new_row t p name (Some (nr_evseId request)) ''CSO'' False db1"
  obtain i where st: "pd_profiles ?out = pd_profiles db1 @ [?n]"
    "pd_schedules ?out = pd_schedules db1 @ [schedule_row t name (serial cp_databaseId (pd_profiles db1)) (serial cs_databaseId (pd_schedules db1)) i sc]"
    using stored_new [OF pid ps] by blast
  have named: "cp_transaction ?n = None \<or> cp_transaction ?n = Some (tx_id tr)"
    by (rule computed_row_transaction [OF a(1) assms(2)]) (use same in \<open>simp_all add: p computed_profile_def\<close>)
  have n: "cp_databaseId ?n = serial cp_databaseId (pd_profiles db1)" "cp_tenantId ?n = t" "cp_name ?n = name"
    "cp_stackLevel ?n = getNextStackLevel name (Some (tx_id tr)) TxProfile db" "cp_purpose ?n = TxProfile"
    by (simp_all add: new_row_def profile_fields_def blank_profile_def p computed_profile_def)
  have group: "is_tx_profile t name (Some (tx_id tr)) q" if "stacked q ?n" for q
    using that named n(2,3) by (auto simp: stacked_def is_tx_profile_def)
  have ok1: "limits_fall db1" using assms(1) limits_fall_cong [of db1 db] same by simp
  show ?thesis
  proof (rule limits_fall_add [OF ok1 st n(1)])
    fix q
    assume q: "q \<in> set (pd_profiles db1)" "stacked q ?n"
    show "cp_stackLevel q < cp_stackLevel ?n"
      unfolding n(4) getNextStackLevel_def
      by (rule next_value_above) (use q group [OF q(2)] same in \<open>auto simp: is_tx_profile_def\<close>)
    fix m l
    assume m: "m \<in> limits q db1" and "l \<in> pr_limit ` set (cs_periods (schedule_row t name (serial cp_databaseId (pd_profiles db1)) (serial cs_databaseId (pd_schedules db1)) i sc))"
    then have "l = fst (snd params)" using periods by (auto simp: schedule_row_def)
    moreover have "m \<in> limits q db" using m same by (simp add: limits_def schedules_of_def)
    ultimately show "l \<le> m" using checked_limit [OF v assms(1)] q(1) group [OF q(2)] same by auto
  qed (use periods in \<open>auto simp: schedule_row_def n(1)\<close>)
qed

text \<open>C30. 
  C0. The limits the CSMS sends for a transaction only fall: handling charging needs, whatever
  they ask for and however the handling ends, keeps every profile of a transaction at or below
  the limits of those it is stacked on.
\<close>

theorem charging_limits_fall:
  assumes "limits_fall db" and "one_transaction db"
  shows "limits_fall (snd (NotifyEVChargingNeeds updated time t name request db))"
proof -
  let ?out = "snd (NotifyEVChargingNeeds updated time t name request db)"
  consider "?out = db"
    | tr p db1 where "getActiveTransactionByStationIdAndEvseId updated t name (nr_evseId request) db = Some tr"
      "calculateChargingProfile request tr t name time db = Inr p"
      "createChargingNeeds t request name db = Inr db1"
      "?out = createOrUpdateChargingProfile t p name (Some (nr_evseId request)) ''CSO'' False db1"
    using needs_cases by metis
  then show ?thesis
  proof cases
    case 1
    then show ?thesis using assms(1) by simp
  next
    case 2
    then show ?thesis using computed_profile_falls [OF assms 2(1-3)] by simp
  qed
qed


text \<open>A limit in watts that is labelled as amperes, and a duration in milliseconds.\<close>

lemma dc_limit_labelled_amps: "getChargingRateUnitAndLimit 200 400 None = (''A'', 80000)"
  by (simp add: getChargingRateUnitAndLimit_def)

lemma duration_in_milliseconds:
  "map si_duration (pi_schedules (computed_profile i n k params time (Some d) tr)) = [Some (d - time)]"
  by (simp add: computed_profile_def)

definition sample_tx :: tx_row where
  "sample_tx =
     \<lparr> tx_id = 7, tx_tenantId = 1, tx_name = ''cp1'', tx_transactionId = ''a'', tx_isActive = True,
       tx_evseId = Some 3, tx_connectorId = None, tx_authorizationId = None, tx_tariffId = JUndef,
       tx_meterStart = None, tx_totalKwh = None, tx_totalCost = None, tx_stoppedReason = JUndef,
       tx_chargingState = JUndef, tx_remoteStartId = None, tx_transactionLimit = JUndef,
       tx_startTime = None, tx_endTime = None \<rparr>"

definition sample_profiles :: cp_db where
  "sample_profiles =
     \<lparr> pd_tx = \<lparr> db_transactions = [sample_tx],
                 db_evses = [\<lparr> er_id = 3, er_tenantId = 1, er_stationId = 1, er_name = ''cp1'', er_evseTypeId = Some 1, er_evseId = ''1'' \<rparr>],
                 db_connectors = [], db_evse_types = [], db_stations = [], db_authorizations = [], db_tariffs = [],
                 db_sequences = (\<lambda>_. None), db_starts = [], db_stops = [], db_events = [], db_meter_values = [],
                 db_reservations = [] \<rparr>,
       pd_profiles = [(blank_profile 1 5)\<lparr> cp_name := ''cp1'', cp_id := 4, cp_purpose := TxProfile, cp_transaction := Some 7 \<rparr>],
       pd_schedules = [\<lparr> cs_databaseId = 1, cs_tenantId = 1, cs_name = ''cp1'', cs_id = 1, cs_startSchedule = None,
                         cs_duration = None, cs_unit = ''A'',
                         cs_periods = [\<lparr> pr_startPeriod = 0, pr_limit = 32, pr_numberPhases = None, pr_rest = JUndef \<rparr>],
                         cs_minRate = None, cs_profile = 5 \<rparr>],
       pd_tariffs = [], pd_needs = [], pd_requests = (\<lambda>_. None) \<rparr>"

definition sample_needs :: needs_request where
  "sample_needs =
     \<lparr> nr_evseId = 1, nr_transfer = AC_three_phase,
       nr_ac = Given \<lparr> ac_evMinCurrent = 6, ac_evMaxCurrent = 16 \<rparr>, nr_dc = Absent,
       nr_departure = None, nr_maxScheduleTuples = None \<rparr>"

theorem charging_limits_fall_witness:
  "limits_fall (snd (NotifyEVChargingNeeds (\<lambda>_. 0) 1000 1 ''cp1'' sample_needs sample_profiles))
   \<and> map cp_stackLevel (pd_profiles (snd (NotifyEVChargingNeeds (\<lambda>_. 0) 1000 1 ''cp1'' sample_needs sample_profiles))) = [0, 1]"
proof
  have "limits_fall sample_profiles"
    by (auto simp: limits_fall_def linked_def limits_def schedules_of_def stacked_def sample_profiles_def blank_profile_def)
  moreover have "one_transaction sample_profiles" by (simp add: one_transaction_def sample_profiles_def)
  ultimately show "limits_fall (snd (NotifyEVChargingNeeds (\<lambda>_. 0) 1000 1 ''cp1'' sample_needs sample_profiles))"
    by (rule charging_limits_fall)
  show "map cp_stackLevel (pd_profiles (snd (NotifyEVChargingNeeds (\<lambda>_. 0) 1000 1 ''cp1'' sample_needs sample_profiles))) = [0, 1]"
    by code_simp
qed


end
