(* ===== verification/MessageLog.thy ===== *)
theory MessageLog
  imports LocalAuthList
begin

text \<open>
  The table of OCPP messages and the triggers that join a response to its request
  (dal/layers/sequelize/model/OCPPMessage.ts and repository/OCPPMessage.ts, migration
  20260806120000-fix-ocpp-message-correlation-trigger.ts of apps/ocpp-server). The advisory lock
  of the triggers makes insertions of one correlation key sequential, so an insertion with its
  triggers is one operation here. Comparisons with NULL are false, as in SQL. Where two rows have
  the same creation time and the query names no second key, the later row is read.
\<close>

section \<open>The table\<close>

record message_row =
  mg_id :: nat
  mg_tenantId :: js_num
  mg_name :: string
  mg_correlationId :: "string option"
  mg_origin :: string
  mg_type :: "nat option"
  mg_state :: string
  mg_protocol :: string
  mg_action :: "string option"
  mg_payload :: jsval
  mg_raw :: string
  mg_message :: jsval
  mg_timestamp :: string
  mg_createdAt :: int
  mg_requestMessageId :: "nat option"

text \<open>What createOCPPMessage is called with.\<close>

record message_input =
  mi_name :: string
  mi_correlationId :: "string option"
  mi_origin :: string
  mi_type :: "nat option"
  mi_state :: string
  mi_protocol :: string
  mi_action :: "string option"
  mi_payload :: jsval
  mi_raw :: string
  mi_message :: jsval
  mi_timestamp :: string

definition row_of :: "nat \<Rightarrow> js_num \<Rightarrow> int \<Rightarrow> message_input \<Rightarrow> message_row" where
  "row_of k t time m =
     \<lparr> mg_id = k, mg_tenantId = t, mg_name = mi_name m, mg_correlationId = mi_correlationId m,
       mg_origin = mi_origin m, mg_type = mi_type m, mg_state = mi_state m, mg_protocol = mi_protocol m,
       mg_action = mi_action m, mg_payload = mi_payload m, mg_raw = mi_raw m, mg_message = mi_message m,
       mg_timestamp = mi_timestamp m, mg_createdAt = time, mg_requestMessageId = None \<rparr>"

text \<open>ORDER BY createdAt DESC, id DESC and its reverse, LIMIT 1.\<close>

definition newer :: "message_row \<Rightarrow> message_row \<Rightarrow> bool" where
  "newer x y \<longleftrightarrow> mg_createdAt y < mg_createdAt x \<or> mg_createdAt x = mg_createdAt y \<and> mg_id y < mg_id x"

definition first_by :: "('a \<Rightarrow> 'a \<Rightarrow> bool) \<Rightarrow> 'a list \<Rightarrow> 'a option" where
  "first_by before xs =
     foldr (\<lambda>x best. case best of None \<Rightarrow> Some x | Some y \<Rightarrow> Some (if before x y then x else y)) xs None"

section \<open>The triggers\<close>

text \<open>The columns both lookups compare.\<close>

definition same_exchange :: "message_row \<Rightarrow> message_row \<Rightarrow> bool" where
  "same_exchange a b \<longleftrightarrow> mg_tenantId a = mg_tenantId b \<and> mg_name a = mg_name b
     \<and> mg_correlationId a = mg_correlationId b \<and> mg_correlationId a \<noteq> None"

definition is_call :: "message_row \<Rightarrow> bool" where
  "is_call m \<longleftrightarrow> mg_type m = Some 2"

definition is_answer :: "message_row \<Rightarrow> bool" where
  "is_answer m \<longleftrightarrow> mg_type m = Some 3 \<or> mg_type m = Some 4"

definition claimed :: "message_row list \<Rightarrow> message_row \<Rightarrow> bool" where
  "claimed rows c \<longleftrightarrow> (\<exists>r \<in> set rows. mg_requestMessageId r = Some (mg_id c))"

definition coalesce :: "'a option \<Rightarrow> 'a option \<Rightarrow> 'a option" where
  "coalesce a b = (if a = None then b else a)"

definition ocpp_correlate_response :: "message_row list \<Rightarrow> message_row \<Rightarrow> message_row" where
  "ocpp_correlate_response rows m =
     (if mg_correlationId m \<noteq> None \<and> mg_requestMessageId m = None \<and> is_answer m
      then case first_by newer (filter (\<lambda>c. same_exchange c m \<and> is_call c \<and> \<not> claimed rows c) rows) of
             None \<Rightarrow> m
           | Some c \<Rightarrow> m\<lparr> mg_requestMessageId := Some (mg_id c), mg_action := coalesce (mg_action m) (mg_action c) \<rparr>
      else m)"

definition ocpp_correlate_call :: "message_row \<Rightarrow> message_row list \<Rightarrow> message_row list" where
  "ocpp_correlate_call m rows =
     (if mg_correlationId m \<noteq> None \<and> is_call m
      then case first_by (\<lambda>x y. newer y x)
                  (filter (\<lambda>r. same_exchange r m \<and> is_answer r \<and> mg_requestMessageId r = None \<and> mg_id r \<noteq> mg_id m) rows) of
             None \<Rightarrow> rows
           | Some a \<Rightarrow> update_rows (\<lambda>r. mg_id r = mg_id a)
                         (\<lambda>r. r\<lparr> mg_requestMessageId := Some (mg_id m), mg_action := coalesce (mg_action r) (mg_action m) \<rparr>) rows
      else rows)"

definition insert_message :: "js_num \<Rightarrow> int \<Rightarrow> message_input \<Rightarrow> message_row list \<Rightarrow> message_row list" where
  "insert_message t time m rows =
     (let r = ocpp_correlate_response rows (row_of (serial mg_id rows) t time m)
      in ocpp_correlate_call r (rows @ [r]))"

text \<open>The inserted row is read again by its key, newest first; sequelize refuses a key that is undefined.\<close>

definition reload_message :: "js_num \<Rightarrow> message_input \<Rightarrow> message_row list \<Rightarrow> message_row option" where
  "reload_message t m rows =
     first_by newer (filter (\<lambda>r. mg_tenantId r = t \<and> mg_name r = mi_name m \<and> mg_correlationId r = mi_correlationId m) rows)"

definition createOCPPMessage :: "js_num \<Rightarrow> int \<Rightarrow> message_input \<Rightarrow> message_row list \<Rightarrow> (exn + message_row) \<times> message_row list" where
  "createOCPPMessage t time m rows =
     (let rows' = insert_message t time m rows
      in if mi_correlationId m = None
         then (Inl (JsErr ''WHERE parameter correlationId has invalid undefined value'' []), rows')
         else (case reload_message t m rows' of
            None \<Rightarrow> (Inl (JsErr ''Failed to reload inserted OCPP message'' []), rows')
          | Some r \<Rightarrow> (Inr r, rows')))"

definition getRequestByCorrelationId :: "js_num \<Rightarrow> string \<Rightarrow> message_row list \<Rightarrow> exn + message_row option" where
  "getRequestByCorrelationId t c rows =
     read_only_one (\<lambda>m. mg_tenantId m = t \<and> mg_correlationId m = Some c \<and> mg_requestMessageId m = None) rows"

text \<open>A table is what a sequence of insertions leaves.\<close>

fun stored_messages :: "(js_num \<times> int \<times> message_input) list \<Rightarrow> message_row list \<Rightarrow> message_row list" where
  "stored_messages [] rows = rows"
| "stored_messages ((t, time, m) # ms) rows = stored_messages ms (insert_message t time m rows)"

section \<open>Rows that belong together\<close>

lemma first_by_Cons: "first_by b (x # xs) = (case first_by b xs of None \<Rightarrow> Some x | Some y \<Rightarrow> Some (if b x y then x else y))"
  by (simp add: first_by_def)

lemma first_by_None: "first_by b xs = None \<longleftrightarrow> xs = []"
  by (cases xs) (simp_all add: first_by_def split: option.split)

lemma first_by_Some: "x \<in> set xs \<Longrightarrow> \<exists>y. first_by b xs = Some y"
  using first_by_None [of b xs] by (cases "first_by b xs") auto

lemma first_by_in: "first_by b xs = Some x \<Longrightarrow> x \<in> set xs"
  by (induction xs arbitrary: x) (auto simp: first_by_Cons first_by_def [of b "[]"] split: option.splits if_splits)

text \<open>On rows with distinct ids the order is total, so the row read is the newest.\<close>

lemma first_by_newest:
  assumes "first_by newer xs = Some x" "distinct (map mg_id xs)" "y \<in> set xs" "y \<noteq> x"
  shows "newer x y"
  using assms
proof (induction xs arbitrary: x y)
  case (Cons z zs)
  have trans: "newer a c" if "newer a b" "newer b c" for a b c using that by (auto simp: newer_def)
  have total: "newer a b \<or> newer b a" if "mg_id a \<noteq> mg_id b" for a b using that by (auto simp: newer_def)
  show ?case
  proof (cases "first_by newer zs")
    case None
    then have "zs = []" by (simp add: first_by_None)
    then have "x = z" using Cons.prems(1) None by (simp add: first_by_Cons)
    then show ?thesis using Cons.prems(3,4) \<open>zs = []\<close> by simp
  next
    case (Some w)
    have w: "w \<in> set zs" by (rule first_by_in [OF Some])
    have d: "distinct (map mg_id zs)" "mg_id z \<noteq> mg_id w" using Cons.prems(2) w by auto
    note ih = Cons.IH [OF Some d(1)]
    have x: "x = (if newer z w then z else w)" using Cons.prems(1) Some by (simp add: first_by_Cons)
    show ?thesis
    proof (cases "newer z w")
      case True
      then show ?thesis using x Cons.prems(3,4) ih [of y] trans by auto
    next
      case False
      then have "newer w z" using total d(2) by blast
      then show ?thesis using x False Cons.prems(3,4) ih [of y] by auto
    qed
  qed
qed (simp add: first_by_def)

text \<open>
  What the triggers keep of the table: ids are unique; a link leads from an answer to a call of
  the same exchange, which no other answer is linked to, and an answer whose call has an action
  has one; and no call is left without an answer next to an answer without a call.
\<close>

definition linked :: "message_row list \<Rightarrow> message_row \<Rightarrow> message_row \<Rightarrow> bool" where
  "linked rows r c \<longleftrightarrow> r \<in> set rows \<and> c \<in> set rows \<and> mg_requestMessageId r = Some (mg_id c)"

definition links_ok :: "message_row list \<Rightarrow> bool" where
  "links_ok rows \<longleftrightarrow> (\<forall>r \<in> set rows. mg_requestMessageId r \<noteq> None \<longrightarrow>
     is_answer r \<and> (\<exists>c \<in> set rows. mg_requestMessageId r = Some (mg_id c) \<and> same_exchange c r \<and> is_call c
        \<and> (mg_action c \<noteq> None \<longrightarrow> mg_action r \<noteq> None)))"

definition one_answer :: "message_row list \<Rightarrow> bool" where
  "one_answer rows \<longleftrightarrow> (\<forall>r \<in> set rows. \<forall>q \<in> set rows. mg_requestMessageId r \<noteq> None
     \<longrightarrow> mg_requestMessageId r = mg_requestMessageId q \<longrightarrow> r = q)"

definition none_waiting :: "message_row list \<Rightarrow> bool" where
  "none_waiting rows \<longleftrightarrow> \<not> (\<exists>c \<in> set rows. \<exists>r \<in> set rows. same_exchange c r \<and> is_call c \<and> \<not> claimed rows c
     \<and> is_answer r \<and> mg_requestMessageId r = None)"

definition message_log_ok :: "message_row list \<Rightarrow> bool" where
  "message_log_ok rows \<longleftrightarrow> distinct (map mg_id rows) \<and> links_ok rows \<and> one_answer rows \<and> none_waiting rows"

definition link_fine :: "message_row list \<Rightarrow> message_row \<Rightarrow> bool" where
  "link_fine rows r \<longleftrightarrow> (mg_requestMessageId r \<noteq> None \<longrightarrow>
     is_answer r \<and> (\<exists>c \<in> set rows. mg_requestMessageId r = Some (mg_id c) \<and> same_exchange c r \<and> is_call c
        \<and> (mg_action c \<noteq> None \<longrightarrow> mg_action r \<noteq> None)))"

lemma links_fine: "links_ok rows \<longleftrightarrow> (\<forall>r \<in> set rows. link_fine rows r)"
  by (simp only: links_ok_def link_fine_def)

lemma link_fine_mono: "link_fine rows r \<Longrightarrow> set rows \<subseteq> set rows' \<Longrightarrow> link_fine rows' r"
  unfolding link_fine_def by (meson subsetD)

lemma links_ok_add: "links_ok rows \<Longrightarrow> link_fine rows m \<Longrightarrow> links_ok (rows @ [m])"
  unfolding links_fine using link_fine_mono [of rows _ "rows @ [m]"] by auto

lemma one_answer_add:
  assumes "one_answer rows" and "mg_requestMessageId m \<noteq> None \<Longrightarrow> \<forall>q \<in> set rows. mg_requestMessageId q \<noteq> mg_requestMessageId m"
  shows "one_answer (rows @ [m])"
  unfolding one_answer_def
proof (intro ballI impI)
  fix r q
  assume h: "r \<in> set (rows @ [m])" "q \<in> set (rows @ [m])" "mg_requestMessageId r \<noteq> None" "mg_requestMessageId r = mg_requestMessageId q"
  then consider "r = m" "q = m" | "r = m" "q \<in> set rows" | "r \<in> set rows" "q = m" | "r \<in> set rows" "q \<in> set rows" by auto
  then show "r = q"
  proof cases
    case 4
    then show ?thesis using assms(1) h(3,4) unfolding one_answer_def by blast
  qed (use assms(2) h(3,4) in metis)+
qed

lemma same_exchange_sym: "same_exchange a b \<longleftrightarrow> same_exchange b a"
  unfolding same_exchange_def by metis

lemma same_exchange_trans: "same_exchange a b \<Longrightarrow> same_exchange b c \<Longrightarrow> same_exchange a c"
  unfolding same_exchange_def by metis

lemma call_no_answer: "is_call m \<Longrightarrow> \<not> is_answer m"
  by (simp add: is_call_def is_answer_def)

lemma unclaimed_fresh:
  assumes "links_ok rows" and "k \<notin> mg_id ` set rows"
  shows "r \<in> set rows \<Longrightarrow> mg_requestMessageId r \<noteq> Some k"
  using assms unfolding links_ok_def by (metis image_eqI option.distinct(1) option.inject)

lemma claimed_append: "claimed (rows @ [m]) c \<longleftrightarrow> claimed rows c \<or> mg_requestMessageId m = Some (mg_id c)"
  by (auto simp: claimed_def)

text \<open>A row that finds no partner.\<close>

lemma add_single:
  assumes ok: "message_log_ok rows" and f: "mg_id m \<notin> mg_id ` set rows" "mg_requestMessageId m = None"
    and a: "is_answer m \<Longrightarrow> mg_correlationId m \<noteq> None \<Longrightarrow> \<forall>c \<in> set rows. same_exchange c m \<longrightarrow> is_call c \<longrightarrow> claimed rows c"
    and c: "is_call m \<Longrightarrow> mg_correlationId m \<noteq> None
        \<Longrightarrow> \<forall>r \<in> set rows. same_exchange r m \<longrightarrow> is_answer r \<longrightarrow> mg_requestMessageId r \<noteq> None"
  shows "message_log_ok (rows @ [m])"
proof -
  have cl: "claimed (rows @ [m]) x = claimed rows x" for x using f(2) by (simp add: claimed_append)
  have "distinct (map mg_id (rows @ [m]))" using ok f(1) by (simp add: message_log_ok_def)
  moreover have "links_ok (rows @ [m])"
    using ok f(2) by (intro links_ok_add) (simp_all add: message_log_ok_def link_fine_def)
  moreover have "one_answer (rows @ [m])"
    using ok f(2) by (intro one_answer_add) (simp_all add: message_log_ok_def)
  moreover have "none_waiting (rows @ [m])"
    unfolding none_waiting_def
  proof (intro notI, elim bexE conjE)
    fix x r
    assume h: "x \<in> set (rows @ [m])" "r \<in> set (rows @ [m])" "same_exchange x r" "is_call x" "\<not> claimed (rows @ [m]) x"
      "is_answer r" "mg_requestMessageId r = None"
    have k: "mg_correlationId x \<noteq> None" "mg_correlationId r \<noteq> None" using h(3) unfolding same_exchange_def by metis+
    have "x \<noteq> m \<or> r \<noteq> m" using h(4,6) call_no_answer by blast
    then consider "x \<in> set rows" "r \<in> set rows" | "x = m" "r \<in> set rows" | "x \<in> set rows" "r = m" using h(1,2) by auto
    then show False
    proof cases
      case 1
      then show False using ok h cl unfolding message_log_ok_def none_waiting_def by blast
    next
      case 2
      then show False using c h(3,4,6,7) k same_exchange_sym by blast
    next
      case 3
      then show False using a h(3-6) k cl by blast
    qed
  qed
  ultimately show ?thesis by (simp add: message_log_ok_def)
qed

text \<open>An answer that claims a call.\<close>

lemma add_claiming:
  assumes ok: "message_log_ok rows" and f: "mg_id m \<notin> mg_id ` set rows" "is_answer m" "mg_requestMessageId m = Some (mg_id c)"
    and c: "c \<in> set rows" "same_exchange c m" "is_call c" "\<not> claimed rows c" "mg_action c \<noteq> None \<Longrightarrow> mg_action m \<noteq> None"
  shows "message_log_ok (rows @ [m])"
proof -
  have "distinct (map mg_id (rows @ [m]))" using ok f(1) by (simp add: message_log_ok_def)
  moreover have "link_fine rows m"
    unfolding link_fine_def using f c by (intro impI conjI bexI [of _ c]) simp_all
  then have "links_ok (rows @ [m])" using ok by (intro links_ok_add) (simp_all add: message_log_ok_def)
  moreover have "one_answer (rows @ [m])"
    using ok f(3) c(4) by (intro one_answer_add) (simp_all add: message_log_ok_def claimed_def)
  moreover have "none_waiting (rows @ [m])"
  proof -
    have "\<not> is_call m" using f(2) call_no_answer by blast
    then show ?thesis using ok f(3) by (auto simp: message_log_ok_def none_waiting_def claimed_append)
  qed
  ultimately show ?thesis by (simp add: message_log_ok_def)
qed

text \<open>A call that adopts an answer stored before it.\<close>

definition adopted :: "message_row \<Rightarrow> message_row \<Rightarrow> message_row" where
  "adopted m r = r\<lparr> mg_requestMessageId := Some (mg_id m), mg_action := coalesce (mg_action r) (mg_action m) \<rparr>"

lemma adopted_fields:
  "mg_id (adopted m r) = mg_id r" "mg_requestMessageId (adopted m r) = Some (mg_id m)"
  "is_answer (adopted m r) = is_answer r" "is_call (adopted m r) = is_call r"
  "same_exchange x (adopted m r) = same_exchange x r" "same_exchange (adopted m r) x = same_exchange r x"
  "mg_action m \<noteq> None \<Longrightarrow> mg_action (adopted m r) \<noteq> None"
  by (simp_all add: adopted_def is_answer_def is_call_def same_exchange_def coalesce_def)

lemma image_one: "a \<in> S \<Longrightarrow> (\<lambda>r. if r = a then f r else r) ` S = insert (f a) (S - {a})"
  by auto

lemma adopt_set:
  assumes "distinct (map mg_id rows)" "a \<in> set rows"
  shows "set (update_rows (\<lambda>r. mg_id r = mg_id a) f rows) = insert (f a) (set rows - {a})"
proof -
  have one: "x = a" if "x \<in> set rows" "mg_id x = mg_id a" for x
    using assms that by (auto simp: distinct_map dest: inj_onD)
  have "set (update_rows (\<lambda>r. mg_id r = mg_id a) f rows) = (\<lambda>r. if mg_id r = mg_id a then f r else r) ` set rows"
    by (simp add: update_rows_def)
  also have "\<dots> = (\<lambda>r. if r = a then f r else r) ` set rows" by (rule image_cong) (use one in auto)
  also have "\<dots> = insert (f a) (set rows - {a})" by (rule image_one [OF assms(2)])
  finally show ?thesis .
qed

lemma add_adopting:
  assumes ok: "message_log_ok rows" and m: "mg_id m \<notin> mg_id ` set rows" "is_call m" "mg_requestMessageId m = None"
    and a: "a \<in> set rows" "same_exchange a m" "is_answer a" "mg_requestMessageId a = None"
  shows "message_log_ok (update_rows (\<lambda>r. mg_id r = mg_id a) (adopted m) (rows @ [m]))"
    (is "message_log_ok ?new")
proof -
  have d: "distinct (map mg_id (rows @ [m]))" using ok m(1) by (simp add: message_log_ok_def)
  have am: "a \<noteq> m" using a(3) m(2) call_no_answer by blast
  have new: "set ?new = insert (adopted m a) (insert m (set rows - {a}))"
    using adopt_set [OF d, of a "adopted m"] a(1) am by auto
  have fresh: "mg_requestMessageId r \<noteq> Some (mg_id m)" if "r \<in> set rows" for r
    using ok m(1) that unclaimed_fresh [of rows "mg_id m" r] by (simp add: message_log_ok_def)
  have "distinct (map mg_id ?new)" using d update_rows_map [of mg_id "adopted m"] by (simp add: adopted_fields)
  moreover have "links_ok ?new"
    unfolding links_fine new
  proof (intro ballI)
    fix r
    assume "r \<in> insert (adopted m a) (insert m (set rows - {a}))"
    then consider "r = adopted m a" | "r = m" | "r \<in> set rows" by blast
    then show "link_fine ?new r"
    proof cases
      case 1
      have "same_exchange m (adopted m a)" using a(2) by (simp add: adopted_fields same_exchange_sym [of m])
      then show ?thesis
        unfolding link_fine_def new 1 using a(3) m(2) adopted_fields(2,3,7) [of m a]
        by (intro impI conjI bexI [of _ m]) simp_all
    next
      case 3
      then have l: "link_fine rows r" using ok by (simp add: message_log_ok_def links_fine)
      show ?thesis
        unfolding link_fine_def
      proof (intro impI)
        assume "mg_requestMessageId r \<noteq> None"
        then obtain c where c: "is_answer r" "c \<in> set rows" "mg_requestMessageId r = Some (mg_id c)" "same_exchange c r" "is_call c"
          "mg_action c \<noteq> None \<longrightarrow> mg_action r \<noteq> None"
          using l unfolding link_fine_def by blast
        then have "c \<noteq> a" using a(3) call_no_answer by blast
        then have "c \<in> set ?new" using c(2) new by blast
        then show "is_answer r \<and> (\<exists>c \<in> set ?new. mg_requestMessageId r = Some (mg_id c) \<and> same_exchange c r \<and> is_call c
            \<and> (mg_action c \<noteq> None \<longrightarrow> mg_action r \<noteq> None))"
          using c by blast
      qed
    qed (simp add: link_fine_def m(3))
  qed
  moreover have "one_answer ?new"
    unfolding one_answer_def new
  proof (intro ballI impI)
    fix r q
    assume h: "r \<in> insert (adopted m a) (insert m (set rows - {a}))" "q \<in> insert (adopted m a) (insert m (set rows - {a}))"
      "mg_requestMessageId r \<noteq> None" "mg_requestMessageId r = mg_requestMessageId q"
    have "r \<noteq> m" "q \<noteq> m" using h(3,4) m(3) by metis+
    then have "r \<in> set rows \<or> r = adopted m a" "q \<in> set rows \<or> q = adopted m a" using h(1,2) by blast+
    then show "r = q"
      using h(3,4) fresh adopted_fields(2) [of m a] ok unfolding message_log_ok_def one_answer_def by metis
  qed
  moreover have "none_waiting ?new"
    unfolding none_waiting_def
  proof (intro notI, elim bexE conjE)
    fix c r
    assume h: "c \<in> set ?new" "r \<in> set ?new" "same_exchange c r" "is_call c" "\<not> claimed ?new c" "is_answer r" "mg_requestMessageId r = None"
    have "r \<noteq> m" using h(6) m(2) call_no_answer by blast
    moreover have "r \<noteq> adopted m a" using h(7) adopted_fields(2) [of m a] by (metis option.distinct(1))
    ultimately have r: "r \<in> set rows" using h(2) new by blast
    have "c \<noteq> m" using h(5) new adopted_fields(2) [of m a] unfolding claimed_def by blast
    moreover have "c \<noteq> adopted m a" using h(4) a(3) call_no_answer adopted_fields(3) by blast
    ultimately have c: "c \<in> set rows" using h(1) new by blast
    have "claimed ?new c" if q: "claimed rows c"
    proof -
      obtain x where x: "x \<in> set rows" "mg_requestMessageId x = Some (mg_id c)" using q unfolding claimed_def by blast
      then have "x \<noteq> a" using a(4) by (metis option.distinct(1))
      then have "x \<in> set ?new" using x(1) new by blast
      then show ?thesis using x(2) unfolding claimed_def by blast
    qed
    then show False using ok c r h unfolding message_log_ok_def none_waiting_def by blast
  qed
  ultimately show ?thesis by (simp add: message_log_ok_def)
qed

lemma row_of_fields:
  "mg_id (row_of k t time m) = k" "mg_requestMessageId (row_of k t time m) = None"
  by (simp_all add: row_of_def)

lemma correlated_response:
  assumes "ocpp_correlate_response rows m = r" "mg_requestMessageId m = None"
  obtains (alone) "r = m" "is_answer m \<Longrightarrow> mg_correlationId m \<noteq> None \<Longrightarrow> \<forall>c \<in> set rows. same_exchange c m \<longrightarrow> is_call c \<longrightarrow> claimed rows c"
    | (claiming) c where "r = adopted c m" "is_answer m" "c \<in> set rows" "same_exchange c m" "is_call c" "\<not> claimed rows c"
proof (cases "mg_correlationId m \<noteq> None \<and> is_answer m")
  case False
  then have "r = m" using assms by (auto simp: ocpp_correlate_response_def)
  then show thesis using alone False by blast
next
  case True
  show thesis
  proof (cases "first_by newer (filter (\<lambda>c. same_exchange c m \<and> is_call c \<and> \<not> claimed rows c) rows)")
    case None
    then have "r = m" using assms True by (simp add: ocpp_correlate_response_def)
    moreover have "filter (\<lambda>c. same_exchange c m \<and> is_call c \<and> \<not> claimed rows c) rows = []" using None by (simp only: first_by_None)
    then have "\<forall>c \<in> set rows. same_exchange c m \<longrightarrow> is_call c \<longrightarrow> claimed rows c" by (simp only: filter_empty_conv) blast
    ultimately show thesis using alone by blast
  next
    case (Some c)
    have "r = adopted c m" using assms True Some by (simp add: ocpp_correlate_response_def adopted_def)
    moreover have "c \<in> set (filter (\<lambda>c. same_exchange c m \<and> is_call c \<and> \<not> claimed rows c) rows)" by (rule first_by_in [OF Some])
    ultimately show thesis using claiming [of c] True by simp
  qed
qed

lemma correlated_call:
  assumes "ocpp_correlate_call m rows = rows'"
  obtains (alone) "rows' = rows"
      "is_call m \<Longrightarrow> mg_correlationId m \<noteq> None \<Longrightarrow> \<forall>r \<in> set rows. same_exchange r m \<longrightarrow> is_answer r \<longrightarrow> mg_id r \<noteq> mg_id m \<longrightarrow> mg_requestMessageId r \<noteq> None"
    | (adopting) a where "rows' = update_rows (\<lambda>r. mg_id r = mg_id a) (adopted m) rows" "is_call m" "a \<in> set rows"
      "same_exchange a m" "is_answer a" "mg_requestMessageId a = None" "mg_id a \<noteq> mg_id m"
proof (cases "mg_correlationId m \<noteq> None \<and> is_call m")
  case False
  then have "rows' = rows" using assms by (auto simp: ocpp_correlate_call_def)
  then show thesis using alone False by blast
next
  case True
  let ?f = "filter (\<lambda>r. same_exchange r m \<and> is_answer r \<and> mg_requestMessageId r = None \<and> mg_id r \<noteq> mg_id m) rows"
  show thesis
  proof (cases "first_by (\<lambda>x y. newer y x) ?f")
    case None
    then have "rows' = rows" using assms True by (simp add: ocpp_correlate_call_def)
    moreover have "?f = []" using None by (simp only: first_by_None)
    then have "\<forall>r \<in> set rows. same_exchange r m \<longrightarrow> is_answer r \<longrightarrow> mg_id r \<noteq> mg_id m \<longrightarrow> mg_requestMessageId r \<noteq> None"
      by (auto simp: filter_empty_conv)
    ultimately show thesis using alone by blast
  next
    case (Some a)
    have "rows' = update_rows (\<lambda>r. mg_id r = mg_id a) (adopted m) rows"
      using assms True Some by (simp add: ocpp_correlate_call_def adopted_def [abs_def])
    moreover have "a \<in> set ?f" by (rule first_by_in [OF Some])
    ultimately show thesis using adopting [of a] True by simp
  qed
qed

lemma insert_message_ok:
  assumes ok: "message_log_ok rows"
  shows "message_log_ok (insert_message t time m rows)"
proof -
  let ?m = "row_of (serial mg_id rows) t time m"
  let ?r = "ocpp_correlate_response rows ?m"
  have f: "mg_id ?m \<notin> mg_id ` set rows" by (simp add: row_of_fields serial_not_in)
  have new: "insert_message t time m rows = ocpp_correlate_call ?r (rows @ [?r])" by (simp add: insert_message_def Let_def)
  show ?thesis
  proof (rule correlated_response [OF refl row_of_fields(2), of rows "serial mg_id rows" t time m])
    fix c
    assume c: "?r = adopted c ?m" "is_answer ?m" "c \<in> set rows" "same_exchange c ?m" "is_call c" "\<not> claimed rows c"
    have n: "\<not> is_call ?r" using c(1,2) call_no_answer adopted_fields(3) by metis
    have "message_log_ok (rows @ [?r])"
      unfolding c(1) using ok f c(2-6) by (intro add_claiming [of rows _ c]) (simp_all add: adopted_fields)
    then show ?thesis using n unfolding new by (simp add: ocpp_correlate_call_def)
  next
    assume r: "?r = ?m" and a: "is_answer ?m \<Longrightarrow> mg_correlationId ?m \<noteq> None \<Longrightarrow> \<forall>c \<in> set rows. same_exchange c ?m \<longrightarrow> is_call c \<longrightarrow> claimed rows c"
    show ?thesis
    proof (rule correlated_call [OF refl, of ?m "rows @ [?m]"])
      assume o: "ocpp_correlate_call ?m (rows @ [?m]) = rows @ [?m]"
        and c: "is_call ?m \<Longrightarrow> mg_correlationId ?m \<noteq> None \<Longrightarrow> \<forall>r \<in> set (rows @ [?m]). same_exchange r ?m \<longrightarrow> is_answer r \<longrightarrow> mg_id r \<noteq> mg_id ?m \<longrightarrow> mg_requestMessageId r \<noteq> None"
      have "message_log_ok (rows @ [?m])"
      proof (rule add_single [OF ok f row_of_fields(2) a])
        assume "is_call ?m" "mg_correlationId ?m \<noteq> None"
        from c [OF this] f show "\<forall>r \<in> set rows. same_exchange r ?m \<longrightarrow> is_answer r \<longrightarrow> mg_requestMessageId r \<noteq> None"
          by (metis UnI1 image_eqI set_append)
      qed
      then show ?thesis unfolding new r o .
    next
      fix x
      assume x: "ocpp_correlate_call ?m (rows @ [?m]) = update_rows (\<lambda>r. mg_id r = mg_id x) (adopted ?m) (rows @ [?m])"
        "is_call ?m" "x \<in> set (rows @ [?m])" "same_exchange x ?m" "is_answer x" "mg_requestMessageId x = None" "mg_id x \<noteq> mg_id ?m"
      have "x \<in> set rows" using x(3,7) by auto
      from add_adopting [OF ok f x(2) row_of_fields(2) this x(4-6)] show ?thesis unfolding new r x(1) .
    qed
  qed
qed

lemma stored_messages_ok: "message_log_ok rows \<Longrightarrow> message_log_ok (stored_messages ms rows)"
  by (induction ms rows rule: stored_messages.induct) (simp_all add: insert_message_ok)


section \<open>Requests and answers\<close>

definition of_key :: "js_num \<Rightarrow> string \<Rightarrow> string \<Rightarrow> message_row \<Rightarrow> bool" where
  "of_key t n c m \<longleftrightarrow> mg_tenantId m = t \<and> mg_name m = n \<and> mg_correlationId m = Some c"

lemma of_key_exchange: "of_key t n c a \<Longrightarrow> same_exchange a b \<longleftrightarrow> of_key t n c b"
  by (auto simp: of_key_def same_exchange_def)

lemma paired_count:
  assumes "message_log_ok rows"
  shows "length (filter (\<lambda>m. of_key t n c m \<and> is_answer m \<and> mg_requestMessageId m \<noteq> None) rows)
     = min (length (filter (\<lambda>m. of_key t n c m \<and> is_call m) rows)) (length (filter (\<lambda>m. of_key t n c m \<and> is_answer m) rows))"
    (is "length (filter ?L rows) = min (length (filter ?C rows)) (length (filter ?A rows))")
proof -
  have d: "distinct rows" using assms by (simp add: message_log_ok_def distinct_map)
  have len: "length (filter P rows) = card {m \<in> set rows. P m}" for P
    using d distinct_card [of "filter P rows"] by simp
  let ?L' = "{m \<in> set rows. ?L m}" and ?C' = "{m \<in> set rows. ?C m}" and ?A' = "{m \<in> set rows. ?A m}"
  let ?K = "{m \<in> ?C'. claimed rows m}"
  have links: "is_answer r \<and> (\<exists>c \<in> set rows. mg_requestMessageId r = Some (mg_id c) \<and> same_exchange c r \<and> is_call c)"
    if "r \<in> set rows" "mg_requestMessageId r \<noteq> None" for r
    using assms that unfolding message_log_ok_def links_ok_def by blast
  have inj: "inj_on mg_id (set rows)" using assms by (simp add: message_log_ok_def distinct_map)
  have "bij_betw (\<lambda>r. the (mg_requestMessageId r)) ?L' (mg_id ` ?K)"
    unfolding bij_betw_def
  proof
    show "inj_on (\<lambda>r. the (mg_requestMessageId r)) ?L'"
    proof (rule inj_onI)
      fix r q assume h: "r \<in> ?L'" "q \<in> ?L'" "the (mg_requestMessageId r) = the (mg_requestMessageId q)"
      then have "mg_requestMessageId r = mg_requestMessageId q" by (auto simp: option.expand)
      then show "r = q" using assms h(1,2) unfolding message_log_ok_def one_answer_def by blast
    qed
    show "(\<lambda>r. the (mg_requestMessageId r)) ` ?L' = mg_id ` ?K"
    proof (intro equalityI subsetI; elim imageE)
      fix k r assume h: "k = the (mg_requestMessageId r)" "r \<in> ?L'"
      then obtain x where x: "x \<in> set rows" "mg_requestMessageId r = Some (mg_id x)" "same_exchange x r" "is_call x"
        using links [of r] by blast
      have "of_key t n c x" using x(3) h(2) of_key_exchange [of t n c r x] same_exchange_sym [of x r] by blast
      moreover have "claimed rows x" using h(2) x(2) unfolding claimed_def by blast
      ultimately have "x \<in> ?K" using x by blast
      moreover have "k = mg_id x" using h(1) x(2) by simp
      ultimately show "k \<in> mg_id ` ?K" by blast
    next
      fix k x assume h: "k = mg_id x" "x \<in> ?K"
      then obtain r where r: "r \<in> set rows" "mg_requestMessageId r = Some (mg_id x)" unfolding claimed_def by blast
      then obtain y where y: "y \<in> set rows" "mg_id x = mg_id y" "same_exchange y r" using links [of r] by auto
      have "x = y" using h(2) y(1,2) inj by (auto dest: inj_onD)
      then have "of_key t n c r" using y(3) h(2) of_key_exchange by blast
      then have "r \<in> ?L'" using r links [of r] by simp
      then show "k \<in> (\<lambda>r. the (mg_requestMessageId r)) ` ?L'" using h(1) r(2) by force
    qed
  qed
  then have "card ?L' = card (mg_id ` ?K)" by (rule bij_betw_same_card)
  also have "\<dots> = card ?K" using inj by (intro card_image) (auto intro: inj_on_subset)
  finally have LK: "card ?L' = card ?K" .
  have le: "card ?K \<le> card ?C'" "card ?L' \<le> card ?A'" by (intro card_mono; force)+
  have "?K = ?C' \<or> ?L' = ?A'"
  proof (rule ccontr)
    assume "\<not> ?thesis"
    then obtain x r where "x \<in> ?C'" "\<not> claimed rows x" "r \<in> ?A'" "mg_requestMessageId r = None" by blast
    moreover from this have "same_exchange x r" using of_key_exchange by blast
    ultimately show False using assms unfolding message_log_ok_def none_waiting_def by blast
  qed
  then show ?thesis unfolding len using LK le by auto
qed

section \<open>Reading the inserted row\<close>

definition row_core :: "message_row \<Rightarrow> nat \<times> js_num \<times> string \<times> string option \<times> int" where
  "row_core r = (mg_id r, mg_tenantId r, mg_name r, mg_correlationId r, mg_createdAt r)"

lemma insert_keeps_rows:
  "map row_core (insert_message t time m rows) = map row_core rows @ [row_core (row_of (serial mg_id rows) t time m)]"
proof -
  let ?m = "row_of (serial mg_id rows) t time m"
  have a: "row_core (adopted c x) = row_core x" for c x by (simp add: row_core_def adopted_def)
  have r: "row_core (ocpp_correlate_response rows ?m) = row_core ?m"
    by (rule correlated_response [OF refl row_of_fields(2), of rows "serial mg_id rows" t time m]) (simp_all add: a)
  have "map row_core (ocpp_correlate_call x ys) = map row_core ys" for x ys
    by (rule correlated_call [OF refl, of x ys]) (simp_all add: a update_rows_map)
  then show ?thesis by (simp add: insert_message_def Let_def r)
qed

text \<open>
  With a clock that does not run backwards the row read after an insertion is the inserted one;
  otherwise it may be an older row of the same correlation id.
\<close>

lemma reload_inserted:
  assumes ok: "message_log_ok rows" and c: "mi_correlationId m = Some c"
    and clock: "\<forall>r \<in> set rows. of_key t (mi_name m) c r \<longrightarrow> mg_createdAt r \<le> time"
  shows "\<exists>r. reload_message t m (insert_message t time m rows) = Some r \<and> r \<in> set (insert_message t time m rows) \<and> mg_id r = serial mg_id rows"
proof -
  let ?new = "insert_message t time m rows"
  let ?k = "serial mg_id rows"
  let ?f = "filter (\<lambda>r. mg_tenantId r = t \<and> mg_name r = mi_name m \<and> mg_correlationId r = mi_correlationId m) ?new"
  have cores: "row_core ` set ?new = insert (row_core (row_of ?k t time m)) (row_core ` set rows)"
    using arg_cong [OF insert_keeps_rows [of t time m rows], of set] by simp
  have "row_core (row_of ?k t time m) \<in> row_core ` set ?new" unfolding cores by simp
  then obtain x where x: "x \<in> set ?new" "row_core x = row_core (row_of ?k t time m)" by (metis imageE)
  have xf: "x \<in> set ?f" "mg_id x = ?k" "mg_createdAt x = time" using x by (simp_all add: row_core_def row_of_def)
  obtain r where r: "first_by newer ?f = Some r"
    using first_by_Some [OF xf(1)] by blast
  have rf: "r \<in> set ?f" by (rule first_by_in [OF r])
  have d: "distinct (map mg_id ?f)" using insert_message_ok [OF ok, of t time m] by (simp add: message_log_ok_def distinct_map_filter)
  have "mg_id r = ?k"
  proof (rule ccontr)
    assume n: "mg_id r \<noteq> ?k"
    have "row_core r \<in> insert (row_core (row_of ?k t time m)) (row_core ` set rows)" using rf cores by auto
    then obtain y where y: "y \<in> set rows" "row_core r = row_core y"
      using n by (auto simp: row_core_def row_of_def)
    then have "mg_id r < ?k" using serial_fresh [OF y(1), of mg_id] by (simp add: row_core_def)
    moreover have "of_key t (mi_name m) c y" using y(2) rf c by (simp add: row_core_def of_key_def)
    then have "mg_createdAt r \<le> time" using clock y by (simp add: row_core_def)
    moreover have "newer r x" using first_by_newest [OF r d xf(1)] n xf(2) by auto
    ultimately show False using xf(2,3) by (simp add: newer_def)
  qed
  then show ?thesis using r rf by (simp add: reload_message_def)
qed

text \<open>An answer that is stored after its request takes its action from the newest open request.\<close>

lemma answer_gets_action:
  assumes ok: "message_log_ok rows" and m: "mi_correlationId m = Some c" "mi_type m = Some 3 \<or> mi_type m = Some 4" "mi_action m = None"
    and clock: "\<forall>r \<in> set rows. of_key t (mi_name m) c r \<longrightarrow> mg_createdAt r \<le> time"
    and open_request: "q \<in> set rows" "of_key t (mi_name m) c q" "is_call q" "\<not> claimed rows q"
    and newest: "\<forall>x \<in> set rows. of_key t (mi_name m) c x \<longrightarrow> is_call x \<longrightarrow> \<not> claimed rows x \<longrightarrow> x = q \<or> newer q x"
  shows "\<exists>r. fst (createOCPPMessage t time m rows) = Inr r \<and> mg_action r = mg_action q \<and> mg_requestMessageId r = Some (mg_id q)"
proof -
  let ?m = "row_of (serial mg_id rows) t time m"
  let ?f = "filter (\<lambda>c. same_exchange c ?m \<and> is_call c \<and> \<not> claimed rows c) rows"
  have key: "same_exchange x ?m \<longleftrightarrow> of_key t (mi_name m) c x" for x
    using m(1) by (auto simp: same_exchange_def of_key_def row_of_def)
  have ans: "is_answer ?m" using m(2) by (auto simp: is_answer_def row_of_def)
  have qf: "q \<in> set ?f" using open_request key by simp
  obtain w where w: "first_by newer ?f = Some w" using first_by_Some [OF qf] by blast
  have "w = q"
  proof (rule ccontr)
    assume n: "w \<noteq> q"
    have "distinct (map mg_id ?f)" using ok by (simp add: message_log_ok_def distinct_map_filter)
    from first_by_newest [OF w this qf] n have "newer w q" by blast
    moreover have "newer q w" using newest first_by_in [OF w] n key by auto
    ultimately show False by (auto simp: newer_def)
  qed
  then have r: "ocpp_correlate_response rows ?m = adopted q ?m"
    using w ans m(1) by (simp add: ocpp_correlate_response_def adopted_def row_of_def)
  have "\<not> is_call (adopted q ?m)" using ans call_no_answer by (auto simp: adopted_fields)
  then have new: "insert_message t time m rows = rows @ [adopted q ?m]"
    by (simp add: insert_message_def Let_def r ocpp_correlate_call_def)
  obtain x where x: "reload_message t m (insert_message t time m rows) = Some x" "x \<in> set (insert_message t time m rows)" "mg_id x = serial mg_id rows"
    using reload_inserted [OF ok m(1) clock] by blast
  have "x \<notin> set rows" using x(3) serial_not_in [of mg_id rows] by (metis image_eqI)
  then have "x = adopted q ?m" using x(2) unfolding new by simp
  then show ?thesis
    using x(1) m(1,3) by (simp add: createOCPPMessage_def Let_def adopted_def row_of_def coalesce_def)
qed

text \<open>C9. Whatever the order in which requests and answers of stations are stored, an answer is linked
  to a request of the same tenant, station and correlation id, no request has two answers, an
  answer has an action when its request has one, and of each correlation id as many answers
  are linked as there can be: the smaller of the numbers of requests and of answers.\<close>

theorem answers_paired_with_requests:
  "links_ok (stored_messages ms []) \<and> one_answer (stored_messages ms [])
   \<and> length (filter (\<lambda>m. of_key t n c m \<and> is_answer m \<and> mg_requestMessageId m \<noteq> None) (stored_messages ms []))
     = min (length (filter (\<lambda>m. of_key t n c m \<and> is_call m) (stored_messages ms [])))
           (length (filter (\<lambda>m. of_key t n c m \<and> is_answer m) (stored_messages ms [])))"
proof -
  have "message_log_ok []" by (simp add: message_log_ok_def links_ok_def one_answer_def none_waiting_def)
  then have "message_log_ok (stored_messages ms [])" by (rule stored_messages_ok)
  then show ?thesis using paired_count by (auto simp: message_log_ok_def)
qed

end
