(* ===== verification/Webhooks.thy ===== *)
theory Webhooks
  imports MessageLog Identifiers
begin

text \<open>
  Webhooks of the messages and connections of a station: the subscriptions
  (dal/layers/sequelize/model/Subscription and repository/Subscription.ts, the endpoints of
  modules/OcppRouter/src/module/DataApi.ts) and the dispatcher that stores every message and
  posts it to the subscribed urls (modules/OcppRouter/src/module/webhook.dispatcher.ts). The
  dispatcher is asynchronous: what is left to do after an await is a task of the state, and
  tasks are resumed in any order. A post is recorded when it is sent; its answer is only logged.
  Whether a text is a pattern and what it matches is the argument regex of the environment.
\<close>

section \<open>Subscriptions\<close>

record subscription =
  sb_id :: nat
  sb_tenantId :: js_num
  sb_name :: string
  sb_onConnect :: bool
  sb_onClose :: bool
  sb_onMessage :: bool
  sb_sentMessage :: bool
  sb_messageRegexFilter :: "string option"
  sb_url :: string

definition readAllByStationId :: "js_num \<Rightarrow> string \<Rightarrow> subscription list \<Rightarrow> subscription list" where
  "readAllByStationId t n rows = filter (\<lambda>s. sb_tenantId s = t \<and> sb_name s = n) rows"

definition create_subscription :: "js_num \<Rightarrow> subscription \<Rightarrow> subscription list \<Rightarrow> subscription list" where
  "create_subscription t s rows = rows @ [s\<lparr> sb_id := serial sb_id rows, sb_tenantId := t \<rparr>]"

definition postSubscription :: "js_num \<Rightarrow> subscription \<Rightarrow> subscription list \<Rightarrow> (exn + nat) \<times> subscription list" where
  "postSubscription t s rows =
     (if \<not> sb_onClose s \<and> \<not> sb_onConnect s \<and> \<not> sb_onMessage s \<and> \<not> sb_sentMessage s
      then (Inl (JsErr ''Must specify at least one of onConnect, onClose, onMessage, sentMessage to true.'' []), rows)
      else (Inr (serial sb_id rows), create_subscription t s rows))"

definition deleteSubscriptionById :: "js_num option \<Rightarrow> nat \<Rightarrow> subscription list \<Rightarrow> bool \<times> subscription list" where
  "deleteSubscriptionById t k rows =
     (True, filter (\<lambda>s. \<not> (sb_id s = k \<and> sb_tenantId s = (case t of Some t \<Rightarrow> t | None \<Rightarrow> tenant default_tenant_id))) rows)"

section \<open>The dispatcher\<close>

type_synonym webhook_info = "(string \<times> string) list"

record webhook_post =
  po_url :: string
  po_name :: string
  po_event :: string
  po_origin :: "string option"
  po_message :: "string option"
  po_info :: "webhook_info option"

datatype purpose = Registration | Refresh

datatype task =
    Reading purpose js_num string                        \<comment> \<open>the subscriptions of a station are being read\<close>
  | Loaded purpose js_num string "subscription list"
  | Connecting string                                    \<comment> \<open>identifier; register has loaded them\<close>
  | Adding string                                        \<comment> \<open>register waits for its onConnect callbacks\<close>
  | Closing string                                       \<comment> \<open>deregister waits for its onClose callbacks\<close>
  | Received string string webhook_info                  \<comment> \<open>identifier and text of a stored message\<close>
  | Sent string string webhook_info

record dispatcher =
  wd_log :: "message_row list"
  wd_subscriptions :: "subscription list"
  wd_identifiers :: "string list"
  wd_onConnection :: "string \<Rightarrow> subscription list option"
  wd_onClose :: "string \<Rightarrow> subscription list option"
  wd_onMessage :: "string \<Rightarrow> subscription list option"
  wd_sentMessage :: "string \<Rightarrow> subscription list option"
  wd_tasks :: "task list"
  wd_posts :: "webhook_post list"

record webhook_env =
  we_regex :: "string \<Rightarrow> (string \<Rightarrow> bool) option"       \<comment> \<open>None: no pattern, the constructor throws\<close>
  we_print :: "jsval \<Rightarrow> string"

definition add_task :: "task \<Rightarrow> dispatcher \<Rightarrow> dispatcher" where
  "add_task k d = d\<lparr> wd_tasks := wd_tasks d @ [k] \<rparr>"

definition send_posts :: "webhook_post list \<Rightarrow> dispatcher \<Rightarrow> dispatcher" where
  "send_posts ps d = d\<lparr> wd_posts := wd_posts d @ ps \<rparr>"

definition callbacks :: "subscription list option \<Rightarrow> subscription list" where
  "callbacks c = (case c of Some ss \<Rightarrow> ss | None \<Rightarrow> [])"

definition connection_post :: "string \<Rightarrow> subscription \<Rightarrow> webhook_post" where
  "connection_post event s =
     \<lparr> po_url = sb_url s, po_name = sb_name s, po_event = event, po_origin = None, po_message = None, po_info = None \<rparr>"

definition message_post :: "string \<Rightarrow> string \<Rightarrow> webhook_info \<Rightarrow> subscription \<Rightarrow> webhook_post" where
  "message_post orig text info s =
     \<lparr> po_url = sb_url s, po_name = sb_name s, po_event = ''message'', po_origin = Some orig,
       po_message = Some text, po_info = Some info \<rparr>"

text \<open>A filter that is no pattern makes the callback of its subscription fail.\<close>

definition passes :: "webhook_env \<Rightarrow> string \<Rightarrow> subscription \<Rightarrow> bool" where
  "passes env text s =
     (case sb_messageRegexFilter s of
        None \<Rightarrow> True
      | Some p \<Rightarrow> p = [] \<or> (case we_regex env p of Some f \<Rightarrow> f text | None \<Rightarrow> False))"

definition message_posts :: "webhook_env \<Rightarrow> string \<Rightarrow> string \<Rightarrow> webhook_info \<Rightarrow> subscription list \<Rightarrow> webhook_post list" where
  "message_posts env orig text info ss = map (message_post orig text info) (filter (passes env text) ss)"

definition loadSubscriptionsForConnection :: "js_num \<Rightarrow> string \<Rightarrow> subscription list \<Rightarrow> dispatcher \<Rightarrow> dispatcher" where
  "loadSubscriptionsForConnection t n ss d =
     (let i = createIdentifier t [n] in
      d\<lparr> wd_onConnection := (wd_onConnection d)(i \<mapsto> filter sb_onConnect ss),
         wd_onClose := (wd_onClose d)(i \<mapsto> filter sb_onClose ss),
         wd_onMessage := (wd_onMessage d)(i \<mapsto> filter sb_onMessage ss),
         wd_sentMessage := (wd_sentMessage d)(i \<mapsto> filter sb_sentMessage ss) \<rparr>)"

definition forget_station :: "string \<Rightarrow> dispatcher \<Rightarrow> dispatcher" where
  "forget_station i d =
     d\<lparr> wd_identifiers := removeAll i (wd_identifiers d), wd_onConnection := (wd_onConnection d)(i := None),
        wd_onClose := (wd_onClose d)(i := None), wd_onMessage := (wd_onMessage d)(i := None),
        wd_sentMessage := (wd_sentMessage d)(i := None) \<rparr>"

definition register_webhooks_of :: "js_num \<Rightarrow> string \<Rightarrow> dispatcher \<Rightarrow> dispatcher" where
  "register_webhooks_of t n d = add_task (Reading Registration t n) d"

definition deregister_webhooks_of :: "js_num \<Rightarrow> string \<Rightarrow> dispatcher \<Rightarrow> dispatcher" where
  "deregister_webhooks_of t n d =
     (let i = createIdentifier t [n]
      in add_task (Closing i) (send_posts (map (connection_post ''closed'') (callbacks (wd_onClose d i))) d))"

definition refreshSubscriptions :: "dispatcher \<Rightarrow> dispatcher" where
  "refreshSubscriptions d =
     d\<lparr> wd_tasks := wd_tasks d @ map (\<lambda>i. Reading Refresh (getTenantIdFromIdentifier i) (getStationIdFromIdentifier i)) (wd_identifiers d) \<rparr>"

section \<open>Messages\<close>

definition messageStateFromType :: "nat option \<Rightarrow> string" where
  "messageStateFromType ty =
     (if ty = Some 2 then ''1'' else if ty = Some 3 \<or> ty = Some 4 then ''2'' else ''99'')"

definition extractPayloadFromRpcMessage :: "jsval \<Rightarrow> nat \<Rightarrow> jsval" where
  "extractPayloadFromRpcMessage rpc ty =
     (if ty = 2 then js_idx rpc 3
      else if ty = 3 then js_idx rpc 2
      else if ty = 4 then JObj [(''errorCode'', js_idx rpc 2), (''errorDescription'', js_idx rpc 3), (''errorDetails'', js_idx rpc 4)]
      else JUndef)"

text \<open>The id of a parsed frame is a string.\<close>

definition rpc_message_id :: "jsval \<Rightarrow> string option" where
  "rpc_message_id rpc = (case js_idx rpc 1 of JStr s \<Rightarrow> Some s | _ \<Rightarrow> None)"

definition id_text :: "jsval \<Rightarrow> string" where
  "id_text rpc = (case rpc_message_id rpc of Some s \<Rightarrow> s | None \<Rightarrow> [])"

definition message_record :: "string \<Rightarrow> string \<Rightarrow> string \<Rightarrow> string \<Rightarrow> string \<Rightarrow> nat \<Rightarrow> jsval \<Rightarrow> string option \<Rightarrow> message_input" where
  "message_record n orig timestamp protocol raw ty rpc act =
     \<lparr> mi_name = n, mi_correlationId = rpc_message_id rpc, mi_origin = orig, mi_type = Some ty,
       mi_state = messageStateFromType (Some ty), mi_protocol = protocol, mi_action = act,
       mi_payload = extractPayloadFromRpcMessage rpc ty, mi_raw = raw, mi_message = rpc, mi_timestamp = timestamp \<rparr>"

definition message_info :: "string \<Rightarrow> string \<Rightarrow> string \<Rightarrow> string \<Rightarrow> string \<Rightarrow> nat \<Rightarrow> webhook_info" where
  "message_info messageId orig timestamp protocol act ty =
     [(''correlationId'', messageId), (''origin'', orig), (''timestamp'', timestamp), (''protocol'', protocol),
      (''action'', act), (''type'', nat_str ty)]"

text \<open>The message is stored; its action is that of the stored row when none is given.\<close>

definition store_and_name ::
  "js_num \<Rightarrow> string \<Rightarrow> int \<Rightarrow> message_input \<Rightarrow> string option \<Rightarrow> dispatcher \<Rightarrow> (exn + string option) \<times> dispatcher" where
  "store_and_name t n time m act d =
     (case createOCPPMessage t time m (wd_log d) of
        (Inl e, rows) \<Rightarrow> (Inl e, d\<lparr> wd_log := rows \<rparr>)
      | (Inr row, rows) \<Rightarrow>
          (Inr (case act of
                  Some a \<Rightarrow> Some a
                | None \<Rightarrow> (case mg_action row of Some a \<Rightarrow> (if a = [] then None else Some a) | None \<Rightarrow> None)),
           d\<lparr> wd_log := rows \<rparr>))"

definition dispatchMessageReceived ::
  "webhook_env \<Rightarrow> js_num \<Rightarrow> string \<Rightarrow> int \<Rightarrow> string \<Rightarrow> string \<Rightarrow> string \<Rightarrow> nat \<Rightarrow> jsval \<Rightarrow> string option
     \<Rightarrow> dispatcher \<Rightarrow> exn option \<times> dispatcher" where
  "dispatchMessageReceived env t n time timestamp protocol raw ty rpc act d =
     (case store_and_name t n time (message_record n ''cs'' timestamp protocol raw ty rpc act) act d of
        (Inl e, d') \<Rightarrow> (Some e, d')
      | (Inr None, d') \<Rightarrow> (None, d')
      | (Inr (Some a), d') \<Rightarrow>
          (None, add_task (Received (createIdentifier t [n]) (we_print env rpc)
                   (message_info (id_text rpc) ''cs'' timestamp protocol a ty)) d'))"

definition dispatchMessageSent ::
  "webhook_env \<Rightarrow> string \<Rightarrow> int \<Rightarrow> string \<Rightarrow> string \<Rightarrow> string \<Rightarrow> nat \<Rightarrow> jsval \<Rightarrow> string option
     \<Rightarrow> dispatcher \<Rightarrow> exn option \<times> dispatcher" where
  "dispatchMessageSent env identifier time timestamp protocol raw ty rpc act d =
     (let t = getTenantIdFromIdentifier identifier; n = getStationIdFromIdentifier identifier in
      (case store_and_name t n time (message_record n ''csms'' timestamp protocol raw ty rpc act) act d of
         (Inl e, d') \<Rightarrow> (Some e, d')
       | (Inr None, d') \<Rightarrow> (None, d')
       | (Inr (Some a), d') \<Rightarrow>
           (None, add_task (Sent identifier (we_print env rpc)
                    (message_info (id_text rpc) ''csms'' timestamp protocol a ty)) d')))"

text \<open>A message that could not be parsed gets an id of its own, and its callbacks are run at once.\<close>

definition unparsed_info :: "string \<Rightarrow> string \<Rightarrow> string \<Rightarrow> string option \<Rightarrow> nat option \<Rightarrow> webhook_info" where
  "unparsed_info uuid timestamp protocol act ty =
     [(''correlationId'', uuid), (''origin'', ''cs''), (''timestamp'', timestamp), (''protocol'', protocol)]
     @ (case act of Some a \<Rightarrow> (if a = [] then [] else [(''action'', a)]) | None \<Rightarrow> [])
     @ (case ty of Some k \<Rightarrow> (if k = 0 then [] else [(''type'', nat_str k)]) | None \<Rightarrow> [])"

definition dispatchMessageReceivedUnparsed ::
  "webhook_env \<Rightarrow> string \<Rightarrow> js_num \<Rightarrow> string \<Rightarrow> int \<Rightarrow> string \<Rightarrow> string \<Rightarrow> string \<Rightarrow> string option \<Rightarrow> nat option
     \<Rightarrow> dispatcher \<Rightarrow> dispatcher" where
  "dispatchMessageReceivedUnparsed env uuid t n time text timestamp protocol act ty d =
     (let m = \<lparr> mi_name = n, mi_correlationId = Some uuid, mi_origin = ''cs'', mi_type = ty, mi_state = messageStateFromType ty,
                mi_protocol = protocol, mi_action = act, mi_payload = JNull, mi_raw = text, mi_message = JNull,
                mi_timestamp = timestamp \<rparr>;
          d = d\<lparr> wd_log := snd (createOCPPMessage t time m (wd_log d)) \<rparr>
      in send_posts (message_posts env ''cs'' text (unparsed_info uuid timestamp protocol act ty)
                       (callbacks (wd_onMessage d (createIdentifier t [n])))) d)"

text \<open>
  The answer to a call with a callback url goes there: url is what the cache holds for the
  correlation id, token what the provider of tokens gives (None: there is no provider, Some None:
  it failed).
\<close>

record callback_post =
  cp_url :: string
  cp_headers :: "(string \<times> string) list"
  cp_body :: string

definition dispatchCallbackUrl :: "webhook_env \<Rightarrow> string option \<Rightarrow> string option option \<Rightarrow> jsval \<Rightarrow> callback_post option" where
  "dispatchCallbackUrl env url token payload =
     (case url of
        None \<Rightarrow> None
      | Some u \<Rightarrow>
          if u = [] then None
          else (case token of
                  Some None \<Rightarrow> None
                | Some (Some k) \<Rightarrow>
                    Some \<lparr> cp_url = u, cp_headers = [(''Content-Type'', ''application/json''), (''Authorization'', ''Bearer '' @ k)],
                           cp_body = we_print env payload \<rparr>
                | None \<Rightarrow>
                    Some \<lparr> cp_url = u, cp_headers = [(''Content-Type'', ''application/json'')], cp_body = we_print env payload \<rparr>))"

section \<open>Steps\<close>

fun resume :: "webhook_env \<Rightarrow> task \<Rightarrow> dispatcher \<Rightarrow> dispatcher" where
  "resume env (Reading p t n) d = add_task (Loaded p t n (readAllByStationId t n (wd_subscriptions d))) d"
| "resume env (Loaded p t n ss) d =
     (let d = loadSubscriptionsForConnection t n ss d
      in if p = Registration then add_task (Connecting (createIdentifier t [n])) d else d)"
| "resume env (Connecting i) d =
     add_task (Adding i) (send_posts (map (connection_post ''connected'') (callbacks (wd_onConnection d i))) d)"
| "resume env (Adding i) d = d\<lparr> wd_identifiers := List.insert i (wd_identifiers d) \<rparr>"
| "resume env (Closing i) d = forget_station i d"
| "resume env (Received i text info) d =
     send_posts (message_posts env ''cs'' text info (callbacks (wd_onMessage d i))) d"
| "resume env (Sent i text info) d =
     send_posts (message_posts env ''csms'' text info (callbacks (wd_sentMessage d i))) d"

text \<open>
  The label is the identifier of a station that connects or disconnects. A failed query ends a
  registration with a log entry. Tenants are natural numbers.
\<close>

inductive webhook_step :: "webhook_env \<Rightarrow> string option \<Rightarrow> dispatcher \<Rightarrow> dispatcher \<Rightarrow> bool" for env where
  ws_register: "webhook_step env (Some (createIdentifier (tenant k) [n])) d (register_webhooks_of (tenant k) n d)"
| ws_deregister: "webhook_step env (Some (createIdentifier (tenant k) [n])) d (deregister_webhooks_of (tenant k) n d)"
| ws_refresh: "webhook_step env None d (refreshSubscriptions d)"
| ws_resume: "wd_tasks d = xs @ k # ys \<Longrightarrow> webhook_step env None d (resume env k (d\<lparr> wd_tasks := xs @ ys \<rparr>))"
| ws_failed: "wd_tasks d = xs @ Reading p t n # ys \<Longrightarrow> webhook_step env None d (d\<lparr> wd_tasks := xs @ ys \<rparr>)"
| ws_received: "webhook_step env None d (snd (dispatchMessageReceived env (tenant k) n time timestamp protocol raw ty rpc act d))"
| ws_sent: "webhook_step env None d (snd (dispatchMessageSent env (createIdentifier (tenant k) [n]) time timestamp protocol raw ty rpc act d))"
| ws_unparsed: "webhook_step env None d (dispatchMessageReceivedUnparsed env uuid (tenant k) n time raw timestamp protocol act ty' d)"

definition idle_dispatcher :: "message_row list \<Rightarrow> subscription list \<Rightarrow> dispatcher" where
  "idle_dispatcher rows subs =
     \<lparr> wd_log = rows, wd_subscriptions = subs, wd_identifiers = [], wd_onConnection = (\<lambda>_. None), wd_onClose = (\<lambda>_. None),
       wd_onMessage = (\<lambda>_. None), wd_sentMessage = (\<lambda>_. None), wd_tasks = [], wd_posts = [] \<rparr>"

text \<open>The station a task connects or disconnects.\<close>

fun life_of :: "task \<Rightarrow> string option" where
  "life_of (Reading p t n) = (if p = Registration then Some (createIdentifier t [n]) else None)"
| "life_of (Loaded p t n ss) = (if p = Registration then Some (createIdentifier t [n]) else None)"
| "life_of (Connecting i) = Some i"
| "life_of (Adding i) = Some i"
| "life_of (Closing i) = Some i"
| "life_of (Received i text info) = None"
| "life_of (Sent i text info) = None"

text \<open>Connections and disconnections of a station do not overlap. The program does not wait for this.\<close>

definition orderly_step :: "webhook_env \<Rightarrow> dispatcher \<Rightarrow> dispatcher \<Rightarrow> bool" where
  "orderly_step env d d' \<longleftrightarrow> (\<exists>l. webhook_step env l d d' \<and> (\<forall>i. l = Some i \<longrightarrow> Some i \<notin> life_of ` set (wd_tasks d)))"


section \<open>Registered stations\<close>

definition lives :: "task list \<Rightarrow> string list" where
  "lives ks = concat (map (\<lambda>k. case life_of k of Some i \<Rightarrow> [i] | None \<Rightarrow> []) ks)"

lemma lives_simps [simp]:
  "lives [] = []" "lives (xs @ ys) = lives xs @ lives ys"
  "lives (k # ks) = (case life_of k of Some i \<Rightarrow> [i] | None \<Rightarrow> []) @ lives ks"
  by (simp_all add: lives_def)

lemma set_lives: "i \<in> set (lives ks) \<longleftrightarrow> Some i \<in> life_of ` set ks"
  by (induction ks) (auto split: option.splits)

abbreviation station_key :: "string \<Rightarrow> bool" where
  "station_key i \<equiv> \<exists>k n. i = createIdentifier (tenant k) [n]"

fun task_fine :: "subscription list \<Rightarrow> task \<Rightarrow> bool" where
  "task_fine S (Reading p t n) \<longleftrightarrow> (\<exists>k. t = tenant k)"
| "task_fine S (Loaded p t n ss) \<longleftrightarrow> (\<exists>k. t = tenant k) \<and> ss = readAllByStationId t n S"
| "task_fine S (Connecting i) \<longleftrightarrow> station_key i"
| "task_fine S (Adding i) \<longleftrightarrow> station_key i"
| "task_fine S (Closing i) \<longleftrightarrow> True"
| "task_fine S (Received i text info) \<longleftrightarrow> True"
| "task_fine S (Sent i text info) \<longleftrightarrow> True"

text \<open>The four lists of a station are those of its subscriptions, or it has none of them.\<close>

definition lists_of :: "dispatcher \<Rightarrow> string \<Rightarrow> subscription list option list" where
  "lists_of d i = [wd_onConnection d i, wd_onClose d i, wd_onMessage d i, wd_sentMessage d i]"

definition full_lists :: "subscription list \<Rightarrow> subscription list option list" where
  "full_lists ss = [Some (filter sb_onConnect ss), Some (filter sb_onClose ss), Some (filter sb_onMessage ss), Some (filter sb_sentMessage ss)]"

definition lists_fine :: "subscription list \<Rightarrow> dispatcher \<Rightarrow> bool" where
  "lists_fine S d \<longleftrightarrow> (\<forall>k n. lists_of d (createIdentifier (tenant k) [n]) \<in> {replicate 4 None, full_lists (readAllByStationId (tenant k) n S)})"

definition loaded_fine :: "dispatcher \<Rightarrow> bool" where
  "loaded_fine d \<longleftrightarrow> (\<forall>i. i \<in> set (wd_identifiers d) \<or> Connecting i \<in> set (wd_tasks d) \<or> Adding i \<in> set (wd_tasks d)
     \<longrightarrow> lists_of d i \<noteq> replicate 4 None)"

definition webhooks_fine :: "subscription list \<Rightarrow> dispatcher \<Rightarrow> bool" where
  "webhooks_fine S d \<longleftrightarrow> wd_subscriptions d = S \<and> (\<forall>k \<in> set (wd_tasks d). task_fine S k) \<and> (\<forall>i \<in> set (wd_identifiers d). station_key i)
     \<and> lists_fine S d \<and> loaded_fine d \<and> distinct (lives (wd_tasks d))"

lemma parts [simp]:
  "wd_subscriptions (add_task k d) = wd_subscriptions d" "wd_tasks (add_task k d) = wd_tasks d @ [k]"
  "wd_identifiers (add_task k d) = wd_identifiers d" "lists_of (add_task k d) = lists_of d"
  "wd_subscriptions (send_posts ps d) = wd_subscriptions d" "wd_tasks (send_posts ps d) = wd_tasks d"
  "wd_identifiers (send_posts ps d) = wd_identifiers d" "lists_of (send_posts ps d) = lists_of d"
  "lists_of (d\<lparr> wd_tasks := ks \<rparr>) = lists_of d" "lists_of (d\<lparr> wd_log := rows \<rparr>) = lists_of d"
  "lists_of (d\<lparr> wd_identifiers := ids \<rparr>) = lists_of d"
  by (simp_all add: add_task_def send_posts_def lists_of_def fun_eq_iff)

lemma lists_of_load:
  "lists_of (loadSubscriptionsForConnection t n ss d) = (lists_of d)(createIdentifier t [n] := full_lists ss)"
  by (simp add: loadSubscriptionsForConnection_def Let_def lists_of_def full_lists_def fun_eq_iff)

lemma load_parts [simp]:
  "wd_subscriptions (loadSubscriptionsForConnection t n ss d) = wd_subscriptions d"
  "wd_tasks (loadSubscriptionsForConnection t n ss d) = wd_tasks d"
  "wd_identifiers (loadSubscriptionsForConnection t n ss d) = wd_identifiers d"
  by (simp_all add: loadSubscriptionsForConnection_def Let_def)

lemma lists_of_forget: "lists_of (forget_station i d) = (lists_of d)(i := replicate 4 None)"
  by (simp add: forget_station_def lists_of_def fun_eq_iff numeral_eq_Suc)

lemma forget_parts [simp]:
  "wd_subscriptions (forget_station i d) = wd_subscriptions d" "wd_tasks (forget_station i d) = wd_tasks d"
  "wd_identifiers (forget_station i d) = removeAll i (wd_identifiers d)"
  by (simp_all add: forget_station_def)

lemma full_not_none: "full_lists ss \<noteq> replicate 4 None"
  by (simp add: full_lists_def numeral_eq_Suc)

lemma fine_same:
  assumes "webhooks_fine S d" and "wd_subscriptions d' = wd_subscriptions d" "wd_identifiers d' = wd_identifiers d"
    "lists_of d' = lists_of d" "wd_tasks d' = wd_tasks d @ ks"
    and "\<forall>k \<in> set ks. task_fine S k \<and> life_of k = None"
  shows "webhooks_fine S d'"
proof -
  have "lives ks = []" using assms(6) by (induction ks) auto
  moreover have "Connecting i \<notin> set ks" "Adding i \<notin> set ks" for i using assms(6) by auto
  ultimately show ?thesis using assms by (auto simp: webhooks_fine_def lists_fine_def loaded_fine_def)
qed

text \<open>Resuming a task.\<close>

lemma loading_fine:
  assumes "lists_fine S d" and "ss = readAllByStationId (tenant k) n S"
  shows "lists_fine S (loadSubscriptionsForConnection (tenant k) n ss d)"
  using assms by (auto simp: lists_fine_def lists_of_load createIdentifier_inject)

lemma resumed_fine:
  assumes ok: "webhooks_fine S d" and k: "wd_tasks d = xs @ k # ys"
  shows "webhooks_fine S (resume env k (d\<lparr> wd_tasks := xs @ ys \<rparr>))"
proof -
  let ?d = "d\<lparr> wd_tasks := xs @ ys \<rparr>"
  have t: "wd_subscriptions d = S" "\<forall>x \<in> set (xs @ ys). task_fine S x" "task_fine S k" "\<forall>i \<in> set (wd_identifiers d). station_key i"
    "lists_fine S d" "loaded_fine d"
    using ok k by (simp_all add: webhooks_fine_def)
  have l: "distinct (lives (xs @ ys))" "\<And>i. life_of k = Some i \<Longrightarrow> i \<notin> set (lives (xs @ ys))"
    using ok k by (auto simp: webhooks_fine_def)
  have ld: "lists_of d i \<noteq> replicate 4 None"
    if "i \<in> set (wd_identifiers d) \<or> Connecting i \<in> set (xs @ ys) \<or> Adding i \<in> set (xs @ ys) \<or> k = Connecting i \<or> k = Adding i" for i
    using t(6) k that by (auto simp: loaded_fine_def)
  have lf: "lists_fine S d' = lists_fine S d" if "lists_of d' = lists_of d" for d' using that by (simp add: lists_fine_def)
  show ?thesis
  proof (cases k)
    case (Reading p u n)
    have "distinct (lives (xs @ ys @ [Loaded p u n (readAllByStationId u n S)]))" using l Reading by (cases p) auto
    then show ?thesis
      using t ld Reading lf [of "resume env k ?d"] by (auto simp: webhooks_fine_def loaded_fine_def)
  next
    case (Loaded p u n ss)
    then obtain v where v: "u = tenant v" "ss = readAllByStationId (tenant v) n S" using t(3) by auto
    have f: "lists_fine S (loadSubscriptionsForConnection (tenant v) n ss ?d)"
      using loading_fine [of S ?d, OF _ v(2)] t(5) by (simp add: lists_fine_def)
    show ?thesis
    proof (cases p)
      case Registration
      then have "distinct (lives (xs @ ys @ [Connecting (createIdentifier u [n])]))" using l Loaded by auto
      then show ?thesis
        using t(1,2,4) ld f v Loaded Registration full_not_none
        by (auto simp: webhooks_fine_def loaded_fine_def Let_def lists_of_load lists_fine_def)
    next
      case Refresh
      then show ?thesis
        using t(1,2,4) ld f v Loaded l(1) full_not_none
        by (auto simp: webhooks_fine_def loaded_fine_def Let_def lists_of_load)
    qed
  next
    case (Connecting i)
    have "distinct (lives (xs @ ys @ [Adding i]))" using l Connecting by auto
    then show ?thesis
      using t ld Connecting lf [of "resume env k ?d"] by (auto simp: webhooks_fine_def loaded_fine_def)
  next
    case (Adding i)
    then show ?thesis
      using t ld l(1) lf [of "resume env k ?d"] by (auto simp: webhooks_fine_def loaded_fine_def)
  next
    case (Closing i)
    have "Connecting i \<notin> set (xs @ ys)" "Adding i \<notin> set (xs @ ys)"
      using l(2) [of i] Closing unfolding set_lives by force+
    moreover have "lists_fine S (forget_station i ?d)" using t(5) by (auto simp: lists_fine_def lists_of_forget)
    ultimately show ?thesis
      using t(1,2,4) ld l(1) Closing by (auto simp: webhooks_fine_def loaded_fine_def lists_of_forget)
  next
    case (Received i m info)
    then show ?thesis
      using t ld l(1) lf [of "resume env k ?d"] by (auto simp: webhooks_fine_def loaded_fine_def)
  next
    case (Sent i m info)
    then show ?thesis
      using t ld l(1) lf [of "resume env k ?d"] by (auto simp: webhooks_fine_def loaded_fine_def)
  qed
qed


text \<open>Storing and dispatching a message adds at most the task that posts it.\<close>

definition adds_posting :: "dispatcher \<Rightarrow> dispatcher \<Rightarrow> bool" where
  "adds_posting d d' \<longleftrightarrow> (\<exists>rows ks ps. d' = d\<lparr> wd_log := rows, wd_tasks := wd_tasks d @ ks, wd_posts := wd_posts d @ ps \<rparr>
     \<and> (\<forall>k \<in> set ks. life_of k = None \<and> (\<forall>S. task_fine S k)))"

lemma stored_log:
  assumes "store_and_name t n time m act d = (r, d')"
  obtains rows where "d' = d\<lparr> wd_log := rows \<rparr>"
  using assms by (cases "createOCPPMessage t time m (wd_log d)"; cases "fst (createOCPPMessage t time m (wd_log d))")
    (auto simp: store_and_name_def)

lemma adds_log: "adds_posting d (d\<lparr> wd_log := rows \<rparr>)"
  unfolding adds_posting_def by (intro exI [of _ rows] exI [of _ "[]"] conjI) simp_all

lemma adds_task:
  assumes "life_of k = None" "\<And>S. task_fine S k"
  shows "adds_posting d (add_task k (d\<lparr> wd_log := rows \<rparr>))"
  unfolding adds_posting_def using assms
  by (intro exI [of _ rows] exI [of _ "[k]"] exI [of _ "[]"] conjI) (simp_all add: add_task_def)

lemma adds_posts: "adds_posting d (send_posts ps (d\<lparr> wd_log := rows \<rparr>))"
  unfolding adds_posting_def
  by (intro exI [of _ rows] exI [of _ "[]"] exI [of _ ps] conjI) (simp_all add: send_posts_def)

lemma dispatching_adds:
  "adds_posting d (snd (dispatchMessageReceived env t n time timestamp protocol raw ty rpc act d))"
  "adds_posting d (snd (dispatchMessageSent env i time timestamp protocol raw ty rpc act d))"
  "adds_posting d (dispatchMessageReceivedUnparsed env uuid t n time raw timestamp protocol act ty' d)"
proof -
  let ?r = "store_and_name t n time (message_record n ''cs'' timestamp protocol raw ty rpc act) act d"
  obtain rows where s: "snd ?r = d\<lparr> wd_log := rows \<rparr>" by (rule stored_log [of t n time _ act d "fst ?r" "snd ?r"]) simp_all
  show "adds_posting d (snd (dispatchMessageReceived env t n time timestamp protocol raw ty rpc act d))"
    using s by (auto simp: dispatchMessageReceived_def split: prod.split sum.split option.split intro!: adds_log adds_task)
  let ?t = "getTenantIdFromIdentifier i" and ?n = "getStationIdFromIdentifier i"
  let ?q = "store_and_name ?t ?n time (message_record ?n ''csms'' timestamp protocol raw ty rpc act) act d"
  obtain rows' where q: "snd ?q = d\<lparr> wd_log := rows' \<rparr>" by (rule stored_log [of ?t ?n time _ act d "fst ?q" "snd ?q"]) simp_all
  show "adds_posting d (snd (dispatchMessageSent env i time timestamp protocol raw ty rpc act d))"
    using q by (auto simp: dispatchMessageSent_def Let_def split: prod.split sum.split option.split intro!: adds_log adds_task)
  show "adds_posting d (dispatchMessageReceivedUnparsed env uuid t n time raw timestamp protocol act ty' d)"
    unfolding dispatchMessageReceivedUnparsed_def Let_def by (rule adds_posts)
qed

lemma adding_fine:
  assumes "webhooks_fine S d" and "adds_posting d d'"
  shows "webhooks_fine S d'"
proof -
  obtain rows ks ps where d': "d' = d\<lparr> wd_log := rows, wd_tasks := wd_tasks d @ ks, wd_posts := wd_posts d @ ps \<rparr>"
    and k: "\<forall>k \<in> set ks. life_of k = None \<and> (\<forall>S. task_fine S k)"
    using assms(2) unfolding adds_posting_def by blast
  show ?thesis by (rule fine_same [OF assms(1), of _ ks]) (use k in \<open>simp_all add: d' lists_of_def fun_eq_iff\<close>)
qed

lemma new_life_fine:
  assumes "webhooks_fine S d" and "life_of k = Some i" "Some i \<notin> life_of ` set (wd_tasks d)" "task_fine S k"
    and "\<forall>i. k \<noteq> Connecting i" "\<forall>i. k \<noteq> Adding i"
  shows "webhooks_fine S (add_task k d)"
  using assms by (auto simp: webhooks_fine_def lists_fine_def loaded_fine_def set_lives)

lemma step_fine:
  assumes "orderly_step env d d'" and ok: "webhooks_fine S d"
  shows "webhooks_fine S d'"
proof -
  obtain l where st: "webhook_step env l d d'" and free: "\<forall>i. l = Some i \<longrightarrow> Some i \<notin> life_of ` set (wd_tasks d)"
    using assms(1) unfolding orderly_step_def by blast
  from st show ?thesis
  proof cases
    case (ws_register k n)
    then show ?thesis using ok free by (auto simp: register_webhooks_of_def intro: new_life_fine)
  next
    case (ws_deregister k n)
    let ?d = "send_posts (map (connection_post ''closed'') (callbacks (wd_onClose d (createIdentifier (tenant k) [n])))) d"
    have "webhooks_fine S ?d" by (rule fine_same [OF ok, of _ "[]"]) simp_all
    then show ?thesis using ws_deregister free by (auto simp: deregister_webhooks_of_def Let_def intro: new_life_fine)
  next
    case ws_refresh
    have "\<forall>i \<in> set (wd_identifiers d). station_key i" using ok by (simp add: webhooks_fine_def)
    then have "\<forall>i \<in> set (wd_identifiers d). \<exists>k. getTenantIdFromIdentifier i = tenant k"
      using tenant_id_of_identifier by fastforce
    then show ?thesis
      unfolding ws_refresh(2) refreshSubscriptions_def
      by (intro fine_same [OF ok, of _ "map (\<lambda>i. Reading Refresh (getTenantIdFromIdentifier i) (getStationIdFromIdentifier i)) (wd_identifiers d)"])
        (auto simp: lists_of_def)
  next
    case (ws_resume xs k ys)
    then show ?thesis using resumed_fine [OF ok] by simp
  next
    case (ws_failed xs p t n ys)
    then show ?thesis using ok by (auto simp: webhooks_fine_def lists_fine_def loaded_fine_def)
  qed (use ok dispatching_adds in \<open>auto intro: adding_fine\<close>)
qed

lemma idle_fine: "webhooks_fine S (idle_dispatcher rows S)"
  by (simp add: webhooks_fine_def idle_dispatcher_def lists_fine_def loaded_fine_def lists_of_def numeral_eq_Suc)

interpretation webhook_machine: transition_system "orderly_step env" "idle_dispatcher rows S" "webhooks_fine S"
  for env rows S
  by unfold_locales (auto simp: idle_fine intro: step_fine)


text \<open>
  Only subscriptions of a station are asked when something happens to it, in every run, with
  overlapping connections and subscriptions that come and go.
\<close>

definition own :: "js_num \<Rightarrow> string \<Rightarrow> subscription list \<Rightarrow> bool" where
  "own t n ss \<longleftrightarrow> (\<forall>s \<in> set ss. sb_tenantId s = t \<and> sb_name s = n)"

definition only_own :: "dispatcher \<Rightarrow> bool" where
  "only_own d \<longleftrightarrow> (\<forall>k n ss. Some ss \<in> set (lists_of d (createIdentifier (tenant k) [n])) \<longrightarrow> own (tenant k) n ss)"

fun task_own :: "task \<Rightarrow> bool" where
  "task_own (Reading p t n) \<longleftrightarrow> (\<exists>k. t = tenant k)"
| "task_own (Loaded p t n ss) \<longleftrightarrow> (\<exists>k. t = tenant k) \<and> own t n ss"
| "task_own _ \<longleftrightarrow> True"

definition all_own :: "dispatcher \<Rightarrow> bool" where
  "all_own d \<longleftrightarrow> only_own d \<and> (\<forall>k \<in> set (wd_tasks d). task_own k) \<and> (\<forall>i \<in> set (wd_identifiers d). \<exists>k. getTenantIdFromIdentifier i = tenant k)
     \<and> (\<forall>i. Connecting i \<in> set (wd_tasks d) \<or> Adding i \<in> set (wd_tasks d) \<longrightarrow> (\<exists>k. getTenantIdFromIdentifier i = tenant k))"

definition changing_step :: "webhook_env \<Rightarrow> dispatcher \<Rightarrow> dispatcher \<Rightarrow> bool" where
  "changing_step env d d' \<longleftrightarrow> (\<exists>l. webhook_step env l d d') \<or> (\<exists>rows. d' = d\<lparr> wd_subscriptions := rows \<rparr>)"

lemma only_own_load:
  assumes "only_own d" and "own (tenant k) n ss"
  shows "only_own (loadSubscriptionsForConnection (tenant k) n ss d)"
proof -
  have "own (tenant k) n (filter P ss)" for P using assms(2) by (simp add: own_def)
  then have "own (tenant k) n x" if "Some x \<in> set (full_lists ss)" for x using that by (auto simp: full_lists_def)
  then show ?thesis using assms(1) by (auto simp: only_own_def lists_of_load createIdentifier_inject)
qed

lemma only_own_same: "lists_of d' = lists_of d \<Longrightarrow> only_own d' = only_own d"
  by (simp add: only_own_def)

lemma fine_own: "task_fine S k \<Longrightarrow> task_own k"
  by (cases k) (auto simp: own_def readAllByStationId_def)

lemma all_own_add:
  assumes "all_own d" "lists_of d' = lists_of d" "wd_identifiers d' = wd_identifiers d" "wd_tasks d' = wd_tasks d @ ks"
    and "\<forall>k \<in> set ks. task_own k \<and> (\<forall>i. k \<noteq> Connecting i \<and> k \<noteq> Adding i)"
  shows "all_own d'"
  using assms only_own_same [OF assms(2)] by (auto simp: all_own_def)

lemma resumed_own:
  assumes ok: "all_own d" and k: "wd_tasks d = xs @ k # ys"
  shows "all_own (resume env k (d\<lparr> wd_tasks := xs @ ys \<rparr>))"
proof -
  let ?d = "d\<lparr> wd_tasks := xs @ ys \<rparr>"
  have rest: "all_own ?d" using ok k by (auto simp: all_own_def only_own_def)
  have t: "task_own k" using ok k by (simp add: all_own_def)
  have id: "\<exists>v. getTenantIdFromIdentifier i = tenant v" if "k = Connecting i \<or> k = Adding i" for i
    using ok k that by (auto simp: all_own_def)
  show ?thesis
  proof (cases k)
    case (Reading p u n)
    then show ?thesis using t by (intro all_own_add [OF rest, of _ "[Loaded p u n (readAllByStationId u n (wd_subscriptions d))]"])
      (auto simp: own_def readAllByStationId_def)
  next
    case (Loaded p u n ss)
    then obtain v where v: "u = tenant v" "own (tenant v) n ss" using t by auto
    have "only_own (loadSubscriptionsForConnection u n ss ?d)"
      unfolding v(1) by (rule only_own_load [OF _ v(2)]) (use rest in \<open>simp add: all_own_def\<close>)
    then have l: "all_own (loadSubscriptionsForConnection u n ss ?d)" using rest by (simp add: all_own_def)
    show ?thesis
      using l Loaded tenant_id_of_identifier [of v n] v(1)
      by (cases p) (auto simp: Let_def all_own_def only_own_same [of "add_task _ _"])
  next
    case (Connecting i)
    then show ?thesis using rest id by (auto simp: all_own_def only_own_def)
  next
    case (Adding i)
    then show ?thesis using rest id by (auto simp: all_own_def only_own_def)
  next
    case (Closing i)
    then show ?thesis using rest by (auto simp: all_own_def only_own_def lists_of_forget)
  qed (use rest in \<open>auto simp: all_own_def only_own_def\<close>)
qed

lemma adding_own:
  assumes "all_own d" and "adds_posting d d'"
  shows "all_own d'"
proof -
  obtain rows ks ps where d': "d' = d\<lparr> wd_log := rows, wd_tasks := wd_tasks d @ ks, wd_posts := wd_posts d @ ps \<rparr>"
    and k: "\<forall>k \<in> set ks. life_of k = None \<and> (\<forall>S. task_fine S k)"
    using assms(2) unfolding adds_posting_def by blast
  have "\<forall>k \<in> set ks. task_own k \<and> (\<forall>i. k \<noteq> Connecting i \<and> k \<noteq> Adding i)" using k fine_own by fastforce
  then show ?thesis by (intro all_own_add [OF assms(1), of _ ks]) (simp_all add: d' lists_of_def fun_eq_iff)
qed

lemma step_own:
  assumes "changing_step env d d'" and ok: "all_own d"
  shows "all_own d'"
proof -
  have chg: "all_own (d\<lparr> wd_subscriptions := rows \<rparr>)" for rows
    by (rule all_own_add [OF ok, of _ "[]"]) (simp_all add: lists_of_def fun_eq_iff)
  have "all_own d'" if "webhook_step env l d d'" for l
    using that
  proof cases
    case (ws_register k n)
    then show ?thesis
      by (intro all_own_add [OF ok, of _ "[Reading Registration (tenant k) n]"]) (auto simp: register_webhooks_of_def)
  next
    case (ws_deregister k n)
    then show ?thesis
      by (intro all_own_add [OF ok, of _ "[Closing (createIdentifier (tenant k) [n])]"]) (auto simp: deregister_webhooks_of_def Let_def)
  next
    case ws_refresh
    then show ?thesis
      using ok by (intro all_own_add [OF ok, of _ "map (\<lambda>i. Reading Refresh (getTenantIdFromIdentifier i) (getStationIdFromIdentifier i)) (wd_identifiers d)"])
        (auto simp: refreshSubscriptions_def lists_of_def all_own_def fun_eq_iff)
  next
    case (ws_resume xs k ys)
    then show ?thesis using resumed_own [OF ok] by simp
  next
    case (ws_failed xs p t n ys)
    then show ?thesis using ok by (auto simp: all_own_def only_own_def)
  qed (use ok dispatching_adds in \<open>auto intro: adding_own\<close>)
  then show ?thesis using assms(1) chg unfolding changing_step_def by blast
qed

lemma idle_own: "all_own (idle_dispatcher rows S)"
  by (simp add: all_own_def only_own_def idle_dispatcher_def lists_of_def)

interpretation changing_machine: transition_system "changing_step env" "idle_dispatcher rows S" all_own
  for env rows S
  by unfold_locales (auto simp: idle_own intro: step_own)

lemma webhooks_stay_with_station:
  assumes "(changing_step env)\<^sup>*\<^sup>* (idle_dispatcher rows S) d" and "wd_onMessage d (createIdentifier (tenant k) [n]) = Some ss"
  shows "own (tenant k) n ss"
  using changing_machine.reachable [OF assms(1)] assms(2) by (auto simp: all_own_def only_own_def lists_of_def)

text \<open>C10. As long as the connections and disconnections of each station do not overlap, and the table
  of subscriptions stays the same, a stored message of a registered station is posted to
  exactly the subscriptions of its tenant and station that ask for messages and whose filter
  matches, in their order, and the same holds of messages that were sent to it.\<close>

theorem registered_station_webhooks:
  assumes "(orderly_step env)\<^sup>*\<^sup>* (idle_dispatcher rows S) d"
    and "createIdentifier (tenant k) [n] \<in> set (wd_identifiers d)"
  shows "wd_posts (resume env (Received (createIdentifier (tenant k) [n]) msg info) d)
       = wd_posts d @ map (message_post ''cs'' msg info)
           [s \<leftarrow> S. sb_tenantId s = tenant k \<and> sb_name s = n \<and> sb_onMessage s \<and> passes env msg s]
     \<and> wd_posts (resume env (Sent (createIdentifier (tenant k) [n]) msg info) d)
       = wd_posts d @ map (message_post ''csms'' msg info)
           [s \<leftarrow> S. sb_tenantId s = tenant k \<and> sb_name s = n \<and> sb_sentMessage s \<and> passes env msg s]"
proof -
  let ?i = "createIdentifier (tenant k) [n]"
  have ok: "webhooks_fine S d" by (rule webhook_machine.reachable [OF assms(1)])
  have "lists_of d ?i \<noteq> replicate 4 None" using ok assms(2) unfolding webhooks_fine_def loaded_fine_def by blast
  then have "lists_of d ?i = full_lists (readAllByStationId (tenant k) n S)"
    using ok unfolding webhooks_fine_def lists_fine_def by blast
  then show ?thesis
    by (simp add: lists_of_def full_lists_def send_posts_def message_posts_def callbacks_def readAllByStationId_def conj_ac)
qed

text \<open>
  A disconnection waits for the answers to its onClose posts. When the station connects again
  meanwhile, the end of the disconnection removes what the new connection has registered: its
  messages are posted nowhere, and no refresh brings its webhooks back.
\<close>

lemma reconnection_loses_webhooks:
  "i \<notin> set (wd_identifiers (resume env (Closing i) d))"
  "wd_posts (resume env (Received i msg info) (resume env (Closing i) d)) = wd_posts (resume env (Closing i) d)"
  by (simp_all add: forget_station_def send_posts_def message_posts_def callbacks_def)

text \<open>A refresh that was under way when a station disconnected leaves it lists that nothing removes.\<close>

lemma refresh_revives_station:
  "lists_of (resume env (Loaded Refresh (tenant k) n ss) (resume env (Closing (createIdentifier (tenant k) [n])) d))
     (createIdentifier (tenant k) [n]) = full_lists ss"
  "createIdentifier (tenant k) [n] \<notin> set (wd_identifiers (resume env (Loaded Refresh (tenant k) n ss) (resume env (Closing (createIdentifier (tenant k) [n])) d)))"
  by (simp_all add: Let_def lists_of_load)

text \<open>A station connects; its message goes to one of two subscribers.\<close>

definition sample_env :: webhook_env where
  "sample_env = \<lparr> we_regex = (\<lambda>p. Some (\<lambda>m. p = m)), we_print = (\<lambda>_. ''frame'') \<rparr>"

definition sample_subscription :: "nat \<Rightarrow> string option \<Rightarrow> string \<Rightarrow> subscription" where
  "sample_subscription k f url =
     \<lparr> sb_id = k, sb_tenantId = tenant 1, sb_name = ''cs1'', sb_onConnect = False, sb_onClose = False, sb_onMessage = True,
       sb_sentMessage = False, sb_messageRegexFilter = f, sb_url = url \<rparr>"

definition sample_subscriptions :: "subscription list" where
  "sample_subscriptions = [sample_subscription 1 None ''http://a'', sample_subscription 2 (Some ''x'') ''http://b'']"

lemma resume_only:
  assumes "wd_tasks d = [k]"
  shows "orderly_step env d (resume env k (d\<lparr> wd_tasks := [] \<rparr>))"
  unfolding orderly_step_def using ws_resume [of d "[]" k "[]" env] assms by auto

lemma registers_alone:
  assumes "wd_tasks d = []"
  shows "\<exists>d'. (orderly_step env)\<^sup>*\<^sup>* d d' \<and> createIdentifier (tenant k) [n] \<in> set (wd_identifiers d')"
proof -
  let ?i = "createIdentifier (tenant k) [n]"
  let ?d1 = "register_webhooks_of (tenant k) n d"
  let ?d2 = "resume env (Reading Registration (tenant k) n) (?d1\<lparr> wd_tasks := [] \<rparr>)"
  let ?ss = "readAllByStationId (tenant k) n (wd_subscriptions d)"
  let ?d3 = "resume env (Loaded Registration (tenant k) n ?ss) (?d2\<lparr> wd_tasks := [] \<rparr>)"
  let ?d4 = "resume env (Connecting ?i) (?d3\<lparr> wd_tasks := [] \<rparr>)"
  let ?d5 = "resume env (Adding ?i) (?d4\<lparr> wd_tasks := [] \<rparr>)"
  have "orderly_step env d ?d1" using ws_register [of env k n d] assms unfolding orderly_step_def by (intro exI [of _ "Some ?i"]) simp
  moreover have "orderly_step env ?d1 ?d2" by (rule resume_only) (simp add: register_webhooks_of_def assms)
  moreover have "orderly_step env ?d2 ?d3" by (rule resume_only) (simp add: register_webhooks_of_def)
  moreover have "orderly_step env ?d3 ?d4" by (rule resume_only) (simp add: Let_def)
  moreover have "orderly_step env ?d4 ?d5" by (rule resume_only) simp
  ultimately have "(orderly_step env)\<^sup>*\<^sup>* d ?d5" by (meson converse_rtranclp_into_rtranclp rtranclp.rtrancl_refl)
  moreover have "?i \<in> set (wd_identifiers ?d5)" by simp
  ultimately show ?thesis by blast
qed

theorem registered_station_webhooks_witness:
  "\<exists>d. createIdentifier (tenant 1) [''cs1''] \<in> set (wd_identifiers d)
     \<and> wd_posts (resume sample_env (Received (createIdentifier (tenant 1) [''cs1'']) ''y'' []) d)
       = wd_posts d @ [message_post ''cs'' ''y'' [] (sample_subscription 1 None ''http://a'')]"
proof -
  obtain d where d: "(orderly_step sample_env)\<^sup>*\<^sup>* (idle_dispatcher [] sample_subscriptions) d"
    and i: "createIdentifier (tenant 1) [''cs1''] \<in> set (wd_identifiers d)"
    using registers_alone [of "idle_dispatcher [] sample_subscriptions" sample_env 1 "''cs1''"] by (auto simp: idle_dispatcher_def)
  have "[s \<leftarrow> sample_subscriptions. sb_tenantId s = tenant 1 \<and> sb_name s = ''cs1'' \<and> sb_onMessage s \<and> passes sample_env ''y'' s]
      = [sample_subscription 1 None ''http://a'']"
    by (simp add: sample_subscriptions_def sample_subscription_def passes_def sample_env_def)
  with registered_station_webhooks [OF d i, of "''y''" "[]"] i show ?thesis by (intro exI [of _ d]) simp
qed


end
