(* ===== verification/ApiAuth.thy ===== *)
theory ApiAuth
  imports MeterValues
begin

text \<open>
  Who may call the HTTP interface (util/authorization of packages/core): the rules of roles per
  tenant, url and method (rbac/RbacRulesLoader.ts, rbac/UrlMatcher.ts), the two providers
  (provider/OIDCAuthProvider.ts, provider/LocalByPassAuthProvider.ts) and the hook in front of all
  routes (ApiAuthPlugin.ts). Decoding and verifying a JWT and fetching its key are arguments of
  the model. Fastify runs the handler of a route when no hook before it has sent a reply.
\<close>

section \<open>Patterns of urls\<close>

definition starts_with :: "string \<Rightarrow> string \<Rightarrow> bool" where
  "starts_with p s \<longleftrightarrow> take (length p) s = p"

definition ends_with :: "string \<Rightarrow> string \<Rightarrow> bool" where
  "ends_with p s \<longleftrightarrow> starts_with (rev p) (rev s)"

definition url_segments :: "string \<Rightarrow> string list" where
  "url_segments u = filter (\<lambda>s. s \<noteq> []) (split_on CHR ''/'' u)"

fun segments_match :: "string list \<Rightarrow> string list \<Rightarrow> bool" where
  "segments_match [] us = True"
| "segments_match (p # ps) us =
     (if starts_with '':'' p then segments_match ps (tl us)
      else if us = [] \<or> p \<noteq> hd us then False
      else segments_match ps (tl us))"

definition UrlMatcher_match :: "string \<Rightarrow> string \<Rightarrow> bool" where
  "UrlMatcher_match url pattern =
     (if url = pattern then True
      else if ends_with ''/*'' pattern then (let base = butlast pattern in url = base \<or> starts_with base url)
      else if length (url_segments pattern) \<noteq> length (url_segments url) then False
      else segments_match (url_segments pattern) (url_segments url))"

section \<open>Rules\<close>

type_synonym method_rules = "(string \<times> string list) list"
type_synonym tenant_rules = "(string \<times> method_rules) list"
type_synonym rbac_rules = "(string \<times> tenant_rules) list"

definition normalizeUrl :: "string \<Rightarrow> string" where
  "normalizeUrl url =
     (let u = hd (split_on CHR ''#'' (hd (split_on CHR ''?'' url)));
          u = (if 1 < length u \<and> ends_with ''/'' u then butlast u else u)
      in if starts_with ''/'' u then u else CHR ''/'' # u)"

definition roles_for_method :: "string \<Rightarrow> method_rules \<Rightarrow> string list option" where
  "roles_for_method m rules = (case map_of rules m of Some r \<Rightarrow> Some r | None \<Rightarrow> map_of rules ''*'')"

fun first_pattern :: "string \<Rightarrow> string \<Rightarrow> tenant_rules \<Rightarrow> string list option" where
  "first_pattern url m [] = None"
| "first_pattern url m ((pattern, rules) # rest) =
     (if UrlMatcher_match url pattern
      then (case roles_for_method m rules of Some r \<Rightarrow> Some r | None \<Rightarrow> first_pattern url m rest)
      else first_pattern url m rest)"

definition getRequiredRoles :: "rbac_rules \<Rightarrow> string \<Rightarrow> string \<Rightarrow> string \<Rightarrow> string list option" where
  "getRequiredRoles rules t url m =
     (let m = to_upper m; u = normalizeUrl url in
      (case map_of rules t of
         None \<Rightarrow> None
       | Some tr \<Rightarrow> (case map_of tr u of Some mr \<Rightarrow> roles_for_method m mr | None \<Rightarrow> first_pattern u m tr)))"

text \<open>What loadRules leaves: file is the content of the file, valid the parsed and validated rules.\<close>

definition loadRules :: "string option \<Rightarrow> (string \<Rightarrow> rbac_rules option) \<Rightarrow> rbac_rules" where
  "loadRules file valid = (case file of None \<Rightarrow> [] | Some x \<Rightarrow> (case valid x of None \<Rightarrow> [] | Some r \<Rightarrow> r))"

section \<open>Providers\<close>

record user_info =
  ui_id :: "string option"
  ui_name :: "string option"
  ui_email :: string
  ui_roles :: "string list"
  ui_tenantId :: string

record api_request =
  ar_url :: string
  ar_method :: string
  ar_authorization :: "string option"
  ar_tenantId :: "string option"         \<comment> \<open>of the query string\<close>

record api_auth_provider =
  ap_extractToken :: "api_request \<Rightarrow> exn + string option"
  ap_authenticateToken :: "string \<Rightarrow> exn + (string + user_info)"     \<comment> \<open>failure with its message or success\<close>
  ap_authorizeUser :: "user_info \<Rightarrow> api_request \<Rightarrow> exn + string option"  \<comment> \<open>None: authorized\<close>

record jwt_claims =
  jc_sub :: "string option"
  jc_preferred_username :: "string option"
  jc_name :: "string option"
  jc_email :: "string option"
  jc_roles :: "string list option"
  jc_tenant_id :: "string option"

record jwt_env =
  je_kid :: "string \<Rightarrow> string option"                        \<comment> \<open>of the decoded header\<close>
  je_key :: "string \<Rightarrow> exn + string"                          \<comment> \<open>public key of a kid\<close>
  je_verify :: "string \<Rightarrow> string \<Rightarrow> exn + jwt_claims"         \<comment> \<open>token and key\<close>

definition truthy_text :: "string option \<Rightarrow> string option" where
  "truthy_text x = (if x = Some [] then None else x)"

definition or_text :: "string option \<Rightarrow> string option \<Rightarrow> string option" where
  "or_text a b = (if truthy_text a = None then b else a)"

definition oidc_extractToken :: "api_request \<Rightarrow> string option" where
  "oidc_extractToken rq =
     (case ar_authorization rq of
        None \<Rightarrow> None
      | Some h \<Rightarrow> if \<not> starts_with ''Bearer '' h then None else Some (trim_str (drop 7 h)))"

definition claimed_user :: "jwt_claims \<Rightarrow> user_info" where
  "claimed_user c =
     \<lparr> ui_id = jc_sub c, ui_name = or_text (jc_preferred_username c) (or_text (jc_name c) (jc_sub c)),
       ui_email = (case jc_email c of Some e \<Rightarrow> e | None \<Rightarrow> []),
       ui_roles = (case jc_roles c of Some r \<Rightarrow> r | None \<Rightarrow> []),
       ui_tenantId = (case truthy_text (jc_tenant_id c) of Some t \<Rightarrow> t | None \<Rightarrow> ''1'') \<rparr>"

definition exn_message :: "exn \<Rightarrow> string" where
  "exn_message e = (case e of JsErr m _ \<Rightarrow> m | _ \<Rightarrow> ''Invalid token'')"

definition oidc_authenticateToken :: "jwt_env \<Rightarrow> string \<Rightarrow> string + user_info" where
  "oidc_authenticateToken env token =
     (case truthy_text (je_kid env token) of
        None \<Rightarrow> Inl ''Invalid token format''
      | Some kid \<Rightarrow>
          (case je_key env kid of
             Inl e \<Rightarrow> Inl (exn_message e)
           | Inr key \<Rightarrow>
               (case je_verify env token key of
                  Inl e \<Rightarrow> Inl (exn_message e)
                | Inr c \<Rightarrow> Inr (claimed_user c))))"

definition userHasRequiredRole :: "user_info \<Rightarrow> string list \<Rightarrow> bool" where
  "userHasRequiredRole u required = list_ex (\<lambda>r. r \<in> set required) (ui_roles u)"

definition oidc_authorizeUser :: "rbac_rules \<Rightarrow> user_info \<Rightarrow> api_request \<Rightarrow> string option" where
  "oidc_authorizeUser rules u rq =
     (let t = (case truthy_text (ar_tenantId rq) of Some t \<Rightarrow> t | None \<Rightarrow> ''1'') in
      (case getRequiredRoles rules t (ar_url rq) (ar_method rq) of
         None \<Rightarrow> Some (''Tenant does not have access to this resource '' @ ar_url rq)
       | Some required \<Rightarrow>
           if required = [] then Some (''Tenant does not have access to this resource '' @ ar_url rq)
           else if userHasRequiredRole u required then None
           else Some (''Missing required roles. Need one of: '' @ join_with '', '' required @ '' for tenant '' @ t)))"

definition OIDCAuthProvider :: "jwt_env \<Rightarrow> rbac_rules \<Rightarrow> api_auth_provider" where
  "OIDCAuthProvider env rules =
     \<lparr> ap_extractToken = (\<lambda>rq. Inr (oidc_extractToken rq)), ap_authenticateToken = (\<lambda>k. Inr (oidc_authenticateToken env k)),
       ap_authorizeUser = (\<lambda>u rq. Inr (oidc_authorizeUser rules u rq)) \<rparr>"

definition local_admin :: user_info where
  "local_admin = \<lparr> ui_id = Some ''local-admin'', ui_name = Some ''Local Admin'', ui_email = ''admin@local'',
     ui_roles = [''admin'', ''user''], ui_tenantId = ''1'' \<rparr>"

definition LocalBypassAuthProvider :: api_auth_provider where
  "LocalBypassAuthProvider =
     \<lparr> ap_extractToken = (\<lambda>_. Inr (Some ''local-bypass-token'')), ap_authenticateToken = (\<lambda>_. Inr (Inr local_admin)),
       ap_authorizeUser = (\<lambda>_ _. Inr None) \<rparr>"

section \<open>The hook\<close>

record api_reply =
  rp_code :: nat
  rp_message :: string

definition isExcludedRoute :: "string list \<Rightarrow> string \<Rightarrow> bool" where
  "isExcludedRoute routes url \<longleftrightarrow>
     url = ''/health'' \<or> list_ex (\<lambda>r. url = r \<or> starts_with (r @ ''/'') url) routes"

text \<open>The user attached to the request and the replies sent.\<close>

definition authenticate_hook :: "api_auth_provider \<Rightarrow> api_request \<Rightarrow> user_info option \<times> api_reply list" where
  "authenticate_hook prov rq =
     (case ap_extractToken prov rq of
        Inl e \<Rightarrow> (None, [\<lparr> rp_code = 401, rp_message = ''Authentication failed'' \<rparr>])
      | Inr token \<Rightarrow>
          (case truthy_text token of
             None \<Rightarrow> (None, [\<lparr> rp_code = 401, rp_message = ''Missing or invalid authorization header'' \<rparr>])
           | Some k \<Rightarrow>
               (case ap_authenticateToken prov k of
                  Inl e \<Rightarrow> (None, [\<lparr> rp_code = 401, rp_message = ''Authentication failed'' \<rparr>])
                | Inr (Inl m) \<Rightarrow> (None, [\<lparr> rp_code = 401, rp_message = (if m = [] then ''Invalid token'' else m) \<rparr>])
                | Inr (Inr u) \<Rightarrow> (Some u, []))))"

definition authorize_hook :: "api_auth_provider \<Rightarrow> user_info option \<Rightarrow> api_request \<Rightarrow> api_reply list" where
  "authorize_hook prov user rq =
     (case user of
        None \<Rightarrow> [\<lparr> rp_code = 401, rp_message = ''Authentication required'' \<rparr>]
      | Some u \<Rightarrow>
          (case ap_authorizeUser prov u rq of
             Inl e \<Rightarrow> [\<lparr> rp_code = 403, rp_message = ''Authorization failed'' \<rparr>]
           | Inr (Some m) \<Rightarrow> [\<lparr> rp_code = 403, rp_message = (if m = [] then ''Insufficient permissions'' else m) \<rparr>]
           | Inr None \<Rightarrow> []))"

definition onRequest :: "api_auth_provider \<Rightarrow> string list \<Rightarrow> api_request \<Rightarrow> user_info option \<times> api_reply list" where
  "onRequest prov routes rq =
     (if isExcludedRoute routes (ar_url rq) then (None, [])
      else let (user, replies) = authenticate_hook prov rq in (user, replies @ authorize_hook prov user rq))"

definition handler_runs :: "api_auth_provider \<Rightarrow> string list \<Rightarrow> api_request \<Rightarrow> bool" where
  "handler_runs prov routes rq \<longleftrightarrow> snd (onRequest prov routes rq) = []"

section \<open>What a provider promises\<close>

locale auth_provider =
  fixes prov :: api_auth_provider
    and bears :: "api_request \<Rightarrow> user_info \<Rightarrow> bool"       \<comment> \<open>the request proves that it comes from the user\<close>
    and allowed :: "user_info \<Rightarrow> api_request \<Rightarrow> bool"
  assumes bears: "bears rq u \<longleftrightarrow> (\<exists>k. ap_extractToken prov rq = Inr (Some k) \<and> k \<noteq> [] \<and> ap_authenticateToken prov k = Inr (Inr u))"
    and allowed: "allowed u rq \<longleftrightarrow> ap_authorizeUser prov u rq = Inr None"
begin

lemma authenticates: "authenticate_hook prov rq = (Some u, rs) \<longleftrightarrow> bears rq u \<and> rs = []"
  unfolding bears by (auto simp: authenticate_hook_def truthy_text_def split: sum.split option.split)

lemma rejects: "fst (authenticate_hook prov rq) = None \<longleftrightarrow> snd (authenticate_hook prov rq) \<noteq> []"
  by (auto simp: authenticate_hook_def split: sum.split option.split)

lemma handler_runs_iff:
  "handler_runs prov routes rq \<longleftrightarrow> isExcludedRoute routes (ar_url rq) \<or> (\<exists>u. bears rq u \<and> allowed u rq)"
proof (cases "authenticate_hook prov rq")
  case (Pair user rs)
  show ?thesis
  proof (cases user)
    case None
    then have "\<not> bears rq u" for u using authenticates [of rq u] Pair by auto
    moreover have "rs \<noteq> []" using rejects [of rq] Pair None by simp
    ultimately show ?thesis by (simp add: handler_runs_def onRequest_def Pair)
  next
    case (Some u)
    then have "bears rq u" "rs = []" using authenticates [of rq u rs] Pair by auto
    moreover have "u' = u" if "bears rq u'" for u' using authenticates [of rq u' "[]"] that Pair Some by auto
    ultimately have "(\<exists>u. bears rq u \<and> allowed u rq) \<longleftrightarrow> allowed u rq" by blast
    moreover have "authorize_hook prov (Some u) rq = [] \<longleftrightarrow> allowed u rq"
      unfolding allowed by (simp add: authorize_hook_def split: sum.split option.split)
    ultimately show ?thesis using Some \<open>rs = []\<close> by (simp add: handler_runs_def onRequest_def Pair)
  qed
qed

text \<open>A request that does not get through is answered with 401 or 403.\<close>

lemma authenticate_codes: "\<forall>r \<in> set (snd (authenticate_hook prov rq)). rp_code r = 401"
  by (simp add: authenticate_hook_def split: sum.split option.split)

lemma authorize_codes: "\<forall>r \<in> set (authorize_hook prov user rq). rp_code r = 401 \<or> rp_code r = 403"
  by (auto simp: authorize_hook_def split: sum.splits option.splits)

lemma refused_codes: "r \<in> set (snd (onRequest prov routes rq)) \<Longrightarrow> rp_code r = 401 \<or> rp_code r = 403"
  using authenticate_codes [of rq] authorize_codes [of "fst (authenticate_hook prov rq)" rq]
  by (cases "authenticate_hook prov rq") (auto simp: onRequest_def split: if_splits)

end

definition oidc_bears :: "jwt_env \<Rightarrow> api_request \<Rightarrow> user_info \<Rightarrow> bool" where
  "oidc_bears env rq u \<longleftrightarrow> (\<exists>h kid key c. ar_authorization rq = Some (''Bearer '' @ h) \<and> trim_str h \<noteq> []
     \<and> je_kid env (trim_str h) = Some kid \<and> kid \<noteq> [] \<and> je_key env kid = Inr key
     \<and> je_verify env (trim_str h) key = Inr c \<and> u = claimed_user c)"

lemma bearer: "starts_with ''Bearer '' x \<longleftrightarrow> (\<exists>h. x = ''Bearer '' @ h)"
proof
  assume "starts_with ''Bearer '' x"
  then have "take 7 x = ''Bearer ''" by (simp add: starts_with_def numeral_eq_Suc)
  then have "x = ''Bearer '' @ drop 7 x" by (metis append_take_drop_id)
  then show "\<exists>h. x = ''Bearer '' @ h" by (rule exI)
qed (auto simp: starts_with_def)

lemma oidc_token: "oidc_extractToken rq = Some k \<longleftrightarrow> (\<exists>h. ar_authorization rq = Some (''Bearer '' @ h) \<and> k = trim_str h)"
  by (auto simp: oidc_extractToken_def bearer split: option.splits)

lemma oidc_user:
  "oidc_authenticateToken env k = Inr u \<longleftrightarrow>
     (\<exists>kid key c. je_kid env k = Some kid \<and> kid \<noteq> [] \<and> je_key env kid = Inr key \<and> je_verify env k key = Inr c \<and> u = claimed_user c)"
  by (auto simp: oidc_authenticateToken_def truthy_text_def split: option.splits sum.splits)

interpretation oidc: auth_provider "OIDCAuthProvider env rules" "oidc_bears env" "\<lambda>u rq. oidc_authorizeUser rules u rq = None"
  for env rules
  by unfold_locales (auto simp: OIDCAuthProvider_def oidc_bears_def oidc_token oidc_user)

interpretation bypass: auth_provider LocalBypassAuthProvider "\<lambda>rq u. u = local_admin" "\<lambda>u rq. True"
  by unfold_locales (auto simp: LocalBypassAuthProvider_def)

section \<open>Properties\<close>

text \<open>What a pattern means.\<close>

definition covers :: "string \<Rightarrow> string \<Rightarrow> bool" where
  "covers pattern url \<longleftrightarrow> url = pattern
     \<or> (if ends_with ''/*'' pattern then starts_with (butlast pattern) url
        else list_all2 (\<lambda>p s. starts_with '':'' p \<or> p = s) (url_segments pattern) (url_segments url))"

lemma segments_match_iff:
  "length ps = length us \<Longrightarrow> segments_match ps us \<longleftrightarrow> list_all2 (\<lambda>p s. starts_with '':'' p \<or> p = s) ps us"
proof (induction ps arbitrary: us)
  case (Cons p ps)
  then show ?case by (cases us) auto
qed simp

lemma starts_with_self: "starts_with p p"
  by (simp add: starts_with_def)

lemma UrlMatcher_match_iff: "UrlMatcher_match url pattern \<longleftrightarrow> covers pattern url"
  by (auto simp: UrlMatcher_match_def covers_def Let_def starts_with_self segments_match_iff dest: list_all2_lengthD)

lemma first_pattern_rule:
  "first_pattern url m tr = Some r \<Longrightarrow> \<exists>(pattern, rules) \<in> set tr. covers pattern url \<and> roles_for_method m rules = Some r"
  by (induction url m tr rule: first_pattern.induct) (auto simp: UrlMatcher_match_iff split: if_splits option.splits)

lemma required_roles_rule:
  assumes "getRequiredRoles rules t url m = Some r"
  shows "\<exists>tr. map_of rules t = Some tr \<and> (\<exists>(pattern, mr) \<in> set tr. covers pattern (normalizeUrl url) \<and> roles_for_method (to_upper m) mr = Some r)"
proof -
  obtain tr where tr: "map_of rules t = Some tr"
    using assms by (auto simp: getRequiredRoles_def Let_def split: option.splits)
  show ?thesis
  proof (cases "map_of tr (normalizeUrl url)")
    case None
    then have "first_pattern (normalizeUrl url) (to_upper m) tr = Some r" using assms tr by (simp add: getRequiredRoles_def Let_def)
    from first_pattern_rule [OF this] tr show ?thesis by blast
  next
    case (Some mr)
    then have "roles_for_method (to_upper m) mr = Some r" using assms tr by (simp add: getRequiredRoles_def Let_def)
    moreover have "(normalizeUrl url, mr) \<in> set tr" by (rule map_of_SomeD [OF Some])
    moreover have "covers (normalizeUrl url) (normalizeUrl url)" by (simp add: covers_def)
    ultimately show ?thesis using tr by blast
  qed
qed

text \<open>C17. With OIDC the handler of a route that is not excluded runs only for a request that bears a
  token which verifies under the key its header names, and whose user has a role that a rule
  of the requested tenant for a covering pattern and the method of the request names.\<close>

theorem handler_needs_role:
  assumes "handler_runs (OIDCAuthProvider env rules) routes rq" and "\<not> isExcludedRoute routes (ar_url rq)"
  shows "\<exists>h kid key c. ar_authorization rq = Some (''Bearer '' @ h) \<and> je_kid env (trim_str h) = Some kid \<and> je_key env kid = Inr key
     \<and> je_verify env (trim_str h) key = Inr c
     \<and> (\<exists>tr pattern mr required. map_of rules (case truthy_text (ar_tenantId rq) of Some t \<Rightarrow> t | None \<Rightarrow> ''1'') = Some tr
          \<and> (pattern, mr) \<in> set tr \<and> covers pattern (normalizeUrl (ar_url rq))
          \<and> roles_for_method (to_upper (ar_method rq)) mr = Some required
          \<and> (\<exists>role \<in> set required. role \<in> set (ui_roles (claimed_user c))))"
proof -
  obtain u where u: "oidc_bears env rq u" "oidc_authorizeUser rules u rq = None"
    using assms oidc.handler_runs_iff by blast
  let ?t = "case truthy_text (ar_tenantId rq) of Some t \<Rightarrow> t | None \<Rightarrow> ''1''"
  obtain required where r: "getRequiredRoles rules ?t (ar_url rq) (ar_method rq) = Some required" "userHasRequiredRole u required"
    using u(2) by (auto simp: oidc_authorizeUser_def Let_def split: option.splits if_splits)
  obtain role where role: "role \<in> set required" "role \<in> set (ui_roles u)"
    using r(2) by (auto simp: userHasRequiredRole_def list_ex_iff)
  from u(1) required_roles_rule [OF r(1)] role show ?thesis unfolding oidc_bears_def by blast
qed

text \<open>The local provider lets every request through.\<close>

lemma bypass_runs_all: "handler_runs LocalBypassAuthProvider routes rq"
  using bypass.handler_runs_iff by blast

text \<open>
  The tenant of the user plays no part: a user of one tenant with a role that a rule of another
  tenant names is authorized for that other tenant.
\<close>

lemma tenant_of_user_ignored: "oidc_authorizeUser rules (u\<lparr> ui_tenantId := t \<rparr>) rq = oidc_authorizeUser rules u rq"
proof -
  have "userHasRequiredRole (u\<lparr> ui_tenantId := t \<rparr>) = userHasRequiredRole u" by (simp add: userHasRequiredRole_def fun_eq_iff)
  then show ?thesis by (simp add: oidc_authorizeUser_def Let_def split: option.split)
qed

text \<open>A rule for the very url hides the patterns that cover it, for methods it does not name too.\<close>

lemma exact_rule_hides_patterns:
  assumes "map_of rules t = Some tr" and "map_of tr (normalizeUrl url) = Some mr" and "roles_for_method (to_upper m) mr = None"
  shows "getRequiredRoles rules t url m = None"
  using assms by (simp add: getRequiredRoles_def Let_def)

text \<open>A request without a token is answered twice.\<close>

lemma refused_twice:
  assumes "ar_authorization rq = None" and "\<not> isExcludedRoute routes (ar_url rq)"
  shows "map rp_code (snd (onRequest (OIDCAuthProvider env rules) routes rq)) = [401, 401]"
  using assms by (simp add: onRequest_def authenticate_hook_def authorize_hook_def OIDCAuthProvider_def oidc_extractToken_def truthy_text_def)

definition sample_claims :: jwt_claims where
  "sample_claims = \<lparr> jc_sub = Some ''u'', jc_preferred_username = None, jc_name = None, jc_email = None,
     jc_roles = Some [''admin''], jc_tenant_id = Some ''2'' \<rparr>"

definition sample_jwt :: jwt_env where
  "sample_jwt = \<lparr> je_kid = (\<lambda>_. Some ''k''), je_key = (\<lambda>_. Inr ''key''),
     je_verify = (\<lambda>t k. if t = ''abc'' then Inr sample_claims else Inl (JsErr ''bad'' [])) \<rparr>"

definition sample_rules :: rbac_rules where
  "sample_rules = [(''1'', [(''/data/*'', [(''GET'', [''admin''])])])]"

definition sample_api_request :: api_request where
  "sample_api_request = \<lparr> ar_url = ''/data/x?y=1'', ar_method = ''get'', ar_authorization = Some ''Bearer abc'', ar_tenantId = None \<rparr>"

theorem handler_needs_role_witness:
  "\<exists>tr pattern mr required. map_of sample_rules ''1'' = Some tr
     \<and> (pattern, mr) \<in> set tr \<and> covers pattern (normalizeUrl (ar_url sample_api_request))
     \<and> roles_for_method (to_upper (ar_method sample_api_request)) mr = Some required \<and> required \<noteq> []"
proof -
  have "handler_runs (OIDCAuthProvider sample_jwt sample_rules) [''/docs''] sample_api_request" by code_simp
  moreover have "\<not> isExcludedRoute [''/docs''] (ar_url sample_api_request)" by code_simp
  moreover have "(case truthy_text (ar_tenantId sample_api_request) of Some t \<Rightarrow> t | None \<Rightarrow> ''1'') = ''1''" by code_simp
  ultimately show ?thesis using handler_needs_role [of sample_jwt sample_rules "[''/docs'']" sample_api_request] by fastforce
qed


end
