(* ===== verification/Broker.thy ===== *)
theory Broker
  imports Router "HOL-Library.Multiset"
begin

text \<open>
  The connection of router and modules to the message broker
  (packages/core/src/util/queue): RabbitMqSender (rabbit-mq/sender.ts), the decorator
  BrokerAwareMessageSender.ts that keeps responses while the broker is away, and RabbitMqReceiver
  (rabbit-mq/receiver.ts) with its subscriptions. A published message is the message as it is when
  it is serialised. The messages themselves are objects that sender and caller share, so they
  live in a store and the buffer holds their addresses. The AMQP channel is a parameter: what
  publish answers, and whether a channel is there.
\<close>

section \<open>The RabbitMQ sender\<close>

record broker =
  bk_connected :: bool
  bk_published :: "message list"

record rabbit_env =
  rb_channel :: "broker \<Rightarrow> bool"
  rb_publish :: "broker \<Rightarrow> message \<Rightarrow> bool"

definition truthy_payload :: "message_payload \<Rightarrow> bool" where
  "truthy_payload p = (case p of Plain v \<Rightarrow> truthy v | ErrorPayload e \<Rightarrow> True)"

text \<open>A payload that is falsy and a state that is missing are not assigned. Every state is truthy.\<close>

definition assign :: "message_payload option \<Rightarrow> message_state option \<Rightarrow> message \<Rightarrow> message" where
  "assign p s m =
     (let m = (case p of Some p' \<Rightarrow> if truthy_payload p' then m\<lparr> m_payload := p' \<rparr> else m | None \<Rightarrow> m)
      in case s of Some s' \<Rightarrow> m\<lparr> m_state := s' \<rparr> | None \<Rightarrow> m)"

definition failure :: "string \<Rightarrow> confirmation" where
  "failure s = \<lparr> conf_success = False, conf_payload = JStr s \<rparr>"

definition success :: confirmation where
  "success = \<lparr> conf_success = True, conf_payload = JUndef \<rparr>"

definition rabbit_send :: "rabbit_env \<Rightarrow> message \<Rightarrow> broker \<Rightarrow> (exn + confirmation) \<times> broker" where
  "rabbit_send env m bk =
     (if \<not> bk_connected bk then (Inr (failure ''RabbitMQ disconnected. Cannot send message.''), bk)
      else if \<not> truthy_payload (m_payload m) then (Inr (failure ''Message payload must be set''), bk)
      else if \<not> rb_channel env bk then (Inl (JsErr ''RabbitMQ is down: cannot send message.'' []), bk)
      else (Inr \<lparr> conf_success = rb_publish env bk m, conf_payload = JUndef \<rparr>,
            bk\<lparr> bk_published := bk_published bk @ [m] \<rparr>))"

section \<open>The sender that survives the broker\<close>

text \<open>A flush is the list it took from the buffer and the position it has reached. Messages the inner
  sender did not publish, which it logs or reports to the caller, and those a shutdown drops are
  recorded in sd_lost.\<close>

record sender =
  sd_store :: "message list"
  sd_broker :: broker
  sd_buffer :: "nat list"
  sd_flushes :: "(nat list \<times> nat) list"
  sd_timers :: "string list"
  sd_closed :: "(string \<times> js_num) list"
  sd_lost :: "message list"

definition new_sender :: sender where
  "new_sender = \<lparr> sd_store = [], sd_broker = \<lparr> bk_connected = False, bk_published = [] \<rparr>, sd_buffer = [],
     sd_flushes = [], sd_timers = [], sd_closed = [], sd_lost = [] \<rparr>"

definition inner_send :: "rabbit_env \<Rightarrow> message \<Rightarrow> sender \<Rightarrow> (exn + confirmation) \<times> sender" where
  "inner_send env m sd =
     (let (res, bk) = rabbit_send env m (sd_broker sd)
      in (res, sd\<lparr> sd_broker := bk,
                   sd_lost := (if bk_published bk = bk_published (sd_broker sd) then sd_lost sd @ [m] else sd_lost sd) \<rparr>))"

definition call_identifier :: "message \<Rightarrow> string" where
  "call_identifier m = num_str (ctx_tenantId (m_context m)) @ '':'' @ ctx_ocppConnectionName (m_context m)"

definition handleDisconnectedCall :: "message \<Rightarrow> sender \<Rightarrow> confirmation \<times> sender" where
  "handleDisconnectedCall m sd =
     (if call_identifier m \<in> set (sd_timers sd) then (success, sd)
      else (success, sd\<lparr> sd_timers := sd_timers sd @ [call_identifier m] \<rparr>))"

definition bufferMessage :: "nat \<Rightarrow> sender \<Rightarrow> confirmation \<times> sender" where
  "bufferMessage r sd = (success, sd\<lparr> sd_buffer := sd_buffer sd @ [r] \<rparr>)"

definition sender_send ::
  "rabbit_env \<Rightarrow> nat \<Rightarrow> message_payload option \<Rightarrow> message_state option \<Rightarrow> sender \<Rightarrow> (exn + confirmation) \<times> sender" where
  "sender_send env r p s sd =
     (let m = assign p s (sd_store sd ! r);
          sd = sd\<lparr> sd_store := (sd_store sd)[r := m] \<rparr>
      in if bk_connected (sd_broker sd) then inner_send env m sd
         else let (c, sd) = (if m_state m = Request then handleDisconnectedCall m sd else bufferMessage r sd)
              in (Inr c, sd))"

definition sendRequest :: "rabbit_env \<Rightarrow> nat \<Rightarrow> message_payload option \<Rightarrow> sender \<Rightarrow> (exn + confirmation) \<times> sender" where
  "sendRequest env r p = sender_send env r p (Some Request)"

definition sendResponse :: "rabbit_env \<Rightarrow> nat \<Rightarrow> message_payload option \<Rightarrow> sender \<Rightarrow> (exn + confirmation) \<times> sender" where
  "sendResponse env r p = sender_send env r p (Some Response)"

text \<open>A message object is made and sent.\<close>

definition new_message :: "message \<Rightarrow> sender \<Rightarrow> nat \<times> sender" where
  "new_message m sd = (length (sd_store sd), sd\<lparr> sd_store := sd_store sd @ [m] \<rparr>)"

definition send_new :: "rabbit_env \<Rightarrow> message \<Rightarrow> sender \<Rightarrow> (exn + confirmation) \<times> sender" where
  "send_new env m sd = (let (r, sd) = new_message m sd in sender_send env r None None sd)"

fun index_of :: "nat \<Rightarrow> nat list \<Rightarrow> nat" where
  "index_of r [] = 0"
| "index_of r (x # xs) = (if x = r then 0 else Suc (index_of r xs))"

definition start_flush :: "sender \<Rightarrow> sender" where
  "start_flush sd =
     (if sd_buffer sd = [] then sd
      else sd\<lparr> sd_flushes := sd_flushes sd @ [(sd_buffer sd, 0)], sd_buffer := [] \<rparr>)"

definition broker_connected :: "sender \<Rightarrow> sender" where
  "broker_connected sd = start_flush (sd\<lparr> sd_broker := (sd_broker sd)\<lparr> bk_connected := True \<rparr> \<rparr>)"

definition broker_disconnected :: "sender \<Rightarrow> sender" where
  "broker_disconnected sd = sd\<lparr> sd_broker := (sd_broker sd)\<lparr> bk_connected := False \<rparr> \<rparr>"

text \<open>One round of the loop of the i-th flush.\<close>

definition without :: "nat \<Rightarrow> 'a list \<Rightarrow> 'a list" where
  "without i xs = take i xs @ drop (Suc i) xs"

definition flush_round :: "rabbit_env \<Rightarrow> nat \<Rightarrow> sender \<Rightarrow> sender" where
  "flush_round env i sd =
     (let (rs, k) = sd_flushes sd ! i in
      if k \<ge> length rs then sd\<lparr> sd_flushes := without i (sd_flushes sd) \<rparr>
      else if \<not> bk_connected (sd_broker sd)
      then sd\<lparr> sd_flushes := without i (sd_flushes sd),
               sd_buffer := drop (index_of (rs ! k) rs) rs @ sd_buffer sd \<rparr>
      else (snd (inner_send env (sd_store sd ! (rs ! k)) sd))\<lparr> sd_flushes := (sd_flushes sd)[i := (rs, Suc k)] \<rparr>)"

text \<open>The timer of a call fires and the connection of its station is closed.\<close>

definition call_timeout :: "message \<Rightarrow> sender \<Rightarrow> sender" where
  "call_timeout m sd =
     (if call_identifier m \<in> set (sd_timers sd)
      then sd\<lparr> sd_timers := removeAll (call_identifier m) (sd_timers sd),
               sd_closed := sd_closed sd @ [(ctx_ocppConnectionName (m_context m), ctx_tenantId (m_context m))] \<rparr>
      else sd)"

definition sender_shutdown :: "sender \<Rightarrow> sender" where
  "sender_shutdown sd =
     sd\<lparr> sd_timers := [], sd_lost := sd_lost sd @ map (\<lambda>r. sd_store sd ! r) (sd_buffer sd), sd_buffer := [] \<rparr>"

text \<open>Sends of new messages, the broker coming and going, rounds of running flushes and timers in
  any order.\<close>

inductive sender_step :: "sender \<Rightarrow> sender \<Rightarrow> bool" where
  send: "sender_step sd (snd (send_new env m sd))"
| connected: "sender_step sd (broker_connected sd)"
| disconnected: "sender_step sd (broker_disconnected sd)"
| round: "i < length (sd_flushes sd) \<Longrightarrow> sender_step sd (flush_round env i sd)"
| timeout: "sender_step sd (call_timeout m sd)"
| shutdown: "sender_step sd (sender_shutdown sd)"

inductive_cases sender_stepE: "sender_step sd sd'"

section \<open>No response is lost or doubled\<close>

definition is_response :: "message \<Rightarrow> bool" where
  "is_response m = (m_state m \<noteq> Request)"

definition unflushed :: "(nat list \<times> nat) list \<Rightarrow> nat list" where
  "unflushed fs = concat (map (\<lambda>(rs, k). drop k rs) fs)"

text \<open>The addresses of the messages that wait: in the buffer, or still to come in a flush.\<close>

definition waiting :: "sender \<Rightarrow> nat list" where
  "waiting sd = sd_buffer sd @ unflushed (sd_flushes sd)"

definition responses :: "message list \<Rightarrow> message multiset" where
  "responses ms = mset (filter is_response ms)"

definition contents :: "message list \<Rightarrow> nat list \<Rightarrow> message list" where
  "contents store rs = map (\<lambda>r. store ! r) rs"

definition sender_inv :: "sender \<Rightarrow> bool" where
  "sender_inv sd \<longleftrightarrow>
     distinct (waiting sd) \<and>
     (\<forall>r \<in> set (waiting sd). r < length (sd_store sd) \<and> is_response (sd_store sd ! r)) \<and>
     list_all (\<lambda>f. distinct (fst f)) (sd_flushes sd) \<and>
     responses (sd_store sd) =
       responses (bk_published (sd_broker sd)) + mset (contents (sd_store sd) (waiting sd)) + responses (sd_lost sd)"

lemma unflushed_simps [simp]:
  "unflushed [] = []"
  "unflushed (xs @ ys) = unflushed xs @ unflushed ys"
  "unflushed ((rs, k) # fs) = drop k rs @ unflushed fs"
  by (simp_all add: unflushed_def)

lemma responses_simps [simp]:
  "responses [] = {#}"
  "responses (xs @ ys) = responses xs + responses ys"
  "responses (m # ms) = (if is_response m then {#m#} else {#}) + responses ms"
  by (simp_all add: responses_def)

lemma responses_all: "(\<And>m. m \<in> set ms \<Longrightarrow> is_response m) \<Longrightarrow> responses ms = mset ms"
  by (simp add: responses_def filter_id_conv)

lemma assign_none [simp]: "assign None None m = m"
  by (simp add: assign_def)

lemma rabbit_send_published:
  "bk_published (snd (rabbit_send env m bk)) = bk_published bk @ [m] \<or> snd (rabbit_send env m bk) = bk"
  by (simp add: rabbit_send_def)

lemma rabbit_send_connected [simp]: "bk_connected (snd (rabbit_send env m bk)) = bk_connected bk"
  by (simp add: rabbit_send_def)

lemma inner_send_fields [simp]:
  "sd_store (snd (inner_send env m sd)) = sd_store sd"
  "sd_buffer (snd (inner_send env m sd)) = sd_buffer sd"
  "sd_flushes (snd (inner_send env m sd)) = sd_flushes sd"
  "sd_timers (snd (inner_send env m sd)) = sd_timers sd"
  by (simp_all add: inner_send_def split: prod.split)

lemma inner_send_accounts:
  "responses (bk_published (sd_broker (snd (inner_send env m sd)))) + responses (sd_lost (snd (inner_send env m sd))) =
     responses (bk_published (sd_broker sd)) + responses (sd_lost sd) + responses [m]"
  using rabbit_send_published [of env m "sd_broker sd"]
  by (cases "rabbit_send env m (sd_broker sd)") (auto simp: inner_send_def)

lemma send_new_eq:
  "send_new env m sd =
     (let sd = sd\<lparr> sd_store := sd_store sd @ [m] \<rparr>
      in if bk_connected (sd_broker sd) then inner_send env m sd
         else let (c, sd) = (if m_state m = Request then handleDisconnectedCall m sd else bufferMessage (length (sd_store sd) - 1) sd)
              in (Inr c, sd))"
  by (simp add: send_new_def new_message_def sender_send_def Let_def)

lemma contents_simps [simp]:
  "contents store [] = []"
  "contents store (r # rs) = store ! r # contents store rs"
  "contents store (rs @ rs') = contents store rs @ contents store rs'"
  by (simp_all add: contents_def)

lemma contents_append: "list_all (\<lambda>r. r < length xs) rs \<Longrightarrow> contents (xs @ ys) rs = contents xs rs"
  by (induction rs) (simp_all add: nth_append)

lemma sender_inv_new: "sender_inv new_sender"
  by (simp add: sender_inv_def waiting_def new_sender_def)

lemma waiting_inner [simp]: "waiting (snd (inner_send env m sd)) = waiting sd"
  by (simp add: waiting_def)

lemma sender_invD:
  assumes "sender_inv sd"
  shows "distinct (waiting sd)" "list_all (\<lambda>r. r < length (sd_store sd)) (waiting sd)"
    "list_all (\<lambda>r. is_response (sd_store sd ! r)) (waiting sd)" "list_all (\<lambda>f. distinct (fst f)) (sd_flushes sd)"
    "responses (sd_store sd) = responses (bk_published (sd_broker sd)) + mset (contents (sd_store sd) (waiting sd)) +
       responses (sd_lost sd)"
  using assms by (auto simp: sender_inv_def list_all_iff)

lemma sender_invI:
  assumes "distinct (waiting sd)" "list_all (\<lambda>r. r < length (sd_store sd)) (waiting sd)"
    "list_all (\<lambda>r. is_response (sd_store sd ! r)) (waiting sd)" "list_all (\<lambda>f. distinct (fst f)) (sd_flushes sd)"
    "responses (sd_store sd) = responses (bk_published (sd_broker sd)) + mset (contents (sd_store sd) (waiting sd)) +
       responses (sd_lost sd)"
  shows "sender_inv sd"
  using assms by (auto simp: sender_inv_def list_all_iff)

lemma list_all_store:
  assumes "list_all (\<lambda>r. r < length xs) rs"
  shows "list_all (\<lambda>r. r < length (xs @ ys)) rs" "list_all (\<lambda>r. is_response ((xs @ ys) ! r)) rs = list_all (\<lambda>r. is_response (xs ! r)) rs"
  using assms by (induction rs) (auto simp: nth_append)

lemma accounts_with: "p' + l' = p + l + r \<Longrightarrow> p + w + l + r = p' + w + (l' :: 'a multiset)"
  by (metis (no_types, lifting) add.assoc add.commute)

lemma inv_send_connected:
  assumes inv: "sender_inv sd"
  shows "sender_inv (snd (inner_send env m (sd\<lparr> sd_store := sd_store sd @ [m] \<rparr>)))"
proof -
  let ?sd = "sd\<lparr> sd_store := sd_store sd @ [m] \<rparr>"
  note i = sender_invD [OF inv]
  have w: "waiting ?sd = waiting sd" by (simp add: waiting_def)
  have "responses (sd_store ?sd) = responses (bk_published (sd_broker sd)) + mset (contents (sd_store sd) (waiting sd)) +
      responses (sd_lost sd) + responses [m]"
    by (simp add: i(5))
  also have "\<dots> = responses (bk_published (sd_broker (snd (inner_send env m ?sd)))) +
      mset (contents (sd_store sd) (waiting sd)) + responses (sd_lost (snd (inner_send env m ?sd)))"
    by (rule accounts_with) (use inner_send_accounts [of env m ?sd] in simp)
  finally show ?thesis
    using i(1,3,4) list_all_store [OF i(2), of "[m]"]
    by (intro sender_invI) (simp_all add: w contents_append [OF i(2)])
qed

lemma inv_send_down:
  assumes inv: "sender_inv sd" and "is_response m"
  shows "sender_inv (snd (bufferMessage (length (sd_store sd)) (sd\<lparr> sd_store := sd_store sd @ [m] \<rparr>)))"
proof -
  note i = sender_invD [OF inv]
  let ?n = "length (sd_store sd)" and ?sd = "sd\<lparr> sd_store := sd_store sd @ [m] \<rparr>"
  have w: "waiting (snd (bufferMessage ?n ?sd)) = sd_buffer sd @ ?n # unflushed (sd_flushes sd)"
    by (simp add: waiting_def bufferMessage_def)
  have parts: "list_all (\<lambda>r. r < ?n) (sd_buffer sd)" "list_all (\<lambda>r. r < ?n) (unflushed (sd_flushes sd))"
    using i(2) by (simp_all add: waiting_def)
  have "?n \<notin> set (waiting sd)" using i(2) by (auto simp: list_all_iff)
  then have d: "distinct (waiting (snd (bufferMessage ?n ?sd)))" using i(1) by (simp add: waiting_def bufferMessage_def)
  have l: "list_all (\<lambda>r. r < length (sd_store sd @ [m])) (sd_buffer sd @ ?n # unflushed (sd_flushes sd))"
    using list_all_store(1) [OF parts(1), of "[m]"] list_all_store(1) [OF parts(2), of "[m]"] by simp
  have t: "list_all (\<lambda>r. is_response ((sd_store sd @ [m]) ! r)) (sd_buffer sd @ ?n # unflushed (sd_flushes sd))"
    using list_all_store(2) [OF parts(1), of "[m]"] list_all_store(2) [OF parts(2), of "[m]"] i(3) assms(2)
    by (simp add: waiting_def)
  show ?thesis
  proof (rule sender_invI)
    show "responses (sd_store (snd (bufferMessage ?n ?sd))) =
      responses (bk_published (sd_broker (snd (bufferMessage ?n ?sd)))) +
      mset (contents (sd_store (snd (bufferMessage ?n ?sd))) (waiting (snd (bufferMessage ?n ?sd)))) +
      responses (sd_lost (snd (bufferMessage ?n ?sd)))"
      unfolding w using i(5) assms(2) by (simp add: bufferMessage_def waiting_def contents_append [OF parts(1)] contents_append [OF parts(2)])
  qed (use d l t i(4) in \<open>simp_all add: w, simp_all add: bufferMessage_def\<close>)
qed

lemma inv_send_call:
  assumes inv: "sender_inv sd" and "\<not> is_response m"
  shows "sender_inv (snd (handleDisconnectedCall m (sd\<lparr> sd_store := sd_store sd @ [m] \<rparr>)))"
proof -
  note i = sender_invD [OF inv]
  have w: "waiting (snd (handleDisconnectedCall m (sd\<lparr> sd_store := sd_store sd @ [m] \<rparr>))) = waiting sd"
    by (simp add: waiting_def handleDisconnectedCall_def)
  show ?thesis
    using assms(2) i list_all_store [OF i(2), of "[m]"] contents_append [OF i(2), of "[m]"]
    by (intro sender_invI) (simp_all only: w, simp_all add: handleDisconnectedCall_def)
qed

lemma responses_nonresponse: "list_all is_response ms \<Longrightarrow> responses ms = mset ms"
  by (simp add: responses_def list_all_iff filter_id_conv)

lemma inv_connected: "sender_inv sd \<Longrightarrow> sender_inv (broker_connected sd)"
  by (auto simp: sender_inv_def broker_connected_def start_flush_def waiting_def)

lemma inv_disconnected: "sender_inv sd \<Longrightarrow> sender_inv (broker_disconnected sd)"
  by (simp add: sender_inv_def broker_disconnected_def waiting_def)

lemma inv_timeout: "sender_inv sd \<Longrightarrow> sender_inv (call_timeout m sd)"
  by (simp add: sender_inv_def call_timeout_def waiting_def)

lemma inv_shutdown:
  assumes "sender_inv sd"
  shows "sender_inv (sender_shutdown sd)"
proof -
  note i = sender_invD [OF assms]
  have "list_all is_response (contents (sd_store sd) (sd_buffer sd))"
    using i(3) by (simp add: waiting_def contents_def list_all_iff)
  then have "responses (contents (sd_store sd) (sd_buffer sd)) = mset (contents (sd_store sd) (sd_buffer sd))"
    by (rule responses_nonresponse)
  then show ?thesis
    using i by (intro sender_invI) (simp_all add: sender_shutdown_def waiting_def ac_simps flip: contents_def)
qed

lemma nth_split:
  assumes "i < length xs"
  obtains as bs where "xs = as @ xs ! i # bs" "length as = i"
  using id_take_nth_drop [OF assms] assms by (metis length_take min.absorb4)

lemma without_middle [simp]: "length as = i \<Longrightarrow> without i (as @ x # bs) = as @ bs"
  by (simp add: without_def)

lemma index_of_nth: "distinct rs \<Longrightarrow> k < length rs \<Longrightarrow> index_of (rs ! k) rs = k"
proof (induction rs arbitrary: k)
  case (Cons r rs)
  then show ?case by (cases k) auto
qed simp

lemma inv_round:
  assumes inv: "sender_inv sd" and "i < length (sd_flushes sd)"
  shows "sender_inv (flush_round env i sd)"
proof -
  note inv' = sender_invD [OF inv]
  obtain as bs where fs: "sd_flushes sd = as @ sd_flushes sd ! i # bs" and i: "length as = i"
    using nth_split [OF assms(2)] by blast
  obtain rs k where f: "sd_flushes sd ! i = (rs, k)" by force
  have fs: "sd_flushes sd = as @ (rs, k) # bs" using fs f by simp
  have f: "(as @ (rs, k) # bs) ! i = (rs, k)" using i by auto
  have u: "(as @ (rs, k) # bs)[i := x] = as @ x # bs" for x using i by (simp add: list_update_append)
  have d: "distinct rs" using inv'(4) by (simp add: fs)
  have w: "waiting sd = sd_buffer sd @ unflushed as @ drop k rs @ unflushed bs" by (simp add: waiting_def fs)
  consider "k \<ge> length rs" | "k < length rs" "\<not> bk_connected (sd_broker sd)" | "k < length rs" "bk_connected (sd_broker sd)"
    by fastforce
  then show ?thesis
  proof cases
    case 1
    then have "flush_round env i sd = sd\<lparr> sd_flushes := as @ bs \<rparr>" by (simp add: flush_round_def f fs i)
    then show ?thesis using inv' 1 by (intro sender_invI) (simp_all add: waiting_def fs)
  next
    case 2
    then have "flush_round env i sd = sd\<lparr> sd_flushes := as @ bs, sd_buffer := drop k rs @ sd_buffer sd \<rparr>"
      by (simp add: flush_round_def f fs i index_of_nth [OF d])
    then show ?thesis using inv' 2 by (intro sender_invI) (auto simp: waiting_def fs ac_simps)
  next
    case 3
    let ?sd = "snd (inner_send env (sd_store sd ! (rs ! k)) sd)"
    have r: "flush_round env i sd = ?sd\<lparr> sd_flushes := as @ (rs, Suc k) # bs \<rparr>"
      using 3 by (simp add: flush_round_def f fs u)
    have "drop k rs = rs ! k # drop (Suc k) rs" using 3 by (simp add: Cons_nth_drop_Suc)
    then have w: "waiting sd = sd_buffer sd @ unflushed as @ rs ! k # drop (Suc k) rs @ unflushed bs" by (simp add: w)
    have resp: "is_response (sd_store sd ! (rs ! k))" using inv'(3) by (simp add: w)
    have "responses (sd_store sd) = responses (bk_published (sd_broker sd)) +
       mset (contents (sd_store sd) (sd_buffer sd @ unflushed as @ drop (Suc k) rs @ unflushed bs)) + responses (sd_lost sd) +
       responses [sd_store sd ! (rs ! k)]"
      using inv'(5) resp by (simp add: w ac_simps)
    also have "\<dots> = responses (bk_published (sd_broker ?sd)) +
       mset (contents (sd_store sd) (sd_buffer sd @ unflushed as @ drop (Suc k) rs @ unflushed bs)) + responses (sd_lost ?sd)"
      by (rule accounts_with) (rule inner_send_accounts)
    finally have total: "responses (sd_store (flush_round env i sd)) = responses (bk_published (sd_broker (flush_round env i sd))) +
       mset (contents (sd_store (flush_round env i sd)) (waiting (flush_round env i sd))) + responses (sd_lost (flush_round env i sd))"
      by (simp add: r waiting_def)
    have w': "waiting (flush_round env i sd) = sd_buffer sd @ unflushed as @ drop (Suc k) rs @ unflushed bs"
      by (simp add: r waiting_def)
    show ?thesis
    proof (rule sender_invI [OF _ _ _ _ total])
      show "distinct (waiting (flush_round env i sd))" using inv'(1) by (simp add: w w')
      show "list_all (\<lambda>r. r < length (sd_store (flush_round env i sd))) (waiting (flush_round env i sd))"
        using inv'(2) unfolding w' unfolding w by (simp add: r)
      show "list_all (\<lambda>r'. is_response (sd_store (flush_round env i sd) ! r')) (waiting (flush_round env i sd))"
        using inv'(3) unfolding w' unfolding w by (simp add: r)
      show "list_all (\<lambda>f. distinct (fst f)) (sd_flushes (flush_round env i sd))" using inv'(4) by (simp add: r fs)
    qed
  qed
qed

lemma is_response_iff: "is_response m \<longleftrightarrow> m_state m \<noteq> Request"
  by (simp add: is_response_def)

lemma inv_send: "sender_inv sd \<Longrightarrow> sender_inv (snd (send_new env m sd))"
  using inv_send_connected [of sd env m] inv_send_down [of sd m] inv_send_call [of sd m]
  by (auto simp: send_new_eq Let_def is_response_iff split: prod.split)

lemma sender_inv_step: "sender_step sd sd' \<Longrightarrow> sender_inv sd \<Longrightarrow> sender_inv sd'"
  by (erule sender_stepE) (auto intro: inv_send inv_connected inv_disconnected inv_round inv_timeout inv_shutdown)

interpretation sender_machine: transition_system sender_step new_sender sender_inv
  by unfold_locales (rule sender_inv_new, rule sender_inv_step)

section \<open>Replaying the buffer\<close>

lemma send_new_down:
  "\<not> bk_connected (sd_broker sd) \<Longrightarrow> is_response m \<Longrightarrow>
     snd (send_new env m sd) = sd\<lparr> sd_store := sd_store sd @ [m], sd_buffer := sd_buffer sd @ [length (sd_store sd)] \<rparr>"
  by (simp add: send_new_eq is_response_iff bufferMessage_def)

lemma sends_down:
  "\<not> bk_connected (sd_broker sd) \<Longrightarrow> list_all is_response ms \<Longrightarrow>
     fold (\<lambda>m sd. snd (send_new env m sd)) ms sd =
       sd\<lparr> sd_store := sd_store sd @ ms,
           sd_buffer := sd_buffer sd @ [length (sd_store sd) ..< length (sd_store sd) + length ms] \<rparr>"
proof (induction ms arbitrary: sd)
  case (Cons m ms)
  let ?n = "length (sd_store sd)"
  have "[?n ..< Suc (?n + length ms)] = ?n # [Suc ?n ..< Suc (?n + length ms)]" by (rule upt_conv_Cons) simp
  then show ?case using Cons by (simp add: send_new_down del: upt_Suc)
qed simp

lemma contents_new: "contents (xs @ ms) [length xs ..< length xs + length ms] = ms"
  by (rule nth_equalityI) (simp_all add: contents_def)

lemma flush_round_sends:
  assumes "sd_flushes sd = (rs, k) # fs" "k < length rs" "bk_connected (sd_broker sd)"
    and "truthy_payload (m_payload (sd_store sd ! (rs ! k)))" "rb_channel env (sd_broker sd)"
  shows "flush_round env 0 sd =
    sd\<lparr> sd_flushes := (rs, Suc k) # fs,
        sd_broker := (sd_broker sd)\<lparr> bk_published := bk_published (sd_broker sd) @ [sd_store sd ! (rs ! k)] \<rparr> \<rparr>"
  using assms by (simp add: flush_round_def inner_send_def rabbit_send_def)

lemma flush_rounds:
  assumes "bk_connected (sd_broker sd)" "sd_flushes sd = [(rs, 0)]" "n \<le> length rs"
    and "list_all (\<lambda>m. truthy_payload (m_payload m)) (contents (sd_store sd) rs)" and "\<And>bk. rb_channel env bk"
  shows "(flush_round env 0 ^^ n) sd =
    sd\<lparr> sd_flushes := [(rs, n)],
        sd_broker := (sd_broker sd)\<lparr> bk_published := bk_published (sd_broker sd) @ take n (contents (sd_store sd) rs) \<rparr> \<rparr>"
  using assms(3)
proof (induction n)
  case 0
  then show ?case using assms(2) by simp
next
  case (Suc n)
  let ?sd = "(flush_round env 0 ^^ n) sd"
  have sd: "?sd = sd\<lparr> sd_flushes := [(rs, n)],
      sd_broker := (sd_broker sd)\<lparr> bk_published := bk_published (sd_broker sd) @ take n (contents (sd_store sd) rs) \<rparr> \<rparr>"
    using Suc by simp
  have n: "n < length (contents (sd_store sd) rs)" using Suc.prems by (simp add: contents_def)
  have c: "contents (sd_store sd) rs ! n = sd_store sd ! (rs ! n)" using Suc.prems by (simp add: contents_def)
  have "truthy_payload (m_payload (sd_store sd ! (rs ! n)))"
    using assms(4) n by (simp add: list_all_length flip: c)
  then have "flush_round env 0 ?sd =
      ?sd\<lparr> sd_flushes := [(rs, Suc n)],
          sd_broker := (sd_broker ?sd)\<lparr> bk_published := bk_published (sd_broker ?sd) @ [sd_store ?sd ! (rs ! n)] \<rparr> \<rparr>"
    using assms(1,5) Suc.prems by (intro flush_round_sends) (simp_all add: sd)
  then show ?case by (simp add: sd take_Suc_conv_app_nth [OF n] c)
qed


text \<open>C12. Responses that are sent while the broker is away are published in the order they were sent in
  when it is back, each once, after what had been published before.\<close>

theorem buffered_responses_replayed:
  assumes "\<not> bk_connected (sd_broker sd)" and "sd_buffer sd = []" and "sd_flushes sd = []"
    and "list_all is_response ms" and "list_all (\<lambda>m. truthy_payload (m_payload m)) ms" and "ms \<noteq> []"
    and "rb_channel env = (\<lambda>bk. True)"
  shows "bk_published (sd_broker ((flush_round env 0 ^^ length ms)
           (broker_connected (fold (\<lambda>m sd. snd (send_new env m sd)) ms sd)))) = bk_published (sd_broker sd) @ ms"
proof -
  let ?n = "length (sd_store sd)"
  let ?rs = "[?n ..< ?n + length ms]"
  let ?sd = "broker_connected (fold (\<lambda>m sd. snd (send_new env m sd)) ms sd)"
  have sd: "?sd = sd\<lparr> sd_store := sd_store sd @ ms, sd_broker := (sd_broker sd)\<lparr> bk_connected := True \<rparr>,
      sd_buffer := [], sd_flushes := [(?rs, 0)] \<rparr>"
    using assms(2,3,6) sends_down [OF assms(1,4)] by (simp add: broker_connected_def start_flush_def)
  have "(flush_round env 0 ^^ length ms) ?sd = ?sd\<lparr> sd_flushes := [(?rs, length ms)],
      sd_broker := (sd_broker ?sd)\<lparr> bk_published := bk_published (sd_broker ?sd) @ take (length ms) (contents (sd_store ?sd) ?rs) \<rparr> \<rparr>"
    using assms(5,7) by (intro flush_rounds) (simp_all add: sd contents_new)
  then show ?thesis by (simp add: sd contents_new)
qed

text \<open>A message object that is sent a second time while the broker is away, as when a handler
  fails after it has answered, changes the answer that waits in the buffer: both copies go out with the
  payload of the second.\<close>

lemma buffered_answer_overwritten:
  assumes "\<not> bk_connected (sd_broker sd)" and "sd_buffer sd = []" and "sd_flushes sd = []" and "r < length (sd_store sd)"
    and "truthy v" and "rb_channel env = (\<lambda>bk. True)"
  shows "map m_payload (drop (length (bk_published (sd_broker sd)))
      (bk_published (sd_broker ((flush_round env 0 ^^ 2) (broker_connected
        (snd (sendResponse env r (Some (ErrorPayload e)) (snd (sendResponse env r (Some (Plain v)) sd)))))))))
    = [ErrorPayload e, ErrorPayload e]"
proof -
  let ?sd = "broker_connected (snd (sendResponse env r (Some (ErrorPayload e)) (snd (sendResponse env r (Some (Plain v)) sd))))"
  let ?m = "(sd_store sd ! r)\<lparr> m_payload := ErrorPayload e, m_state := Response \<rparr>"
  have sd: "?sd = sd\<lparr> sd_store := (sd_store sd)[r := ?m], sd_broker := (sd_broker sd)\<lparr> bk_connected := True \<rparr>,
      sd_buffer := [], sd_flushes := [([r, r], 0)] \<rparr>"
    using assms(1-5)
    by (simp add: sendResponse_def sender_send_def assign_def truthy_payload_def bufferMessage_def
        broker_connected_def start_flush_def Let_def)
  have c: "contents (sd_store ?sd) [r, r] = [?m, ?m]" using assms(4) by (simp add: sd)
  have "(flush_round env 0 ^^ 2) ?sd = ?sd\<lparr> sd_flushes := [([r, r], 2)],
      sd_broker := (sd_broker ?sd)\<lparr> bk_published := bk_published (sd_broker ?sd) @ take 2 (contents (sd_store ?sd) [r, r]) \<rparr> \<rparr>"
    using assms(6) c by (intro flush_rounds [where n = 2 and rs = "[r, r]"]) (simp_all add: sd truthy_payload_def)
  then show ?thesis using assms(4) by (simp add: sd)
qed

definition demo_message :: "message_state \<Rightarrow> string \<Rightarrow> message" where
  "demo_message st cid = build_message st ''cp1'' cid (Fin 1) ''Heartbeat'' (Plain (JObj [])) Configuration ChargingStationManagementSystem OCPP2_0_1 []"

definition open_channel :: rabbit_env where
  "open_channel = \<lparr> rb_channel = (\<lambda>bk. True), rb_publish = (\<lambda>bk m. True) \<rparr>"

lemma demo_sent_down:
  "snd (send_new open_channel (demo_message Response ''m1'') new_sender) =
     new_sender\<lparr> sd_store := [demo_message Response ''m1''], sd_buffer := [0] \<rparr>"
  by (simp add: send_new_down new_sender_def is_response_iff demo_message_def build_message_def)


theorem buffered_responses_replayed_witness:
  "bk_published (sd_broker ((flush_round open_channel 0 ^^ 2) (broker_connected
      (fold (\<lambda>m sd. snd (send_new open_channel m sd)) [demo_message Response ''m1'', demo_message Response ''m2''] new_sender))))
    = [demo_message Response ''m1'', demo_message Response ''m2'']"
  using buffered_responses_replayed [of new_sender "[demo_message Response ''m1'', demo_message Response ''m2'']" open_channel]
  by (simp add: new_sender_def open_channel_def is_response_def demo_message_def build_message_def truthy_payload_def numeral_2_eq_2)

definition demo_error :: ocpp_error where
  "demo_error = new_ocpp_error ''m1'' InternalError ''Failed handling message: '' (JObj [])"

lemma buffered_answer_overwritten_witness:
  "map m_payload (bk_published (sd_broker ((flush_round open_channel 0 ^^ 2) (broker_connected
        (snd (sendResponse open_channel 0 (Some (ErrorPayload demo_error)) (snd (sendResponse open_channel 0 (Some (Plain (JObj [])))
          (new_sender\<lparr> sd_store := [demo_message Request ''m1''] \<rparr>)))))))))
    = [ErrorPayload demo_error, ErrorPayload demo_error]"
  using buffered_answer_overwritten [of "new_sender\<lparr> sd_store := [demo_message Request ''m1''] \<rparr>" 0 "JObj []" open_channel demo_error]
  by (simp add: new_sender_def open_channel_def)


section \<open>The receiver\<close>

text \<open>What the receiver asks of its channel.\<close>

type_synonym headers = "(string \<times> string) list"

datatype channel_call =
    AssertExchange
  | AssertQueue string
  | BindQueue string headers
  | UnbindQueue string headers
  | Consume string
  | CancelConsumer nat

text \<open>The consumer tags are numbers here, in the order they are handed out. Whether the channel
  manager gives a channel is an argument of the operations.\<close>

record receiver =
  rv_routerMode :: bool
  rv_instanceQueue :: string
  rv_ready :: bool
  rv_subscriptions :: "(string \<times> (string list option \<times> headers option) list) list"
  rv_instanceBindings :: "(string \<times> headers list) list"
  rv_consumerTags :: "(string \<times> nat list) list"
  rv_instanceTags :: "nat list"
  rv_nextTag :: nat
  rv_calls :: "channel_call list"

definition instance_queue :: "string \<Rightarrow> string" where
  "instance_queue instance_id = ''rabbit_queue_router_'' @ instance_id"

definition new_receiver :: "bool \<Rightarrow> string \<Rightarrow> receiver" where
  "new_receiver routerMode instance_id =
     \<lparr> rv_routerMode = routerMode, rv_instanceQueue = instance_queue instance_id, rv_ready = False,
       rv_subscriptions = [], rv_instanceBindings = [], rv_consumerTags = [], rv_instanceTags = [], rv_nextTag = 0,
       rv_calls = [] \<rparr>"

definition ask :: "channel_call list \<Rightarrow> receiver \<Rightarrow> receiver" where
  "ask cs rv = rv\<lparr> rv_calls := rv_calls rv @ cs \<rparr>"

definition entries_of :: "string \<Rightarrow> (string \<times> 'a list) list \<Rightarrow> 'a list" where
  "entries_of k xs = (case map_of xs k of Some ys \<Rightarrow> ys | None \<Rightarrow> [])"

definition spread :: "headers \<Rightarrow> headers option \<Rightarrow> headers" where
  "spread base flt = (case flt of None \<Rightarrow> base | Some f \<Rightarrow> fold (\<lambda>(k, v). AList.update k v) f base)"

definition binding_args :: "string list option \<Rightarrow> headers option \<Rightarrow> headers list" where
  "binding_args actions flt =
     (let base = spread [(''x-match'', ''all'')] flt
      in case actions of
           Some (a # as) \<Rightarrow> map (\<lambda>act. spread [(''action'', act)] (Some base)) (a # as)
         | _ \<Rightarrow> [base])"

definition queue_name :: "string \<Rightarrow> string" where
  "queue_name identifier = ''rabbit_queue_'' @ identifier"

definition no_channel :: "exn + 'a" where
  "no_channel = Inl (JsErr ''RabbitMQ is down: cannot subscribe.'' [])"

definition subscribePerIdentifierQueue ::
  "bool \<Rightarrow> string \<Rightarrow> string list option \<Rightarrow> headers option \<Rightarrow> receiver \<Rightarrow> (exn + bool) \<times> receiver" where
  "subscribePerIdentifierQueue up identifier actions flt rv =
     (if \<not> up then (no_channel, rv)
      else let q = queue_name identifier; tag = rv_nextTag rv;
               rv = ask ([AssertExchange, AssertQueue q] @ map (BindQueue q) (binding_args actions flt) @ [Consume q]) rv
           in (Inr True, rv\<lparr> rv_nextTag := Suc tag,
                             rv_consumerTags := AList.update identifier (entries_of identifier (rv_consumerTags rv) @ [tag])
                               (rv_consumerTags rv) \<rparr>))"

definition initializeInstanceQueue :: "receiver \<Rightarrow> receiver" where
  "initializeInstanceQueue rv =
     (ask [AssertExchange, AssertQueue (rv_instanceQueue rv), Consume (rv_instanceQueue rv)] rv)
       \<lparr> rv_ready := True, rv_instanceTags := rv_instanceTags rv @ [rv_nextTag rv], rv_nextTag := Suc (rv_nextTag rv) \<rparr>"

definition bindToInstanceQueue ::
  "string \<Rightarrow> string list option \<Rightarrow> headers option \<Rightarrow> receiver \<Rightarrow> receiver" where
  "bindToInstanceQueue identifier actions flt rv =
     (ask (map (BindQueue (rv_instanceQueue rv)) (binding_args actions flt)) rv)
       \<lparr> rv_instanceBindings := AList.update identifier
           (entries_of identifier (rv_instanceBindings rv) @ binding_args actions flt) (rv_instanceBindings rv) \<rparr>"

text \<open>An empty list of actions is a module without actions. In router mode a missing channel is an
  error before anything is recorded, in module mode the subscription is recorded first.\<close>

definition subscribe ::
  "bool \<Rightarrow> string \<Rightarrow> string list option \<Rightarrow> headers option \<Rightarrow> receiver \<Rightarrow> (exn + bool) \<times> receiver" where
  "subscribe up identifier actions flt rv =
     (if actions = Some [] then (Inr True, rv)
      else if rv_routerMode rv
      then (if \<not> up then (no_channel, rv)
            else let rv = (if rv_ready rv then rv else initializeInstanceQueue rv)
                 in (Inr True, bindToInstanceQueue identifier actions flt rv))
      else subscribePerIdentifierQueue up identifier actions flt
             (rv\<lparr> rv_subscriptions := AList.update identifier
                 (entries_of identifier (rv_subscriptions rv) @ [(actions, flt)]) (rv_subscriptions rv) \<rparr>))"

definition unsubscribe :: "bool \<Rightarrow> string \<Rightarrow> receiver \<Rightarrow> bool \<times> receiver" where
  "unsubscribe up identifier rv =
     (if rv_routerMode rv
      then (case entries_of identifier (rv_instanceBindings rv) of
              [] \<Rightarrow> (False, rv)
            | bs \<Rightarrow>
                let rv = rv\<lparr> rv_instanceBindings := AList.delete identifier (rv_instanceBindings rv) \<rparr>
                in (True, if up then ask (map (UnbindQueue (rv_instanceQueue rv)) bs) rv else rv))
      else let rv = rv\<lparr> rv_subscriptions := AList.delete identifier (rv_subscriptions rv) \<rparr>
           in if \<not> up then (False, rv)
              else case entries_of identifier (rv_consumerTags rv) of
                     [] \<Rightarrow> (False, rv)
                   | tags \<Rightarrow> (True, (ask (map CancelConsumer tags) rv)
                               \<lparr> rv_consumerTags := AList.delete identifier (rv_consumerTags rv) \<rparr>))"

text \<open>After a reconnection. The channel is there.\<close>

definition reinitializeModuleQueues :: "receiver \<Rightarrow> receiver" where
  "reinitializeModuleQueues rv =
     (if rv_subscriptions rv = [] then rv
      else fold (\<lambda>(identifier, subs) rv. fold (\<lambda>(actions, flt) rv.
               snd (subscribePerIdentifierQueue True identifier actions flt rv)) subs rv)
             (rv_subscriptions rv) (rv\<lparr> rv_consumerTags := [] \<rparr>))"

definition reinitializeInstanceQueue :: "receiver \<Rightarrow> receiver" where
  "reinitializeInstanceQueue rv =
     (if \<not> rv_ready rv then rv
      else (ask ([AssertExchange, AssertQueue (rv_instanceQueue rv)] @
                 map (BindQueue (rv_instanceQueue rv)) (concat (map snd (rv_instanceBindings rv))) @
                 [Consume (rv_instanceQueue rv)]) rv)
             \<lparr> rv_instanceTags := [rv_nextTag rv], rv_nextTag := Suc (rv_nextTag rv) \<rparr>)"

definition onReconnect :: "receiver \<Rightarrow> receiver" where
  "onReconnect rv = (if rv_routerMode rv then reinitializeInstanceQueue rv else reinitializeModuleQueues rv)"

text \<open>A message from the broker: what the module or router made of it decides whether it is
  acknowledged. Every RetryMessageError of the program says that a call is in progress.\<close>

datatype broker_answer = Ack | Nack

definition receiver_onMessage :: "(message \<Rightarrow> exn + unit) \<Rightarrow> bool \<Rightarrow> message option \<Rightarrow> broker_answer" where
  "receiver_onMessage handle_message redelivered parsed =
     (case parsed of
        None \<Rightarrow> Ack
      | Some m \<Rightarrow>
          (case handle_message m of
             Inl (RetryErr s) \<Rightarrow> if m_action m = ''AFRRSignal'' \<and> redelivered then Ack else Nack
           | _ \<Rightarrow> Ack))"

section \<open>What a reconnection restores\<close>

datatype receiver_op =
    Subscribing bool string "string list option" "headers option"
  | Unsubscribing bool string

fun run_op :: "receiver_op \<Rightarrow> receiver \<Rightarrow> receiver" where
  "run_op (Subscribing up identifier actions flt) rv = snd (subscribe up identifier actions flt rv)"
| "run_op (Unsubscribing up identifier) rv = snd (unsubscribe up identifier rv)"

text \<open>The specification: for each identifier the bindings that are wanted.\<close>

fun want :: "bool \<Rightarrow> receiver_op \<Rightarrow> (string \<Rightarrow> headers list) \<Rightarrow> (string \<Rightarrow> headers list)" where
  "want routerMode (Subscribing up identifier actions flt) w =
     (if actions = Some [] \<or> routerMode \<and> \<not> up then w else w(identifier := w identifier @ binding_args actions flt))"
| "want routerMode (Unsubscribing up identifier) w = w(identifier := [])"

definition wanted :: "receiver \<Rightarrow> string \<Rightarrow> headers list" where
  "wanted rv identifier =
     (if rv_routerMode rv then entries_of identifier (rv_instanceBindings rv)
      else concat (map (\<lambda>(actions, flt). binding_args actions flt) (entries_of identifier (rv_subscriptions rv))))"

definition queue_of :: "receiver \<Rightarrow> string \<Rightarrow> string" where
  "queue_of rv identifier = (if rv_routerMode rv then rv_instanceQueue rv else queue_name identifier)"

lemma entries_of_update [simp]: "entries_of k' (AList.update k ys xs) = (if k' = k then ys else entries_of k' xs)"
  by (simp add: entries_of_def update_conv')

lemma entries_of_delete [simp]: "entries_of k' (AList.delete k xs) = (if k' = k then [] else entries_of k' xs)"
  by (simp add: entries_of_def delete_conv')

lemma ask_fields [simp]:
  "rv_routerMode (ask cs rv) = rv_routerMode rv" "rv_instanceQueue (ask cs rv) = rv_instanceQueue rv"
  "rv_subscriptions (ask cs rv) = rv_subscriptions rv" "rv_instanceBindings (ask cs rv) = rv_instanceBindings rv"
  "rv_ready (ask cs rv) = rv_ready rv" "rv_calls (ask cs rv) = rv_calls rv @ cs" "rv_nextTag (ask cs rv) = rv_nextTag rv"
  "rv_consumerTags (ask cs rv) = rv_consumerTags rv" "rv_instanceTags (ask cs rv) = rv_instanceTags rv"
  by (simp_all add: ask_def)

lemma per_queue_fields [simp]:
  "rv_routerMode (snd (subscribePerIdentifierQueue up i as f rv)) = rv_routerMode rv"
  "rv_instanceQueue (snd (subscribePerIdentifierQueue up i as f rv)) = rv_instanceQueue rv"
  "rv_subscriptions (snd (subscribePerIdentifierQueue up i as f rv)) = rv_subscriptions rv"
  "rv_instanceBindings (snd (subscribePerIdentifierQueue up i as f rv)) = rv_instanceBindings rv"
  "rv_ready (snd (subscribePerIdentifierQueue up i as f rv)) = rv_ready rv"
  by (simp_all add: subscribePerIdentifierQueue_def Let_def)

lemma run_op_mode [simp]: "rv_routerMode (run_op o1 rv) = rv_routerMode rv"
  by (cases o1)
    (auto simp: subscribe_def unsubscribe_def bindToInstanceQueue_def initializeInstanceQueue_def Let_def split: list.split)

lemma wanted_run_op: "wanted (run_op o1 rv) = want (rv_routerMode rv) o1 (wanted rv)"
proof (cases o1)
  case (Subscribing up i as f)
  show ?thesis
    unfolding Subscribing
    by (rule ext) (auto simp: wanted_def subscribe_def bindToInstanceQueue_def initializeInstanceQueue_def Let_def)
next
  case (Unsubscribing up i)
  show ?thesis
    unfolding Unsubscribing
    by (rule ext) (auto simp: wanted_def unsubscribe_def Let_def split: list.split)
qed

definition receiver_ok :: "receiver \<Rightarrow> bool" where
  "receiver_ok rv \<longleftrightarrow> distinct (map fst (rv_subscriptions rv)) \<and> distinct (map fst (rv_instanceBindings rv)) \<and>
     (rv_instanceBindings rv \<noteq> [] \<longrightarrow> rv_ready rv)"

lemma receiver_ok_run: "receiver_ok rv \<Longrightarrow> receiver_ok (run_op o1 rv)"
  by (cases o1)
    (auto simp: receiver_ok_def subscribe_def unsubscribe_def bindToInstanceQueue_def initializeInstanceQueue_def Let_def
      distinct_update distinct_delete split: list.split)


definition subscription_calls :: "string \<Rightarrow> string list option \<times> headers option \<Rightarrow> channel_call list" where
  "subscription_calls identifier s =
     (let q = queue_name identifier
      in [AssertExchange, AssertQueue q] @ map (BindQueue q) (binding_args (fst s) (snd s)) @ [Consume q])"

lemma per_queue_calls:
  "rv_calls (snd (subscribePerIdentifierQueue True i as f rv)) = rv_calls rv @ subscription_calls i (as, f)"
  by (simp add: subscribePerIdentifierQueue_def subscription_calls_def Let_def)

lemma identifier_calls:
  "rv_calls (fold (\<lambda>(as, f) rv. snd (subscribePerIdentifierQueue True i as f rv)) subs rv) =
     rv_calls rv @ concat (map (subscription_calls i) subs)"
  by (induction subs arbitrary: rv) (auto simp: per_queue_calls)

lemma all_identifier_calls:
  "rv_calls (fold (\<lambda>(i, subs) rv. fold (\<lambda>(as, f) rv. snd (subscribePerIdentifierQueue True i as f rv)) subs rv) xs rv) =
     rv_calls rv @ concat (map (\<lambda>(i, subs). concat (map (subscription_calls i) subs)) xs)"
  by (induction xs arbitrary: rv) (auto simp: identifier_calls)

definition reconnect_calls :: "receiver \<Rightarrow> channel_call list" where
  "reconnect_calls rv = drop (length (rv_calls rv)) (rv_calls (onReconnect rv))"

lemma reconnect_calls_module:
  "\<not> rv_routerMode rv \<Longrightarrow>
     reconnect_calls rv = concat (map (\<lambda>(i, subs). concat (map (subscription_calls i) subs)) (rv_subscriptions rv))"
  by (auto simp: reconnect_calls_def onReconnect_def reinitializeModuleQueues_def all_identifier_calls)

lemma reconnect_calls_router:
  "rv_routerMode rv \<Longrightarrow> rv_ready rv \<Longrightarrow>
     reconnect_calls rv = [AssertExchange, AssertQueue (rv_instanceQueue rv)] @
       map (BindQueue (rv_instanceQueue rv)) (concat (map snd (rv_instanceBindings rv))) @ [Consume (rv_instanceQueue rv)]"
  by (simp add: reconnect_calls_def onReconnect_def reinitializeInstanceQueue_def)

lemma entries_of_in:
  "distinct (map fst xs) \<Longrightarrow> (\<exists>ys. (k, ys) \<in> set xs \<and> y \<in> set ys) \<longleftrightarrow> y \<in> set (entries_of k xs)"
  by (auto simp: entries_of_def split: option.split)

lemma binds_in_subscription:
  "BindQueue q a \<in> set (subscription_calls i s) \<longleftrightarrow> q = queue_name i \<and> a \<in> set (binding_args (fst s) (snd s))"
  by (auto simp: subscription_calls_def Let_def)

lemma reconnect_binds:
  assumes ok: "receiver_ok rv"
  shows "BindQueue q a \<in> set (reconnect_calls rv) \<longleftrightarrow> (\<exists>i. q = queue_of rv i \<and> a \<in> set (wanted rv i))"
proof (cases "rv_routerMode rv")
  case False
  have "BindQueue q a \<in> set (reconnect_calls rv) \<longleftrightarrow>
      (\<exists>i subs s. (i, subs) \<in> set (rv_subscriptions rv) \<and> s \<in> set subs \<and> q = queue_name i \<and> a \<in> set (binding_args (fst s) (snd s)))"
    by (force simp: reconnect_calls_module [OF False] binds_in_subscription)
  also have "\<dots> \<longleftrightarrow> (\<exists>i s. s \<in> set (entries_of i (rv_subscriptions rv)) \<and> q = queue_name i \<and> a \<in> set (binding_args (fst s) (snd s)))"
    using entries_of_in [of "rv_subscriptions rv"] ok unfolding receiver_ok_def by metis
  finally show ?thesis by (auto simp: wanted_def queue_of_def False)
next
  case True
  show ?thesis
  proof (cases "rv_ready rv")
    case False
    then have "rv_instanceBindings rv = []" using ok by (auto simp: receiver_ok_def)
    then show ?thesis
      by (simp add: reconnect_calls_def onReconnect_def reinitializeInstanceQueue_def True False wanted_def entries_of_def)
  next
    case ready: True
    have "BindQueue q a \<in> set (reconnect_calls rv) \<longleftrightarrow>
        q = rv_instanceQueue rv \<and> (\<exists>i bs. (i, bs) \<in> set (rv_instanceBindings rv) \<and> a \<in> set bs)"
      by (force simp: reconnect_calls_router [OF True ready])
    also have "\<dots> \<longleftrightarrow> q = rv_instanceQueue rv \<and> (\<exists>i. a \<in> set (entries_of i (rv_instanceBindings rv)))"
      using entries_of_in [of "rv_instanceBindings rv"] ok unfolding receiver_ok_def by metis
    finally show ?thesis by (simp add: wanted_def queue_of_def True)
  qed
qed

lemma run_op_queue: "rv_instanceQueue (run_op o1 rv) = rv_instanceQueue rv"
  by (cases o1)
    (auto simp: subscribe_def unsubscribe_def bindToInstanceQueue_def initializeInstanceQueue_def Let_def split: list.split)

lemma run_ops_queue: "rv_instanceQueue (fold run_op os rv) = rv_instanceQueue rv"
  by (induction os arbitrary: rv) (simp_all add: run_op_queue)

lemma run_ops:
  "receiver_ok rv \<Longrightarrow> receiver_ok (fold run_op os rv) \<and> rv_routerMode (fold run_op os rv) = rv_routerMode rv \<and>
     wanted (fold run_op os rv) = fold (want (rv_routerMode rv)) os (wanted rv)"
  by (induction os arbitrary: rv) (simp_all add: receiver_ok_run wanted_run_op)

text \<open>C13. After any sequence of subscriptions and their cancellations, in both modes and whether or not the
  channel was there each time, a reconnection binds exactly what is still wanted: the bindings of every
  subscription that was recorded and not cancelled since.\<close>

theorem reconnect_restores_bindings:
  "BindQueue q a \<in> set (reconnect_calls (fold run_op os (new_receiver routerMode inst))) \<longleftrightarrow>
    (\<exists>i. q = (if routerMode then instance_queue inst else queue_name i) \<and>
         a \<in> set (fold (want routerMode) os (\<lambda>_. []) i))"
proof -
  let ?rv = "fold run_op os (new_receiver routerMode inst)"
  have "receiver_ok (new_receiver routerMode inst)" by (simp add: receiver_ok_def new_receiver_def)
  note run = run_ops [OF this, of os]
  have "wanted (new_receiver routerMode inst) = (\<lambda>_. [])" by (simp add: fun_eq_iff wanted_def new_receiver_def entries_of_def)
  moreover have "rv_routerMode (new_receiver routerMode inst) = routerMode"
    "rv_instanceQueue (new_receiver routerMode inst) = instance_queue inst"
    by (simp_all add: new_receiver_def)
  ultimately have "wanted ?rv = fold (want routerMode) os (\<lambda>_. [])" and ok: "receiver_ok ?rv"
    and "rv_routerMode ?rv = routerMode" "rv_instanceQueue ?rv = instance_queue inst"
    using run run_ops_queue [of os "new_receiver routerMode inst"] by simp_all
  then show ?thesis unfolding reconnect_binds [OF ok] queue_of_def by (simp only:)
qed

text \<open>A message whose handling fails because a call to the station is in progress goes back to the queue, except a
  repeated AFRRSignal that was delivered before; every other outcome takes the message off the queue, errors
  and texts that cannot be parsed included.\<close>

lemma requeued_iff_call_in_progress:
  "receiver_onMessage h redelivered parsed = Nack \<longleftrightarrow>
     (\<exists>m s. parsed = Some m \<and> h m = Inl (RetryErr s) \<and> \<not> (m_action m = ''AFRRSignal'' \<and> redelivered))"
  by (auto simp: receiver_onMessage_def split: option.split sum.split exn.split)

end
