(* ===== verification/OcppModules.thy ===== *)
theory OcppModules
  imports Broker
begin

text \<open>
  What all modules share: AbstractModule (packages/base/src/interfaces/modules/AbstractModule.ts), which
  keeps the handlers of a module, validates the messages from the broker and dispatches them, and
  OcppSender (packages/base/src/interfaces/handlers/OcppSender.ts), which handlers and APIs send with.
  Messages are objects in the store of the sender. The handlers themselves are a parameter.
\<close>

section \<open>The handlers of a module\<close>

record handler_declaration =
  hd_protocol :: ocpp_version
  hd_action :: string
  hd_type :: message_state

fun state_number :: "message_state \<Rightarrow> string" where
  "state_number Request = ''1''"
| "state_number Response = ''2''"
| "state_number Unknown = ''99''"

definition handlerKey :: "ocpp_version \<Rightarrow> string \<Rightarrow> message_state \<Rightarrow> string" where
  "handlerKey protocol act st = version_str protocol @ '':'' @ act @ '':'' @ state_number st"

text \<open>An instance is a number. A conflict is keyed by action and type; a later one for the same key
  takes its place.\<close>

record registry =
  rg_handlers :: "(string \<times> nat) list"
  rg_requests :: "string list"
  rg_responses :: "string list"
  rg_conflicts :: "((string \<times> message_state) \<times> nat \<times> nat) list"

definition declare_action :: "message_state \<Rightarrow> string \<Rightarrow> registry \<Rightarrow> registry" where
  "declare_action type act rg =
     (if type = Request then rg\<lparr> rg_requests := (if act \<in> set (rg_requests rg) then rg_requests rg else rg_requests rg @ [act]) \<rparr>
      else rg\<lparr> rg_responses := (if act \<in> set (rg_responses rg) then rg_responses rg else rg_responses rg @ [act]) \<rparr>)"

definition register_handler :: "nat \<times> handler_declaration \<Rightarrow> registry \<Rightarrow> registry" where
  "register_handler e rg =
     (let (i, d) = e; key = handlerKey (hd_protocol d) (hd_action d) (hd_type d)
      in case map_of (rg_handlers rg) key of
           Some j \<Rightarrow>
             if j \<noteq> i then rg\<lparr> rg_conflicts := AList.update (hd_action d, hd_type d) (j, i) (rg_conflicts rg) \<rparr>
             else declare_action (hd_type d) (hd_action d) rg
         | None \<Rightarrow> declare_action (hd_type d) (hd_action d) (rg\<lparr> rg_handlers := (key, i) # rg_handlers rg \<rparr>))"

text \<open>The handlers with their declarations, in order.\<close>

definition declarations :: "handler_declaration list list \<Rightarrow> (nat \<times> handler_declaration) list" where
  "declarations hs = concat (map (\<lambda>(i, ds). map (\<lambda>d. (i, d)) ds) (enumerate 0 hs))"

definition register_all :: "handler_declaration list list \<Rightarrow> registry" where
  "register_all hs =
     fold register_handler (declarations hs) \<lparr> rg_handlers = [], rg_requests = [], rg_responses = [], rg_conflicts = [] \<rparr>"

fun event_group_str :: "event_group \<Rightarrow> string" where
  "event_group_str All = ''all''"
| "event_group_str event_group.Router = ''router''"
| "event_group_str Modules = ''modules''"
| "event_group_str Certificates = ''certificates''"
| "event_group_str Configuration = ''configuration''"
| "event_group_str DerControl = ''dercontrol''"
| "event_group_str EVDriver = ''evdriver''"
| "event_group_str Ems = ''ems''"
| "event_group_str Monitoring = ''monitoring''"
| "event_group_str Reporting = ''reporting''"
| "event_group_str SmartCharging = ''smartcharging''"
| "event_group_str Tenant = ''tenant''"
| "event_group_str Transactions = ''transactions''"
| "event_group_str V2x = ''v2x''"
| "event_group_str Cdrs = ''cdrs''"
| "event_group_str ChargingProfiles = ''chargingprofiles''"
| "event_group_str Commands = ''commands''"
| "event_group_str Locations = ''locations''"
| "event_group_str Sessions = ''sessions''"
| "event_group_str Tariffs = ''tariffs''"
| "event_group_str Tokens = ''tokens''"
| "event_group_str Versions = ''versions''"
| "event_group_str Credentials = ''credentials''"

record ocpp_module =
  md_eventGroup :: event_group
  md_handlers :: "(string \<times> nat) list"
  md_requests :: "string list"
  md_responses :: "string list"

definition in_quotes :: "string \<Rightarrow> string" where
  "in_quotes s = [CHR 0x27] @ s @ [CHR 0x27]"

text \<open>The lines of the error that name the conflicts are given as values.\<close>

definition new_module :: "event_group \<Rightarrow> string list \<Rightarrow> string list \<Rightarrow> handler_declaration list list \<Rightarrow> exn + ocpp_module" where
  "new_module grp excludedRequests excludedResponses hs =
     (let rg = register_all hs
      in if rg_conflicts rg \<noteq> []
         then Inl (JsErr (''Module '' @ in_quotes (event_group_str grp) @ '' cannot start: two handlers are registered for the same message.'')
                     (map (\<lambda>((act, type), j, i). JArr [JStr act, JNum (of_nat j), JNum (of_nat i)]) (rg_conflicts rg)))
         else Inr \<lparr> md_eventGroup = grp, md_handlers = rg_handlers rg,
                    md_requests = filter (\<lambda>act. act \<notin> set excludedRequests) (rg_requests rg),
                    md_responses = filter (\<lambda>act. act \<notin> set excludedResponses) (rg_responses rg) \<rparr>)"

section \<open>Handling a message\<close>

record module_state =
  ms_cache :: mem_cache
  ms_sender :: sender

record module_env =
  me_ajv :: ajv
  me_print :: "jsval \<Rightarrow> string"            \<comment> \<open>JSON.stringify\<close>
  me_parse :: "string \<Rightarrow> jsval option"      \<comment> \<open>JSON.parse, None for a SyntaxError\<close>
  me_timestamp :: string
  me_maxCachingSeconds :: int
  me_rabbit :: rabbit_env
  me_handler :: "nat \<Rightarrow> nat \<Rightarrow> module_state \<Rightarrow> (exn + unit) \<times> module_state"   \<comment> \<open>instance, message\<close>

definition the_message :: "nat \<Rightarrow> module_state \<Rightarrow> message" where
  "the_message r st = sd_store (ms_sender st) ! r"

definition set_message :: "nat \<Rightarrow> message \<Rightarrow> module_state \<Rightarrow> module_state" where
  "set_message r m st =
     st\<lparr> ms_sender := (ms_sender st)\<lparr> sd_store := (sd_store (ms_sender st))[r := m] \<rparr> \<rparr>"

definition on_sender :: "(sender \<Rightarrow> 'a \<times> sender) \<Rightarrow> module_state \<Rightarrow> 'a \<times> module_state" where
  "on_sender f st = (let (x, sd) = f (ms_sender st) in (x, st\<lparr> ms_sender := sd \<rparr>))"

definition cache_set :: "string \<Rightarrow> string \<Rightarrow> string \<Rightarrow> int \<Rightarrow> module_state \<Rightarrow> module_state" where
  "cache_set key v ns s st = st\<lparr> ms_cache := snd (set_key key v (Some ns) (Some s) (ms_cache st)) \<rparr>"

definition correlation :: "message \<Rightarrow> string" where
  "correlation m = ctx_correlationId (m_context m)"

text \<open>Sanitizing and validating change the payload of the object in place.\<close>

definition validate_message :: "module_env \<Rightarrow> nat \<Rightarrow> module_state \<Rightarrow> (exn + unit) \<times> module_state" where
  "validate_message env r st =
     (let m = the_message r st;
          p = sanitizeOCPPPayload (payload_value (m_payload m));
          st = set_message r (m\<lparr> m_payload := Plain p \<rparr>) st
      in case m_state m of
           Request \<Rightarrow>
             (case validateOCPPRequest (me_ajv env) (m_action m) p (m_protocol m) of
                Inl e \<Rightarrow> (Inl e, st)
              | Inr (v, p) \<Rightarrow>
                  let st = set_message r (m\<lparr> m_payload := Plain p \<rparr>) st
                  in case v of
                       Invalid errors \<Rightarrow> (Inl (invalid_format (correlation m) errors), st)
                     | Valid \<Rightarrow> (Inr (), st))
         | Response \<Rightarrow>
             (case validateOCPPResponse (me_ajv env) (m_action m) p (m_protocol m) of
                (v, p) \<Rightarrow>
                  let st = set_message r (m\<lparr> m_payload := Plain p \<rparr>) st
                  in case v of
                       Invalid errors \<Rightarrow> (Inl (invalid_format (correlation m) errors), st)
                     | Valid \<Rightarrow> (Inr (), cache_set (correlation m) (me_print env p)
                                   (ctx_ocppConnectionName (m_context m)) (me_maxCachingSeconds env) st))
         | Unknown \<Rightarrow> (Inl (JsErr ''Unknown message state: '' [JStr (state_number Unknown)]), st))"

definition run_handler :: "module_env \<Rightarrow> ocpp_module \<Rightarrow> nat \<Rightarrow> module_state \<Rightarrow> (exn + unit) \<times> module_state" where
  "run_handler env md r st =
     (let m = the_message r st
      in case map_of (md_handlers md) (handlerKey (m_protocol m) (m_action m) (m_state m)) of
           None \<Rightarrow> (throw_ocpp (correlation m) NotSupported (''No handler found for action: '' @ m_action m @ '' at module '' @ event_group_str (md_eventGroup md)), st)
         | Some i \<Rightarrow> me_handler env i r st)"

definition call_error_of :: "string \<Rightarrow> exn \<Rightarrow> ocpp_error" where
  "call_error_of messageId e =
     (case e of
        OcppErr oe \<Rightarrow> oe
      | RetryErr s \<Rightarrow> new_ocpp_error messageId InternalError (''Failed handling message: '' @ s) (JObj [])
      | JsErr s vs \<Rightarrow> new_ocpp_error messageId InternalError (''Failed handling message: '' @ s) (JObj []))"

text \<open>Only calls are answered by an error. The state of the message is read after the handler ran.\<close>

definition answer_failure :: "module_env \<Rightarrow> nat \<Rightarrow> exn \<Rightarrow> module_state \<Rightarrow> (exn + unit) \<times> module_state" where
  "answer_failure env r e st =
     (let m = the_message r st
      in if m_state m = Request
         then let st = set_message r (m\<lparr> m_origin := ChargingStationManagementSystem \<rparr>) st;
                  (c, st) = on_sender (sendResponse (me_rabbit env) r (Some (ErrorPayload (call_error_of (correlation m) e)))) st
              in (bind_res c (\<lambda>_. Inr ()), st)
         else (Inr (), st))"

definition module_handle :: "module_env \<Rightarrow> ocpp_module \<Rightarrow> nat \<Rightarrow> module_state \<Rightarrow> (exn + unit) \<times> module_state" where
  "module_handle env md r st =
     (case validate_message env r st of
        (Inl e, st) \<Rightarrow> (Inl e, st)
      | (Inr _, st) \<Rightarrow>
          (case run_handler env md r st of
             (Inr _, st) \<Rightarrow> (Inr (), st)
           | (Inl e, st) \<Rightarrow> answer_failure env r e st))"

section \<open>Sending\<close>

definition CALLBACK_URL :: "string \<Rightarrow> string" where
  "CALLBACK_URL name = ''CALLBACK_URL_'' @ name"

definition refused :: "string \<Rightarrow> exn + confirmation" where
  "refused s = Inr (failure s)"

text \<open>The protocol of the connection of a station, as the network connection has cached it.\<close>

definition connection_protocol :: "module_env \<Rightarrow> string \<Rightarrow> mem_cache \<Rightarrow> exn + jsval option" where
  "connection_protocol env identifier c =
     (case get_key identifier (Some ''conn'') c of
        None \<Rightarrow> Inr None
      | Some [] \<Rightarrow> Inr None
      | Some s \<Rightarrow>
          (case me_parse env s of
             None \<Rightarrow> Inl (JsErr ''SyntaxError'' [])
           | Some v \<Rightarrow> Inr (Some (js_prop ''protocol'' v))))"

definition hand_over :: "module_env \<Rightarrow> message \<Rightarrow> module_state \<Rightarrow> (exn + confirmation) \<times> module_state" where
  "hand_over env m st =
     (let (r, st) = on_sender (new_message m) st
      in on_sender (if m_state m = Request then sendRequest (me_rabbit env) r None else sendResponse (me_rabbit env) r None) st)"

definition sender_sendCall ::
  "module_env \<Rightarrow> string \<Rightarrow> string \<Rightarrow> js_num \<Rightarrow> ocpp_version \<Rightarrow> string \<Rightarrow> event_group \<Rightarrow> jsval \<Rightarrow> string \<Rightarrow> string option
   \<Rightarrow> message_origin \<Rightarrow> module_state \<Rightarrow> (exn + confirmation) \<times> module_state" where
  "sender_sendCall env uuid name tenantId protocol act grp pl callbackUrl correlationId origin st =
     (let identifier = createIdentifier tenantId [name];
          cid = (case correlationId of None \<Rightarrow> uuid | Some c \<Rightarrow> c)
      in case validateOCPPRequest (me_ajv env) act (sanitizeOCPPPayload pl) protocol of
           Inl e \<Rightarrow> (Inl e, st)
         | Inr (Invalid errors, pl) \<Rightarrow> (Inl (invalid_format cid errors), st)
         | Inr (Valid, pl) \<Rightarrow>
             let st = (if callbackUrl \<noteq> [] then cache_set cid callbackUrl (CALLBACK_URL name) (me_maxCachingSeconds env) st else st)
             in case connection_protocol env identifier (ms_cache st) of
                  Inl e \<Rightarrow> (Inl e, st)
                | Inr None \<Rightarrow> (refused (''No connection found for identifier: '' @ identifier), st)
                | Inr (Some p) \<Rightarrow>
                    if p \<noteq> JStr (version_str protocol) then (refused (''Requested protocol: '' @ in_quotes (version_str protocol) @ '', connection protocol: '' @
                        in_quotes (case js_to_string p of Some s \<Rightarrow> s | None \<Rightarrow> []) @ '' for identifier: '' @ in_quotes identifier), st)
                    else hand_over env (buildCall name cid tenantId act pl grp origin protocol (me_timestamp env)) st)"

definition sender_sendCallResult ::
  "module_env \<Rightarrow> string \<Rightarrow> string \<Rightarrow> js_num \<Rightarrow> ocpp_version \<Rightarrow> string \<Rightarrow> event_group \<Rightarrow> jsval
   \<Rightarrow> message_origin \<Rightarrow> module_state \<Rightarrow> (exn + confirmation) \<times> module_state" where
  "sender_sendCallResult env cid name tenantId protocol act grp pl origin st =
     (case validateOCPPResponse (me_ajv env) act (sanitizeOCPPPayload pl) protocol of
        (Invalid errors, pl) \<Rightarrow> (Inl (invalid_format cid errors), st)
      | (Valid, pl) \<Rightarrow>
          hand_over env (buildCallResult name cid tenantId act pl grp origin protocol (me_timestamp env)) st)"

definition answer_message ::
  "module_env \<Rightarrow> nat \<Rightarrow> message_payload \<Rightarrow> module_state \<Rightarrow> (exn + confirmation) \<times> module_state" where
  "answer_message env r p st =
     on_sender (sendResponse (me_rabbit env) r (Some p))
       (set_message r ((the_message r st)\<lparr> m_origin := ChargingStationManagementSystem \<rparr>) st)"

definition sendCallResultWithMessage ::
  "module_env \<Rightarrow> nat \<Rightarrow> jsval \<Rightarrow> module_state \<Rightarrow> (exn + confirmation) \<times> module_state" where
  "sendCallResultWithMessage env r pl st =
     (let m = the_message r st
      in case validateOCPPResponse (me_ajv env) (m_action m) (sanitizeOCPPPayload pl) (m_protocol m) of
           (Invalid errors, pl) \<Rightarrow> (Inl (invalid_format (correlation m) errors), st)
         | (Valid, pl) \<Rightarrow> answer_message env r (Plain pl) st)"

definition sender_sendCallError ::
  "module_env \<Rightarrow> string \<Rightarrow> string \<Rightarrow> js_num \<Rightarrow> ocpp_version \<Rightarrow> string \<Rightarrow> event_group \<Rightarrow> ocpp_error
   \<Rightarrow> message_origin \<Rightarrow> module_state \<Rightarrow> (exn + confirmation) \<times> module_state" where
  "sender_sendCallError env cid name tenantId protocol act grp e origin st =
     hand_over env (buildCallError name cid tenantId act e grp origin protocol (me_timestamp env)) st"

definition sendCallErrorWithMessage ::
  "module_env \<Rightarrow> nat \<Rightarrow> ocpp_error \<Rightarrow> module_state \<Rightarrow> (exn + confirmation) \<times> module_state" where
  "sendCallErrorWithMessage env r e st = answer_message env r (ErrorPayload e) st"

section \<open>Which handler a message reaches\<close>

lemma version_str_head: "version_str p @ CHR '':'' # xs = version_str p' @ CHR '':'' # xs' \<longleftrightarrow> p = p' \<and> xs = xs'"
  by (cases p; cases p') auto

lemma state_number_tail: "xs @ CHR '':'' # state_number t = xs' @ CHR '':'' # state_number t' \<longleftrightarrow> xs = xs' \<and> t = t'"
proof
  assume "xs @ CHR '':'' # state_number t = xs' @ CHR '':'' # state_number t'"
  from arg_cong [OF this, of rev] show "xs = xs' \<and> t = t'" by (cases t; cases t') auto
qed simp

lemma handlerKey_inject: "handlerKey p a t = handlerKey p' a' t' \<longleftrightarrow> p = p' \<and> a = a' \<and> t = t'"
  by (auto simp: handlerKey_def version_str_head state_number_tail)

definition declared_key :: "handler_declaration \<Rightarrow> string" where
  "declared_key d = handlerKey (hd_protocol d) (hd_action d) (hd_type d)"

lemma declared_key_inject:
  "declared_key d = declared_key d' \<longleftrightarrow> hd_protocol d = hd_protocol d' \<and> hd_action d = hd_action d' \<and> hd_type d = hd_type d'"
  by (simp add: declared_key_def handlerKey_inject)

definition sound_keys :: "(nat \<times> handler_declaration) set \<Rightarrow> registry \<Rightarrow> bool" where
  "sound_keys P rg \<longleftrightarrow> (\<forall>k i. map_of (rg_handlers rg) k = Some i \<longrightarrow> (\<exists>d. (i, d) \<in> P \<and> declared_key d = k))"

definition complete_keys :: "(nat \<times> handler_declaration) set \<Rightarrow> registry \<Rightarrow> bool" where
  "complete_keys P rg \<longleftrightarrow>
     (\<forall>i d. (i, d) \<in> P \<longrightarrow> (\<exists>j. map_of (rg_handlers rg) (declared_key d) = Some j \<and> (j \<noteq> i \<longrightarrow> rg_conflicts rg \<noteq> [])))"

definition conflicting :: "(nat \<times> handler_declaration) set \<Rightarrow> bool" where
  "conflicting P \<longleftrightarrow> (\<exists>i d j d'. (i, d) \<in> P \<and> (j, d') \<in> P \<and> i \<noteq> j \<and> declared_key d = declared_key d')"

definition declared_sets :: "(nat \<times> handler_declaration) set \<Rightarrow> registry \<Rightarrow> bool" where
  "declared_sets P rg \<longleftrightarrow> rg_conflicts rg = [] \<longrightarrow>
     set (rg_requests rg) = {hd_action d |i d. (i, d) \<in> P \<and> hd_type d = Request} \<and>
     set (rg_responses rg) = {hd_action d |i d. (i, d) \<in> P \<and> hd_type d \<noteq> Request}"

definition registry_inv :: "(nat \<times> handler_declaration) set \<Rightarrow> registry \<Rightarrow> bool" where
  "registry_inv P rg \<longleftrightarrow> sound_keys P rg \<and> complete_keys P rg \<and> (rg_conflicts rg \<noteq> [] \<longrightarrow> conflicting P) \<and> declared_sets P rg"

lemma declare_action_fields [simp]:
  "rg_handlers (declare_action t a rg) = rg_handlers rg"
  "rg_conflicts (declare_action t a rg) = rg_conflicts rg"
  "set (rg_requests (declare_action t a rg)) = (if t = Request then insert a (set (rg_requests rg)) else set (rg_requests rg))"
  "set (rg_responses (declare_action t a rg)) = (if t = Request then set (rg_responses rg) else insert a (set (rg_responses rg)))"
  by (auto simp: declare_action_def)

lemma register_handler_eq:
  "register_handler (i, d) rg =
     (case map_of (rg_handlers rg) (declared_key d) of
        Some j \<Rightarrow>
          if j \<noteq> i then rg\<lparr> rg_conflicts := AList.update (hd_action d, hd_type d) (j, i) (rg_conflicts rg) \<rparr>
          else declare_action (hd_type d) (hd_action d) rg
      | None \<Rightarrow> declare_action (hd_type d) (hd_action d) (rg\<lparr> rg_handlers := (declared_key d, i) # rg_handlers rg \<rparr>))"
  unfolding register_handler_def declared_key_def Let_def by simp

lemma update_not_Nil: "AList.update k v xs \<noteq> []"
  by (cases xs) auto

lemma declared_insert:
  "declared_sets P rg \<Longrightarrow> rg_conflicts rg' = rg_conflicts rg \<Longrightarrow>
     set (rg_requests rg') = (if hd_type d = Request then insert (hd_action d) (set (rg_requests rg)) else set (rg_requests rg)) \<Longrightarrow>
     set (rg_responses rg') = (if hd_type d = Request then set (rg_responses rg) else insert (hd_action d) (set (rg_responses rg))) \<Longrightarrow>
     declared_sets (insert (i, d) P) rg'"
  unfolding declared_sets_def by auto

lemma conflicting_mono: "conflicting P \<Longrightarrow> conflicting (insert x P)"
  unfolding conflicting_def by blast

lemma registry_step:
  assumes inv: "registry_inv P rg"
  shows "registry_inv (insert (i, d) P) (register_handler (i, d) rg)"
proof -
  have sound: "sound_keys P rg" and complete: "complete_keys P rg" and decl: "declared_sets P rg"
    and conf: "rg_conflicts rg \<noteq> [] \<Longrightarrow> conflicting P"
    using inv by (simp_all add: registry_inv_def)
  show ?thesis
  proof (cases "map_of (rg_handlers rg) (declared_key d)")
    case None
    let ?rg = "register_handler (i, d) rg"
    have h: "rg_handlers ?rg = (declared_key d, i) # rg_handlers rg" "rg_conflicts ?rg = rg_conflicts rg"
      by (simp_all add: register_handler_eq None)
    have "sound_keys (insert (i, d) P) ?rg" using sound by (auto simp: sound_keys_def h)
    moreover have "complete_keys (insert (i, d) P) ?rg"
      using complete None unfolding complete_keys_def h by fastforce
    moreover have "declared_sets (insert (i, d) P) ?rg"
      by (rule declared_insert [OF decl]) (simp_all add: register_handler_eq None)
    ultimately show ?thesis using conf conflicting_mono by (auto simp: registry_inv_def h)
  next
    case (Some j)
    then obtain d' where d': "(j, d') \<in> P" "declared_key d' = declared_key d" using sound unfolding sound_keys_def by blast
    let ?rg = "register_handler (i, d) rg"
    show ?thesis
    proof (cases "j = i")
      case True
      have h: "rg_handlers ?rg = rg_handlers rg" "rg_conflicts ?rg = rg_conflicts rg"
        by (simp_all add: register_handler_eq Some True)
      have "sound_keys (insert (i, d) P) ?rg" using sound unfolding sound_keys_def h by blast
      moreover have "complete_keys (insert (i, d) P) ?rg" using complete Some True by (auto simp: complete_keys_def h)
      moreover have "declared_sets (insert (i, d) P) ?rg"
        by (rule declared_insert [OF decl]) (simp_all add: register_handler_eq Some True)
      ultimately show ?thesis using conf conflicting_mono by (auto simp: registry_inv_def h)
    next
      case False
      have h: "rg_handlers ?rg = rg_handlers rg" "rg_conflicts ?rg \<noteq> []"
        using Some False by (simp_all add: register_handler_eq update_not_Nil)
      have "sound_keys (insert (i, d) P) ?rg" using sound unfolding sound_keys_def h by blast
      moreover have "complete_keys (insert (i, d) P) ?rg" using complete Some h by (auto simp: complete_keys_def)
      moreover have "conflicting (insert (i, d) P)" using d' False unfolding conflicting_def by blast
      ultimately show ?thesis by (simp add: registry_inv_def declared_sets_def h)
    qed
  qed
qed

lemma registry_fold: "registry_inv P rg \<Longrightarrow> registry_inv (set es \<union> P) (fold register_handler es rg)"
proof (induction es arbitrary: P rg)
  case (Cons e es)
  obtain i d where e: "e = (i, d)" by (cases e)
  show ?case using Cons.IH [OF registry_step [OF Cons.prems, of i d]] by (simp add: e)
qed simp

lemma registry_all: "registry_inv (set (declarations hs)) (register_all hs)"
  using registry_fold [of "{}" "\<lparr> rg_handlers = [], rg_requests = [], rg_responses = [], rg_conflicts = [] \<rparr>" "declarations hs"]
  by (simp add: register_all_def registry_inv_def sound_keys_def complete_keys_def declared_sets_def)

lemma declarations_iff: "(i, d) \<in> set (declarations hs) \<longleftrightarrow> i < length hs \<and> d \<in> set (hs ! i)"
  by (force simp: declarations_def in_set_enumerate_eq)

text \<open>A module starts exactly when no two of its handlers declare the same protocol, action and
  direction. Then a message is dispatched to the one handler that declares its protocol, action and
  direction, or to none when no handler does, and the module subscribes to exactly the declared actions
  that are not excluded.\<close>

lemma module_dispatch:
  "(case new_module grp xreq xres hs of
      Inl e \<Rightarrow> conflicting (set (declarations hs))
    | Inr md \<Rightarrow>
        \<not> conflicting (set (declarations hs)) \<and>
        (\<forall>p a t i. map_of (md_handlers md) (handlerKey p a t) = Some i \<longleftrightarrow>
           (\<exists>d. (i, d) \<in> set (declarations hs) \<and> hd_protocol d = p \<and> hd_action d = a \<and> hd_type d = t)) \<and>
        set (md_requests md) = {hd_action d |i d. (i, d) \<in> set (declarations hs) \<and> hd_type d = Request} - set xreq \<and>
        set (md_responses md) = {hd_action d |i d. (i, d) \<in> set (declarations hs) \<and> hd_type d \<noteq> Request} - set xres)"
proof -
  let ?rg = "register_all hs" and ?P = "set (declarations hs)"
  have inv: "sound_keys ?P ?rg" "complete_keys ?P ?rg" "declared_sets ?P ?rg" "rg_conflicts ?rg \<noteq> [] \<longrightarrow> conflicting ?P"
    using registry_all [of hs] by (simp_all add: registry_inv_def)
  show ?thesis
  proof (cases "rg_conflicts ?rg = []")
    case False
    then show ?thesis using inv(4) by (simp add: new_module_def Let_def)
  next
    case True
    have iff: "map_of (rg_handlers ?rg) (declared_key d) = Some i \<longleftrightarrow> (\<exists>d'. (i, d') \<in> ?P \<and> declared_key d' = declared_key d)" for d i
      using inv(1,2) True unfolding sound_keys_def complete_keys_def by metis
    have key: "handlerKey p a t = declared_key \<lparr> hd_protocol = p, hd_action = a, hd_type = t \<rparr>" for p a t
      by (simp add: declared_key_def)
    have "\<not> conflicting ?P" using iff unfolding conflicting_def by (metis option.inject)
    then show ?thesis
      using True inv(3) by (auto simp: new_module_def Let_def iff key declared_key_inject declared_sets_def)
  qed
qed

section \<open>Which queues a message reaches\<close>

text \<open>The headers a message is published with (RabbitMqSender.send) and the subscriptions of a module.
  Whether a binding lets a message through is decided by the broker and a parameter.\<close>

fun origin_str :: "message_origin \<Rightarrow> string" where
  "origin_str ChargingStationManagementSystem = ''csms''"
| "origin_str ChargingStation = ''cs''"

definition context_headers :: "message_context \<Rightarrow> headers" where
  "context_headers c =
     [(''correlationId'', ctx_correlationId c), (''ocppConnectionName'', ctx_ocppConnectionName c),
      (''tenantId'', num_str (ctx_tenantId c)), (''timestamp'', ctx_timestamp c)]"

definition message_headers :: "message \<Rightarrow> headers" where
  "message_headers m =
     spread [(''origin'', origin_str (m_origin m)), (''eventGroup'', event_group_str (m_eventGroup m)),
             (''action'', m_action m), (''state'', state_number (m_state m))] (Some (context_headers (m_context m)))"

definition request_queue :: "ocpp_module \<Rightarrow> string" where
  "request_queue md = event_group_str (md_eventGroup md) @ ''_requests''"

definition response_queue :: "ocpp_module \<Rightarrow> string" where
  "response_queue md = event_group_str (md_eventGroup md) @ ''_responses''"

definition station_filter :: "message_state \<Rightarrow> headers" where
  "station_filter s = [(''origin'', origin_str ChargingStation), (''state'', state_number s)]"

definition initHandlers :: "bool \<Rightarrow> ocpp_module \<Rightarrow> receiver \<Rightarrow> (exn + unit) \<times> receiver" where
  "initHandlers up md rv =
     (case subscribe up (request_queue md) (Some (md_requests md)) (Some (station_filter Request)) rv of
        (Inl e, rv) \<Rightarrow> (Inl e, rv)
      | (Inr a, rv) \<Rightarrow>
          let (b, rv) = (if a then subscribe up (response_queue md) (Some (md_responses md)) (Some (station_filter Response)) rv
                         else (Inr False, rv))
          in (bind_res b (\<lambda>ok. if ok then Inr ()
                else Inl (JsErr ''Could not initialize module due to failure in handler initialization.'' [])), rv))"

text \<open>The headers exchange of AMQP with x-match set to all.\<close>

definition headers_exchange :: "(headers \<Rightarrow> headers \<Rightarrow> bool) \<Rightarrow> bool" where
  "headers_exchange matches =
     (\<forall>args hs. map_of args ''x-match'' = Some ''all'' \<longrightarrow>
        matches args hs = list_all (\<lambda>(k, v). k = ''x-match'' \<or> map_of hs k = Some v) args)"

definition reaches :: "(headers \<Rightarrow> headers \<Rightarrow> bool) \<Rightarrow> receiver \<Rightarrow> string \<Rightarrow> message \<Rightarrow> bool" where
  "reaches matches rv identifier m = list_ex (\<lambda>args. matches args (message_headers m)) (wanted rv identifier)"

lemma message_headers_eq:
  "message_headers m =
     [(''origin'', origin_str (m_origin m)), (''eventGroup'', event_group_str (m_eventGroup m)), (''action'', m_action m),
      (''state'', state_number (m_state m)), (''correlationId'', ctx_correlationId (m_context m)),
      (''ocppConnectionName'', ctx_ocppConnectionName (m_context m)), (''tenantId'', num_str (ctx_tenantId (m_context m))),
      (''timestamp'', ctx_timestamp (m_context m))]"
  by (simp add: message_headers_def context_headers_def spread_def)

lemma origin_str_inject [simp]: "origin_str a = origin_str b \<longleftrightarrow> a = b"
  by (cases a; cases b) simp_all

lemma state_number_inject [simp]: "state_number a = state_number b \<longleftrightarrow> a = b"
  by (cases a; cases b) simp_all

lemma station_bindings:
  assumes "headers_exchange matches"
  shows "list_ex (\<lambda>args. matches args (message_headers m)) (binding_args (Some (a # as)) (Some (station_filter s))) \<longleftrightarrow>
    m_origin m = ChargingStation \<and> m_state m = s \<and> m_action m \<in> set (a # as)"
proof -
  have args: "binding_args (Some (a # as)) (Some (station_filter s)) =
      map (\<lambda>act. [(''action'', act), (''x-match'', ''all''), (''origin'', ''cs''), (''state'', state_number s)]) (a # as)"
    by (simp add: binding_args_def station_filter_def spread_def Let_def)
  have "matches [(''action'', act), (''x-match'', ''all''), (''origin'', ''cs''), (''state'', state_number s)] (message_headers m) \<longleftrightarrow>
      m_origin m = ChargingStation \<and> m_state m = s \<and> m_action m = act" for act
    using assms origin_str_inject [of "m_origin m" ChargingStation]
    by (auto simp: headers_exchange_def message_headers_eq)
  then show ?thesis unfolding args by (auto simp: list_ex_iff)
qed

lemma queues_differ: "request_queue md \<noteq> response_queue md"
  by (simp add: request_queue_def response_queue_def)

lemma wanted_init:
  "wanted (snd (initHandlers True md (new_receiver mode rid))) q =
     (if q = request_queue md \<and> md_requests md \<noteq> [] then binding_args (Some (md_requests md)) (Some (station_filter Request))
      else if q = response_queue md \<and> md_responses md \<noteq> [] then binding_args (Some (md_responses md)) (Some (station_filter Response))
      else [])"
proof -
  let ?o1 = "Subscribing True (request_queue md) (Some (md_requests md)) (Some (station_filter Request))"
  let ?o2 = "Subscribing True (response_queue md) (Some (md_responses md)) (Some (station_filter Response))"
  have ok: "fst (subscribe True i acts flt rv) = Inr True" for i acts flt rv
    by (simp add: subscribe_def subscribePerIdentifierQueue_def Let_def)
  have "snd (initHandlers True md rv) = run_op ?o2 (run_op ?o1 rv)" for rv
    using ok [of "request_queue md" "Some (md_requests md)" "Some (station_filter Request)" rv]
    by (simp add: initHandlers_def case_prod_beta' Let_def)
  moreover have "wanted (new_receiver mode rid) = (\<lambda>i. [])" and "rv_routerMode (new_receiver mode rid) = mode"
    by (simp_all add: fun_eq_iff wanted_def new_receiver_def entries_of_def)
  ultimately have "wanted (snd (initHandlers True md (new_receiver mode rid))) = want mode ?o2 (want mode ?o1 (\<lambda>i. []))"
    by (simp only: wanted_run_op run_op_mode)
  then show ?thesis using queues_differ [of md] by auto
qed


text \<open>What the router asks of the broker when a station connects and disconnects.\<close>

definition connection_filter :: "string \<Rightarrow> string \<Rightarrow> message_state \<Rightarrow> message_origin \<Rightarrow> headers" where
  "connection_filter tenantId name s orig =
     [(''tenantId'', tenantId), (''ocppConnectionName'', name), (''state'', state_number s), (''origin'', origin_str orig)]"

definition subscribe_effect :: "effect \<Rightarrow> receiver \<Rightarrow> receiver" where
  "subscribe_effect e rv =
     (case e of
        Subscribe identifier tenantId name s orig \<Rightarrow>
          snd (subscribe True identifier None (Some (connection_filter tenantId name s orig)) rv)
      | Unsubscribe identifier \<Rightarrow> snd (unsubscribe True identifier rv)
      | _ \<Rightarrow> rv)"

lemma connection_bindings:
  assumes "headers_exchange matches"
  shows "list_ex (\<lambda>args. matches args (message_headers m)) (binding_args None (Some (connection_filter t n s orig))) \<longleftrightarrow>
    m_origin m = orig \<and> m_state m = s \<and> num_str (ctx_tenantId (m_context m)) = t \<and> ctx_ocppConnectionName (m_context m) = n"
  using assms
  by (auto simp: binding_args_def connection_filter_def spread_def Let_def headers_exchange_def message_headers_eq)

lemma wanted_subscribe_effect:
  "wanted (subscribe_effect (Subscribe i t n s orig) rv) =
   (wanted rv)(i := wanted rv i @ binding_args None (Some (connection_filter t n s orig)))"
  "wanted (subscribe_effect (Unsubscribe i) rv) = (wanted rv)(i := [])"
  using wanted_run_op [of "Subscribing True i None (Some (connection_filter t n s orig))" rv]
    wanted_run_op [of "Unsubscribing True i" rv]
  by (simp_all add: subscribe_effect_def)

lemma registered_bindings:
  assumes "log (snd (registerConnection env t n p sid st)) = log st @ es"
  shows "wanted (fold subscribe_effect es rv) = (wanted rv)(createIdentifier t [n] := wanted rv (createIdentifier t [n]) @
    binding_args None (Some (connection_filter (num_str t) n Request ChargingStationManagementSystem)) @
    binding_args None (Some (connection_filter (num_str t) n Response ChargingStationManagementSystem)))"
proof -
  let ?i = "createIdentifier t [n]"
  have "es = [WebhookRegister t n, Subscribe ?i (num_str t) n Request ChargingStationManagementSystem,
      Subscribe ?i (num_str t) n Response ChargingStationManagementSystem, StationOnline t n True (Some p) sid]"
    using assms by (simp add: registerConnection_def Let_def)
  moreover have "subscribe_effect (WebhookRegister t n) = (\<lambda>rv. rv)" "subscribe_effect (StationOnline t n True (Some p) sid) = (\<lambda>rv. rv)"
    by (simp_all add: subscribe_effect_def fun_eq_iff)
  ultimately show ?thesis by (simp add: wanted_subscribe_effect)
qed


section \<open>Failing handlers\<close>

lemma the_message_set [simp]:
  "the_message r (set_message r' m st) = (if r = r' \<and> r < length (sd_store (ms_sender st)) then m else the_message r st)"
  by (auto simp: the_message_def set_message_def list_update_beyond not_less)

lemma sendResponse_broker:
  "rb_channel env = (\<lambda>bk. True) \<Longrightarrow> r < length (sd_store sd) \<Longrightarrow> m = assign p (Some Response) (sd_store sd ! r) \<Longrightarrow>
     truthy_payload (m_payload m) \<Longrightarrow>
     snd (sendResponse env r p sd) =
       (if bk_connected (sd_broker sd)
        then sd\<lparr> sd_store := (sd_store sd)[r := m], sd_broker := (sd_broker sd)\<lparr> bk_published := bk_published (sd_broker sd) @ [m] \<rparr> \<rparr>
        else sd\<lparr> sd_store := (sd_store sd)[r := m], sd_buffer := sd_buffer sd @ [r] \<rparr>)
     \<and> (\<exists>c. fst (sendResponse env r p sd) = Inr c)"
  by (simp add: sendResponse_def sender_send_def inner_send_def rabbit_send_def bufferMessage_def assign_def Let_def)

lemma assign_response [simp]: "m_state (assign p (Some Response) m) = Response"
  by (simp add: assign_def Let_def)

lemma sendResponse_store:
  "sd_store (snd (sendResponse env r p sd)) = (sd_store sd)[r := assign p (Some Response) (sd_store sd ! r)]"
  by (simp add: sendResponse_def sender_send_def bufferMessage_def Let_def)

lemma on_sender_simps [simp]:
  "fst (on_sender f st) = fst (f (ms_sender st))"
  "snd (on_sender f st) = st\<lparr> ms_sender := snd (f (ms_sender st)) \<rparr>"
  by (simp_all add: on_sender_def split: prod.split)

lemma answered_state:
  "r < length (sd_store (ms_sender st)) \<Longrightarrow> m_state (the_message r (snd (answer_message env r p st))) = Response"
  by (simp add: answer_message_def the_message_def sendResponse_store set_message_def)

definition error_answer :: "exn \<Rightarrow> message \<Rightarrow> message" where
  "error_answer e m =
     m\<lparr> m_origin := ChargingStationManagementSystem, m_state := Response,
        m_payload := ErrorPayload (call_error_of (correlation m) e) \<rparr>"

text \<open>C6. When the handler of a request fails, or there is none, and the request has not been answered with
  its own message, then exactly one response is handed to the broker connection, the request with the
  error as its payload: published at once, or kept in the buffer while the broker is away. Nothing else
  changes.\<close>

theorem failed_request_answered:
  assumes "validate_message env r st = (Inr (), st1)" and "run_handler env md r st1 = (Inl e, st2)"
    and "m_state (the_message r st2) = Request" and "r < length (sd_store (ms_sender st2))"
    and "rb_channel (me_rabbit env) = (\<lambda>bk. True)"
  shows "module_handle env md r st =
    (let m = error_answer e (the_message r st2); sd = ms_sender st2; sd' = sd\<lparr> sd_store := (sd_store sd)[r := m] \<rparr>
     in (Inr (), st2\<lparr> ms_sender :=
          if bk_connected (sd_broker sd)
          then sd'\<lparr> sd_broker := (sd_broker sd)\<lparr> bk_published := bk_published (sd_broker sd) @ [m] \<rparr> \<rparr>
          else sd'\<lparr> sd_buffer := sd_buffer sd @ [r] \<rparr> \<rparr>))"
proof -
  let ?m = "the_message r st2"
  let ?oe = "call_error_of (correlation ?m) e"
  let ?sd = "(ms_sender st2)\<lparr> sd_store := (sd_store (ms_sender st2))[r := ?m\<lparr> m_origin := ChargingStationManagementSystem \<rparr>] \<rparr>"
  have m: "error_answer e ?m = assign (Some (ErrorPayload ?oe)) (Some Response) (sd_store ?sd ! r)"
    using assms(4) by (simp add: error_answer_def assign_def truthy_payload_def)
  have t: "truthy_payload (m_payload (error_answer e ?m))" by (simp add: error_answer_def truthy_payload_def)
  have r: "r < length (sd_store ?sd)" using assms(4) by simp
  obtain c where "fst (sendResponse (me_rabbit env) r (Some (ErrorPayload ?oe)) ?sd) = Inr c"
    using sendResponse_broker [OF assms(5) r m t] by blast
  then show ?thesis
    using sendResponse_broker [OF assms(5) r m t] assms(1-3)
    by (cases "sendResponse (me_rabbit env) r (Some (ErrorPayload ?oe)) ?sd")
      (simp add: module_handle_def answer_failure_def on_sender_def set_message_def Let_def)
qed

text \<open>A handler that has answered a request with its message and fails afterwards does not cause
  a second answer: sending the result has made a response of the message object.\<close>

lemma answered_request_not_answered_again:
  assumes "validate_message env r st = (Inr (), st1)"
    and "run_handler env md r st1 = (Inl e, snd (sendCallResultWithMessage env r pl st2))"
    and "fst (sendCallResultWithMessage env r pl st2) = Inr c" and "r < length (sd_store (ms_sender st2))"
  shows "module_handle env md r st = (Inr (), snd (sendCallResultWithMessage env r pl st2))"
proof -
  let ?st3 = "snd (sendCallResultWithMessage env r pl st2)"
  have "m_state (the_message r ?st3) = Response"
    using assms(3) answered_state [OF assms(4)]
    by (auto simp: sendCallResultWithMessage_def Let_def split: validation.splits prod.splits)
  then show ?thesis using assms(1,2) by (simp add: module_handle_def answer_failure_def)
qed


section \<open>From a failing handler to the station\<close>

lemma sanitized_error:
  "js_prop ''name'' (sanitizeOCPPPayload (payload_value (ErrorPayload e))) = JStr ''OcppError''"
  "js_prop ''_messageId'' (sanitizeOCPPPayload (payload_value (ErrorPayload e))) = JStr (oe_messageId e)"
  "js_prop ''message'' (sanitizeOCPPPayload (payload_value (ErrorPayload e))) = JStr (oe_description e)"
  "oe_code e = JStr s \<Longrightarrow> js_prop ''_errorCode'' (sanitizeOCPPPayload (payload_value (ErrorPayload e))) = JStr s"
  by (simp_all add: sanitizeOCPPPayload_def js_prop_rm payload_value_def rm_simps clean_prop_def)

lemma sanitized_error_truthy: "truthy (sanitizeOCPPPayload (payload_value (ErrorPayload e)))"
  by (simp add: sanitizeOCPPPayload_def payload_value_def rm_simps)

lemma router_handles_error:
  assumes "m_state m = Response" "m_payload m = ErrorPayload e" "oe_code e = JStr s" "s \<noteq> []"
  shows "\<exists>d. snd (handle env m st) = snd (sendCallError env (ctx_correlationId (m_context m)) (ctx_ocppConnectionName (m_context m))
    (ctx_tenantId (m_context m)) (m_protocol m) (m_action m)
    \<lparr> oe_messageId = oe_messageId e, oe_code = oe_code e, oe_description = oe_description e, oe_details = d \<rparr> st)"
proof -
  let ?p = "sanitizeOCPPPayload (payload_value (ErrorPayload e))"
  have v: "validateOCPPResponse A a ?p pr = (Valid, ?p)" for A a pr
    by (simp add: validateOCPPResponse_def sanitized_error)
  show ?thesis
    using assms(1-2,4)
    by (intro exI [of _ "if truthy (js_prop ''_errorDetails'' ?p) then js_prop ''_errorDetails'' ?p else JObj []"])
      (simp add: handle_def v sanitized_error(1-3) sanitized_error(4) [OF assms(3)] sanitized_error_truthy assms(3) text_of_def split: prod.split)
qed

text \<open>C5. Module and router together: the error a module answers a failed call with makes the router write
  one CALLERROR frame to the station of the call, with the message id, code and text of the error, and forget the
  pending call.\<close>

theorem failed_call_reaches_station:
  assumes "i = createIdentifier (ctx_tenantId (m_context m)) [ctx_ocppConnectionName (m_context m)]"
    and "get_key (correlation m) (Some (tx_namespace i)) (rcache st) = Some v" and "fst (split_at_first v) = m_action m"
    and "oe_code (call_error_of (correlation m) e) = JStr s" and "s \<noteq> []"
  shows "\<exists>d. attempts (log (snd (handle env (error_answer e m) st))) = attempts (log st) @
      [(i, text_of_json env (call_error_toJSON \<lparr> oe_messageId = oe_messageId (call_error_of (correlation m) e),
         oe_code = JStr s, oe_description = oe_description (call_error_of (correlation m) e), oe_details = d \<rparr>))]
    \<and> rcache (snd (handle env (error_answer e m) st)) = snd (remove_key (correlation m) (Some (tx_namespace i)) (rcache st))"
proof -
  let ?m = "error_answer e m"
  let ?oe = "call_error_of (correlation m) e"
  have f: "m_state ?m = Response" "m_payload ?m = ErrorPayload ?oe" "m_context ?m = m_context m" "m_action ?m = m_action m"
    by (simp_all add: error_answer_def)
  obtain d where h: "snd (handle env ?m st) = snd (sendCallError env (ctx_correlationId (m_context ?m))
      (ctx_ocppConnectionName (m_context ?m)) (ctx_tenantId (m_context ?m)) (m_protocol ?m) (m_action ?m)
      \<lparr> oe_messageId = oe_messageId ?oe, oe_code = oe_code ?oe, oe_description = oe_description ?oe, oe_details = d \<rparr> st)"
    using router_handles_error [OF f(1,2) assms(4,5)] by blast
  have g: "get_key (ctx_correlationId (m_context m)) (Some (tx_namespace i)) (rcache st) = Some v"
    using assms(2) by (simp add: correlation_def)
  show ?thesis
    unfolding h f(3,4) sendCallError_def
    by (rule exI [of _ "if d = JUndef then JObj [] else d"])
      (simp add: send_reply_hit [OF g assms(3,1)] asCallError_def new_call_error_def assms(4) [unfolded correlation_def] correlation_def)
qed


section \<open>Sending a call\<close>

lemma hand_over_published:
  assumes "m_state m = Request" "truthy_payload (m_payload m)" "bk_connected (sd_broker (ms_sender st))"
    and "rb_channel (me_rabbit env) = (\<lambda>bk. True)"
  shows "bk_published (sd_broker (ms_sender (snd (hand_over env m st)))) = bk_published (sd_broker (ms_sender st)) @ [m]"
proof -
  have "assign None (Some Request) m = m" using assms(1) by (simp add: assign_def)
  then show ?thesis
    using assms
    by (simp add: hand_over_def new_message_def sendRequest_def sender_send_def inner_send_def rabbit_send_def on_sender_def Let_def
        split: prod.split)
qed

text \<open>A valid call is handed to the broker exactly when the station is connected with the protocol of
  the call, and then once, with its correlation id and sanitized payload.\<close>

lemma call_sent_iff_connected:
  assumes "validateOCPPRequest (me_ajv env) act (sanitizeOCPPPayload pl) protocol = Inr (Valid, pl')" and "truthy pl'"
    and "bk_connected (sd_broker (ms_sender st))" and "rb_channel (me_rabbit env) = (\<lambda>bk. True)"
  shows "bk_published (sd_broker (ms_sender (snd (sender_sendCall env uuid name t protocol act grp pl [] (Some cid) origin st)))) =
    bk_published (sd_broker (ms_sender st)) @
      (if connection_protocol env (createIdentifier t [name]) (ms_cache st) = Inr (Some (JStr (version_str protocol)))
       then [buildCall name cid t act pl' grp origin protocol (me_timestamp env)] else [])"
proof -
  let ?m = "buildCall name cid t act pl' grp origin protocol (me_timestamp env)"
  let ?p = "connection_protocol env (createIdentifier t [name]) (ms_cache st)"
  have m: "m_state ?m = Request" "m_payload ?m = Plain pl'" by (simp_all add: build_defs)
  have pub: "bk_published (sd_broker (ms_sender (snd (hand_over env ?m st)))) = bk_published (sd_broker (ms_sender st)) @ [?m]"
    by (rule hand_over_published) (use assms m in \<open>simp_all add: truthy_payload_def\<close>)
  consider e where "?p = Inl e" | "?p = Inr None" | q where "?p = Inr (Some q)"
    by (metis option.exhaust sum.exhaust)
  then show ?thesis
    by cases (simp_all add: sender_sendCall_def assms(1) refused_def pub Let_def)
qed

section \<open>A module without handlers and one that fails\<close>

definition demo_request_message :: message where
  "demo_request_message = build_message Request ''cp1'' ''m1'' (Fin 1) ''Heartbeat'' (Plain (JObj [])) Configuration ChargingStation OCPP2_0_1 []"

definition demo_sender :: sender where
  "demo_sender = new_sender\<lparr> sd_store := [demo_request_message], sd_broker := \<lparr> bk_connected = True, bk_published = [] \<rparr> \<rparr>"

definition demo_module_env :: module_env where
  "demo_module_env = \<lparr> me_ajv = demo_ajv, me_print = (\<lambda>v. []), me_parse = (\<lambda>s. Some (JObj [(''protocol'', JStr s)])),
     me_timestamp = [], me_maxCachingSeconds = 10, me_rabbit = open_channel,
     me_handler = (\<lambda>i r st. (Inl (JsErr ''failed'' []), st)) \<rparr>"

definition demo_module_state :: module_state where
  "demo_module_state = \<lparr> ms_cache = snd (set_key ''1:cp1'' ''ocpp2.0.1'' (Some ''conn'') None empty_cache), ms_sender = demo_sender \<rparr>"

definition empty_module :: ocpp_module where
  "empty_module = \<lparr> md_eventGroup = Configuration, md_handlers = [], md_requests = [], md_responses = [] \<rparr>"

lemma demo_heartbeat_valid: "validateOCPPRequest demo_ajv ''Heartbeat'' (JObj []) OCPP2_0_1 = Inr (Valid, JObj [])"
  using demo_actions(5) by (simp add: validateOCPPRequest_def applyRuntimeCompatibilityPatches_def demo_ajv_def)

lemma demo_sanitized: "sanitizeOCPPPayload (JObj []) = JObj []"
  by (simp add: sanitizeOCPPPayload_def rm_simps)

lemma demo_message_fields:
  "m_state demo_request_message = Request" "m_action demo_request_message = ''Heartbeat''"
  "m_protocol demo_request_message = OCPP2_0_1" "m_payload demo_request_message = Plain (JObj [])"
  "correlation demo_request_message = ''m1''" "demo_request_message\<lparr> m_payload := Plain (JObj []) \<rparr> = demo_request_message"
  by (simp_all add: demo_request_message_def build_message_def correlation_def)

lemma demo_message_there: "the_message 0 demo_module_state = demo_request_message"
  by (simp add: the_message_def demo_module_state_def demo_sender_def)

lemma demo_message_kept: "set_message 0 demo_request_message demo_module_state = demo_module_state"
  by (simp add: set_message_def demo_module_state_def demo_sender_def)

lemma demo_validated: "validate_message demo_module_env 0 demo_module_state = (Inr (), demo_module_state)"
  by (simp add: validate_message_def demo_message_there demo_message_fields payload_value_def demo_sanitized demo_message_kept
      demo_heartbeat_valid demo_module_env_def Let_def)

theorem failed_request_answered_witness:
  "bk_published (sd_broker (ms_sender (snd (module_handle demo_module_env empty_module 0 demo_module_state)))) =
     [error_answer (OcppErr (new_ocpp_error ''m1'' NotSupported ''No handler found for action: Heartbeat at module configuration'' (JObj []))) demo_request_message]"
proof -
  have run: "run_handler demo_module_env empty_module 0 demo_module_state =
      (Inl (OcppErr (new_ocpp_error ''m1'' NotSupported ''No handler found for action: Heartbeat at module configuration'' (JObj []))), demo_module_state)"
    by (simp add: run_handler_def demo_message_there demo_message_fields empty_module_def throw_ocpp_def)
  have s: "m_state (the_message 0 demo_module_state) = Request" "0 < length (sd_store (ms_sender demo_module_state))"
    by (simp_all add: demo_message_there demo_message_fields, simp add: demo_module_state_def demo_sender_def)
  have c: "rb_channel (me_rabbit demo_module_env) = (\<lambda>bk. True)" by (simp add: demo_module_env_def open_channel_def)
  show ?thesis
    unfolding failed_request_answered [OF demo_validated run s c] demo_message_there
    by (simp add: demo_module_state_def demo_sender_def Let_def)
qed

lemma call_sent_iff_connected_witness:
  "bk_published (sd_broker (ms_sender (snd (sender_sendCall demo_module_env [] ''cp1'' (Fin 1) OCPP2_0_1 ''Heartbeat'' Configuration
     (JObj []) [] (Some ''m7'') ChargingStationManagementSystem demo_module_state)))) =
   [buildCall ''cp1'' ''m7'' (Fin 1) ''Heartbeat'' (JObj []) Configuration ChargingStationManagementSystem OCPP2_0_1 []]"
proof -
  have v: "validateOCPPRequest (me_ajv demo_module_env) ''Heartbeat'' (sanitizeOCPPPayload (JObj [])) OCPP2_0_1 = Inr (Valid, JObj [])"
    by (simp add: demo_sanitized demo_heartbeat_valid demo_module_env_def)
  have b: "bk_connected (sd_broker (ms_sender demo_module_state))" by (simp add: demo_module_state_def demo_sender_def)
  have c: "rb_channel (me_rabbit demo_module_env) = (\<lambda>bk. True)" by (simp add: demo_module_env_def open_channel_def)
  have i: "createIdentifier (Fin 1) [''cp1''] = ''1:cp1''" by code_simp
  have p: "connection_protocol demo_module_env ''1:cp1'' (ms_cache demo_module_state) = Inr (Some (JStr (version_str OCPP2_0_1)))"
    by code_simp
  show ?thesis
    using call_sent_iff_connected [OF v _ b c, of "[]" "''cp1''" "Fin 1" Configuration "''m7''" ChargingStationManagementSystem]
    by (simp add: i p) (simp add: demo_module_state_def demo_sender_def demo_module_env_def)
qed

definition answering_env :: module_env where
  "answering_env = demo_module_env\<lparr> me_handler := (\<lambda>i r st.
     (Inl (JsErr ''failed'' []), snd (sendCallResultWithMessage demo_module_env r (JObj []) st))) \<rparr>"

definition heartbeat_module :: ocpp_module where
  "heartbeat_module = \<lparr> md_eventGroup = Configuration, md_handlers = [(handlerKey OCPP2_0_1 ''Heartbeat'' Request, 0)], md_requests = [''Heartbeat''], md_responses = [] \<rparr>"

lemma demo_result_sent: "sendCallResultWithMessage demo_module_env 0 (JObj []) demo_module_state =
    answer_message demo_module_env 0 (Plain (JObj [])) demo_module_state"
  using demo_actions(4)
  by (simp add: sendCallResultWithMessage_def demo_message_there demo_message_fields demo_sanitized validateOCPPResponse_def
      demo_module_env_def demo_ajv_def)

lemma answered_request_not_answered_again_witness:
  "map m_payload (bk_published (sd_broker (ms_sender (snd (module_handle answering_env heartbeat_module 0 demo_module_state))))) = [Plain (JObj [])]"
proof -
  have same: "me_ajv answering_env = me_ajv demo_module_env" "me_rabbit answering_env = me_rabbit demo_module_env"
    by (simp_all add: answering_env_def)
  have env: "sendCallResultWithMessage answering_env = sendCallResultWithMessage demo_module_env"
    unfolding fun_eq_iff sendCallResultWithMessage_def answer_message_def same by (intro allI refl)
  have v: "validate_message answering_env 0 demo_module_state = (Inr (), demo_module_state)"
    by (simp add: validate_message_def demo_message_there demo_message_fields payload_value_def demo_sanitized demo_message_kept
        demo_heartbeat_valid answering_env_def demo_module_env_def Let_def)
  have r: "run_handler answering_env heartbeat_module 0 demo_module_state =
      (Inl (JsErr ''failed'' []), snd (sendCallResultWithMessage answering_env 0 (JObj []) demo_module_state))"
    unfolding env by (simp add: run_handler_def demo_message_there demo_message_fields heartbeat_module_def answering_env_def)
  have a: "answer_message demo_module_env 0 (Plain (JObj [])) demo_module_state =
      (Inr \<lparr> conf_success = True, conf_payload = JUndef \<rparr>,
       demo_module_state\<lparr> ms_sender := demo_sender\<lparr> sd_store := [demo_request_message\<lparr> m_origin := ChargingStationManagementSystem, m_state := Response \<rparr>],
         sd_broker := \<lparr> bk_connected = True, bk_published = [demo_request_message\<lparr> m_origin := ChargingStationManagementSystem, m_state := Response \<rparr>] \<rparr> \<rparr> \<rparr>)"
    by (simp add: answer_message_def on_sender_def sendResponse_def sender_send_def assign_def truthy_payload_def inner_send_def
        rabbit_send_def demo_module_env_def open_channel_def demo_module_state_def demo_sender_def the_message_def
        demo_request_message_def build_message_def new_sender_def set_message_def Let_def)
  have f: "fst (sendCallResultWithMessage answering_env 0 (JObj []) demo_module_state) = Inr \<lparr> conf_success = True, conf_payload = JUndef \<rparr>"
    unfolding env demo_result_sent a by simp
  have l: "0 < length (sd_store (ms_sender demo_module_state))" by (simp add: demo_module_state_def demo_sender_def)
  show ?thesis
    unfolding answered_request_not_answered_again [OF v r f l] unfolding env demo_result_sent a
    by (simp add: demo_message_fields)
qed

theorem failed_call_reaches_station_witness:
  "\<exists>st. length (attempts (log (snd (handle demo_env (error_answer (JsErr ''failed'' []) demo_request_message) st)))) = Suc (length (attempts (log st)))"
proof -
  let ?st = "\<lparr> rcache = snd (set_key ''m1'' (pending_value ''Heartbeat'' ''0'') (Some (tx_namespace ''1:cp1'')) None empty_cache), log = [] \<rparr>"
  have i: "''1:cp1'' = createIdentifier (ctx_tenantId (m_context demo_request_message)) [ctx_ocppConnectionName (m_context demo_request_message)]"
    by code_simp
  have g: "get_key (correlation demo_request_message) (Some (tx_namespace ''1:cp1'')) (rcache ?st) = Some (pending_value ''Heartbeat'' ''0'')"
    by code_simp
  have a: "fst (split_at_first (pending_value ''Heartbeat'' ''0'')) = m_action demo_request_message" by code_simp
  have c: "oe_code (call_error_of (correlation demo_request_message) (JsErr ''failed'' [])) = JStr (error_code_str InternalError)"
    by (simp add: call_error_of_def new_ocpp_error_def)
  have n: "error_code_str InternalError \<noteq> []" by simp
  show ?thesis using failed_call_reaches_station [OF i g a c n, of demo_env] by (intro exI [of _ ?st]) auto
qed


definition all_headers :: "headers \<Rightarrow> headers \<Rightarrow> bool" where
  "all_headers args hs = list_all (\<lambda>(k, v). k = ''x-match'' \<or> map_of hs k = Some v) args"

lemma all_headers_exchange: "headers_exchange all_headers"
  by (simp add: headers_exchange_def all_headers_def)

definition heartbeat_declarations :: "handler_declaration list list" where
  "heartbeat_declarations = [[\<lparr> hd_protocol = OCPP2_0_1, hd_action = ''Heartbeat'', hd_type = Request \<rparr>]]"

lemma heartbeat_module_new: "new_module Configuration [] [] heartbeat_declarations = Inr heartbeat_module"
  by (simp add: new_module_def register_all_def declarations_def heartbeat_declarations_def register_handler_def
      declare_action_def heartbeat_module_def Let_def)

lemma heartbeat_declared: "set (declarations heartbeat_declarations) = {(0, \<lparr> hd_protocol = OCPP2_0_1, hd_action = ''Heartbeat'', hd_type = Request \<rparr>)}"
  by (simp add: declarations_def heartbeat_declarations_def)



end
