(* ===== verification/Connections.thy ===== *)
theory Connections
  imports MemoryCache Identifiers
begin

text \<open>
  The websocket connections of charging stations
  (packages/core/src/util/networkconnection/WebsocketNetworkConnection.ts and the filters under
  authenticator/). The first part is the decision about an upgrade request: tenant, subprotocol, and the
  four filters of the authenticator. The second part is the life of the connections as a timed step
  relation: every step is the code between two awaits, and time passes between steps. The database and
  URL.pathname are parameters.
\<close>

section \<open>Upgrade requests\<close>

record server_config =
  sv_id :: string
  sv_securityProfile :: int
  sv_protocols :: "string list"
  sv_forceProtocol :: "string option"
  sv_allowUnknown :: bool
  sv_ignoreHeaders :: bool
  sv_tenantId :: "js_num option"
  sv_dynamicTenant :: bool
  sv_pathMapping :: "(string \<times> nat) list option"

record upgrade_request =
  uq_url :: string
  uq_authorization :: "string option"

datatype upgrade_error = AuthenticationError string | UnknownError string | OtherError string

record conn_env =
  cn_pathname :: "string \<Rightarrow> string option"                       \<comment> \<open>of new URL, None when it throws\<close>
  cn_known :: "js_num \<Rightarrow> string \<Rightarrow> upgrade_error + bool"
  cn_attribute :: "js_num \<Rightarrow> string \<Rightarrow> string \<Rightarrow> string \<Rightarrow> upgrade_error + string option"
                                                              \<comment> \<open>component and variable; value of the first row\<close>
  cn_profile :: "js_num \<Rightarrow> string \<Rightarrow> int \<Rightarrow> upgrade_error + string option"   \<comment> \<open>server of a configuration slot\<close>
  cn_server :: "string \<Rightarrow> upgrade_error + int option"              \<comment> \<open>its security profile\<close>
  cn_text :: "nat list \<Rightarrow> string"                              \<comment> \<open>Buffer.toString\<close>

definition getClientIdFromUrl :: "string \<Rightarrow> string" where
  "getClientIdFromUrl url = last (split_on (CHR ''/'') (hd (split_on (CHR ''?'') url)))"

text \<open>The protocol chosen from those the station offers; None rejects it.\<close>

definition handleProtocols :: "string list \<Rightarrow> string list \<Rightarrow> string option \<Rightarrow> string option" where
  "handleProtocols protocols serverProtocols forceProtocol =
     (case forceProtocol of
        Some p \<Rightarrow> if p \<in> set protocols \<and> p \<in> set serverProtocols then Some p else None
      | None \<Rightarrow> find (\<lambda>p. p \<in> set protocols) serverProtocols)"

text \<open>Starting a server caches its path mapping; the cache then resolves the tenant of a request.\<close>

definition load_path_mapping :: "server_config \<Rightarrow> mem_cache \<Rightarrow> mem_cache" where
  "load_path_mapping sv c =
     fold (\<lambda>(seg, t) c. snd (set_key (getCacheTenantPathMappingKey (sv_id sv) seg) (nat_str t) (Some ''tpm'') None c))
       (case sv_pathMapping sv of None \<Rightarrow> [] | Some m \<Rightarrow> m) c"

definition extractTenantIdFromRequest :: "conn_env \<Rightarrow> server_config \<Rightarrow> mem_cache \<Rightarrow> upgrade_request \<Rightarrow> js_num option" where
  "extractTenantIdFromRequest env sv c rq =
     (case cn_pathname env (uq_url rq) of
        None \<Rightarrow> None
      | Some path \<Rightarrow>
          let segments = filter (\<lambda>s. s \<noteq> []) (split_on (CHR ''/'') path)
          in if length segments \<ge> 2 \<and> sv_pathMapping sv \<noteq> None
             then map_option js_number
                    (get_key (getCacheTenantPathMappingKey (sv_id sv) (segments ! (length segments - 2))) (Some ''tpm'') c)
             else None)"

subsection \<open>The filters\<close>

definition unknownStationFilter :: "conn_env \<Rightarrow> server_config \<Rightarrow> js_num \<Rightarrow> string \<Rightarrow> upgrade_error + unit" where
  "unknownStationFilter env sv t name =
     (if sv_allowUnknown sv then Inr ()
      else bind_res (cn_known env t name) (\<lambda>known. if known then Inr () else Inl (UnknownError (''Unknown identifier '' @ name))))"

definition connectedStationFilter :: "mem_cache \<Rightarrow> js_num \<Rightarrow> string \<Rightarrow> upgrade_error + unit" where
  "connectedStationFilter c t name =
     (if get_key (createIdentifier t [name]) (Some ''conn'') c \<noteq> None
      then Inl (AuthenticationError (''New connection attempted for already connected identifier '' @ createIdentifier t [name]))
      else Inr ())"

text \<open>parseInt with radix 10: leading space and a sign are skipped and trailing text is ignored.\<close>

definition parseInt10 :: "string \<Rightarrow> int option" where
  "parseInt10 s =
     (let s = dropWhile is_space s;
          (neg, ds) = (case s of
                         c # cs \<Rightarrow> if c = CHR ''-'' then (True, cs) else if c = CHR ''+'' then (False, cs) else (False, s)
                       | [] \<Rightarrow> (False, []));
          ds = takeWhile (\<lambda>c. digit_of c \<noteq> None) ds
      in if ds = [] then None else Some (if neg then - int (digits_val ds) else int (digits_val ds)))"

definition slot_allowed :: "conn_env \<Rightarrow> js_num \<Rightarrow> string \<Rightarrow> int \<Rightarrow> int \<Rightarrow> upgrade_error + bool" where
  "slot_allowed env t name securityProfile slot =
     bind_res (cn_profile env t name slot) (\<lambda>server.
       case server of
         None \<Rightarrow> Inr True
       | Some i \<Rightarrow> bind_res (cn_server env i) (\<lambda>p. Inr (case p of Some q \<Rightarrow> q \<le> securityProfile | None \<Rightarrow> False)))"

fun check_slots :: "conn_env \<Rightarrow> js_num \<Rightarrow> string \<Rightarrow> int \<Rightarrow> int list \<Rightarrow> bool \<Rightarrow> upgrade_error + bool" where
  "check_slots env t name securityProfile [] allowed = Inr allowed"
| "check_slots env t name securityProfile (x # xs) allowed =
     bind_res (slot_allowed env t name securityProfile x)
       (\<lambda>a. check_slots env t name securityProfile xs (if a then True else allowed))"

definition configuration_slots :: "string \<Rightarrow> int list" where
  "configuration_slots s = List.map_filter parseInt10 (split_on (CHR '','') s)"

definition isConfigurationSlotAllowed :: "conn_env \<Rightarrow> js_num \<Rightarrow> string \<Rightarrow> int \<Rightarrow> upgrade_error + bool" where
  "isConfigurationSlotAllowed env t name securityProfile =
     bind_res (cn_attribute env t name ''OCPPCommCtrlr'' ''NetworkConfigurationPriority'') (\<lambda>v.
       case v of
         None \<Rightarrow> Inr True
       | Some s \<Rightarrow>
           if trim_str s = [] \<or> configuration_slots s = [] then Inr True
           else check_slots env t name securityProfile (configuration_slots s) False)"

definition networkProfileFilter :: "conn_env \<Rightarrow> server_config \<Rightarrow> js_num \<Rightarrow> string \<Rightarrow> upgrade_error + unit" where
  "networkProfileFilter env sv t name =
     bind_res (isConfigurationSlotAllowed env t name (sv_securityProfile sv)) (\<lambda>ok.
       if ok then Inr () else Inl (AuthenticationError (''SecurityProfile not allowed '' @ int_str (sv_securityProfile sv))))"

text \<open>Base64 as Buffer.from reads it: both alphabets, other characters are skipped.\<close>

definition sextet :: "char \<Rightarrow> nat option" where
  "sextet ch =
     (let n = of_char ch :: nat in
      if 65 \<le> n \<and> n \<le> 90 then Some (n - 65)
      else if 97 \<le> n \<and> n \<le> 122 then Some (n - 71)
      else if 48 \<le> n \<and> n \<le> 57 then Some (n + 4)
      else if n = 43 \<or> n = 45 then Some 62
      else if n = 47 \<or> n = 95 then Some 63
      else None)"

fun sextet_bytes :: "nat list \<Rightarrow> nat list" where
  "sextet_bytes (a # b # c # d # xs) =
     (a * 4 + b div 16) # ((b mod 16) * 16 + c div 4) # ((c mod 4) * 64 + d) # sextet_bytes xs"
| "sextet_bytes [a, b, c] = [a * 4 + b div 16, (b mod 16) * 16 + c div 4]"
| "sextet_bytes [a, b] = [a * 4 + b div 16]"
| "sextet_bytes _ = []"

definition base64_bytes :: "string \<Rightarrow> nat list" where
  "base64_bytes s = sextet_bytes (List.map_filter sextet s)"

definition splitOnce :: "string \<Rightarrow> char \<Rightarrow> string \<times> string option" where
  "splitOnce s d = (if d \<in> set s then (takeWhile (\<lambda>c. c \<noteq> d) s, Some (tl (dropWhile (\<lambda>c. c \<noteq> d) s))) else (s, None))"

definition extractBasicCredentials :: "conn_env \<Rightarrow> upgrade_request \<Rightarrow> string option \<times> string option" where
  "extractBasicCredentials env rq =
     (case uq_authorization rq of
        None \<Rightarrow> (None, None)
      | Some h \<Rightarrow>
          if \<not> prefix ''Basic '' h then (None, None)
          else let (u, p) = splitOnce (cn_text env (base64_bytes (split_on (CHR '' '') h ! 1))) (CHR '':'')
               in (Some u, p))"

definition isPasswordValid :: "conn_env \<Rightarrow> js_num \<Rightarrow> string \<Rightarrow> string \<Rightarrow> upgrade_error + bool" where
  "isPasswordValid env t username password =
     bind_res (cn_attribute env t username ''SecurityCtrlr'' ''BasicAuthPassword'') (\<lambda>v.
       Inr (case v of Some stored \<Rightarrow> stored \<noteq> [] \<and> stored = password | None \<Rightarrow> False))"

definition basicAuthenticationFilter ::
  "conn_env \<Rightarrow> server_config \<Rightarrow> upgrade_request \<Rightarrow> js_num \<Rightarrow> string \<Rightarrow> upgrade_error + unit" where
  "basicAuthenticationFilter env sv rq t name =
     (if (sv_securityProfile sv = 1 \<or> sv_securityProfile sv = 2) \<and> \<not> sv_ignoreHeaders sv
      then (case extractBasicCredentials env rq of
              (Some (c # cs), Some (d # ds)) \<Rightarrow>
                if c # cs \<noteq> name then Inl (AuthenticationError (''Unauthorized '' @ name))
                else bind_res (isPasswordValid env t (c # cs) (d # ds)) (\<lambda>ok.
                       if ok then Inr () else Inl (AuthenticationError (''Unauthorized '' @ name)))
            | _ \<Rightarrow> Inl (AuthenticationError ''Auth header missing or incorrectly formatted''))
      else Inr ())"

definition authenticate ::
  "conn_env \<Rightarrow> server_config \<Rightarrow> mem_cache \<Rightarrow> upgrade_request \<Rightarrow> js_num \<Rightarrow> upgrade_error + string" where
  "authenticate env sv c rq t =
     (let name = getClientIdFromUrl (uq_url rq)
      in bind_res (unknownStationFilter env sv t name) (\<lambda>_.
         bind_res (connectedStationFilter c t name) (\<lambda>_.
         bind_res (networkProfileFilter env sv t name) (\<lambda>_.
         bind_res (basicAuthenticationFilter env sv rq t name) (\<lambda>_. Inr name)))))"

datatype upgrade_answer = Upgraded js_num string | Refused nat

fun refusal_status :: "upgrade_error \<Rightarrow> nat" where
  "refusal_status (AuthenticationError s) = 401"
| "refusal_status (UnknownError s) = 404"
| "refusal_status (OtherError s) = 500"

definition resolved_tenant :: "conn_env \<Rightarrow> server_config \<Rightarrow> mem_cache \<Rightarrow> upgrade_request \<Rightarrow> js_num option" where
  "resolved_tenant env sv c rq =
     (if sv_dynamicTenant sv then extractTenantIdFromRequest env sv c rq else sv_tenantId sv)"

definition upgradeRequest ::
  "conn_env \<Rightarrow> bool \<Rightarrow> server_config \<Rightarrow> mem_cache \<Rightarrow> upgrade_request \<Rightarrow> upgrade_answer" where
  "upgradeRequest env brokerConnected sv c rq =
     (if \<not> brokerConnected then Refused 503
      else case resolved_tenant env sv c rq of
             None \<Rightarrow> Refused (refusal_status (AuthenticationError ''Tenant resolution failed''))
           | Some t \<Rightarrow>
               (case authenticate env sv c rq t of
                  Inl e \<Rightarrow> Refused (refusal_status e)
                | Inr name \<Rightarrow> Upgraded t name))"


section \<open>Who is let in\<close>

text \<open>The specification of the last two filters.\<close>

definition profile_permitted :: "conn_env \<Rightarrow> js_num \<Rightarrow> string \<Rightarrow> int \<Rightarrow> bool" where
  "profile_permitted env t name securityProfile =
     (case cn_attribute env t name ''OCPPCommCtrlr'' ''NetworkConfigurationPriority'' of
        Inl e \<Rightarrow> False
      | Inr None \<Rightarrow> True
      | Inr (Some s) \<Rightarrow>
          let answers = map (slot_allowed env t name securityProfile) (configuration_slots s)
          in answers = [] \<or> list_all (\<lambda>a. a = Inr True \<or> a = Inr False) answers \<and> Inr True \<in> set answers)"

definition basic_auth_required :: "server_config \<Rightarrow> bool" where
  "basic_auth_required sv = ((sv_securityProfile sv = 1 \<or> sv_securityProfile sv = 2) \<and> \<not> sv_ignoreHeaders sv)"

definition password_presented :: "conn_env \<Rightarrow> upgrade_request \<Rightarrow> js_num \<Rightarrow> string \<Rightarrow> bool" where
  "password_presented env rq t name =
     (case extractBasicCredentials env rq of
        (Some u, Some p) \<Rightarrow> u = name \<and> name \<noteq> [] \<and> p \<noteq> [] \<and>
          cn_attribute env t name ''SecurityCtrlr'' ''BasicAuthPassword'' = Inr (Some p)
      | _ \<Rightarrow> False)"

lemma bind_unit: "bind_res r (\<lambda>_. x) = Inr y \<longleftrightarrow> (\<exists>u. r = Inr u) \<and> x = Inr y"
  by (cases r) auto

lemma unknown_ok: "(\<exists>u. unknownStationFilter env sv t name = Inr u) \<longleftrightarrow> sv_allowUnknown sv \<or> cn_known env t name = Inr True"
  by (cases "cn_known env t name") (auto simp: unknownStationFilter_def)

lemma connected_ok: "(\<exists>u. connectedStationFilter c t name = Inr u) \<longleftrightarrow> get_key (createIdentifier t [name]) (Some ''conn'') c = None"
  by (simp add: connectedStationFilter_def del: createIdentifier_simp)

lemma check_slots_iff:
  "check_slots env t name sp xs allowed = Inr True \<longleftrightarrow>
     list_all (\<lambda>a. a = Inr True \<or> a = Inr False) (map (slot_allowed env t name sp) xs) \<and>
     (allowed \<or> Inr True \<in> set (map (slot_allowed env t name sp) xs))"
proof (induction xs arbitrary: allowed)
  case (Cons x xs)
  then show ?case by (cases "slot_allowed env t name sp x") auto
qed simp

lemma dropWhile_trim:
  assumes "trim_str s = []"
  shows "dropWhile is_space s = []"
proof (rule ccontr)
  assume n: "dropWhile is_space s \<noteq> []"
  have "\<forall>c\<in>set (dropWhile is_space s). is_space c"
    using assms by (simp add: trim_str_def dropWhile_eq_Nil_conv)
  then have "is_space (hd (dropWhile is_space s))" using n by simp
  then show False using hd_dropWhile [OF n] by contradiction
qed

lemma blank_slots:
  assumes "trim_str s = []"
  shows "configuration_slots s = []"
proof -
  have d: "dropWhile is_space s = []" using assms by (rule dropWhile_trim)
  then have "\<forall>c\<in>set s. is_space c" by (simp add: dropWhile_eq_Nil_conv)
  moreover have "\<not> is_space (CHR '','')" by (simp add: is_space_def)
  ultimately have "CHR '','' \<notin> set s" by blast
  moreover have "parseInt10 s = None" unfolding parseInt10_def Let_def d by simp
  ultimately show ?thesis by (simp add: configuration_slots_def split_on_free List.map_filter_def)
qed

lemma bind_guard: "(\<exists>u. bind_res r (\<lambda>ok. if ok then Inr x else Inl e) = Inr u) \<longleftrightarrow> r = Inr True"
  by (cases r) simp_all

lemma slot_allowed_iff:
  "isConfigurationSlotAllowed env t name sp = Inr True \<longleftrightarrow> profile_permitted env t name sp"
proof -
  consider e where "cn_attribute env t name ''OCPPCommCtrlr'' ''NetworkConfigurationPriority'' = Inl e"
    | "cn_attribute env t name ''OCPPCommCtrlr'' ''NetworkConfigurationPriority'' = Inr None"
    | s where "cn_attribute env t name ''OCPPCommCtrlr'' ''NetworkConfigurationPriority'' = Inr (Some s)"
    by (metis option.exhaust sum.exhaust)
  then show ?thesis
  proof cases
    case 3
    show ?thesis
    proof (cases "configuration_slots s = []")
      case True
      then show ?thesis using 3 by (simp add: isConfigurationSlotAllowed_def profile_permitted_def)
    next
      case False
      then have "trim_str s \<noteq> []" using blank_slots by blast
      then show ?thesis
        using 3 False by (simp add: isConfigurationSlotAllowed_def profile_permitted_def check_slots_iff)
    qed
  qed (simp_all add: isConfigurationSlotAllowed_def profile_permitted_def)
qed

lemma profile_ok:
  "(\<exists>u. networkProfileFilter env sv t name = Inr u) \<longleftrightarrow> profile_permitted env t name (sv_securityProfile sv)"
  unfolding networkProfileFilter_def bind_guard slot_allowed_iff ..

lemma password_ok: "isPasswordValid env t u p = Inr True \<longleftrightarrow>
    p \<noteq> [] \<and> cn_attribute env t u ''SecurityCtrlr'' ''BasicAuthPassword'' = Inr (Some p)"
  by (cases "cn_attribute env t u ''SecurityCtrlr'' ''BasicAuthPassword''") (auto simp: isPasswordValid_def split: option.split)

lemma basic_presented:
  assumes "extractBasicCredentials env rq = (u, p)"
  shows "password_presented env rq t name \<longleftrightarrow>
     (\<exists>d ds. u = Some name \<and> name \<noteq> [] \<and> p = Some (d # ds) \<and> isPasswordValid env t name (d # ds) = Inr True)"
  unfolding password_presented_def assms password_ok by (cases u; cases p) (auto simp: neq_Nil_conv)

lemma basic_ok:
  "(\<exists>u. basicAuthenticationFilter env sv rq t name = Inr u) \<longleftrightarrow>
     (if basic_auth_required sv then password_presented env rq t name else True)"
proof (cases "basic_auth_required sv")
  case False
  then have n: "\<not> ((sv_securityProfile sv = 1 \<or> sv_securityProfile sv = 2) \<and> \<not> sv_ignoreHeaders sv)"
    unfolding basic_auth_required_def .
  show ?thesis unfolding basicAuthenticationFilter_def if_not_P [OF n] if_not_P [OF False] by simp
next
  case True
  then have y: "(sv_securityProfile sv = 1 \<or> sv_securityProfile sv = 2) \<and> \<not> sv_ignoreHeaders sv"
    unfolding basic_auth_required_def .
  obtain u p where c: "extractBasicCredentials env rq = (u, p)" by fastforce
  consider "u = None" | "u = Some []" | "p = None" | "p = Some []" | x xs d ds where "u = Some (x # xs)" "p = Some (d # ds)"
    by (metis list.exhaust option.exhaust)
  then show ?thesis
    unfolding basicAuthenticationFilter_def if_P [OF y] if_P [OF True] basic_presented [OF c] unfolding c
  proof cases
    case (5 x xs d ds)
    then show "(\<exists>w. (case (u, p) of
         (Some (c # cs), Some (d # ds)) \<Rightarrow>
           if c # cs \<noteq> name then Inl (AuthenticationError (''Unauthorized '' @ name))
           else bind_res (isPasswordValid env t (c # cs) (d # ds)) (\<lambda>ok.
                  if ok then Inr () else Inl (AuthenticationError (''Unauthorized '' @ name)))
       | _ \<Rightarrow> Inl (AuthenticationError ''Auth header missing or incorrectly formatted'')) = Inr w) \<longleftrightarrow>
     (\<exists>d ds. u = Some name \<and> name \<noteq> [] \<and> p = Some (d # ds) \<and> isPasswordValid env t name (d # ds) = Inr True)"
      using bind_guard [of "isPasswordValid env t (x # xs) (d # ds)" "()" "AuthenticationError (''Unauthorized '' @ name)"]
      by (cases "x # xs = name") auto
  qed (auto split: option.split list.split)
qed

text \<open>C16. An upgrade is granted exactly when the message broker is connected, the request resolves to a tenant,
  the station is known or need not be, it holds no connection, one of its network configuration slots permits
  the security profile of the server, and under profiles 1 and 2 the header carries its name and stored
  password. It is granted for that tenant and the last segment of the path.\<close>

theorem upgrade_granted_iff:
  "upgradeRequest env brokerConnected sv c rq = Upgraded t name \<longleftrightarrow>
     brokerConnected \<and> resolved_tenant env sv c rq = Some t \<and> name = getClientIdFromUrl (uq_url rq) \<and>
     (sv_allowUnknown sv \<or> cn_known env t name = Inr True) \<and>
     get_key (createIdentifier t [name]) (Some ''conn'') c = None \<and>
     profile_permitted env t name (sv_securityProfile sv) \<and>
     (if basic_auth_required sv then password_presented env rq t name else True)"
proof -
  have a: "authenticate env sv c rq t = Inr name \<longleftrightarrow> name = getClientIdFromUrl (uq_url rq) \<and>
      (sv_allowUnknown sv \<or> cn_known env t name = Inr True) \<and> get_key (createIdentifier t [name]) (Some ''conn'') c = None \<and>
      profile_permitted env t name (sv_securityProfile sv) \<and>
      (if basic_auth_required sv then password_presented env rq t name else True)"
    unfolding authenticate_def Let_def bind_unit unknown_ok connected_ok profile_ok basic_ok by (auto simp only: sum.inject)
  have u: "upgradeRequest env brokerConnected sv c rq = Upgraded t name \<longleftrightarrow>
      brokerConnected \<and> resolved_tenant env sv c rq = Some t \<and> authenticate env sv c rq t = Inr name"
    unfolding upgradeRequest_def by (auto split: option.splits sum.splits)
  show ?thesis unfolding u a ..
qed


subsection \<open>Credentials and mapped tenants\<close>

text \<open>The encoder of RFC 4648, as a station uses it.\<close>

definition base64_char :: "nat \<Rightarrow> char" where
  "base64_char n = char_of (if n < 26 then n + 65 else if n < 52 then n + 71 else if n < 62 then n - 4 else if n = 62 then 43 else 47)"

fun base64_encode :: "nat list \<Rightarrow> string" where
  "base64_encode (x # y # z # bs) =
     [base64_char (x div 4), base64_char ((x mod 4) * 16 + y div 16),
      base64_char ((y mod 16) * 4 + z div 64), base64_char (z mod 64)] @ base64_encode bs"
| "base64_encode [x, y] =
     [base64_char (x div 4), base64_char ((x mod 4) * 16 + y div 16), base64_char ((y mod 16) * 4), CHR ''='']"
| "base64_encode [x] = [base64_char (x div 4), base64_char ((x mod 4) * 16), CHR ''='', CHR ''='']"
| "base64_encode [] = []"

lemma sextet_alphabet:
  assumes "n < 64"
  shows "sextet (base64_char n) = Some n" and "base64_char n \<noteq> CHR '' ''"
proof -
  let ?k = "if n < 26 then n + 65 else if n < 52 then n + 71 else if n < 62 then n - 4 else if n = 62 then 43 else 47"
  have k: "of_char (base64_char n) = ?k" using assms by (simp add: base64_char_def)
  show "sextet (base64_char n) = Some n" unfolding sextet_def k using assms by (auto simp: Let_def)
  have "?k \<noteq> 32" using assms by auto
  then show "base64_char n \<noteq> CHR '' ''" using k by auto
qed

lemma sextet_pad: "sextet (CHR ''='') = None"
  by (simp add: sextet_def)

lemma base64_roundtrip: "list_all (\<lambda>b. b < 256) bs \<Longrightarrow> base64_bytes (base64_encode bs) = bs"
proof (induction bs rule: base64_encode.induct)
  case (1 x y z bs)
  have d: "(x mod 4 * 16 + y div 16) div 16 = x mod 4" "(x mod 4 * 16 + y div 16) mod 16 = y div 16"
    "(y mod 16 * 4 + z div 64) div 4 = y mod 16" "(y mod 16 * 4 + z div 64) mod 4 = z div 64" "y div 16 mod 16 * 16 + y mod 16 = y" "z div 64 mod 4 * 64 + z mod 64 = z"
    using 1 by auto
  have b: "x div 4 < 64" "x mod 4 * 16 + y div 16 < 64" "y mod 16 * 4 + z div 64 < 64" "z mod 64 < 64"
    using 1 by auto
  show ?case
    using 1 by (simp add: base64_bytes_def sextet_alphabet b d)
next
  case (2 x y)
  have b: "x div 4 < 64" "x mod 4 * 16 + y div 16 < 64" "y mod 16 * 4 < 64" using 2 by auto
  have d: "(x mod 4 * 16 + y div 16) div 16 = x mod 4" "(x mod 4 * 16 + y div 16) mod 16 = y div 16"
    "y div 16 mod 16 * 16 + y mod 16 = y"
    using 2 by auto
  show ?case by (simp add: base64_bytes_def sextet_alphabet sextet_pad b d)
next
  case (3 x)
  have b: "x div 4 < 64" "x mod 4 * 16 < 64" using 3 by auto
  show ?case by (simp add: base64_bytes_def sextet_alphabet sextet_pad b)
qed (simp add: base64_bytes_def List.map_filter_def)

lemma base64_no_space: "list_all (\<lambda>b. b < 256) bs \<Longrightarrow> CHR '' '' \<notin> set (base64_encode bs)"
proof (induction bs rule: base64_encode.induct)
  case (1 x y z bs)
  have b: "x div 4 < 64" "x mod 4 * 16 + y div 16 < 64" "y mod 16 * 4 + z div 64 < 64" "z mod 64 < 64"
    using 1 by auto
  show ?case using 1 b [THEN sextet_alphabet(2)] by auto
next
  case (2 x y)
  have b: "x div 4 < 64" "x mod 4 * 16 + y div 16 < 64" "y mod 16 * 4 < 64" using 2 by auto
  show ?case using b [THEN sextet_alphabet(2)] by auto
next
  case (3 x)
  have b: "x div 4 < 64" "x mod 4 * 16 < 64" using 3 by auto
  show ?case using b [THEN sextet_alphabet(2)] by auto
qed simp

definition string_bytes :: "string \<Rightarrow> nat list" where
  "string_bytes s = map of_char s"

text \<open>Bytes below 128 are the characters of UTF-8.\<close>

definition ascii_text :: "(nat list \<Rightarrow> string) \<Rightarrow> bool" where
  "ascii_text text \<longleftrightarrow> (\<forall>s. list_all (\<lambda>b. b < 128) (string_bytes s) \<longrightarrow> text (string_bytes s) = s)"

definition basic_header :: "string \<Rightarrow> string \<Rightarrow> string" where
  "basic_header user password = ''Basic '' @ base64_encode (string_bytes (user @ '':'' @ password))"

lemma splitOnce_first: "d \<notin> set u \<Longrightarrow> splitOnce (u @ d # p) d = (u, Some p)"
  by (induction u) (auto simp: splitOnce_def)

text \<open>The credentials a station encodes in its authorization header are read back: name and password in
  ASCII, the name without a colon.\<close>

lemma basic_credentials_roundtrip:
  assumes "ascii_text (cn_text env)" and "list_all (\<lambda>b. b < 128) (string_bytes (user @ password))" and "CHR '':'' \<notin> set user"
  shows "extractBasicCredentials env (rq\<lparr> uq_authorization := Some (basic_header user password) \<rparr>) = (Some user, Some password)"
proof -
  let ?bs = "string_bytes (user @ '':'' @ password)"
  have a: "list_all (\<lambda>b. b < 128) ?bs" using assms(2) by (simp add: string_bytes_def)
  have l: "list_all (\<lambda>b. b < 256) ?bs" using a by (auto simp: list_all_iff)
  have "split_on (CHR '' '') (basic_header user password) = [''Basic'', base64_encode ?bs]"
    using base64_no_space [OF l] by (simp add: basic_header_def split_on_free)
  moreover have "cn_text env ?bs = user @ CHR '':'' # password"
    using assms(1) a by (simp add: ascii_text_def)
  ultimately show ?thesis
    using splitOnce_first [OF assms(3), of password] base64_roundtrip [OF l] assms(1) a
    by (simp add: extractBasicCredentials_def) (simp add: basic_header_def)
qed

lemma mapping_loaded:
  assumes "distinct (map fst m)" and "map_of m seg = Some t"
  shows "get_key (getCacheTenantPathMappingKey i seg) (Some ''tpm'')
    (fold (\<lambda>(seg, t) c. snd (set_key (getCacheTenantPathMappingKey i seg) (nat_str t) (Some ''tpm'') None c)) m c) = Some (nat_str t)"
  using assms
proof (induction m rule: rev_induct)
  case (snoc x m)
  obtain s u where x: "x = (s, u)" by fastforce
  have "map_of m seg = Some t \<or> s = seg \<and> u = t"
    using snoc.prems by (auto simp: x map_add_def split: option.splits if_splits)
  moreover have "s \<noteq> seg" if "map_of m seg = Some t"
    using snoc.prems(1) map_of_SomeD [OF that] by (force simp: x)
  ultimately show ?case
    using snoc by (auto simp: x mc.lookup_put getCacheTenantPathMappingKey_def)
qed simp

text \<open>On a server that resolves tenants by path, a request whose path ends in a mapped segment and a station
  name is resolved to the tenant the configuration maps the segment to.\<close>

lemma mapped_tenant_resolved:
  assumes "sv_dynamicTenant sv" and "sv_pathMapping sv = Some m" and "distinct (map fst m)" and "map_of m seg = Some t"
    and "cn_pathname env (uq_url rq) = Some (pre @ ''/'' @ seg @ ''/'' @ name)"
    and "CHR ''/'' \<notin> set seg" and "CHR ''/'' \<notin> set name" and "seg \<noteq> []" and "name \<noteq> []"
  shows "resolved_tenant env sv (load_path_mapping sv c) rq = Some (tenant t)"
proof -
  have "split_on (CHR ''/'') (pre @ ''/'' @ seg @ ''/'' @ name) = split_on (CHR ''/'') pre @ [seg, name]"
    using assms(6,7) by (induction pre) (auto simp: split_on_free split_on_append split: list.splits)
  then have s: "filter (\<lambda>s. s \<noteq> []) (split_on (CHR ''/'') (pre @ ''/'' @ seg @ ''/'' @ name)) =
      filter (\<lambda>s. s \<noteq> []) (split_on (CHR ''/'') pre) @ [seg, name]"
    using assms(8,9) by simp
  have "js_number (nat_str t) = tenant t" by (simp add: js_number_digits)
  then show ?thesis
    using assms(1,2,5) mapping_loaded [OF assms(3,4)]
    by (simp add: resolved_tenant_def extractTenantIdFromRequest_def load_path_mapping_def s [simplified] nth_append Let_def)
qed


subsection \<open>Witnesses\<close>

definition demo_conn_env :: conn_env where
  "demo_conn_env = \<lparr> cn_pathname = Some, cn_known = (\<lambda>t n. Inr True),
     cn_attribute = (\<lambda>t n c v. Inr (if c = ''SecurityCtrlr'' then Some ''pw'' else None)),
     cn_profile = (\<lambda>t n i. Inr None), cn_server = (\<lambda>i. Inr None), cn_text = map char_of \<rparr>"

lemma demo_ascii: "ascii_text (cn_text demo_conn_env)"
  by (simp add: ascii_text_def demo_conn_env_def string_bytes_def comp_def)

lemma basic_credentials_roundtrip_witness:
  "extractBasicCredentials demo_conn_env \<lparr> uq_url = ''/cp1'', uq_authorization = Some (basic_header ''cp1'' ''pw'') \<rparr> =
     (Some ''cp1'', Some ''pw'')"
proof -
  have a: "list_all (\<lambda>b. b < 128) (string_bytes (''cp1'' @ ''pw''))" by (simp add: string_bytes_def)
  show ?thesis
    using basic_credentials_roundtrip [OF demo_ascii a, of "\<lparr> uq_url = ''/cp1'', uq_authorization = None \<rparr>"] by simp
qed

definition demo_server :: server_config where
  "demo_server = \<lparr> sv_id = ''s1'', sv_securityProfile = 1, sv_protocols = [''ocpp2.0.1''], sv_forceProtocol = None,
     sv_allowUnknown = False, sv_ignoreHeaders = False, sv_tenantId = None, sv_dynamicTenant = True,
     sv_pathMapping = Some [(''north'', 7), (''south'', 8)] \<rparr>"

lemma mapped_tenant_resolved_witness:
  "resolved_tenant demo_conn_env demo_server (load_path_mapping demo_server empty_cache)
     \<lparr> uq_url = ''/ocpp/south/cp1'', uq_authorization = None \<rparr> = Some (tenant 8)"
  using mapped_tenant_resolved [of demo_server "[(''north'', 7), (''south'', 8)]" "''south''" 8 demo_conn_env
      "\<lparr> uq_url = ''/ocpp/south/cp1'', uq_authorization = None \<rparr>" "''/ocpp''" "''cp1''" empty_cache]
  by (simp add: demo_server_def demo_conn_env_def)

end
