(* ===== verification/ConnectionLife.thy ===== *)
theory ConnectionLife
  imports Connections
begin

text \<open>
  The life of websocket connections in WebsocketNetworkConnection.ts (onConnection, registerWebsocketEvents,
  handleWebsocketClose, ping, shutdown) as a timed step relation. A socket is a number, time is in
  milliseconds. Each step runs the code between two awaits: an attempt is at the station check, the limit of the
  tenant, the replacement of a stale connection, or the registration at the router. The connection slots are the
  entries of the cache in the namespace of connections, given by their deadlines. Timers fire at their time;
  time does not pass a timer or the close event of a terminated socket. The parameters of the relation are the
  shortest ping interval of the servers, the longest time an await takes, and the limits of the tenants.
\<close>

section \<open>State\<close>

datatype stage = Checking | Limiting | Replacing nat | Registering nat   \<comment> \<open>with the time the await ends at the latest\<close>

record attempt =
  at_tenant :: js_num
  at_name :: string
  at_ping :: nat
  at_stage :: stage

definition at_identifier :: "attempt \<Rightarrow> string" where
  "at_identifier a = createIdentifier (at_tenant a) [at_name a]"

record alarm =
  al_due :: nat
  al_socket :: nat
  al_ping :: nat

record net =
  nw_now :: nat
  nw_next :: nat
  nw_open :: "nat set"
  nw_closing :: "nat set"
  nw_attempts :: "nat \<rightharpoonup> attempt"
  nw_connections :: "string \<rightharpoonup> nat"
  nw_listeners :: "nat \<rightharpoonup> string \<times> nat"
    \<comment> \<open>sockets whose events are handled: the identifier and the ping interval the listeners close over\<close>
  nw_closeHandlers :: "string \<rightharpoonup> nat"
  nw_pingTimers :: "string \<rightharpoonup> alarm"
  nw_pongTimeouts :: "string \<rightharpoonup> alarm"
  nw_counts :: "js_num \<rightharpoonup> nat"
  nw_slots :: "string \<rightharpoonup> nat"

definition no_connections :: net where
  "no_connections =
     \<lparr> nw_now = 0, nw_next = 0, nw_open = {}, nw_closing = {}, nw_attempts = Map.empty, nw_connections = Map.empty,
       nw_listeners = Map.empty, nw_closeHandlers = Map.empty, nw_pingTimers = Map.empty, nw_pongTimeouts = Map.empty,
       nw_counts = Map.empty, nw_slots = Map.empty \<rparr>"

definition slot_held :: "string \<Rightarrow> net \<Rightarrow> bool" where
  "slot_held i s = (case nw_slots s i of None \<Rightarrow> False | Some d \<Rightarrow> nw_now s < d)"

section \<open>Operations\<close>

definition reject :: "nat \<Rightarrow> net \<Rightarrow> net" where
  "reject k s = s\<lparr> nw_attempts := (nw_attempts s)(k := None) \<rparr>"

definition set_stage :: "nat \<Rightarrow> stage \<Rightarrow> net \<Rightarrow> net" where
  "set_stage k g s =
     (case nw_attempts s k of None \<Rightarrow> s | Some a \<Rightarrow> s\<lparr> nw_attempts := (nw_attempts s)(k \<mapsto> a\<lparr> at_stage := g \<rparr>) \<rparr>)"

definition new_connection :: "js_num \<Rightarrow> string \<Rightarrow> nat \<Rightarrow> net \<Rightarrow> net" where
  "new_connection t name p s =
     s\<lparr> nw_next := Suc (nw_next s), nw_open := insert (nw_next s) (nw_open s),
        nw_attempts := (nw_attempts s)(nw_next s \<mapsto> \<lparr> at_tenant = t, at_name = name, at_ping = p, at_stage = Checking \<rparr>) \<rparr>"

definition station_checked :: "bool \<Rightarrow> nat \<Rightarrow> net \<Rightarrow> net" where
  "station_checked ok k s = (if ok then set_stage k Limiting s else reject k s)"

definition terminate :: "nat \<Rightarrow> net \<Rightarrow> net" where
  "terminate k s =
     (if k \<in> nw_open s then s\<lparr> nw_open := nw_open s - {k}, nw_closing := insert k (nw_closing s) \<rparr> else s)"

definition count_down :: "js_num \<Rightarrow> net \<Rightarrow> net" where
  "count_down t s =
     (case nw_counts s t of
        None \<Rightarrow> s
      | Some n \<Rightarrow> s\<lparr> nw_counts := (nw_counts s)(t := (if n \<le> 1 then None else Some (n - 1))) \<rparr>)"

definition handleWebsocketClose :: "string \<Rightarrow> net \<Rightarrow> net" where
  "handleWebsocketClose i s =
     (let s = s\<lparr> nw_closeHandlers := (nw_closeHandlers s)(i := None), nw_pingTimers := (nw_pingTimers s)(i := None),
                 nw_pongTimeouts := (nw_pongTimeouts s)(i := None) \<rparr>;
          s = count_down (getTenantIdFromIdentifier i) s
      in s\<lparr> nw_connections := (nw_connections s)(i := None), nw_slots := (nw_slots s)(i := None) \<rparr>)"

text \<open>setIfNotExist of the cache; the registration at the router follows.\<close>

definition claim_slot :: "nat \<Rightarrow> nat \<Rightarrow> attempt \<Rightarrow> net \<Rightarrow> net" where
  "claim_slot maxWait k a s =
     (if slot_held (at_identifier a) s then reject k s
      else set_stage k (Registering (nw_now s + maxWait))
             (s\<lparr> nw_slots := (nw_slots s)(at_identifier a \<mapsto> nw_now s + 3 * at_ping a) \<rparr>))"

definition limit_exceeded :: "(js_num \<Rightarrow> nat option) \<Rightarrow> js_num \<Rightarrow> net \<Rightarrow> bool" where
  "limit_exceeded limit t s =
     (case limit t of
        None \<Rightarrow> False
      | Some m \<Rightarrow> m > 0 \<and> (case nw_counts s t of None \<Rightarrow> 0 | Some n \<Rightarrow> n) \<ge> m)"

definition detach_stale :: "string \<Rightarrow> nat \<Rightarrow> net \<Rightarrow> net" where
  "detach_stale i old s =
     (case nw_closeHandlers s i of
        None \<Rightarrow> s
      | Some h \<Rightarrow>
          s\<lparr> nw_listeners := (if h = old then (nw_listeners s)(old := None) else nw_listeners s),
             nw_closeHandlers := (nw_closeHandlers s)(i := None) \<rparr>)"

definition limit_checked :: "(js_num \<Rightarrow> nat option) \<Rightarrow> nat \<Rightarrow> nat \<Rightarrow> attempt \<Rightarrow> net \<Rightarrow> net" where
  "limit_checked limit maxWait k a s =
     (if limit_exceeded limit (at_tenant a) s then reject k s
      else case nw_connections s (at_identifier a) of
             None \<Rightarrow> claim_slot maxWait k a s
           | Some old \<Rightarrow>
               set_stage k (Replacing (nw_now s + maxWait))
                 (handleWebsocketClose (at_identifier a) (terminate old (detach_stale (at_identifier a) old s))))"

text \<open>updateExpiration does nothing for a slot that is gone.\<close>

definition ping :: "string \<Rightarrow> nat \<Rightarrow> nat \<Rightarrow> nat \<Rightarrow> net \<Rightarrow> net" where
  "ping i k p jitter s =
     (if nw_pingTimers s i \<noteq> None then s
      else s\<lparr> nw_pingTimers := (nw_pingTimers s)(i \<mapsto> \<lparr> al_due = nw_now s + p + jitter, al_socket = k, al_ping = p \<rparr>),
              nw_slots := (if slot_held i s then (nw_slots s)(i \<mapsto> nw_now s + 3 * p) else nw_slots s) \<rparr>)"

definition count_up :: "js_num \<Rightarrow> net \<Rightarrow> net" where
  "count_up t s = s\<lparr> nw_counts := (nw_counts s)(t \<mapsto> Suc (case nw_counts s t of None \<Rightarrow> 0 | Some n \<Rightarrow> n)) \<rparr>"

definition registered :: "bool \<Rightarrow> nat \<Rightarrow> nat \<Rightarrow> attempt \<Rightarrow> net \<Rightarrow> net" where
  "registered ok jitter k a s =
     (let i = at_identifier a in
      if ok
      then let s = s\<lparr> nw_attempts := (nw_attempts s)(k := None), nw_connections := (nw_connections s)(i \<mapsto> k) \<rparr>;
               s = count_up (at_tenant a) s;
               s = s\<lparr> nw_listeners := (nw_listeners s)(k \<mapsto> (i, at_ping a)), nw_closeHandlers := (nw_closeHandlers s)(i \<mapsto> k) \<rparr>
           in ping i k (at_ping a) jitter s
      else reject k (s\<lparr> nw_slots := (nw_slots s)(i := None) \<rparr>))"

definition socket_closed :: "nat \<Rightarrow> net \<Rightarrow> net" where
  "socket_closed k s =
     (let s = s\<lparr> nw_open := nw_open s - {k}, nw_closing := nw_closing s - {k} \<rparr>
      in case nw_listeners s k of
           None \<Rightarrow> s
         | Some (i, p) \<Rightarrow> handleWebsocketClose i (s\<lparr> nw_listeners := (nw_listeners s)(k := None) \<rparr>))"

definition ping_due :: "string \<Rightarrow> alarm \<Rightarrow> net \<Rightarrow> net" where
  "ping_due i al s =
     s\<lparr> nw_pingTimers := (nw_pingTimers s)(i := None),
        nw_pongTimeouts := (nw_pongTimeouts s)(i \<mapsto> al\<lparr> al_due := nw_now s + al_ping al \<rparr>) \<rparr>"

definition pong_timeout :: "string \<Rightarrow> alarm \<Rightarrow> net \<Rightarrow> net" where
  "pong_timeout i al s = terminate (al_socket al) (s\<lparr> nw_pongTimeouts := (nw_pongTimeouts s)(i := None) \<rparr>)"

definition pong_received :: "string \<Rightarrow> nat \<Rightarrow> nat \<Rightarrow> net \<Rightarrow> net" where
  "pong_received i k p s = ping i k p 0 (s\<lparr> nw_pongTimeouts := (nw_pongTimeouts s)(i := None) \<rparr>)"

text \<open>The listeners are removed, the sockets closed, and their close is handled.\<close>

definition shutdown_one :: "string \<Rightarrow> nat \<Rightarrow> net \<Rightarrow> net" where
  "shutdown_one i k s = handleWebsocketClose i (detach_stale i k s)"

text \<open>A frame for a station: it is written to its socket, or the call fails.\<close>

datatype send_result = NoSlot | NoSocket | NotOpen | Written nat

definition send_frame :: "string \<Rightarrow> net \<Rightarrow> send_result \<times> net" where
  "send_frame i s =
     (if \<not> slot_held i s
      then (NoSlot, case nw_connections s i of Some k \<Rightarrow> terminate k s | None \<Rightarrow> s)
      else case nw_connections s i of
             None \<Rightarrow> (NoSocket, s)
           | Some k \<Rightarrow> if k \<in> nw_open s then (Written k, s) else (NotOpen, terminate k s))"

section \<open>Steps\<close>

text \<open>A pong may come unasked.\<close>

definition may_pass :: "nat \<Rightarrow> net \<Rightarrow> bool" where
  "may_pass d s \<longleftrightarrow> nw_closing s = {} \<and>
     (\<forall>i al. nw_pingTimers s i = Some al \<longrightarrow> nw_now s + d \<le> al_due al) \<and>
     (\<forall>i al. nw_pongTimeouts s i = Some al \<longrightarrow> nw_now s + d \<le> al_due al) \<and>
     (\<forall>k a t. nw_attempts s k = Some a \<and> (at_stage a = Replacing t \<or> at_stage a = Registering t) \<longrightarrow> nw_now s + d \<le> t)"

inductive net_step :: "nat \<Rightarrow> nat \<Rightarrow> (js_num \<Rightarrow> nat option) \<Rightarrow> net \<Rightarrow> net \<Rightarrow> bool" for minPing maxWait limit where
  connect: "minPing \<le> p \<Longrightarrow> net_step minPing maxWait limit s (new_connection (tenant t) name p s)"
| check: "nw_attempts s k = Some a \<Longrightarrow> at_stage a = Checking \<Longrightarrow> net_step minPing maxWait limit s (station_checked ok k s)"
| limit: "nw_attempts s k = Some a \<Longrightarrow> at_stage a = Limiting \<Longrightarrow>
    net_step minPing maxWait limit s (limit_checked limit maxWait k a s)"
| claim: "nw_attempts s k = Some a \<Longrightarrow> at_stage a = Replacing t \<Longrightarrow> net_step minPing maxWait limit s (claim_slot maxWait k a s)"
| register: "nw_attempts s k = Some a \<Longrightarrow> at_stage a = Registering t \<Longrightarrow> jitter < at_ping a \<Longrightarrow>
    net_step minPing maxWait limit s (registered ok jitter k a s)"
| ping_timer: "nw_pingTimers s i = Some al \<Longrightarrow> al_due al \<le> nw_now s \<Longrightarrow> net_step minPing maxWait limit s (ping_due i al s)"
| pong_timer: "nw_pongTimeouts s i = Some al \<Longrightarrow> al_due al \<le> nw_now s \<Longrightarrow> net_step minPing maxWait limit s (pong_timeout i al s)"
| pong: "nw_listeners s k = Some (i, p) \<Longrightarrow> k \<in> nw_open s \<Longrightarrow> net_step minPing maxWait limit s (pong_received i k p s)"
| close: "k \<in> nw_open s \<union> nw_closing s \<Longrightarrow> net_step minPing maxWait limit s (socket_closed k s)"
| shutdown: "nw_connections s i = Some k \<Longrightarrow> net_step minPing maxWait limit s (shutdown_one i k s)"
| send: "net_step minPing maxWait limit s (snd (send_frame i s))"
| pass: "may_pass d s \<Longrightarrow> net_step minPing maxWait limit s (s\<lparr> nw_now := nw_now s + d \<rparr>)"

inductive_cases net_stepE: "net_step minPing maxWait limit s s'"

section \<open>Invariant\<close>

definition conns :: "js_num \<Rightarrow> (string \<rightharpoonup> nat) \<Rightarrow> string set" where
  "conns t c = {i \<in> dom c. getTenantIdFromIdentifier i = t}"

definition count_of :: "nat \<Rightarrow> nat option" where
  "count_of n = (if n = 0 then None else Some n)"

definition counted :: "net \<Rightarrow> bool" where
  "counted s \<longleftrightarrow> finite (dom (nw_connections s)) \<and>
     (\<forall>t. nw_counts s t = count_of (card (conns t (nw_connections s))))"

definition linked :: "nat \<Rightarrow> net \<Rightarrow> bool" where
  "linked minPing s \<longleftrightarrow> nw_closeHandlers s = nw_connections s \<and>
     (\<forall>i k. nw_connections s i = Some k \<longleftrightarrow> (\<exists>p. nw_listeners s k = Some (i, p))) \<and>
     (\<forall>k i p. nw_listeners s k = Some (i, p) \<longrightarrow> minPing \<le> p \<and> k < nw_next s \<and> nw_attempts s k = None)"

definition fresh :: "net \<Rightarrow> bool" where
  "fresh s \<longleftrightarrow> (\<forall>k. k \<in> nw_open s \<or> k \<in> nw_closing s \<or> nw_attempts s k \<noteq> None \<longrightarrow> k < nw_next s) \<and>
     nw_open s \<inter> nw_closing s = {}"

definition slot_outlives :: "string \<Rightarrow> nat \<Rightarrow> net \<Rightarrow> bool" where
  "slot_outlives i t s \<longleftrightarrow> (\<exists>d. nw_slots s i = Some d \<and> t < d)"

definition attempt_ok :: "nat \<Rightarrow> nat \<Rightarrow> net \<Rightarrow> attempt \<Rightarrow> bool" where
  "attempt_ok minPing maxWait s a \<longleftrightarrow> minPing \<le> at_ping a \<and> (\<exists>t. at_tenant a = tenant t) \<and>
     (case at_stage a of
        Registering t \<Rightarrow> nw_connections s (at_identifier a) = None \<and> nw_now s \<le> t \<and> slot_outlives (at_identifier a) t s
      | Replacing t \<Rightarrow> nw_now s \<le> t \<and> t \<le> nw_now s + maxWait \<and>
          (nw_connections s (at_identifier a) \<noteq> None \<longrightarrow> slot_outlives (at_identifier a) t s)
      | _ \<Rightarrow> True)"

definition registering :: "string \<Rightarrow> nat \<Rightarrow> net \<Rightarrow> bool" where
  "registering i k s \<longleftrightarrow> (\<exists>a t. nw_attempts s k = Some a \<and> at_stage a = Registering t \<and> at_identifier a = i)"

definition attempts_ok :: "nat \<Rightarrow> nat \<Rightarrow> net \<Rightarrow> bool" where
  "attempts_ok minPing maxWait s \<longleftrightarrow>
     (\<forall>k a. nw_attempts s k = Some a \<longrightarrow> attempt_ok minPing maxWait s a) \<and>
     (\<forall>i k k'. registering i k s \<longrightarrow> registering i k' s \<longrightarrow> k = k')"

definition timers_ok :: "nat \<Rightarrow> net \<Rightarrow> bool" where
  "timers_ok minPing s \<longleftrightarrow>
     (\<forall>i al. nw_pingTimers s i = Some al \<longrightarrow> nw_connections s i = Some (al_socket al) \<and> nw_now s \<le> al_due al \<and>
        minPing \<le> al_ping al \<and> slot_outlives i (al_due al + al_ping al) s \<and> nw_pongTimeouts s i = None) \<and>
     (\<forall>i al. nw_pongTimeouts s i = Some al \<longrightarrow> nw_connections s i = Some (al_socket al) \<and> nw_now s \<le> al_due al \<and>
        minPing \<le> al_ping al \<and> slot_outlives i (al_due al) s) \<and>
     (\<forall>i k. nw_connections s i = Some k \<longrightarrow> k \<in> nw_open s \<longrightarrow> nw_pingTimers s i \<noteq> None \<or> nw_pongTimeouts s i \<noteq> None)"

definition net_inv :: "nat \<Rightarrow> nat \<Rightarrow> net \<Rightarrow> bool" where
  "net_inv minPing maxWait s \<longleftrightarrow>
     counted s \<and> linked minPing s \<and> fresh s \<and> attempts_ok minPing maxWait s \<and> timers_ok minPing s"

subsection \<open>Fields\<close>

lemma count_down_fields [simp]:
  "nw_now (count_down t s) = nw_now s" "nw_next (count_down t s) = nw_next s" "nw_open (count_down t s) = nw_open s"
  "nw_closing (count_down t s) = nw_closing s" "nw_attempts (count_down t s) = nw_attempts s"
  "nw_connections (count_down t s) = nw_connections s" "nw_listeners (count_down t s) = nw_listeners s"
  "nw_closeHandlers (count_down t s) = nw_closeHandlers s" "nw_pingTimers (count_down t s) = nw_pingTimers s"
  "nw_pongTimeouts (count_down t s) = nw_pongTimeouts s" "nw_slots (count_down t s) = nw_slots s"
  by (simp_all add: count_down_def split: option.split)

lemma close_fields [simp]:
  "nw_now (handleWebsocketClose i s) = nw_now s" "nw_next (handleWebsocketClose i s) = nw_next s"
  "nw_open (handleWebsocketClose i s) = nw_open s" "nw_closing (handleWebsocketClose i s) = nw_closing s"
  "nw_attempts (handleWebsocketClose i s) = nw_attempts s" "nw_listeners (handleWebsocketClose i s) = nw_listeners s"
  "nw_connections (handleWebsocketClose i s) = (nw_connections s)(i := None)"
  "nw_closeHandlers (handleWebsocketClose i s) = (nw_closeHandlers s)(i := None)"
  "nw_pingTimers (handleWebsocketClose i s) = (nw_pingTimers s)(i := None)"
  "nw_pongTimeouts (handleWebsocketClose i s) = (nw_pongTimeouts s)(i := None)"
  "nw_slots (handleWebsocketClose i s) = (nw_slots s)(i := None)"
  by (simp_all add: handleWebsocketClose_def Let_def)

lemma detach_fields [simp]:
  "nw_now (detach_stale i k s) = nw_now s" "nw_next (detach_stale i k s) = nw_next s"
  "nw_open (detach_stale i k s) = nw_open s" "nw_closing (detach_stale i k s) = nw_closing s"
  "nw_attempts (detach_stale i k s) = nw_attempts s" "nw_connections (detach_stale i k s) = nw_connections s"
  "nw_pingTimers (detach_stale i k s) = nw_pingTimers s" "nw_pongTimeouts (detach_stale i k s) = nw_pongTimeouts s"
  "nw_slots (detach_stale i k s) = nw_slots s" "nw_counts (detach_stale i k s) = nw_counts s"
  by (simp_all add: detach_stale_def split: option.split)

lemma terminate_fields [simp]:
  "nw_now (terminate k s) = nw_now s" "nw_next (terminate k s) = nw_next s" "nw_attempts (terminate k s) = nw_attempts s"
  "nw_connections (terminate k s) = nw_connections s" "nw_listeners (terminate k s) = nw_listeners s"
  "nw_closeHandlers (terminate k s) = nw_closeHandlers s" "nw_pingTimers (terminate k s) = nw_pingTimers s"
  "nw_pongTimeouts (terminate k s) = nw_pongTimeouts s" "nw_slots (terminate k s) = nw_slots s"
  "nw_counts (terminate k s) = nw_counts s" "nw_open (terminate k s) = nw_open s - {k}"
  "nw_closing (terminate k s) = (if k \<in> nw_open s then insert k (nw_closing s) else nw_closing s)"
  by (simp_all add: terminate_def)

lemma stage_fields [simp]:
  "nw_now (set_stage k g s) = nw_now s" "nw_next (set_stage k g s) = nw_next s" "nw_open (set_stage k g s) = nw_open s"
  "nw_closing (set_stage k g s) = nw_closing s" "nw_connections (set_stage k g s) = nw_connections s"
  "nw_listeners (set_stage k g s) = nw_listeners s" "nw_closeHandlers (set_stage k g s) = nw_closeHandlers s"
  "nw_pingTimers (set_stage k g s) = nw_pingTimers s" "nw_pongTimeouts (set_stage k g s) = nw_pongTimeouts s"
  "nw_slots (set_stage k g s) = nw_slots s" "nw_counts (set_stage k g s) = nw_counts s"
  "nw_attempts (set_stage k g s) =
     (nw_attempts s)(k := map_option (\<lambda>a. a\<lparr> at_stage := g \<rparr>) (nw_attempts s k))"
  by (auto simp: set_stage_def fun_eq_iff split: option.split)

lemma reject_fields [simp]:
  "nw_now (reject k s) = nw_now s" "nw_next (reject k s) = nw_next s" "nw_open (reject k s) = nw_open s"
  "nw_closing (reject k s) = nw_closing s" "nw_connections (reject k s) = nw_connections s"
  "nw_listeners (reject k s) = nw_listeners s" "nw_closeHandlers (reject k s) = nw_closeHandlers s"
  "nw_pingTimers (reject k s) = nw_pingTimers s" "nw_pongTimeouts (reject k s) = nw_pongTimeouts s"
  "nw_slots (reject k s) = nw_slots s" "nw_counts (reject k s) = nw_counts s"
  "nw_attempts (reject k s) = (nw_attempts s)(k := None)"
  by (simp_all add: reject_def)

lemma identifier_stage [simp]: "at_identifier (a\<lparr> at_stage := g \<rparr>) = at_identifier a"
  by (simp add: at_identifier_def)

lemma slot_held_outlives: "slot_held i s \<longleftrightarrow> slot_outlives i (nw_now s) s"
  by (auto simp: slot_held_def slot_outlives_def split: option.split)

lemma outlives_mono: "slot_outlives i t s \<Longrightarrow> t' \<le> t \<Longrightarrow> slot_outlives i t' s"
  by (auto simp: slot_outlives_def)

subsection \<open>Counting\<close>

lemma conns_remove:
  assumes "c i = Some k" "finite (dom c)"
  shows "card (conns t c) = (if getTenantIdFromIdentifier i = t then Suc (card (conns t (c(i := None)))) else card (conns t (c(i := None))))"
proof -
  have "conns t c = (if getTenantIdFromIdentifier i = t then insert i (conns t (c(i := None))) else conns t (c(i := None)))"
    using assms(1) by (auto simp: conns_def)
  moreover have "i \<notin> conns t (c(i := None))" "finite (conns t (c(i := None)))"
    using assms(2) by (simp_all add: conns_def)
  ultimately show ?thesis by simp
qed

lemma counted_close:
  assumes "counted s" "nw_connections s i = Some k"
  shows "counted (handleWebsocketClose i s)"
proof -
  let ?c = "nw_connections s"
  have f: "finite (dom ?c)" and n: "\<And>t. nw_counts s t = count_of (card (conns t ?c))"
    using assms(1) by (simp_all add: counted_def)
  have "nw_counts (handleWebsocketClose i s) t = count_of (card (conns t (?c(i := None))))" for t
    using n [of t] n [of "getTenantIdFromIdentifier i"] conns_remove [OF assms(2) f, of t]
      conns_remove [OF assms(2) f, of "getTenantIdFromIdentifier i"]
    by (auto simp: handleWebsocketClose_def count_down_def Let_def count_of_def split: if_splits option.splits)
  then show ?thesis using f by (simp add: counted_def)
qed

lemma counted_open:
  assumes "counted s" "nw_connections s i = None" "getTenantIdFromIdentifier i = t"
  shows "counted (count_up t (s\<lparr> nw_connections := (nw_connections s)(i \<mapsto> k) \<rparr>))"
proof -
  let ?c = "nw_connections s"
  have f: "finite (dom ?c)" and n: "\<And>t. nw_counts s t = count_of (card (conns t ?c))"
    using assms(1) by (simp_all add: counted_def)
  have "?c(i := None) = ?c" using assms(2) by auto
  then have "card (conns u (?c(i \<mapsto> k))) = (if t = u then Suc (card (conns u ?c)) else card (conns u ?c))" for u
    using conns_remove [of "?c(i \<mapsto> k)" i k u] f assms(3) by simp
  then show ?thesis using f n by (auto simp: counted_def count_up_def count_of_def)
qed


subsection \<open>Preservation\<close>

lemmas inv_defs = linked_def fresh_def timers_ok_def attempts_ok_def

lemma net_invD:
  assumes "net_inv mp mw s"
  shows "counted s" "linked mp s" "fresh s" "attempts_ok mp mw s" "timers_ok mp s"
  using assms by (simp_all add: net_inv_def)

text \<open>What an attempt and a timer say depends on few fields.\<close>

lemma attempt_ok_cong:
  "nw_connections s' = nw_connections s \<Longrightarrow> nw_now s' = nw_now s \<Longrightarrow> nw_slots s' = nw_slots s \<Longrightarrow>
   attempt_ok mp mw s' a = attempt_ok mp mw s a"
  by (simp add: attempt_ok_def slot_outlives_def split: stage.split)

lemma registering_cong: "nw_attempts s' = nw_attempts s \<Longrightarrow> registering i k s' = registering i k s"
  by (simp add: registering_def)

lemma attempts_ok_cong:
  "nw_attempts s' = nw_attempts s \<Longrightarrow> nw_connections s' = nw_connections s \<Longrightarrow> nw_now s' = nw_now s \<Longrightarrow>
   nw_slots s' = nw_slots s \<Longrightarrow> attempts_ok mp mw s' = attempts_ok mp mw s"
  unfolding attempts_ok_def by (simp add: attempt_ok_cong [of s' s] registering_cong [of s' s])

lemma counted_cong:
  "nw_connections s' = nw_connections s \<Longrightarrow> nw_counts s' = nw_counts s \<Longrightarrow> counted s' = counted s"
  by (simp add: counted_def)

lemma inv_no_connections: "net_inv mp mw no_connections"
  by (simp add: net_inv_def inv_defs counted_def no_connections_def conns_def count_of_def registering_def)

lemma inv_terminate: "net_inv mp mw s \<Longrightarrow> net_inv mp mw (terminate k s)"
  unfolding net_inv_def
  by (auto simp: counted_cong [of "terminate k s" s] attempts_ok_cong [of "terminate k s" s] linked_def fresh_def
      timers_ok_def slot_outlives_def)

text \<open>A connection leaves: its socket is not listened to any more and its close is handled.\<close>

definition leave :: "string \<Rightarrow> nat \<Rightarrow> net \<Rightarrow> net" where
  "leave i k s = handleWebsocketClose i (s\<lparr> nw_listeners := (nw_listeners s)(k := None) \<rparr>)"

lemma leave_linked:
  assumes "linked mp s" "nw_connections s i = Some k"
  shows "linked mp (leave i k s)"
proof -
  have "nw_connections s j = Some k \<longleftrightarrow> j = i" for j using assms unfolding linked_def by (metis option.inject prod.inject)
  moreover have "j = k" if "nw_listeners s j = Some (i, p)" for j p
    using assms that unfolding linked_def by (metis option.inject)
  ultimately show ?thesis using assms unfolding linked_def leave_def by auto
qed

lemma leave_attempts:
  assumes "attempts_ok mp mw s" "nw_connections s i = Some k"
  shows "attempts_ok mp mw (leave i k s)"
proof -
  have "attempt_ok mp mw (leave i k s) a" if "nw_attempts s k' = Some a" for k' a
  proof -
    have ok: "attempt_ok mp mw s a" using assms(1) that by (simp add: attempts_ok_def)
    show ?thesis
      using ok assms(2)
      by (cases "at_stage a"; cases "at_identifier a = i") (auto simp: attempt_ok_def leave_def slot_outlives_def)
  qed
  then show ?thesis using assms(1) by (simp add: attempts_ok_def leave_def registering_def)
qed

lemma leave_timers: "timers_ok mp s \<Longrightarrow> timers_ok mp (leave i k s)"
  by (simp add: timers_ok_def leave_def slot_outlives_def)

lemma inv_leave:
  assumes "net_inv mp mw s" "nw_connections s i = Some k"
  shows "net_inv mp mw (leave i k s)"
proof -
  note inv = net_invD [OF assms(1)]
  have "counted (s\<lparr> nw_listeners := (nw_listeners s)(k := None) \<rparr>)" using inv(1) by (simp add: counted_def)
  then have "counted (leave i k s)" unfolding leave_def using counted_close assms(2) by simp
  moreover have "fresh (leave i k s)" using inv(3) by (simp add: fresh_def leave_def)
  ultimately show ?thesis
    using leave_linked [OF inv(2) assms(2)] leave_attempts [OF inv(4) assms(2)] leave_timers [OF inv(5)]
    by (simp add: net_inv_def)
qed

lemma close_detached:
  assumes "linked mp s" "nw_connections s i = Some k"
  shows "handleWebsocketClose i (detach_stale i k s) = leave i k s"
proof -
  have "nw_closeHandlers s i = Some k" using assms by (simp add: linked_def)
  then show ?thesis
    by (simp add: detach_stale_def leave_def handleWebsocketClose_def count_down_def Let_def split: option.split)
qed

lemma terminate_detach: "terminate k (detach_stale i j s) = detach_stale i j (terminate k s)"
  by (simp add: terminate_def detach_stale_def split: option.split)

lemma inv_stage:
  assumes "net_inv mp mw s" "nw_attempts s k = Some a" "attempt_ok mp mw s (a\<lparr> at_stage := g \<rparr>)"
    and "\<And>t k'. g = Registering t \<Longrightarrow> \<not> registering (at_identifier a) k' s"
  shows "net_inv mp mw (set_stage k g s)"
proof -
  note inv = net_invD [OF assms(1)]
  have r: "registering i k' (set_stage k g s) \<longleftrightarrow>
      (if k' = k then at_identifier a = i \<and> (\<exists>t. g = Registering t) else registering i k' s)" for i k'
    using assms(2) by (auto simp: registering_def)
  have "attempts_ok mp mw (set_stage k g s)"
    unfolding attempts_ok_def
  proof (intro conjI allI impI)
    fix k' b assume "nw_attempts (set_stage k g s) k' = Some b"
    then show "attempt_ok mp mw (set_stage k g s) b"
      using assms(2,3) inv(4) by (auto simp: attempts_ok_def attempt_ok_cong [of "set_stage k g s" s] split: if_splits)
  next
    fix i k1 k2 assume "registering i k1 (set_stage k g s)" "registering i k2 (set_stage k g s)"
    then show "k1 = k2" using r assms(4) inv(4) unfolding attempts_ok_def by metis
  qed
  moreover have "linked mp (set_stage k g s)" using inv(2) assms(2) by (auto simp: linked_def)
  moreover have "fresh (set_stage k g s)" using inv(3) assms(2) by (auto simp: fresh_def)
  ultimately show ?thesis
    using inv(1,5) by (simp add: net_inv_def counted_def timers_ok_def slot_outlives_def)
qed

lemma inv_reject:
  assumes "net_inv mp mw s"
  shows "net_inv mp mw (reject k s)"
proof -
  note inv = net_invD [OF assms]
  have "attempts_ok mp mw (reject k s)"
    using inv(4) unfolding attempts_ok_def
    by (auto simp: attempt_ok_cong [of "reject k s" s] registering_def split: if_splits)
  then show ?thesis
    using inv by (auto simp: net_inv_def counted_def linked_def fresh_def timers_ok_def slot_outlives_def)
qed


text \<open>Slots and timers.\<close>

lemma no_timers:
  assumes "timers_ok mp s" "nw_connections s i = None"
  shows "nw_pingTimers s i = None" "nw_pongTimeouts s i = None"
proof -
  have "nw_pingTimers s i \<noteq> Some al" "nw_pongTimeouts s i \<noteq> Some al" for al
    using assms unfolding timers_ok_def by fastforce+
  then show "nw_pingTimers s i = None" "nw_pongTimeouts s i = None" by (metis option.exhaust)+
qed

lemma inv_slot:
  assumes "net_inv mp mw s" "nw_connections s i = None" "\<not> slot_outlives i (nw_now s) s"
  shows "net_inv mp mw (s\<lparr> nw_slots := (nw_slots s)(i \<mapsto> d) \<rparr>)"
proof -
  note inv = net_invD [OF assms(1)]
  let ?s = "s\<lparr> nw_slots := (nw_slots s)(i \<mapsto> d) \<rparr>"
  have o: "slot_outlives j t ?s = slot_outlives j t s" if "j \<noteq> i" for j t using that by (simp add: slot_outlives_def)
  have "attempt_ok mp mw ?s a" if "attempt_ok mp mw s a" for a
  proof (cases "at_identifier a = i")
    case True
    then show ?thesis using that assms(2,3) outlives_mono [of i _ s "nw_now s"]
      by (auto simp: attempt_ok_def split: stage.splits)
  next
    case False
    then show ?thesis using that by (auto simp: attempt_ok_def o split: stage.splits)
  qed
  then have "attempts_ok mp mw ?s" using inv(4) by (simp add: attempts_ok_def registering_def)
  moreover have "timers_ok mp ?s"
    using inv(5) no_timers [OF inv(5) assms(2)] unfolding timers_ok_def by (auto simp: slot_outlives_def)
  ultimately show ?thesis using inv(1-3) by (simp add: net_inv_def counted_def linked_def fresh_def)
qed

lemma inv_drop_slot:
  assumes "net_inv mp mw s" "nw_connections s i = None" "\<And>k. \<not> registering i k s"
  shows "net_inv mp mw (s\<lparr> nw_slots := (nw_slots s)(i := None) \<rparr>)"
proof -
  note inv = net_invD [OF assms(1)]
  let ?s = "s\<lparr> nw_slots := (nw_slots s)(i := None) \<rparr>"
  have o: "slot_outlives j t ?s = slot_outlives j t s" if "j \<noteq> i" for j t using that by (simp add: slot_outlives_def)
  have "attempt_ok mp mw ?s a" if "nw_attempts s k = Some a" for k a
  proof -
    have ok: "attempt_ok mp mw s a" using inv(4) that by (simp add: attempts_ok_def)
    show ?thesis
    proof (cases "at_identifier a = i")
      case True
      then have "at_stage a \<noteq> Registering t" for t using assms(3) that by (auto simp: registering_def)
      then show ?thesis using ok assms(2) True by (auto simp: attempt_ok_def split: stage.splits)
    next
      case False
      then show ?thesis using ok by (auto simp: attempt_ok_def o split: stage.splits)
    qed
  qed
  then have "attempts_ok mp mw ?s" using inv(4) by (simp add: attempts_ok_def registering_def)
  moreover have "timers_ok mp ?s"
    using inv(5) no_timers [OF inv(5) assms(2)] unfolding timers_ok_def by (auto simp: slot_outlives_def)
  ultimately show ?thesis using inv(1-3) by (simp add: net_inv_def counted_def linked_def fresh_def)
qed

lemma inv_claim:
  assumes "net_inv mp mw s" "nw_attempts s k = Some a" "mw < 3 * mp"
    and "nw_connections s (at_identifier a) = None \<or> slot_held (at_identifier a) s"
  shows "net_inv mp mw (claim_slot mw k a s)"
proof (cases "slot_held (at_identifier a) s")
  case True
  then show ?thesis using inv_reject [OF assms(1)] by (simp add: claim_slot_def)
next
  case False
  let ?i = "at_identifier a"
  let ?s = "s\<lparr> nw_slots := (nw_slots s)(?i \<mapsto> nw_now s + 3 * at_ping a) \<rparr>"
  have n: "nw_connections s ?i = None" "\<not> slot_outlives ?i (nw_now s) s"
    using False assms(4) by (simp_all add: slot_held_outlives)
  have ok: "attempt_ok mp mw s a" using net_invD(4) [OF assms(1)] assms(2) by (simp add: attempts_ok_def)
  have "attempt_ok mp mw ?s (a\<lparr> at_stage := Registering (nw_now s + mw) \<rparr>)"
    using ok n assms(3) by (simp add: attempt_ok_def slot_outlives_def)
  moreover have "\<not> registering ?i k' ?s" for k'
  proof
    assume "registering ?i k' ?s"
    then obtain b t where b: "nw_attempts s k' = Some b" "at_stage b = Registering t" "at_identifier b = ?i"
      by (auto simp: registering_def)
    then have "attempt_ok mp mw s b" using net_invD(4) [OF assms(1)] by (simp add: attempts_ok_def)
    then show False using b n(2) outlives_mono by (auto simp: attempt_ok_def)
  qed
  ultimately show ?thesis
    using inv_stage [OF inv_slot [OF assms(1) n], where k = k and a = a and g = "Registering (nw_now s + mw)"] assms(2) False
    by (simp add: claim_slot_def)
qed

lemma inv_next_ping:
  assumes "net_inv mp mw s" "nw_connections s i = Some k" "mp \<le> p" "0 < p" "mw < 3 * mp" "slot_held i s"
    and "nw_pingTimers s i = None"
  shows "net_inv mp mw (pong_received i k p s)"
proof -
  note inv = net_invD [OF assms(1)]
  let ?d = "nw_now s + 3 * p"
  let ?s = "s\<lparr> nw_pongTimeouts := (nw_pongTimeouts s)(i := None),
              nw_pingTimers := (nw_pingTimers s)(i \<mapsto> \<lparr> al_due = nw_now s + p, al_socket = k, al_ping = p \<rparr>),
              nw_slots := (nw_slots s)(i \<mapsto> ?d) \<rparr>"
  obtain d where "nw_slots s i = Some d" "nw_now s < d" using assms(6) by (auto simp: slot_held_def split: option.splits)
  then have eq: "pong_received i k p s = ?s"
    using assms(7) by (simp add: pong_received_def ping_def slot_held_def)
  have o: "slot_outlives j t ?s = (if j = i then t < ?d else slot_outlives j t s)" for j t by (simp add: slot_outlives_def)
  have "attempt_ok mp mw ?s a" if "attempt_ok mp mw s a" for a
    using that assms(2,3,5) by (auto simp: attempt_ok_def o split: stage.splits)
  then have "attempts_ok mp mw ?s" using inv(4) by (simp add: attempts_ok_def registering_def)
  moreover have "timers_ok mp ?s"
    using inv(5) assms(2-4) unfolding timers_ok_def o by auto
  ultimately show ?thesis using inv(1-3) unfolding eq by (simp add: net_inv_def counted_def linked_def fresh_def)
qed

lemma connection_held:
  assumes "net_inv mp mw s" "nw_connections s i = Some k" "k \<in> nw_open s"
  shows "slot_held i s"
  using net_invD(5) [OF assms(1)] assms(2,3) unfolding timers_ok_def slot_held_outlives
  by (metis (no_types, lifting) le_add1 le_trans not_None_eq outlives_mono)

text \<open>The state between the registration and the first ping satisfies the invariant up to the timers of the new
  connection, so both are taken together.\<close>

lemma inv_registered:
  assumes i_def: "i = at_identifier a"
    and s1_def: "s1 = count_up (at_tenant a) (s\<lparr> nw_attempts := (nw_attempts s)(k := None), nw_connections := (nw_connections s)(i \<mapsto> k) \<rparr>)"
    and s2_def: "s2 = s1\<lparr> nw_listeners := (nw_listeners s1)(k \<mapsto> (i, at_ping a)), nw_closeHandlers := (nw_closeHandlers s1)(i \<mapsto> k) \<rparr>"
    and reg: "net_inv mp mw s" "nw_attempts s k = Some a" "nw_connections s i = None" "slot_outlives i (nw_now s) s"
    "\<And>k'. \<not> registering i k' (reject k s)" "jitter < at_ping a" "mw < 3 * mp" "mp \<le> at_ping a"
  shows "net_inv mp mw (ping i k (at_ping a) jitter s2)"
proof -
  note inv = net_invD [OF reg(1)]
  let ?d = "nw_now s + 3 * at_ping a" and ?p = "at_ping a"
  let ?al = "\<lparr> al_due = nw_now s + ?p + jitter, al_socket = k, al_ping = ?p \<rparr>"
  note nt = no_timers [OF inv(5) reg(3)]
  have eq: "ping i k ?p jitter s2 = s2\<lparr> nw_pingTimers := (nw_pingTimers s)(i \<mapsto> ?al), nw_slots := (nw_slots s)(i \<mapsto> ?d) \<rparr>"
    using nt(1) reg(4)
    by (simp add: ping_def s2_def s1_def count_up_def slot_held_outlives slot_outlives_def)
  have "attempt_ok mp mw s a" using inv(4) reg(2) by (simp add: attempts_ok_def)
  then obtain t where t: "at_tenant a = tenant t" unfolding attempt_ok_def by blast
  have "counted (s\<lparr> nw_attempts := (nw_attempts s)(k := None) \<rparr>)" using inv(1) by (simp add: counted_def)
  then have "counted s1"
    unfolding s1_def
    using counted_open [of "s\<lparr> nw_attempts := (nw_attempts s)(k := None) \<rparr>" i "at_tenant a" k] reg(3) t
    by (simp add: i_def at_identifier_def tenant_id_of_identifier)
  then have 1: "counted (ping i k ?p jitter s2)" unfolding eq by (simp add: s2_def counted_def)
  have free: "nw_listeners s j \<noteq> Some (i, q)" for j q using inv(2) reg(3) unfolding linked_def by (metis option.distinct(1))
  have k: "nw_listeners s k = None" "k < nw_next s"
    using inv(2,3) reg(2) by (fastforce simp: linked_def, auto simp: fresh_def)
  have 2: "linked mp (ping i k ?p jitter s2)"
    using inv(2) reg(3,8) k free unfolding eq linked_def by (auto simp: s2_def s1_def count_up_def split: if_splits)
  have 3: "fresh (ping i k ?p jitter s2)" using inv(3) unfolding eq by (auto simp: s2_def s1_def count_up_def fresh_def)
  have "attempt_ok mp mw (ping i k ?p jitter s2) b" if "nw_attempts s k' = Some b" "k' \<noteq> k" for k' b
  proof -
    have ok: "attempt_ok mp mw s b" using inv(4) that by (simp add: attempts_ok_def)
    show ?thesis
    proof (cases "at_identifier b = i")
      case True
      then have "at_stage b \<noteq> Registering t" for t using reg(5) [of k'] that by (auto simp: registering_def)
      then show ?thesis
        using ok True reg(7,8) unfolding eq
        by (auto simp: attempt_ok_def s2_def s1_def count_up_def slot_outlives_def split: stage.splits)
    next
      case False
      then show ?thesis
        using ok unfolding eq
        by (auto simp: attempt_ok_def s2_def s1_def count_up_def slot_outlives_def split: stage.splits)
    qed
  qed
  moreover have "registering j k' (ping i k ?p jitter s2) \<longleftrightarrow> k' \<noteq> k \<and> registering j k' s" for j k'
    unfolding eq by (simp add: registering_def s2_def s1_def count_up_def)
  ultimately have 4: "attempts_ok mp mw (ping i k ?p jitter s2)"
    using inv(4) unfolding attempts_ok_def eq by (auto simp: s2_def s1_def count_up_def split: if_splits)
  have 5: "timers_ok mp (ping i k ?p jitter s2)"
    using inv(5) nt reg(6,8) unfolding eq timers_ok_def
    by (auto simp: s2_def s1_def count_up_def slot_outlives_def)
  show ?thesis using 1 2 3 4 5 by (simp add: net_inv_def)
qed

lemma inv_register:
  assumes "net_inv mp mw s" "nw_attempts s k = Some a" "at_stage a = Registering t" "jitter < at_ping a" "mw < 3 * mp"
  shows "net_inv mp mw (registered ok jitter k a s)"
proof -
  note inv = net_invD [OF assms(1)]
  let ?i = "at_identifier a"
  have ok: "attempt_ok mp mw s a" using inv(4) assms(2) by (simp add: attempts_ok_def)
  have f: "nw_connections s ?i = None" "nw_now s \<le> t" "slot_outlives ?i t s" "mp \<le> at_ping a"
    using ok assms(3) by (simp_all add: attempt_ok_def)
  have only: "\<not> registering ?i k' (reject k s)" for k'
    using inv(4) assms(2,3) unfolding attempts_ok_def registering_def by (auto split: if_splits)
  show ?thesis
  proof (cases ok)
    case False
    have eq: "reject k (s\<lparr> nw_slots := (nw_slots s)(?i := None) \<rparr>) = (reject k s)\<lparr> nw_slots := (nw_slots (reject k s))(?i := None) \<rparr>"
      by (simp add: reject_def)
    have "net_inv mp mw (reject k (s\<lparr> nw_slots := (nw_slots s)(?i := None) \<rparr>))"
      unfolding eq by (rule inv_drop_slot [OF inv_reject [OF assms(1)] _ only]) (use f(1) in simp)
    then show ?thesis using False by (simp add: registered_def)
  next
    case True
    let ?s1 = "count_up (at_tenant a) (s\<lparr> nw_attempts := (nw_attempts s)(k := None), nw_connections := (nw_connections s)(?i \<mapsto> k) \<rparr>)"
    let ?s2 = "?s1\<lparr> nw_listeners := (nw_listeners ?s1)(k \<mapsto> (?i, at_ping a)), nw_closeHandlers := (nw_closeHandlers ?s1)(?i \<mapsto> k) \<rparr>"
    have eq: "registered ok jitter k a s = ping ?i k (at_ping a) jitter ?s2" using True by (simp add: registered_def Let_def)
    show ?thesis
      unfolding eq by (rule inv_registered [OF refl refl refl assms(1,2)]) (use f assms(4,5) only outlives_mono [OF f(3,2)] in simp_all)
  qed
qed


lemma inv_limit:
  assumes "net_inv mp mw s" "nw_attempts s k = Some a" "mw < 3 * mp"
  shows "net_inv mp mw (limit_checked limit mw k a s)"
proof (cases "limit_exceeded limit (at_tenant a) s")
  case True
  then show ?thesis using inv_reject [OF assms(1)] by (simp add: limit_checked_def)
next
  case False
  let ?i = "at_identifier a"
  show ?thesis
  proof (cases "nw_connections s ?i")
    case None
    then show ?thesis using inv_claim [OF assms] False by (simp add: limit_checked_def)
  next
    case (Some old)
    let ?s = "leave ?i old (terminate old s)"
    have t: "net_inv mp mw (terminate old s)" "nw_connections (terminate old s) ?i = Some old"
      using inv_terminate [OF assms(1)] Some by simp_all
    have eq: "handleWebsocketClose ?i (terminate old (detach_stale ?i old s)) = ?s"
      unfolding terminate_detach by (rule close_detached [OF net_invD(2) [OF t(1)] t(2)])
    have a: "nw_attempts ?s k = Some a" using assms(2) by (simp add: leave_def)
    have "attempt_ok mp mw s a" using net_invD(4) [OF assms(1)] assms(2) by (simp add: attempts_ok_def)
    then have "attempt_ok mp mw ?s (a\<lparr> at_stage := Replacing (nw_now s + mw) \<rparr>)" by (simp add: attempt_ok_def leave_def)
    then have "net_inv mp mw (set_stage k (Replacing (nw_now s + mw)) ?s)"
      by (intro inv_stage [OF inv_leave [OF t] a]) simp_all
    then show ?thesis using Some False by (simp add: limit_checked_def eq)
  qed
qed

lemma inv_replaced:
  assumes "net_inv mp mw s" "nw_attempts s k = Some a" "at_stage a = Replacing t" "mw < 3 * mp"
  shows "net_inv mp mw (claim_slot mw k a s)"
proof -
  have "attempt_ok mp mw s a" using net_invD(4) [OF assms(1)] assms(2) by (simp add: attempts_ok_def)
  then have "nw_connections s (at_identifier a) = None \<or> slot_held (at_identifier a) s"
    using assms(3) outlives_mono unfolding slot_held_outlives attempt_ok_def by fastforce
  then show ?thesis using inv_claim [OF assms(1,2,4)] by blast
qed

lemma inv_closed:
  assumes "net_inv mp mw s"
  shows "net_inv mp mw (socket_closed k s)"
proof -
  let ?s = "s\<lparr> nw_open := nw_open s - {k}, nw_closing := nw_closing s - {k} \<rparr>"
  have s: "net_inv mp mw ?s"
    using net_invD [OF assms] unfolding net_inv_def
    by (auto simp: counted_cong [of ?s s] attempts_ok_cong [of ?s s] linked_def fresh_def timers_ok_def slot_outlives_def)
  show ?thesis
  proof (cases "nw_listeners s k")
    case None
    then show ?thesis using s by (simp add: socket_closed_def)
  next
    case (Some q)
    obtain i p where q: "q = (i, p)" by fastforce
    have "nw_connections ?s i = Some k" using net_invD(2) [OF assms] Some q by (auto simp: linked_def)
    then show ?thesis using inv_leave [OF s] Some q by (simp add: socket_closed_def leave_def)
  qed
qed

lemma inv_shutdown_one:
  assumes "net_inv mp mw s" "nw_connections s i = Some k"
  shows "net_inv mp mw (shutdown_one i k s)"
  unfolding shutdown_one_def close_detached [OF net_invD(2) [OF assms(1)] assms(2)] by (rule inv_leave [OF assms])

lemma inv_ping_due:
  assumes "net_inv mp mw s" "nw_pingTimers s i = Some al" "al_due al \<le> nw_now s"
  shows "net_inv mp mw (ping_due i al s)"
proof -
  note inv = net_invD [OF assms(1)]
  have al: "nw_connections s i = Some (al_socket al)" "al_due al = nw_now s" "mp \<le> al_ping al"
    "slot_outlives i (al_due al + al_ping al) s"
    using inv(5) assms(2,3) unfolding timers_ok_def by force+
  have "timers_ok mp (ping_due i al s)"
    using inv(5) al unfolding timers_ok_def by (auto simp: ping_due_def slot_outlives_def)
  moreover have "attempts_ok mp mw (ping_due i al s)"
    using inv(4) by (subst attempts_ok_cong [of _ s]) (simp_all add: ping_due_def)
  ultimately show ?thesis using inv(1-3) by (simp add: net_inv_def counted_def linked_def fresh_def ping_due_def)
qed

lemma inv_pong_timeout:
  assumes "net_inv mp mw s" "nw_pongTimeouts s i = Some al"
  shows "net_inv mp mw (pong_timeout i al s)"
proof -
  note inv = net_invD [OF assms(1)]
  let ?k = "al_socket al"
  have k: "nw_connections s i = Some ?k" using inv(5) assms(2) by (auto simp: timers_ok_def)
  have only: "nw_connections s j \<noteq> Some ?k" if "j \<noteq> i" for j
    using inv(2) k that unfolding linked_def by (metis option.inject prod.inject)
  have "timers_ok mp (pong_timeout i al s)"
    using inv(5) only k unfolding timers_ok_def pong_timeout_def by (auto simp: slot_outlives_def)
  moreover have "attempts_ok mp mw (pong_timeout i al s)"
    using inv(4) by (subst attempts_ok_cong [of _ s]) (simp_all add: pong_timeout_def)
  ultimately show ?thesis using inv(1-3) unfolding net_inv_def by (auto simp: counted_def linked_def fresh_def pong_timeout_def)
qed

lemma inv_pong:
  assumes "net_inv mp mw s" "nw_listeners s k = Some (i, p)" "k \<in> nw_open s" "mw < 3 * mp" "0 < mp"
  shows "net_inv mp mw (pong_received i k p s)"
proof -
  note inv = net_invD [OF assms(1)]
  have c: "nw_connections s i = Some k" "mp \<le> p" using inv(2) assms(2) by (auto simp: linked_def)
  have held: "slot_held i s" by (rule connection_held [OF assms(1) c(1) assms(3)])
  show ?thesis
  proof (cases "nw_pingTimers s i")
    case None
    then show ?thesis using inv_next_ping [OF assms(1) c _ assms(4) held None] assms(5) c(2) by simp
  next
    case (Some al)
    then have "nw_pongTimeouts s i = None" using inv(5) by (auto simp: timers_ok_def)
    then have "pong_received i k p s = s" using Some by (simp add: pong_received_def ping_def fun_upd_idem)
    then show ?thesis using assms(1) by simp
  qed
qed


lemma inv_check:
  assumes "net_inv mp mw s" "nw_attempts s k = Some a" "at_stage a = Checking"
  shows "net_inv mp mw (station_checked ok k s)"
proof -
  have "attempt_ok mp mw s (a\<lparr> at_stage := Limiting \<rparr>)"
    using net_invD(4) [OF assms(1)] assms(2) by (auto simp: attempts_ok_def attempt_ok_def)
  then show ?thesis
    using inv_stage [OF assms(1,2), of Limiting] inv_reject [OF assms(1)] by (simp add: station_checked_def)
qed

lemma inv_connect:
  assumes "net_inv mp mw s" "mp \<le> p"
  shows "net_inv mp mw (new_connection (tenant t) name p s)"
proof -
  note inv = net_invD [OF assms(1)]
  let ?s = "new_connection (tenant t) name p s"
  let ?a = "\<lparr> at_tenant = tenant t, at_name = name, at_ping = p, at_stage = Checking \<rparr>"
  have c: "attempt_ok mp mw ?s b = attempt_ok mp mw s b" for b
    by (rule attempt_ok_cong) (simp_all add: new_connection_def)
  have "attempt_ok mp mw s ?a" using assms(2) by (simp add: attempt_ok_def)
  then have "attempt_ok mp mw ?s b" if "nw_attempts ?s k = Some b" for k b
    using that inv(4) unfolding c by (auto simp: attempts_ok_def new_connection_def split: if_splits)
  moreover have "registering i k ?s \<longrightarrow> registering i k s" for i k
    by (auto simp: registering_def new_connection_def split: if_splits)
  ultimately have "attempts_ok mp mw ?s" using inv(4) unfolding attempts_ok_def by blast
  moreover have n: "nw_listeners s (nw_next s) = None"
    using inv(2) unfolding linked_def by (metis less_irrefl not_None_eq surj_pair)
  then have "linked mp ?s" using inv(2) unfolding linked_def by (auto simp: new_connection_def less_SucI)
  moreover have "fresh ?s" using inv(3) by (auto simp: fresh_def new_connection_def less_SucI)
  moreover have "timers_ok mp ?s"
  proof -
    have "nw_connections s i \<noteq> Some (nw_next s)" for i using n inv(2) by (auto simp: linked_def)
    then show ?thesis using inv(5) unfolding timers_ok_def by (auto simp: new_connection_def slot_outlives_def)
  qed
  ultimately show ?thesis using inv(1) by (simp add: net_inv_def counted_def new_connection_def)
qed

lemma inv_pass:
  assumes "net_inv mp mw s" "may_pass d s"
  shows "net_inv mp mw (s\<lparr> nw_now := nw_now s + d \<rparr>)"
proof -
  note inv = net_invD [OF assms(1)]
  let ?s = "s\<lparr> nw_now := nw_now s + d \<rparr>"
  have "attempt_ok mp mw ?s a" if "nw_attempts s k = Some a" for k a
  proof -
    have ok: "attempt_ok mp mw s a" using inv(4) that by (simp add: attempts_ok_def)
    have "nw_now s + d \<le> t" if "at_stage a = Replacing t \<or> at_stage a = Registering t" for t
      using assms(2) \<open>nw_attempts s k = Some a\<close> that unfolding may_pass_def by blast
    then show ?thesis using ok by (auto simp: attempt_ok_def slot_outlives_def split: stage.splits)
  qed
  then have "attempts_ok mp mw ?s" using inv(4) by (simp add: attempts_ok_def registering_def)
  moreover have "timers_ok mp ?s"
    using inv(5) assms(2) unfolding timers_ok_def may_pass_def by (simp add: slot_outlives_def)
  ultimately show ?thesis using inv(1-3) by (simp add: net_inv_def counted_def linked_def fresh_def)
qed

lemma inv_send_frame: "net_inv mp mw s \<Longrightarrow> net_inv mp mw (snd (send_frame i s))"
  by (auto simp: send_frame_def inv_terminate split: option.split)

lemma net_inv_step:
  assumes "net_step mp mw limit s s'" "net_inv mp mw s" "mw < 3 * mp"
  shows "net_inv mp mw s'"
proof -
  have "0 < mp" using assms(3) by simp
  with assms show ?thesis
    by (cases rule: net_step.cases)
      (auto intro: inv_connect inv_check inv_limit inv_replaced inv_register inv_ping_due inv_pong_timeout inv_pong
        inv_closed inv_shutdown_one inv_send_frame inv_pass)
qed

text \<open>The invariant needs awaits shorter than the life of a slot; the intervals of one server are enough.\<close>

interpretation net_machine: transition_system "net_step mp mw limit" no_connections
  "\<lambda>s. mw < 3 * mp \<longrightarrow> net_inv mp mw s" for mp mw limit
  by unfold_locales (auto simp: inv_no_connections intro: net_inv_step)

lemmas net_reachable_inv = net_machine.reachable [rule_format]

section \<open>Properties\<close>




text \<open>So a frame for a station whose socket is open is written to it.\<close>

lemma frame_reaches_station:
  assumes "(net_step minPing maxWait limit)\<^sup>*\<^sup>* no_connections s" and "maxWait < 3 * minPing"
    and "nw_connections s i = Some k" and "k \<in> nw_open s"
  shows "send_frame i s = (Written k, s)"
  using connection_held [OF net_reachable_inv [OF assms(1,2)] assms(3,4)] assms(3,4) by (simp add: send_frame_def)

section \<open>What the awaits let through\<close>

lemmas net_op_defs = new_connection_def station_checked_def set_stage_def reject_def limit_checked_def limit_exceeded_def
  claim_slot_def slot_held_def registered_def count_up_def ping_def socket_closed_def ping_due_def pong_timeout_def terminate_def
  no_connections_def

definition the_attempt :: "nat \<Rightarrow> net \<Rightarrow> attempt" where
  "the_attempt k s = the (nw_attempts s k)"

text \<open>One attempt from its connection to the registration.\<close>

definition begin_attempt :: "nat \<Rightarrow> js_num \<Rightarrow> string \<Rightarrow> (js_num \<Rightarrow> nat option) \<Rightarrow> nat \<Rightarrow> net \<Rightarrow> net" where
  "begin_attempt p t name limit mw s =
     (let k = nw_next s; s = station_checked True k (new_connection t name p s)
      in limit_checked limit mw k (the_attempt k s) s)"

definition finish_attempt :: "nat \<Rightarrow> net \<Rightarrow> net" where
  "finish_attempt k s = registered True 0 k (the_attempt k s) s"

lemma begin_attempt_steps:
  assumes "mp \<le> p"
  shows "(net_step mp mw limit)\<^sup>*\<^sup>* s (begin_attempt p (tenant t) name limit mw s)"
proof -
  let ?k = "nw_next s" and ?s1 = "new_connection (tenant t) name p s"
  let ?s2 = "station_checked True ?k ?s1"
  let ?a = "\<lambda>g. \<lparr> at_tenant = tenant t, at_name = name, at_ping = p, at_stage = g \<rparr>"
  have 1: "net_step mp mw limit s ?s1" using assms by (rule connect)
  have 2: "net_step mp mw limit ?s1 ?s2" by (rule check [where a = "?a Checking"]) (simp_all add: new_connection_def)
  have "nw_attempts ?s2 ?k = Some (?a Limiting)" by (simp add: new_connection_def station_checked_def)
  then have 3: "net_step mp mw limit ?s2 (limit_checked limit mw ?k (the_attempt ?k ?s2) ?s2)"
    by (intro limit [where a = "the_attempt ?k ?s2"]) (simp_all add: the_attempt_def)
  show ?thesis
    unfolding begin_attempt_def Let_def
    by (rule rtranclp.rtrancl_into_rtrancl [OF rtranclp.rtrancl_into_rtrancl [OF r_into_rtranclp [where r = "net_step mp mw limit", OF 1] 2] 3])
qed

lemma finish_attempt_step:
  assumes "nw_attempts s k = Some a" "at_stage a = Registering t" "0 < at_ping a"
  shows "net_step mp mw limit s (finish_attempt k s)"
  unfolding finish_attempt_def the_attempt_def assms(1) option.sel by (rule register [OF assms])

lemma net_run_step:
  "(net_step mp mw limit)\<^sup>*\<^sup>* s s' \<Longrightarrow> net_step mp mw limit s' s'' \<Longrightarrow> (net_step mp mw limit)\<^sup>*\<^sup>* s s''"
  by (rule rtranclp.rtrancl_into_rtrancl)

lemma finish_attempt_fields:
  assumes "nw_attempts s k = Some a"
  shows "nw_counts (finish_attempt k s) = (nw_counts s)(at_tenant a \<mapsto> Suc (case nw_counts s (at_tenant a) of None \<Rightarrow> 0 | Some n \<Rightarrow> n))"
    "nw_attempts (finish_attempt k s) = (nw_attempts s)(k := None)"
    "nw_connections (finish_attempt k s) = (nw_connections s)(at_identifier a \<mapsto> k)"
  using assms by (simp_all add: finish_attempt_def the_attempt_def registered_def count_up_def ping_def Let_def)

lemma begin_attempt_claims:
  assumes "\<not> limit_exceeded limit t s" "nw_connections s (createIdentifier t [name]) = None" "\<not> slot_held (createIdentifier t [name]) s"
  shows "begin_attempt p t name limit mw s =
    s\<lparr> nw_next := Suc (nw_next s), nw_open := insert (nw_next s) (nw_open s),
       nw_attempts := (nw_attempts s)(nw_next s \<mapsto> \<lparr> at_tenant = t, at_name = name, at_ping = p, at_stage = Registering (nw_now s + mw) \<rparr>),
       nw_slots := (nw_slots s)(createIdentifier t [name] \<mapsto> nw_now s + 3 * p) \<rparr>"
proof -
  let ?k = "nw_next s" and ?i = "createIdentifier t [name]"
  let ?a = "\<lambda>g. \<lparr> at_tenant = t, at_name = name, at_ping = p, at_stage = g \<rparr>"
  let ?s2 = "s\<lparr> nw_next := Suc ?k, nw_open := insert ?k (nw_open s), nw_attempts := (nw_attempts s)(?k \<mapsto> ?a Limiting) \<rparr>"
  have s2: "station_checked True ?k (new_connection t name p s) = ?s2"
    by (simp add: station_checked_def new_connection_def set_stage_def)
  have i: "at_identifier (?a Limiting) = ?i" by (simp add: at_identifier_def)
  have "slot_held ?i ?s2 = slot_held ?i s" by (cases "nw_slots s ?i") (simp_all add: slot_held_def)
  moreover have "limit_exceeded limit t ?s2 = limit_exceeded limit t s" by (cases "limit t") (simp_all add: limit_exceeded_def)
  ultimately have "limit_checked limit mw ?k (?a Limiting) ?s2 =
      set_stage ?k (Registering (nw_now s + mw)) (?s2\<lparr> nw_slots := (nw_slots s)(?i \<mapsto> nw_now s + 3 * p) \<rparr>)"
    using assms by (simp add: limit_checked_def claim_slot_def i)
  then show ?thesis
    unfolding begin_attempt_def Let_def s2 by (simp add: the_attempt_def set_stage_def)
qed

text \<open>The limit of a tenant is checked before a connection is counted: two stations that connect at the same
  time both pass a limit of one.\<close>

lemma tenant_limit_exceeded:
  "\<exists>s. (net_step 1 1 (\<lambda>t. Some 1))\<^sup>*\<^sup>* no_connections s \<and> nw_counts s (tenant 1) = Some 2"
proof -
  let ?limit = "\<lambda>t :: js_num. Some (1 :: nat)"
  let ?s1 = "begin_attempt 1 (tenant 1) ''a'' ?limit 1 no_connections"
  let ?s2 = "begin_attempt 1 (tenant 1) ''b'' ?limit 1 ?s1"
  let ?a = "\<lambda>n. \<lparr> at_tenant = tenant 1, at_name = n, at_ping = 1, at_stage = Registering 1 \<rparr>"
  have i: "createIdentifier (tenant 1) [''a''] \<noteq> createIdentifier (tenant 1) [''b'']" by (simp add: createIdentifier_def)
  have s1: "?s1 = no_connections\<lparr> nw_next := 1, nw_open := {0}, nw_attempts := [0 \<mapsto> ?a ''a''],
      nw_slots := [createIdentifier (tenant 1) [''a''] \<mapsto> 3] \<rparr>"
    by (subst begin_attempt_claims) (simp_all add: limit_exceeded_def slot_held_def no_connections_def)
  have s2: "?s2 = no_connections\<lparr> nw_next := 2, nw_open := {1, 0}, nw_attempts := [0 \<mapsto> ?a ''a'', 1 \<mapsto> ?a ''b''],
      nw_slots := [createIdentifier (tenant 1) [''a''] \<mapsto> 3, createIdentifier (tenant 1) [''b''] \<mapsto> 3] \<rparr>"
    unfolding s1 by (subst begin_attempt_claims) (use i in \<open>simp_all add: limit_exceeded_def slot_held_def no_connections_def\<close>)
  let ?s3 = "finish_attempt 0 ?s2" and ?s4 = "finish_attempt 1 (finish_attempt 0 ?s2)"
  have a3: "nw_attempts ?s3 1 = Some (?a ''b'')" "nw_counts ?s3 = [tenant 1 \<mapsto> 1]"
    unfolding s2 by (simp_all add: finish_attempt_fields no_connections_def)
  have 1: "(net_step 1 1 ?limit)\<^sup>*\<^sup>* no_connections ?s2"
    by (rule rtranclp_trans [OF begin_attempt_steps begin_attempt_steps]) simp_all
  have 2: "net_step 1 1 ?limit ?s2 ?s3" unfolding s2 by (rule finish_attempt_step [where a = "?a ''a''"]) (simp_all add: no_connections_def)
  have 3: "net_step 1 1 ?limit ?s3 ?s4" by (rule finish_attempt_step [OF a3(1)]) simp_all
  have "(net_step 1 1 ?limit)\<^sup>*\<^sup>* no_connections ?s4"
    by (rule net_run_step [OF net_run_step [OF 1 2] 3])
  moreover have "nw_counts ?s4 (tenant 1) = Some 2"
    unfolding finish_attempt_fields(1) [OF a3(1)] a3(2) by simp
  ultimately show ?thesis by blast
qed


text \<open>A registration that takes longer than its slot lives lets a second connection of the station claim the slot:
  one connection is counted twice. The bound in connections_counted cannot be dropped.\<close>

definition sole :: "nat \<Rightarrow> attempt" where
  "sole end = \<lparr> at_tenant = tenant 1, at_name = ''a'', at_ping = 1, at_stage = Registering end \<rparr>"

lemma sole_fields [simp]: "at_tenant (sole t) = tenant 1" "at_ping (sole t) = 1" "at_stage (sole t) = Registering t"
  "at_identifier (sole t) = createIdentifier (tenant 1) [''a'']"
  by (simp_all add: sole_def at_identifier_def)

lemma slow_registration_counted_twice:
  "\<exists>s. (net_step 1 3 (\<lambda>t. None))\<^sup>*\<^sup>* no_connections s \<and> nw_counts s (tenant 1) = Some 2 \<and>
     dom (nw_connections s) = {createIdentifier (tenant 1) [''a'']}"
proof -
  let ?i = "createIdentifier (tenant 1) [''a'']" and ?limit = "\<lambda>t :: js_num. None :: nat option"
  let ?s1 = "begin_attempt 1 (tenant 1) ''a'' ?limit 3 no_connections"
  let ?s2 = "?s1\<lparr> nw_now := nw_now ?s1 + 3 \<rparr>"
  let ?s3 = "begin_attempt 1 (tenant 1) ''a'' ?limit 3 ?s2"
  let ?s4 = "finish_attempt 0 ?s3" and ?s5 = "finish_attempt 1 (finish_attempt 0 ?s3)"
  have s1: "?s1 = no_connections\<lparr> nw_next := 1, nw_open := {0}, nw_attempts := [0 \<mapsto> sole 3], nw_slots := [?i \<mapsto> 3] \<rparr>"
    by (subst begin_attempt_claims) (simp_all add: limit_exceeded_def slot_held_def no_connections_def sole_def)
  have s3: "?s3 = no_connections\<lparr> nw_now := 3, nw_next := 2, nw_open := {1, 0}, nw_attempts := [0 \<mapsto> sole 3, 1 \<mapsto> sole 6],
      nw_slots := [?i \<mapsto> 6] \<rparr>"
    unfolding s1 by (subst begin_attempt_claims) (simp_all add: limit_exceeded_def slot_held_def no_connections_def sole_def)
  have a4: "nw_attempts ?s4 1 = Some (sole 6)" "nw_counts ?s4 = [tenant 1 \<mapsto> 1]" "nw_connections ?s4 = [?i \<mapsto> 0]"
    unfolding s3 by (simp_all add: finish_attempt_fields no_connections_def)
  have 1: "(net_step 1 3 ?limit)\<^sup>*\<^sup>* no_connections ?s1" by (rule begin_attempt_steps) simp
  have 2: "net_step 1 3 ?limit ?s1 ?s2"
    unfolding s1 by (rule pass) (simp add: may_pass_def no_connections_def)
  have 3: "(net_step 1 3 ?limit)\<^sup>*\<^sup>* ?s2 ?s3" by (rule begin_attempt_steps) simp
  have 4: "net_step 1 3 ?limit ?s3 ?s4"
    unfolding s3 by (rule finish_attempt_step [where a = "sole 3"]) (simp_all add: no_connections_def)
  have 5: "net_step 1 3 ?limit ?s4 ?s5" by (rule finish_attempt_step [OF a4(1)]) simp_all
  have 6: "(net_step 1 3 ?limit)\<^sup>*\<^sup>* no_connections ?s3"
    by (rule rtranclp_trans [OF net_run_step [OF 1 2] 3])
  have "(net_step 1 3 ?limit)\<^sup>*\<^sup>* no_connections ?s5"
    by (rule net_run_step [OF net_run_step [OF 6 4] 5])
  moreover have "nw_counts ?s5 (tenant 1) = Some 2"
    unfolding finish_attempt_fields(1) [OF a4(1)] a4(2) by simp
  moreover have "dom (nw_connections ?s5) = {?i}"
    unfolding finish_attempt_fields(3) [OF a4(1)] a4(3) by simp
  ultimately show ?thesis by blast
qed

text \<open>A station that goes away while it is being registered is registered all the same. No close event comes, the
  pong timeout finds a closed socket, and the connection stays in the tables and in the count of its tenant
  until the station connects again.\<close>

lemma dropped_station_stays_counted:
  "\<exists>s. (net_step 1 1 (\<lambda>t. None))\<^sup>*\<^sup>* no_connections s \<and> nw_counts s (tenant 1) = Some 1 \<and>
     nw_open s = {} \<and> nw_closing s = {} \<and> nw_pingTimers s = Map.empty \<and> nw_pongTimeouts s = Map.empty"
proof -
  let ?i = "createIdentifier (tenant 1) [''a'']" and ?limit = "\<lambda>t :: js_num. None :: nat option"
  let ?s1 = "begin_attempt 1 (tenant 1) ''a'' ?limit 1 no_connections"
  let ?s2 = "socket_closed 0 ?s1" and ?s3 = "finish_attempt 0 (socket_closed 0 ?s1)"
  let ?al = "\<lambda>t. \<lparr> al_due = t, al_socket = 0, al_ping = 1 \<rparr>"
  define s3 where "s3 = no_connections\<lparr> nw_next := 1, nw_connections := [?i \<mapsto> 0], nw_listeners := [0 \<mapsto> (?i, 1)],
      nw_closeHandlers := [?i \<mapsto> 0], nw_pingTimers := [?i \<mapsto> ?al 1], nw_counts := [tenant 1 \<mapsto> 1], nw_slots := [?i \<mapsto> 3] \<rparr>"
  define s4 where "s4 = s3\<lparr> nw_now := nw_now s3 + 1 \<rparr>"
  define s5 where "s5 = ping_due ?i (?al 1) s4"
  define s6 where "s6 = s5\<lparr> nw_now := nw_now s5 + 1 \<rparr>"
  define s7 where "s7 = pong_timeout ?i (?al 2) s6"
  have s1: "?s1 = no_connections\<lparr> nw_next := 1, nw_open := {0}, nw_attempts := [0 \<mapsto> sole 1], nw_slots := [?i \<mapsto> 3] \<rparr>"
    by (subst begin_attempt_claims) (simp_all add: limit_exceeded_def slot_held_def no_connections_def sole_def)
  have s2: "?s2 = no_connections\<lparr> nw_next := 1, nw_attempts := [0 \<mapsto> sole 1], nw_slots := [?i \<mapsto> 3] \<rparr>"
    unfolding s1 by (simp add: socket_closed_def no_connections_def)
  have s3: "?s3 = s3"
    unfolding s2 by (simp add: finish_attempt_def the_attempt_def registered_def count_up_def ping_def slot_held_def no_connections_def s3_def Let_def)
  have 1: "(net_step 1 1 ?limit)\<^sup>*\<^sup>* no_connections ?s1" by (rule begin_attempt_steps) simp
  have 2: "net_step 1 1 ?limit ?s1 ?s2" unfolding s1 by (rule close) simp
  have 3: "net_step 1 1 ?limit ?s2 s3"
    unfolding s3 [symmetric] s2 by (rule finish_attempt_step [where a = "sole 1"]) simp_all
  have 4: "net_step 1 1 ?limit s3 s4" unfolding s4_def by (rule pass) (simp add: may_pass_def s3_def no_connections_def)
  have 5: "net_step 1 1 ?limit s4 s5" unfolding s5_def by (rule ping_timer) (simp_all add: s4_def s3_def no_connections_def)
  have 6: "net_step 1 1 ?limit s5 s6"
    unfolding s6_def by (rule pass) (simp add: may_pass_def s5_def s4_def s3_def no_connections_def ping_due_def)
  have 7: "net_step 1 1 ?limit s6 s7"
    unfolding s7_def by (rule pong_timer) (simp_all add: s6_def s5_def s4_def s3_def no_connections_def ping_due_def)
  have "(net_step 1 1 ?limit)\<^sup>*\<^sup>* no_connections s7"
    by (rule net_run_step [OF net_run_step [OF net_run_step [OF net_run_step [OF net_run_step [OF net_run_step [OF 1 2] 3] 4] 5] 6] 7])
  moreover have "nw_counts s7 (tenant 1) = Some 1 \<and> nw_open s7 = {} \<and> nw_closing s7 = {} \<and>
      nw_pingTimers s7 = Map.empty \<and> nw_pongTimeouts s7 = Map.empty"
    by (simp add: s7_def s6_def s5_def s4_def s3_def no_connections_def ping_due_def pong_timeout_def)
  ultimately show ?thesis by blast
qed


section \<open>Witnesses\<close>

lemma one_connection:
  "\<exists>s. (net_step 1 1 (\<lambda>t. None))\<^sup>*\<^sup>* no_connections s \<and> nw_connections s = [createIdentifier (tenant 1) [''a''] \<mapsto> 0] \<and> 0 \<in> nw_open s"
proof -
  let ?i = "createIdentifier (tenant 1) [''a'']" and ?limit = "\<lambda>t :: js_num. None :: nat option"
  let ?s1 = "begin_attempt 1 (tenant 1) ''a'' ?limit 1 no_connections"
  have s1: "?s1 = no_connections\<lparr> nw_next := 1, nw_open := {0}, nw_attempts := [0 \<mapsto> sole 1], nw_slots := [?i \<mapsto> 3] \<rparr>"
    by (subst begin_attempt_claims) (simp_all add: limit_exceeded_def slot_held_def no_connections_def sole_def)
  have a: "nw_attempts ?s1 0 = Some (sole 1)" "nw_connections ?s1 = Map.empty" "nw_open ?s1 = {0}"
    unfolding s1 by (simp_all add: no_connections_def)
  have 1: "(net_step 1 1 ?limit)\<^sup>*\<^sup>* no_connections ?s1" by (rule begin_attempt_steps) simp
  have 2: "net_step 1 1 ?limit ?s1 (finish_attempt 0 ?s1)" by (rule finish_attempt_step [OF a(1)]) simp_all
  have "nw_open (finish_attempt 0 ?s1) = {0}"
    using a(3) by (simp add: finish_attempt_def registered_def count_up_def ping_def Let_def)
  then show ?thesis
    using net_run_step [OF 1 2] finish_attempt_fields(3) [OF a(1)] a(2) by (intro exI [of _ "finish_attempt 0 ?s1"]) simp
qed



end
