(* ===== verification/Spec2Isabelle.thy ===== *)
theory Spec2Isabelle
  imports Prelude Identifiers MemoryCache JsValue RpcMessage CallActions OcppValidator Messages Router
    SendCallRace BootNotification MeterValues Emaid IdTokens
    EmsPolicy EmsApply EmsAutoApply Authorization TransactionStore Costs Transactions TransactionFacts
    Regex Contents ChargingProfiles Totp LocalAuthList DeviceModel Certificates CertificateChains CertificateInstall SmartCharging MessageLog Webhooks ApiAuth Broker OcppModules Connections ConnectionLife
begin

text \<open>
  CitrineOS core: a model of the charging station management system of this repository and the
  theorems that make it correct.

  \<^bold>\<open>The program.\<close> Charging stations connect by websocket and speak OCPP 1.6, 2.0.1 or 2.1. A frame
  goes from the socket (packages/core, util/networkconnection) to the router
  (modules/OcppRouter), which matches it with a pending call in the cache, validates it and
  publishes it to the broker; modules subscribe to the actions their handlers declare, read and
  write the database, and answer or call through the router. Around this stand the webhooks,
  the certificates of the servers and stations, the energy management (EMS), and the HTTP API.
  The model follows this order. A class with state is a record, a method a function over it with
  the exceptions as values (exn + 'a, or an exn option), a table a list of rows in the order of
  their creation, and concurrency a step relation whose steps are the code between two awaits.

  \<^bold>\<open>Theories.\<close>

  \<^item> Prelude, JsValue, Identifiers: results and their bind, strings, numbers and JSON values as
    JavaScript has them, identifiers of stations (packages/base util/identifiers.ts). What
    Number(s), loose equality and property access do is modelled because the router uses it
    on frames that are not validated yet.
  \<^item> MemoryCache (util/cache/memory.ts): the cache with the timers of the event loop. The locale
    string_cache states what a client relies on and is interpreted on the cache; the theorems show
    that each operation implements an abstract map of values and deadlines.
  \<^item> RpcMessage, CallActions, OcppValidator, Messages (packages/base ocpp/rpc, interfaces/schema,
    interfaces/modules, util/request.ts): frames and their round trip, actions per version,
    validation and sanitizing, messages of the broker.
  \<^item> Router (router.ts, AbstractRouter.ts): every handler over the cache and a log of effects; one
    call at a time, responses matched with calls, malformed frames, at most one reply.
    SendCallRace: the interleavings of concurrent calls of sendCall.
  \<^item> MessageLog (model and repository OCPPMessage.ts, the correlation triggers of
    apps/ocpp-server/migrations): which response is joined to which request.
  \<^item> Webhooks (webhook.dispatcher.ts, Subscription.ts, DataApi.ts): subscriptions and the
    dispatcher with the tasks its awaits leave.
  \<^item> Broker, OcppModules (util/queue, AbstractModule.ts, OcppSender.ts): sending with a buffer that
    survives outages, subscriptions, dispatch to handlers, answers to failing handlers.
  \<^item> Connections, ConnectionLife (WebsocketNetworkConnection.ts, authenticator/): the decision about
    an upgrade request, and the life of connections, slots and timers as a timed relation.
  \<^item> ApiAuth (util/authorization): rules, providers and hook of the HTTP API. The locale
    auth_provider is interpreted on both providers.
  \<^item> BootNotification, DeviceModel (modules/Configuration, repository/DeviceModel.ts, handlers of
    reports and variables): boot protocol and the tables of the device model. The abstract view
    is the map of stored attributes.
  \<^item> IdTokens, Emaid, Regex, Contents (util/util/validator.ts, emaidCheckDigitCalculator.ts):
    validators. Regex gives regular expressions a declarative language and an executable test.
  \<^item> Authorization, LocalAuthList, Totp (RealTimeAuthorizer.ts, TransactionService.ts,
    LocalAuthListService.ts, TotpUtil.ts): who may charge, the lists stations keep.
  \<^item> TransactionStore, Transactions, TransactionFacts (repository/TransactionEvent.ts, the handlers
    of StartTransaction, StopTransaction, TransactionEvent): the tables and what the handlers
    make of them. MeterValues, Costs (MeterValueUtils.ts, packages/base money, CostCalculator.ts,
    CostNotifier.ts, Scheduler.ts): energy and cost.
  \<^item> ChargingProfiles, SmartCharging (parser.ts, validator.ts, InternalSmartCharging.ts,
    repository/ChargingProfile.ts and handlers): profiles that are accepted, computed and stored.
  \<^item> EmsPolicy, EmsApply, EmsAutoApply (modules/EMS): shares of the budget of a site, application of
    a plan, automatic application.
  \<^item> Certificates, CertificateChains, CertificateInstall (modules/Certificates, util/certificate,
    util/files/localStorage.ts): file storage, generation of chains, what a generation leaves on
    disk and in the table, and the installation of certificates on stations.

  \<^bold>\<open>Lemmas.\<close> The components that are state machines interpret the locale transition_system of
  Prelude with their step relation, initial state and invariant. Each theory has the lemmas of its operations (what each branch returns and leaves), the
  invariant of its state with one preservation lemma per operation, and then the properties,
  numbered C1 to C40, over them. Counterexamples of the form of a run are lemmas too; they
  show where the program falls short of what it means, and the hypotheses of the properties
  exclude exactly those runs (an overlapping reconnection in Webhooks, a clock that runs
  backwards in MessageLog, another tenant in CertificateInstall, and so on).

  \<^bold>\<open>What is assumed.\<close> Code outside this repository is an argument: JSON text, ISO dates, Ajv, the
  AMQP channel, fetch, the HMAC of TOTP, jsrsasign (record crypto; crypto_ok states that a PEM
  block ends where it does, that text behind it is not read, and that a signature verifies under
  the key it was made for; named_crypto satisfies it), JWTs (record jwt_env). Database queries are
  modelled where their result matters and are arguments where only their answer does. One operation of a
  table is atomic; handlers are atomic unless a theory says that it interleaves them.

  \<^bold>\<open>Bounds.\<close> Recursion is structural or has a measure; no fuel is used: what may
  not end by itself (timers, reconnections, retries) is a step relation. Numbers are exact rationals with
  NaN and the infinities where the code can meet them; doubles are not rounded. TOTP is over
  words. Strings are lists of 8-bit characters, message contents lists of UTF-16 code units.

  \<^bold>\<open>Not modelled.\<close> The generated OCPP types and schemas and the drizzle schemas are data without code; the
  message APIs of the modules only forward requests to sendCall; the remaining data APIs,
  repositories and mappers copy fields between a request and a table; redis, S3, GCP and FTP storage,
  ACME, Hubject, OIDC token fetching, MQTT, health checks and Swagger are calls of libraries; the
  OCPI packages and servers, the mock MSP and the operator UI are applications of their own; upload
  of certificates, certificate signing requests and OCSP, composite schedules, signed meter
  values, variable monitoring, display messages and reservations are left for later. PROJECT.json
  lists each with its reason.
\<close>

end
